(* ===== verification/Prelude.thy ===== *)
theory Prelude
  imports Main "HOL-Library.List_Lexorder" "HOL-Library.Char_ord" "HOL-Library.Multiset"
begin

text \<open>
  Shared vocabulary of the development: the result type of operations that may throw, the
  list operations JavaScript code uses (first match, replace the first match, remove the
  first match, de-duplicate by insertion order), and the string operations of the standard
  library that the program calls.

  Strings are lists of 8-bit characters.  Trimming knows the white space of that range;
  case mapping is exact for the ASCII letters and the identity elsewhere.
\<close>

named_theorems result_simps "unfolding the result type"
named_theorems lookup_simps "finding, replacing and removing records by their id"
named_theorems codec_simps "encoding and decoding of model values as JSON"
named_theorems frame_simps "state fields an operation leaves alone"

section \<open>Results\<close>

text \<open>A thrown error is \<open>Inl\<close>, a returned value is \<open>Inr\<close>.\<close>

definition and_then :: "'e + 'a \<Rightarrow> ('a \<Rightarrow> 'e + 'b) \<Rightarrow> 'e + 'b" where
  "and_then m f = (case m of Inl e \<Rightarrow> Inl e | Inr x \<Rightarrow> f x)"

definition require :: "bool \<Rightarrow> 'e \<Rightarrow> 'e + unit" where
  "require ok e = (if ok then Inr () else Inl e)"

fun map_result :: "('a \<Rightarrow> 'e + 'b) \<Rightarrow> 'a list \<Rightarrow> 'e + 'b list" where
  "map_result f [] = Inr []"
| "map_result f (x # xs) = and_then (f x) (\<lambda>y. and_then (map_result f xs) (\<lambda>ys. Inr (y # ys)))"

fun each_result :: "('a \<Rightarrow> 'e + unit) \<Rightarrow> 'a list \<Rightarrow> 'e + unit" where
  "each_result f [] = Inr ()"
| "each_result f (x # xs) = and_then (f x) (\<lambda>_. each_result f xs)"

fun fold_result :: "('s \<Rightarrow> 'a \<Rightarrow> 'e + 's) \<Rightarrow> 's \<Rightarrow> 'a list \<Rightarrow> 'e + 's" where
  "fold_result f s [] = Inr s"
| "fold_result f s (x # xs) = and_then (f s x) (\<lambda>s'. fold_result f s' xs)"

lemma and_then_Inl [simp, result_simps]: "and_then (Inl e) f = Inl e"
  by (simp add: and_then_def)

lemma and_then_Inr [simp, result_simps]: "and_then (Inr x) f = f x"
  by (simp add: and_then_def)

lemma and_then_eq_Inr [result_simps]: "and_then m f = Inr y \<longleftrightarrow> (\<exists>x. m = Inr x \<and> f x = Inr y)"
  by (cases m) simp_all

lemma and_then_InrE:
  assumes "and_then m f = Inr y"
  obtains x where "m = Inr x" and "f x = Inr y"
  using assms by (auto simp: and_then_eq_Inr)

lemma require_eq_Inr [simp, result_simps]: "require ok e = Inr u \<longleftrightarrow> ok"
  by (simp add: require_def)

lemma require_True [simp]: "require True e = Inr ()"
  by (simp add: require_def)

lemma require_False [simp]: "require False e = Inl e"
  by (simp add: require_def)

lemma if_Inl_eq_Inr [result_simps]: "(if b then Inl e else m) = Inr y \<longleftrightarrow> \<not> b \<and> m = Inr y"
  by simp

lemma each_result_Inr [result_simps]: "each_result f xs = Inr u \<longleftrightarrow> (\<forall>x\<in>set xs. f x = Inr ())"
  by (induction xs) (auto simp: and_then_eq_Inr)

lemma map_result_Inr: "map_result f xs = Inr ys \<longleftrightarrow> list_all2 (\<lambda>x y. f x = Inr y) xs ys"
  by (induction xs arbitrary: ys) (auto simp: and_then_eq_Inr list_all2_Cons1)

lemma fold_result_append:
  "fold_result f s (xs @ ys) = and_then (fold_result f s xs) (\<lambda>t. fold_result f t ys)"
proof (induction xs arbitrary: s)
  case (Cons x xs)
  then show ?case by (cases "f s x") simp_all
qed simp

text \<open>An invariant of every step is an invariant of the fold.\<close>

lemma fold_result_invariant:
  assumes "fold_result f s xs = Inr t" and "P s"
    and "\<And>s x t. x \<in> set xs \<Longrightarrow> P s \<Longrightarrow> f s x = Inr t \<Longrightarrow> P t"
  shows "P t"
  using assms
proof (induction xs arbitrary: s)
  case (Cons x xs)
  from Cons.prems(1) obtain s' where s': "f s x = Inr s'" "fold_result f s' xs = Inr t"
    by (auto simp: and_then_eq_Inr)
  have "P s'" using Cons.prems(2) Cons.prems(3) [of x s s'] s'(1) by simp
  then show ?case by (rule Cons.IH [OF s'(2)]) (use Cons.prems(3) in auto)
qed simp

section \<open>Lists\<close>

text \<open>\<open>[...new Set(xs)]\<close>: the first occurrence of every element, in order.\<close>

fun uniq :: "'a list \<Rightarrow> 'a list" where
  "uniq [] = []"
| "uniq (x # xs) = x # filter (\<lambda>y. y \<noteq> x) (uniq xs)"

lemma set_uniq [simp]: "set (uniq xs) = set xs"
  by (induction xs) auto

lemma distinct_uniq [simp]: "distinct (uniq xs)"
  by (induction xs) auto

lemma uniq_distinct: "distinct xs \<Longrightarrow> uniq xs = xs"
  by (induction xs) (auto simp: filter_id_conv)

text \<open>Replace the first element that satisfies a predicate; remove it.\<close>

fun map_first :: "('a \<Rightarrow> bool) \<Rightarrow> ('a \<Rightarrow> 'a) \<Rightarrow> 'a list \<Rightarrow> 'a list" where
  "map_first p f [] = []"
| "map_first p f (x # xs) = (if p x then f x # xs else x # map_first p f xs)"

fun remove_first :: "('a \<Rightarrow> bool) \<Rightarrow> 'a list \<Rightarrow> 'a list" where
  "remove_first p [] = []"
| "remove_first p (x # xs) = (if p x then xs else x # remove_first p xs)"

lemma length_map_first [simp]: "length (map_first p f xs) = length xs"
  by (induction xs) auto

lemma map_map_first_same:
  "(\<And>x. p x \<Longrightarrow> g (f x) = g x) \<Longrightarrow> map g (map_first p f xs) = map g xs"
  by (induction xs) auto

lemma find_SomeD: "List.find p xs = Some x \<Longrightarrow> x \<in> set xs \<and> p x"
  by (auto simp: find_Some_iff)

lemma find_None_set: "List.find p xs = None \<longleftrightarrow> (\<forall>x\<in>set xs. \<not> p x)"
  by (auto simp: find_None_iff)

text \<open>
  Records that carry a key.  When the keys are distinct, the first match is the only one,
  and replacing or removing it is the map or filter one expects.
\<close>

lemma find_key_unique:
  assumes "distinct (map k xs)" and "x \<in> set xs" and "k x = i"
  shows "List.find (\<lambda>y. k y = i) xs = Some x"
  using assms by (induction xs) (auto split: if_splits)

lemma find_key_Some_iff [lookup_simps]:
  "distinct (map k xs) \<Longrightarrow> List.find (\<lambda>y. k y = i) xs = Some x \<longleftrightarrow> x \<in> set xs \<and> k x = i"
  using find_SomeD [of "\<lambda>y. k y = i" xs x] find_key_unique [of k xs x i] by blast

lemma map_first_key [lookup_simps]:
  "distinct (map k xs) \<Longrightarrow>
   map_first (\<lambda>y. k y = i) f xs = map (\<lambda>y. if k y = i then f y else y) xs"
proof (induction xs)
  case (Cons x xs)
  have "map (\<lambda>y. if k y = i then f y else y) xs = xs" if "k x = i"
    using Cons.prems that by (intro map_idI) (auto simp: image_iff)
  then show ?case using Cons by auto
qed simp

lemma remove_first_key [lookup_simps]:
  "distinct (map k xs) \<Longrightarrow> remove_first (\<lambda>y. k y = i) xs = filter (\<lambda>y. k y \<noteq> i) xs"
proof (induction xs)
  case (Cons x xs)
  have "filter (\<lambda>y. k y \<noteq> i) xs = xs" if "k x = i"
    using Cons.prems that by (intro filter_True) (auto simp: image_iff)
  then show ?case using Cons by auto
qed simp

lemma set_remove_first_subset: "set (remove_first p xs) \<subseteq> set xs"
  by (induction xs) auto

lemma distinct_map_remove_first: "distinct (map k xs) \<Longrightarrow> distinct (map k (remove_first p xs))"
  using set_remove_first_subset by (induction xs) fastforce+

lemma mset_remove_first:
  "List.find p xs = Some x \<Longrightarrow> mset xs = add_mset x (mset (remove_first p xs))"
  by (induction xs) (auto split: if_splits)

lemma mset_map_first:
  "List.find p xs = Some x \<Longrightarrow>
   mset (map_first p f xs) = add_mset (f x) (mset (remove_first p xs))"
  by (induction xs) (auto split: if_splits)

text \<open>Sorting two duplicate-free lists gives the same list exactly when they hold the same elements.\<close>

lemma sort_eq_iff_mset: "sort xs = sort ys \<longleftrightarrow> mset xs = mset ys"
proof
  assume "sort xs = sort ys"
  then have "mset (sort xs) = mset (sort ys)" by simp
  then show "mset xs = mset ys" by simp
next
  assume "mset xs = mset ys"
  then show "sort xs = sort ys"
    by (intro properties_for_sort) simp_all
qed

lemma sort_eq_imp_set: "sort xs = sort ys \<Longrightarrow> set xs = set ys"
  by (metis set_sort)

section \<open>Strings\<close>

definition is_space :: "char \<Rightarrow> bool" where
  "is_space c \<longleftrightarrow> (let n = (of_char c :: nat) in (9 \<le> n \<and> n \<le> 13) \<or> n = 32 \<or> n = 160)"

definition js_trim :: "string \<Rightarrow> string" where
  "js_trim s = rev (dropWhile is_space (rev (dropWhile is_space s)))"

definition upper_char :: "char \<Rightarrow> char" where
  "upper_char c = (let n = (of_char c :: nat) in if 97 \<le> n \<and> n \<le> 122 then char_of (n - 32) else c)"

definition lower_char :: "char \<Rightarrow> char" where
  "lower_char c = (let n = (of_char c :: nat) in if 65 \<le> n \<and> n \<le> 90 then char_of (n + 32) else c)"

definition js_upper :: "string \<Rightarrow> string" where
  "js_upper s = map upper_char s"

definition js_lower :: "string \<Rightarrow> string" where
  "js_lower s = map lower_char s"

text \<open>\<open>!s.trim()\<close>: nothing but white space.\<close>

definition blank :: "string \<Rightarrow> bool" where
  "blank s \<longleftrightarrow> js_trim s = []"

lemma dropWhile_rev_idem:
  "dropWhile p xs = xs \<Longrightarrow> dropWhile p (rev (dropWhile p (rev xs))) = rev (dropWhile p (rev xs))"
proof (cases "rev (dropWhile p (rev xs))")
  case Nil
  then show ?thesis by (subst (1 2) Nil) simp
next
  case (Cons y ys)
  assume start: "dropWhile p xs = xs"
  have "xs = rev (dropWhile p (rev xs)) @ rev (takeWhile p (rev xs))"
    by (metis rev_append rev_rev_ident takeWhile_dropWhile_id)
  with Cons have hd: "xs = y # ys @ rev (takeWhile p (rev xs))" by simp
  have "\<not> p y"
  proof
    assume "p y"
    with hd have "length (dropWhile p xs) < length xs"
      by (metis dropWhile.simps(2) length_Cons length_dropWhile_le less_Suc_eq_le)
    with start show False by simp
  qed
  then show ?thesis using Cons by (subst (1 2) Cons) simp
qed

lemma dropWhile_idem': "dropWhile p (dropWhile p xs) = dropWhile p xs"
  by (induction xs) auto

lemma js_trim_idem [simp]: "js_trim (js_trim s) = js_trim s"
proof -
  let ?d = "dropWhile is_space"
  have "?d (rev (?d (rev (?d s)))) = rev (?d (rev (?d s)))"
    by (rule dropWhile_rev_idem) (rule dropWhile_idem')
  then show ?thesis by (simp add: js_trim_def dropWhile_idem')
qed

lemma blank_trim [simp]: "blank (js_trim s) \<longleftrightarrow> blank s"
  by (simp add: blank_def)

lemma blank_Nil [simp]: "blank []"
  by (simp add: blank_def js_trim_def)

text \<open>\<open>s.split(sep)\<close> for a one-character separator.\<close>

fun split_on :: "char \<Rightarrow> string \<Rightarrow> string list" where
  "split_on c [] = [[]]"
| "split_on c (x # xs) =
     (case split_on c xs of
        [] \<Rightarrow> []
      | w # ws \<Rightarrow> if x = c then [] # w # ws else (x # w) # ws)"

lemma split_on_not_Nil [simp]: "split_on c s \<noteq> []"
  by (induction s) (auto split: list.splits)

lemma split_on_no_sep: "c \<notin> set s \<Longrightarrow> split_on c s = [s]"
  by (induction s) auto

definition plural_s :: "nat \<Rightarrow> string" where
  "plural_s n = (if n = 1 then '''' else ''s'')"

fun digits_of :: "nat \<Rightarrow> string" where
  "digits_of n = (if n < 10 then [char_of (48 + n)]
                  else digits_of (n div 10) @ [char_of (48 + n mod 10)])"

declare digits_of.simps [simp del]

end
