(* ===== verification/JsNumber.thy ===== *)
theory JsNumber
  imports Prelude Complex_Main "HOL-Library.Log_Nat"
begin

text \<open>
  JavaScript numbers: IEEE 754 doubles.  A finite non-zero double and positive zero are
  \<open>Fin r\<close> with the exact rational value \<open>r\<close>; negative zero, the infinities and the
  not-a-number value have constructors of their own.  Sums and differences are computed
  exactly and rounded to the nearest double, ties to even.

  The lemmas give what the program relies on: integers up to \<open>2^53\<close> are added exactly, the
  sum of positive numbers is positive, and subtracting a smaller number from a larger one
  never rounds to zero.
\<close>

datatype jsnum = Fin rat | NegZero | PosInf | NegInf | NaN

fun is_finite :: "jsnum \<Rightarrow> bool" where
  "is_finite (Fin r) = True"
| "is_finite NegZero = True"
| "is_finite x = False"

fun num_val :: "jsnum \<Rightarrow> rat" where
  "num_val (Fin r) = r"
| "num_val x = 0"

section \<open>Comparison\<close>

text \<open>\<open>===\<close> (which \<open>Object.is\<close>, that is \<open>=\<close>, refines), \<open><\<close> and \<open><=\<close>.\<close>

fun js_eq :: "jsnum \<Rightarrow> jsnum \<Rightarrow> bool" where
  "js_eq PosInf PosInf = True"
| "js_eq NegInf NegInf = True"
| "js_eq x y = (is_finite x \<and> is_finite y \<and> num_val x = num_val y)"

fun js_less :: "jsnum \<Rightarrow> jsnum \<Rightarrow> bool" where
  "js_less NaN y = False"
| "js_less x NaN = False"
| "js_less NegInf y = (y \<noteq> NegInf)"
| "js_less x NegInf = False"
| "js_less PosInf y = False"
| "js_less x PosInf = True"
| "js_less x y = (num_val x < num_val y)"

definition js_le :: "jsnum \<Rightarrow> jsnum \<Rightarrow> bool" where
  "js_le x y \<longleftrightarrow> js_less x y \<or> js_eq x y"

section \<open>Rounding to the nearest double\<close>

definition floor_log2 :: "rat \<Rightarrow> int" where
  "floor_log2 q =
     (let (n, d) = quotient_of q; e = bitlen n - bitlen d
      in if 2 powi e \<le> q then e else e - 1)"

definition round_half_even :: "rat \<Rightarrow> int" where
  "round_half_even q =
     (let f = \<lfloor>q\<rfloor>; r = q - of_int f
      in if r < 1 / 2 then f else if r > 1 / 2 then f + 1 else if even f then f else f + 1)"

text \<open>
  52 fraction bits, least exponent \<open>-1022\<close>: every double is a multiple of
  \<open>2^min_exponent\<close>, and a rounded value of \<open>2^1024\<close> or more is infinite.
\<close>

definition min_exponent :: int where
  "min_exponent = -1074"

definition overflow_bound :: rat where
  "overflow_bound = 2 ^ 1024"

definition round_pos :: "rat \<Rightarrow> rat" where
  "round_pos q =
     (let u = 2 powi (max (floor_log2 q - 52) min_exponent)
      in of_int (round_half_even (q / u)) * u)"

definition round_double :: "rat \<Rightarrow> jsnum" where
  "round_double q =
     (if q = 0 then Fin 0
      else let r = round_pos \<bar>q\<bar>
      in if overflow_bound \<le> r then (if 0 < q then PosInf else NegInf)
         else if r = 0 \<and> q < 0 then NegZero
         else Fin (sgn q * r))"

section \<open>Arithmetic\<close>

fun js_neg :: "jsnum \<Rightarrow> jsnum" where
  "js_neg (Fin r) = (if r = 0 then NegZero else Fin (- r))"
| "js_neg NegZero = Fin 0"
| "js_neg PosInf = NegInf"
| "js_neg NegInf = PosInf"
| "js_neg NaN = NaN"

fun js_add :: "jsnum \<Rightarrow> jsnum \<Rightarrow> jsnum" where
  "js_add NaN y = NaN"
| "js_add x NaN = NaN"
| "js_add PosInf y = (if y = NegInf then NaN else PosInf)"
| "js_add x PosInf = (if x = NegInf then NaN else PosInf)"
| "js_add NegInf y = NegInf"
| "js_add x NegInf = NegInf"
| "js_add NegZero NegZero = NegZero"
| "js_add x y = round_double (num_val x + num_val y)"

definition js_sub :: "jsnum \<Rightarrow> jsnum \<Rightarrow> jsnum" where
  "js_sub x y = js_add x (js_neg y)"

text \<open>\<open>Math.max\<close> of two numbers.\<close>

definition js_max :: "jsnum \<Rightarrow> jsnum \<Rightarrow> jsnum" where
  "js_max x y =
     (if x = NaN \<or> y = NaN then NaN
      else if js_less x y then y
      else if js_less y x then x
      else if x = NegZero then y else x)"

definition max_safe :: int where
  "max_safe = 9007199254740991"

fun is_integer :: "jsnum \<Rightarrow> bool" where
  "is_integer (Fin r) = (of_int \<lfloor>r\<rfloor> = r)"
| "is_integer NegZero = True"
| "is_integer x = False"

definition is_safe_integer :: "jsnum \<Rightarrow> bool" where
  "is_safe_integer x \<longleftrightarrow> is_integer x \<and> \<bar>num_val x\<bar> \<le> of_int max_safe"

abbreviation JsInt :: "int \<Rightarrow> jsnum" where
  "JsInt n \<equiv> Fin (of_int n)"

section \<open>Number to string\<close>

text \<open>
  \<open>String(x)\<close>, which template literals use: the least number of decimal digits that
  reads back as the same double.  \<open>decimal_exponent q\<close> is the \<open>n\<close> with
  \<open>10^(n-1) <= q < 10^n\<close>; a positive double lies between \<open>10^-324\<close> and \<open>10^309\<close>, so 700
  steps of search reach it.
\<close>

definition decimal_exponent :: "rat \<Rightarrow> int" where
  "decimal_exponent q =
     (case List.find (\<lambda>k. q < 10 powi (int k - 340)) [0..<700] of
        Some k \<Rightarrow> int k - 340 | None \<Rightarrow> 0)"

definition shortest_digits :: "rat \<Rightarrow> int \<times> int" where
  "shortest_digits q =
     (let n = decimal_exponent q;
          digit = (\<lambda>k. round_half_even (q * 10 powi (int k - n)));
          back = (\<lambda>k. round_double (of_int (digit k) * 10 powi (n - int k)) = Fin q)
      in case List.find back [1..<18] of
           Some k \<Rightarrow> (digit k, if 10 ^ k \<le> digit k then n + 1 else n)
         | None \<Rightarrow> (digit 17, n))"

definition strip_zeros :: "string \<Rightarrow> string" where
  "strip_zeros s = rev (dropWhile (\<lambda>c. c = CHR ''0'') (rev s))"

definition positive_string :: "rat \<Rightarrow> string" where
  "positive_string q =
     (let (s, n) = shortest_digits q; ds = strip_zeros (digits_of (nat s)); k = int (length ds)
      in if k \<le> n \<and> n \<le> 21 then ds @ replicate (nat (n - k)) CHR ''0''
         else if 0 < n \<and> n \<le> 21 then take (nat n) ds @ ''.'' @ drop (nat n) ds
         else if -6 < n \<and> n \<le> 0 then ''0.'' @ replicate (nat (- n)) CHR ''0'' @ ds
         else take 1 ds @ (if k = 1 then [] else ''.'' @ drop 1 ds) @ ''e'' @
              (if n - 1 < 0 then ''-'' else ''+'') @ digits_of (nat \<bar>n - 1\<bar>))"

fun num_to_string :: "jsnum \<Rightarrow> string" where
  "num_to_string (Fin r) =
     (if r = 0 then ''0'' else if r < 0 then ''-'' @ positive_string (- r) else positive_string r)"
| "num_to_string NegZero = ''0''"
| "num_to_string PosInf = ''Infinity''"
| "num_to_string NegInf = ''-Infinity''"
| "num_to_string NaN = ''NaN''"

section \<open>Facts about comparison\<close>

lemma is_finite_cases:
  "is_finite x \<Longrightarrow> (\<And>r. x = Fin r \<Longrightarrow> P) \<Longrightarrow> (x = NegZero \<Longrightarrow> P) \<Longrightarrow> P"
  by (cases x) auto

lemma js_eq_finite: "is_finite x \<Longrightarrow> is_finite y \<Longrightarrow> js_eq x y \<longleftrightarrow> num_val x = num_val y"
  by (cases x; cases y) auto

lemma js_less_finite: "is_finite x \<Longrightarrow> is_finite y \<Longrightarrow> js_less x y \<longleftrightarrow> num_val x < num_val y"
  by (cases x; cases y) auto

lemma js_le_finite: "is_finite x \<Longrightarrow> is_finite y \<Longrightarrow> js_le x y \<longleftrightarrow> num_val x \<le> num_val y"
  by (auto simp: js_le_def js_less_finite js_eq_finite)

lemma js_eq_finiteD: "js_eq x y \<Longrightarrow> is_finite x \<longleftrightarrow> is_finite y"
  by (cases x; cases y) auto

lemma js_eq_num_val: "js_eq x y \<Longrightarrow> num_val x = num_val y"
  by (cases x; cases y) auto

lemma js_eq_refl: "x \<noteq> NaN \<Longrightarrow> js_eq x x"
  by (cases x) auto

text \<open>A positive finite number is \<open>Fin r\<close> with \<open>r > 0\<close>.\<close>

lemma positive_finite_iff:
  "is_finite x \<and> js_less (Fin 0) x \<longleftrightarrow> (\<exists>r>0. x = Fin r)"
  by (cases x) auto

lemma is_finite_js_max: "is_finite x \<Longrightarrow> is_finite y \<Longrightarrow> is_finite (js_max x y)"
  by (auto simp: js_max_def)

lemma safe_integer_Fin:
  "is_safe_integer x \<Longrightarrow> \<exists>n. num_val x = of_int n \<and> \<bar>n\<bar> \<le> max_safe \<and> is_finite x"
proof (cases x)
  case (Fin r)
  assume "is_safe_integer x"
  with Fin have "of_int \<lfloor>r\<rfloor> = r" and "\<bar>of_int \<lfloor>r\<rfloor> :: rat\<bar> \<le> of_int max_safe"
    by (auto simp: is_safe_integer_def)
  moreover from this(2) have "\<bar>\<lfloor>r\<rfloor>\<bar> \<le> max_safe"
    by (metis of_int_abs of_int_le_iff)
  ultimately show ?thesis using Fin by (intro exI [of _ "\<lfloor>r\<rfloor>"]) (metis is_finite.simps(1) num_val.simps(1))
qed (auto simp: is_safe_integer_def max_safe_def intro: exI [of _ 0])

section \<open>Facts about rounding\<close>

lemma quotient_of_pos: "0 < q \<Longrightarrow> quotient_of q = (n, d) \<Longrightarrow> 0 < n \<and> 0 < d"
  by (metis quotient_of_denom_pos quotient_of_div zero_less_divide_iff of_int_0_less_iff
      less_asym')

lemma bitlen_bounds_powi:
  assumes "0 < n"
  shows "2 powi (bitlen n - 1) \<le> (of_int n :: rat)" and "(of_int n :: rat) < 2 powi bitlen n"
proof -
  have b: "2 ^ nat (bitlen n - 1) \<le> n" "n < 2 ^ nat (bitlen n)"
    using bitlen_bounds [OF assms] by simp_all
  have p: "0 < bitlen n"
    using assms bitlen_nonneg [of n] bitlen_eq_zero_iff [of n] by linarith
  have "(of_int (2 ^ nat (bitlen n - 1)) :: rat) \<le> of_int n"
    using b(1) by (simp only: of_int_le_iff)
  then show "2 powi (bitlen n - 1) \<le> (of_int n :: rat)"
    using p by (simp add: power_int_def)
  have "(of_int n :: rat) < of_int (2 ^ nat (bitlen n))"
    using b(2) by (simp only: of_int_less_iff)
  then show "(of_int n :: rat) < 2 powi bitlen n"
    using p by (simp add: power_int_def)
qed

lemma floor_log2_bounds:
  assumes "0 < q"
  shows "2 powi floor_log2 q \<le> q" and "q < 2 powi (floor_log2 q + 1)"
proof -
  obtain n d where nd: "quotient_of q = (n, d)" by force
  with assms have pos: "0 < n" "0 < d" using quotient_of_pos by blast+
  have q: "q = of_int n / of_int d" using nd by (rule quotient_of_div)
  let ?e = "bitlen n - bitlen d"
  note N = bitlen_bounds_powi [OF pos(1)] and D = bitlen_bounds_powi [OF pos(2)]
  have "q < 2 powi bitlen n / 2 powi (bitlen d - 1)"
    unfolding q using N D pos
    by (intro frac_less) (simp_all add: zero_less_power_int)
  then have up: "q < 2 powi (?e + 1)"
    by (simp add: power_int_diff [symmetric] algebra_simps)
  have "2 powi (bitlen n - 1) / 2 powi bitlen d \<le> q"
    unfolding q using N D pos
    by (intro frac_le) (simp_all add: less_imp_le)
  then have lo: "2 powi (?e - 1) \<le> q"
    by (simp add: power_int_diff [symmetric] algebra_simps)
  show "2 powi floor_log2 q \<le> q" and "q < 2 powi (floor_log2 q + 1)"
    using up lo by (auto simp: floor_log2_def nd Let_def)
qed

lemma round_half_even_of_int [simp]: "round_half_even (of_int k) = k"
  by (simp add: round_half_even_def)

lemma round_half_even_ge: "of_int k \<le> q \<Longrightarrow> k \<le> round_half_even q"
proof -
  assume "of_int k \<le> q"
  then have "k \<le> \<lfloor>q\<rfloor>" by (simp add: le_floor_iff)
  moreover have "\<lfloor>q\<rfloor> \<le> round_half_even q" by (simp add: round_half_even_def Let_def)
  ultimately show ?thesis by simp
qed

text \<open>Every double is an integer multiple of \<open>2^min_exponent\<close>; so is every rounded value.\<close>

definition on_grid :: "rat \<Rightarrow> bool" where
  "on_grid r \<longleftrightarrow> (\<exists>k::int. r = of_int k * 2 powi min_exponent)"

lemma on_grid_add: "on_grid a \<Longrightarrow> on_grid b \<Longrightarrow> on_grid (a + b)"
  unfolding on_grid_def by (metis distrib_right of_int_add)

lemma on_grid_minus: "on_grid a \<Longrightarrow> on_grid (- a)"
  unfolding on_grid_def by (metis mult_minus_left of_int_minus)

lemma on_grid_0 [simp]: "on_grid 0"
  unfolding on_grid_def by (intro exI [of _ 0]) simp

lemma powi_split: "m \<le> e \<Longrightarrow> (2::rat) powi e = of_int (2 ^ nat (e - m)) * 2 powi m"
proof -
  assume "m \<le> e"
  then have "(2::rat) powi (e - m) = of_int (2 ^ nat (e - m))"
    by (simp add: power_int_def)
  moreover have "(2::rat) powi e = 2 powi (e - m) * 2 powi m"
    by (simp add: power_int_add [symmetric])
  ultimately show ?thesis by simp
qed

lemma on_grid_powi: "min_exponent \<le> e \<Longrightarrow> on_grid (of_int n * 2 powi e)"
  unfolding on_grid_def using powi_split [of min_exponent e]
  by (metis mult.assoc of_int_mult)

lemma on_grid_of_int [simp]: "on_grid (of_int n)"
  using on_grid_powi [of 0 n] by (simp add: min_exponent_def)

lemma on_grid_round_pos: "on_grid (round_pos q)"
  unfolding round_pos_def Let_def by (rule on_grid_powi) simp

lemma round_pos_positive:
  assumes "0 < q" and "on_grid q"
  shows "0 < round_pos q"
proof -
  let ?u = "(2::rat) powi (max (floor_log2 q - 52) min_exponent)"
  have u: "0 < ?u" by simp
  have "?u \<le> q"
  proof (cases "min_exponent \<le> floor_log2 q - 52")
    case True
    then have "?u \<le> 2 powi floor_log2 q"
      by (intro power_int_increasing) simp_all
    also have "\<dots> \<le> q" by (rule floor_log2_bounds(1) [OF assms(1)])
    finally show ?thesis .
  next
    case False
    obtain k where k: "q = of_int k * 2 powi min_exponent"
      using assms(2) unfolding on_grid_def by blast
    have "(0::rat) < 2 powi min_exponent" by simp
    with assms(1) have "0 < (of_int k :: rat)" unfolding k
      by (metis mult_pos_pos mult.commute not_less_iff_gr_or_eq zero_less_mult_pos)
    then have "(1::rat) \<le> of_int k" by simp
    then have "1 * 2 powi min_exponent \<le> q" unfolding k
      by (intro mult_right_mono) simp_all
    moreover have "?u = 2 powi min_exponent" using False by (simp add: max_def)
    ultimately show ?thesis by simp
  qed
  then have "of_int 1 \<le> q / ?u" using u by (simp add: pos_le_divide_eq)
  then have "1 \<le> round_half_even (q / ?u)" by (rule round_half_even_ge)
  then show ?thesis using u by (simp add: round_pos_def Let_def)
qed

lemma two_powi_less_iff: "(2::rat) powi m < 2 powi n \<longleftrightarrow> m < n"
  using power_int_strict_increasing [of m n "2::rat"] power_int_increasing [of n m "2::rat"]
  by (cases "m < n") auto

lemma round_pos_of_int:
  assumes "0 < n" and "n \<le> 2 ^ 53"
  shows "round_pos (of_int n) = of_int n"
proof -
  let ?q = "of_int n :: rat"
  have q: "0 < ?q" using assms(1) by simp
  have "n < 2 ^ 54" using assms(2) by simp
  then have "?q < of_int (2 ^ 54)" by (simp only: of_int_less_iff)
  then have "?q < 2 powi 54" by simp
  with floor_log2_bounds(1) [OF q] have "(2::rat) powi floor_log2 ?q < 2 powi 54" by simp
  then have hi: "floor_log2 ?q < 54" by (simp only: two_powi_less_iff)
  have "(1::rat) \<le> ?q" using assms(1) by simp
  with floor_log2_bounds(2) [OF q] have "(2::rat) powi 0 < 2 powi (floor_log2 ?q + 1)" by simp
  then have lo: "0 \<le> floor_log2 ?q" by (simp only: two_powi_less_iff)
  let ?u = "(2::rat) powi (floor_log2 ?q - 52)"
  have "\<exists>k. ?q / ?u = of_int k"
  proof (cases "floor_log2 ?q \<le> 52")
    case True
    then have "1 = of_int (2 ^ nat (52 - floor_log2 ?q)) * ?u"
      using powi_split [of "floor_log2 ?q - 52" 0] by simp
    then have "?q = of_int (n * 2 ^ nat (52 - floor_log2 ?q)) * ?u"
      by (metis mult.assoc mult.right_neutral of_int_mult)
    then show ?thesis by (metis nonzero_mult_div_cancel_right power_int_not_zero zero_neq_numeral)
  next
    case False
    with hi have e: "floor_log2 ?q = 53" by simp
    with floor_log2_bounds(1) [OF q] have "of_int (2 ^ 53) \<le> ?q" by simp
    then have "2 ^ 53 \<le> n" by (simp only: of_int_le_iff)
    with assms(2) have "?q = of_int (2 * 2 ^ 52)" by simp
    moreover have "?u = 2" by (simp add: e)
    ultimately have "?q / ?u = of_int (2 ^ 52)" by simp
    then show ?thesis by blast
  qed
  then obtain k where k: "?q / ?u = of_int k" ..
  have "?q = of_int k * ?u" using k by (simp add: field_simps)
  moreover have "max (floor_log2 ?q - 52) min_exponent = floor_log2 ?q - 52"
    using lo by (simp add: min_exponent_def)
  ultimately show ?thesis using k by (simp add: round_pos_def Let_def)
qed

lemma max_safe_less_overflow: "of_int (2 ^ 53) < overflow_bound"
  by (simp add: overflow_bound_def)

lemma round_double_of_int: "\<bar>n\<bar> \<le> 2 ^ 53 \<Longrightarrow> round_double (of_int n) = JsInt n"
proof (cases "n = 0")
  case False
  assume n: "\<bar>n\<bar> \<le> 2 ^ 53"
  have r: "round_pos \<bar>of_int n\<bar> = of_int \<bar>n\<bar>"
    using round_pos_of_int [of "\<bar>n\<bar>"] False n by simp
  have "(of_int \<bar>n\<bar> :: rat) \<le> of_int (2 ^ 53)" using n by (simp only: of_int_le_iff)
  also have "\<dots> < overflow_bound" by (rule max_safe_less_overflow)
  finally have "\<not> overflow_bound \<le> \<bar>of_int n :: rat\<bar>" by simp
  moreover have "sgn (of_int n :: rat) * \<bar>of_int n\<bar> = of_int n"
    by (simp add: sgn_if)
  ultimately show ?thesis using False by (simp add: round_double_def Let_def r [simplified])
qed (simp add: round_double_def)

section \<open>The largest double\<close>

text \<open>Rounding a number up to \<open>2^1024 - 2^971\<close> does not overflow, and no finite result is larger.\<close>

lemma round_half_even_le: "q \<le> of_int k \<Longrightarrow> round_half_even q \<le> k"
proof -
  assume q: "q \<le> of_int k"
  have "\<lfloor>q\<rfloor> \<le> k" using q by (metis floor_mono floor_of_int)
  moreover have "\<lfloor>q\<rfloor> < k" if "q - of_int \<lfloor>q\<rfloor> \<ge> 1 / 2"
  proof (rule ccontr)
    assume "\<not> ?thesis"
    with calculation have "\<lfloor>q\<rfloor> = k" by simp
    with q that show False by simp
  qed
  ultimately show ?thesis by (auto simp: round_half_even_def Let_def)
qed

definition max_double :: rat where
  "max_double = 2 ^ 1024 - 2 ^ 971"

lemma max_double_split:
  assumes "m \<le> 971"
  shows "max_double = of_int (2 ^ nat (1024 - m) - 2 ^ nat (971 - m)) * 2 powi m"
proof -
  have "(2::rat) powi 1024 = of_int (2 ^ nat (1024 - m)) * 2 powi m"
    by (rule powi_split) (use assms in simp)
  moreover have "(2::rat) powi 971 = of_int (2 ^ nat (971 - m)) * 2 powi m"
    by (rule powi_split) (use assms in simp)
  moreover have "max_double = 2 powi 1024 - 2 powi 971"
    unfolding max_double_def by (metis power_int_numeral)
  ultimately show ?thesis by (simp add: left_diff_distrib)
qed

lemma max_double_less: "max_double < overflow_bound"
  by (simp add: max_double_def overflow_bound_def)

lemma round_pos_le_max:
  assumes "0 < q" and "q \<le> max_double"
  shows "round_pos q \<le> max_double"
proof -
  let ?m = "max (floor_log2 q - 52) min_exponent"
  have "2 powi floor_log2 q < (2::rat) powi 1024"
    using floor_log2_bounds(1) [OF assms(1)] assms(2) max_double_less
    by (simp add: overflow_bound_def)
  then have "floor_log2 q < 1024" by (simp only: two_powi_less_iff)
  then have m: "?m \<le> 971" by (simp add: min_exponent_def)
  have u: "(0::rat) < 2 powi ?m" by simp
  let ?k = "2 ^ nat (1024 - ?m) - 2 ^ nat (971 - ?m) :: int"
  have "q / 2 powi ?m \<le> of_int ?k"
    using assms(2) u unfolding max_double_split [OF m] by (simp only: pos_divide_le_eq)
  then have "round_half_even (q / 2 powi ?m) \<le> ?k" by (rule round_half_even_le)
  then have "of_int (round_half_even (q / 2 powi ?m)) * 2 powi ?m \<le> of_int ?k * (2::rat) powi ?m"
    using u by (intro mult_right_mono) (simp_all only: of_int_le_iff less_imp_le)
  then show ?thesis unfolding max_double_split [OF m] round_pos_def Let_def .
qed

lemma round_pos_below:
  assumes "0 < q" and "round_pos q < overflow_bound"
  shows "round_pos q \<le> max_double"
proof (cases "q \<le> max_double")
  case True
  with assms(1) show ?thesis by (rule round_pos_le_max)
next
  case False
  let ?e = "floor_log2 q"
  let ?n = "round_half_even (q / 2 powi (?e - 52))"
  have "(2::rat) powi 1023 \<le> max_double" by (simp add: max_double_def)
  with False floor_log2_bounds(2) [OF assms(1)] have "(2::rat) powi 1023 < 2 powi (?e + 1)" by simp
  then have "1023 < ?e + 1" by (simp only: two_powi_less_iff)
  then have e: "1023 \<le> ?e" by simp
  then have rp: "round_pos q = of_int ?n * 2 powi (?e - 52)"
    by (simp add: round_pos_def Let_def min_exponent_def max_def)
  show ?thesis
  proof (cases "?e = 1023")
    case True
    have "of_int ?n * 2 powi 971 < (of_int (2 ^ 53) :: rat) * 2 powi 971"
      using assms(2) rp True by (simp add: overflow_bound_def)
    then have "(of_int ?n :: rat) < of_int (2 ^ 53)"
      by (rule mult_right_less_imp_less) simp
    then have "?n \<le> 2 ^ 53 - 1" by (simp only: of_int_less_iff)
    then have "of_int ?n * (2::rat) powi 971 \<le> of_int (2 ^ 53 - 1) * 2 powi 971"
      by (intro mult_right_mono) (simp_all only: of_int_le_iff, simp)
    also have "\<dots> = max_double" by (simp add: max_double_def)
    finally show ?thesis using rp True by simp
  next
    case False
    with e have e': "1024 \<le> ?e" by simp
    have "(2::rat) powi ?e = of_int (2 ^ 52) * 2 powi (?e - 52)"
      using powi_split [of "?e - 52" ?e] by simp
    with floor_log2_bounds(1) [OF assms(1)] have "of_int (2 ^ 52) \<le> q / 2 powi (?e - 52)"
      by (simp add: pos_le_divide_eq)
    then have "2 ^ 52 \<le> ?n" by (rule round_half_even_ge)
    then have "of_int (2 ^ 52) * (2::rat) powi (?e - 52) \<le> of_int ?n * 2 powi (?e - 52)"
      by (intro mult_right_mono) (simp_all only: of_int_le_iff, simp)
    then have "2 powi ?e \<le> round_pos q" using rp \<open>2 powi ?e = _\<close> by simp
    moreover have "(2::rat) powi 1024 \<le> 2 powi ?e" using e' by (intro power_int_increasing) simp_all
    ultimately show ?thesis using assms(2) by (simp add: overflow_bound_def)
  qed
qed

section \<open>Facts about sums and differences\<close>

text \<open>Numbers on the grid of the doubles and in their range.\<close>

fun num_ok :: "jsnum \<Rightarrow> bool" where
  "num_ok (Fin r) = (on_grid r \<and> \<bar>r\<bar> \<le> max_double)"
| "num_ok x = True"

lemma max_double_positive [simp]: "0 < max_double" "0 \<le> max_double"
  by (simp_all add: max_double_def)

lemma num_ok_round_double [simp]: "num_ok (round_double q)"
proof (cases "q = 0 \<or> overflow_bound \<le> round_pos \<bar>q\<bar>")
  case False
  then have "round_pos \<bar>q\<bar> \<le> max_double" by (intro round_pos_below) auto
  moreover have "0 \<le> round_pos \<bar>q\<bar>"
    using round_half_even_ge [of 0 "\<bar>q\<bar> / 2 powi (max (floor_log2 \<bar>q\<bar> - 52) min_exponent)"]
    by (simp add: round_pos_def Let_def)
  ultimately show ?thesis
    using on_grid_round_pos [of "\<bar>q\<bar>"] False
    by (auto simp: round_double_def Let_def sgn_if intro: on_grid_minus)
qed (auto simp: round_double_def Let_def)

lemma num_ok_add [simp]: "num_ok (js_add x y)"
  by (cases x; cases y) auto

lemma num_ok_sub [simp]: "num_ok (js_sub x y)"
  by (simp add: js_sub_def)

lemma num_ok_grid: "num_ok x \<Longrightarrow> on_grid (num_val x)"
  by (cases x) auto

lemma round_double_positive:
  assumes "0 < q" and "on_grid q" and "is_finite (round_double q)"
  shows "\<exists>r>0. round_double q = Fin r"
  using assms round_pos_positive [OF assms(1,2)]
  by (auto simp: round_double_def Let_def sgn_if split: if_splits)

lemma js_add_positive:
  assumes "0 < a" and "0 < b" and "on_grid a" and "on_grid b"
    and "is_finite (js_add (Fin a) (Fin b))"
  shows "\<exists>r>0. js_add (Fin a) (Fin b) = Fin r"
  using assms by (auto intro!: round_double_positive on_grid_add)

lemma js_sub_positive:
  assumes "b < a" and "on_grid a" and "on_grid b" and "is_finite (js_sub (Fin a) (Fin b))"
  shows "\<exists>r>0. js_sub (Fin a) (Fin b) = Fin r"
proof -
  have e: "js_sub (Fin a) (Fin b) = round_double (a - b)"
    by (simp add: js_sub_def)
  have "on_grid (a - b)" using on_grid_add [OF assms(2) on_grid_minus [OF assms(3)]] by simp
  then show ?thesis using assms(1,4) unfolding e by (intro round_double_positive) simp_all
qed

text \<open>Taking a smaller double from a larger one neither overflows nor vanishes.\<close>

lemma js_sub_smaller:
  assumes "0 < b" and "b < a" and "num_ok (Fin a)" and "num_ok (Fin b)"
  shows "\<exists>r>0. js_sub (Fin a) (Fin b) = Fin r"
proof (rule js_sub_positive [OF assms(2)])
  have "round_pos (a - b) \<le> max_double" using assms by (intro round_pos_le_max) auto
  also note max_double_less
  finally show "is_finite (js_sub (Fin a) (Fin b))"
    using assms(1,2) by (simp add: js_sub_def round_double_def Let_def)
qed (use assms in simp_all)

lemma js_sub_self: "js_sub (Fin a) (Fin a) = Fin 0"
  by (simp add: js_sub_def round_double_def)

lemma js_add_int: "\<bar>m + n\<bar> \<le> 2 ^ 53 \<Longrightarrow> js_add (JsInt m) (JsInt n) = JsInt (m + n)"
  using round_double_of_int [of "m + n"] by simp

lemma js_sub_int: "\<bar>m - n\<bar> \<le> 2 ^ 53 \<Longrightarrow> js_sub (JsInt m) (JsInt n) = JsInt (m - n)"
  using round_double_of_int [of "m - n"] by (auto simp: js_sub_def)

lemma js_succ_safe:
  assumes "is_safe_integer x" and "js_less x (JsInt max_safe)"
  obtains n where "num_val x = of_int n" and "js_add x (Fin 1) = JsInt (n + 1)"
    and "n + 1 \<le> max_safe" and "is_safe_integer (js_add x (Fin 1))"
proof -
  obtain n where n: "num_val x = of_int n" "\<bar>n\<bar> \<le> max_safe" "is_finite x"
    using safe_integer_Fin [OF assms(1)] by blast
  have "n < max_safe" using assms(2) n by (simp add: js_less_finite)
  then have lt: "n + 1 \<le> max_safe" by simp
  have r: "round_double (of_int (n + 1)) = JsInt (n + 1)"
    using n(2) lt by (intro round_double_of_int) (simp add: max_safe_def)
  have "js_add x (Fin 1) = round_double (of_int (n + 1))"
    using n(1,3) by (cases x) (auto simp: add.commute)
  then have a: "js_add x (Fin 1) = JsInt (n + 1)" using r by simp
  have "\<bar>of_int (n + 1) :: rat\<bar> \<le> of_int max_safe"
    using n(2) lt by (simp only: of_int_abs [symmetric] of_int_le_iff)
  then have "is_safe_integer (js_add x (Fin 1))"
    unfolding a by (simp add: is_safe_integer_def)
  with that n(1) a lt show ?thesis by blast
qed

end
