(* ===== verification/Json.thy ===== *)
theory Json
  imports JsNumber "HOL-Library.AList"
begin

text \<open>
  JSON values as the program handles them: the payloads of commands, the values of field
  patches and the expected values of a command's expectations.  An object is the list of its
  properties in insertion order; \<open>undefined\<close> is the absence of a value, \<open>None\<close> of type
  \<open>json option\<close>.

  Modelled from \<open>src/domain/commands.ts\<close> and \<open>src/domain/import.ts\<close>: the deep comparison
  \<open>equal\<close>, \<open>isRecord\<close>, \<open>isStringArray\<close>, and the reading and writing of a property path.

  A path that reads through an array, or reads a name every object inherits from its
  prototype (\<open>toString\<close> and its kin), leaves the model: the readers then return \<open>None\<close>
  where they otherwise return \<open>Some\<close> of a value or of \<open>undefined\<close>.
\<close>

datatype json =
    JNull
  | JBool bool
  | JNum jsnum
  | JStr string
  | JArr "json list"
  | JObj "(string \<times> json) list"

type_synonym jsobj = "(string \<times> json) list"

section \<open>Types and coercions\<close>

fun is_record :: "json \<Rightarrow> bool" where
  "is_record (JObj m) = True"
| "is_record j = False"

fun is_string :: "json \<Rightarrow> bool" where
  "is_string (JStr s) = True"
| "is_string j = False"

fun is_bool :: "json \<Rightarrow> bool" where
  "is_bool (JBool b) = True"
| "is_bool j = False"

fun is_string_array :: "json \<Rightarrow> bool" where
  "is_string_array (JArr xs) = list_all is_string xs"
| "is_string_array j = False"

text \<open>\<open>Number.isFinite\<close> and \<open>Number.isSafeInteger\<close> do not coerce.\<close>

fun num_finite :: "json \<Rightarrow> bool" where
  "num_finite (JNum n) = is_finite n"
| "num_finite j = False"

fun num_positive :: "json \<Rightarrow> bool" where
  "num_positive (JNum n) = (is_finite n \<and> js_less (Fin 0) n)"
| "num_positive j = False"

fun num_safe_integer :: "json \<Rightarrow> bool" where
  "num_safe_integer (JNum n) = is_safe_integer n"
| "num_safe_integer j = False"

text \<open>Truthiness of a value that may be \<open>undefined\<close>.\<close>

fun truthy :: "json option \<Rightarrow> bool" where
  "truthy None = False"
| "truthy (Some JNull) = False"
| "truthy (Some (JBool b)) = b"
| "truthy (Some (JNum n)) = (n \<noteq> NaN \<and> num_val n \<noteq> 0 \<or> n = PosInf \<or> n = NegInf)"
| "truthy (Some (JStr s)) = (s \<noteq> [])"
| "truthy (Some j) = True"

fun nonblank_string :: "json \<Rightarrow> bool" where
  "nonblank_string (JStr s) = (\<not> blank s)"
| "nonblank_string j = False"

text \<open>\<open>String(value)\<close>: an array is its elements joined by commas, \<open>null\<close> elements empty.\<close>

fun join_with :: "string \<Rightarrow> string list \<Rightarrow> string" where
  "join_with sep [] = []"
| "join_with sep [x] = x"
| "join_with sep (x # xs) = x @ sep @ join_with sep xs"

fun js_String :: "json \<Rightarrow> string" where
  "js_String JNull = ''null''"
| "js_String (JBool b) = (if b then ''true'' else ''false'')"
| "js_String (JNum n) = num_to_string n"
| "js_String (JStr s) = s"
| "js_String (JArr xs) =
     join_with '','' (map (\<lambda>x. if x = JNull then [] else js_String x) xs)"
| "js_String (JObj m) = ''[object Object]''"

section \<open>Properties\<close>

definition jget :: "string \<Rightarrow> json \<Rightarrow> json option" where
  "jget k j = (case j of JObj m \<Rightarrow> map_of m k | _ \<Rightarrow> None)"

definition jkeys :: "json \<Rightarrow> string list" where
  "jkeys j = (case j of JObj m \<Rightarrow> map fst m | _ \<Rightarrow> [])"

text \<open>\<open>{ ...base, ...changes }\<close>.\<close>

definition obj_merge :: "jsobj \<Rightarrow> jsobj \<Rightarrow> jsobj" where
  "obj_merge base changes = fold (\<lambda>(k, v). AList.update k v) changes base"

text \<open>An object with exactly the given properties, in any order.\<close>

definition has_exact_keys :: "string list \<Rightarrow> jsobj \<Rightarrow> bool" where
  "has_exact_keys ks m \<longleftrightarrow> distinct (map fst m) \<and> set (map fst m) = set ks"

lemma jget_JObj [simp]: "jget k (JObj m) = map_of m k"
  by (simp add: jget_def)

lemma jget_not_record: "\<not> is_record j \<Longrightarrow> jget k j = None"
  by (cases j) (simp_all add: jget_def)

lemma jkeys_JObj [simp]: "jkeys (JObj m) = map fst m"
  by (simp add: jkeys_def)

lemma map_of_obj_merge:
  "distinct (map fst changes) \<Longrightarrow>
   map_of (obj_merge base changes) k =
     (case map_of changes k of Some v \<Rightarrow> Some v | None \<Rightarrow> map_of base k)"
proof (induction changes arbitrary: base)
  case (Cons p ps)
  obtain x v where p: "p = (x, v)" by force
  have "map_of (obj_merge base (p # ps)) k
      = (case map_of ps k of Some w \<Rightarrow> Some w | None \<Rightarrow> map_of (AList.update x v base) k)"
    using Cons by (simp add: p obj_merge_def)
  moreover have "map_of ps x = None" using Cons.prems by (simp add: p map_of_eq_None_iff)
  ultimately show ?case by (auto simp: p update_conv' split: option.splits)
qed (simp add: obj_merge_def)

section \<open>Deep comparison\<close>

text \<open>
  \<open>equal\<close> of \<open>commands.ts\<close>: primitives by \<open>Object.is\<close>, arrays element by element, objects
  by their sorted key lists and the values under each key.  An object on the left is compared
  in the same way with an array on the right, whose keys are its indices; the other way
  round the answer is always no.
\<close>

text \<open>The elements of an array under their keys.\<close>

definition indexed :: "json list \<Rightarrow> jsobj" where
  "indexed ys = zip (map digits_of [0..<length ys]) ys"

function (sequential) equal :: "json \<Rightarrow> json \<Rightarrow> bool" where
  "equal (JArr xs) (JArr ys) \<longleftrightarrow>
     length xs = length ys \<and> (\<forall>(x, y)\<in>set (zip xs ys). equal x y)"
| "equal (JObj a) (JObj b) \<longleftrightarrow>
     sort (map fst a) = sort (map fst b) \<and>
     (\<forall>(k, v)\<in>set a. case map_of b k of Some w \<Rightarrow> equal v w | None \<Rightarrow> False)"
| "equal (JObj a) (JArr ys) \<longleftrightarrow>
     sort (map fst a) = sort (map fst (indexed ys)) \<and>
     (\<forall>(k, v)\<in>set a. case map_of (indexed ys) k of Some w \<Rightarrow> equal v w | None \<Rightarrow> False)"
| "equal x y \<longleftrightarrow> x = y"
  by pat_completeness auto
termination
proof (relation "measure (\<lambda>(x, y). size x)", goal_cases)
  case 1
  show ?case by simp
next
  case (2 xs ys z x y)
  then have "x \<in> set xs" by (metis set_zip_leftD prod.collapse)
  then have "size x \<le> size_list size xs" by (rule size_list_estimation') simp
  then show ?case by simp
next
  case (3 a b z k v w)
  then have "(k, v) \<in> set a" by simp
  then have "size_prod (\<lambda>_. 0) size (k, v) \<le> size_list (size_prod (\<lambda>_. 0) size) a"
    by (rule size_list_estimation') simp
  then show ?case by simp
next
  case (4 a ys z k v w)
  then have "(k, v) \<in> set a" by simp
  then have "size_prod (\<lambda>_. 0) size (k, v) \<le> size_list (size_prod (\<lambda>_. 0) size) a"
    by (rule size_list_estimation') simp
  then show ?case by simp
qed

text \<open>\<open>equal\<close> on values that may be \<open>undefined\<close>.\<close>

definition equal_opt :: "json option \<Rightarrow> json option \<Rightarrow> bool" where
  "equal_opt x y =
     (case (x, y) of (None, None) \<Rightarrow> True | (Some a, Some b) \<Rightarrow> equal a b | _ \<Rightarrow> False)"

text \<open>Objects of a value have distinct keys, as JavaScript objects do.\<close>

fun proper :: "json \<Rightarrow> bool" where
  "proper (JArr xs) = list_all proper xs"
| "proper (JObj m) = (distinct (map fst m) \<and> list_all (\<lambda>p. proper (snd p)) m)"
| "proper j = True"

lemma equal_refl: "proper x \<Longrightarrow> equal x x"
proof (induction x rule: proper.induct)
  case (1 xs)
  then show ?case by (auto simp: list_all_iff zip_same_conv_map)
next
  case (2 m)
  have "case map_of m k of Some w \<Rightarrow> equal v w | None \<Rightarrow> False" if "(k, v) \<in> set m" for k v
    using 2 that by (auto simp: list_all_iff)
  then show ?case using 2 by auto
qed simp_all

lemma equal_opt_refl: "(\<And>x. v = Some x \<Longrightarrow> proper x) \<Longrightarrow> equal_opt v v"
  by (auto simp: equal_opt_def equal_refl split: option.splits)

lemma equal_str [simp]: "equal (JStr s) j \<longleftrightarrow> j = JStr s" "equal j (JStr s) \<longleftrightarrow> j = JStr s"
  by (cases j; auto)+

lemma equal_num [simp]: "equal (JNum n) j \<longleftrightarrow> j = JNum n" "equal j (JNum n) \<longleftrightarrow> j = JNum n"
  by (cases j; auto)+

lemma equal_null [simp]: "equal JNull j \<longleftrightarrow> j = JNull" "equal j JNull \<longleftrightarrow> j = JNull"
  by (cases j; auto)+

lemma equal_bool [simp]: "equal (JBool b) j \<longleftrightarrow> j = JBool b" "equal j (JBool b) \<longleftrightarrow> j = JBool b"
  by (cases j; auto)+

text \<open>Equal values have equal values under every key.\<close>

lemma equal_JObj_iff:
  assumes "distinct (map fst a)" and "distinct (map fst b)"
  shows "equal (JObj a) (JObj b) \<longleftrightarrow> (\<forall>k. equal_opt (map_of a k) (map_of b k))"
proof
  assume eq: "equal (JObj a) (JObj b)"
  then have keys: "fst ` set a = fst ` set b"
    using sort_eq_imp_set [of "map fst a" "map fst b"] by simp
  show "\<forall>k. equal_opt (map_of a k) (map_of b k)"
  proof
    fix k
    show "equal_opt (map_of a k) (map_of b k)"
    proof (cases "map_of a k")
      case None
      then have "map_of b k = None" using keys by (simp add: map_of_eq_None_iff)
      with None show ?thesis by (simp add: equal_opt_def)
    next
      case (Some v)
      then have "(k, v) \<in> set a" by (rule map_of_SomeD)
      with eq Some show ?thesis by (auto simp: equal_opt_def split: option.splits)
    qed
  qed
next
  assume eq: "\<forall>k. equal_opt (map_of a k) (map_of b k)"
  then have "map_of a k = None \<longleftrightarrow> map_of b k = None" for k
    by (auto simp: equal_opt_def split: option.splits dest: spec [of _ k])
  then have "set (map fst a) = set (map fst b)"
    by (auto simp: map_of_eq_None_iff set_eq_iff image_iff)
  then have "mset (map fst a) = mset (map fst b)"
    using assms set_eq_iff_mset_eq_distinct by blast
  then have "sort (map fst a) = sort (map fst b)" by (simp only: sort_eq_iff_mset)
  moreover have "case map_of b k of Some w \<Rightarrow> equal v w | None \<Rightarrow> False" if "(k, v) \<in> set a" for k v
    using eq [rule_format, of k] that assms(1)
    by (auto simp: equal_opt_def split: option.splits)
  ultimately show "equal (JObj a) (JObj b)" by auto
qed

section \<open>Paths\<close>

definition unsafe_path_keys :: "string list" where
  "unsafe_path_keys = [''__proto__'', ''constructor'', ''prototype'']"

definition inherited_names :: "string list" where
  "inherited_names =
     [''toString'', ''toLocaleString'', ''valueOf'', ''hasOwnProperty'', ''isPrototypeOf'',
      ''propertyIsEnumerable'', ''__defineGetter__'', ''__defineSetter__'',
      ''__lookupGetter__'', ''__lookupSetter__'']"

text \<open>\<open>pathKeys\<close>: \<open>None\<close> where it throws.\<close>

definition path_keys :: "string \<Rightarrow> string list option" where
  "path_keys path =
     (let keys = split_on CHR ''.'' path
      in if path = [] \<or> list_ex (\<lambda>k. k = [] \<or> k \<in> set unsafe_path_keys) keys
         then None else Some keys)"

text \<open>The reduction of \<open>readPath\<close>: the outer option is \<open>None\<close> where the model stops.\<close>

fun read_keys :: "string list \<Rightarrow> json option \<Rightarrow> json option option" where
  "read_keys [] v = Some v"
| "read_keys (k # ks) v =
     (case v of
        Some (JObj m) \<Rightarrow>
          (case map_of m k of
             Some w \<Rightarrow> read_keys ks (Some w)
           | None \<Rightarrow> if k \<in> set inherited_names then None else read_keys ks None)
      | Some (JArr xs) \<Rightarrow> None
      | _ \<Rightarrow> read_keys ks None)"

text \<open>
  \<open>writePath\<close> on an object: intermediate values that are not objects are replaced by \<open>{}\<close>,
  writing \<open>undefined\<close> deletes the property.
\<close>

fun write_keys :: "string list \<Rightarrow> json option \<Rightarrow> jsobj \<Rightarrow> jsobj option" where
  "write_keys [] v m = None"
| "write_keys [k] v m =
     Some (case v of None \<Rightarrow> AList.delete k m | Some w \<Rightarrow> AList.update k w m)"
| "write_keys (k # ks) v m =
     (case map_of m k of
        Some (JObj n) \<Rightarrow> map_option (\<lambda>n'. AList.update k (JObj n') m) (write_keys ks v n)
      | Some (JArr xs) \<Rightarrow> None
      | _ \<Rightarrow> map_option (\<lambda>n'. AList.update k (JObj n') m) (write_keys ks v []))"

lemma read_keys_None [simp]: "read_keys ks None = Some None"
  by (induction ks) auto

text \<open>Reading back what was written; writing elsewhere changes nothing.\<close>

lemma write_keys_nested:
  assumes "write_keys (k # k' # ks) v m = Some m'"
  obtains n n' where "write_keys (k' # ks) v n = Some n'" and "m' = AList.update k (JObj n') m"
  using assms by (auto split: option.splits json.splits)

lemma read_write_keys:
  "write_keys ks (Some v) m = Some m' \<Longrightarrow> read_keys ks (Some (JObj m')) = Some (Some v)"
proof (induction ks arbitrary: m m')
  case (Cons k ks)
  show ?case
  proof (cases ks)
    case Nil
    then show ?thesis using Cons.prems by (auto simp: update_conv')
  next
    case (Cons k' ks')
    from Cons.prems obtain n n' where n: "write_keys ks (Some v) n = Some n'"
      and m': "m' = AList.update k (JObj n') m"
      unfolding Cons by (rule write_keys_nested)
    have "read_keys (k # ks) (Some (JObj m')) = read_keys ks (Some (JObj n'))"
      unfolding m' by (subst read_keys.simps) (simp add: update_conv' del: read_keys.simps)
    then show ?thesis using Cons.IH [OF n] by simp
  qed
qed simp

lemma write_keys_other:
  "write_keys (k # ks) v m = Some m' \<Longrightarrow> k' \<noteq> k \<Longrightarrow> map_of m' k' = map_of m k'"
  by (cases ks) (auto simp: update_conv' delete_conv' split: option.splits json.splits)

lemma write_keys_distinct:
  "write_keys ks v m = Some m' \<Longrightarrow> distinct (map fst m) \<Longrightarrow> distinct (map fst m')"
proof (induction ks v m arbitrary: m' rule: write_keys.induct)
  case (2 k v m)
  then show ?case by (auto simp: distinct_update distinct_delete split: option.splits)
next
  case (3 k k' ks v m)
  from "3.prems"(1) obtain n n' where "m' = AList.update k (JObj n') m" by (rule write_keys_nested)
  then show ?case using "3.prems"(2) by (simp add: distinct_update)
qed simp

lemma path_keys_simple: "CHR ''.'' \<notin> set p \<Longrightarrow> p \<noteq> [] \<Longrightarrow> p \<notin> set unsafe_path_keys \<Longrightarrow>
  path_keys p = Some [p]"
  by (simp add: path_keys_def split_on_no_sep)

end
