(* ===== verification/Model_Types.thy ===== *)
theory Model_Types
  imports Json "HOL-Library.Monad_Syntax"
begin

text \<open>
  The data model of \<open>src/domain/types.ts\<close>: one record per interface, one datatype per string
  union, and the JSON form of every record that a field patch or an expectation can hold.

  Field names carry a letter for their record (\<open>l_\<close> location, \<open>i_\<close> item, \<open>p_\<close> plan, \<open>s_\<close> plan
  step, \<open>w_\<close> workspace, \<open>a_\<close> activity, \<open>u_\<close> audit event, \<open>ws_\<close> workspace state, \<open>e_\<close> envelope).
  A nullable field is an option.

  Encoding a record writes its properties; decoding accepts an object with exactly those
  properties, in any order, each of the declared type, and fails on anything else.  The
  locale \<open>codec\<close> states the law of such a pair; every record interprets it.
\<close>

section \<open>String unions\<close>

datatype capture_status =
    Counted | In_progress | Known_empty | Uncounted

datatype frequency =
    Daily | Weekly | Monthly | Rarely

datatype location_kind =
    Area | Bin | Box | Cabinet | Container | Drawer | Room | Shelf | Zone

datatype humidity =
    Humidity_dry | Humidity_normal | Humid

datatype temperature =
    Cold | Cool | Temperature_normal | Warm

datatype dim_unit =
    Centimeter | Inch

datatype plan_status =
    Active | Completed | Discarded

datatype step_type =
    Item_step | Location_step

datatype patch_target = Target_item | Target_location | Target_plan | Target_workspace

datatype activity_status = Applied | Undone

datatype audit_type = Batch_redo | Batch_undo | Reapply | Undo

fun capture_status_name :: "capture_status \<Rightarrow> string" where
  "capture_status_name Counted = ''counted''"
| "capture_status_name In_progress = ''in_progress''"
| "capture_status_name Known_empty = ''known_empty''"
| "capture_status_name Uncounted = ''uncounted''"

definition all_capture_status :: "capture_status list" where
  "all_capture_status = [Counted, In_progress, Known_empty, Uncounted]"

fun frequency_name :: "frequency \<Rightarrow> string" where
  "frequency_name Daily = ''daily''"
| "frequency_name Weekly = ''weekly''"
| "frequency_name Monthly = ''monthly''"
| "frequency_name Rarely = ''rarely''"

definition all_frequency :: "frequency list" where
  "all_frequency = [Daily, Weekly, Monthly, Rarely]"

fun location_kind_name :: "location_kind \<Rightarrow> string" where
  "location_kind_name Area = ''area''"
| "location_kind_name Bin = ''bin''"
| "location_kind_name Box = ''box''"
| "location_kind_name Cabinet = ''cabinet''"
| "location_kind_name Container = ''container''"
| "location_kind_name Drawer = ''drawer''"
| "location_kind_name Room = ''room''"
| "location_kind_name Shelf = ''shelf''"
| "location_kind_name Zone = ''zone''"

definition all_location_kind :: "location_kind list" where
  "all_location_kind = [Area, Bin, Box, Cabinet, Container, Drawer, Room, Shelf, Zone]"

fun humidity_name :: "humidity \<Rightarrow> string" where
  "humidity_name Humidity_dry = ''dry''"
| "humidity_name Humidity_normal = ''normal''"
| "humidity_name Humid = ''humid''"

definition all_humidity :: "humidity list" where
  "all_humidity = [Humidity_dry, Humidity_normal, Humid]"

fun temperature_name :: "temperature \<Rightarrow> string" where
  "temperature_name Cold = ''cold''"
| "temperature_name Cool = ''cool''"
| "temperature_name Temperature_normal = ''normal''"
| "temperature_name Warm = ''warm''"

definition all_temperature :: "temperature list" where
  "all_temperature = [Cold, Cool, Temperature_normal, Warm]"

fun dim_unit_name :: "dim_unit \<Rightarrow> string" where
  "dim_unit_name Centimeter = ''cm''"
| "dim_unit_name Inch = ''in''"

definition all_dim_unit :: "dim_unit list" where
  "all_dim_unit = [Centimeter, Inch]"

fun plan_status_name :: "plan_status \<Rightarrow> string" where
  "plan_status_name Active = ''active''"
| "plan_status_name Completed = ''completed''"
| "plan_status_name Discarded = ''discarded''"

definition all_plan_status :: "plan_status list" where
  "all_plan_status = [Active, Completed, Discarded]"

fun step_type_name :: "step_type \<Rightarrow> string" where
  "step_type_name Item_step = ''item''"
| "step_type_name Location_step = ''location''"

definition all_step_type :: "step_type list" where
  "all_step_type = [Item_step, Location_step]"

text \<open>A string union: the constructors and their distinct names.\<close>

definition enum_of :: "('a \<Rightarrow> string) \<Rightarrow> 'a list \<Rightarrow> string \<Rightarrow> 'a option" where
  "enum_of name xs s = List.find (\<lambda>x. name x = s) xs"

locale string_union =
  fixes name :: "'a \<Rightarrow> string" and members :: "'a list"
  assumes complete: "x \<in> set members"
    and distinct_names: "distinct (map name members)"
begin

lemma name_inject: "name x = name y \<longleftrightarrow> x = y"
  using distinct_names complete by (auto simp: distinct_map dest: inj_onD)

lemma of_name: "enum_of name members (name x) = Some x"
  using find_key_unique [OF distinct_names complete refl] by (simp add: enum_of_def)

lemma of_eq_Some: "enum_of name members s = Some x \<longleftrightarrow> s = name x"
  using of_name by (auto simp: enum_of_def dest: find_SomeD)

lemma of_eq_None: "enum_of name members s = None \<longleftrightarrow> s \<notin> set (map name members)"
  by (auto simp: enum_of_def find_None_set)

lemma is_member: "s \<in> set (map name members) \<longleftrightarrow> (\<exists>x. enum_of name members s = Some x)"
  using of_eq_None by (metis not_None_eq)

end

interpretation capture_status: string_union capture_status_name all_capture_status
proof
  show "x \<in> set all_capture_status" for x by (cases x) (simp_all add: all_capture_status_def)
qed (simp add: all_capture_status_def)

interpretation frequency: string_union frequency_name all_frequency
proof
  show "x \<in> set all_frequency" for x by (cases x) (simp_all add: all_frequency_def)
qed (simp add: all_frequency_def)

interpretation location_kind: string_union location_kind_name all_location_kind
proof
  show "x \<in> set all_location_kind" for x by (cases x) (simp_all add: all_location_kind_def)
qed (simp add: all_location_kind_def)

interpretation humidity: string_union humidity_name all_humidity
proof
  show "x \<in> set all_humidity" for x by (cases x) (simp_all add: all_humidity_def)
qed (simp add: all_humidity_def)

interpretation temperature: string_union temperature_name all_temperature
proof
  show "x \<in> set all_temperature" for x by (cases x) (simp_all add: all_temperature_def)
qed (simp add: all_temperature_def)

interpretation dim_unit: string_union dim_unit_name all_dim_unit
proof
  show "x \<in> set all_dim_unit" for x by (cases x) (simp_all add: all_dim_unit_def)
qed (simp add: all_dim_unit_def)

interpretation plan_status: string_union plan_status_name all_plan_status
proof
  show "x \<in> set all_plan_status" for x by (cases x) (simp_all add: all_plan_status_def)
qed (simp add: all_plan_status_def)

interpretation step_type: string_union step_type_name all_step_type
proof
  show "x \<in> set all_step_type" for x by (cases x) (simp_all add: all_step_type_def)
qed (simp add: all_step_type_def)

lemmas enum_of_names [codec_simps] =
  capture_status.of_name
  frequency.of_name
  location_kind.of_name
  humidity.of_name
  temperature.of_name
  dim_unit.of_name
  plan_status.of_name
  step_type.of_name

section \<open>Records\<close>

record dimensions =
  d_depth :: jsnum
  d_height :: jsnum
  d_unit :: dim_unit
  d_width :: jsnum

record conditions =
  c_dark :: bool
  c_dry :: bool
  c_foodSafe :: bool
  c_humidity :: humidity
  c_temperature :: temperature

record constraints =
  k_avoidHumidity :: bool
  k_avoidWarmth :: bool
  k_foodOnly :: bool
  k_keepTogether :: "string option"
  k_requiredTags :: "string list"

record workspace =
  w_createdAt :: string
  w_id :: string
  w_name :: string
  w_revision :: jsnum
  w_updatedAt :: string

record location =
  l_archivedAt :: "string option"
  l_captureStatus :: capture_status
  l_code :: string
  l_conditions :: conditions
  l_createdAt :: string
  l_description :: string
  l_dimensions :: "dimensions option"
  l_id :: string
  l_kind :: location_kind
  l_name :: string
  l_order :: jsnum
  l_parentId :: "string option"
  l_tags :: "string list"
  l_updatedAt :: string

record item =
  i_archivedAt :: "string option"
  i_category :: string
  i_constraints :: constraints
  i_createdAt :: string
  i_description :: string
  i_dimensions :: "dimensions option"
  i_frequency :: frequency
  i_id :: string
  i_locationId :: string
  i_name :: string
  i_order :: jsnum
  i_quantity :: jsnum
  i_tags :: "string list"
  i_unit :: string
  i_updatedAt :: string
  i_version :: jsnum

record plan_weights =
  pw_accessibility :: jsnum
  pw_capacity :: jsnum
  pw_grouping :: jsnum
  pw_moveCost :: jsnum
  pw_suitability :: jsnum

record plan_step =
  s_completedAt :: "string option"
  s_destinationId :: string
  s_explanation :: "string list"
  s_id :: string
  s_itemId :: "string option"
  s_locationId :: "string option"
  s_quantity :: "jsnum option"
  s_score :: jsnum
  s_sourceId :: string
  s_type :: step_type

record plan_selection =
  sel_locationIds :: "string list option"
  sel_pinnedItemIds :: "string list"
  sel_pinnedLocationIds :: "string list"

record move_plan =
  p_createdAt :: string
  p_id :: string
  p_name :: string
  p_selection :: "plan_selection option"
  p_status :: plan_status
  p_steps :: "plan_step list"
  p_weights :: plan_weights

record field_patch =
  fp_after :: "json option"
  fp_before :: "json option"
  fp_id :: string
  fp_path :: string
  fp_target :: patch_target

record field_expectation =
  fe_id :: string
  fe_path :: string
  fe_target :: patch_target
  fe_value :: json

record activity =
  a_actorId :: string
  a_commandId :: string
  a_id :: string
  a_label :: string
  a_patches :: "field_patch list"
  a_status :: activity_status
  a_subjectIds :: "string list"
  a_timestamp :: string
  a_undoneAt :: "string option"

record audit_event =
  u_actorId :: string
  u_id :: string
  u_label :: string
  u_targetActivityIds :: "string list"
  u_timestamp :: string
  u_type :: audit_type

record wstate =
  ws_activities :: "activity list"
  ws_audit :: "audit_event list"
  ws_commandReceipts :: "string list"
  ws_items :: "item list"
  ws_locations :: "location list"
  ws_plans :: "move_plan list"
  ws_schemaVersion :: int
  ws_workspace :: workspace

record sync_conflict =
  sc_commandId :: string
  sc_current :: "json option"
  sc_expected :: "json option"
  sc_field :: string
  sc_id :: string
  sc_target :: patch_target

section \<open>Commands\<close>

text \<open>
  A command's scalar arguments have their declared types.  Whole records and partial changes
  (\<open>location\<close>, \<open>item\<close>, \<open>plan\<close>, \<open>changes\<close>) arrive as JSON, because the handlers check them
  property by property; a status arrives as a string for the same reason.  The last
  constructor is a command whose \<open>type\<close> is none of the declared ones.
\<close>

text \<open>
  A confirmation or an archive state that arrives with a command is any JSON value or absent; the
  handlers check it.  The other scalars of a command have their declared types.
\<close>

datatype command =
    Workspace_rename string
  | Location_create json
  | Location_update string json "json option"
  | Location_move string "string option" "jsnum option" "json option"
  | Location_reorder string jsnum
  | Location_archive string "json option"
  | Location_delete string "string list" "string list"
  | Capture_empty string "string list"
  | Capture_status string string
  | Item_create json
  | Item_bulkCreate "json list" "json option"
  | Item_update string json
  | Item_bulkUpdate "(string \<times> json) list" "json option"
  | Item_reorder string jsnum
  | Item_delete string
  | Item_move string string jsnum "json option"
  | Item_bulkMove string "string list" "json option"
  | Plan_create json
  | Plan_step_complete string string
  | Plan_set_status string string
  | History_undo string
  | History_reapply string
  | History_batchUndo jsnum
  | History_batchRedo jsnum
  | Other_command string

record envelope =
  e_actorId :: string
  e_baseRevision :: jsnum
  e_command :: command
  e_deviceId :: string
  e_expectations :: "field_expectation list"
  e_id :: string
  e_timestamp :: string
  e_workspaceId :: string

text \<open>\<open>Boolean(entity.archivedAt)\<close>: a timestamp that is neither \<open>null\<close> nor empty.\<close>

fun set_at :: "string option \<Rightarrow> bool" where
  "set_at None = False"
| "set_at (Some t) = (t \<noteq> [])"

abbreviation l_archived :: "location \<Rightarrow> bool" where
  "l_archived l \<equiv> set_at (l_archivedAt l)"

abbreviation i_archived :: "item \<Rightarrow> bool" where
  "i_archived i \<equiv> set_at (i_archivedAt i)"

section \<open>Encoding\<close>

definition json_of_nullable :: "('a \<Rightarrow> json) \<Rightarrow> 'a option \<Rightarrow> json" where
  "json_of_nullable enc x = (case x of None \<Rightarrow> JNull | Some y \<Rightarrow> enc y)"

definition json_of_list :: "('a \<Rightarrow> json) \<Rightarrow> 'a list \<Rightarrow> json" where
  "json_of_list enc xs = JArr (map enc xs)"

definition json_of_dimensions :: "dimensions \<Rightarrow> json" where
  "json_of_dimensions d = JObj
     [(''depth'', JNum (d_depth d)), (''height'', JNum (d_height d)),
      (''unit'', JStr (dim_unit_name (d_unit d))), (''width'', JNum (d_width d))]"

definition json_of_conditions :: "conditions \<Rightarrow> json" where
  "json_of_conditions c = JObj
     [(''dark'', JBool (c_dark c)), (''dry'', JBool (c_dry c)), (''foodSafe'', JBool (c_foodSafe c)),
      (''humidity'', JStr (humidity_name (c_humidity c))),
      (''temperature'', JStr (temperature_name (c_temperature c)))]"

definition constraints_obj :: "constraints \<Rightarrow> jsobj" where
  "constraints_obj k =
     [(''avoidHumidity'', JBool (k_avoidHumidity k)), (''avoidWarmth'', JBool (k_avoidWarmth k)),
      (''foodOnly'', JBool (k_foodOnly k)),
      (''keepTogether'', json_of_nullable JStr (k_keepTogether k)),
      (''requiredTags'', json_of_list JStr (k_requiredTags k))]"

definition workspace_obj :: "workspace \<Rightarrow> jsobj" where
  "workspace_obj w =
     [(''createdAt'', JStr (w_createdAt w)), (''id'', JStr (w_id w)), (''name'', JStr (w_name w)),
      (''revision'', JNum (w_revision w)), (''updatedAt'', JStr (w_updatedAt w))]"

definition location_obj :: "location \<Rightarrow> jsobj" where
  "location_obj l =
     [(''archivedAt'', json_of_nullable JStr (l_archivedAt l)),
      (''captureStatus'', JStr (capture_status_name (l_captureStatus l))),
      (''code'', JStr (l_code l)), (''conditions'', json_of_conditions (l_conditions l)),
      (''createdAt'', JStr (l_createdAt l)), (''description'', JStr (l_description l)),
      (''dimensions'', json_of_nullable json_of_dimensions (l_dimensions l)),
      (''id'', JStr (l_id l)), (''kind'', JStr (location_kind_name (l_kind l))),
      (''name'', JStr (l_name l)), (''order'', JNum (l_order l)),
      (''parentId'', json_of_nullable JStr (l_parentId l)),
      (''tags'', json_of_list JStr (l_tags l)), (''updatedAt'', JStr (l_updatedAt l))]"

definition item_obj :: "item \<Rightarrow> jsobj" where
  "item_obj i =
     [(''archivedAt'', json_of_nullable JStr (i_archivedAt i)),
      (''category'', JStr (i_category i)), (''constraints'', JObj (constraints_obj (i_constraints i))),
      (''createdAt'', JStr (i_createdAt i)), (''description'', JStr (i_description i)),
      (''dimensions'', json_of_nullable json_of_dimensions (i_dimensions i)),
      (''frequency'', JStr (frequency_name (i_frequency i))), (''id'', JStr (i_id i)),
      (''locationId'', JStr (i_locationId i)), (''name'', JStr (i_name i)),
      (''order'', JNum (i_order i)), (''quantity'', JNum (i_quantity i)),
      (''tags'', json_of_list JStr (i_tags i)), (''unit'', JStr (i_unit i)),
      (''updatedAt'', JStr (i_updatedAt i)), (''version'', JNum (i_version i))]"

definition json_of_weights :: "plan_weights \<Rightarrow> json" where
  "json_of_weights w = JObj
     [(''accessibility'', JNum (pw_accessibility w)), (''capacity'', JNum (pw_capacity w)),
      (''grouping'', JNum (pw_grouping w)), (''moveCost'', JNum (pw_moveCost w)),
      (''suitability'', JNum (pw_suitability w))]"

definition json_of_step :: "plan_step \<Rightarrow> json" where
  "json_of_step s = JObj
     [(''completedAt'', json_of_nullable JStr (s_completedAt s)),
      (''destinationId'', JStr (s_destinationId s)),
      (''explanation'', json_of_list JStr (s_explanation s)), (''id'', JStr (s_id s)),
      (''itemId'', json_of_nullable JStr (s_itemId s)),
      (''locationId'', json_of_nullable JStr (s_locationId s)),
      (''quantity'', json_of_nullable JNum (s_quantity s)), (''score'', JNum (s_score s)),
      (''sourceId'', JStr (s_sourceId s)), (''type'', JStr (step_type_name (s_type s)))]"

definition json_of_selection :: "plan_selection \<Rightarrow> json" where
  "json_of_selection s = JObj
     [(''locationIds'', json_of_nullable (json_of_list JStr) (sel_locationIds s)),
      (''pinnedItemIds'', json_of_list JStr (sel_pinnedItemIds s)),
      (''pinnedLocationIds'', json_of_list JStr (sel_pinnedLocationIds s))]"

text \<open>The optional \<open>selection\<close> property is written only when it is present.\<close>

definition plan_obj :: "move_plan \<Rightarrow> jsobj" where
  "plan_obj p =
     [(''createdAt'', JStr (p_createdAt p)), (''id'', JStr (p_id p)), (''name'', JStr (p_name p)),
      (''status'', JStr (plan_status_name (p_status p))),
      (''steps'', json_of_list json_of_step (p_steps p)),
      (''weights'', json_of_weights (p_weights p))] @
     (case p_selection p of None \<Rightarrow> [] | Some s \<Rightarrow> [(''selection'', json_of_selection s)])"

abbreviation json_of_location :: "location \<Rightarrow> json" where
  "json_of_location l \<equiv> JObj (location_obj l)"

abbreviation json_of_item :: "item \<Rightarrow> json" where
  "json_of_item i \<equiv> JObj (item_obj i)"

abbreviation json_of_plan :: "move_plan \<Rightarrow> json" where
  "json_of_plan p \<equiv> JObj (plan_obj p)"

abbreviation json_of_workspace :: "workspace \<Rightarrow> json" where
  "json_of_workspace w \<equiv> JObj (workspace_obj w)"

section \<open>Decoding\<close>

fun str_of :: "json \<Rightarrow> string option" where
  "str_of (JStr s) = Some s"
| "str_of j = None"

fun num_of :: "json \<Rightarrow> jsnum option" where
  "num_of (JNum n) = Some n"
| "num_of j = None"

fun bool_of :: "json \<Rightarrow> bool option" where
  "bool_of (JBool b) = Some b"
| "bool_of j = None"

definition nullable_of :: "(json \<Rightarrow> 'a option) \<Rightarrow> json \<Rightarrow> 'a option option" where
  "nullable_of dec j = (if j = JNull then Some None else map_option Some (dec j))"

fun list_of :: "(json \<Rightarrow> 'a option) \<Rightarrow> json \<Rightarrow> 'a list option" where
  "list_of dec (JArr xs) = those (map dec xs)"
| "list_of dec j = None"

definition union_of :: "('a \<Rightarrow> string) \<Rightarrow> 'a list \<Rightarrow> json \<Rightarrow> 'a option" where
  "union_of name xs j = Option.bind (str_of j) (enum_of name xs)"

definition field_of :: "(json \<Rightarrow> 'a option) \<Rightarrow> string \<Rightarrow> jsobj \<Rightarrow> 'a option" where
  "field_of dec k m = Option.bind (map_of m k) dec"

fun obj_of :: "string list \<Rightarrow> (jsobj \<Rightarrow> 'a option) \<Rightarrow> json \<Rightarrow> 'a option" where
  "obj_of ks f (JObj m) = (if has_exact_keys ks m then f m else None)"
| "obj_of ks f j = None"

definition dimensions_of :: "json \<Rightarrow> dimensions option" where
  "dimensions_of = obj_of [''depth'', ''height'', ''unit'', ''width''] (\<lambda>m. do {
     de \<leftarrow> field_of num_of ''depth'' m; h \<leftarrow> field_of num_of ''height'' m;
     u \<leftarrow> field_of (union_of dim_unit_name all_dim_unit) ''unit'' m; w \<leftarrow> field_of num_of ''width'' m;
     Some \<lparr>d_depth = de, d_height = h, d_unit = u, d_width = w\<rparr> })"

definition conditions_of :: "json \<Rightarrow> conditions option" where
  "conditions_of = obj_of [''dark'', ''dry'', ''foodSafe'', ''humidity'', ''temperature''] (\<lambda>m. do {
     da \<leftarrow> field_of bool_of ''dark'' m; dr \<leftarrow> field_of bool_of ''dry'' m; f \<leftarrow> field_of bool_of ''foodSafe'' m;
     h \<leftarrow> field_of (union_of humidity_name all_humidity) ''humidity'' m;
     t \<leftarrow> field_of (union_of temperature_name all_temperature) ''temperature'' m;
     Some \<lparr>c_dark = da, c_dry = dr, c_foodSafe = f, c_humidity = h, c_temperature = t\<rparr> })"

definition constraints_of :: "json \<Rightarrow> constraints option" where
  "constraints_of =
     obj_of [''avoidHumidity'', ''avoidWarmth'', ''foodOnly'', ''keepTogether'', ''requiredTags''] (\<lambda>m. do {
     ah \<leftarrow> field_of bool_of ''avoidHumidity'' m; aw \<leftarrow> field_of bool_of ''avoidWarmth'' m;
     fo \<leftarrow> field_of bool_of ''foodOnly'' m; kt \<leftarrow> field_of (nullable_of str_of) ''keepTogether'' m;
     rt \<leftarrow> field_of (list_of str_of) ''requiredTags'' m;
     Some \<lparr>k_avoidHumidity = ah, k_avoidWarmth = aw, k_foodOnly = fo, k_keepTogether = kt,
           k_requiredTags = rt\<rparr> })"

definition workspace_of :: "json \<Rightarrow> workspace option" where
  "workspace_of = obj_of [''createdAt'', ''id'', ''name'', ''revision'', ''updatedAt''] (\<lambda>m. do {
     c \<leftarrow> field_of str_of ''createdAt'' m; i \<leftarrow> field_of str_of ''id'' m; n \<leftarrow> field_of str_of ''name'' m;
     r \<leftarrow> field_of num_of ''revision'' m; u \<leftarrow> field_of str_of ''updatedAt'' m;
     Some \<lparr>w_createdAt = c, w_id = i, w_name = n, w_revision = r, w_updatedAt = u\<rparr> })"

definition location_keys :: "string list" where
  "location_keys =
     [''archivedAt'', ''captureStatus'', ''code'', ''conditions'', ''createdAt'', ''description'',
      ''dimensions'', ''id'', ''kind'', ''name'', ''order'', ''parentId'', ''tags'', ''updatedAt'']"

definition location_of :: "json \<Rightarrow> location option" where
  "location_of = obj_of location_keys (\<lambda>m. do {
     ar \<leftarrow> field_of (nullable_of str_of) ''archivedAt'' m;
     cs \<leftarrow> field_of (union_of capture_status_name all_capture_status) ''captureStatus'' m;
     co \<leftarrow> field_of str_of ''code'' m; cn \<leftarrow> field_of conditions_of ''conditions'' m;
     ca \<leftarrow> field_of str_of ''createdAt'' m; de \<leftarrow> field_of str_of ''description'' m;
     di \<leftarrow> field_of (nullable_of dimensions_of) ''dimensions'' m; i \<leftarrow> field_of str_of ''id'' m;
     ki \<leftarrow> field_of (union_of location_kind_name all_location_kind) ''kind'' m;
     n \<leftarrow> field_of str_of ''name'' m; or \<leftarrow> field_of num_of ''order'' m;
     pa \<leftarrow> field_of (nullable_of str_of) ''parentId'' m; ta \<leftarrow> field_of (list_of str_of) ''tags'' m;
     up \<leftarrow> field_of str_of ''updatedAt'' m;
     Some \<lparr>l_archivedAt = ar, l_captureStatus = cs, l_code = co, l_conditions = cn,
           l_createdAt = ca, l_description = de, l_dimensions = di, l_id = i, l_kind = ki,
           l_name = n, l_order = or, l_parentId = pa, l_tags = ta, l_updatedAt = up\<rparr> })"

definition item_keys :: "string list" where
  "item_keys =
     [''archivedAt'', ''category'', ''constraints'', ''createdAt'', ''description'', ''dimensions'',
      ''frequency'', ''id'', ''locationId'', ''name'', ''order'', ''quantity'', ''tags'', ''unit'',
      ''updatedAt'', ''version'']"

definition item_of :: "json \<Rightarrow> item option" where
  "item_of = obj_of item_keys (\<lambda>m. do {
     ar \<leftarrow> field_of (nullable_of str_of) ''archivedAt'' m; ca \<leftarrow> field_of str_of ''category'' m;
     co \<leftarrow> field_of constraints_of ''constraints'' m; cr \<leftarrow> field_of str_of ''createdAt'' m;
     de \<leftarrow> field_of str_of ''description'' m; di \<leftarrow> field_of (nullable_of dimensions_of) ''dimensions'' m;
     fr \<leftarrow> field_of (union_of frequency_name all_frequency) ''frequency'' m;
     i \<leftarrow> field_of str_of ''id'' m; lo \<leftarrow> field_of str_of ''locationId'' m; n \<leftarrow> field_of str_of ''name'' m;
     or \<leftarrow> field_of num_of ''order'' m; qu \<leftarrow> field_of num_of ''quantity'' m;
     ta \<leftarrow> field_of (list_of str_of) ''tags'' m; un \<leftarrow> field_of str_of ''unit'' m;
     up \<leftarrow> field_of str_of ''updatedAt'' m; ve \<leftarrow> field_of num_of ''version'' m;
     Some \<lparr>i_archivedAt = ar, i_category = ca, i_constraints = co, i_createdAt = cr,
           i_description = de, i_dimensions = di, i_frequency = fr, i_id = i, i_locationId = lo,
           i_name = n, i_order = or, i_quantity = qu, i_tags = ta, i_unit = un,
           i_updatedAt = up, i_version = ve\<rparr> })"

definition weights_of :: "json \<Rightarrow> plan_weights option" where
  "weights_of =
     obj_of [''accessibility'', ''capacity'', ''grouping'', ''moveCost'', ''suitability''] (\<lambda>m. do {
     a \<leftarrow> field_of num_of ''accessibility'' m; c \<leftarrow> field_of num_of ''capacity'' m;
     g \<leftarrow> field_of num_of ''grouping'' m; mc \<leftarrow> field_of num_of ''moveCost'' m;
     s \<leftarrow> field_of num_of ''suitability'' m;
     Some \<lparr>pw_accessibility = a, pw_capacity = c, pw_grouping = g, pw_moveCost = mc,
           pw_suitability = s\<rparr> })"

definition step_of :: "json \<Rightarrow> plan_step option" where
  "step_of =
     obj_of [''completedAt'', ''destinationId'', ''explanation'', ''id'', ''itemId'', ''locationId'',
             ''quantity'', ''score'', ''sourceId'', ''type''] (\<lambda>m. do {
     ca \<leftarrow> field_of (nullable_of str_of) ''completedAt'' m; di \<leftarrow> field_of str_of ''destinationId'' m;
     ex \<leftarrow> field_of (list_of str_of) ''explanation'' m; i \<leftarrow> field_of str_of ''id'' m;
     ii \<leftarrow> field_of (nullable_of str_of) ''itemId'' m; li \<leftarrow> field_of (nullable_of str_of) ''locationId'' m;
     qu \<leftarrow> field_of (nullable_of num_of) ''quantity'' m; sc \<leftarrow> field_of num_of ''score'' m;
     si \<leftarrow> field_of str_of ''sourceId'' m; ty \<leftarrow> field_of (union_of step_type_name all_step_type) ''type'' m;
     Some \<lparr>s_completedAt = ca, s_destinationId = di, s_explanation = ex, s_id = i, s_itemId = ii,
           s_locationId = li, s_quantity = qu, s_score = sc, s_sourceId = si, s_type = ty\<rparr> })"

definition selection_of :: "json \<Rightarrow> plan_selection option" where
  "selection_of = obj_of [''locationIds'', ''pinnedItemIds'', ''pinnedLocationIds''] (\<lambda>m. do {
     l \<leftarrow> field_of (nullable_of (list_of str_of)) ''locationIds'' m;
     pi \<leftarrow> field_of (list_of str_of) ''pinnedItemIds'' m;
     pl \<leftarrow> field_of (list_of str_of) ''pinnedLocationIds'' m;
     Some \<lparr>sel_locationIds = l, sel_pinnedItemIds = pi, sel_pinnedLocationIds = pl\<rparr> })"

definition plan_of_obj :: "plan_selection option \<Rightarrow> jsobj \<Rightarrow> move_plan option" where
  "plan_of_obj sel m = do {
     c \<leftarrow> field_of str_of ''createdAt'' m; i \<leftarrow> field_of str_of ''id'' m; n \<leftarrow> field_of str_of ''name'' m;
     st \<leftarrow> field_of (union_of plan_status_name all_plan_status) ''status'' m;
     ss \<leftarrow> field_of (list_of step_of) ''steps'' m; w \<leftarrow> field_of weights_of ''weights'' m;
     Some \<lparr>p_createdAt = c, p_id = i, p_name = n, p_selection = sel, p_status = st,
           p_steps = ss, p_weights = w\<rparr> }"

definition plan_keys :: "string list" where
  "plan_keys = [''createdAt'', ''id'', ''name'', ''status'', ''steps'', ''weights'']"

fun plan_of :: "json \<Rightarrow> move_plan option" where
  "plan_of (JObj m) =
     (if has_exact_keys plan_keys m then plan_of_obj None m
      else if has_exact_keys (plan_keys @ [''selection'']) m
      then Option.bind (field_of selection_of ''selection'' m) (\<lambda>s. plan_of_obj (Some s) m)
      else None)"
| "plan_of j = None"

section \<open>Encoding and decoding fit together\<close>

text \<open>
  Decoding inverts encoding, an encoded value is a proper JavaScript value, and what decodes
  is, up to the order of properties, the encoding of what it decodes to.
\<close>

locale codec =
  fixes enc :: "'a \<Rightarrow> json" and dec :: "json \<Rightarrow> 'a option"
  assumes dec_enc: "dec (enc x) = Some x"
    and proper_enc: "proper (enc x)"
    and dec_sound: "dec j = Some x \<Longrightarrow> equal j (enc x)"
begin

lemma enc_inject: "enc x = enc y \<longleftrightarrow> x = y"
  by (metis dec_enc option.inject)

lemma nullable_dec_enc:
  assumes "\<And>y. enc y \<noteq> JNull"
  shows "nullable_of dec (json_of_nullable enc x) = Some x"
  using assms by (cases x) (simp_all add: nullable_of_def json_of_nullable_def dec_enc)

lemma nullable_sound: "nullable_of dec j = Some x \<Longrightarrow> equal j (json_of_nullable enc x)"
  by (auto simp: nullable_of_def json_of_nullable_def dec_sound split: if_splits)

lemma list_dec_enc: "list_of dec (json_of_list enc xs) = Some xs"
  by (induction xs) (simp_all add: json_of_list_def dec_enc)

lemma list_sound: "list_of dec j = Some xs \<Longrightarrow> equal j (json_of_list enc xs)"
proof (cases j)
  case (JArr js)
  assume "list_of dec j = Some xs"
  with JArr have "those (map dec js) = Some xs" by simp
  then have "list_all2 (\<lambda>j x. dec j = Some x) js xs"
    by (induction js arbitrary: xs) (auto split: option.splits)
  then show ?thesis
    by (auto simp: JArr json_of_list_def list_all2_conv_all_nth set_zip dec_sound)
qed simp_all

lemma proper_nullable: "proper (json_of_nullable enc x)"
  by (cases x) (simp_all add: json_of_nullable_def proper_enc)

lemma proper_list: "proper (json_of_list enc xs)"
  by (simp add: json_of_list_def list_all_iff proper_enc)

end

interpretation str_codec: codec JStr str_of
proof
  show "equal j (JStr x)" if "str_of j = Some x" for j x using that by (cases j) simp_all
qed simp_all

interpretation num_codec: codec JNum num_of
proof
  show "equal j (JNum x)" if "num_of j = Some x" for j x using that by (cases j) simp_all
qed simp_all

interpretation bool_codec: codec JBool bool_of
proof
  show "equal j (JBool x)" if "bool_of j = Some x" for j x using that by (cases j) simp_all
qed simp_all

lemma union_of_name [codec_simps]: "union_of name xs (JStr s) = enum_of name xs s"
  by (simp add: union_of_def)

lemma str_of_iff: "str_of j = Some s \<longleftrightarrow> j = JStr s"
  by (cases j) auto

lemma num_of_iff: "num_of j = Some n \<longleftrightarrow> j = JNum n"
  by (cases j) auto

lemma bool_of_iff: "bool_of j = Some b \<longleftrightarrow> j = JBool b"
  by (cases j) auto

lemma union_ofD: "union_of name xs j = Some x \<Longrightarrow> j = JStr (name x)"
  by (auto simp: union_of_def enum_of_def str_of_iff bind_eq_Some_conv dest: find_SomeD)

lemma field_of_Some [codec_simps]: "map_of m k = Some v \<Longrightarrow> field_of dec k m = dec v"
  by (simp add: field_of_def)

lemma field_of_eq_Some: "field_of dec k m = Some x \<longleftrightarrow> (\<exists>v. map_of m k = Some v \<and> dec v = Some x)"
  by (auto simp: field_of_def bind_eq_Some_conv)

text \<open>Soundness of a record decoder, property by property.\<close>

lemma obj_of_sound:
  assumes "obj_of ks f j = Some x" and "distinct (map fst n)" and "map fst n = ks"
    and "\<And>m. f m = Some x \<Longrightarrow> list_all (\<lambda>(k, w). \<exists>v. map_of m k = Some v \<and> equal v w) n"
  shows "equal j (JObj n)"
proof (cases j)
  case (JObj m)
  with assms(1) have keys: "has_exact_keys ks m" and f: "f m = Some x"
    by (auto split: if_splits)
  have "equal_opt (map_of m k) (map_of n k)" for k
  proof (cases "map_of n k")
    case None
    then have "k \<notin> set ks" using assms(3) by (auto simp: map_of_eq_None_iff)
    then have "map_of m k = None" using keys by (simp add: has_exact_keys_def map_of_eq_None_iff)
    with None show ?thesis by (simp add: equal_opt_def)
  next
    case (Some w)
    then have "(k, w) \<in> set n" by (rule map_of_SomeD)
    with assms(4) [OF f] Some show ?thesis by (auto simp: equal_opt_def list_all_iff)
  qed
  with JObj keys assms(2) show ?thesis
    by (simp only: equal_JObj_iff has_exact_keys_def) simp
qed (use assms(1) in simp_all)

lemmas codec_sound = bind_eq_Some_conv field_of_eq_Some str_of_iff num_of_iff bool_of_iff
  str_codec.nullable_sound num_codec.nullable_sound str_codec.list_sound

interpretation dimensions_codec: codec json_of_dimensions dimensions_of
proof
  show "equal j (json_of_dimensions x)" if "dimensions_of j = Some x" for j x
    unfolding json_of_dimensions_def
    by (rule obj_of_sound [OF that [unfolded dimensions_of_def]])
      (auto simp: codec_sound dest: union_ofD)
qed (simp_all add: json_of_dimensions_def dimensions_of_def has_exact_keys_def codec_simps insert_commute)

lemma json_of_dimensions_not_null [simp]: "json_of_dimensions d \<noteq> JNull"
  by (simp add: json_of_dimensions_def)

interpretation conditions_codec: codec json_of_conditions conditions_of
proof
  show "equal j (json_of_conditions x)" if "conditions_of j = Some x" for j x
    unfolding json_of_conditions_def
    by (rule obj_of_sound [OF that [unfolded conditions_of_def]])
      (auto simp: codec_sound dest: union_ofD)
qed (simp_all add: json_of_conditions_def conditions_of_def has_exact_keys_def codec_simps insert_commute)

lemmas leaf_codecs [codec_simps] =
  str_codec.nullable_dec_enc str_codec.list_dec_enc num_codec.nullable_dec_enc
  dimensions_codec.dec_enc conditions_codec.dec_enc dimensions_codec.nullable_dec_enc
  str_codec.proper_nullable str_codec.proper_list num_codec.proper_nullable
  dimensions_codec.proper_enc conditions_codec.proper_enc dimensions_codec.proper_nullable

lemmas codec_sound2 = codec_sound dimensions_codec.nullable_sound conditions_codec.dec_sound

interpretation constraints_codec: codec "\<lambda>k. JObj (constraints_obj k)" constraints_of
proof
  show "equal j (JObj (constraints_obj x))" if "constraints_of j = Some x" for j x
    unfolding constraints_obj_def
    by (rule obj_of_sound [OF that [unfolded constraints_of_def]])
      (auto simp: codec_sound dest: union_ofD)
qed (simp_all add: constraints_obj_def constraints_of_def has_exact_keys_def codec_simps insert_commute)

lemmas constraints_codecs [codec_simps] =
  constraints_codec.dec_enc constraints_codec.proper_enc [unfolded proper.simps]

interpretation workspace_codec: codec "\<lambda>w. JObj (workspace_obj w)" workspace_of
proof
  show "equal j (JObj (workspace_obj x))" if "workspace_of j = Some x" for j x
    unfolding workspace_obj_def
    by (rule obj_of_sound [OF that [unfolded workspace_of_def]])
      (auto simp: codec_sound dest: union_ofD)
qed (simp_all add: workspace_obj_def workspace_of_def has_exact_keys_def codec_simps insert_commute)

interpretation location_codec: codec "\<lambda>l. JObj (location_obj l)" location_of
proof
  show "equal j (JObj (location_obj x))" if "location_of j = Some x" for j x
    unfolding location_obj_def
    by (rule obj_of_sound [OF that [unfolded location_of_def]])
      (auto simp: location_keys_def codec_sound2 dest: union_ofD)
qed (simp_all add: location_obj_def location_of_def location_keys_def has_exact_keys_def codec_simps
      insert_commute)

interpretation item_codec: codec "\<lambda>i. JObj (item_obj i)" item_of
proof
  show "equal j (JObj (item_obj x))" if "item_of j = Some x" for j x
    unfolding item_obj_def
    by (rule obj_of_sound [OF that [unfolded item_of_def]])
      (auto simp: item_keys_def codec_sound2
        constraints_codec.dec_sound simp del: equal.simps dest: union_ofD)
qed (simp_all add: item_obj_def item_of_def item_keys_def has_exact_keys_def codec_simps insert_commute)

interpretation weights_codec: codec json_of_weights weights_of
proof
  show "equal j (json_of_weights x)" if "weights_of j = Some x" for j x
    unfolding json_of_weights_def
    by (rule obj_of_sound [OF that [unfolded weights_of_def]])
      (auto simp: codec_sound dest: union_ofD)
qed (simp_all add: json_of_weights_def weights_of_def has_exact_keys_def codec_simps insert_commute)

interpretation step_codec: codec json_of_step step_of
proof
  show "equal j (json_of_step x)" if "step_of j = Some x" for j x
    unfolding json_of_step_def
    by (rule obj_of_sound [OF that [unfolded step_of_def]])
      (auto simp: codec_sound dest: union_ofD)
qed (simp_all add: json_of_step_def step_of_def has_exact_keys_def codec_simps insert_commute)

lemma string_list_codec: "codec (json_of_list JStr) (list_of str_of)"
  by unfold_locales (rule str_codec.list_dec_enc str_codec.proper_list str_codec.list_sound; assumption?)+

interpretation string_list_codec: codec "json_of_list JStr" "list_of str_of"
  by (rule string_list_codec)

lemma json_of_list_not_null [simp]: "json_of_list enc xs \<noteq> JNull"
  by (simp add: json_of_list_def)

lemmas string_list_codecs [codec_simps] =
  string_list_codec.nullable_dec_enc string_list_codec.proper_nullable
  weights_codec.dec_enc weights_codec.proper_enc step_codec.list_dec_enc step_codec.proper_list

interpretation selection_codec: codec json_of_selection selection_of
proof
  show "equal j (json_of_selection x)" if "selection_of j = Some x" for j x
    unfolding json_of_selection_def
    by (rule obj_of_sound [OF that [unfolded selection_of_def]])
      (auto simp: codec_sound string_list_codec.nullable_sound dest: union_ofD)
qed (simp_all add: json_of_selection_def selection_of_def has_exact_keys_def codec_simps insert_commute)

lemmas selection_codecs [codec_simps] = selection_codec.dec_enc selection_codec.proper_enc

text \<open>A plan has an optional property, so its decoder is proved by hand.\<close>

lemma plan_of_obj_enc:
  "plan_of_obj sel (plan_obj p) = Some (p\<lparr>p_selection := sel\<rparr>)"
  by (simp add: plan_of_obj_def plan_obj_def codec_simps)

lemma keys_plan_obj:
  "map fst (plan_obj p) = plan_keys @ (if p_selection p = None then [] else [''selection''])"
  by (simp add: plan_obj_def plan_keys_def split: option.split)

lemma selection_not_plan_key: "''selection'' \<notin> set plan_keys"
  by (simp add: plan_keys_def)

lemma plan_of_JObj:
  "plan_of (JObj m) = (if has_exact_keys plan_keys m then obj_of plan_keys (plan_of_obj None) (JObj m)
     else obj_of (plan_keys @ [''selection''])
       (\<lambda>m. Option.bind (field_of selection_of ''selection'' m) (\<lambda>s. plan_of_obj (Some s) m)) (JObj m))"
  by simp

lemma has_exact_keys_plan_obj:
  "has_exact_keys plan_keys (plan_obj p) \<longleftrightarrow> p_selection p = None"
  "has_exact_keys (plan_keys @ [''selection'']) (plan_obj p) \<longleftrightarrow> p_selection p \<noteq> None"
proof -
  have d: "distinct (plan_keys @ [''selection''])" by (simp add: plan_keys_def)
  show "has_exact_keys plan_keys (plan_obj p) \<longleftrightarrow> p_selection p = None"
    "has_exact_keys (plan_keys @ [''selection'']) (plan_obj p) \<longleftrightarrow> p_selection p \<noteq> None"
    using d selection_not_plan_key unfolding has_exact_keys_def keys_plan_obj by auto
qed

interpretation plan_codec: codec "\<lambda>p. JObj (plan_obj p)" plan_of
proof
  fix p
  show "plan_of (json_of_plan p) = Some p"
  proof (cases "p_selection p")
    case None
    then have "p\<lparr>p_selection := None\<rparr> = p" by simp
    with None show ?thesis by (simp add: has_exact_keys_plan_obj plan_of_obj_enc)
  next
    case (Some sel)
    then have "field_of selection_of ''selection'' (plan_obj p) = Some sel"
      by (simp add: plan_obj_def field_of_def codec_simps)
    moreover from Some have "p\<lparr>p_selection := Some sel\<rparr> = p" by simp
    ultimately show ?thesis using Some by (simp add: has_exact_keys_plan_obj plan_of_obj_enc)
  qed
  show "proper (json_of_plan p)"
    using keys_plan_obj [of p] by (simp add: plan_obj_def plan_keys_def codec_simps split: option.splits)
next
  fix j p
  assume dec: "plan_of j = Some p"
  then obtain m where j: "j = JObj m" by (cases j) auto
  show "equal j (json_of_plan p)"
  proof (cases "has_exact_keys plan_keys m")
    case True
    with dec j have o: "obj_of plan_keys (plan_of_obj None) j = Some p" by simp
    then have none: "p_selection p = None" using True j
      by (auto simp: plan_of_obj_def bind_eq_Some_conv)
    show ?thesis
      by (rule obj_of_sound [OF o])
        (use none in \<open>auto simp: keys_plan_obj plan_of_obj_def plan_keys_def plan_obj_def codec_sound
          step_codec.list_sound weights_codec.dec_sound dest: union_ofD\<close>)
  next
    case False
    with dec j have o: "obj_of (plan_keys @ [''selection''])
       (\<lambda>m. Option.bind (field_of selection_of ''selection'' m) (\<lambda>s. plan_of_obj (Some s) m)) j = Some p"
      by (simp split: if_splits)
    then have some: "p_selection p \<noteq> None" using False j
      by (auto simp: plan_of_obj_def bind_eq_Some_conv split: if_splits)
    show ?thesis
      by (rule obj_of_sound [OF o])
        (use some in \<open>auto simp: keys_plan_obj plan_of_obj_def plan_keys_def plan_obj_def codec_sound
          step_codec.list_sound weights_codec.dec_sound selection_codec.dec_sound dest: union_ofD\<close>)
  qed
qed

end
