(* ===== verification/Errors.thy ===== *)
theory Errors
  imports Prelude JsNumber Json Model_Types
begin

text \<open>
  Errors (\<open>src/domain/errors.ts\<close>): a \<open>DomainError\<close> is identified by its code, a
  \<open>ConflictError\<close> carries the fields that changed.  Messages are not modelled.  The third kind
  marks the boundary of the model: the code goes on with a value outside its declared types.
\<close>

section \<open>Error codes\<close>

type_synonym error_code = string

definition ACTIVE_PLAN_EXISTS :: error_code where "ACTIVE_PLAN_EXISTS = ''ACTIVE_PLAN_EXISTS''"
definition ACTIVITY_NOT_FOUND :: error_code where "ACTIVITY_NOT_FOUND = ''ACTIVITY_NOT_FOUND''"
definition ALREADY_THERE :: error_code where "ALREADY_THERE = ''ALREADY_THERE''"
definition ARCHIVE_HAS_CONTENTS :: error_code where "ARCHIVE_HAS_CONTENTS = ''ARCHIVE_HAS_CONTENTS''"
definition ARCHIVE_HAS_DESCENDANTS :: error_code where "ARCHIVE_HAS_DESCENDANTS = ''ARCHIVE_HAS_DESCENDANTS''"
definition CAPTURE_COMPLETE :: error_code where "CAPTURE_COMPLETE = ''CAPTURE_COMPLETE''"
definition CATEGORY_REQUIRED :: error_code where "CATEGORY_REQUIRED = ''CATEGORY_REQUIRED''"
definition CODE_IN_USE :: error_code where "CODE_IN_USE = ''CODE_IN_USE''"
definition CODE_REQUIRED :: error_code where "CODE_REQUIRED = ''CODE_REQUIRED''"
definition DELETE_REVIEW_STALE :: error_code where "DELETE_REVIEW_STALE = ''DELETE_REVIEW_STALE''"
definition DUPLICATE_ITEM_ID :: error_code where "DUPLICATE_ITEM_ID = ''DUPLICATE_ITEM_ID''"
definition DUPLICATE_PLAN_STEP :: error_code where "DUPLICATE_PLAN_STEP = ''DUPLICATE_PLAN_STEP''"
definition EMPTY_BULK_UPDATE :: error_code where "EMPTY_BULK_UPDATE = ''EMPTY_BULK_UPDATE''"
definition EMPTY_IMPORT :: error_code where "EMPTY_IMPORT = ''EMPTY_IMPORT''"
definition EMPTY_PLAN :: error_code where "EMPTY_PLAN = ''EMPTY_PLAN''"
definition EMPTY_REVIEW_STALE :: error_code where "EMPTY_REVIEW_STALE = ''EMPTY_REVIEW_STALE''"
definition EMPTY_SELECTION :: error_code where "EMPTY_SELECTION = ''EMPTY_SELECTION''"
definition GROUP_REQUIRED :: error_code where "GROUP_REQUIRED = ''GROUP_REQUIRED''"
definition HISTORY_INVALID :: error_code where "HISTORY_INVALID = ''HISTORY_INVALID''"
definition HISTORY_RANGE :: error_code where "HISTORY_RANGE = ''HISTORY_RANGE''"
definition HISTORY_STATUS :: error_code where "HISTORY_STATUS = ''HISTORY_STATUS''"
definition INVALID_ARCHIVE :: error_code where "INVALID_ARCHIVE = ''INVALID_ARCHIVE''"
definition INVALID_BULK_UPDATE :: error_code where "INVALID_BULK_UPDATE = ''INVALID_BULK_UPDATE''"
definition INVALID_CAPTURE_STATUS :: error_code where "INVALID_CAPTURE_STATUS = ''INVALID_CAPTURE_STATUS''"
definition INVALID_CHANGES :: error_code where "INVALID_CHANGES = ''INVALID_CHANGES''"
definition INVALID_COMMAND :: error_code where "INVALID_COMMAND = ''INVALID_COMMAND''"
definition INVALID_COUNT :: error_code where "INVALID_COUNT = ''INVALID_COUNT''"
definition INVALID_EXPECTATION :: error_code where "INVALID_EXPECTATION = ''INVALID_EXPECTATION''"
definition INVALID_ITEM :: error_code where "INVALID_ITEM = ''INVALID_ITEM''"
definition INVALID_LOCATION :: error_code where "INVALID_LOCATION = ''INVALID_LOCATION''"
definition INVALID_ORDER :: error_code where "INVALID_ORDER = ''INVALID_ORDER''"
definition INVALID_PARENT :: error_code where "INVALID_PARENT = ''INVALID_PARENT''"
definition INVALID_PATCH :: error_code where "INVALID_PATCH = ''INVALID_PATCH''"
definition INVALID_PLAN :: error_code where "INVALID_PLAN = ''INVALID_PLAN''"
definition INVALID_PLAN_SELECTION :: error_code where "INVALID_PLAN_SELECTION = ''INVALID_PLAN_SELECTION''"
definition INVALID_PLAN_STATUS :: error_code where "INVALID_PLAN_STATUS = ''INVALID_PLAN_STATUS''"
definition INVALID_PLAN_STEP :: error_code where "INVALID_PLAN_STEP = ''INVALID_PLAN_STEP''"
definition INVALID_QUANTITY :: error_code where "INVALID_QUANTITY = ''INVALID_QUANTITY''"
definition INVALID_REOPEN_CONFIRMATION :: error_code where "INVALID_REOPEN_CONFIRMATION = ''INVALID_REOPEN_CONFIRMATION''"
definition ITEM_ARCHIVED :: error_code where "ITEM_ARCHIVED = ''ITEM_ARCHIVED''"
definition ITEM_EXISTS :: error_code where "ITEM_EXISTS = ''ITEM_EXISTS''"
definition ITEM_NOT_FOUND :: error_code where "ITEM_NOT_FOUND = ''ITEM_NOT_FOUND''"
definition ITEM_VERSION_EXHAUSTED :: error_code where "ITEM_VERSION_EXHAUSTED = ''ITEM_VERSION_EXHAUSTED''"
definition LOCATION_ARCHIVED :: error_code where "LOCATION_ARCHIVED = ''LOCATION_ARCHIVED''"
definition LOCATION_CYCLE :: error_code where "LOCATION_CYCLE = ''LOCATION_CYCLE''"
definition LOCATION_EXISTS :: error_code where "LOCATION_EXISTS = ''LOCATION_EXISTS''"
definition LOCATION_NOT_FOUND :: error_code where "LOCATION_NOT_FOUND = ''LOCATION_NOT_FOUND''"
definition MULTIPLE_ACTIVE_PLANS :: error_code where "MULTIPLE_ACTIVE_PLANS = ''MULTIPLE_ACTIVE_PLANS''"
definition NAME_REQUIRED :: error_code where "NAME_REQUIRED = ''NAME_REQUIRED''"
definition NOT_EMPTY :: error_code where "NOT_EMPTY = ''NOT_EMPTY''"
definition NO_CHANGES :: error_code where "NO_CHANGES = ''NO_CHANGES''"
definition PARENT_ARCHIVED :: error_code where "PARENT_ARCHIVED = ''PARENT_ARCHIVED''"
definition PATCH_TARGET_MISSING :: error_code where "PATCH_TARGET_MISSING = ''PATCH_TARGET_MISSING''"
definition PLAN_COMPLETE :: error_code where "PLAN_COMPLETE = ''PLAN_COMPLETE''"
definition PLAN_EXISTS :: error_code where "PLAN_EXISTS = ''PLAN_EXISTS''"
definition PLAN_INCOMPLETE :: error_code where "PLAN_INCOMPLETE = ''PLAN_INCOMPLETE''"
definition PLAN_NOT_ACTIVE :: error_code where "PLAN_NOT_ACTIVE = ''PLAN_NOT_ACTIVE''"
definition PLAN_NOT_FOUND :: error_code where "PLAN_NOT_FOUND = ''PLAN_NOT_FOUND''"
definition PLAN_OUT_OF_ORDER :: error_code where "PLAN_OUT_OF_ORDER = ''PLAN_OUT_OF_ORDER''"
definition PLAN_STEP_COMPLETE :: error_code where "PLAN_STEP_COMPLETE = ''PLAN_STEP_COMPLETE''"
definition PLAN_STEP_NOT_FOUND :: error_code where "PLAN_STEP_NOT_FOUND = ''PLAN_STEP_NOT_FOUND''"
definition PLAN_STEP_STALE :: error_code where "PLAN_STEP_STALE = ''PLAN_STEP_STALE''"
definition QUANTITY_OVERFLOW :: error_code where "QUANTITY_OVERFLOW = ''QUANTITY_OVERFLOW''"
definition REVISION_AHEAD :: error_code where "REVISION_AHEAD = ''REVISION_AHEAD''"
definition REVISION_EXHAUSTED :: error_code where "REVISION_EXHAUSTED = ''REVISION_EXHAUSTED''"
definition SELECTION_CHANGED :: error_code where "SELECTION_CHANGED = ''SELECTION_CHANGED''"
definition STRUCTURAL_ITEM_UPDATE :: error_code where "STRUCTURAL_ITEM_UPDATE = ''STRUCTURAL_ITEM_UPDATE''"
definition STRUCTURAL_LOCATION_UPDATE :: error_code where "STRUCTURAL_LOCATION_UPDATE = ''STRUCTURAL_LOCATION_UPDATE''"
definition TAGS_REQUIRED :: error_code where "TAGS_REQUIRED = ''TAGS_REQUIRED''"
definition UNIT_REQUIRED :: error_code where "UNIT_REQUIRED = ''UNIT_REQUIRED''"
definition UNSUPPORTED_COMMAND :: error_code where "UNSUPPORTED_COMMAND = ''UNSUPPORTED_COMMAND''"
definition UNSUPPORTED_HISTORY :: error_code where "UNSUPPORTED_HISTORY = ''UNSUPPORTED_HISTORY''"
definition WRONG_WORKSPACE :: error_code where "WRONG_WORKSPACE = ''WRONG_WORKSPACE''"

datatype error =
    DomainError error_code
  | ConflictError "sync_conflict list"
  | Unmodelled

type_synonym 'a result = "error + 'a"

abbreviation throw :: "error_code \<Rightarrow> 'a result" where
  "throw c \<equiv> Inl (DomainError c)"

end
