(* ===== verification/Patches.thy ===== *)
theory Patches
  imports Errors
begin

text \<open>
  Field patches: reading a property by path, writing it, and applying a patch to the workspace
  state (\<open>src/domain/commands.ts\<close>), and the bookkeeping filter of \<open>src/domain/activity.ts\<close>.

  The state holds typed records while a patch holds JSON.  A patch is applied as the code
  applies it, on the JSON form of the record, and the result is decoded again; where that
  fails the code would go on with a record outside its declared types, and the model stops
  with \<open>Unmodelled\<close>.

  The locale \<open>keyed_collection\<close> is the interface between patches and the three collections of
  the state; items, locations and plans interpret it.
\<close>

section \<open>Reading\<close>

definition read_path :: "string \<Rightarrow> json option \<Rightarrow> json option result" where
  "read_path path entity =
     (if path = [] then Inr entity
      else case path_keys path of
        None \<Rightarrow> throw INVALID_PATCH
      | Some ks \<Rightarrow> (case read_keys ks entity of None \<Rightarrow> Inl Unmodelled | Some v \<Rightarrow> Inr v))"

definition find_item :: "wstate \<Rightarrow> string \<Rightarrow> item option" where
  "find_item s i = List.find (\<lambda>x. i_id x = i) (ws_items s)"

definition find_location :: "wstate \<Rightarrow> string \<Rightarrow> location option" where
  "find_location s i = List.find (\<lambda>x. l_id x = i) (ws_locations s)"

definition find_plan :: "wstate \<Rightarrow> string \<Rightarrow> move_plan option" where
  "find_plan s i = List.find (\<lambda>x. p_id x = i) (ws_plans s)"

text \<open>\<open>entityFor\<close>: the record a patch or an expectation names, as JSON.\<close>

fun entity_for :: "wstate \<Rightarrow> patch_target \<Rightarrow> string \<Rightarrow> json option" where
  "entity_for s Target_workspace i =
     (if w_id (ws_workspace s) = i then Some (json_of_workspace (ws_workspace s)) else None)"
| "entity_for s Target_item i = map_option (\<lambda>x. json_of_item x) (find_item s i)"
| "entity_for s Target_location i = map_option (\<lambda>x. json_of_location x) (find_location s i)"
| "entity_for s Target_plan i = map_option (\<lambda>x. json_of_plan x) (find_plan s i)"

definition read_patch_value :: "wstate \<Rightarrow> patch_target \<Rightarrow> string \<Rightarrow> string \<Rightarrow> json option result" where
  "read_patch_value s t i path = read_path path (entity_for s t i)"

section \<open>Writing\<close>

definition write_path :: "jsobj \<Rightarrow> string \<Rightarrow> json option \<Rightarrow> json result" where
  "write_path m path v =
     (case path_keys path of
        None \<Rightarrow> throw INVALID_PATCH
      | Some ks \<Rightarrow>
          (case write_keys ks v m of None \<Rightarrow> Inl Unmodelled | Some m' \<Rightarrow> Inr (JObj m')))"

definition typed :: "'a option \<Rightarrow> 'a result" where
  "typed x = (case x of None \<Rightarrow> Inl Unmodelled | Some y \<Rightarrow> Inr y)"

text \<open>The two halves of \<open>applyFieldPatch\<close> on one collection: a whole record, one property.\<close>

definition patch_whole ::
  "(json \<Rightarrow> 'a option) \<Rightarrow> ('a \<Rightarrow> string) \<Rightarrow> string \<Rightarrow> json option \<Rightarrow> 'a list \<Rightarrow> 'a list result" where
  "patch_whole dec ident i after xs =
     (case after of
        None \<Rightarrow> Inr (remove_first (\<lambda>x. ident x = i) xs)
      | Some j \<Rightarrow> and_then (typed (dec j)) (\<lambda>y.
          Inr (if List.find (\<lambda>x. ident x = i) xs = None then xs @ [y]
               else map_first (\<lambda>x. ident x = i) (\<lambda>_. y) xs)))"

definition patch_property ::
  "('a \<Rightarrow> jsobj) \<Rightarrow> (json \<Rightarrow> 'a option) \<Rightarrow> ('a \<Rightarrow> string) \<Rightarrow> string \<Rightarrow> string \<Rightarrow> json option \<Rightarrow>
   'a list \<Rightarrow> 'a list result" where
  "patch_property obj dec ident i path v xs =
     (case List.find (\<lambda>x. ident x = i) xs of
        None \<Rightarrow> throw PATCH_TARGET_MISSING
      | Some x \<Rightarrow> and_then (write_path (obj x) path v) (\<lambda>j. and_then (typed (dec j)) (\<lambda>y.
          Inr (map_first (\<lambda>x. ident x = i) (\<lambda>_. y) xs))))"

definition patch_collection ::
  "('a \<Rightarrow> jsobj) \<Rightarrow> (json \<Rightarrow> 'a option) \<Rightarrow> ('a \<Rightarrow> string) \<Rightarrow> field_patch \<Rightarrow> 'a list \<Rightarrow> 'a list result" where
  "patch_collection obj dec ident p xs =
     (if fp_path p = [] then patch_whole dec ident (fp_id p) (fp_after p) xs
      else patch_property obj dec ident (fp_id p) (fp_path p) (fp_after p) xs)"

definition patch_workspace :: "field_patch \<Rightarrow> workspace \<Rightarrow> workspace result" where
  "patch_workspace p w =
     (if fp_path p = []
      then (case fp_after p of
              None \<Rightarrow> throw INVALID_PATCH
            | Some j \<Rightarrow> typed (workspace_of j))
      else if w_id w \<noteq> fp_id p then throw PATCH_TARGET_MISSING
      else and_then (write_path (workspace_obj w) (fp_path p) (fp_after p)) (\<lambda>j. typed (workspace_of j)))"

fun apply_field_patch :: "wstate \<Rightarrow> field_patch \<Rightarrow> wstate result" where
  "apply_field_patch s p =
     (case fp_target p of
        Target_workspace \<Rightarrow>
          and_then (patch_workspace p (ws_workspace s)) (\<lambda>w. Inr (s\<lparr>ws_workspace := w\<rparr>))
      | Target_item \<Rightarrow>
          and_then (patch_collection item_obj item_of i_id p (ws_items s))
            (\<lambda>xs. Inr (s\<lparr>ws_items := xs\<rparr>))
      | Target_location \<Rightarrow>
          and_then (patch_collection location_obj location_of l_id p (ws_locations s))
            (\<lambda>xs. Inr (s\<lparr>ws_locations := xs\<rparr>))
      | Target_plan \<Rightarrow>
          and_then (patch_collection plan_obj plan_of p_id p (ws_plans s))
            (\<lambda>xs. Inr (s\<lparr>ws_plans := xs\<rparr>)))"

definition apply_patches :: "wstate \<Rightarrow> field_patch list \<Rightarrow> wstate result" where
  "apply_patches s ps = fold_result apply_field_patch s ps"

text \<open>The helper \<open>patch(target, id, path, before, after)\<close>.\<close>

definition mk_patch ::
  "patch_target \<Rightarrow> string \<Rightarrow> string \<Rightarrow> json option \<Rightarrow> json option \<Rightarrow> field_patch" where
  "mk_patch t i path old new =
     \<lparr>fp_after = new, fp_before = old, fp_id = i, fp_path = path, fp_target = t\<rparr>"

abbreviation item_patch :: "string \<Rightarrow> string \<Rightarrow> json \<Rightarrow> json \<Rightarrow> field_patch" where
  "item_patch i path old new \<equiv> mk_patch Target_item i path (Some old) (Some new)"

abbreviation location_patch :: "string \<Rightarrow> string \<Rightarrow> json \<Rightarrow> json \<Rightarrow> field_patch" where
  "location_patch i path old new \<equiv> mk_patch Target_location i path (Some old) (Some new)"

abbreviation plan_patch :: "string \<Rightarrow> string \<Rightarrow> json \<Rightarrow> json \<Rightarrow> field_patch" where
  "plan_patch i path old new \<equiv> mk_patch Target_plan i path (Some old) (Some new)"

text \<open>\<open>reversePatches\<close>: undo runs the patches backwards with before and after exchanged.\<close>

definition reverse_patch :: "field_patch \<Rightarrow> field_patch" where
  "reverse_patch p = p\<lparr>fp_after := fp_before p, fp_before := fp_after p\<rparr>"

definition reverse_patches :: "field_patch list \<Rightarrow> field_patch list" where
  "reverse_patches ps = map reverse_patch (rev ps)"

text \<open>\<open>src/domain/activity.ts\<close>: bookkeeping patches are left out of the history.\<close>

definition is_bookkeeping :: "field_patch \<Rightarrow> bool" where
  "is_bookkeeping p =
     (if fp_path p = [] then False
      else if fp_target p = Target_item then fp_path p \<in> {''updatedAt'', ''version''}
      else fp_target p = Target_location \<and> fp_path p = ''updatedAt'')"

definition meaningful_patches :: "field_patch list \<Rightarrow> field_patch list" where
  "meaningful_patches ps = filter (\<lambda>p. \<not> is_bookkeeping p) ps"

section \<open>Lemmas about reading and writing\<close>

lemma typed_eq_Inr [simp, result_simps]: "typed x = Inr y \<longleftrightarrow> x = Some y"
  by (cases x) (simp_all add: typed_def)

lemma typed_Some [simp]: "typed (Some y) = Inr y"
  by (simp add: typed_def)

lemma mk_patch_sel [simp]:
  "fp_after (mk_patch t i path b a) = a" "fp_before (mk_patch t i path b a) = b"
  "fp_id (mk_patch t i path b a) = i" "fp_path (mk_patch t i path b a) = path"
  "fp_target (mk_patch t i path b a) = t"
  by (simp_all add: mk_patch_def)

lemma reverse_mk_patch [simp]: "reverse_patch (mk_patch t i path b a) = mk_patch t i path a b"
  by (simp add: mk_patch_def reverse_patch_def)

lemma reverse_reverse_patch [simp]: "reverse_patch (reverse_patch p) = p"
  by (simp add: reverse_patch_def)

lemma reverse_patches_involution: "reverse_patches (reverse_patches ps) = ps"
  by (simp add: reverse_patches_def rev_map comp_def)

lemma apply_patches_Nil [simp]: "apply_patches s [] = Inr s"
  by (simp add: apply_patches_def)

lemma apply_patches_Cons:
  "apply_patches s (p # ps) = and_then (apply_field_patch s p) (\<lambda>s'. apply_patches s' ps)"
  by (simp add: apply_patches_def)

lemma apply_patches_append:
  "apply_patches s (ps @ qs) = and_then (apply_patches s ps) (\<lambda>t. apply_patches t qs)"
  by (simp add: apply_patches_def fold_result_append)

lemmas apply_patches_simps = apply_patches_Nil apply_patches_Cons apply_patches_append

end
