(* ===== verification/Record_Fields.thy ===== *)
theory Record_Fields
  imports Patches
begin

text \<open>
  Writing one property of an encoded record and decoding the result is the update of that
  field: one lemma for every property of \<open>src/domain/types.ts\<close> that a patch can name, and the
  effect of applying such a patch to the workspace state.
\<close>

section \<open>One property of a record\<close>

lemma constraints_set_avoidHumidity: "(bool_of) v = Some y \<Longrightarrow>
  constraints_of (JObj (AList.update ''avoidHumidity'' v (constraints_obj k))) = Some (k\<lparr>k_avoidHumidity := y\<rparr>)"
  by (simp add: constraints_obj_def constraints_of_def has_exact_keys_def codec_simps insert_commute)

lemma constraints_set_avoidWarmth: "(bool_of) v = Some y \<Longrightarrow>
  constraints_of (JObj (AList.update ''avoidWarmth'' v (constraints_obj k))) = Some (k\<lparr>k_avoidWarmth := y\<rparr>)"
  by (simp add: constraints_obj_def constraints_of_def has_exact_keys_def codec_simps insert_commute)

lemma constraints_set_foodOnly: "(bool_of) v = Some y \<Longrightarrow>
  constraints_of (JObj (AList.update ''foodOnly'' v (constraints_obj k))) = Some (k\<lparr>k_foodOnly := y\<rparr>)"
  by (simp add: constraints_obj_def constraints_of_def has_exact_keys_def codec_simps insert_commute)

lemma constraints_set_keepTogether: "(nullable_of str_of) v = Some y \<Longrightarrow>
  constraints_of (JObj (AList.update ''keepTogether'' v (constraints_obj k))) = Some (k\<lparr>k_keepTogether := y\<rparr>)"
  by (simp add: constraints_obj_def constraints_of_def has_exact_keys_def codec_simps insert_commute)

lemma constraints_set_requiredTags: "(list_of str_of) v = Some y \<Longrightarrow>
  constraints_of (JObj (AList.update ''requiredTags'' v (constraints_obj k))) = Some (k\<lparr>k_requiredTags := y\<rparr>)"
  by (simp add: constraints_obj_def constraints_of_def has_exact_keys_def codec_simps insert_commute)

lemma item_set_archivedAt: "(nullable_of str_of) v = Some y \<Longrightarrow>
  item_of (JObj (AList.update ''archivedAt'' v (item_obj i))) = Some (i\<lparr>i_archivedAt := y\<rparr>)"
  by (simp add: item_obj_def item_of_def item_keys_def has_exact_keys_def codec_simps insert_commute)

lemma item_set_category: "(str_of) v = Some y \<Longrightarrow>
  item_of (JObj (AList.update ''category'' v (item_obj i))) = Some (i\<lparr>i_category := y\<rparr>)"
  by (simp add: item_obj_def item_of_def item_keys_def has_exact_keys_def codec_simps insert_commute)

lemma item_set_constraints: "(constraints_of) v = Some y \<Longrightarrow>
  item_of (JObj (AList.update ''constraints'' v (item_obj i))) = Some (i\<lparr>i_constraints := y\<rparr>)"
  by (simp add: item_obj_def item_of_def item_keys_def has_exact_keys_def codec_simps insert_commute)

lemma item_set_description: "(str_of) v = Some y \<Longrightarrow>
  item_of (JObj (AList.update ''description'' v (item_obj i))) = Some (i\<lparr>i_description := y\<rparr>)"
  by (simp add: item_obj_def item_of_def item_keys_def has_exact_keys_def codec_simps insert_commute)

lemma item_set_dimensions: "(nullable_of dimensions_of) v = Some y \<Longrightarrow>
  item_of (JObj (AList.update ''dimensions'' v (item_obj i))) = Some (i\<lparr>i_dimensions := y\<rparr>)"
  by (simp add: item_obj_def item_of_def item_keys_def has_exact_keys_def codec_simps insert_commute)

lemma item_set_frequency: "(union_of frequency_name all_frequency) v = Some y \<Longrightarrow>
  item_of (JObj (AList.update ''frequency'' v (item_obj i))) = Some (i\<lparr>i_frequency := y\<rparr>)"
  by (simp add: item_obj_def item_of_def item_keys_def has_exact_keys_def codec_simps insert_commute)

lemma item_set_locationId: "(str_of) v = Some y \<Longrightarrow>
  item_of (JObj (AList.update ''locationId'' v (item_obj i))) = Some (i\<lparr>i_locationId := y\<rparr>)"
  by (simp add: item_obj_def item_of_def item_keys_def has_exact_keys_def codec_simps insert_commute)

lemma item_set_name: "(str_of) v = Some y \<Longrightarrow>
  item_of (JObj (AList.update ''name'' v (item_obj i))) = Some (i\<lparr>i_name := y\<rparr>)"
  by (simp add: item_obj_def item_of_def item_keys_def has_exact_keys_def codec_simps insert_commute)

lemma item_set_order: "(num_of) v = Some y \<Longrightarrow>
  item_of (JObj (AList.update ''order'' v (item_obj i))) = Some (i\<lparr>i_order := y\<rparr>)"
  by (simp add: item_obj_def item_of_def item_keys_def has_exact_keys_def codec_simps insert_commute)

lemma item_set_quantity: "(num_of) v = Some y \<Longrightarrow>
  item_of (JObj (AList.update ''quantity'' v (item_obj i))) = Some (i\<lparr>i_quantity := y\<rparr>)"
  by (simp add: item_obj_def item_of_def item_keys_def has_exact_keys_def codec_simps insert_commute)

lemma item_set_tags: "(list_of str_of) v = Some y \<Longrightarrow>
  item_of (JObj (AList.update ''tags'' v (item_obj i))) = Some (i\<lparr>i_tags := y\<rparr>)"
  by (simp add: item_obj_def item_of_def item_keys_def has_exact_keys_def codec_simps insert_commute)

lemma item_set_unit: "(str_of) v = Some y \<Longrightarrow>
  item_of (JObj (AList.update ''unit'' v (item_obj i))) = Some (i\<lparr>i_unit := y\<rparr>)"
  by (simp add: item_obj_def item_of_def item_keys_def has_exact_keys_def codec_simps insert_commute)

lemma item_set_updatedAt: "(str_of) v = Some y \<Longrightarrow>
  item_of (JObj (AList.update ''updatedAt'' v (item_obj i))) = Some (i\<lparr>i_updatedAt := y\<rparr>)"
  by (simp add: item_obj_def item_of_def item_keys_def has_exact_keys_def codec_simps insert_commute)

lemma item_set_version: "(num_of) v = Some y \<Longrightarrow>
  item_of (JObj (AList.update ''version'' v (item_obj i))) = Some (i\<lparr>i_version := y\<rparr>)"
  by (simp add: item_obj_def item_of_def item_keys_def has_exact_keys_def codec_simps insert_commute)

lemma location_set_archivedAt: "(nullable_of str_of) v = Some y \<Longrightarrow>
  location_of (JObj (AList.update ''archivedAt'' v (location_obj l))) = Some (l\<lparr>l_archivedAt := y\<rparr>)"
  by (simp add: location_obj_def location_of_def location_keys_def has_exact_keys_def codec_simps insert_commute)

lemma location_set_captureStatus: "(union_of capture_status_name all_capture_status) v = Some y \<Longrightarrow>
  location_of (JObj (AList.update ''captureStatus'' v (location_obj l))) = Some (l\<lparr>l_captureStatus := y\<rparr>)"
  by (simp add: location_obj_def location_of_def location_keys_def has_exact_keys_def codec_simps insert_commute)

lemma location_set_code: "(str_of) v = Some y \<Longrightarrow>
  location_of (JObj (AList.update ''code'' v (location_obj l))) = Some (l\<lparr>l_code := y\<rparr>)"
  by (simp add: location_obj_def location_of_def location_keys_def has_exact_keys_def codec_simps insert_commute)

lemma location_set_conditions: "(conditions_of) v = Some y \<Longrightarrow>
  location_of (JObj (AList.update ''conditions'' v (location_obj l))) = Some (l\<lparr>l_conditions := y\<rparr>)"
  by (simp add: location_obj_def location_of_def location_keys_def has_exact_keys_def codec_simps insert_commute)

lemma location_set_description: "(str_of) v = Some y \<Longrightarrow>
  location_of (JObj (AList.update ''description'' v (location_obj l))) = Some (l\<lparr>l_description := y\<rparr>)"
  by (simp add: location_obj_def location_of_def location_keys_def has_exact_keys_def codec_simps insert_commute)

lemma location_set_dimensions: "(nullable_of dimensions_of) v = Some y \<Longrightarrow>
  location_of (JObj (AList.update ''dimensions'' v (location_obj l))) = Some (l\<lparr>l_dimensions := y\<rparr>)"
  by (simp add: location_obj_def location_of_def location_keys_def has_exact_keys_def codec_simps insert_commute)

lemma location_set_kind: "(union_of location_kind_name all_location_kind) v = Some y \<Longrightarrow>
  location_of (JObj (AList.update ''kind'' v (location_obj l))) = Some (l\<lparr>l_kind := y\<rparr>)"
  by (simp add: location_obj_def location_of_def location_keys_def has_exact_keys_def codec_simps insert_commute)

lemma location_set_name: "(str_of) v = Some y \<Longrightarrow>
  location_of (JObj (AList.update ''name'' v (location_obj l))) = Some (l\<lparr>l_name := y\<rparr>)"
  by (simp add: location_obj_def location_of_def location_keys_def has_exact_keys_def codec_simps insert_commute)

lemma location_set_order: "(num_of) v = Some y \<Longrightarrow>
  location_of (JObj (AList.update ''order'' v (location_obj l))) = Some (l\<lparr>l_order := y\<rparr>)"
  by (simp add: location_obj_def location_of_def location_keys_def has_exact_keys_def codec_simps insert_commute)

lemma location_set_parentId: "(nullable_of str_of) v = Some y \<Longrightarrow>
  location_of (JObj (AList.update ''parentId'' v (location_obj l))) = Some (l\<lparr>l_parentId := y\<rparr>)"
  by (simp add: location_obj_def location_of_def location_keys_def has_exact_keys_def codec_simps insert_commute)

lemma location_set_tags: "(list_of str_of) v = Some y \<Longrightarrow>
  location_of (JObj (AList.update ''tags'' v (location_obj l))) = Some (l\<lparr>l_tags := y\<rparr>)"
  by (simp add: location_obj_def location_of_def location_keys_def has_exact_keys_def codec_simps insert_commute)

lemma location_set_updatedAt: "(str_of) v = Some y \<Longrightarrow>
  location_of (JObj (AList.update ''updatedAt'' v (location_obj l))) = Some (l\<lparr>l_updatedAt := y\<rparr>)"
  by (simp add: location_obj_def location_of_def location_keys_def has_exact_keys_def codec_simps insert_commute)

lemma workspace_set_name: "str_of v = Some y \<Longrightarrow>
  workspace_of (JObj (AList.update ''name'' v (workspace_obj w))) = Some (w\<lparr>w_name := y\<rparr>)"
  by (simp add: workspace_obj_def workspace_of_def has_exact_keys_def codec_simps insert_commute)

lemma plan_of_update:
  assumes "k \<in> set plan_keys" and "plan_of_obj (p_selection p) (AList.update k v (plan_obj p)) = Some q"
  shows "plan_of (JObj (AList.update k v (plan_obj p))) = Some q"
proof -
  have "k \<in> set (map fst (plan_obj p))"
    using assms(1) by (simp add: keys_plan_obj del: set_map)
  then have "map fst (AList.update k v (plan_obj p)) = map fst (plan_obj p)"
    by (simp add: update_keys del: set_map)
  then have keys: "has_exact_keys ks (AList.update k v (plan_obj p)) \<longleftrightarrow> has_exact_keys ks (plan_obj p)" for ks
    by (simp only: has_exact_keys_def)
  have "field_of selection_of ''selection'' (AList.update k v (plan_obj p)) = Some sel"
    if "p_selection p = Some sel" for sel
    using that assms(1) selection_not_plan_key
    by (auto simp: field_of_def update_conv' plan_obj_def codec_simps)
  with assms(2) show ?thesis by (auto simp: keys has_exact_keys_plan_obj)
qed

lemma plan_set_status: "union_of plan_status_name all_plan_status v = Some y \<Longrightarrow>
  plan_of (JObj (AList.update ''status'' v (plan_obj p))) = Some (p\<lparr>p_status := y\<rparr>)"
  by (rule plan_of_update) (simp_all add: plan_keys_def plan_of_obj_def plan_obj_def codec_simps)

lemma plan_set_steps: "list_of step_of v = Some y \<Longrightarrow>
  plan_of (JObj (AList.update ''steps'' v (plan_obj p))) = Some (p\<lparr>p_steps := y\<rparr>)"
  by (rule plan_of_update) (simp_all add: plan_keys_def plan_of_obj_def plan_obj_def codec_simps)

end
