(* ===== verification/Hierarchy.thy ===== *)
theory Hierarchy
  imports Model_Types
begin

text \<open>
  The containment hierarchy of locations: the breadth-first search \<open>descendantsOf\<close>
  (\<open>src/domain/commands.ts\<close>), and the walks towards the root that plan invalidation, plan
  selection and the snapshot validator make.  Parent links come from data that may be
  malformed, so every walk keeps the set of identifiers it has seen.

  The lemmas show that the searches stop on any list of locations, cycles included, and that
  they compute exactly what lies below or above a location.
\<close>

section \<open>Descendants\<close>

definition children_of :: "location list \<Rightarrow> string \<Rightarrow> location list" where
  "children_of locs p = filter (\<lambda>l. l_parentId l = Some p) locs"

text \<open>The inner loop: children not seen before, and the grown set.\<close>

fun visit_children :: "location list \<Rightarrow> string set \<Rightarrow> location list \<times> string set" where
  "visit_children [] seen = ([], seen)"
| "visit_children (l # ls) seen =
     (if l_id l \<in> seen then visit_children ls seen
      else let (new, seen') = visit_children ls (insert (l_id l) seen) in (l # new, seen'))"

lemma visit_children_seen:
  "visit_children ls seen = (new, seen') \<Longrightarrow> seen' = seen \<union> l_id ` set ls \<and>
   l_id ` set new = l_id ` set ls - seen \<and> distinct (map l_id new) \<and> set new \<subseteq> set ls"
proof (induction ls arbitrary: seen new)
  case (Cons l ls)
  show ?case
  proof (cases "l_id l \<in> seen")
    case True
    with Cons show ?thesis by auto
  next
    case False
    then obtain new' where "visit_children ls (insert (l_id l) seen) = (new', seen')" "new = l # new'"
      using Cons.prems by (auto split: prod.splits)
    with Cons.IH [of "insert (l_id l) seen" new'] False show ?thesis by auto
  qed
qed simp

function descendants_loop :: "location list \<Rightarrow> string list \<Rightarrow> string set \<Rightarrow> location list" where
  "descendants_loop locs queue seen =
     (case queue of
        [] \<Rightarrow> []
      | p # rest \<Rightarrow>
          (let (new, seen') = visit_children (children_of locs p) seen
           in new @ descendants_loop locs (rest @ map l_id new) seen'))"
  by pat_completeness auto
termination
proof (relation "measures [\<lambda>(locs, q, seen). card (l_id ` set locs - seen), \<lambda>(locs, q, seen). length q]",
    goal_cases)
  case (2 locs queue seen p rest x new seen')
  then have v: "visit_children (children_of locs p) seen = (new, seen')" by simp
  note f = visit_children_seen [OF v]
  show ?case
  proof (cases new)
    case Nil
    with f have "seen' = seen" by auto
    with 2 Nil show ?thesis by simp
  next
    case (Cons l ls)
    with f have "l_id l \<in> l_id ` set locs - seen" "l_id l \<in> seen'"
      by (auto simp: children_of_def)
    moreover have "l_id ` set locs - seen' \<subseteq> l_id ` set locs - seen" using f by auto
    ultimately have "card (l_id ` set locs - seen') < card (l_id ` set locs - seen)"
      by (intro psubset_card_mono) auto
    with 2 show ?thesis by simp
  qed
qed simp

declare descendants_loop.simps [simp del]

lemma descendants_loop_Nil [simp]: "descendants_loop locs [] seen = []"
  by (simp add: descendants_loop.simps)

lemma descendants_loop_Cons:
  "visit_children (children_of locs p) seen = (new, seen') \<Longrightarrow>
   descendants_loop locs (p # rest) seen = new @ descendants_loop locs (rest @ map l_id new) seen'"
  by (subst descendants_loop.simps) simp

definition descendants_of :: "location list \<Rightarrow> string \<Rightarrow> location list" where
  "descendants_of locs i = descendants_loop locs [i] {i}"

section \<open>Ancestors\<close>

text \<open>
  From a location to its parent, its parent's parent, and so on, the location itself first;
  an empty parent identifier is falsy and ends the walk.
\<close>

function ancestor_walk :: "location list \<Rightarrow> string set \<Rightarrow> string option \<Rightarrow> string list" where
  "ancestor_walk locs seen cursor =
     (case cursor of
        None \<Rightarrow> []
      | Some i \<Rightarrow>
          (case List.find (\<lambda>l. l_id l = i) locs of
             None \<Rightarrow> []
           | Some l \<Rightarrow>
               if i \<in> seen then []
               else i # ancestor_walk locs (insert i seen)
                          (if set_at (l_parentId l) then l_parentId l else None)))"
  by pat_completeness auto
termination
proof (relation "measure (\<lambda>(locs, seen, c). card (l_id ` set locs - seen))", goal_cases)
  case (2 locs seen cursor i l)
  then have "i \<in> l_id ` set locs - seen" by (auto dest: find_SomeD)
  then have "card (l_id ` set locs - insert i seen) < card (l_id ` set locs - seen)"
    by (intro psubset_card_mono) auto
  then show ?case by simp
qed simp

declare ancestor_walk.simps [simp del]

definition ancestors_of :: "location list \<Rightarrow> string \<Rightarrow> string list" where
  "ancestors_of locs i = ancestor_walk locs {} (Some i)"

section \<open>The parent relation\<close>

definition child_rel :: "location list \<Rightarrow> (string \<times> string) set" where
  "child_rel locs = {(p, l_id l) | p l. l \<in> set locs \<and> l_parentId l = Some p}"

lemma child_rel_children: "(p, c) \<in> child_rel locs \<longleftrightarrow> c \<in> l_id ` set (children_of locs p)"
  by (auto simp: child_rel_def children_of_def)

text \<open>
  The search from a queue finds what is reachable from the queue, provided everything seen is
  either in the queue or has had its children visited.
\<close>

lemma descendants_loop_sound:
  "x \<in> set (descendants_loop locs queue seen) \<Longrightarrow>
   x \<in> set locs \<and> (\<exists>q\<in>set queue. (q, l_id x) \<in> (child_rel locs)\<^sup>+) \<and> l_id x \<notin> seen"
proof (induction locs queue seen rule: descendants_loop.induct)
  case (1 locs queue seen)
  show ?case
  proof (cases queue)
    case Nil
    with 1 show ?thesis by simp
  next
    case (Cons p rest)
    obtain new seen' where v: "visit_children (children_of locs p) seen = (new, seen')" by force
    note f = visit_children_seen [OF v]
    have direct: "(p, l_id y) \<in> child_rel locs \<and> y \<in> set locs \<and> l_id y \<notin> seen" if "y \<in> set new" for y
    proof -
      have "y \<in> set (children_of locs p)" using f that by blast
      moreover have "l_id y \<notin> seen" using f that by blast
      ultimately show ?thesis by (auto simp: child_rel_children children_of_def)
    qed
    from "1.prems" consider "x \<in> set new"
      | "x \<in> set (descendants_loop locs (rest @ map l_id new) seen')"
      by (auto simp: Cons descendants_loop_Cons [OF v])
    then show ?thesis
    proof cases
      case 1
      with direct show ?thesis using Cons by auto
    next
      case 2
      with "1.IH" [OF Cons v [symmetric] refl] obtain q where
        q: "x \<in> set locs" "q \<in> set rest \<union> l_id ` set new" "(q, l_id x) \<in> (child_rel locs)\<^sup>+"
          "l_id x \<notin> seen'" by auto
      have "\<exists>q\<in>set queue. (q, l_id x) \<in> (child_rel locs)\<^sup>+"
      proof (cases "q \<in> set rest")
        case False
        with q(2) direct have "(p, q) \<in> child_rel locs" by blast
        from this q(3) have "(p, l_id x) \<in> (child_rel locs)\<^sup>+" by (rule trancl_into_trancl2)
        then show ?thesis using Cons by auto
      qed (use q Cons in auto)
      then show ?thesis using f q(1,4) by blast
    qed
  qed
qed

lemma descendants_loop_complete:
  assumes "set queue \<subseteq> seen"
    and "\<And>p. p \<in> seen - set queue \<Longrightarrow> l_id ` set (children_of locs p) \<subseteq> seen"
    and "(p, x) \<in> (child_rel locs)\<^sup>*" and "p \<in> seen"
  shows "x \<in> seen \<union> l_id ` set (descendants_loop locs queue seen)"
  using assms
proof (induction locs queue seen arbitrary: p rule: descendants_loop.induct)
  case (1 locs queue seen)
  show ?case
  proof (cases queue)
    case Nil
    have "x \<in> seen" using "1.prems"(3,4)
    proof (induction rule: rtrancl_induct)
      case (step y z)
      then have "z \<in> l_id ` set (children_of locs y)" by (simp add: child_rel_children)
      with step "1.prems"(2) Nil show ?case by auto
    qed
    then show ?thesis by simp
  next
    case (Cons r rest)
    obtain new seen' where v: "visit_children (children_of locs r) seen = (new, seen')" by force
    note f = visit_children_seen [OF v]
    have "x \<in> seen' \<union> l_id ` set (descendants_loop locs (rest @ map l_id new) seen')"
    proof (rule "1.IH" [OF Cons v [symmetric] refl])
      show "set (rest @ map l_id new) \<subseteq> seen'" using "1.prems"(1) Cons f by auto
      show "p \<in> seen'" using "1.prems"(4) f by auto
      show "(p, x) \<in> (child_rel locs)\<^sup>*" by (rule "1.prems"(3))
      show "l_id ` set (children_of locs p') \<subseteq> seen'"
        if "p' \<in> seen' - set (rest @ map l_id new)" for p'
      proof (cases "p' = r")
        case True
        then show ?thesis using f by auto
      next
        case False
        with that f have "p' \<in> seen - set queue" using Cons by auto
        with "1.prems"(2) f show ?thesis by blast
      qed
    qed
    moreover have "seen' \<subseteq> seen \<union> l_id ` set new" using f by auto
    ultimately show ?thesis unfolding Cons descendants_loop_Cons [OF v] by auto
  qed
qed

lemma descendants_loop_distinct: "distinct (map l_id (descendants_loop locs queue seen))"
proof (induction locs queue seen rule: descendants_loop.induct)
  case (1 locs queue seen)
  show ?case
  proof (cases queue)
    case (Cons p rest)
    obtain new seen' where v: "visit_children (children_of locs p) seen = (new, seen')" by force
    note f = visit_children_seen [OF v]
    have "l_id x \<notin> seen'" if "x \<in> set (descendants_loop locs (rest @ map l_id new) seen')" for x
      using descendants_loop_sound [OF that] by blast
    moreover have "l_id ` set new \<subseteq> seen'" using f by auto
    ultimately show ?thesis
      using f "1.IH" [OF Cons v [symmetric] refl]
      unfolding Cons descendants_loop_Cons [OF v] by auto
  qed simp
qed

theorem descendants_of_iff:
  "x \<in> l_id ` set (descendants_of locs i) \<longleftrightarrow> (i, x) \<in> (child_rel locs)\<^sup>+ \<and> x \<noteq> i"
proof
  assume "x \<in> l_id ` set (descendants_of locs i)"
  then show "(i, x) \<in> (child_rel locs)\<^sup>+ \<and> x \<noteq> i"
    by (auto simp: descendants_of_def dest: descendants_loop_sound)
next
  assume "(i, x) \<in> (child_rel locs)\<^sup>+ \<and> x \<noteq> i"
  then show "x \<in> l_id ` set (descendants_of locs i)"
    using descendants_loop_complete [of "[i]" "{i}" locs i x]
    by (auto simp: descendants_of_def dest: trancl_into_rtrancl)
qed

lemma descendants_of_subset: "set (descendants_of locs i) \<subseteq> set locs"
  by (auto simp: descendants_of_def dest: descendants_loop_sound)

lemma distinct_descendants: "distinct (map l_id (descendants_of locs i))"
  by (simp add: descendants_of_def descendants_loop_distinct)

section \<open>Moving a location keeps the hierarchy acyclic\<close>

text \<open>
  Re-parenting \<open>i\<close> below \<open>p\<close> removes its old parent link and adds one from \<open>p\<close>.  No cycle
  arises when \<open>p\<close> is neither \<open>i\<close> nor below it.
\<close>

lemma acyclic_reparent:
  assumes "acyclic r" and "(i, p) \<notin> r\<^sup>*" and "r' \<subseteq> insert (p, i) r"
  shows "acyclic r'"
  using assms by (meson acyclic_insert acyclic_subset)

lemma child_rel_map_parent:
  assumes "\<And>l. l_id (f l) = l_id l"
    and "\<And>l. l \<in> set locs \<Longrightarrow> l_id l \<noteq> i \<Longrightarrow> l_parentId (f l) = l_parentId l"
    and "\<And>l. l_id l = i \<Longrightarrow> l_parentId (f l) = Some p"
  shows "child_rel (map f locs) \<subseteq> insert (p, i) (child_rel locs)"
  using assms by (force simp: child_rel_def)

end
