(* ===== verification/Plan_Selection.thy ===== *)
theory Plan_Selection
  imports Hierarchy Errors
begin

text \<open>
  Areas and pins of a plan (\<open>src/domain/plan-selection.ts\<close>): whether a selection is well
  formed and refers to live records, what it resolves to, and whether a step of a plan
  respects it.  A resolved selection is a record of sets and its three tests.
\<close>

definition empty_selection :: plan_selection where
  "empty_selection =
     \<lparr>sel_locationIds = None, sel_pinnedItemIds = [], sel_pinnedLocationIds = []\<rparr>"

text \<open>A list of distinct non-blank identifiers.\<close>

fun valid_ids :: "json \<Rightarrow> bool" where
  "valid_ids (JArr xs) = (list_all nonblank_string xs \<and> distinct xs)"
| "valid_ids j = False"

fun valid_ids_opt :: "json option \<Rightarrow> bool" where
  "valid_ids_opt (Some j) = valid_ids j"
| "valid_ids_opt None = False"

fun valid_plan_selection :: "json option \<Rightarrow> bool" where
  "valid_plan_selection None = True"
| "valid_plan_selection (Some (JObj m)) =
     (list_all (\<lambda>k. k \<in> {''locationIds'', ''pinnedItemIds'', ''pinnedLocationIds''}) (map fst m) \<and>
      (map_of m ''locationIds'' = Some JNull \<or> valid_ids_opt (map_of m ''locationIds'')) \<and>
      valid_ids_opt (map_of m ''pinnedItemIds'') \<and> valid_ids_opt (map_of m ''pinnedLocationIds''))"
| "valid_plan_selection (Some j) = False"

definition live_locations :: "wstate \<Rightarrow> location list" where
  "live_locations s = filter (\<lambda>l. \<not> l_archived l) (ws_locations s)"

definition live_items :: "wstate \<Rightarrow> item list" where
  "live_items s = filter (\<lambda>i. \<not> i_archived i) (ws_items s)"

text \<open>The problem of a well-formed selection, if it has one.\<close>

definition selection_issue :: "wstate \<Rightarrow> plan_selection \<Rightarrow> string option" where
  "selection_issue s sel =
     (let locs = map l_id (live_locations s); its = map i_id (live_items s);
          areas = (case sel_locationIds sel of None \<Rightarrow> [] | Some ids \<Rightarrow> ids)
      in if list_ex (\<lambda>i. i \<notin> set locs) (areas @ sel_pinnedLocationIds sel)
         then Some ''A selected or pinned space is unavailable. Review areas and pins''
         else if list_ex (\<lambda>i. i \<notin> set its) (sel_pinnedItemIds sel)
         then Some ''A pinned item is unavailable. Review pins''
         else None)"

definition plan_selection_issue :: "wstate \<Rightarrow> json option \<Rightarrow> string option" where
  "plan_selection_issue s sel =
     (if \<not> valid_plan_selection sel then Some ''Plan areas and pins are malformed''
      else case Option.bind sel selection_of of
             None \<Rightarrow> None
           | Some t \<Rightarrow> selection_issue s t)"

record resolved_selection =
  r_fixedLocationIds :: "string set"
  r_locationIds :: "string set"
  r_pinnedItemIds :: "string set"
  r_pinnedLocationIds :: "string set"

text \<open>
  \<open>resolvePlanSelection\<close>.  The map \<open>byId\<close> keeps the last live location of an identifier, so
  the ancestry looks the reversed list up.
\<close>

definition resolve_plan_selection :: "wstate \<Rightarrow> plan_selection option \<Rightarrow> resolved_selection" where
  "resolve_plan_selection s selection =
     (let opts = (case selection of None \<Rightarrow> empty_selection | Some t \<Rightarrow> t);
          locs = live_locations s;
          ancestry = (\<lambda>i. ancestors_of (rev locs) i);
          roots = (case sel_locationIds opts of None \<Rightarrow> [] | Some ids \<Rightarrow> ids);
          pinned_roots = sel_pinnedLocationIds opts;
          under = (\<lambda>ids l. list_ex (\<lambda>i. i \<in> set ids) (ancestry (l_id l)));
          location_ids = map l_id (filter (\<lambda>l. sel_locationIds opts = None \<or> under roots l) locs);
          pinned_locations = map l_id (filter (under pinned_roots) locs);
          pinned_items = sel_pinnedItemIds opts @
            map i_id (filter (\<lambda>i. i_locationId i \<in> set pinned_locations) (ws_items s));
          fixed_by_items = concat (map (\<lambda>i. ancestry (i_locationId i))
            (filter (\<lambda>i. i_id i \<in> set pinned_items) (live_items s)));
          fixed_by_pins = concat (map ancestry pinned_roots);
          fixed_by_areas = concat (map ancestry
            (filter (\<lambda>root. \<not> list_ex (\<lambda>i. i \<in> set roots) (drop 1 (ancestry root))) roots))
      in \<lparr>r_fixedLocationIds =
             set (pinned_locations @ fixed_by_items @ fixed_by_pins @ fixed_by_areas),
          r_locationIds = set location_ids,
          r_pinnedItemIds = set pinned_items,
          r_pinnedLocationIds = set pinned_locations\<rparr>)"

definition can_move_item :: "resolved_selection \<Rightarrow> string \<Rightarrow> string \<Rightarrow> bool" where
  "can_move_item r i loc \<longleftrightarrow> loc \<in> r_locationIds r \<and> i \<notin> r_pinnedItemIds r"

definition can_move_location :: "resolved_selection \<Rightarrow> string \<Rightarrow> string option \<Rightarrow> bool" where
  "can_move_location r i parent \<longleftrightarrow>
     (case parent of None \<Rightarrow> False
      | Some p \<Rightarrow> p \<noteq> [] \<and> i \<in> r_locationIds r \<and> p \<in> r_locationIds r \<and> i \<notin> r_fixedLocationIds r)"

definition can_receive :: "resolved_selection \<Rightarrow> string \<Rightarrow> bool" where
  "can_receive r i \<longleftrightarrow> i \<in> r_locationIds r \<and> i \<notin> r_pinnedLocationIds r"

definition plan_selection_step_issue ::
  "wstate \<Rightarrow> plan_selection option \<Rightarrow> plan_step \<Rightarrow> string option" where
  "plan_selection_step_issue s selection step =
     (if selection = None then None
      else
        (let r = resolve_plan_selection s selection
         in if s_sourceId step \<notin> r_locationIds r \<or> s_destinationId step \<notin> r_locationIds r
            then Some ''A planned move crosses the selected area boundary''
            else if \<not> can_receive r (s_destinationId step)
            then Some ''A planned move would change a pinned space''
            else if s_type step = Item_step \<and> set_at (s_itemId step) \<and>
                    \<not> can_move_item r (the (s_itemId step)) (s_sourceId step)
            then Some ''A planned move would change a pinned item placement''
            else if s_type step = Location_step \<and> set_at (s_locationId step) \<and>
                    \<not> can_move_location r (the (s_locationId step)) (Some (s_sourceId step))
            then Some ''A planned move would carry a pinned placement or move a selected area root''
            else None))"

section \<open>Properties\<close>

lemma nonblank_strings_decode:
  "list_all nonblank_string xs \<Longrightarrow> \<exists>ys. those (map str_of xs) = Some ys"
proof (induction xs)
  case (Cons x xs)
  then show ?case by (cases x) auto
qed simp

lemma valid_ids_decode: "valid_ids j \<Longrightarrow> \<exists>ys. list_of str_of j = Some ys"
  by (cases j) (auto dest: nonblank_strings_decode)

text \<open>A well-formed selection that is an object with distinct keys decodes.\<close>

lemma valid_plan_selection_decodes:
  assumes "valid_plan_selection (Some j)" and "proper j"
  shows "\<exists>t. selection_of j = Some t"
proof (cases j)
  case (JObj m)
  let ?ks = "[''locationIds'', ''pinnedItemIds'', ''pinnedLocationIds'']"
  from assms JObj have keys: "set (map fst m) \<subseteq> set ?ks" and d: "distinct (map fst m)"
    and l: "map_of m ''locationIds'' = Some JNull \<or> valid_ids_opt (map_of m ''locationIds'')"
    and pi: "valid_ids_opt (map_of m ''pinnedItemIds'')"
    and pl: "valid_ids_opt (map_of m ''pinnedLocationIds'')"
    by (auto simp: list_all_iff)
  from l obtain jl where jl1: "map_of m ''locationIds'' = Some jl" "jl = JNull \<or> valid_ids jl"
    by (cases "map_of m ''locationIds''") auto
  then obtain tl where "nullable_of (list_of str_of) jl = Some tl"
    using valid_ids_decode [of jl] by (cases "jl = JNull") (auto simp: nullable_of_def)
  note jl = jl1(1) this
  from pi obtain ji ti where ji: "map_of m ''pinnedItemIds'' = Some ji" "list_of str_of ji = Some ti"
    by (cases "map_of m ''pinnedItemIds''") (auto dest!: valid_ids_decode)
  from pl obtain jp tp where jp: "map_of m ''pinnedLocationIds'' = Some jp" "list_of str_of jp = Some tp"
    by (cases "map_of m ''pinnedLocationIds''") (auto dest!: valid_ids_decode)
  have "set ?ks \<subseteq> set (map fst m)"
    using jl ji jp by (auto dest!: map_of_SomeD intro: rev_image_eqI)
  with keys d have "has_exact_keys ?ks m" unfolding has_exact_keys_def by blast
  with JObj jl ji jp show ?thesis by (simp add: selection_of_def field_of_def)
qed (use assms(1) in simp_all)

text \<open>Without a selection nothing is pinned and every live location is in scope.\<close>

lemma resolve_no_selection:
  "resolve_plan_selection s None =
     \<lparr>r_fixedLocationIds = {}, r_locationIds = l_id ` set (live_locations s),
      r_pinnedItemIds = {}, r_pinnedLocationIds = {}\<rparr>"
  by (simp add: resolve_plan_selection_def empty_selection_def Let_def list_ex_iff)

text \<open>A destination a step may use is never pinned; what may be carried is never fixed.\<close>

lemma step_issue_None_receives:
  "plan_selection_step_issue s (Some t) step = None \<Longrightarrow>
   s_destinationId step \<in> r_locationIds (resolve_plan_selection s (Some t)) \<and>
   s_sourceId step \<in> r_locationIds (resolve_plan_selection s (Some t)) \<and>
   s_destinationId step \<notin> r_pinnedLocationIds (resolve_plan_selection s (Some t))"
  by (auto simp: plan_selection_step_issue_def Let_def can_receive_def split: if_splits)

end
