(* ===== verification/Validation.thy ===== *)
theory Validation
  imports Record_Fields Plan_Selection
begin

text \<open>
  The checks the command handlers share (\<open>src/domain/commands.ts\<close>): looking records up,
  refusing changes to a counted space, the keys a partial change may name, and the validation
  of a location or an item that arrives as JSON.
\<close>

section \<open>Looking records up\<close>

definition require_location :: "wstate \<Rightarrow> string \<Rightarrow> location result" where
  "require_location s i =
     (case find_location s i of None \<Rightarrow> throw LOCATION_NOT_FOUND | Some l \<Rightarrow> Inr l)"

definition require_active_location :: "wstate \<Rightarrow> string \<Rightarrow> location result" where
  "require_active_location s i =
     and_then (require_location s i)
       (\<lambda>l. if l_archived l then throw LOCATION_ARCHIVED else Inr l)"

definition require_item :: "wstate \<Rightarrow> string \<Rightarrow> item result" where
  "require_item s i = (case find_item s i of None \<Rightarrow> throw ITEM_NOT_FOUND | Some x \<Rightarrow> Inr x)"

definition require_active_item :: "wstate \<Rightarrow> string \<Rightarrow> item result" where
  "require_active_item s i =
     and_then (require_item s i) (\<lambda>x. if i_archived x then throw ITEM_ARCHIVED else Inr x)"

definition require_plan :: "wstate \<Rightarrow> string \<Rightarrow> move_plan result" where
  "require_plan s i = (case find_plan s i of None \<Rightarrow> throw PLAN_NOT_FOUND | Some p \<Rightarrow> Inr p)"

definition next_item_version :: "item \<Rightarrow> jsnum result" where
  "next_item_version x =
     (if \<not> is_safe_integer (i_version x) \<or> js_le (JsInt max_safe) (i_version x)
      then throw ITEM_VERSION_EXHAUSTED
      else Inr (js_add (i_version x) (Fin 1)))"

definition capture_complete :: "capture_status \<Rightarrow> bool" where
  "capture_complete c \<longleftrightarrow> c \<in> {Counted, Known_empty}"

text \<open>
  \<open>assertCaptureContentsEditable\<close>: the contents of a counted space change only after it is
  reopened.  A change names the location concerned, or none; an identifier is checked once.
\<close>

fun assert_contents_editable :: "wstate \<Rightarrow> string list \<Rightarrow> string option list \<Rightarrow> unit result" where
  "assert_contents_editable s checked [] = Inr ()"
| "assert_contents_editable s checked (c # cs) =
     (case c of
        None \<Rightarrow> assert_contents_editable s checked cs
      | Some i \<Rightarrow>
          if i = [] \<or> i \<in> set checked then assert_contents_editable s checked cs
          else and_then (require_location s i) (\<lambda>l.
            if \<not> l_archived l \<and> capture_complete (l_captureStatus l) then throw CAPTURE_COMPLETE
            else assert_contents_editable s (i # checked) cs))"

abbreviation contents_editable :: "wstate \<Rightarrow> string option list \<Rightarrow> unit result" where
  "contents_editable s cs \<equiv> assert_contents_editable s [] cs"

section \<open>Values and keys of a partial change\<close>

definition location_change_keys :: "string list" where
  "location_change_keys =
     [''code'', ''conditions'', ''description'', ''dimensions'', ''kind'', ''name'', ''order'',
      ''parentId'', ''tags'']"

definition item_change_keys :: "string list" where
  "item_change_keys =
     [''category'', ''constraints'', ''description'', ''dimensions'', ''frequency'', ''name'',
      ''quantity'', ''tags'', ''unit'']"

definition bulk_item_change_keys :: "string list" where
  "bulk_item_change_keys = [''category'', ''constraints'', ''frequency'', ''tags'']"

definition bulk_constraint_change_keys :: "string list" where
  "bulk_constraint_change_keys =
     [''avoidHumidity'', ''avoidWarmth'', ''foodOnly'', ''keepTogether'', ''requiredTags'']"

text \<open>
  \<open>assertAllowedChanges\<close>, returning the properties of the object it accepts.  The code
  looks for the first refused key and then tests that key for truth, so a refused empty key
  counts as none found, and hides the refused keys after it.
\<close>

definition refused_key :: "string list \<Rightarrow> string \<Rightarrow> bool" where
  "refused_key allowed k \<longleftrightarrow> k \<notin> set allowed \<or> CHR ''.'' \<in> set k \<or> k \<in> set unsafe_path_keys"

fun allowed_changes :: "string list \<Rightarrow> json option \<Rightarrow> jsobj result" where
  "allowed_changes allowed (Some (JObj m)) =
     (case List.find (refused_key allowed) (map fst m) of
        Some k \<Rightarrow> if k \<noteq> [] then throw INVALID_CHANGES else Inr m
      | None \<Rightarrow> Inr m)"
| "allowed_changes allowed j = throw INVALID_CHANGES"

fun satisfies :: "(json \<Rightarrow> bool) \<Rightarrow> json option \<Rightarrow> bool" where
  "satisfies p (Some j) = p j"
| "satisfies p None = False"

fun string_of_opt :: "json option \<Rightarrow> string" where
  "string_of_opt (Some j) = js_String j"
| "string_of_opt None = ''undefined''"

fun valid_dimensions :: "json \<Rightarrow> bool" where
  "valid_dimensions JNull = True"
| "valid_dimensions (JObj m) =
     (list_all (\<lambda>k. satisfies num_positive (map_of m k)) [''depth'', ''height'', ''width''] \<and>
      (map_of m ''unit'' = Some (JStr ''cm'') \<or> map_of m ''unit'' = Some (JStr ''in'')))"
| "valid_dimensions j = False"

fun valid_conditions :: "json \<Rightarrow> bool" where
  "valid_conditions (JObj m) =
     (list_all (\<lambda>k. satisfies is_bool (map_of m k)) [''dark'', ''dry'', ''foodSafe''] \<and>
      string_of_opt (map_of m ''humidity'') \<in> set (map humidity_name all_humidity) \<and>
      string_of_opt (map_of m ''temperature'') \<in> set (map temperature_name all_temperature))"
| "valid_conditions j = False"

fun null_or_string :: "json \<Rightarrow> bool" where
  "null_or_string JNull = True"
| "null_or_string (JStr s) = True"
| "null_or_string j = False"

fun valid_constraints :: "json \<Rightarrow> bool" where
  "valid_constraints (JObj m) =
     (list_all (\<lambda>k. satisfies is_bool (map_of m k)) [''avoidHumidity'', ''avoidWarmth'', ''foodOnly''] \<and>
      satisfies null_or_string (map_of m ''keepTogether'') \<and>
      satisfies is_string_array (map_of m ''requiredTags''))"
| "valid_constraints j = False"

section \<open>Validating a location\<close>

text \<open>The upper-cased, trimmed code of a string value.\<close>

fun code_key :: "json option \<Rightarrow> string" where
  "code_key (Some (JStr c)) = js_upper (js_trim c)"
| "code_key j = []"

fun string_or_none :: "json option \<Rightarrow> string option" where
  "string_or_none (Some (JStr c)) = Some c"
| "string_or_none j = None"

definition location_code_in_use :: "wstate \<Rightarrow> string option \<Rightarrow> string \<Rightarrow> bool" where
  "location_code_in_use s ignore code \<longleftrightarrow>
     list_ex (\<lambda>c. Some (l_id c) \<noteq> ignore \<and> \<not> l_archived c \<and> js_upper (js_trim (l_code c)) = code)
       (ws_locations s)"

definition validate_location :: "wstate \<Rightarrow> json \<Rightarrow> string option \<Rightarrow> unit result" where
  "validate_location s loc ignore =
     (let get = (\<lambda>k. jget k loc); parent = string_or_none (get ''parentId'') in
      if \<not> is_record loc then throw INVALID_LOCATION
      else if \<not> satisfies nonblank_string (get ''id'') then throw INVALID_LOCATION
      else if \<not> set_at ignore \<and> list_ex (\<lambda>c. Some (JStr (l_id c)) = get ''id'') (ws_locations s)
      then throw LOCATION_EXISTS
      else if \<not> satisfies nonblank_string (get ''name'') then throw NAME_REQUIRED
      else if \<not> satisfies nonblank_string (get ''code'') then throw CODE_REQUIRED
      else if \<not> satisfies num_finite (get ''order'') then throw INVALID_ORDER
      else if string_of_opt (get ''kind'') \<notin> set (map location_kind_name all_location_kind)
      then throw INVALID_LOCATION
      else if string_of_opt (get ''captureStatus'') \<notin> set (map capture_status_name all_capture_status)
      then throw INVALID_LOCATION
      else if \<not> satisfies is_string (get ''description'') \<or> \<not> satisfies is_string_array (get ''tags'') \<or>
              \<not> satisfies valid_dimensions (get ''dimensions'') \<or>
              \<not> satisfies valid_conditions (get ''conditions'') \<or>
              \<not> satisfies null_or_string (get ''archivedAt'') \<or>
              \<not> satisfies is_string (get ''createdAt'') \<or> \<not> satisfies is_string (get ''updatedAt'')
      then throw INVALID_LOCATION
      else if get ''parentId'' \<noteq> Some JNull \<and> \<not> satisfies nonblank_string (get ''parentId'')
      then throw INVALID_PARENT
      else if get ''parentId'' = get ''id'' then throw LOCATION_CYCLE
      else if set_at ignore \<and> set_at parent \<and>
              list_ex (\<lambda>c. Some (l_id c) = parent) (descendants_of (ws_locations s) (the ignore))
      then throw LOCATION_CYCLE
      else if location_code_in_use s ignore (code_key (get ''code'')) then throw CODE_IN_USE
      else if set_at parent
      then and_then (require_location s (the parent)) (\<lambda>p.
             if \<not> truthy (get ''archivedAt'') \<and> l_archived p then throw PARENT_ARCHIVED else Inr ())
      else Inr ())"

section \<open>Validating an item\<close>

definition validate_item :: "wstate \<Rightarrow> json \<Rightarrow> unit result" where
  "validate_item s itm =
     (let get = (\<lambda>k. jget k itm) in
      if \<not> is_record itm then throw INVALID_ITEM
      else if \<not> satisfies nonblank_string (get ''id'') then throw INVALID_ITEM
      else if \<not> satisfies nonblank_string (get ''locationId'') then throw INVALID_LOCATION
      else if \<not> satisfies nonblank_string (get ''name'') then throw NAME_REQUIRED
      else if \<not> satisfies num_positive (get ''quantity'') then throw INVALID_QUANTITY
      else if \<not> satisfies nonblank_string (get ''unit'') then throw UNIT_REQUIRED
      else if \<not> satisfies num_finite (get ''order'') then throw INVALID_ORDER
      else if \<not> satisfies is_string (get ''category'') \<or> \<not> satisfies is_string (get ''description'') \<or>
              \<not> satisfies is_string_array (get ''tags'') \<or>
              string_of_opt (get ''frequency'') \<notin> set (map frequency_name all_frequency) \<or>
              \<not> satisfies valid_dimensions (get ''dimensions'') \<or>
              \<not> satisfies valid_constraints (get ''constraints'') \<or>
              \<not> satisfies num_safe_integer (get ''version'') \<or>
              \<not> satisfies (\<lambda>j. case j of JNum n \<Rightarrow> \<not> js_less n (Fin 1) | _ \<Rightarrow> False) (get ''version'') \<or>
              \<not> satisfies null_or_string (get ''archivedAt'') \<or>
              \<not> satisfies is_string (get ''createdAt'') \<or> \<not> satisfies is_string (get ''updatedAt'')
      then throw INVALID_ITEM
      else if \<not> truthy (get ''archivedAt'')
      then and_then (require_active_location s (the (string_or_none (get ''locationId'')))) (\<lambda>_. Inr ())
      else Inr ())"

section \<open>What the lookups and checks establish\<close>

lemma find_locationD: "find_location s i = Some l \<Longrightarrow> l \<in> set (ws_locations s) \<and> l_id l = i"
  unfolding find_location_def by (rule find_SomeD)

lemma find_itemD: "find_item s i = Some x \<Longrightarrow> x \<in> set (ws_items s) \<and> i_id x = i"
  unfolding find_item_def by (rule find_SomeD)

lemma find_planD: "find_plan s i = Some p \<Longrightarrow> p \<in> set (ws_plans s) \<and> p_id p = i"
  unfolding find_plan_def by (rule find_SomeD)

lemma require_location_iff [simp]: "require_location s i = Inr l \<longleftrightarrow> find_location s i = Some l"
  by (simp add: require_location_def split: option.split)

lemma require_active_location_iff [simp]:
  "require_active_location s i = Inr l \<longleftrightarrow> find_location s i = Some l \<and> \<not> l_archived l"
  by (auto simp: require_active_location_def and_then_eq_Inr)

lemma require_item_iff [simp]: "require_item s i = Inr x \<longleftrightarrow> find_item s i = Some x"
  by (simp add: require_item_def split: option.split)

lemma require_active_item_iff [simp]:
  "require_active_item s i = Inr x \<longleftrightarrow> find_item s i = Some x \<and> \<not> i_archived x"
  by (auto simp: require_active_item_def and_then_eq_Inr)

lemma require_plan_iff [simp]: "require_plan s i = Inr p \<longleftrightarrow> find_plan s i = Some p"
  by (simp add: require_plan_def split: option.split)

text \<open>A version that can be incremented stays a positive safe integer.\<close>

lemma next_item_version_safe:
  assumes "next_item_version x = Inr v" and "\<not> js_less (i_version x) (Fin 1)"
  shows "is_safe_integer v \<and> \<not> js_less v (Fin 1) \<and> num_val v = num_val (i_version x) + 1"
proof -
  from assms(1) have safe: "is_safe_integer (i_version x)"
    and le: "\<not> js_le (JsInt max_safe) (i_version x)"
    and v: "v = js_add (i_version x) (Fin 1)"
    by (auto simp: next_item_version_def split: if_splits)
  have fin: "is_finite (i_version x)" using safe_integer_Fin [OF safe] by blast
  then have "js_less (i_version x) (JsInt max_safe)"
    using le by (simp add: js_le_finite js_less_finite)
  with safe obtain n where n: "num_val (i_version x) = of_int n" "v = JsInt (n + 1)" "is_safe_integer v"
    unfolding v by (rule js_succ_safe)
  have "\<not> num_val (i_version x) < 1" using assms(2) fin by (simp add: js_less_finite)
  then show ?thesis using n by simp
qed

lemma contents_editable_iff:
  "assert_contents_editable s checked cs = Inr () \<longleftrightarrow>
     (\<forall>i. Some i \<in> set cs \<and> i \<noteq> [] \<and> i \<notin> set checked \<longrightarrow>
        (\<exists>l. find_location s i = Some l \<and> (l_archived l \<or> \<not> capture_complete (l_captureStatus l))))"
proof (induction cs arbitrary: checked)
  case (Cons c cs)
  show ?case
  proof (cases c)
    case None
    then show ?thesis using Cons by simp
  next
    case (Some i)
    show ?thesis
    proof (cases "i = [] \<or> i \<in> set checked")
      case True
      then show ?thesis using Cons Some by auto
    next
      case False
      have "assert_contents_editable s checked (c # cs) = Inr () \<longleftrightarrow>
        (\<exists>l. find_location s i = Some l \<and> (l_archived l \<or> \<not> capture_complete (l_captureStatus l))) \<and>
        assert_contents_editable s (i # checked) cs = Inr ()"
        using False by (auto simp: Some and_then_eq_Inr)
      then show ?thesis using False Cons.IH [of "i # checked"] by (auto simp: Some)
    qed
  qed
qed simp

text \<open>Accepted dimensions, conditions and constraints are of the declared shape.\<close>

lemma find_refused:
  assumes "[] \<notin> set allowed"
  shows "(case List.find (refused_key allowed) ks of None \<Rightarrow> True | Some k \<Rightarrow> k = []) \<longleftrightarrow>
    list_all (\<lambda>k. \<not> refused_key allowed k) (takeWhile (\<lambda>k. k \<noteq> []) ks)"
  using assms by (induction ks) (auto simp: refused_key_def)

text \<open>Accepted is exactly what has nothing refused before the first empty name.\<close>

lemma allowed_changes_exact:
  assumes "[] \<notin> set allowed"
  shows "allowed_changes allowed (Some (JObj m)) =
    (if list_all (\<lambda>k. \<not> refused_key allowed k) (takeWhile (\<lambda>k. k \<noteq> []) (map fst m))
     then Inr m else throw INVALID_CHANGES)"
  using find_refused [OF assms, of "map fst m"] by (auto split: option.splits)

lemma allowed_changes_JObj: "allowed_changes allowed j = Inr m \<Longrightarrow> j = Some (JObj m)"
  by (cases "(allowed, j)" rule: allowed_changes.cases) (auto split: option.splits if_splits)

lemma allowed_changes_keys:
  assumes "allowed_changes allowed j = Inr m" and "[] \<notin> set (map fst m)"
  shows "set (map fst m) \<subseteq> set allowed"
proof -
  have j: "j = Some (JObj m)" using assms(1) by (rule allowed_changes_JObj)
  have "List.find (refused_key allowed) (map fst m) = None"
  proof (rule ccontr)
    assume "\<not> ?thesis"
    then obtain k where k: "List.find (refused_key allowed) (map fst m) = Some k" by auto
    with assms(1) j have "k = []" by (simp split: if_splits)
    with k assms(2) show False by (auto dest: find_SomeD)
  qed
  then show ?thesis by (auto simp: find_None_set refused_key_def)
qed

text \<open>The bypass: behind an empty key every other key is accepted.\<close>

lemma allowed_changes_empty_key:
  "[] \<notin> set allowed \<Longrightarrow> allowed_changes allowed (Some (JObj (([], v) # m))) = Inr (([], v) # m)"
  by (simp add: refused_key_def)

text \<open>What \<open>validate_location\<close> guarantees of the decoded location.\<close>

lemma nonblank_string_iff: "satisfies nonblank_string v \<longleftrightarrow> (\<exists>t. v = Some (JStr t) \<and> \<not> blank t)"
  by (cases v; cases "the v") auto

lemma num_finite_iff: "satisfies num_finite v \<longleftrightarrow> (\<exists>n. v = Some (JNum n) \<and> is_finite n)"
  by (cases v; cases "the v") auto

lemma num_positive_iff:
  "satisfies num_positive v \<longleftrightarrow> (\<exists>n. v = Some (JNum n) \<and> is_finite n \<and> js_less (Fin 0) n)"
  by (cases v; cases "the v") auto

end
