(* ===== verification/Captures.thy ===== *)
theory Captures
  imports Validation
begin

text \<open>
  Patches that commands emit beside their own (\<open>src/domain/commands.ts\<close>): the capture status
  of the spaces whose contents change, and the active plans a change makes stale.
\<close>

section \<open>Capture progress\<close>

definition in_progress_patches :: "location \<Rightarrow> string \<Rightarrow> field_patch list" where
  "in_progress_patches l timestamp =
     [location_patch (l_id l) ''captureStatus'' (JStr (capture_status_name (l_captureStatus l)))
        (JStr ''in_progress''),
      location_patch (l_id l) ''updatedAt'' (JStr (l_updatedAt l)) (JStr timestamp)]"

definition capture_progress_patches :: "wstate \<Rightarrow> string \<Rightarrow> string \<Rightarrow> field_patch list result" where
  "capture_progress_patches s i timestamp =
     and_then (require_active_location s i) (\<lambda>l.
       Inr (if l_captureStatus l \<noteq> Uncounted \<and> l_captureStatus l \<noteq> Known_empty then []
            else in_progress_patches l timestamp))"

text \<open>The spaces that moves leave and enter: counted ones reopen, an uncounted destination starts.\<close>

fun some_ids :: "string option list \<Rightarrow> string list" where
  "some_ids [] = []"
| "some_ids (None # xs) = some_ids xs"
| "some_ids (Some i # xs) = i # some_ids xs"

definition bulk_move_progress_patches ::
  "wstate \<Rightarrow> string option list \<Rightarrow> string option \<Rightarrow> string \<Rightarrow> field_patch list result" where
  "bulk_move_progress_patches s sources destination timestamp =
     and_then
       (map_result (\<lambda>i. and_then (require_active_location s i) (\<lambda>l.
          Inr (if capture_complete (l_captureStatus l) \<or>
                  (Some i = destination \<and> l_captureStatus l = Uncounted)
               then in_progress_patches l timestamp else [])))
        (uniq (some_ids (sources @ [destination]))))
       (\<lambda>pss. Inr (concat pss))"

definition move_progress_patches ::
  "wstate \<Rightarrow> string option \<Rightarrow> string option \<Rightarrow> string \<Rightarrow> field_patch list result" where
  "move_progress_patches s source destination timestamp =
     bulk_move_progress_patches s [source] destination timestamp"

definition bulk_create_progress_patches ::
  "wstate \<Rightarrow> string list \<Rightarrow> string \<Rightarrow> bool \<Rightarrow> field_patch list result" where
  "bulk_create_progress_patches s destinations timestamp reopen =
     and_then
       (map_result (\<lambda>i. and_then (require_active_location s i) (\<lambda>l.
          Inr (if l_captureStatus l = Uncounted \<or> (reopen \<and> capture_complete (l_captureStatus l))
               then in_progress_patches l timestamp else [])))
        (uniq destinations))
       (\<lambda>pss. Inr (concat pss))"

section \<open>Plans a change invalidates\<close>

text \<open>
  An active plan is discarded when its selection or an unfinished step mentions an affected
  item, or an affected location or one of its ancestors.
\<close>

definition affected_locations :: "wstate \<Rightarrow> string list \<Rightarrow> string list" where
  "affected_locations s ids = concat (map (ancestors_of (ws_locations s)) ids)"

definition step_affected :: "string list \<Rightarrow> string list \<Rightarrow> plan_step \<Rightarrow> bool" where
  "step_affected items locs step \<longleftrightarrow>
     \<not> set_at (s_completedAt step) \<and>
     (set_at (s_itemId step) \<and> the (s_itemId step) \<in> set items \<or>
      set_at (s_locationId step) \<and> the (s_locationId step) \<in> set locs \<or>
      s_sourceId step \<in> set locs \<or> s_destinationId step \<in> set locs)"

definition selection_affected ::
  "wstate \<Rightarrow> string list \<Rightarrow> string list \<Rightarrow> string list \<Rightarrow> plan_selection \<Rightarrow> bool" where
  "selection_affected s items locs location_ids sel \<longleftrightarrow>
     list_ex (\<lambda>i. i \<in> set items) (sel_pinnedItemIds sel) \<or>
     list_ex (\<lambda>i. i \<in> set locs)
       ((case sel_locationIds sel of None \<Rightarrow> [] | Some ids \<Rightarrow> ids) @ sel_pinnedLocationIds sel) \<or>
     list_ex (\<lambda>i. i \<in> r_fixedLocationIds (resolve_plan_selection s (Some sel))) location_ids"

definition plan_affected :: "wstate \<Rightarrow> string list \<Rightarrow> string list \<Rightarrow> move_plan \<Rightarrow> bool" where
  "plan_affected s items location_ids p \<longleftrightarrow>
     (let locs = affected_locations s location_ids in
      p_status p = Active \<and>
      ((case p_selection p of None \<Rightarrow> False | Some sel \<Rightarrow> selection_affected s items locs location_ids sel) \<or>
       list_ex (step_affected items locs) (p_steps p)))"

definition discard_patch :: "move_plan \<Rightarrow> field_patch" where
  "discard_patch p =
     plan_patch (p_id p) ''status'' (JStr (plan_status_name (p_status p))) (JStr ''discarded'')"

definition plan_invalidation_patches :: "wstate \<Rightarrow> string list \<Rightarrow> string list \<Rightarrow> field_patch list" where
  "plan_invalidation_patches s items location_ids =
     map discard_patch (filter (plan_affected s items location_ids) (ws_plans s))"

section \<open>Properties\<close>

lemma set_some_ids [simp]: "i \<in> set (some_ids xs) \<longleftrightarrow> Some i \<in> set xs"
  by (induction xs rule: some_ids.induct) auto

lemma some_ids_map_Some [simp]: "some_ids (map Some xs) = xs"
  by (induction xs) auto

lemma map_result_concat_set:
  assumes "map_result f xs = Inr yss" and "p \<in> set (concat yss)"
  obtains x ys where "x \<in> set xs" and "f x = Inr ys" and "p \<in> set ys"
  using assms unfolding map_result_Inr
  by (force simp: list_all2_conv_all_nth in_set_conv_nth)

text \<open>Every progress patch sets the status of a live location to in progress, or its timestamp.\<close>

definition progress_patch :: "wstate \<Rightarrow> field_patch \<Rightarrow> bool" where
  "progress_patch s p \<longleftrightarrow>
     (\<exists>l ts. find_location s (l_id l) = Some l \<and> \<not> l_archived l \<and> p \<in> set (in_progress_patches l ts))"

lemma capture_progress_patch:
  "capture_progress_patches s i ts = Inr ps \<Longrightarrow> p \<in> set ps \<Longrightarrow> progress_patch s p"
  unfolding capture_progress_patches_def progress_patch_def
  by (auto simp: and_then_eq_Inr split: if_splits dest: find_locationD)

lemma bulk_move_progress_patch:
  assumes "bulk_move_progress_patches s sources d ts = Inr ps" and "p \<in> set ps"
  shows "progress_patch s p"
proof -
  from assms obtain pss where "ps = concat pss" "map_result (\<lambda>i. and_then (require_active_location s i) (\<lambda>l.
          Inr (if capture_complete (l_captureStatus l) \<or> (Some i = d \<and> l_captureStatus l = Uncounted)
               then in_progress_patches l ts else []))) (uniq (some_ids (sources @ [d]))) = Inr pss"
    by (auto simp: bulk_move_progress_patches_def and_then_eq_Inr)
  with assms(2) show ?thesis unfolding progress_patch_def
    by (elim map_result_concat_set) (auto simp: and_then_eq_Inr split: if_splits dest: find_locationD)
qed

lemma bulk_create_progress_patch:
  assumes "bulk_create_progress_patches s ds ts reopen = Inr ps" and "p \<in> set ps"
  shows "progress_patch s p"
proof -
  from assms obtain pss where "ps = concat pss" "map_result (\<lambda>i. and_then (require_active_location s i) (\<lambda>l.
          Inr (if l_captureStatus l = Uncounted \<or> (reopen \<and> capture_complete (l_captureStatus l))
               then in_progress_patches l ts else []))) (uniq ds) = Inr pss"
    by (auto simp: bulk_create_progress_patches_def and_then_eq_Inr)
  with assms(2) show ?thesis unfolding progress_patch_def
    by (elim map_result_concat_set) (auto simp: and_then_eq_Inr split: if_splits dest: find_locationD)
qed

text \<open>A plan is invalidated only if it is active, and then by the change of its status.\<close>

lemma plan_invalidation_patch:
  "p \<in> set (plan_invalidation_patches s items locs) \<Longrightarrow>
   \<exists>q\<in>set (ws_plans s). p_status q = Active \<and> p = discard_patch q"
  by (auto simp: plan_invalidation_patches_def plan_affected_def Let_def)

text \<open>
  An affected location is affected itself, however deep it lies: an unfinished step that
  touches it makes its plan stale.
\<close>

lemma ancestors_of_self:
  "find_location s i = Some l \<Longrightarrow> i \<in> set (ancestors_of (ws_locations s) i)"
  by (subst ancestors_of_def, subst ancestor_walk.simps) (simp add: find_location_def)

lemma plan_invalidated_if_step_touches:
  assumes "p \<in> set (ws_plans s)" and "p_status p = Active" and "step \<in> set (p_steps p)"
    and "\<not> set_at (s_completedAt step)" and "find_location s i = Some l" and "i \<in> set location_ids"
    and "s_sourceId step = i \<or> s_destinationId step = i"
  shows "discard_patch p \<in> set (plan_invalidation_patches s items location_ids)"
proof -
  have "i \<in> set (affected_locations s location_ids)"
    using ancestors_of_self [OF assms(5)] assms(6) by (auto simp: affected_locations_def)
  then have "step_affected items (affected_locations s location_ids) step"
    using assms(4,7) by (auto simp: step_affected_def)
  then have "plan_affected s items location_ids p"
    using assms(2,3) by (auto simp: plan_affected_def Let_def list_ex_iff)
  then show ?thesis using assms(1) by (simp add: plan_invalidation_patches_def)
qed

end
