(* ===== verification/Item_Moves.thy ===== *)
theory Item_Moves
  imports Captures
begin

text \<open>
  Moving a quantity of an item (\<open>equivalent\<close>, \<open>moveItemPatches\<close> of \<open>src/domain/commands.ts\<close>):
  the quantity merges into an equivalent record at the destination, moves the whole record,
  or splits a new record off.
\<close>

definition normal_text :: "string \<Rightarrow> string" where
  "normal_text s = js_lower (js_trim s)"

text \<open>
  Two records are interchangeable.  On decoded records the deep comparison of constraints
  and dimensions is equality.
\<close>

definition equivalent :: "item \<Rightarrow> item \<Rightarrow> bool" where
  "equivalent l r \<longleftrightarrow>
     normal_text (i_name l) = normal_text (i_name r) \<and>
     normal_text (i_category l) = normal_text (i_category r) \<and>
     normal_text (i_unit l) = normal_text (i_unit r) \<and>
     sort (i_tags l) = sort (i_tags r) \<and>
     i_constraints l = i_constraints r \<and> i_dimensions l = i_dimensions r \<and>
     i_frequency l = i_frequency r \<and> i_description l = i_description r"

definition item_quantity_patches :: "item \<Rightarrow> jsnum \<Rightarrow> string \<Rightarrow> field_patch list result" where
  "item_quantity_patches x q timestamp =
     and_then (next_item_version x) (\<lambda>v. Inr
       [item_patch (i_id x) ''quantity'' (JNum (i_quantity x)) (JNum q),
        item_patch (i_id x) ''updatedAt'' (JStr (i_updatedAt x)) (JStr timestamp),
        item_patch (i_id x) ''version'' (JNum (i_version x)) (JNum v)])"

definition delete_item_patch :: "item \<Rightarrow> field_patch" where
  "delete_item_patch x = mk_patch Target_item (i_id x) [] (Some (json_of_item x)) None"

definition create_item_patch :: "item \<Rightarrow> field_patch" where
  "create_item_patch x = mk_patch Target_item (i_id x) [] None (Some (json_of_item x))"

definition destination_order :: "wstate \<Rightarrow> string \<Rightarrow> jsnum" where
  "destination_order s d =
     js_add (fold (\<lambda>c m. js_max m (i_order c))
               (filter (\<lambda>c. i_locationId c = d \<and> \<not> i_archived c) (ws_items s)) (Fin (-1)))
            (Fin 1)"

definition split_item :: "item \<Rightarrow> string \<Rightarrow> string \<Rightarrow> jsnum \<Rightarrow> jsnum \<Rightarrow> string \<Rightarrow> item" where
  "split_item x i d order q timestamp =
     x\<lparr>i_createdAt := timestamp, i_id := i, i_locationId := d, i_order := order,
       i_quantity := q, i_updatedAt := timestamp, i_version := Fin 1\<rparr>"

definition move_item_patches ::
  "wstate \<Rightarrow> item \<Rightarrow> string \<Rightarrow> jsnum \<Rightarrow> string \<Rightarrow> string \<Rightarrow> field_patch list result" where
  "move_item_patches s x d q envelope_id timestamp =
     and_then (require_active_location s d) (\<lambda>_.
       if i_locationId x = d then throw ALREADY_THERE
       else if \<not> is_finite q \<or> js_le q (Fin 0) \<or> js_less (i_quantity x) q then throw INVALID_QUANTITY
       else
         let matching = List.find (\<lambda>c. i_id c \<noteq> i_id x \<and> \<not> i_archived c \<and>
                                       i_locationId c = d \<and> equivalent c x) (ws_items s);
             remaining = js_sub (i_quantity x) q;
             order = destination_order s d
         in case matching of
              Some m \<Rightarrow>
                (let merged = js_add (i_quantity m) q in
                 if \<not> is_finite merged then throw QUANTITY_OVERFLOW
                 else and_then (item_quantity_patches m merged timestamp) (\<lambda>ps.
                   if js_eq remaining (Fin 0) then Inr (ps @ [delete_item_patch x])
                   else and_then (item_quantity_patches x remaining timestamp) (\<lambda>qs. Inr (ps @ qs))))
            | None \<Rightarrow>
                if js_eq remaining (Fin 0)
                then and_then (next_item_version x) (\<lambda>v. Inr
                  [item_patch (i_id x) ''locationId'' (JStr (i_locationId x)) (JStr d),
                   item_patch (i_id x) ''order'' (JNum (i_order x)) (JNum order),
                   item_patch (i_id x) ''updatedAt'' (JStr (i_updatedAt x)) (JStr timestamp),
                   item_patch (i_id x) ''version'' (JNum (i_version x)) (JNum v)])
                else
                  let split_id = ''item_split_'' @ envelope_id in
                  if list_ex (\<lambda>c. i_id c = split_id) (ws_items s) then throw ITEM_EXISTS
                  else and_then (item_quantity_patches x remaining timestamp) (\<lambda>ps.
                    Inr (ps @ [create_item_patch (split_item x split_id d order q timestamp)])))"

section \<open>The comparison of records\<close>

lemma equivalent_refl [simp]: "equivalent x x"
  by (simp add: equivalent_def)

lemma equivalent_sym: "equivalent x y \<Longrightarrow> equivalent y x"
  by (simp add: equivalent_def)

lemma equivalent_trans: "equivalent x y \<Longrightarrow> equivalent y z \<Longrightarrow> equivalent x z"
  by (simp add: equivalent_def)

text \<open>The comparison of encoded constraints that the code makes is equality of the records.\<close>

lemma equal_string_lists: "equal (json_of_list JStr xs) (json_of_list JStr ys) \<longleftrightarrow> xs = ys"
proof -
  have "(\<forall>(x, y)\<in>set (zip (map JStr xs) (map JStr ys)). equal x y) \<longleftrightarrow> xs = ys"
    if "length xs = length ys"
    using that by (induction xs ys rule: list_induct2) simp_all
  then show ?thesis by (auto simp: json_of_list_def)
qed

lemma equal_nullable_string:
  "equal (json_of_nullable JStr x) (json_of_nullable JStr y) \<longleftrightarrow> x = y"
  by (cases x; cases y) (auto simp: json_of_nullable_def)

lemma equal_constraints:
  "equal (JObj (constraints_obj a)) (JObj (constraints_obj b)) \<longleftrightarrow> a = b"
proof
  assume "equal (JObj (constraints_obj a)) (JObj (constraints_obj b))"
  then have "\<forall>k. equal_opt (map_of (constraints_obj a) k) (map_of (constraints_obj b) k)"
    by (subst (asm) equal_JObj_iff) (simp_all add: constraints_obj_def)
  from this [rule_format, of "''avoidHumidity''"] this [rule_format, of "''avoidWarmth''"]
    this [rule_format, of "''foodOnly''"] this [rule_format, of "''keepTogether''"]
    this [rule_format, of "''requiredTags''"]
  show "a = b"
    by (simp add: constraints_obj_def equal_opt_def equal_string_lists equal_nullable_string
        del: equal.simps)
next
  assume "a = b"
  then show "equal (JObj (constraints_obj a)) (JObj (constraints_obj b))"
    using equal_refl [OF constraints_codec.proper_enc] by (simp del: equal.simps)
qed

end
