(* ===== verification/Commands_Location.thy ===== *)
theory Commands_Location
  imports Item_Moves
begin

text \<open>
  The handlers of \<open>normalPatches\<close> (\<open>src/domain/commands.ts\<close>) for the workspace, its locations
  and their capture status.  A handler checks the command against the state and returns the
  label, the field patches and the subject identifiers of the change; it changes nothing.
  Checks, patches and the evaluation of throwing expressions stand in the code's order.
\<close>

record change =
  ch_label :: string
  ch_patches :: "field_patch list"
  ch_subjectIds :: "string list"

definition mk_change :: "string \<Rightarrow> field_patch list \<Rightarrow> string list \<Rightarrow> change result" where
  "mk_change label ps ids = Inr \<lparr>ch_label = label, ch_patches = ps, ch_subjectIds = ids\<rparr>"

abbreviation reopens :: "json option \<Rightarrow> bool" where
  "reopens r \<equiv> truthy r"

text \<open>A confirmation is absent or a boolean.\<close>

definition confirmation :: "json option \<Rightarrow> unit result" where
  "confirmation r =
     (case r of None \<Rightarrow> Inr () | Some (JBool b) \<Rightarrow> Inr () | _ \<Rightarrow> throw INVALID_REOPEN_CONFIRMATION)"

lemma confirmation_simps [simp]:
  "confirmation None = Inr ()" "confirmation (Some (JBool b)) = Inr ()"
  by (simp_all add: confirmation_def)

text \<open>A property that a validated payload holds as a string.\<close>

definition text_of :: "json option \<Rightarrow> string" where
  "text_of v = (case string_or_none v of None \<Rightarrow> [] | Some t \<Rightarrow> t)"

section \<open>The workspace\<close>

definition workspace_rename :: "wstate \<Rightarrow> string \<Rightarrow> change result" where
  "workspace_rename s given =
     (let nm = js_trim given; w = ws_workspace s in
      if nm = [] then throw NAME_REQUIRED
      else if nm = w_name w then throw NO_CHANGES
      else mk_change (''Renamed workspace to '' @ nm)
             [mk_patch Target_workspace (w_id w) ''name'' (Some (JStr (w_name w))) (Some (JStr nm))]
             [w_id w])"

section \<open>Creating and updating a location\<close>

definition location_create :: "wstate \<Rightarrow> string \<Rightarrow> json \<Rightarrow> change result" where
  "location_create s ts loc =
     (let get = (\<lambda>k. jget k loc); i = text_of (get ''id''); parent = string_or_none (get ''parentId'') in
      and_then (validate_location s loc None) (\<lambda>_.
      and_then (if \<not> truthy (get ''archivedAt'') \<and> set_at parent then contents_editable s [parent]
                else Inr ()) (\<lambda>_.
      and_then (if set_at parent then capture_progress_patches s (the parent) ts else Inr []) (\<lambda>progress.
        mk_change (''Created '' @ text_of (get ''name''))
          ((if set_at parent then plan_invalidation_patches s [] [the parent] else []) @
           mk_patch Target_location i [] None (Some loc) # progress)
          [i]))))"

text \<open>The entries of a partial change that differ from the record, with their old values.\<close>

definition changed_entries :: "jsobj \<Rightarrow> (string \<times> json) list \<Rightarrow> (string \<times> json option \<times> json) list result" where
  "changed_entries record entries =
     and_then (map_result (\<lambda>(k, v). and_then (read_path k (Some (JObj record))) (\<lambda>b. Inr (k, b, v))) entries)
       (\<lambda>es. Inr (filter (\<lambda>(k, b, v). \<not> equal_opt b (Some v)) es))"

definition entry_patches :: "patch_target \<Rightarrow> string \<Rightarrow> (string \<times> json option \<times> json) list \<Rightarrow> field_patch list" where
  "entry_patches t i es = map (\<lambda>(k, b, v). mk_patch t i k b (Some v)) es"

definition changes_any :: "string list \<Rightarrow> (string \<times> json option \<times> json) list \<Rightarrow> bool" where
  "changes_any ks es \<longleftrightarrow> list_ex (\<lambda>(k, b, v). k \<in> set ks) es"

text \<open>\<open>{ ...changes, ...("k" in changes ? { k: v } : {}) }\<close>.\<close>

definition normalize_change :: "string \<Rightarrow> json \<Rightarrow> jsobj \<Rightarrow> jsobj" where
  "normalize_change k v m = (if map_of m k = None then m else AList.update k v m)"

text \<open>The progress patches of a change of parent, with or without reopening counted parents.\<close>

definition parent_progress ::
  "wstate \<Rightarrow> string option \<Rightarrow> string option \<Rightarrow> json option \<Rightarrow> string \<Rightarrow> field_patch list result" where
  "parent_progress s old new reopen ts =
     (if old = new then Inr []
      else if reopens reopen then move_progress_patches s old new ts
      else if set_at new then capture_progress_patches s (the new) ts
      else Inr [])"

definition location_update :: "wstate \<Rightarrow> string \<Rightarrow> string \<Rightarrow> json \<Rightarrow> json option \<Rightarrow> change result" where
  "location_update s ts i changes reopen =
     and_then (require_active_location s i) (\<lambda>l.
     and_then (allowed_changes location_change_keys (Some changes)) (\<lambda>m.
     and_then (confirmation reopen) (\<lambda>_.
       let changes_parent = map_of m ''parentId'' \<noteq> None \<and>
             map_of m ''parentId'' \<noteq> Some (json_of_nullable JStr (l_parentId l));
           merged = AList.update ''updatedAt'' (JStr ts) (obj_merge (location_obj l) m)
       in
       if map_of m ''archivedAt'' \<noteq> None \<or> map_of m ''captureStatus'' \<noteq> None \<or>
          (map_of m ''order'' \<noteq> None \<and> \<not> changes_parent) \<or> map_of m ''updatedAt'' \<noteq> None
       then throw STRUCTURAL_LOCATION_UPDATE
       else if \<not> satisfies is_string (map_of merged ''code'') \<or> \<not> satisfies is_string (map_of merged ''name'')
       then throw INVALID_LOCATION
       else
         let code = js_upper (js_trim (text_of (map_of merged ''code'')));
             nm = js_trim (text_of (map_of merged ''name''));
             nxt = AList.update ''name'' (JStr nm) (AList.update ''code'' (JStr code) merged);
             parent = string_or_none (map_of nxt ''parentId'')
         in
         and_then (validate_location s (JObj nxt) (Some (l_id l))) (\<lambda>_.
         and_then (changed_entries (location_obj l)
             (normalize_change ''name'' (JStr nm) (normalize_change ''code'' (JStr code) m))) (\<lambda>entries.
         if entries = [] then throw NO_CHANGES
         else
         and_then (parent_progress s (l_parentId l) parent reopen ts) (\<lambda>progress.
         and_then (if parent \<noteq> l_parentId l \<and> \<not> reopens reopen
                   then contents_editable s [l_parentId l, parent] else Inr ()) (\<lambda>_.
           mk_change
             (if reopens reopen \<and> progress \<noteq> []
              then ''Updated '' @ l_name l @ '' and reopened affected spaces''
              else ''Updated '' @ l_name l)
             (entry_patches Target_location (l_id l) entries @
              [location_patch (l_id l) ''updatedAt'' (JStr (l_updatedAt l)) (JStr ts)] @
              (if changes_any [''conditions'', ''dimensions'', ''kind'', ''parentId'', ''tags''] entries
               then plan_invalidation_patches s [] (some_ids [Some (l_id l), parent]) else []) @
              (if parent \<noteq> l_parentId l then progress else []))
             (l_id l # uniq (map fp_id progress)))))))))"

section \<open>Moving and reordering a location\<close>

definition location_move ::
  "wstate \<Rightarrow> string \<Rightarrow> string \<Rightarrow> string option \<Rightarrow> jsnum option \<Rightarrow> json option \<Rightarrow> change result" where
  "location_move s ts i parent order reopen =
     and_then (require_active_location s i) (\<lambda>l.
     and_then (confirmation reopen) (\<lambda>_.
       if parent \<noteq> None \<and> blank (the parent) then throw INVALID_PARENT
       else if order \<noteq> None \<and> \<not> is_finite (the order) then throw INVALID_ORDER
       else if parent = Some (l_id l) then throw LOCATION_CYCLE
       else
       and_then (if set_at parent
                 then and_then (require_active_location s (the parent)) (\<lambda>_.
                        if list_ex (\<lambda>c. Some (l_id c) = parent) (descendants_of (ws_locations s) (l_id l))
                        then throw LOCATION_CYCLE else Inr ())
                 else Inr ()) (\<lambda>_.
       let next_order = (case order of None \<Rightarrow> l_order l | Some r \<Rightarrow> r);
           changes_parent = parent \<noteq> l_parentId l
       in
       if \<not> changes_parent \<and> js_eq next_order (l_order l) then throw NO_CHANGES
       else
       and_then (if changes_parent \<and> \<not> reopens reopen
                 then contents_editable s [l_parentId l, parent] else Inr ()) (\<lambda>_.
       and_then (parent_progress s (l_parentId l) parent reopen ts) (\<lambda>progress.
         mk_change
           (if changes_parent
            then if reopens reopen \<and> progress \<noteq> []
                 then ''Moved '' @ l_name l @ '' and reopened affected spaces''
                 else ''Moved '' @ l_name l
            else ''Reordered '' @ l_name l)
           ((if changes_parent
             then location_patch (l_id l) ''parentId'' (json_of_nullable JStr (l_parentId l))
                    (json_of_nullable JStr parent) #
                  plan_invalidation_patches s [] (some_ids [Some (l_id l), parent])
             else []) @
            [location_patch (l_id l) ''updatedAt'' (JStr (l_updatedAt l)) (JStr ts)] @
            (case order of None \<Rightarrow> [] | Some r \<Rightarrow>
               [location_patch (l_id l) ''order'' (JNum (l_order l)) (JNum r)]) @
            progress)
           (l_id l # uniq (map fp_id progress)))))))"

definition location_reorder :: "wstate \<Rightarrow> string \<Rightarrow> string \<Rightarrow> jsnum \<Rightarrow> change result" where
  "location_reorder s ts i order =
     and_then (require_active_location s i) (\<lambda>l.
       if \<not> is_finite order then throw INVALID_ORDER
       else if js_eq order (l_order l) then throw NO_CHANGES
       else mk_change (''Reordered '' @ l_name l)
              [location_patch (l_id l) ''order'' (JNum (l_order l)) (JNum order),
               location_patch (l_id l) ''updatedAt'' (JStr (l_updatedAt l)) (JStr ts)]
              [l_id l])"

section \<open>Archiving and deleting a location\<close>

definition archive_location :: "wstate \<Rightarrow> string \<Rightarrow> location \<Rightarrow> bool \<Rightarrow> change result" where
  "archive_location s ts l arch =
      (if l_archived l = arch then throw NO_CHANGES
       else
       and_then
         (if arch
          then if filter (\<lambda>c. \<not> l_archived c) (descendants_of (ws_locations s) (l_id l)) \<noteq> []
               then throw ARCHIVE_HAS_DESCENDANTS
               else if list_ex (\<lambda>x. i_locationId x = l_id l \<and> \<not> i_archived x) (ws_items s)
               then throw ARCHIVE_HAS_CONTENTS
               else Inr ()
          else validate_location s (json_of_location (l\<lparr>l_archivedAt := None\<rparr>)) (Some (l_id l))) (\<lambda>_.
       and_then (if set_at (l_parentId l) \<and> l_archived l \<noteq> arch
                 then contents_editable s [l_parentId l] else Inr ()) (\<lambda>_.
       and_then (if \<not> arch \<and> set_at (l_parentId l)
                 then capture_progress_patches s (the (l_parentId l)) ts else Inr []) (\<lambda>progress.
         mk_change ((if arch then ''Archived '' else ''Restored '') @ l_name l)
           ([location_patch (l_id l) ''archivedAt'' (json_of_nullable JStr (l_archivedAt l))
               (if arch then JStr ts else JNull),
             location_patch (l_id l) ''updatedAt'' (JStr (l_updatedAt l)) (JStr ts)] @
            plan_invalidation_patches s [] (some_ids [Some (l_id l), l_parentId l]) @ progress)
           [l_id l]))))"

definition location_archive :: "wstate \<Rightarrow> string \<Rightarrow> string \<Rightarrow> json option \<Rightarrow> change result" where
  "location_archive s ts i arch =
     and_then (require_location s i) (\<lambda>l.
       case arch of Some (JBool b) \<Rightarrow> archive_location s ts l b | _ \<Rightarrow> throw INVALID_ARCHIVE)"

definition delete_location_patch :: "location \<Rightarrow> field_patch" where
  "delete_location_patch l = mk_patch Target_location (l_id l) [] (Some (json_of_location l)) None"

definition location_delete ::
  "wstate \<Rightarrow> string \<Rightarrow> string list \<Rightarrow> string list \<Rightarrow> change result" where
  "location_delete s i reviewed_locations reviewed_items =
     and_then (require_location s i) (\<lambda>l.
       let descendants = descendants_of (ws_locations s) (l_id l);
           location_ids = l_id l # map l_id descendants;
           item_ids = sort (map i_id (filter (\<lambda>x. i_locationId x \<in> set location_ids) (ws_items s)))
       in
       if sort reviewed_locations \<noteq> sort (map l_id descendants) \<or> sort reviewed_items \<noteq> item_ids
       then throw DELETE_REVIEW_STALE
       else
       and_then (map_result (require_item s) item_ids) (\<lambda>xs.
       and_then (contents_editable s
           (map l_parentId (filter (\<lambda>c. \<not> l_archived c \<and> set_at (l_parentId c)) (l # descendants)) @
            map (\<lambda>x. Some (i_locationId x)) (filter (\<lambda>x. \<not> i_archived x) xs))) (\<lambda>_.
         mk_change (''Deleted '' @ l_name l @ '' and its reviewed contents'')
           (plan_invalidation_patches s item_ids location_ids @
            map delete_item_patch xs @
            map delete_location_patch (rev descendants) @ [delete_location_patch l])
           (location_ids @ item_ids))))"

section \<open>The capture status\<close>

definition capture_empty :: "wstate \<Rightarrow> string \<Rightarrow> string \<Rightarrow> string list \<Rightarrow> change result" where
  "capture_empty s ts i reviewed =
     and_then (require_active_location s i) (\<lambda>l.
       if reviewed = [] then throw EMPTY_REVIEW_STALE
       else if list_ex (\<lambda>c. l_parentId c = Some (l_id l) \<and> \<not> l_archived c) (ws_locations s)
       then throw NOT_EMPTY
       else
         let xs = filter (\<lambda>x. i_locationId x = l_id l \<and> \<not> i_archived x) (ws_items s);
             ids = sort (map i_id xs)
         in
         if sort reviewed \<noteq> ids then throw EMPTY_REVIEW_STALE
         else mk_change (''Emptied '' @ l_name l @ '' and marked it known empty'')
                (plan_invalidation_patches s ids [l_id l] @ map delete_item_patch xs @
                 [location_patch (l_id l) ''captureStatus''
                    (JStr (capture_status_name (l_captureStatus l))) (JStr ''known_empty''),
                  location_patch (l_id l) ''updatedAt'' (JStr (l_updatedAt l)) (JStr ts)])
                (l_id l # ids))"

text \<open>\<open>status.replace("_", " ")\<close>: the first underscore.\<close>

fun spaced :: "string \<Rightarrow> string" where
  "spaced [] = []"
| "spaced (c # cs) = (if c = CHR ''_'' then CHR '' '' # cs else c # spaced cs)"

definition capture_status_set :: "wstate \<Rightarrow> string \<Rightarrow> string \<Rightarrow> string \<Rightarrow> change result" where
  "capture_status_set s ts i status =
     and_then (require_active_location s i) (\<lambda>l.
       if status \<notin> set (map capture_status_name all_capture_status) then throw INVALID_CAPTURE_STATUS
       else if capture_status_name (l_captureStatus l) = status then throw NO_CHANGES
       else if status = ''known_empty'' \<and>
               list_ex (\<lambda>x. i_locationId x = l_id l \<and> \<not> i_archived x) (ws_items s)
       then throw NOT_EMPTY
       else if status = ''known_empty'' \<and>
               list_ex (\<lambda>c. l_parentId c = Some (l_id l) \<and> \<not> l_archived c) (ws_locations s)
       then throw NOT_EMPTY
       else mk_change (''Marked '' @ l_name l @ '' '' @ spaced status)
              (plan_invalidation_patches s [] [l_id l] @
               [location_patch (l_id l) ''captureStatus''
                  (JStr (capture_status_name (l_captureStatus l))) (JStr status),
                location_patch (l_id l) ''updatedAt'' (JStr (l_updatedAt l)) (JStr ts)])
              [l_id l])"

end
