(* ===== verification/Commands_Item.thy ===== *)
theory Commands_Item
  imports Commands_Location
begin

text \<open>
  The handlers of \<open>normalPatches\<close> (\<open>src/domain/commands.ts\<close>) for items: one item and bulk
  creation, update, reordering, deletion and moving.
\<close>

section \<open>Creating items\<close>

definition item_create :: "wstate \<Rightarrow> string \<Rightarrow> json \<Rightarrow> change result" where
  "item_create s ts itm =
     (let get = (\<lambda>k. jget k itm); i = text_of (get ''id''); loc = text_of (get ''locationId'') in
      and_then (validate_item s itm) (\<lambda>_.
      if list_ex (\<lambda>x. i_id x = i) (ws_items s) then throw ITEM_EXISTS
      else
      and_then (if \<not> truthy (get ''archivedAt'') then contents_editable s [Some loc] else Inr ()) (\<lambda>_.
      and_then (capture_progress_patches s loc ts) (\<lambda>progress.
        mk_change (''Recorded '' @ string_of_opt (get ''quantity'') @ '' '' @ text_of (get ''unit'') @
                   '' '' @ text_of (get ''name''))
          (plan_invalidation_patches s [] [loc] @ mk_patch Target_item i [] None (Some itm) # progress)
          [i, loc]))))"

text \<open>The checks of the import loop: each item valid, its identifier new to the batch and the state.\<close>

fun bulk_create_checks :: "wstate \<Rightarrow> string list \<Rightarrow> json list \<Rightarrow> unit result" where
  "bulk_create_checks s seen [] = Inr ()"
| "bulk_create_checks s seen (itm # itms) =
     and_then (validate_item s itm) (\<lambda>_.
       let i = text_of (jget ''id'' itm) in
       if i \<in> set seen then throw DUPLICATE_ITEM_ID
       else if list_ex (\<lambda>x. i_id x = i) (ws_items s) then throw ITEM_EXISTS
       else bulk_create_checks s (i # seen) itms)"

definition complete_locations :: "wstate \<Rightarrow> string list \<Rightarrow> string list result" where
  "complete_locations s ids =
     and_then (map_result (require_active_location s) ids)
       (\<lambda>ls. Inr (map l_id (filter (\<lambda>l. capture_complete (l_captureStatus l)) ls)))"

definition item_bulk_create :: "wstate \<Rightarrow> string \<Rightarrow> json list \<Rightarrow> json option \<Rightarrow> change result" where
  "item_bulk_create s ts itms reopen =
     (if itms = [] then throw EMPTY_IMPORT
      else
      and_then (confirmation reopen) (\<lambda>_.
      and_then (bulk_create_checks s [] itms) (\<lambda>_.
        let ids = map (\<lambda>j. text_of (jget ''id'' j)) itms;
            destinations = uniq (map (\<lambda>j. text_of (jget ''locationId'' j)) itms)
        in
        and_then (complete_locations s destinations) (\<lambda>completed.
        and_then (if reopens reopen then Inr () else contents_editable s (map Some destinations)) (\<lambda>_.
        and_then (bulk_create_progress_patches s destinations ts (reopens reopen)) (\<lambda>progress.
          mk_change
            (''Imported '' @ digits_of (length itms) @ '' item record'' @ plural_s (length itms) @
             (if reopens reopen \<and> completed \<noteq> [] then '' and reopened affected spaces'' else ''''))
            (plan_invalidation_patches s [] destinations @
             map (\<lambda>(i, j). mk_patch Target_item i [] None (Some j)) (zip ids itms) @ progress)
            (ids @ destinations)))))))"

section \<open>Updating items\<close>

definition version_patches :: "item \<Rightarrow> string \<Rightarrow> jsnum \<Rightarrow> field_patch list" where
  "version_patches x ts v =
     [item_patch (i_id x) ''updatedAt'' (JStr (i_updatedAt x)) (JStr ts),
      item_patch (i_id x) ''version'' (JNum (i_version x)) (JNum v)]"

definition item_update :: "wstate \<Rightarrow> string \<Rightarrow> string \<Rightarrow> json \<Rightarrow> change result" where
  "item_update s ts i changes =
     and_then (require_item s i) (\<lambda>x.
     and_then (allowed_changes item_change_keys (Some changes)) (\<lambda>m.
       if list_ex (\<lambda>k. map_of m k \<noteq> None) [''locationId'', ''archivedAt'', ''order'', ''updatedAt'', ''version'']
       then throw STRUCTURAL_ITEM_UPDATE
       else
       and_then (next_item_version x) (\<lambda>v.
         let merged = AList.update ''version'' (JNum v)
               (AList.update ''updatedAt'' (JStr ts) (obj_merge (item_obj x) m))
         in
         if \<not> satisfies is_string (map_of merged ''name'') \<or> \<not> satisfies is_string (map_of merged ''unit'')
         then throw INVALID_ITEM
         else
           let nm = js_trim (text_of (map_of merged ''name''));
               un = js_trim (text_of (map_of merged ''unit''));
               nxt = AList.update ''unit'' (JStr un) (AList.update ''name'' (JStr nm) merged)
           in
           and_then (validate_item s (JObj nxt)) (\<lambda>_.
           and_then (changed_entries (item_obj x)
               (normalize_change ''unit'' (JStr un) (normalize_change ''name'' (JStr nm) m))) (\<lambda>entries.
           if entries = [] then throw NO_CHANGES
           else
           and_then (if \<not> i_archived x then contents_editable s [Some (i_locationId x)] else Inr ()) (\<lambda>_.
             mk_change (''Updated '' @ i_name x)
               ((if changes_any [''category'', ''constraints'', ''dimensions'', ''frequency'', ''quantity'',
                                 ''tags'', ''unit''] entries
                 then plan_invalidation_patches s [i_id x] [i_locationId x] else []) @
                entry_patches Target_item (i_id x) entries @ version_patches x ts v)
               [i_id x]))))))"

text \<open>
  One update of a bulk edit.  The constraints change leaf by leaf, so their entries carry
  dotted paths.  An update that changes nothing yields no patches.
\<close>

fun bulk_entries :: "(string \<times> json) list \<Rightarrow> (string \<times> json) list" where
  "bulk_entries [] = []"
| "bulk_entries ((k, v) # m) =
     (if k = ''constraints''
      then map (\<lambda>(leaf, w). (''constraints.'' @ leaf, w)) (case v of JObj n \<Rightarrow> n | _ \<Rightarrow> [])
      else [(k, v)]) @ bulk_entries m"

definition bulk_update_one :: "wstate \<Rightarrow> string \<Rightarrow> string \<Rightarrow> json \<Rightarrow> (item \<times> field_patch list) option result" where
  "bulk_update_one s ts i changes =
     and_then (require_active_item s i) (\<lambda>x.
     and_then (require_active_location s (i_locationId x)) (\<lambda>_.
     and_then (allowed_changes bulk_item_change_keys (Some changes)) (\<lambda>m.
     and_then (if map_of m ''constraints'' \<noteq> None
               then allowed_changes bulk_constraint_change_keys (map_of m ''constraints'') else Inr []) (\<lambda>leaves.
       let nxt = AList.update ''constraints'' (JObj (obj_merge (constraints_obj (i_constraints x)) leaves))
                   (obj_merge (item_obj x) m)
       in
       and_then (validate_item s (JObj nxt)) (\<lambda>_.
       and_then (changed_entries (item_obj x) (bulk_entries m)) (\<lambda>entries.
       if entries = [] then Inr None
       else and_then (next_item_version x) (\<lambda>v.
         Inr (Some (x, entry_patches Target_item (i_id x) entries @ version_patches x ts v)))))))))"

fun bulk_update_loop ::
  "wstate \<Rightarrow> string \<Rightarrow> string list \<Rightarrow> (string \<times> json) list \<Rightarrow> (item \<times> field_patch list) list result" where
  "bulk_update_loop s ts seen [] = Inr []"
| "bulk_update_loop s ts seen ((i, changes) # updates) =
     (if blank i then throw INVALID_BULK_UPDATE
      else if i \<in> set seen then throw DUPLICATE_ITEM_ID
      else and_then (bulk_update_one s ts i changes) (\<lambda>r.
           and_then (bulk_update_loop s ts (i # seen) updates) (\<lambda>rs.
             Inr (case r of None \<Rightarrow> rs | Some u \<Rightarrow> u # rs))))"

definition item_bulk_update ::
  "wstate \<Rightarrow> string \<Rightarrow> (string \<times> json) list \<Rightarrow> json option \<Rightarrow> change result" where
  "item_bulk_update s ts updates reopen =
     (if updates = [] then throw EMPTY_BULK_UPDATE
      else
      and_then (confirmation reopen) (\<lambda>_.
      and_then (bulk_update_loop s ts [] updates) (\<lambda>changed.
        let xs = map fst changed; n = length xs; locs = uniq (map i_locationId xs) in
        if changed = [] then throw NO_CHANGES
        else
        and_then (if reopens reopen then Inr () else contents_editable s (map Some locs)) (\<lambda>_.
        and_then (complete_locations s locs) (\<lambda>reopened.
        and_then (bulk_move_progress_patches s (map Some locs) None ts) (\<lambda>progress.
          mk_change
            (''Updated '' @ digits_of n @ '' item record'' @ plural_s n @
             (if reopened \<noteq> [] then '' and reopened affected spaces'' else ''''))
            (plan_invalidation_patches s (map i_id xs) locs @ concat (map snd changed) @ progress)
            (map i_id xs @ locs)))))))"

section \<open>Reordering and deleting an item\<close>

definition item_reorder :: "wstate \<Rightarrow> string \<Rightarrow> string \<Rightarrow> jsnum \<Rightarrow> change result" where
  "item_reorder s ts i order =
     and_then (require_item s i) (\<lambda>x.
       if \<not> is_finite order then throw INVALID_ORDER
       else if js_eq order (i_order x) then throw NO_CHANGES
       else
       and_then (if \<not> i_archived x then contents_editable s [Some (i_locationId x)] else Inr ()) (\<lambda>_.
       and_then (next_item_version x) (\<lambda>v.
         mk_change (''Reordered '' @ i_name x)
           (item_patch (i_id x) ''order'' (JNum (i_order x)) (JNum order) # version_patches x ts v)
           [i_id x, i_locationId x])))"

definition item_delete :: "wstate \<Rightarrow> string \<Rightarrow> change result" where
  "item_delete s i =
     and_then (require_item s i) (\<lambda>x.
     and_then (if \<not> i_archived x then contents_editable s [Some (i_locationId x)] else Inr ()) (\<lambda>_.
       mk_change (''Deleted '' @ i_name x)
         (plan_invalidation_patches s [i_id x] [i_locationId x] @ [delete_item_patch x])
         [i_id x, i_locationId x]))"

section \<open>Moving items\<close>

definition item_move ::
  "wstate \<Rightarrow> string \<Rightarrow> string \<Rightarrow> string \<Rightarrow> string \<Rightarrow> jsnum \<Rightarrow> json option \<Rightarrow> change result" where
  "item_move s envelope_id ts i d q reopen =
     and_then (require_active_item s i) (\<lambda>x.
     and_then (confirmation reopen) (\<lambda>_.
     and_then (move_item_patches s x d q envelope_id ts) (\<lambda>ps.
     and_then (if reopens reopen then Inr ()
               else contents_editable s [Some (i_locationId x), Some d]) (\<lambda>_.
     and_then (if reopens reopen then move_progress_patches s (Some (i_locationId x)) (Some d) ts
               else capture_progress_patches s d ts) (\<lambda>progress.
       mk_change
         (''Moved '' @ num_to_string q @ '' '' @ i_unit x @ '' '' @ i_name x @
          (if reopens reopen \<and> progress \<noteq> [] then '' and reopened affected spaces'' else ''''))
         (plan_invalidation_patches s [i_id x] [i_locationId x, d] @ ps @ progress)
         [i_id x, i_locationId x, d])))))"

text \<open>The loop of a bulk move, on a working copy of the state.\<close>

fun bulk_move_loop ::
  "wstate \<Rightarrow> string \<Rightarrow> string \<Rightarrow> string \<Rightarrow> string list \<Rightarrow> (wstate \<times> field_patch list) result" where
  "bulk_move_loop working envelope_id ts d [] = Inr (working, [])"
| "bulk_move_loop working envelope_id ts d (i # ids) =
     and_then (require_active_item working i) (\<lambda>x.
     and_then (move_item_patches working x d (i_quantity x) (envelope_id @ ''_'' @ i) ts) (\<lambda>ps.
     and_then (apply_patches working ps) (\<lambda>working'.
     and_then (bulk_move_loop working' envelope_id ts d ids) (\<lambda>(final, qs). Inr (final, ps @ qs)))))"

definition item_bulk_move ::
  "wstate \<Rightarrow> string \<Rightarrow> string \<Rightarrow> string \<Rightarrow> string list \<Rightarrow> json option \<Rightarrow> change result" where
  "item_bulk_move s envelope_id ts d selected reopen =
     (if selected = [] then throw EMPTY_SELECTION
      else
      and_then (confirmation reopen) (\<lambda>_.
      and_then (require_active_location s d) (\<lambda>_.
        let ids = uniq selected in
        and_then (map_result (\<lambda>i. and_then (require_active_item s i) (\<lambda>x. Inr (i, i_locationId x))) ids) (\<lambda>located.
          let movable = map fst (filter (\<lambda>(i, loc). loc \<noteq> d) located) in
          if movable = [] then throw ALREADY_THERE
          else
          and_then (bulk_move_loop s envelope_id ts d movable) (\<lambda>(working, ps).
          and_then (map_result (require_item s) movable) (\<lambda>xs.
            let sources = map i_locationId xs in
            and_then (if reopens reopen then Inr ()
                      else contents_editable s (map Some sources @ [Some d])) (\<lambda>_.
            and_then (if reopens reopen then bulk_move_progress_patches s (map Some sources) (Some d) ts
                      else capture_progress_patches s d ts) (\<lambda>progress.
              mk_change
                ((if length movable = length ids
                  then ''Moved '' @ digits_of (length movable) @ '' item record'' @ plural_s (length movable)
                  else ''Moved '' @ digits_of (length movable) @ '' of '' @ digits_of (length ids) @
                       '' item records'') @
                 (if reopens reopen \<and> progress \<noteq> [] then '' and reopened affected spaces'' else ''''))
                (plan_invalidation_patches s movable
                   (uniq (concat (map (\<lambda>src. [src, d]) sources))) @ ps @ progress)
                (uniq (movable @ [d]))))))))))"

end
