(* ===== verification/Commands_Plan.thy ===== *)
theory Commands_Plan
  imports Commands_Item
begin

text \<open>
  The handlers of \<open>normalPatches\<close> (\<open>src/domain/commands.ts\<close>) for plans: creation, status
  changes with the activation checks, and the completion of a step, which moves its subject.

  A new plan arrives as JSON and is checked property by property; the steps are decoded after
  the shape checks of the code, and a step that passes them without having its declared type
  stops the model.
\<close>

section \<open>Selections and steps\<close>

definition assert_plan_selection :: "wstate \<Rightarrow> json option \<Rightarrow> plan_step option \<Rightarrow> unit result" where
  "assert_plan_selection s sel step =
     (let issue = (case plan_selection_issue s sel of
            Some m \<Rightarrow> Some m
          | None \<Rightarrow> (case step of None \<Rightarrow> None
                     | Some st \<Rightarrow> plan_selection_step_issue s (Option.bind sel selection_of) st))
      in if issue \<noteq> None then throw INVALID_PLAN_SELECTION else Inr ())"

definition selection_json :: "move_plan \<Rightarrow> json option" where
  "selection_json p = map_option json_of_selection (p_selection p)"

definition completed :: "plan_step \<Rightarrow> bool" where
  "completed st \<longleftrightarrow> set_at (s_completedAt st)"

text \<open>\<open>step.quantity !== item.quantity\<close>.\<close>

definition other_quantity :: "plan_step \<Rightarrow> item \<Rightarrow> bool" where
  "other_quantity st x \<longleftrightarrow>
     (case s_quantity st of None \<Rightarrow> True | Some q \<Rightarrow> \<not> js_eq q (i_quantity x))"

definition moves_item :: "plan_step \<Rightarrow> bool" where
  "moves_item st \<longleftrightarrow> s_type st = Item_step \<and> set_at (s_itemId st)"

definition moves_location :: "plan_step \<Rightarrow> bool" where
  "moves_location st \<longleftrightarrow> s_type st = Location_step \<and> set_at (s_locationId st)"

definition destination_below :: "wstate \<Rightarrow> location \<Rightarrow> string \<Rightarrow> bool" where
  "destination_below s l d \<longleftrightarrow>
     l_id l = d \<or> list_ex (\<lambda>c. l_id c = d) (descendants_of (ws_locations s) (l_id l))"

section \<open>Creating a plan\<close>

fun is_array :: "json \<Rightarrow> bool" where
  "is_array (JArr xs) = True"
| "is_array j = False"

definition plan_shape :: "json \<Rightarrow> bool" where
  "plan_shape plan \<longleftrightarrow>
     is_record plan \<and> satisfies nonblank_string (jget ''id'' plan) \<and>
     satisfies nonblank_string (jget ''name'' plan) \<and> satisfies is_string (jget ''createdAt'' plan) \<and>
     satisfies is_record (jget ''weights'' plan) \<and>
     list_all (\<lambda>k. satisfies num_finite (Option.bind (jget ''weights'' plan) (jget k)))
       [''accessibility'', ''capacity'', ''grouping'', ''moveCost'', ''suitability''] \<and>
     satisfies is_array (jget ''steps'' plan)"

definition step_shape :: "json \<Rightarrow> bool" where
  "step_shape st \<longleftrightarrow>
     is_record st \<and> satisfies nonblank_string (jget ''id'' st) \<and>
     satisfies is_string (jget ''sourceId'' st) \<and> satisfies is_string (jget ''destinationId'' st) \<and>
     satisfies is_string_array (jget ''explanation'' st) \<and> satisfies num_finite (jget ''score'' st) \<and>
     satisfies null_or_string (jget ''completedAt'' st)"

definition new_step_check :: "wstate \<Rightarrow> plan_step \<Rightarrow> unit result" where
  "new_step_check s st =
     (if completed st then throw INVALID_PLAN_STEP
      else
      and_then (require_active_location s (s_sourceId st)) (\<lambda>source.
      and_then (require_active_location s (s_destinationId st)) (\<lambda>dest.
      if l_id source = l_id dest then throw INVALID_PLAN_STEP
      else if moves_item st
      then and_then (require_item s (the (s_itemId st))) (\<lambda>x.
             if i_archived x then throw PLAN_STEP_STALE
             else if s_locationId st \<noteq> None \<or> i_locationId x \<noteq> s_sourceId st \<or> other_quantity st x
             then throw PLAN_STEP_STALE else Inr ())
      else if moves_location st
      then and_then (require_active_location s (the (s_locationId st))) (\<lambda>l.
             if s_itemId st \<noteq> None \<or> s_quantity st \<noteq> None \<or> l_parentId l \<noteq> Some (s_sourceId st)
             then throw PLAN_STEP_STALE
             else if destination_below s l (s_destinationId st) then throw LOCATION_CYCLE
             else Inr ())
      else throw INVALID_PLAN_STEP)))"

fun new_steps_check :: "wstate \<Rightarrow> json option \<Rightarrow> string list \<Rightarrow> json list \<Rightarrow> unit result" where
  "new_steps_check s sel seen [] = Inr ()"
| "new_steps_check s sel seen (j # js) =
     (if \<not> step_shape j then throw INVALID_PLAN_STEP
      else if text_of (jget ''id'' j) \<in> set seen then throw DUPLICATE_PLAN_STEP
      else and_then (typed (step_of j)) (\<lambda>st.
           and_then (assert_plan_selection s sel (Some st)) (\<lambda>_.
           and_then (new_step_check s st) (\<lambda>_.
             new_steps_check s sel (text_of (jget ''id'' j) # seen) js))))"

fun array_of :: "json option \<Rightarrow> json list" where
  "array_of (Some (JArr xs)) = xs"
| "array_of v = []"

definition plan_create :: "wstate \<Rightarrow> json \<Rightarrow> change result" where
  "plan_create s plan =
     (let i = text_of (jget ''id'' plan); sel = jget ''selection'' plan;
          steps = array_of (jget ''steps'' plan) in
      if \<not> plan_shape plan then throw INVALID_PLAN
      else if steps = [] then throw EMPTY_PLAN
      else
      and_then (assert_plan_selection s sel None) (\<lambda>_.
      if jget ''status'' plan \<noteq> Some (JStr ''active'') then throw INVALID_PLAN
      else if list_ex (\<lambda>p. p_id p = i) (ws_plans s) then throw PLAN_EXISTS
      else
      and_then (new_steps_check s sel [] steps) (\<lambda>_.
        mk_change (''Created plan '' @ text_of (jget ''name'' plan))
          (map discard_patch (filter (\<lambda>p. p_status p = Active) (ws_plans s)) @
           [mk_patch Target_plan i [] None (Some plan)])
          [i])))"

section \<open>Changing the status of a plan\<close>

definition active_step_check :: "wstate \<Rightarrow> move_plan \<Rightarrow> plan_step \<Rightarrow> unit result" where
  "active_step_check s p st =
     and_then (assert_plan_selection s (selection_json p) (Some st)) (\<lambda>_.
     and_then (require_active_location s (s_sourceId st)) (\<lambda>source.
     and_then (require_active_location s (s_destinationId st)) (\<lambda>dest.
     if l_id source = l_id dest then throw PLAN_STEP_STALE
     else if moves_item st
     then and_then (require_item s (the (s_itemId st))) (\<lambda>x.
            if i_archived x \<or> i_locationId x \<noteq> s_sourceId st \<or> s_locationId st \<noteq> None \<or>
               other_quantity st x
            then throw PLAN_STEP_STALE else Inr ())
     else if moves_location st
     then and_then (require_active_location s (the (s_locationId st))) (\<lambda>l.
            if s_itemId st \<noteq> None \<or> s_quantity st \<noteq> None \<or> l_parentId l \<noteq> Some (s_sourceId st) \<or>
               destination_below s l (s_destinationId st)
            then throw PLAN_STEP_STALE else Inr ())
     else throw INVALID_PLAN_STEP)))"

definition assert_plan_can_activate :: "wstate \<Rightarrow> move_plan \<Rightarrow> unit result" where
  "assert_plan_can_activate s p =
     and_then (assert_plan_selection s (selection_json p) None) (\<lambda>_.
     if p_steps p = [] then throw EMPTY_PLAN
     else if list_all completed (p_steps p) then throw PLAN_COMPLETE
     else each_result (active_step_check s p) (filter (\<lambda>st. \<not> completed st) (p_steps p)))"

definition plan_status_set :: "wstate \<Rightarrow> string \<Rightarrow> string \<Rightarrow> change result" where
  "plan_status_set s i status =
     and_then (require_plan s i) (\<lambda>p.
     if status \<notin> set (map plan_status_name all_plan_status) then throw INVALID_PLAN_STATUS
     else if plan_status_name (p_status p) = status then throw NO_CHANGES
     else if status = ''active'' \<and> list_ex (\<lambda>c. p_id c \<noteq> p_id p \<and> p_status c = Active) (ws_plans s)
     then throw ACTIVE_PLAN_EXISTS
     else
     and_then (if status = ''active'' then assert_plan_can_activate s p else Inr ()) (\<lambda>_.
     if status = ''completed'' \<and> list_ex (\<lambda>st. \<not> completed st) (p_steps p) then throw PLAN_INCOMPLETE
     else if status = ''active'' \<and> p_steps p \<noteq> [] \<and> list_all completed (p_steps p) then throw PLAN_COMPLETE
     else mk_change (''Marked '' @ p_name p @ '' '' @ status)
            [plan_patch (p_id p) ''status'' (JStr (plan_status_name (p_status p))) (JStr status)]
            [p_id p]))"

section \<open>Completing a step\<close>

definition step_item_patches ::
  "wstate \<Rightarrow> string \<Rightarrow> string \<Rightarrow> plan_step \<Rightarrow> field_patch list result" where
  "step_item_patches s envelope_id ts st =
     and_then (require_item s (the (s_itemId st))) (\<lambda>x.
     and_then (require_active_location s (s_sourceId st)) (\<lambda>_.
     and_then (require_active_location s (s_destinationId st)) (\<lambda>_.
     if i_archived x \<or> i_locationId x \<noteq> s_sourceId st \<or> other_quantity st x
     then throw PLAN_STEP_STALE
     else
     and_then (move_item_patches s x (s_destinationId st)
         (case s_quantity st of None \<Rightarrow> i_quantity x | Some q \<Rightarrow> q) envelope_id ts) (\<lambda>ps.
     and_then (move_progress_patches s (Some (s_sourceId st)) (Some (s_destinationId st)) ts) (\<lambda>qs.
       Inr (ps @ qs))))))"

definition step_location_patches :: "wstate \<Rightarrow> string \<Rightarrow> plan_step \<Rightarrow> field_patch list result" where
  "step_location_patches s ts st =
     and_then (require_active_location s (the (s_locationId st))) (\<lambda>l.
     if l_parentId l \<noteq> Some (s_sourceId st) then throw PLAN_STEP_STALE
     else if destination_below s l (s_destinationId st) then throw LOCATION_CYCLE
     else
     and_then (require_active_location s (s_destinationId st)) (\<lambda>_.
     and_then (move_progress_patches s (Some (s_sourceId st)) (Some (s_destinationId st)) ts) (\<lambda>qs.
       Inr ([location_patch (l_id l) ''parentId'' (json_of_nullable JStr (l_parentId l))
               (JStr (s_destinationId st)),
             location_patch (l_id l) ''updatedAt'' (JStr (l_updatedAt l)) (JStr ts)] @ qs))))"

text \<open>\<open>step.itemId ?? step.locationId ?? ""\<close>.\<close>

definition step_subject :: "plan_step \<Rightarrow> string" where
  "step_subject st =
     (case s_itemId st of Some i \<Rightarrow> i | None \<Rightarrow> (case s_locationId st of Some l \<Rightarrow> l | None \<Rightarrow> []))"

definition plan_step_complete ::
  "wstate \<Rightarrow> string \<Rightarrow> string \<Rightarrow> string \<Rightarrow> string \<Rightarrow> change result" where
  "plan_step_complete s envelope_id ts i step_id =
     and_then (require_plan s i) (\<lambda>p.
     if p_status p \<noteq> Active then throw PLAN_NOT_ACTIVE
     else if length (filter (\<lambda>c. p_status c = Active) (ws_plans s)) > 1 then throw MULTIPLE_ACTIVE_PLANS
     else case List.find (\<lambda>c. s_id c = step_id) (p_steps p) of
       None \<Rightarrow> throw PLAN_STEP_NOT_FOUND
     | Some st \<Rightarrow>
       if completed st then throw PLAN_STEP_COMPLETE
       else
       and_then (assert_plan_selection s (selection_json p) (Some st)) (\<lambda>_.
       if list_ex (\<lambda>c. \<not> completed c) (takeWhile (\<lambda>c. s_id c \<noteq> s_id st) (p_steps p))
       then throw PLAN_OUT_OF_ORDER
       else
       and_then (if moves_item st then step_item_patches s envelope_id ts st
                 else if moves_location st then step_location_patches s ts st
                 else throw INVALID_PLAN_STEP) (\<lambda>ps.
         let next_steps = map_first (\<lambda>c. s_id c = s_id st) (\<lambda>c. c\<lparr>s_completedAt := Some ts\<rparr>) (p_steps p);
             next_status = (if list_all completed next_steps then Completed else p_status p)
         in
         mk_change
           (''Completed plan step: '' @ (case s_explanation st of [] \<Rightarrow> ''move'' | e # _ \<Rightarrow> e))
           (ps @ [plan_patch (p_id p) ''steps'' (json_of_list json_of_step (p_steps p))
                    (json_of_list json_of_step next_steps),
                  plan_patch (p_id p) ''status'' (JStr (plan_status_name (p_status p)))
                    (JStr (plan_status_name next_status))])
           (filter (\<lambda>k. k \<noteq> []) [p_id p, step_subject st]))))"

end
