(* ===== verification/State_Json.thy ===== *)
theory State_Json
  imports Patches
begin

text \<open>
  The JSON form of a whole workspace state (\<open>src/domain/types.ts\<close>): what the snapshot
  validator reads when a history command checks its outcome.  A patch side that is
  \<open>undefined\<close> is left out.
\<close>

fun target_name :: "patch_target \<Rightarrow> string" where
  "target_name Target_item = ''item''"
| "target_name Target_location = ''location''"
| "target_name Target_plan = ''plan''"
| "target_name Target_workspace = ''workspace''"

fun activity_status_name :: "activity_status \<Rightarrow> string" where
  "activity_status_name Applied = ''applied''"
| "activity_status_name Undone = ''undone''"

fun audit_type_name :: "audit_type \<Rightarrow> string" where
  "audit_type_name Batch_redo = ''batch_redo''"
| "audit_type_name Batch_undo = ''batch_undo''"
| "audit_type_name Reapply = ''reapply''"
| "audit_type_name Undo = ''undo''"

definition json_of_patch :: "field_patch \<Rightarrow> json" where
  "json_of_patch p = JObj
     ((case fp_after p of None \<Rightarrow> [] | Some v \<Rightarrow> [(''after'', v)]) @
      (case fp_before p of None \<Rightarrow> [] | Some v \<Rightarrow> [(''before'', v)]) @
      [(''id'', JStr (fp_id p)), (''path'', JStr (fp_path p)), (''target'', JStr (target_name (fp_target p)))])"

definition json_of_activity :: "activity \<Rightarrow> json" where
  "json_of_activity a = JObj
     [(''actorId'', JStr (a_actorId a)), (''commandId'', JStr (a_commandId a)), (''id'', JStr (a_id a)),
      (''label'', JStr (a_label a)), (''patches'', json_of_list json_of_patch (a_patches a)),
      (''status'', JStr (activity_status_name (a_status a))),
      (''subjectIds'', json_of_list JStr (a_subjectIds a)), (''timestamp'', JStr (a_timestamp a)),
      (''undoneAt'', json_of_nullable JStr (a_undoneAt a))]"

definition json_of_audit :: "audit_event \<Rightarrow> json" where
  "json_of_audit u = JObj
     [(''actorId'', JStr (u_actorId u)), (''id'', JStr (u_id u)), (''label'', JStr (u_label u)),
      (''targetActivityIds'', json_of_list JStr (u_targetActivityIds u)),
      (''timestamp'', JStr (u_timestamp u)), (''type'', JStr (audit_type_name (u_type u)))]"

definition json_of_state :: "wstate \<Rightarrow> json" where
  "json_of_state s = JObj
     [(''activities'', json_of_list json_of_activity (ws_activities s)),
      (''audit'', json_of_list json_of_audit (ws_audit s)),
      (''commandReceipts'', json_of_list JStr (ws_commandReceipts s)),
      (''items'', json_of_list (\<lambda>x. json_of_item x) (ws_items s)),
      (''locations'', json_of_list (\<lambda>l. json_of_location l) (ws_locations s)),
      (''plans'', json_of_list (\<lambda>p. json_of_plan p) (ws_plans s)),
      (''schemaVersion'', JNum (JsInt (ws_schemaVersion s))),
      (''workspace'', json_of_workspace (ws_workspace s))]"

end
