(* ===== verification/Snapshot.thy ===== *)
theory Snapshot
  imports Validation
begin

text \<open>
  The snapshot validator (\<open>validateSnapshot\<close>, \<open>isLegacyCompatibleIssue\<close> of
  \<open>src/domain/import.ts\<close>).  It reads an arbitrary JSON value and lists what is wrong with it,
  in the order of the code.  An issue keeps its code, message and severity; the display path
  is not modelled.

  The result is \<open>None\<close> where the code fails with a \<open>TypeError\<close>: a patch in the history whose
  target is a name that every object inherits.
\<close>

record issue =
  is_code :: string
  is_message :: string
  is_error :: bool

definition an_issue :: "string \<Rightarrow> string \<Rightarrow> issue" where
  "an_issue c m = \<lparr>is_code = c, is_message = m, is_error = True\<rparr>"

definition report :: "bool \<Rightarrow> string \<Rightarrow> string \<Rightarrow> issue list" where
  "report bad c m = (if bad then [an_issue c m] else [])"

text \<open>\<open>===\<close> on values that may be \<open>undefined\<close>; distinct arrays and objects are never identical.\<close>

fun strict_eq :: "json option \<Rightarrow> json option \<Rightarrow> bool" where
  "strict_eq (Some (JArr xs)) w = False"
| "strict_eq (Some (JObj m)) w = False"
| "strict_eq (Some (JNum a)) (Some (JNum b)) = js_eq a b"
| "strict_eq v w = (v = w)"

fun positive_version :: "json \<Rightarrow> bool" where
  "positive_version (JNum n) = (is_safe_integer n \<and> \<not> js_less n (Fin 1))"
| "positive_version j = False"

fun record_of :: "json option \<Rightarrow> jsobj" where
  "record_of (Some (JObj m)) = m"
| "record_of v = []"

fun elements_of :: "json option \<Rightarrow> json list" where
  "elements_of (Some (JArr xs)) = xs"
| "elements_of v = []"

fun is_array_opt :: "json option \<Rightarrow> bool" where
  "is_array_opt (Some (JArr xs)) = True"
| "is_array_opt v = False"

definition require_string :: "jsobj \<Rightarrow> string \<Rightarrow> issue list" where
  "require_string m k =
     report (\<not> satisfies is_string (map_of m k)) ''STRING_REQUIRED'' (k @ '' must be a string'')"

definition blank_string :: "json option \<Rightarrow> bool" where
  "blank_string v \<longleftrightarrow> satisfies is_string v \<and> \<not> satisfies nonblank_string v"

definition known_name :: "string list \<Rightarrow> json option \<Rightarrow> bool" where
  "known_name names v \<longleftrightarrow> string_of_opt v \<in> set names"

fun dimension_issues :: "json option \<Rightarrow> issue list" where
  "dimension_issues (Some JNull) = []"
| "dimension_issues (Some (JObj m)) =
     concat (map (\<lambda>k. report (\<not> satisfies num_positive (map_of m k)) ''DIMENSIONS'' (k @ '' must be greater than zero''))
       [''width'', ''height'', ''depth'']) @
     report (map_of m ''unit'' \<notin> {Some (JStr ''cm''), Some (JStr ''in'')}) ''DIMENSIONS'' ''Unit must be cm or in''"
| "dimension_issues v = [an_issue ''DIMENSIONS'' ''Dimensions must be null or an object'']"

section \<open>Workspace and receipts\<close>

definition workspace_issues :: "json option \<Rightarrow> issue list" where
  "workspace_issues v =
     (let m = record_of v in
      if \<not> satisfies is_record v \<or> \<not> satisfies nonblank_string (map_of m ''id'')
      then [an_issue ''WORKSPACE_REQUIRED'' ''Backup needs a workspace'']
      else require_string m ''name'' @
        report (blank_string (map_of m ''name'')) ''WORKSPACE_NAME'' ''Workspace name cannot be blank'' @
        require_string m ''createdAt'' @ require_string m ''updatedAt'' @
        report (\<not> satisfies (\<lambda>j. case j of JNum n \<Rightarrow> is_safe_integer n \<and> \<not> js_less n (Fin 0) | _ \<Rightarrow> False)
                  (map_of m ''revision''))
          ''WORKSPACE_REVISION'' ''Revision must be a non-negative safe integer'')"

fun receipt_loop :: "string list \<Rightarrow> string list \<Rightarrow> issue list" where
  "receipt_loop seen [] = []"
| "receipt_loop seen (r # rs) =
     (if blank r then [an_issue ''COMMAND_RECEIPTS'' ''Command receipt IDs cannot be blank'']
      else report (r \<in> set seen) ''DUPLICATE_ID'' ''Duplicate command receipt ID'') @
     receipt_loop (r # seen) rs"

definition receipt_issues :: "json option \<Rightarrow> issue list" where
  "receipt_issues v =
     (if v = None then []
      else if \<not> satisfies is_string_array v
      then [an_issue ''COMMAND_RECEIPTS'' ''Command receipts must be strings'']
      else receipt_loop [] (map js_String (elements_of v)))"

section \<open>Locations\<close>

definition condition_issues :: "json option \<Rightarrow> issue list" where
  "condition_issues v =
     (let m = record_of v in
      if \<not> satisfies is_record v then [an_issue ''LOCATION_CONDITIONS'' ''Conditions must be an object'']
      else
        concat (map (\<lambda>k. report (\<not> satisfies is_bool (map_of m k)) ''LOCATION_CONDITIONS'' (k @ '' must be boolean''))
          [''dark'', ''dry'', ''foodSafe'']) @
        report (\<not> known_name (map humidity_name all_humidity) (map_of m ''humidity''))
          ''LOCATION_CONDITIONS'' ''Invalid humidity'' @
        report (\<not> known_name (map temperature_name all_temperature) (map_of m ''temperature''))
          ''LOCATION_CONDITIONS'' ''Invalid temperature'')"

definition location_field_issues :: "jsobj \<Rightarrow> issue list" where
  "location_field_issues m =
     report (\<not> satisfies nonblank_string (map_of m ''name'')) ''LOCATION_NAME'' ''Location needs a name'' @
     report (\<not> satisfies nonblank_string (map_of m ''code'')) ''LOCATION_CODE'' ''Location needs a code'' @
     report (\<not> satisfies num_finite (map_of m ''order'')) ''LOCATION_ORDER'' ''Location order must be a number'' @
     report (\<not> satisfies null_or_string (map_of m ''archivedAt''))
       ''LOCATION_ARCHIVED'' ''Archived timestamp must be a string or null'' @
     report (map_of m ''parentId'' \<noteq> Some JNull \<and> \<not> satisfies nonblank_string (map_of m ''parentId''))
       ''LOCATION_PARENT'' ''Parent must be a location id or null'' @
     report (\<not> satisfies is_string_array (map_of m ''tags'')) ''LOCATION_TAGS'' ''Tags must be strings'' @
     report (\<not> known_name (map capture_status_name all_capture_status) (map_of m ''captureStatus''))
       ''CAPTURE_STATUS'' ''Invalid capture status'' @
     report (\<not> known_name (map location_kind_name all_location_kind) (map_of m ''kind''))
       ''LOCATION_KIND'' ''Invalid location kind'' @
     require_string m ''createdAt'' @ require_string m ''updatedAt'' @ require_string m ''description'' @
     dimension_issues (map_of m ''dimensions'') @ condition_issues (map_of m ''conditions'')"

text \<open>The first pass: identifiers and active codes seen so far.\<close>

fun location_loop :: "string list \<Rightarrow> string list \<Rightarrow> json list \<Rightarrow> issue list" where
  "location_loop ids codes [] = []"
| "location_loop ids codes (j # js) =
     (let m = record_of (Some j); i = string_of_opt (map_of m ''id''); code = code_key (map_of m ''code'') in
      if \<not> is_record j \<or> \<not> satisfies nonblank_string (map_of m ''id'')
      then an_issue ''LOCATION_ID'' ''Location needs an id'' # location_loop ids codes js
      else
        report (i \<in> set ids) ''DUPLICATE_ID'' ''Duplicate location id'' @ location_field_issues m @
        (if \<not> truthy (map_of m ''archivedAt'') \<and> code \<noteq> []
         then report (code \<in> set codes) ''DUPLICATE_CODE''
                (''Active code '' @ string_of_opt (map_of m ''code'') @ '' is duplicated'') @
              location_loop (i # ids) (code # codes) js
         else location_loop (i # ids) codes js))"

text \<open>The records that carry a string identifier, and the identifiers that are not blank.\<close>

definition records_by_id :: "json list \<Rightarrow> (string \<times> jsobj) list" where
  "records_by_id js = concat (map (\<lambda>j. case j of
     JObj m \<Rightarrow> (case map_of m ''id'' of Some (JStr i) \<Rightarrow> [(i, m)] | _ \<Rightarrow> []) | _ \<Rightarrow> []) js)"

definition known_ids :: "json list \<Rightarrow> string list" where
  "known_ids js = filter (\<lambda>i. \<not> blank i) (map fst (records_by_id js))"

text \<open>\<open>new Map(...)\<close> keeps the last record of an identifier, \<open>find\<close> takes the first.\<close>

definition last_by_id :: "json list \<Rightarrow> string \<Rightarrow> jsobj option" where
  "last_by_id js i = map_of (rev (records_by_id js)) i"

definition parent_links :: "json list \<Rightarrow> (string \<times> string option) list" where
  "parent_links js = map (\<lambda>(i, m). (i, string_or_none (map_of m ''parentId''))) (records_by_id js)"

text \<open>The walk from a parent towards the root: does it come back to something seen?\<close>

function walk_repeats :: "(string \<times> string option) list \<Rightarrow> string set \<Rightarrow> string option \<Rightarrow> bool" where
  "walk_repeats links seen cursor =
     (case cursor of
        None \<Rightarrow> False
      | Some c \<Rightarrow>
          if c = [] then False
          else if c \<in> seen then True
          else (case map_of links c of
                  None \<Rightarrow> False
                | Some parent \<Rightarrow> walk_repeats links (insert c seen) parent))"
  by pat_completeness auto
termination
proof (relation "measure (\<lambda>(links, seen, c). card (fst ` set links - seen))", goal_cases)
  case (2 links seen cursor c parent)
  then have "c \<in> fst ` set links - seen" by (force dest: map_of_SomeD)
  then have "card (fst ` set links - insert c seen) < card (fst ` set links - seen)"
    by (intro psubset_card_mono) auto
  then show ?case by simp
qed simp

declare walk_repeats.simps [simp del]

definition parent_issues :: "json list \<Rightarrow> (string \<times> jsobj) \<Rightarrow> issue list" where
  "parent_issues locs r =
     (let (i, m) = r; parent = string_or_none (map_of m ''parentId'');
          above = (if set_at parent then last_by_id locs (the parent) else None)
      in
      report (set_at parent \<and> the parent \<notin> set (known_ids locs)) ''DANGLING_PARENT''
        (''Parent '' @ the parent @ '' does not exist'') @
      report (\<not> truthy (map_of m ''archivedAt'') \<and> above \<noteq> None \<and> truthy (map_of (the above) ''archivedAt''))
        ''PARENT_ARCHIVED'' ''An active location cannot be inside an archived parent'' @
      report (walk_repeats (parent_links locs) {i} parent)
        ''LOCATION_CYCLE'' ''Location hierarchy contains a cycle'')"

section \<open>Items\<close>

definition constraint_issues :: "json option \<Rightarrow> issue list" where
  "constraint_issues v =
     (let m = record_of v in
      if \<not> satisfies is_record v then [an_issue ''ITEM_CONSTRAINTS'' ''Constraints must be an object'']
      else
        concat (map (\<lambda>k. report (\<not> satisfies is_bool (map_of m k)) ''ITEM_CONSTRAINTS'' (k @ '' must be boolean''))
          [''avoidHumidity'', ''avoidWarmth'', ''foodOnly'']) @
        report (\<not> satisfies null_or_string (map_of m ''keepTogether''))
          ''ITEM_CONSTRAINTS'' ''keepTogether must be a string or null'' @
        report (\<not> satisfies is_string_array (map_of m ''requiredTags''))
          ''ITEM_CONSTRAINTS'' ''Required tags must be strings'')"

definition item_place_issues :: "json list \<Rightarrow> jsobj \<Rightarrow> issue list" where
  "item_place_issues locs m =
     (let place = map_of m ''locationId''; i = string_of_opt place in
      if \<not> satisfies is_string place \<or> i \<notin> set (known_ids locs)
      then [an_issue ''DANGLING_LOCATION'' (''Location '' @ i @ '' does not exist'')]
      else report (\<not> truthy (map_of m ''archivedAt'') \<and>
                   (case last_by_id locs i of None \<Rightarrow> False | Some l \<Rightarrow> truthy (map_of l ''archivedAt'')))
             ''ARCHIVED_LOCATION'' ''An active item cannot be stored in an archived location'')"

definition item_field_issues :: "jsobj \<Rightarrow> issue list" where
  "item_field_issues m =
     report (\<not> satisfies null_or_string (map_of m ''archivedAt''))
       ''ITEM_ARCHIVED'' ''Archived timestamp must be a string or null'' @
     report (\<not> satisfies num_positive (map_of m ''quantity''))
       ''ITEM_QUANTITY'' ''Quantity must be greater than zero'' @
     report (map_of m ''order'' \<noteq> None \<and> \<not> satisfies num_finite (map_of m ''order''))
       ''ITEM_ORDER'' ''Item order must be a number'' @
     report (\<not> satisfies positive_version (map_of m ''version''))
       ''ITEM_VERSION'' ''Item version must be a positive safe integer'' @
     report (\<not> satisfies nonblank_string (map_of m ''name'')) ''ITEM_NAME'' ''Item needs a name'' @
     concat (map (require_string m) [''unit'', ''category'', ''description'', ''createdAt'', ''updatedAt'']) @
     report (blank_string (map_of m ''unit'')) ''ITEM_UNIT'' ''Item unit cannot be blank'' @
     report (\<not> satisfies is_string_array (map_of m ''tags'')) ''ITEM_TAGS'' ''Tags must be strings'' @
     report (\<not> known_name (map frequency_name all_frequency) (map_of m ''frequency''))
       ''ITEM_FREQUENCY'' ''Invalid frequency'' @
     dimension_issues (map_of m ''dimensions'') @ constraint_issues (map_of m ''constraints'')"

fun item_loop :: "json list \<Rightarrow> string list \<Rightarrow> json list \<Rightarrow> issue list" where
  "item_loop locs ids [] = []"
| "item_loop locs ids (j # js) =
     (let m = record_of (Some j); i = string_of_opt (map_of m ''id'') in
      if \<not> is_record j \<or> \<not> satisfies nonblank_string (map_of m ''id'')
      then an_issue ''ITEM_ID'' ''Item needs an id'' # item_loop locs ids js
      else report (i \<in> set ids) ''DUPLICATE_ID'' ''Duplicate item id'' @ item_place_issues locs m @
           item_field_issues m @ item_loop locs (i # ids) js)"

definition known_empty_issues :: "json list \<Rightarrow> json list \<Rightarrow> json \<Rightarrow> issue list" where
  "known_empty_issues locs itms j =
     report (jget ''captureStatus'' j = Some (JStr ''known_empty'') \<and>
             (list_ex (\<lambda>x. is_record x \<and> \<not> truthy (jget ''archivedAt'' x) \<and>
                           strict_eq (jget ''locationId'' x) (jget ''id'' j)) itms \<or>
              list_ex (\<lambda>l. is_record l \<and> \<not> truthy (jget ''archivedAt'' l) \<and>
                           strict_eq (jget ''parentId'' l) (jget ''id'' j)) locs))
       ''NOT_EMPTY'' ''A known-empty location cannot contain live records or nested spaces''"

section \<open>Plans\<close>

text \<open>The walk from the destination of a container step towards the root.\<close>

function record_walk :: "(string \<times> string option) list \<Rightarrow> string set \<Rightarrow> string \<Rightarrow> string list" where
  "record_walk links seen c =
     (case map_of links c of
        None \<Rightarrow> []
      | Some parent \<Rightarrow>
          if c \<in> seen then []
          else c # (case parent of None \<Rightarrow> [] | Some p \<Rightarrow> record_walk links (insert c seen) p))"
  by pat_completeness auto
termination
proof (relation "measure (\<lambda>(links, seen, c). card (fst ` set links - seen))", goal_cases)
  case (2 links seen c parent p)
  then have "c \<in> fst ` set links - seen" by (force dest: map_of_SomeD)
  then have "card (fst ` set links - insert c seen) < card (fst ` set links - seen)"
    by (intro psubset_card_mono) auto
  then show ?case by simp
qed simp

declare record_walk.simps [simp del]

definition archived_record :: "jsobj option \<Rightarrow> bool" where
  "archived_record r = (case r of None \<Rightarrow> True | Some m \<Rightarrow> truthy (map_of m ''archivedAt''))"

definition find_record :: "json list \<Rightarrow> json option \<Rightarrow> jsobj option" where
  "find_record js v = (case string_or_none v of None \<Rightarrow> None | Some i \<Rightarrow> last_by_id js i)"

definition step_end_issues ::
  "json list \<Rightarrow> bool \<Rightarrow> json option \<Rightarrow> string \<Rightarrow> string \<Rightarrow> string \<Rightarrow> issue list" where
  "step_end_issues locs executable v required code missing =
     (if \<not> satisfies nonblank_string v then [an_issue ''PLAN_STEP'' required]
      else report (executable \<and> archived_record (find_record locs v)) code missing)"

definition item_step_issues :: "json list \<Rightarrow> bool \<Rightarrow> jsobj \<Rightarrow> issue list" where
  "item_step_issues itms executable m =
     (let subject = find_record itms (map_of m ''itemId'') in
      (if \<not> satisfies nonblank_string (map_of m ''itemId'')
       then [an_issue ''PLAN_STEP'' ''Item step subject ID is required'']
       else report (executable \<and> archived_record subject)
              ''PLAN_ITEM'' ''Executable item step needs a live item'') @
      report (map_of m ''locationId'' \<noteq> Some JNull)
        ''PLAN_STEP'' ''Item steps cannot name a container subject'' @
      report (\<not> satisfies num_positive (map_of m ''quantity''))
        ''PLAN_STEP'' ''Item move quantity must be greater than zero'' @
      (case subject of None \<Rightarrow> [] | Some x \<Rightarrow>
         report (executable \<and>
                 (\<not> strict_eq (map_of x ''locationId'') (map_of m ''sourceId'') \<or>
                  \<not> strict_eq (map_of x ''quantity'') (map_of m ''quantity'')))
           ''PLAN_STEP_STALE''
           ''Executable item step does not match the item's current location and quantity''))"

definition location_step_issues :: "json list \<Rightarrow> bool \<Rightarrow> jsobj \<Rightarrow> issue list" where
  "location_step_issues locs executable m =
     (let subject = find_record locs (map_of m ''locationId'');
          destination = find_record locs (map_of m ''destinationId'') in
      (if \<not> satisfies nonblank_string (map_of m ''locationId'')
       then [an_issue ''PLAN_STEP'' ''Container step subject ID is required'']
       else report (executable \<and> archived_record subject)
              ''PLAN_LOCATION'' ''Executable container step needs a live location'') @
      report (map_of m ''itemId'' \<noteq> Some JNull \<or> map_of m ''quantity'' \<noteq> Some JNull)
        ''PLAN_STEP'' ''Container steps cannot name an item or quantity'' @
      (case subject of None \<Rightarrow> [] | Some l \<Rightarrow>
         report (executable \<and> \<not> strict_eq (map_of l ''parentId'') (map_of m ''sourceId''))
           ''PLAN_STEP_STALE'' ''Executable container step does not match its current parent'' @
         report (executable \<and> destination \<noteq> None \<and>
                 string_of_opt (map_of l ''id'') \<in>
                   set (record_walk (rev (parent_links locs)) {} (string_of_opt (map_of m ''destinationId''))))
           ''LOCATION_CYCLE'' ''Executable container step would create a hierarchy cycle''))"

definition step_issues :: "json list \<Rightarrow> json list \<Rightarrow> bool \<Rightarrow> jsobj \<Rightarrow> issue list" where
  "step_issues locs itms executable m =
     report (\<not> satisfies null_or_string (map_of m ''completedAt''))
       ''PLAN_STEP'' ''completedAt must be a timestamp or null'' @
     step_end_issues locs executable (map_of m ''sourceId'') ''Plan source ID is required''
       ''PLAN_SOURCE'' ''Plan source is missing or archived'' @
     step_end_issues locs executable (map_of m ''destinationId'') ''Plan destination ID is required''
       ''PLAN_DESTINATION'' ''Plan destination is missing or archived'' @
     report (executable \<and> satisfies is_string (map_of m ''sourceId'') \<and>
             map_of m ''sourceId'' = map_of m ''destinationId'')
       ''PLAN_DESTINATION'' ''Plan destination must differ from its source'' @
     (if map_of m ''type'' = Some (JStr ''item'') then item_step_issues itms executable m
      else if map_of m ''type'' = Some (JStr ''location'') then location_step_issues locs executable m
      else [an_issue ''PLAN_STEP'' ''Invalid plan step type'']) @
     report (\<not> satisfies is_string_array (map_of m ''explanation''))
       ''PLAN_STEP'' ''Explanations must be strings'' @
     report (\<not> satisfies num_finite (map_of m ''score'')) ''PLAN_STEP'' ''Score must be numeric''"

fun step_loop :: "json list \<Rightarrow> json list \<Rightarrow> bool \<Rightarrow> string list \<Rightarrow> json list \<Rightarrow> issue list" where
  "step_loop locs itms active ids [] = []"
| "step_loop locs itms active ids (j # js) =
     (let m = record_of (Some j); i = string_of_opt (map_of m ''id'');
          named = satisfies nonblank_string (map_of m ''id'') in
      if \<not> is_record j then an_issue ''PLAN_STEP'' ''Plan step must be an object'' # step_loop locs itms active ids js
      else
        require_string m ''id'' @
        report (blank_string (map_of m ''id'')) ''PLAN_STEP'' ''Plan step ID cannot be blank'' @
        report (named \<and> i \<in> set ids) ''DUPLICATE_ID'' ''Duplicate plan step id'' @
        step_issues locs itms (active \<and> \<not> truthy (map_of m ''completedAt'')) m @
        step_loop locs itms active (if named then i # ids else ids) js)"

definition plan_weight_issues :: "json option \<Rightarrow> issue list" where
  "plan_weight_issues v =
     (if \<not> satisfies is_record v then [an_issue ''PLAN_WEIGHTS'' ''Plan weights must be an object'']
      else report (list_ex (\<lambda>k. \<not> satisfies num_finite (map_of (record_of v) k))
                [''accessibility'', ''capacity'', ''grouping'', ''moveCost'', ''suitability''])
             ''PLAN_WEIGHTS'' ''Every plan weight must be numeric'')"

definition plan_steps_issues :: "json list \<Rightarrow> json list \<Rightarrow> jsobj \<Rightarrow> issue list" where
  "plan_steps_issues locs itms m =
     (let active = map_of m ''status'' = Some (JStr ''active''); steps = elements_of (map_of m ''steps'') in
      if \<not> is_array_opt (map_of m ''steps'') then [an_issue ''PLAN_STEPS'' ''Plan steps must be an array'']
      else
        report (active \<and> steps = []) ''PLAN_STEPS'' ''An active plan needs at least one move'' @
        step_loop locs itms active [] steps @
        report (map_of m ''status'' = Some (JStr ''completed'') \<and>
                list_ex (\<lambda>j. \<not> is_record j \<or> \<not> satisfies is_string (jget ''completedAt'' j)) steps)
          ''PLAN_STATUS'' ''A completed plan cannot contain unfinished moves'' @
        report (active \<and> steps \<noteq> [] \<and>
                list_all (\<lambda>j. is_record j \<and> satisfies is_string (jget ''completedAt'' j)) steps)
          ''PLAN_STATUS'' ''A plan with every move completed must be marked completed'')"

definition plan_field_issues :: "jsobj \<Rightarrow> issue list" where
  "plan_field_issues m =
     require_string m ''name'' @
     report (blank_string (map_of m ''name'')) ''PLAN_NAME'' ''Plan name cannot be blank'' @
     require_string m ''createdAt'' @
     report (\<not> known_name (map plan_status_name all_plan_status) (map_of m ''status''))
       ''PLAN_STATUS'' ''Invalid plan status'' @
     report (\<not> valid_plan_selection (map_of m ''selection''))
       ''PLAN_SELECTION'' ''Plan areas and pins are malformed'' @
     plan_weight_issues (map_of m ''weights'')"

definition plan_named :: "json \<Rightarrow> bool" where
  "plan_named j \<longleftrightarrow> is_record j \<and> satisfies nonblank_string (jget ''id'' j)"

fun plan_loop :: "json list \<Rightarrow> json list \<Rightarrow> string list \<Rightarrow> json list \<Rightarrow> issue list" where
  "plan_loop locs itms ids [] = []"
| "plan_loop locs itms ids (j # js) =
     (let m = record_of (Some j); i = string_of_opt (map_of m ''id'') in
      if \<not> plan_named j then an_issue ''PLAN_ID'' ''Plan needs an id'' # plan_loop locs itms ids js
      else report (i \<in> set ids) ''DUPLICATE_ID'' ''Duplicate plan id'' @ plan_field_issues m @
           plan_steps_issues locs itms m @ plan_loop locs itms (i # ids) js)"

definition active_plans :: "json list \<Rightarrow> json list" where
  "active_plans js = filter (\<lambda>j. plan_named j \<and> jget ''status'' j = Some (JStr ''active'')) js"

text \<open>
  The last pass over the plans runs when no error was found, so the records it reads have
  their declared identifiers, parents and archive marks.  \<open>view_state\<close> holds just the
  properties the plan selection functions read.
\<close>

definition blank_location :: location where
  "blank_location =
     \<lparr>l_archivedAt = None, l_captureStatus = Uncounted, l_code = [],
      l_conditions = \<lparr>c_dark = False, c_dry = False, c_foodSafe = False,
                     c_humidity = Humidity_normal, c_temperature = Temperature_normal\<rparr>,
      l_createdAt = [], l_description = [], l_dimensions = None, l_id = [], l_kind = Area,
      l_name = [], l_order = Fin 0, l_parentId = None, l_tags = [], l_updatedAt = []\<rparr>"

definition blank_item :: item where
  "blank_item =
     \<lparr>i_archivedAt = None, i_category = [],
      i_constraints = \<lparr>k_avoidHumidity = False, k_avoidWarmth = False, k_foodOnly = False,
                      k_keepTogether = None, k_requiredTags = []\<rparr>,
      i_createdAt = [], i_description = [], i_dimensions = None, i_frequency = Daily, i_id = [],
      i_locationId = [], i_name = [], i_order = Fin 0, i_quantity = Fin 0, i_tags = [],
      i_unit = [], i_updatedAt = [], i_version = Fin 1\<rparr>"

definition view_location :: "json \<Rightarrow> location" where
  "view_location j = blank_location
     \<lparr>l_archivedAt := string_or_none (jget ''archivedAt'' j), l_id := string_of_opt (jget ''id'' j),
      l_parentId := string_or_none (jget ''parentId'' j)\<rparr>"

definition view_item :: "json \<Rightarrow> item" where
  "view_item j = blank_item
     \<lparr>i_archivedAt := string_or_none (jget ''archivedAt'' j), i_id := string_of_opt (jget ''id'' j),
      i_locationId := string_of_opt (jget ''locationId'' j)\<rparr>"

definition view_state :: "json list \<Rightarrow> json list \<Rightarrow> wstate" where
  "view_state locs itms =
     \<lparr>ws_activities = [], ws_audit = [], ws_commandReceipts = [], ws_items = map view_item itms,
      ws_locations = map view_location locs, ws_plans = [], ws_schemaVersion = 2,
      ws_workspace = \<lparr>w_createdAt = [], w_id = [], w_name = [], w_revision = Fin 0, w_updatedAt = []\<rparr>\<rparr>"

definition view_step :: "json \<Rightarrow> plan_step" where
  "view_step j =
     \<lparr>s_completedAt = string_or_none (jget ''completedAt'' j),
      s_destinationId = string_of_opt (jget ''destinationId'' j), s_explanation = [], s_id = [],
      s_itemId = string_or_none (jget ''itemId'' j), s_locationId = string_or_none (jget ''locationId'' j),
      s_quantity = None, s_score = Fin 0, s_sourceId = string_of_opt (jget ''sourceId'' j),
      s_type = (if jget ''type'' j = Some (JStr ''item'') then Item_step else Location_step)\<rparr>"

definition selection_pass :: "json list \<Rightarrow> json list \<Rightarrow> json \<Rightarrow> issue list" where
  "selection_pass locs itms j =
     (let sel = jget ''selection'' j; s = view_state locs itms in
      if jget ''status'' j \<noteq> Some (JStr ''active'') \<or> \<not> truthy sel then []
      else
        let problems = map (\<lambda>st. plan_selection_step_issue s (Option.bind sel selection_of) (view_step st))
              (filter (\<lambda>st. \<not> truthy (jget ''completedAt'' st)) (elements_of (jget ''steps'' j)));
            found = (case plan_selection_issue s sel of Some m \<Rightarrow> Some m
                     | None \<Rightarrow> Option.bind (List.find (\<lambda>p. p \<noteq> None) problems) (\<lambda>p. p))
        in case found of None \<Rightarrow> [] | Some m \<Rightarrow> [an_issue ''PLAN_SELECTION'' m])"

section \<open>History\<close>

definition patch_paths :: "string \<Rightarrow> string list" where
  "patch_paths t =
     (if t = ''item''
      then [[], ''archivedAt'', ''category'', ''constraints'', ''constraints.avoidHumidity'',
            ''constraints.avoidWarmth'', ''constraints.foodOnly'', ''constraints.keepTogether'',
            ''constraints.requiredTags'', ''description'', ''dimensions'', ''frequency'',
            ''locationId'', ''name'', ''order'', ''quantity'', ''tags'', ''unit'', ''updatedAt'',
            ''version'']
      else if t = ''location''
      then [[], ''archivedAt'', ''captureStatus'', ''code'', ''conditions'', ''description'',
            ''dimensions'', ''kind'', ''name'', ''order'', ''parentId'', ''tags'', ''updatedAt'']
      else if t = ''plan'' then [[], ''status'', ''steps'']
      else if t = ''workspace'' then [''name'']
      else [])"

fun valid_plan_step :: "json \<Rightarrow> bool" where
  "valid_plan_step (JObj m) =
     (satisfies nonblank_string (map_of m ''id'') \<and> satisfies nonblank_string (map_of m ''sourceId'') \<and>
      satisfies nonblank_string (map_of m ''destinationId'') \<and>
      satisfies null_or_string (map_of m ''completedAt'') \<and>
      satisfies is_string_array (map_of m ''explanation'') \<and> satisfies num_finite (map_of m ''score'') \<and>
      (map_of m ''type'' = Some (JStr ''item'') \<and> satisfies nonblank_string (map_of m ''itemId'') \<and>
         map_of m ''locationId'' = Some JNull \<and> satisfies num_positive (map_of m ''quantity'') \<or>
       map_of m ''type'' = Some (JStr ''location'') \<and> satisfies nonblank_string (map_of m ''locationId'') \<and>
         map_of m ''itemId'' = Some JNull \<and> map_of m ''quantity'' = Some JNull))"
| "valid_plan_step j = False"

fun valid_plan_steps :: "json \<Rightarrow> bool" where
  "valid_plan_steps (JArr xs) = list_all valid_plan_step xs"
| "valid_plan_steps j = False"

definition valid_location_record :: "jsobj \<Rightarrow> bool" where
  "valid_location_record m \<longleftrightarrow>
     satisfies nonblank_string (map_of m ''name'') \<and> satisfies nonblank_string (map_of m ''code'') \<and>
     list_all (\<lambda>k. satisfies is_string (map_of m k)) [''description'', ''createdAt'', ''updatedAt''] \<and>
     satisfies null_or_string (map_of m ''archivedAt'') \<and> satisfies null_or_string (map_of m ''parentId'') \<and>
     satisfies num_finite (map_of m ''order'') \<and> satisfies is_string_array (map_of m ''tags'') \<and>
     known_name (map capture_status_name all_capture_status) (map_of m ''captureStatus'') \<and>
     known_name (map location_kind_name all_location_kind) (map_of m ''kind'') \<and>
     satisfies valid_dimensions (map_of m ''dimensions'') \<and>
     satisfies valid_conditions (map_of m ''conditions'')"

definition valid_item_record :: "jsobj \<Rightarrow> bool" where
  "valid_item_record m \<longleftrightarrow>
     satisfies nonblank_string (map_of m ''name'') \<and> satisfies nonblank_string (map_of m ''unit'') \<and>
     list_all (\<lambda>k. satisfies is_string (map_of m k))
       [''locationId'', ''category'', ''description'', ''createdAt'', ''updatedAt''] \<and>
     satisfies null_or_string (map_of m ''archivedAt'') \<and> satisfies num_positive (map_of m ''quantity'') \<and>
     (map_of m ''order'' = None \<or> satisfies num_finite (map_of m ''order'')) \<and>
     satisfies positive_version (map_of m ''version'') \<and> satisfies is_string_array (map_of m ''tags'') \<and>
     known_name (map frequency_name all_frequency) (map_of m ''frequency'') \<and>
     satisfies valid_dimensions (map_of m ''dimensions'') \<and>
     satisfies valid_constraints (map_of m ''constraints'')"

definition valid_plan_record :: "jsobj \<Rightarrow> bool" where
  "valid_plan_record m \<longleftrightarrow>
     satisfies nonblank_string (map_of m ''name'') \<and> satisfies is_string (map_of m ''createdAt'') \<and>
     known_name (map plan_status_name all_plan_status) (map_of m ''status'') \<and>
     plan_weight_issues (map_of m ''weights'') = [] \<and>
     satisfies valid_plan_steps (map_of m ''steps'') \<and> valid_plan_selection (map_of m ''selection'')"

definition valid_full_patch_record :: "string \<Rightarrow> json \<Rightarrow> string \<Rightarrow> bool" where
  "valid_full_patch_record t j i \<longleftrightarrow>
     is_record j \<and> jget ''id'' j = Some (JStr i) \<and>
     (let m = record_of (Some j) in
      if t = ''location'' then valid_location_record m
      else if t = ''item'' then valid_item_record m
      else if t = ''plan'' then valid_plan_record m
      else False)"

definition valid_patch_value :: "string \<Rightarrow> string \<Rightarrow> json option \<Rightarrow> string \<Rightarrow> bool" where
  "valid_patch_value t path v i =
     (case v of None \<Rightarrow> True | Some j \<Rightarrow>
        if path = [] then valid_full_patch_record t j i
        else if path \<in> {''name'', ''code'', ''unit''} then nonblank_string j
        else if path \<in> {''description'', ''category'', ''updatedAt''} then is_string j
        else if path = ''locationId'' then is_string j
        else if path = ''parentId'' \<or> path = ''archivedAt'' then null_or_string j
        else if path = ''order'' then num_finite j
        else if path = ''quantity'' then num_positive j
        else if path = ''version'' then positive_version j
        else if path = ''tags'' then is_string_array j
        else if path = ''dimensions'' then valid_dimensions j
        else if path = ''conditions'' then valid_conditions j
        else if path = ''constraints'' then valid_constraints j
        else if path \<in> {''constraints.avoidHumidity'', ''constraints.avoidWarmth'', ''constraints.foodOnly''}
        then is_bool j
        else if path = ''constraints.keepTogether'' then null_or_string j
        else if path = ''constraints.requiredTags'' then is_string_array j
        else if path = ''frequency'' then known_name (map frequency_name all_frequency) v
        else if path = ''kind'' then known_name (map location_kind_name all_location_kind) v
        else if path = ''captureStatus'' then known_name (map capture_status_name all_capture_status) v
        else if path = ''status'' then known_name (map plan_status_name all_plan_status) v
        else if path = ''steps'' then valid_plan_steps j
        else False)"

text \<open>The issues of one patch; a target that every object inherits has no \<open>has\<close> method.\<close>

definition patch_issues :: "json option \<Rightarrow> json \<Rightarrow> issue list option" where
  "patch_issues w j =
     (let m = record_of (Some j); t = string_of_opt (map_of m ''target'');
          path = (case string_or_none (map_of m ''path'') of None \<Rightarrow> [] | Some x \<Rightarrow> x);
          i = (case string_or_none (map_of m ''id'') of None \<Rightarrow> [] | Some x \<Rightarrow> x);
          head = require_string m ''id'' @ require_string m ''path'' in
      if \<not> is_record j then Some [an_issue ''PATCH'' ''Patch must be an object'']
      else if t \<in> set inherited_names \<or> t = ''constructor'' \<or> t = ''__proto__'' then None
      else if t \<notin> {''item'', ''location'', ''plan'', ''workspace''}
      then Some (head @ [an_issue ''PATCH'' ''Invalid patch target''])
      else Some (head @
        report (blank i) ''PATCH'' ''Patch target ID is required'' @
        report (path \<notin> set (patch_paths t)) ''PATCH_PATH''
          ''Backup history contains an unsupported or unsafe field path'' @
        report (t = ''workspace'' \<and> satisfies is_record w \<and> map_of (record_of w) ''id'' \<noteq> Some (JStr i))
          ''PATCH_TARGET'' ''Workspace patch targets another workspace'' @
        concat (map (\<lambda>side.
            report (map_of m side \<noteq> None \<and> \<not> valid_patch_value t path (map_of m side) i)
              ''PATCH_VALUE'' (''Backup history has an invalid '' @ side @ '' value''))
          [''before'', ''after''])))"

fun concat_options :: "'a list option list \<Rightarrow> 'a list option" where
  "concat_options [] = Some []"
| "concat_options (None # xs) = None"
| "concat_options (Some x # xs) = map_option (\<lambda>y. x @ y) (concat_options xs)"

definition activity_issues :: "json option \<Rightarrow> jsobj \<Rightarrow> bool \<Rightarrow> issue list option" where
  "activity_issues w m duplicate =
     map_option (\<lambda>rest.
        concat (map (require_string m) [''id'', ''actorId'', ''commandId'', ''label'', ''timestamp'']) @
        concat (map (\<lambda>k. report (blank_string (map_of m k)) ''ACTIVITY'' (k @ '' cannot be blank''))
          [''id'', ''actorId'', ''commandId'']) @
        report duplicate ''DUPLICATE_ID'' ''Duplicate activity id'' @
        report (map_of m ''status'' \<notin> {Some (JStr ''applied''), Some (JStr ''undone'')})
          ''ACTIVITY'' ''Invalid activity status'' @
        report (\<not> satisfies null_or_string (map_of m ''undoneAt''))
          ''ACTIVITY'' ''Undone timestamp must be a string or null'' @
        report (\<not> satisfies is_string_array (map_of m ''subjectIds''))
          ''ACTIVITY'' ''Subject ids must be strings'' @
        report (\<not> is_array_opt (map_of m ''patches'')) ''ACTIVITY'' ''Patches must be an array'' @ rest)
       (concat_options (map (patch_issues w) (elements_of (map_of m ''patches''))))"

fun activity_loop :: "json option \<Rightarrow> string list \<Rightarrow> json list \<Rightarrow> issue list option" where
  "activity_loop w ids [] = Some []"
| "activity_loop w ids (j # js) =
     (if \<not> is_record j
      then map_option (\<lambda>rest. an_issue ''ACTIVITY'' ''Activity must be an object'' # rest) (activity_loop w ids js)
      else
        let m = record_of (Some j); i = string_of_opt (map_of m ''id'');
            named = satisfies nonblank_string (map_of m ''id'') in
        concat_options [activity_issues w m (named \<and> i \<in> set ids),
                        activity_loop w (if named then i # ids else ids) js])"

definition named_ids :: "json list \<Rightarrow> string list" where
  "named_ids js = map (\<lambda>j. string_of_opt (jget ''id'' j)) (filter plan_named js)"

fun audit_loop :: "string list \<Rightarrow> string list \<Rightarrow> json list \<Rightarrow> issue list" where
  "audit_loop activities ids [] = []"
| "audit_loop activities ids (j # js) =
     (let m = record_of (Some j); i = string_of_opt (map_of m ''id'');
          named = satisfies nonblank_string (map_of m ''id'') in
      if \<not> is_record j then an_issue ''AUDIT'' ''Audit event must be an object'' # audit_loop activities ids js
      else
        concat (map (require_string m) [''id'', ''actorId'', ''label'', ''timestamp'']) @
        concat (map (\<lambda>k. report (blank_string (map_of m k)) ''AUDIT'' (k @ '' cannot be blank''))
          [''id'', ''actorId'']) @
        report (named \<and> i \<in> set ids) ''DUPLICATE_ID'' ''Duplicate audit id'' @
        report (\<not> known_name [''batch_redo'', ''batch_undo'', ''reapply'', ''undo''] (map_of m ''type''))
          ''AUDIT'' ''Invalid audit event type'' @
        (if \<not> satisfies is_string_array (map_of m ''targetActivityIds'')
         then [an_issue ''AUDIT'' ''Target activity ids must be strings'']
         else report (list_ex (\<lambda>a. js_String a \<notin> set activities) (elements_of (map_of m ''targetActivityIds'')))
                ''AUDIT'' ''Audit event references a missing activity'') @
        audit_loop activities (if named then i # ids else ids) js)"

section \<open>The validator\<close>

definition schema_version :: int where
  "schema_version = 2"

definition record_issues :: "json list \<Rightarrow> json list \<Rightarrow> json list \<Rightarrow> issue list" where
  "record_issues locs itms plans =
     location_loop [] [] locs @ concat (map (parent_issues locs) (records_by_id locs)) @
     item_loop locs [] itms @
     concat (map (known_empty_issues locs itms) (filter is_record locs)) @
     plan_loop locs itms [] plans @
     report (length (active_plans plans) > 1) ''MULTIPLE_ACTIVE_PLANS''
       ''A workspace can have only one active plan''"

definition header_issues :: "json \<Rightarrow> issue list" where
  "header_issues j =
     report (\<not> strict_eq (jget ''schemaVersion'' j) (Some (JNum (JsInt schema_version))))
       ''SCHEMA_VERSION'' ''Expected schema version 2'' @
     workspace_issues (jget ''workspace'' j) @
     concat (map (\<lambda>k. report (\<not> is_array_opt (jget k j)) ''ARRAY_REQUIRED'' (k @ '' must be an array''))
       [''activities'', ''audit'', ''items'', ''locations'', ''plans''])"

definition snapshot_issues :: "json \<Rightarrow> issue list option" where
  "snapshot_issues j =
     (let get = (\<lambda>k. elements_of (jget k j)); locs = get ''locations''; itms = get ''items'';
          plans = get ''plans'';
          first = header_issues j @ receipt_issues (jget ''commandReceipts'' j) @ record_issues locs itms plans;
          second = (if first = [] then concat (map (selection_pass locs itms) plans) else [])
      in concat_options
           [Some (first @ second), activity_loop (jget ''workspace'' j) [] (get ''activities''),
            Some (audit_loop (named_ids (get ''activities'')) [] (get ''audit''))])"

definition validate_snapshot :: "json \<Rightarrow> issue list option" where
  "validate_snapshot j =
     (if \<not> is_record j then Some [an_issue ''NOT_OBJECT'' ''Backup must be a JSON object'']
      else if list_ex (\<lambda>c. is_code c = ''ARRAY_REQUIRED'') (header_issues j) then Some (header_issues j)
      else snapshot_issues j)"

definition legacy_invariant_codes :: "string list" where
  "legacy_invariant_codes =
     [''ARCHIVED_LOCATION'', ''MULTIPLE_ACTIVE_PLANS'', ''NOT_EMPTY'', ''PARENT_ARCHIVED'',
      ''PLAN_DESTINATION'', ''PLAN_ITEM'', ''PLAN_LOCATION'', ''PLAN_SOURCE'', ''PLAN_STEP_STALE'']"

definition is_legacy_compatible_issue :: "issue \<Rightarrow> bool" where
  "is_legacy_compatible_issue c =
     (if is_code c = ''PLAN_STATUS'' then is_message c \<noteq> ''Invalid plan status''
      else if is_code c = ''PLAN_DESTINATION''
      then is_message c = ''Plan destination is missing or archived''
      else is_code c \<in> set legacy_invariant_codes)"

end
