(* ===== verification/History.thy ===== *)
theory History
  imports State_Json Snapshot
begin

text \<open>
  Undoing and reapplying recorded activities (\<open>src/domain/commands.ts\<close>): conflict detection,
  the version and timestamp touch, the final validation against the baseline of tolerated
  legacy issues, and the selection of activities by the batch commands.
\<close>

record command_result =
  cr_activity :: "activity option"
  cr_audit :: "audit_event option"
  cr_state :: wstate

datatype direction = Undoing | Reapplying

fun audit_direction :: "audit_type \<Rightarrow> direction" where
  "audit_direction Undo = Undoing"
| "audit_direction Batch_undo = Undoing"
| "audit_direction Reapply = Reapplying"
| "audit_direction Batch_redo = Reapplying"

definition directed_patches :: "direction \<Rightarrow> field_patch list \<Rightarrow> field_patch list" where
  "directed_patches d ps =
     (let meaningful = meaningful_patches ps
      in case d of Undoing \<Rightarrow> reverse_patches meaningful | Reapplying \<Rightarrow> meaningful)"

definition field_label :: "string \<Rightarrow> string" where
  "field_label path = (if path = [] then ''(entire record)'' else path)"

text \<open>\<open>historyConflicts\<close>: a patch whose old value is no longer there conflicts and is skipped.\<close>

fun history_conflicts :: "wstate \<Rightarrow> string \<Rightarrow> field_patch list \<Rightarrow> sync_conflict list result" where
  "history_conflicts working command_id [] = Inr []"
| "history_conflicts working command_id (p # ps) =
     and_then (read_patch_value working (fp_target p) (fp_id p) (fp_path p)) (\<lambda>current.
       if \<not> equal_opt current (fp_before p)
       then and_then (history_conflicts working command_id ps) (\<lambda>cs. Inr
              (\<lparr>sc_commandId = command_id, sc_current = current, sc_expected = fp_before p,
                sc_field = field_label (fp_path p), sc_id = fp_id p, sc_target = fp_target p\<rparr> # cs))
       else and_then (apply_field_patch working p) (\<lambda>working'. history_conflicts working' command_id ps))"

definition touched_ids :: "patch_target \<Rightarrow> field_patch list \<Rightarrow> string list" where
  "touched_ids t ps = uniq (map fp_id (filter (\<lambda>p. fp_path p \<noteq> [] \<and> fp_target p = t) ps))"

definition touch_item :: "string \<Rightarrow> wstate \<Rightarrow> string \<Rightarrow> wstate result" where
  "touch_item ts s i =
     (case find_item s i of
        None \<Rightarrow> Inr s
      | Some x \<Rightarrow> and_then (next_item_version x) (\<lambda>v. Inr
          (s\<lparr>ws_items := map_first (\<lambda>y. i_id y = i) (\<lambda>y. y\<lparr>i_version := v, i_updatedAt := ts\<rparr>) (ws_items s)\<rparr>)))"

definition touch_location :: "string \<Rightarrow> wstate \<Rightarrow> string \<Rightarrow> wstate" where
  "touch_location ts s i =
     s\<lparr>ws_locations := map_first (\<lambda>y. l_id y = i) (\<lambda>y. y\<lparr>l_updatedAt := ts\<rparr>) (ws_locations s)\<rparr>"

definition touch_history_records :: "wstate \<Rightarrow> field_patch list \<Rightarrow> string \<Rightarrow> wstate result" where
  "touch_history_records s ps ts =
     and_then (fold_result (touch_item ts) s (touched_ids Target_item ps)) (\<lambda>s'.
       Inr (foldl (touch_location ts) s' (touched_ids Target_location ps)))"

text \<open>One activity of a history command on the working state.\<close>

definition mark_activity :: "direction \<Rightarrow> string \<Rightarrow> string \<Rightarrow> wstate \<Rightarrow> wstate" where
  "mark_activity d ts i s =
     s\<lparr>ws_activities := map_first (\<lambda>a. a_id a = i)
         (\<lambda>a. case d of Undoing \<Rightarrow> a\<lparr>a_status := Undone, a_undoneAt := Some ts\<rparr>
                      | Reapplying \<Rightarrow> a\<lparr>a_status := Applied, a_undoneAt := None\<rparr>)
         (ws_activities s)\<rparr>"

definition expected_status :: "direction \<Rightarrow> activity_status" where
  "expected_status d = (case d of Undoing \<Rightarrow> Applied | Reapplying \<Rightarrow> Undone)"

definition replay_activity :: "direction \<Rightarrow> string \<Rightarrow> string \<Rightarrow> wstate \<Rightarrow> activity \<Rightarrow> wstate result" where
  "replay_activity d command_id ts working a =
     (if a_status a \<noteq> expected_status d then throw HISTORY_STATUS
      else
      and_then (history_conflicts working command_id (directed_patches d (a_patches a))) (\<lambda>cs.
      if cs \<noteq> [] then Inl (ConflictError cs)
      else
      and_then (apply_patches working (directed_patches d (a_patches a))) (\<lambda>applied.
      and_then (touch_history_records applied (meaningful_patches (a_patches a)) ts) (\<lambda>touched.
        Inr (mark_activity d ts (a_id a) touched)))))"

text \<open>
  The first issue of the outcome that is not tolerated: one that is no legacy issue, or one
  that occurs more often than before.
\<close>

definition issue_key :: "issue \<Rightarrow> string" where
  "issue_key c = is_code c @ '':'' @ is_message c"

definition compatible_baseline :: "issue list \<Rightarrow> string list" where
  "compatible_baseline cs =
     map issue_key (filter (\<lambda>c. is_error c \<and> is_legacy_compatible_issue c) cs)"

fun first_new_issue :: "string list \<Rightarrow> issue list \<Rightarrow> issue option" where
  "first_new_issue baseline [] = None"
| "first_new_issue baseline (c # cs) =
     (if \<not> is_error c then first_new_issue baseline cs
      else if \<not> is_legacy_compatible_issue c then Some c
      else if issue_key c \<notin> set baseline then Some c
      else first_new_issue (remove1 (issue_key c) baseline) cs)"

definition state_issues :: "wstate \<Rightarrow> issue list result" where
  "state_issues s = typed (validate_snapshot (json_of_state s))"

definition bump_revision :: "string \<Rightarrow> wstate \<Rightarrow> wstate" where
  "bump_revision ts s =
     s\<lparr>ws_workspace := (ws_workspace s)
         \<lparr>w_revision := js_add (w_revision (ws_workspace s)) (Fin 1), w_updatedAt := ts\<rparr>\<rparr>"

definition apply_history_action ::
  "wstate \<Rightarrow> envelope \<Rightarrow> audit_type \<Rightarrow> activity list \<Rightarrow> command_result result" where
  "apply_history_action s e type activities =
     (let d = audit_direction type; ts = e_timestamp e in
      and_then (state_issues s) (\<lambda>earlier.
      and_then (fold_result (replay_activity d (e_id e) ts) s activities) (\<lambda>working.
      and_then (state_issues working) (\<lambda>later.
      if first_new_issue (compatible_baseline earlier) later \<noteq> None then throw HISTORY_INVALID
      else
        let audit = \<lparr>u_actorId = e_actorId e, u_id = ''audit_'' @ e_id e,
              u_label = (case d of Undoing \<Rightarrow> ''Undid'' | Reapplying \<Rightarrow> ''Reapplied'') @ '' '' @
                digits_of (length activities) @ '' change'' @ plural_s (length activities),
              u_targetActivityIds = map a_id activities, u_timestamp = ts, u_type = type\<rparr>
        in Inr \<lparr>cr_activity = None, cr_audit = Some audit,
                cr_state = bump_revision ts (working\<lparr>ws_audit := ws_audit working @ [audit]\<rparr>)\<rparr>))))"

section \<open>Choosing the activities\<close>

definition valid_count :: "jsnum \<Rightarrow> bool" where
  "valid_count n \<longleftrightarrow> is_integer n \<and> \<not> js_less n (Fin 1)"

definition count_of :: "jsnum \<Rightarrow> nat" where
  "count_of n = nat \<lfloor>num_val n\<rfloor>"

text \<open>The latest applied activities, newest first.\<close>

definition undo_candidates :: "wstate \<Rightarrow> activity list" where
  "undo_candidates s = rev (filter (\<lambda>a. a_status a = Applied) (ws_activities s))"

text \<open>
  The undone activities in the order in which undoing named them, most recent first, and
  then those no undo event names.
\<close>

fun collect_undone :: "(string \<Rightarrow> activity option) \<Rightarrow> string list \<Rightarrow> string list \<Rightarrow> activity list" where
  "collect_undone undone selected [] = []"
| "collect_undone undone selected (i # ids) =
     (case undone i of
        None \<Rightarrow> collect_undone undone selected ids
      | Some a \<Rightarrow> if i \<in> set selected then collect_undone undone selected ids
                  else a # collect_undone undone (i # selected) ids)"

definition undone_targets :: "wstate \<Rightarrow> string list" where
  "undone_targets s =
     concat (map (\<lambda>u. rev (u_targetActivityIds u))
       (filter (\<lambda>u. u_type u = Undo \<or> u_type u = Batch_undo) (rev (ws_audit s))))"

definition redo_candidates :: "wstate \<Rightarrow> activity list" where
  "redo_candidates s =
     (let undone = filter (\<lambda>a. a_status a = Undone) (ws_activities s);
          named = collect_undone (\<lambda>i. List.find (\<lambda>a. a_id a = i) (rev undone)) [] (undone_targets s)
      in named @ filter (\<lambda>a. a_id a \<notin> a_id ` set named) undone)"

definition apply_history_command :: "wstate \<Rightarrow> envelope \<Rightarrow> command_result result" where
  "apply_history_command s e =
     (let single = (\<lambda>type i. case List.find (\<lambda>a. a_id a = i) (ws_activities s) of
            None \<Rightarrow> throw ACTIVITY_NOT_FOUND
          | Some a \<Rightarrow> apply_history_action s e type [a]);
          batch = (\<lambda>type n candidates.
            if \<not> valid_count n then throw INVALID_COUNT
            else let chosen = take (count_of n) candidates in
              if length chosen \<noteq> count_of n then throw HISTORY_RANGE
              else apply_history_action s e type chosen)
      in case e_command e of
           History_undo i \<Rightarrow> single Undo i
         | History_reapply i \<Rightarrow> single Reapply i
         | History_batchUndo n \<Rightarrow> batch Batch_undo n (undo_candidates s)
         | History_batchRedo n \<Rightarrow> batch Batch_redo n (redo_candidates s)
         | _ \<Rightarrow> throw UNSUPPORTED_HISTORY)"

end
