(* ===== verification/Apply_Command.thy ===== *)
theory Apply_Command
  imports Commands_Plan History
begin

text \<open>
  \<open>applyCommand\<close> (\<open>src/domain/commands.ts\<close>) and \<open>normalizeCommandEnvelope\<close>
  (\<open>src/domain/import.ts\<close>): the envelope is brought from the legacy item field to the current
  one and checked, the expectations are compared with the state, and then either a history
  command runs or the patches of the command's handler are applied, the activity is recorded
  and the revision grows by one.

  The parameter \<open>dp\<close> is \<open>Number.isFinite(Date.parse(t))\<close>, whose grammar the JavaScript engine
  decides.
\<close>

section \<open>The legacy item field\<close>

text \<open>\<open>normalizeItemDescription\<close> and \<open>normalizeItemFieldChanges\<close>, which do the same.\<close>

fun normalize_description :: "json \<Rightarrow> json" where
  "normalize_description (JObj m) =
     (case map_of m ''notes'' of
        None \<Rightarrow> JObj m
      | Some v \<Rightarrow> JObj (AList.delete ''notes''
          (if map_of m ''description'' = None then AList.update ''description'' v m else m)))"
| "normalize_description j = j"

definition normalize_expectation :: "field_expectation \<Rightarrow> field_expectation" where
  "normalize_expectation x =
     (if fe_target x \<noteq> Target_item then x
      else if fe_path x = ''notes'' then x\<lparr>fe_path := ''description''\<rparr>
      else if fe_path x = [] then x\<lparr>fe_value := normalize_description (fe_value x)\<rparr>
      else x)"

fun normalize_command :: "command \<Rightarrow> command" where
  "normalize_command (Item_create j) = Item_create (normalize_description j)"
| "normalize_command (Item_bulkCreate js r) = Item_bulkCreate (map normalize_description js) r"
| "normalize_command (Item_update i j) = Item_update i (normalize_description j)"
| "normalize_command c = c"

definition normalize_envelope :: "envelope \<Rightarrow> envelope" where
  "normalize_envelope e =
     e\<lparr>e_command := normalize_command (e_command e),
       e_expectations := map normalize_expectation (e_expectations e)\<rparr>"

section \<open>Checking the envelope\<close>

fun unknown_type :: "command \<Rightarrow> string option" where
  "unknown_type (Other_command t) = Some t"
| "unknown_type c = None"

fun starts_with :: "string \<Rightarrow> string \<Rightarrow> bool" where
  "starts_with [] s = True"
| "starts_with (c # cs) [] = False"
| "starts_with (c # cs) (d # ds) = (c = d \<and> starts_with cs ds)"

fun is_history_command :: "command \<Rightarrow> bool" where
  "is_history_command (History_undo i) = True"
| "is_history_command (History_reapply i) = True"
| "is_history_command (History_batchUndo n) = True"
| "is_history_command (History_batchRedo n) = True"
| "is_history_command (Other_command t) = starts_with ''history.'' t"
| "is_history_command c = False"

definition check_expectation :: "field_expectation \<Rightarrow> unit result" where
  "check_expectation x =
     (if blank (fe_id x) then throw INVALID_EXPECTATION
      else if fe_path x \<noteq> [] \<and> path_keys (fe_path x) = None then throw INVALID_PATCH
      else Inr ())"

definition validate_envelope :: "(string \<Rightarrow> bool) \<Rightarrow> envelope \<Rightarrow> unit result" where
  "validate_envelope dp e =
     (if blank (e_id e) \<or> blank (e_workspaceId e) \<or> blank (e_actorId e) \<or> blank (e_deviceId e) \<or>
         \<not> dp (e_timestamp e) \<or> \<not> is_safe_integer (e_baseRevision e) \<or>
         js_less (e_baseRevision e) (Fin 0) \<or>
         (case unknown_type (e_command e) of None \<Rightarrow> False | Some t \<Rightarrow> blank t)
      then throw INVALID_COMMAND
      else each_result check_expectation (e_expectations e))"

section \<open>Expectations\<close>

definition expectation_matches :: "json option \<Rightarrow> field_expectation \<Rightarrow> bool" where
  "expectation_matches current x \<longleftrightarrow>
     equal_opt current (Some (fe_value x)) \<or>
     (fe_target x = Target_item \<and> fe_path x = [] \<and> satisfies is_record current \<and>
      is_record (fe_value x) \<and> jget ''order'' (fe_value x) = None \<and>
      equal (JObj (AList.delete ''order'' (record_of current))) (fe_value x))"

fun expectation_conflicts ::
  "wstate \<Rightarrow> string \<Rightarrow> field_expectation list \<Rightarrow> sync_conflict list result" where
  "expectation_conflicts s command_id [] = Inr []"
| "expectation_conflicts s command_id (x # xs) =
     and_then (read_patch_value s (fe_target x) (fe_id x) (fe_path x)) (\<lambda>current.
     and_then (expectation_conflicts s command_id xs) (\<lambda>cs.
       Inr (if expectation_matches current x then cs
            else \<lparr>sc_commandId = command_id, sc_current = current, sc_expected = Some (fe_value x),
                  sc_field = field_label (fe_path x), sc_id = fe_id x, sc_target = fe_target x\<rparr> # cs)))"

section \<open>Applying a command\<close>

definition normal_patches :: "wstate \<Rightarrow> envelope \<Rightarrow> change result" where
  "normal_patches s e =
     (let ts = e_timestamp e in
      case e_command e of
        Workspace_rename nm \<Rightarrow> workspace_rename s nm
      | Location_create loc \<Rightarrow> location_create s ts loc
      | Location_update i changes reopen \<Rightarrow> location_update s ts i changes reopen
      | Location_move i parent order reopen \<Rightarrow> location_move s ts i parent order reopen
      | Location_reorder i order \<Rightarrow> location_reorder s ts i order
      | Location_archive i arch \<Rightarrow> location_archive s ts i arch
      | Location_delete i ds xs \<Rightarrow> location_delete s i ds xs
      | Capture_empty i xs \<Rightarrow> capture_empty s ts i xs
      | Capture_status i status \<Rightarrow> capture_status_set s ts i status
      | Item_create itm \<Rightarrow> item_create s ts itm
      | Item_bulkCreate itms reopen \<Rightarrow> item_bulk_create s ts itms reopen
      | Item_update i changes \<Rightarrow> item_update s ts i changes
      | Item_bulkUpdate updates reopen \<Rightarrow> item_bulk_update s ts updates reopen
      | Item_reorder i order \<Rightarrow> item_reorder s ts i order
      | Item_delete i \<Rightarrow> item_delete s i
      | Item_move i d q reopen \<Rightarrow> item_move s (e_id e) ts i d q reopen
      | Item_bulkMove d ids reopen \<Rightarrow> item_bulk_move s (e_id e) ts d ids reopen
      | Plan_create plan \<Rightarrow> plan_create s plan
      | Plan_step_complete p st \<Rightarrow> plan_step_complete s (e_id e) ts p st
      | Plan_set_status p status \<Rightarrow> plan_status_set s p status
      | _ \<Rightarrow> throw UNSUPPORTED_COMMAND)"

definition activity_of :: "envelope \<Rightarrow> change \<Rightarrow> activity" where
  "activity_of e c =
     \<lparr>a_actorId = e_actorId e, a_commandId = e_id e, a_id = ''activity_'' @ e_id e,
      a_label = ch_label c, a_patches = meaningful_patches (ch_patches c), a_status = Applied,
      a_subjectIds = uniq (ch_subjectIds c), a_timestamp = e_timestamp e, a_undoneAt = None\<rparr>"

definition apply_normal_command :: "wstate \<Rightarrow> envelope \<Rightarrow> command_result result" where
  "apply_normal_command s e =
     and_then (normal_patches s e) (\<lambda>c.
     and_then (apply_patches s (ch_patches c)) (\<lambda>t.
       let a = activity_of e c in
       Inr \<lparr>cr_activity = Some a, cr_audit = None,
            cr_state = bump_revision (e_timestamp e)
              (t\<lparr>ws_activities := ws_activities t @ [a]\<rparr>)\<rparr>))"

definition check_revision :: "wstate \<Rightarrow> envelope \<Rightarrow> unit result" where
  "check_revision s e =
     (let r = w_revision (ws_workspace s) in
      if \<not> is_safe_integer r \<or> js_le (JsInt max_safe) r then throw REVISION_EXHAUSTED
      else if js_less r (e_baseRevision e) then throw REVISION_AHEAD
      else Inr ())"

definition apply_command :: "(string \<Rightarrow> bool) \<Rightarrow> wstate \<Rightarrow> envelope \<Rightarrow> command_result result" where
  "apply_command dp s given =
     (let e = normalize_envelope given in
      and_then (validate_envelope dp e) (\<lambda>_.
      if e_workspaceId e \<noteq> w_id (ws_workspace s) then throw WRONG_WORKSPACE
      else
      and_then (check_revision s e) (\<lambda>_.
      and_then (expectation_conflicts s (e_id e) (e_expectations e)) (\<lambda>cs.
      if cs \<noteq> [] then Inl (ConflictError cs)
      else if is_history_command (e_command e) then apply_history_command s e
      else apply_normal_command s e))))"

section \<open>What an accepted command went through\<close>

lemma apply_command_accepted:
  assumes "apply_command dp s e = Inr r"
  shows "validate_envelope dp (normalize_envelope e) = Inr ()"
    and "e_workspaceId e = w_id (ws_workspace s)"
    and "check_revision s (normalize_envelope e) = Inr ()"
    and "expectation_conflicts s (e_id e) (map normalize_expectation (e_expectations e)) = Inr []"
    and "is_history_command (normalize_command (e_command e)) \<Longrightarrow>
         apply_history_command s (normalize_envelope e) = Inr r"
    and "\<not> is_history_command (normalize_command (e_command e)) \<Longrightarrow>
         apply_normal_command s (normalize_envelope e) = Inr r"
  using assms unfolding apply_command_def
  by (auto simp: and_then_eq_Inr normalize_envelope_def Let_def split: if_splits)

lemma apply_normal_command_Inr:
  "apply_normal_command s e = Inr r \<longleftrightarrow>
     (\<exists>c t. normal_patches s e = Inr c \<and> apply_patches s (ch_patches c) = Inr t \<and>
        r = \<lparr>cr_activity = Some (activity_of e c), cr_audit = None,
             cr_state = bump_revision (e_timestamp e)
               (t\<lparr>ws_activities := ws_activities t @ [activity_of e c]\<rparr>)\<rparr>)"
  by (auto simp: apply_normal_command_def and_then_eq_Inr Let_def)

end
