(* ===== verification/Patch_Effects.thy ===== *)
theory Patch_Effects
  imports Apply_Command
begin

text \<open>
  What field patches do to the collections of the state (\<open>applyFieldPatch\<close> and
  \<open>applyPatches\<close> of \<open>src/domain/commands.ts\<close>).

  The locale \<open>keyed_collection\<close> is the interface between patches and a collection of records:
  a codec for the record and an identifier that the encoding holds under \<open>id\<close>.  Its lemmas
  give the effect of a patch, the frame of the properties it does not name, and its undoing.
  Items, locations and plans interpret it.
\<close>

section \<open>Patches split by collection\<close>

abbreviation patch_locations :: "location list \<Rightarrow> field_patch \<Rightarrow> location list result" where
  "patch_locations ls p \<equiv> patch_collection location_obj location_of l_id p ls"

abbreviation patch_items :: "item list \<Rightarrow> field_patch \<Rightarrow> item list result" where
  "patch_items xs p \<equiv> patch_collection item_obj item_of i_id p xs"

abbreviation patch_plans :: "move_plan list \<Rightarrow> field_patch \<Rightarrow> move_plan list result" where
  "patch_plans xs p \<equiv> patch_collection plan_obj plan_of p_id p xs"

definition patches_of :: "patch_target \<Rightarrow> field_patch list \<Rightarrow> field_patch list" where
  "patches_of t ps = filter (\<lambda>p. fp_target p = t) ps"

lemma patches_of_simps [simp]:
  "patches_of t [] = []"
  "patches_of t (p # ps) = (if fp_target p = t then p # patches_of t ps else patches_of t ps)"
  "patches_of t (ps @ qs) = patches_of t ps @ patches_of t qs"
  by (simp_all add: patches_of_def)

lemma patches_of_none: "(\<And>p. p \<in> set ps \<Longrightarrow> fp_target p \<noteq> t) \<Longrightarrow> patches_of t ps = []"
  by (simp add: patches_of_def filter_empty_conv)

lemma patches_of_all: "(\<And>p. p \<in> set ps \<Longrightarrow> fp_target p = t) \<Longrightarrow> patches_of t ps = ps"
  by (simp add: patches_of_def)

lemma fold_result_eq_Inr_Cons:
  "fold_result f s (x # xs) = Inr t \<longleftrightarrow> (\<exists>u. f s x = Inr u \<and> fold_result f u xs = Inr t)"
  by (simp add: and_then_eq_Inr)

text \<open>An accepted patch list acts on every collection through the patches of that collection.\<close>

lemma apply_field_patch_split:
  "apply_field_patch s p = Inr u \<Longrightarrow>
     fold_result patch_locations (ws_locations s) (patches_of Target_location [p]) = Inr (ws_locations u) \<and>
     fold_result patch_items (ws_items s) (patches_of Target_item [p]) = Inr (ws_items u) \<and>
     fold_result patch_plans (ws_plans s) (patches_of Target_plan [p]) = Inr (ws_plans u) \<and>
     fold_result (\<lambda>w p. patch_workspace p w) (ws_workspace s) (patches_of Target_workspace [p])
       = Inr (ws_workspace u) \<and>
     ws_activities u = ws_activities s \<and> ws_audit u = ws_audit s \<and>
     ws_commandReceipts u = ws_commandReceipts s \<and> ws_schemaVersion u = ws_schemaVersion s"
  by (cases "fp_target p") (auto simp: and_then_eq_Inr)

lemma apply_patches_split:
  "apply_patches s ps = Inr t \<Longrightarrow>
     fold_result patch_locations (ws_locations s) (patches_of Target_location ps) = Inr (ws_locations t) \<and>
     fold_result patch_items (ws_items s) (patches_of Target_item ps) = Inr (ws_items t) \<and>
     fold_result patch_plans (ws_plans s) (patches_of Target_plan ps) = Inr (ws_plans t) \<and>
     fold_result (\<lambda>w p. patch_workspace p w) (ws_workspace s) (patches_of Target_workspace ps)
       = Inr (ws_workspace t) \<and>
     ws_activities t = ws_activities s \<and> ws_audit t = ws_audit s \<and>
     ws_commandReceipts t = ws_commandReceipts s \<and> ws_schemaVersion t = ws_schemaVersion s"
proof (induction ps arbitrary: s)
  case (Cons p ps)
  from Cons.prems obtain u where u: "apply_field_patch s p = Inr u" "apply_patches u ps = Inr t"
    by (auto simp: apply_patches_Cons and_then_eq_Inr)
  have split: "patches_of k (p # ps) = patches_of k [p] @ patches_of k ps" for k by simp
  show ?case
    unfolding split fold_result_append
    using apply_field_patch_split [OF u(1)] Cons.IH [OF u(2)] by (simp only: and_then_Inr)
qed simp

lemma apply_patches_untouched:
  assumes "apply_patches s ps = Inr t"
  shows "patches_of Target_location ps = [] \<Longrightarrow> ws_locations t = ws_locations s"
    and "patches_of Target_item ps = [] \<Longrightarrow> ws_items t = ws_items s"
    and "patches_of Target_plan ps = [] \<Longrightarrow> ws_plans t = ws_plans s"
    and "patches_of Target_workspace ps = [] \<Longrightarrow> ws_workspace t = ws_workspace s"
  using apply_patches_split [OF assms] by simp_all

text \<open>A list of item patches is accepted when the items accept it.\<close>

lemma apply_item_patches:
  "\<forall>p\<in>set ps. fp_target p = Target_item \<Longrightarrow>
   apply_patches s ps = and_then (fold_result patch_items (ws_items s) ps) (\<lambda>xs. Inr (s\<lparr>ws_items := xs\<rparr>))"
proof (induction ps arbitrary: s)
  case (Cons p ps)
  then show ?case by (cases "patch_items (ws_items s) p") (simp_all add: apply_patches_Cons)
qed simp

section \<open>Records under an identifier\<close>

text \<open>A value that deep comparison treats as identity.\<close>

fun atom :: "json \<Rightarrow> bool" where
  "atom (JArr xs) = False"
| "atom (JObj m) = False"
| "atom j = True"

lemma equal_atom: "atom a \<Longrightarrow> equal a j \<longleftrightarrow> j = a" "atom a \<Longrightarrow> equal j a \<longleftrightarrow> j = a"
  by (cases a; auto)+

lemma equal_opt_atom: "atom a \<Longrightarrow> equal_opt v (Some a) \<longleftrightarrow> v = Some a"
  "atom a \<Longrightarrow> equal_opt (Some a) v \<longleftrightarrow> v = Some a"
  by (auto simp: equal_opt_def equal_atom split: option.splits)

lemma map_first_const:
  "List.find p xs = Some x \<Longrightarrow> map_first p (\<lambda>_. f x) xs = map_first p f xs"
  by (induction xs) (auto split: if_splits)

lemma find_map_first:
  "List.find p xs = Some x \<Longrightarrow> p y \<Longrightarrow> List.find p (map_first p (\<lambda>_. y) xs) = Some y"
  by (induction xs) (auto split: if_splits)

lemma map_first_twice: "p y \<Longrightarrow> map_first p (\<lambda>_. z) (map_first p (\<lambda>_. y) xs) = map_first p (\<lambda>_. z) xs"
  by (induction xs) auto

lemma map_first_same: "List.find p xs = Some x \<Longrightarrow> map_first p (\<lambda>_. x) xs = xs"
  by (induction xs) (auto split: if_splits)

definition head_of :: "string \<Rightarrow> string" where
  "head_of path = (case path_keys path of Some (k # ks) \<Rightarrow> k | _ \<Rightarrow> [])"

definition entry_head :: "string \<times> json option \<times> json \<Rightarrow> string" where
  "entry_head e = head_of (fst e)"

lemma write_path_top:
  "path_keys k = Some [k] \<Longrightarrow>
   write_path m k v = Inr (JObj (case v of None \<Rightarrow> AList.delete k m | Some w \<Rightarrow> AList.update k w m))"
  by (simp add: write_path_def)

locale keyed_collection = codec "\<lambda>x. JObj (obj x)" dec
  for obj :: "'a \<Rightarrow> jsobj" and dec :: "json \<Rightarrow> 'a option" +
  fixes ident :: "'a \<Rightarrow> string"
  assumes ident_key: "map_of (obj x) ''id'' = Some (JStr (ident x))"
begin

lemma distinct_keys: "distinct (map fst (obj x))"
  using proper_enc [of x] by simp

text \<open>Decoding an object with the properties of a record, compared property by property.\<close>

lemma dec_field:
  assumes "dec (JObj m) = Some y" and "distinct (map fst m)"
  shows "equal_opt (map_of m k) (map_of (obj y) k)"
  using dec_sound [OF assms(1)] equal_JObj_iff [OF assms(2) distinct_keys] by blast

lemma dec_atom:
  assumes "dec (JObj m) = Some y" and "distinct (map fst m)" and "map_of m k = Some a" and "atom a"
  shows "map_of (obj y) k = Some a"
  using dec_field [OF assms(1,2), of k] assms(3,4) by (simp add: equal_opt_atom)

text \<open>The effect of a property patch, where the new record is known.\<close>

lemma property_effect:
  assumes "List.find (\<lambda>x. ident x = i) xs = Some x" and "path_keys k = Some [k]"
    and "dec (JObj (AList.update k v (obj x))) = Some (f x)"
  shows "patch_property obj dec ident i k (Some v) xs = Inr (map_first (\<lambda>x. ident x = i) f xs)"
  using assms map_first_const [OF assms(1), of f]
  by (simp add: patch_property_def write_path_top)

lemma find_ident: "i \<in> ident ` set xs \<Longrightarrow> \<exists>x. List.find (\<lambda>x. ident x = i) xs = Some x"
  by (cases "List.find (\<lambda>x. ident x = i) xs") (auto simp: find_None_set)

lemma property_patch:
  assumes "i \<in> ident ` set xs" and "path_keys k = Some [k]"
    and "\<And>x. dec (JObj (AList.update k v (obj x))) = Some (f x)"
  shows "patch_collection obj dec ident (mk_patch t i k b (Some v)) xs
    = Inr (map_first (\<lambda>x. ident x = i) f xs)"
proof -
  obtain x where "List.find (\<lambda>x. ident x = i) xs = Some x" using find_ident [OF assms(1)] by blast
  then show ?thesis
    using property_effect [where f = f, OF _ assms(2) assms(3)] assms(2)
    by (auto simp: patch_collection_def path_keys_def)
qed

lemma delete_patch:
  "patch_collection obj dec ident (mk_patch t i [] b None) xs = Inr (remove_first (\<lambda>x. ident x = i) xs)"
  by (simp add: patch_collection_def patch_whole_def)

lemma create_patch:
  assumes "i \<notin> ident ` set xs"
  shows "patch_collection obj dec ident (mk_patch t i [] b (Some j)) xs =
    and_then (typed (dec j)) (\<lambda>y. Inr (xs @ [y]))"
proof -
  have "List.find (\<lambda>x. ident x = i) xs = None" using assms by (auto simp: find_None_set)
  then show ?thesis by (simp add: patch_collection_def patch_whole_def)
qed

text \<open>
  Any accepted property patch replaces the record by one that keeps every atomic property
  outside the patched one, and holds an atomic value written at the top level.
\<close>

definition patched :: "string \<Rightarrow> json option \<Rightarrow> 'a \<Rightarrow> 'a \<Rightarrow> bool" where
  "patched path v x y \<longleftrightarrow>
     (\<exists>k ks. path_keys path = Some (k # ks) \<and>
        (\<forall>k' a. k' \<noteq> k \<longrightarrow> atom a \<longrightarrow> map_of (obj x) k' = Some a \<longrightarrow> map_of (obj y) k' = Some a) \<and>
        (ks = [] \<longrightarrow> (\<forall>a. v = Some a \<longrightarrow> atom a \<longrightarrow> map_of (obj y) k = Some a)))"

lemma property_step:
  assumes "patch_property obj dec ident i path v xs = Inr ys"
  obtains x y where "List.find (\<lambda>x. ident x = i) xs = Some x"
    and "ys = map_first (\<lambda>x. ident x = i) (\<lambda>_. y) xs" and "patched path v x y"
proof -
  from assms obtain x j y where x: "List.find (\<lambda>x. ident x = i) xs = Some x"
    and j: "write_path (obj x) path v = Inr j" and y: "dec j = Some y"
    and ys: "ys = map_first (\<lambda>x. ident x = i) (\<lambda>_. y) xs"
    by (auto simp: patch_property_def and_then_eq_Inr split: option.splits)
  from j obtain ks m where ks: "path_keys path = Some ks" and m: "write_keys ks v (obj x) = Some m"
    and j': "j = JObj m"
    by (auto simp: write_path_def split: option.splits)
  from m obtain k ks' where k: "ks = k # ks'" by (cases ks) auto
  have d: "distinct (map fst m)" by (rule write_keys_distinct [OF m distinct_keys])
  have "map_of (obj y) k' = Some a" if "k' \<noteq> k" "atom a" "map_of (obj x) k' = Some a" for k' a
    using dec_atom [OF y [unfolded j'] d, of k' a] write_keys_other [OF m [unfolded k] that(1)] that by simp
  moreover have "map_of (obj y) k = Some a" if "ks' = []" "v = Some a" "atom a" for a
    using dec_atom [OF y [unfolded j'] d, of k a] m k that by (auto simp: update_conv')
  ultimately have "patched path v x y"
    unfolding patched_def using ks k by blast
  with x ys show ?thesis by (rule that)
qed

lemma patched_keeps:
  "patched path v x y \<Longrightarrow> k \<noteq> head_of path \<Longrightarrow> atom a \<Longrightarrow> map_of (obj x) k = Some a \<Longrightarrow>
   map_of (obj y) k = Some a"
  by (auto simp: patched_def head_of_def)

lemma patched_ident:
  assumes "patched path v x y" and "head_of path \<noteq> ''id''"
  shows "ident y = ident x"
  using patched_keeps [OF assms(1) _ _ ident_key] assms(2) ident_key [of y] by auto

text \<open>A run of property patches of one record.\<close>

definition run_result :: "(string \<times> json option \<times> json) list \<Rightarrow> 'a \<Rightarrow> 'a \<Rightarrow> bool" where
  "run_result es x y \<longleftrightarrow>
     (\<forall>k a. k \<notin> entry_head ` set es \<longrightarrow> atom a \<longrightarrow> map_of (obj x) k = Some a \<longrightarrow> map_of (obj y) k = Some a) \<and>
     (distinct (map entry_head es) \<longrightarrow>
      (\<forall>e\<in>set es. path_keys (fst e) = Some [fst e] \<longrightarrow> atom (snd (snd e)) \<longrightarrow>
         map_of (obj y) (fst e) = Some (snd (snd e))))"

lemma run_result_step:
  assumes "patched (fst e) (Some (snd (snd e))) x w" and "run_result es w y"
  shows "run_result (e # es) x y"
proof -
  have "map_of (obj y) (fst e) = Some (snd (snd e))"
    if "entry_head e \<notin> entry_head ` set es" "path_keys (fst e) = Some [fst e]" "atom (snd (snd e))"
  proof -
    have "entry_head e = fst e" using that(2) by (simp add: entry_head_def head_of_def)
    moreover have "map_of (obj w) (fst e) = Some (snd (snd e))" using assms(1) that(2,3) by (auto simp: patched_def)
    ultimately show ?thesis using assms(2) that(1,3) by (simp add: run_result_def)
  qed
  with assms(2) show ?thesis
    unfolding run_result_def by (auto intro: patched_keeps [OF assms(1)] simp: entry_head_def)
qed

lemma entries_fold:
  assumes "fold_result (\<lambda>xs p. patch_collection obj dec ident p xs) xs (entry_patches t i es) = Inr ys"
    and "List.find (\<lambda>x. ident x = i) xs = Some x"
    and "\<forall>e\<in>set es. fst e \<noteq> [] \<and> entry_head e \<noteq> ''id''"
  shows "\<exists>y. ys = map_first (\<lambda>x. ident x = i) (\<lambda>_. y) xs \<and> ident y = i \<and> run_result es x y"
  using assms
proof (induction es arbitrary: xs x)
  case Nil
  then have "ident x = i" by (auto dest: find_SomeD)
  with Nil show ?case
    by (intro exI [of _ x]) (simp add: entry_patches_def map_first_same run_result_def)
next
  case (Cons e es)
  from Cons.prems(3) have k: "fst e \<noteq> []" "entry_head e \<noteq> ''id''" by auto
  from Cons.prems(1) obtain zs where
    z: "patch_property obj dec ident i (fst e) (Some (snd (snd e))) xs = Inr zs"
    and rest: "fold_result (\<lambda>xs p. patch_collection obj dec ident p xs) zs (entry_patches t i es) = Inr ys"
    using k(1) by (auto simp: entry_patches_def and_then_eq_Inr patch_collection_def split: prod.splits)
  from z Cons.prems(2) obtain w where w: "zs = map_first (\<lambda>x. ident x = i) (\<lambda>_. w) xs"
    and p: "patched (fst e) (Some (snd (snd e))) x w" by (elim property_step) simp
  have idw: "ident w = i"
    using patched_ident [OF p] k(2) Cons.prems(2) by (auto simp: entry_head_def dest: find_SomeD)
  have fw: "List.find (\<lambda>x. ident x = i) zs = Some w"
    unfolding w by (rule find_map_first [OF Cons.prems(2)]) (rule idw)
  have "\<forall>e\<in>set es. fst e \<noteq> [] \<and> entry_head e \<noteq> ''id''" using Cons.prems(3) by simp
  from Cons.IH [OF rest fw this] obtain y where
    y: "ys = map_first (\<lambda>x. ident x = i) (\<lambda>_. y) zs" "ident y = i" "run_result es w y" by blast
  then show ?case
    using run_result_step [OF p y(3)] w idw by (intro exI [of _ y]) (simp add: map_first_twice)
qed

end

interpretation location_records: keyed_collection location_obj location_of l_id
  by unfold_locales (simp add: location_obj_def)

interpretation item_records: keyed_collection item_obj item_of i_id
  by unfold_locales (simp add: item_obj_def)

interpretation plan_records: keyed_collection plan_obj plan_of p_id
  by unfold_locales (simp add: plan_obj_def)

section \<open>The patches handlers emit\<close>

lemma path_keys_names [simp]:
  "path_keys ''archivedAt'' = Some [''archivedAt'']"
  "path_keys ''captureStatus'' = Some [''captureStatus'']"
  "path_keys ''locationId'' = Some [''locationId'']"
  "path_keys ''name'' = Some [''name'']"
  "path_keys ''order'' = Some [''order'']"
  "path_keys ''parentId'' = Some [''parentId'']"
  "path_keys ''quantity'' = Some [''quantity'']"
  "path_keys ''status'' = Some [''status'']"
  "path_keys ''steps'' = Some [''steps'']"
  "path_keys ''updatedAt'' = Some [''updatedAt'']"
  "path_keys ''version'' = Some [''version'']"
  by (simp_all add: path_keys_simple unsafe_path_keys_def)

text \<open>Updates of the record under an identifier; identifiers stay.\<close>

definition set_location :: "string \<Rightarrow> (location \<Rightarrow> location) \<Rightarrow> location list \<Rightarrow> location list" where
  "set_location i f ls = map_first (\<lambda>l. l_id l = i) f ls"

definition set_item :: "string \<Rightarrow> (item \<Rightarrow> item) \<Rightarrow> item list \<Rightarrow> item list" where
  "set_item i f xs = map_first (\<lambda>x. i_id x = i) f xs"

definition set_plan :: "string \<Rightarrow> (move_plan \<Rightarrow> move_plan) \<Rightarrow> move_plan list \<Rightarrow> move_plan list" where
  "set_plan i f ps = map_first (\<lambda>p. p_id p = i) f ps"

lemma set_location_map:
  "distinct (map l_id ls) \<Longrightarrow> set_location i f ls = map (\<lambda>l. if l_id l = i then f l else l) ls"
  by (simp add: set_location_def map_first_key)

lemma set_item_map:
  "distinct (map i_id xs) \<Longrightarrow> set_item i f xs = map (\<lambda>x. if i_id x = i then f x else x) xs"
  by (simp add: set_item_def map_first_key)

lemma set_plan_map:
  "distinct (map p_id ps) \<Longrightarrow> set_plan i f ps = map (\<lambda>p. if p_id p = i then f p else p) ps"
  by (simp add: set_plan_def map_first_key)

lemma ids_set_location [simp]: "(\<And>l. l_id (f l) = l_id l) \<Longrightarrow> map l_id (set_location i f ls) = map l_id ls"
  by (simp add: set_location_def map_map_first_same)

lemma ids_set_item [simp]: "(\<And>x. i_id (f x) = i_id x) \<Longrightarrow> map i_id (set_item i f xs) = map i_id xs"
  by (simp add: set_item_def map_map_first_same)

lemma ids_set_plan [simp]: "(\<And>p. p_id (f p) = p_id p) \<Longrightarrow> map p_id (set_plan i f ps) = map p_id ps"
  by (simp add: set_plan_def map_map_first_same)

lemma set_location_twice:
  "(\<And>l. l_id (f l) = l_id l) \<Longrightarrow>
   set_location i g (set_location i f ls) = set_location i (\<lambda>l. g (f l)) ls"
  unfolding set_location_def by (induction ls) auto

lemma set_item_twice:
  "(\<And>x. i_id (f x) = i_id x) \<Longrightarrow> set_item i g (set_item i f xs) = set_item i (\<lambda>x. g (f x)) xs"
  unfolding set_item_def by (induction xs) auto

lemma set_plan_twice:
  "(\<And>p. p_id (f p) = p_id p) \<Longrightarrow> set_plan i g (set_plan i f ps) = set_plan i (\<lambda>p. g (f p)) ps"
  unfolding set_plan_def by (induction ps) auto

lemma location_patches:
  assumes "i \<in> l_id ` set ls"
  shows "patch_locations ls (location_patch i ''parentId'' b (json_of_nullable JStr p))
       = Inr (set_location i (\<lambda>l. l\<lparr>l_parentId := p\<rparr>) ls)"
    and "patch_locations ls (location_patch i ''updatedAt'' b (JStr t))
       = Inr (set_location i (\<lambda>l. l\<lparr>l_updatedAt := t\<rparr>) ls)"
    and "patch_locations ls (location_patch i ''order'' b (JNum q))
       = Inr (set_location i (\<lambda>l. l\<lparr>l_order := q\<rparr>) ls)"
    and "patch_locations ls (location_patch i ''archivedAt'' b (json_of_nullable JStr a))
       = Inr (set_location i (\<lambda>l. l\<lparr>l_archivedAt := a\<rparr>) ls)"
    and "patch_locations ls (location_patch i ''captureStatus'' b (JStr (capture_status_name c)))
       = Inr (set_location i (\<lambda>l. l\<lparr>l_captureStatus := c\<rparr>) ls)"
  unfolding set_location_def
  by (auto intro!: location_records.property_patch [OF assms] location_set_parentId location_set_updatedAt
      location_set_order location_set_archivedAt location_set_captureStatus simp: codec_simps)

lemma item_patches:
  assumes "i \<in> i_id ` set xs"
  shows "patch_items xs (item_patch i ''locationId'' b (JStr l))
       = Inr (set_item i (\<lambda>x. x\<lparr>i_locationId := l\<rparr>) xs)"
    and "patch_items xs (item_patch i ''updatedAt'' b (JStr t))
       = Inr (set_item i (\<lambda>x. x\<lparr>i_updatedAt := t\<rparr>) xs)"
    and "patch_items xs (item_patch i ''order'' b (JNum q)) = Inr (set_item i (\<lambda>x. x\<lparr>i_order := q\<rparr>) xs)"
    and "patch_items xs (item_patch i ''quantity'' b (JNum q))
       = Inr (set_item i (\<lambda>x. x\<lparr>i_quantity := q\<rparr>) xs)"
    and "patch_items xs (item_patch i ''version'' b (JNum v))
       = Inr (set_item i (\<lambda>x. x\<lparr>i_version := v\<rparr>) xs)"
  unfolding set_item_def
  by (auto intro!: item_records.property_patch [OF assms] item_set_locationId item_set_updatedAt
      item_set_order item_set_quantity item_set_version)

lemma plan_patches:
  assumes "i \<in> p_id ` set ps"
  shows "patch_plans ps (plan_patch i ''status'' b (JStr (plan_status_name c)))
       = Inr (set_plan i (\<lambda>p. p\<lparr>p_status := c\<rparr>) ps)"
    and "patch_plans ps (plan_patch i ''steps'' b (json_of_list json_of_step ss))
       = Inr (set_plan i (\<lambda>p. p\<lparr>p_steps := ss\<rparr>) ps)"
  unfolding set_plan_def
  by (auto intro!: plan_records.property_patch [OF assms] plan_set_status plan_set_steps simp: codec_simps)

section \<open>Progress patches\<close>

definition reopened :: "string \<Rightarrow> location \<Rightarrow> location" where
  "reopened ts l = l\<lparr>l_captureStatus := In_progress, l_updatedAt := ts\<rparr>"

definition reopen_all :: "string set \<Rightarrow> string \<Rightarrow> location list \<Rightarrow> location list" where
  "reopen_all R ts ls = map (\<lambda>l. if l_id l \<in> R then reopened ts l else l) ls"

text \<open>A list of progress patches and the identifiers of the live locations it concerns.\<close>

definition progresses :: "wstate \<Rightarrow> string \<Rightarrow> field_patch list \<Rightarrow> string set \<Rightarrow> bool" where
  "progresses s ts ps R \<longleftrightarrow>
     (\<exists>L. ps = concat (map (\<lambda>l. in_progress_patches l ts) L) \<and> R = l_id ` set L \<and>
          (\<forall>l\<in>set L. find_location s (l_id l) = Some l \<and> \<not> l_archived l))"

lemma reopened_sel [simp]:
  "l_id (reopened ts l) = l_id l" "l_parentId (reopened ts l) = l_parentId l"
  "l_archivedAt (reopened ts l) = l_archivedAt l" "l_code (reopened ts l) = l_code l"
  "l_captureStatus (reopened ts l) = In_progress"
  by (simp_all add: reopened_def)

lemma ids_reopen_all [simp]: "map l_id (reopen_all R ts ls) = map l_id ls"
  by (simp add: reopen_all_def)

lemma reopen_all_empty [simp]: "reopen_all {} ts ls = ls"
  by (simp add: reopen_all_def)

lemma progresses_Nil [simp]: "progresses s ts [] {}"
  unfolding progresses_def by (intro exI [of _ "[]"]) simp

lemma patches_of_progress:
  assumes "progresses s ts ps R"
  shows "patches_of Target_location ps = ps" and "patches_of Target_item ps = []"
    and "patches_of Target_plan ps = []" and "patches_of Target_workspace ps = []"
  using assms
  by (auto simp: progresses_def in_progress_patches_def intro!: patches_of_all patches_of_none)

lemma progress_fold:
  assumes "distinct (map l_id ls)" and "\<forall>l\<in>set L. l_id l \<in> l_id ` set ls"
  shows "fold_result patch_locations ls (concat (map (\<lambda>l. in_progress_patches l ts) L))
    = Inr (reopen_all (l_id ` set L) ts ls)"
  using assms
proof (induction L arbitrary: ls)
  case (Cons l L)
  let ?i = "l_id l"
  let ?one = "map (\<lambda>m. if l_id m = ?i then reopened ts m else m) ls"
  have i: "?i \<in> l_id ` set ls" using Cons.prems by simp
  have s1: "patch_locations ls (location_patch ?i ''captureStatus'' b (JStr ''in_progress''))
      = Inr (set_location ?i (\<lambda>l. l\<lparr>l_captureStatus := In_progress\<rparr>) ls)" for b
    using location_patches(5) [OF i, of b In_progress] by simp
  have ids: "map l_id (set_location ?i (\<lambda>l. l\<lparr>l_captureStatus := In_progress\<rparr>) ls) = map l_id ls"
    by simp
  then have "l_id ` set (set_location ?i (\<lambda>l. l\<lparr>l_captureStatus := In_progress\<rparr>) ls) = l_id ` set ls"
    by (metis set_map)
  with i have s2: "patch_locations (set_location ?i (\<lambda>l. l\<lparr>l_captureStatus := In_progress\<rparr>) ls)
      (location_patch ?i ''updatedAt'' b (JStr ts)) =
     Inr (set_location ?i (\<lambda>l. l\<lparr>l_updatedAt := ts\<rparr>)
       (set_location ?i (\<lambda>l. l\<lparr>l_captureStatus := In_progress\<rparr>) ls))" for b
    by (intro location_patches(2)) simp
  have one: "set_location ?i (\<lambda>l. l\<lparr>l_updatedAt := ts\<rparr>)
       (set_location ?i (\<lambda>l. l\<lparr>l_captureStatus := In_progress\<rparr>) ls) = ?one"
    by (subst set_location_twice) (simp_all add: set_location_map [OF Cons.prems(1)] reopened_def)
  have same: "map l_id ?one = map l_id ls" by simp
  from arg_cong [OF this, of set] have "l_id ` set ?one = l_id ` set ls" by (simp only: set_map)
  with same have "distinct (map l_id ?one)" "l_id ` set ?one = l_id ` set ls"
    using Cons.prems(1) by (simp_all only:)
  then have "distinct (map l_id ?one)" "\<forall>m\<in>set L. l_id m \<in> l_id ` set ?one"
    using Cons.prems(2) by simp_all
  from Cons.IH [OF this] have
    "fold_result patch_locations ls (concat (map (\<lambda>l. in_progress_patches l ts) (l # L)))
      = Inr (reopen_all (l_id ` set L) ts ?one)"
    by (simp add: in_progress_patches_def s1 s2 one)
  also have "reopen_all (l_id ` set L) ts ?one = reopen_all (l_id ` set (l # L)) ts ls"
    by (auto simp: reopen_all_def reopened_def)
  finally show ?case .
qed simp

lemma progresses_fold:
  assumes "progresses s ts ps R" and "distinct (map l_id ls)"
    and "l_id ` set (ws_locations s) \<subseteq> l_id ` set ls"
  shows "fold_result patch_locations ls ps = Inr (reopen_all R ts ls)"
  using assms by (auto simp: progresses_def dest!: find_locationD intro!: progress_fold)

lemma progresses_unique: "progresses s ts ps R \<Longrightarrow> progresses s ts ps R' \<Longrightarrow> R = R'"
proof -
  have "R = fp_id ` set ps" if "progresses s ts ps R" for R
    using that unfolding progresses_def in_progress_patches_def by (force simp: image_iff)
  then show "progresses s ts ps R \<Longrightarrow> progresses s ts ps R' \<Longrightarrow> R = R'" by blast
qed

lemma capture_progress:
  assumes "capture_progress_patches s i ts = Inr ps"
  obtains R l where "progresses s ts ps R" and "find_location s i = Some l" and "\<not> l_archived l"
    and "l_captureStatus l = Known_empty \<Longrightarrow> i \<in> R"
proof -
  from assms obtain l where l: "find_location s i = Some l" "\<not> l_archived l"
    and ps: "ps = (if l_captureStatus l \<noteq> Uncounted \<and> l_captureStatus l \<noteq> Known_empty then []
                   else in_progress_patches l ts)"
    by (auto simp: capture_progress_patches_def and_then_eq_Inr)
  have "l_id l = i" using l by (auto dest: find_locationD)
  with l have "progresses s ts (in_progress_patches l ts) {i}"
    unfolding progresses_def by (intro exI [of _ "[l]"]) simp
  with l ps show ?thesis
    by (cases "l_captureStatus l \<noteq> Uncounted \<and> l_captureStatus l \<noteq> Known_empty")
      (auto intro: that [of "{}"] that [of "{i}"])
qed

text \<open>The two bulk forms differ in the condition under which a space reopens.\<close>

lemma progress_of_each:
  assumes "map_result (\<lambda>i. and_then (require_active_location s i) (\<lambda>l.
             Inr (if C i l then in_progress_patches l ts else []))) ids = Inr pss"
  shows "\<exists>R. progresses s ts (concat pss) R \<and>
    (\<forall>i\<in>set ids. \<exists>l. find_location s i = Some l \<and> \<not> l_archived l \<and> (C i l \<longrightarrow> i \<in> R))"
  using assms
proof (induction ids arbitrary: pss)
  case Nil
  then show ?case by (intro exI [of _ "{}"]) simp
next
  case (Cons i ids)
  then obtain l qs where l: "find_location s i = Some l" "\<not> l_archived l" and
    pss: "pss = (if C i l then in_progress_patches l ts else []) # qs" and
    "map_result (\<lambda>i. and_then (require_active_location s i) (\<lambda>l.
             Inr (if C i l then in_progress_patches l ts else []))) ids = Inr qs"
    by (auto simp: and_then_eq_Inr)
  from Cons.IH [OF this(4)] obtain R where R: "progresses s ts (concat qs) R"
    "\<forall>j\<in>set ids. \<exists>l. find_location s j = Some l \<and> \<not> l_archived l \<and> (C j l \<longrightarrow> j \<in> R)"
    by blast
  have id: "l_id l = i" using l by (auto dest: find_locationD)
  show ?case
  proof (cases "C i l")
    case True
    from R(1) obtain L where "concat qs = concat (map (\<lambda>l. in_progress_patches l ts) L)"
      "R = l_id ` set L" "\<forall>l\<in>set L. find_location s (l_id l) = Some l \<and> \<not> l_archived l"
      by (auto simp: progresses_def)
    with True l id pss have "progresses s ts (concat pss) (insert i R)"
      unfolding progresses_def by (intro exI [of _ "l # L"]) simp
    with R(2) l show ?thesis by (intro exI [of _ "insert i R"]) auto
  next
    case False
    with R l pss show ?thesis by (intro exI [of _ R]) auto
  qed
qed

lemma bulk_move_progress:
  assumes "bulk_move_progress_patches s sources d ts = Inr ps"
  obtains R where "progresses s ts ps R"
    and "\<And>i. Some i \<in> set (sources @ [d]) \<Longrightarrow>
         \<exists>l. find_location s i = Some l \<and> \<not> l_archived l \<and> (capture_complete (l_captureStatus l) \<longrightarrow> i \<in> R)"
proof -
  from assms obtain pss where ps: "ps = concat pss" and
    "map_result (\<lambda>i. and_then (require_active_location s i) (\<lambda>l.
          Inr (if capture_complete (l_captureStatus l) \<or> (Some i = d \<and> l_captureStatus l = Uncounted)
               then in_progress_patches l ts else []))) (uniq (some_ids (sources @ [d]))) = Inr pss"
    by (auto simp: bulk_move_progress_patches_def and_then_eq_Inr)
  from progress_of_each [OF this(2)] obtain R where R: "progresses s ts (concat pss) R"
    "\<forall>i\<in>set (uniq (some_ids (sources @ [d]))). \<exists>l. find_location s i = Some l \<and> \<not> l_archived l \<and>
       (capture_complete (l_captureStatus l) \<or> Some i = d \<and> l_captureStatus l = Uncounted \<longrightarrow> i \<in> R)"
    by blast
  show ?thesis
  proof (rule that)
    show "progresses s ts ps R" using R(1) ps by simp
    fix i assume "Some i \<in> set (sources @ [d])"
    with R(2) have "\<exists>l. find_location s i = Some l \<and> \<not> l_archived l \<and>
       (capture_complete (l_captureStatus l) \<or> Some i = d \<and> l_captureStatus l = Uncounted \<longrightarrow> i \<in> R)"
      by simp
    then show "\<exists>l. find_location s i = Some l \<and> \<not> l_archived l \<and> (capture_complete (l_captureStatus l) \<longrightarrow> i \<in> R)"
      by blast
  qed
qed

lemma bulk_create_progress:
  assumes "bulk_create_progress_patches s ds ts reopen = Inr ps"
  obtains R where "progresses s ts ps R"
    and "\<And>i. i \<in> set ds \<Longrightarrow>
         \<exists>l. find_location s i = Some l \<and> \<not> l_archived l \<and>
             (reopen \<longrightarrow> capture_complete (l_captureStatus l) \<longrightarrow> i \<in> R)"
proof -
  from assms obtain pss where ps: "ps = concat pss" and
    "map_result (\<lambda>i. and_then (require_active_location s i) (\<lambda>l.
          Inr (if l_captureStatus l = Uncounted \<or> (reopen \<and> capture_complete (l_captureStatus l))
               then in_progress_patches l ts else []))) (uniq ds) = Inr pss"
    by (auto simp: bulk_create_progress_patches_def and_then_eq_Inr)
  from progress_of_each [OF this(2)] obtain R where R: "progresses s ts (concat pss) R"
    "\<forall>i\<in>set (uniq ds). \<exists>l. find_location s i = Some l \<and> \<not> l_archived l \<and>
       (l_captureStatus l = Uncounted \<or> (reopen \<and> capture_complete (l_captureStatus l)) \<longrightarrow> i \<in> R)"
    by blast
  show ?thesis
  proof (rule that)
    show "progresses s ts ps R" using R(1) ps by simp
    fix i assume "i \<in> set ds"
    with R(2) have "\<exists>l. find_location s i = Some l \<and> \<not> l_archived l \<and>
       (l_captureStatus l = Uncounted \<or> (reopen \<and> capture_complete (l_captureStatus l)) \<longrightarrow> i \<in> R)"
      by simp
    then show "\<exists>l. find_location s i = Some l \<and> \<not> l_archived l \<and>
        (reopen \<longrightarrow> capture_complete (l_captureStatus l) \<longrightarrow> i \<in> R)" by blast
  qed
qed

section \<open>Discarded plans\<close>

definition discard_all :: "string set \<Rightarrow> move_plan list \<Rightarrow> move_plan list" where
  "discard_all D ps = map (\<lambda>p. if p_id p \<in> D then p\<lparr>p_status := Discarded\<rparr> else p) ps"

lemma discard_fold:
  assumes "distinct (map p_id ps)" and "\<forall>q\<in>set Q. p_id q \<in> p_id ` set ps"
  shows "fold_result patch_plans ps (map discard_patch Q) = Inr (discard_all (p_id ` set Q) ps)"
  using assms
proof (induction Q arbitrary: ps)
  case Nil
  then show ?case by (simp add: discard_all_def)
next
  case (Cons q Q)
  let ?one = "map (\<lambda>p. if p_id p = p_id q then p\<lparr>p_status := Discarded\<rparr> else p) ps"
  have "patch_plans ps (discard_patch q) = Inr ?one"
    using plan_patches(1) [of "p_id q" ps "JStr (plan_status_name (p_status q))" Discarded] Cons.prems
    by (simp add: discard_patch_def set_plan_map)
  moreover have same: "map p_id ?one = map p_id ps" by simp
  from arg_cong [OF this, of set] have "p_id ` set ?one = p_id ` set ps" by (simp only: set_map)
  with same have "distinct (map p_id ?one)" "\<forall>r\<in>set Q. p_id r \<in> p_id ` set ?one"
    using Cons.prems by (simp_all only: list.set_map set_simps ball_simps) simp
  ultimately have "fold_result patch_plans ps (map discard_patch (q # Q))
      = Inr (discard_all (p_id ` set Q) ?one)"
    using Cons.IH by simp
  also have "discard_all (p_id ` set Q) ?one = discard_all (p_id ` set (q # Q)) ps"
    by (auto simp: discard_all_def)
  finally show ?case .
qed

lemma patches_of_discards [simp]:
  "patches_of Target_plan (map discard_patch Q) = map discard_patch Q"
  "patches_of Target_item (map discard_patch Q) = []"
  "patches_of Target_location (map discard_patch Q) = []"
  "patches_of Target_workspace (map discard_patch Q) = []"
  by (auto simp: discard_patch_def intro!: patches_of_all patches_of_none)

lemma patches_of_invalidation [simp]:
  "patches_of Target_plan (plan_invalidation_patches s xs ls) = plan_invalidation_patches s xs ls"
  "patches_of Target_item (plan_invalidation_patches s xs ls) = []"
  "patches_of Target_location (plan_invalidation_patches s xs ls) = []"
  "patches_of Target_workspace (plan_invalidation_patches s xs ls) = []"
  by (simp_all add: plan_invalidation_patches_def)

lemma patches_of_optional_invalidation [simp]:
  "patches_of Target_plan (if b then plan_invalidation_patches s xs ls else [])
     = (if b then plan_invalidation_patches s xs ls else [])"
  "patches_of Target_item (if b then plan_invalidation_patches s xs ls else []) = []"
  "patches_of Target_location (if b then plan_invalidation_patches s xs ls else []) = []"
  "patches_of Target_workspace (if b then plan_invalidation_patches s xs ls else []) = []"
  by simp_all

lemma invalidation_fold:
  assumes "distinct (map p_id (ws_plans s))"
  shows "fold_result patch_plans (ws_plans s) (plan_invalidation_patches s xs ls)
    = Inr (discard_all (p_id ` {p \<in> set (ws_plans s). plan_affected s xs ls p}) (ws_plans s))"
proof -
  let ?Q = "filter (plan_affected s xs ls) (ws_plans s)"
  have "p_id ` set ?Q = p_id ` {p \<in> set (ws_plans s). plan_affected s xs ls p}" by auto
  then show ?thesis
    using discard_fold [OF assms, of ?Q] by (simp add: plan_invalidation_patches_def)
qed

end
