(* ===== verification/Invariants.thy ===== *)
theory Invariants
  imports Patch_Effects
begin

text \<open>
  The invariant of a workspace state: the structural rules that the handlers of
  \<open>src/domain/commands.ts\<close> enforce and that \<open>validateSnapshot\<close> of \<open>src/domain/import.ts\<close>
  checks.  It is the conjunction of four predicates: the containment hierarchy, the items and
  their places, the spaces recorded as known empty, and the plans.

  The lemmas say on what each predicate depends, and how it fares under the updates that
  patches make.
\<close>

section \<open>The invariant\<close>

definition norm_code :: "location \<Rightarrow> string" where
  "norm_code l = js_upper (js_trim (l_code l))"

abbreviation live :: "location \<Rightarrow> bool" where
  "live l \<equiv> \<not> l_archived l"

definition parent_known :: "location list \<Rightarrow> location \<Rightarrow> bool" where
  "parent_known ls l \<longleftrightarrow> (case l_parentId l of None \<Rightarrow> True | Some p \<Rightarrow> p \<in> l_id ` set ls)"

definition live_parent :: "location list \<Rightarrow> location \<Rightarrow> bool" where
  "live_parent ls l \<longleftrightarrow> (live l \<longrightarrow> (\<forall>m\<in>set ls. l_parentId l = Some (l_id m) \<longrightarrow> live m))"

definition hierarchy_ok :: "location list \<Rightarrow> bool" where
  "hierarchy_ok ls \<longleftrightarrow>
     distinct (map l_id ls) \<and> (\<forall>l\<in>set ls. \<not> blank (l_id l)) \<and> (\<forall>l\<in>set ls. parent_known ls l) \<and>
     acyclic (child_rel ls) \<and> (\<forall>l\<in>set ls. live_parent ls l) \<and>
     distinct (map norm_code (filter live ls))"

definition item_ok :: "item \<Rightarrow> bool" where
  "item_ok x \<longleftrightarrow>
     is_finite (i_quantity x) \<and> js_less (Fin 0) (i_quantity x) \<and> num_ok (i_quantity x) \<and>
     is_safe_integer (i_version x) \<and> \<not> js_less (i_version x) (Fin 1)"

definition place_ok :: "location list \<Rightarrow> item \<Rightarrow> bool" where
  "place_ok ls x \<longleftrightarrow>
     i_locationId x \<in> l_id ` set ls \<and>
     (\<not> i_archived x \<longrightarrow> (\<forall>m\<in>set ls. l_id m = i_locationId x \<longrightarrow> live m))"

definition items_ok :: "location list \<Rightarrow> item list \<Rightarrow> bool" where
  "items_ok ls xs \<longleftrightarrow> distinct (map i_id xs) \<and> (\<forall>x\<in>set xs. item_ok x \<and> place_ok ls x)"

text \<open>No live item lies in the location and no live location is nested in it.\<close>

definition holds_nothing :: "location list \<Rightarrow> item list \<Rightarrow> string \<Rightarrow> bool" where
  "holds_nothing ls xs i \<longleftrightarrow>
     (\<forall>x\<in>set xs. i_locationId x = i \<longrightarrow> i_archived x) \<and>
     (\<forall>l\<in>set ls. l_parentId l = Some i \<longrightarrow> l_archived l)"

definition empty_ok :: "location list \<Rightarrow> item list \<Rightarrow> bool" where
  "empty_ok ls xs \<longleftrightarrow>
     (\<forall>m\<in>set ls. l_captureStatus m = Known_empty \<longrightarrow> holds_nothing ls xs (l_id m))"

definition plans_ok :: "move_plan list \<Rightarrow> bool" where
  "plans_ok ps \<longleftrightarrow> distinct (map p_id ps) \<and> length (filter (\<lambda>p. p_status p = Active) ps) \<le> 1"

definition wf_state :: "wstate \<Rightarrow> bool" where
  "wf_state s \<longleftrightarrow>
     hierarchy_ok (ws_locations s) \<and> items_ok (ws_locations s) (ws_items s) \<and>
     empty_ok (ws_locations s) (ws_items s) \<and> plans_ok (ws_plans s)"

lemma wf_stateD:
  assumes "wf_state s"
  shows "hierarchy_ok (ws_locations s)" and "items_ok (ws_locations s) (ws_items s)"
    and "empty_ok (ws_locations s) (ws_items s)" and "plans_ok (ws_plans s)"
    and "distinct (map l_id (ws_locations s))" and "distinct (map i_id (ws_items s))"
    and "distinct (map p_id (ws_plans s))"
  using assms by (auto simp: wf_state_def hierarchy_ok_def items_ok_def plans_ok_def)

text \<open>Activities, audit, receipts and the workspace record play no part.\<close>

lemma wf_state_cong:
  "ws_locations t = ws_locations s \<Longrightarrow> ws_items t = ws_items s \<Longrightarrow> ws_plans t = ws_plans s \<Longrightarrow>
   wf_state t = wf_state s"
  by (simp add: wf_state_def)

section \<open>What the hierarchy depends on\<close>

definition skeleton :: "location \<Rightarrow> string \<times> string option \<times> bool \<times> string" where
  "skeleton l = (l_id l, l_parentId l, l_archived l, norm_code l)"

lemma skeleton_reopen_all [simp]: "map skeleton (reopen_all R ts ls) = map skeleton ls"
  by (auto simp: reopen_all_def skeleton_def norm_code_def)

lemma skeleton_transfer:
  assumes "map skeleton ls = map skeleton ls'" and "l \<in> set ls"
  obtains l' where "l' \<in> set ls'" and "skeleton l' = skeleton l"
proof -
  have "skeleton l \<in> set (map skeleton ls')" using assms by (metis image_eqI list.set_map)
  then show ?thesis using that by auto
qed

lemma ids_skeleton: "map skeleton ls = map skeleton ls' \<Longrightarrow> map l_id ls = map l_id ls'"
  by (drule arg_cong [of _ _ "map fst"]) (simp add: comp_def skeleton_def)

lemma codes_skeleton:
  assumes "map skeleton ls = map skeleton ls'"
  shows "map norm_code (filter live ls) = map norm_code (filter live ls')"
proof -
  have "map norm_code (filter live ms) =
        map (snd \<circ> snd \<circ> snd) (filter (\<lambda>q. \<not> fst (snd (snd q))) (map skeleton ms))" for ms
    by (induction ms) (simp_all add: skeleton_def)
  with assms show ?thesis by simp
qed

lemma child_rel_skeleton:
  assumes "map skeleton ls = map skeleton ls'"
  shows "child_rel ls = child_rel ls'"
proof -
  have "child_rel ms = {(p, i). \<exists>q\<in>set (map skeleton ms). fst q = i \<and> fst (snd q) = Some p}" for ms
    by (auto simp: child_rel_def skeleton_def)
  then show ?thesis by (simp only: assms)
qed

lemma hierarchy_ok_skeleton:
  assumes "map skeleton ls = map skeleton ls'" and "hierarchy_ok ls"
  shows "hierarchy_ok ls'"
proof -
  note t = skeleton_transfer [OF assms(1) [symmetric]]
  have ids: "map l_id ls' = map l_id ls" using ids_skeleton [OF assms(1)] by simp
  then have idset: "l_id ` set ls' = l_id ` set ls" by (metis list.set_map)
  have blanks: "\<not> blank (l_id l)" and parents: "parent_known ls' l" and lives: "live_parent ls' l"
    if "l \<in> set ls'" for l
  proof -
    from that obtain k where k: "k \<in> set ls" "skeleton k = skeleton l" by (rule t)
    then have eq: "l_id k = l_id l" "l_parentId k = l_parentId l" "l_archived k = l_archived l"
      by (simp_all add: skeleton_def)
    have "parent_known ls' l = parent_known ls k" 
      by (simp add: parent_known_def idset eq split: option.split)
    with k assms(2) show "\<not> blank (l_id l)" "parent_known ls' l"
      by (simp_all add: hierarchy_ok_def flip: eq)
    show "live_parent ls' l"
      unfolding live_parent_def
    proof (intro impI ballI)
      fix m assume m: "live l" "m \<in> set ls'" "l_parentId l = Some (l_id m)"
      from m(2) obtain n where n: "n \<in> set ls" "skeleton n = skeleton m" by (rule t)
      then have nm: "l_id n = l_id m" "l_archived n = l_archived m" by (simp_all add: skeleton_def)
      have "live_parent ls k" using assms(2) k(1) by (simp add: hierarchy_ok_def)
      moreover have "live k" "l_parentId k = Some (l_id n)" using m(1,3) eq nm(1) by simp_all
      ultimately have "live n" using n(1) unfolding live_parent_def by blast
      then show "live m" using nm(2) by simp
    qed
  qed
  show ?thesis
    unfolding hierarchy_ok_def
    using assms(2) ids codes_skeleton [OF assms(1)] child_rel_skeleton [OF assms(1)] blanks parents lives
    by (simp add: hierarchy_ok_def)
qed

lemma place_ok_skeleton:
  assumes "map skeleton ls = map skeleton ls'" and "place_ok ls x"
  shows "place_ok ls' x"
proof -
  have "l_id ` set ls' = l_id ` set ls" using ids_skeleton [OF assms(1)] by (metis list.set_map)
  moreover have "live m" if "\<not> i_archived x" "m \<in> set ls'" "l_id m = i_locationId x" for m
  proof -
    from that(2) obtain n where n: "n \<in> set ls" "skeleton n = skeleton m"
      by (rule skeleton_transfer [OF assms(1) [symmetric]])
    then have "l_id n = l_id m" "l_archived n = l_archived m" by (simp_all add: skeleton_def)
    with that n(1) assms(2) show ?thesis by (auto simp: place_ok_def)
  qed
  ultimately show ?thesis using assms(2) by (simp add: place_ok_def)
qed

lemma items_ok_skeleton:
  "map skeleton ls = map skeleton ls' \<Longrightarrow> items_ok ls xs \<Longrightarrow> items_ok ls' xs"
  by (auto simp: items_ok_def intro: place_ok_skeleton)

lemma holds_nothing_skeleton:
  assumes "map skeleton ls = map skeleton ls'"
  shows "holds_nothing ls xs i \<longleftrightarrow> holds_nothing ls' xs i"
proof -
  have "(\<forall>l\<in>set ms. l_parentId l = Some i \<longrightarrow> l_archived l) \<longleftrightarrow>
        (\<forall>q\<in>set (map skeleton ms). fst (snd q) = Some i \<longrightarrow> fst (snd (snd q)))" for ms
    by (simp add: skeleton_def)
  with assms show ?thesis by (simp only: holds_nothing_def)
qed

section \<open>Reopening and discarding\<close>

text \<open>
  After reopening the spaces \<open>R\<close>, a known-empty space is one that was known empty and is not
  in \<open>R\<close>.
\<close>

lemma empty_ok_reopen:
  assumes "\<And>m. m \<in> set ls \<Longrightarrow> l_captureStatus m = Known_empty \<Longrightarrow> l_id m \<notin> R \<Longrightarrow> holds_nothing ls xs (l_id m)"
  shows "empty_ok (reopen_all R ts ls) xs"
  unfolding empty_ok_def
proof (intro ballI impI)
  fix m assume m: "m \<in> set (reopen_all R ts ls)" "l_captureStatus m = Known_empty"
  then have "m \<in> set ls" "l_id m \<notin> R"
    by (auto simp: reopen_all_def split: if_splits)
  with m assms have "holds_nothing ls xs (l_id m)" by blast
  then show "holds_nothing (reopen_all R ts ls) xs (l_id m)"
    using holds_nothing_skeleton [OF skeleton_reopen_all] by blast
qed

lemma plans_ok_discard: "plans_ok ps \<Longrightarrow> plans_ok (discard_all D ps)"
proof -
  assume ok: "plans_ok ps"
  have "map p_id (discard_all D ps) = map p_id ps" by (simp add: discard_all_def)
  moreover have "length (filter (\<lambda>p. p_status p = Active) (discard_all D ps))
      \<le> length (filter (\<lambda>p. p_status p = Active) ps)"
    by (induction ps) (auto simp: discard_all_def)
  ultimately show ?thesis using ok by (simp add: plans_ok_def)
qed

lemma plans_ok_discard_fold:
  assumes "plans_ok (ws_plans s)"
    and "fold_result patch_plans (ws_plans s) (plan_invalidation_patches s is ls) = Inr ps"
  shows "plans_ok ps"
  using assms plans_ok_discard by (auto simp: invalidation_fold plans_ok_def [of "ws_plans s"])

end
