(* ===== verification/Expectations.thy ===== *)
theory Expectations
  imports Apply_Command Invariants
begin

text \<open>
  \<open>expectationsForCommand\<close> (\<open>src/domain/expectations.ts\<close>): the fields a client has seen when
  it issues a command, with their values, which the command carries so that it is refused when
  another device has changed them in the meantime.

  A change that names something the record does not have (\<open>undefined\<close> in the code, which the
  expectation's type excludes) leaves the model, as does a payload that is not an object.

  The lemmas show that every expectation is met by the state it was computed from.
\<close>

section \<open>Expectations of one record\<close>

definition property_of :: "jsobj \<Rightarrow> string \<Rightarrow> json result" where
  "property_of m path =
     (if path = [] then Inr (JObj m) else typed (map_of m path))"

definition expect_field :: "patch_target \<Rightarrow> string \<Rightarrow> jsobj \<Rightarrow> string \<Rightarrow> field_expectation result" where
  "expect_field t i m path =
     and_then (property_of m path) (\<lambda>v. Inr \<lparr>fe_id = i, fe_path = path, fe_target = t, fe_value = v\<rparr>)"

definition location_expectation :: "location \<Rightarrow> string \<Rightarrow> field_expectation result" where
  "location_expectation l path = expect_field Target_location (l_id l) (location_obj l) path"

definition item_expectation :: "item \<Rightarrow> string \<Rightarrow> field_expectation result" where
  "item_expectation x path = expect_field Target_item (i_id x) (item_obj x) path"

definition plan_expectation :: "move_plan \<Rightarrow> string \<Rightarrow> field_expectation result" where
  "plan_expectation p path = expect_field Target_plan (p_id p) (plan_obj p) path"

text \<open>The one nested path: a leaf of an item's constraints.\<close>

definition constraint_expectation :: "item \<Rightarrow> string \<Rightarrow> field_expectation result" where
  "constraint_expectation x key =
     and_then (typed (map_of (constraints_obj (i_constraints x)) key)) (\<lambda>v.
       Inr \<lparr>fe_id = i_id x, fe_path = ''constraints.'' @ key, fe_target = Target_item, fe_value = v\<rparr>)"

definition workspace_expectation :: "workspace \<Rightarrow> string \<Rightarrow> json \<Rightarrow> field_expectation" where
  "workspace_expectation w path v = \<lparr>fe_id = w_id w, fe_path = path, fe_target = Target_workspace, fe_value = v\<rparr>"

section \<open>Lists of expectations\<close>

definition flat_result :: "('a \<Rightarrow> 'b list result) \<Rightarrow> 'a list \<Rightarrow> 'b list result" where
  "flat_result f xs = and_then (map_result f xs) (\<lambda>yss. Inr (concat yss))"

definition append_results :: "'a list result \<Rightarrow> 'a list result \<Rightarrow> 'a list result" where
  "append_results m n = and_then m (\<lambda>xs. and_then n (\<lambda>ys. Inr (xs @ ys)))"

text \<open>\<open>Object.keys(value)\<close> of a payload.\<close>

definition payload_keys :: "json \<Rightarrow> string list result" where
  "payload_keys j = (case j of JObj m \<Rightarrow> Inr (map fst m) | _ \<Rightarrow> Inl Unmodelled)"

definition capture_expectations :: "wstate \<Rightarrow> (string \<Rightarrow> bool) \<Rightarrow> field_expectation list result" where
  "capture_expectations s named =
     map_result (\<lambda>l. location_expectation l ''captureStatus'') (filter (\<lambda>l. named (l_id l)) (ws_locations s))"

definition whole_items :: "wstate \<Rightarrow> string list \<Rightarrow> field_expectation list result" where
  "whole_items s ids = map_result (\<lambda>x. item_expectation x []) (filter (\<lambda>x. i_id x \<in> set ids) (ws_items s))"

text \<open>A new parent: the capture status of the old and the new one is expected too.\<close>

definition hierarchy_parent_expectations :: "wstate \<Rightarrow> location \<Rightarrow> json option \<Rightarrow> field_expectation list result" where
  "hierarchy_parent_expectations s l parent =
     (if parent = None \<or> parent = Some (json_of_nullable JStr (l_parentId l)) then Inr []
      else capture_expectations s (\<lambda>i. l_parentId l = Some i \<or> parent = Some (JStr i)))"

section \<open>Expectations of a command\<close>

definition with_location ::
  "wstate \<Rightarrow> string \<Rightarrow> (location \<Rightarrow> field_expectation list result) \<Rightarrow> field_expectation list result" where
  "with_location s i f = (case find_location s i of None \<Rightarrow> Inr [] | Some l \<Rightarrow> f l)"

definition with_item ::
  "wstate \<Rightarrow> string \<Rightarrow> (item \<Rightarrow> field_expectation list result) \<Rightarrow> field_expectation list result" where
  "with_item s i f = (case find_item s i of None \<Rightarrow> Inr [] | Some x \<Rightarrow> f x)"

definition with_plan ::
  "wstate \<Rightarrow> string \<Rightarrow> (move_plan \<Rightarrow> field_expectation list result) \<Rightarrow> field_expectation list result" where
  "with_plan s i f = (case find_plan s i of None \<Rightarrow> Inr [] | Some p \<Rightarrow> f p)"

definition bulk_update_expectations :: "item \<Rightarrow> json \<Rightarrow> field_expectation list result" where
  "bulk_update_expectations x changes =
     append_results (map_result (item_expectation x) [''locationId'', ''archivedAt''])
       (and_then (payload_keys changes) (flat_result (\<lambda>path.
          if path = ''constraints''
          then (case jget ''constraints'' changes of
                  None \<Rightarrow> Inr []
                | Some JNull \<Rightarrow> Inr []
                | Some ks \<Rightarrow> and_then (payload_keys ks) (map_result (constraint_expectation x)))
          else map_result (item_expectation x) [path])))"

definition located_item :: "wstate \<Rightarrow> string \<Rightarrow> string \<Rightarrow> bool" where
  "located_item s loc i \<longleftrightarrow> (case find_item s i of None \<Rightarrow> False | Some x \<Rightarrow> i_locationId x = loc)"

definition destination_of :: "json \<Rightarrow> json option result" where
  "destination_of j = (if j = JNull then Inl Unmodelled else Inr (jget ''locationId'' j))"

fun expectations_for_command :: "wstate \<Rightarrow> command \<Rightarrow> field_expectation list result" where
  "expectations_for_command s (Workspace_rename nm) =
     Inr [workspace_expectation (ws_workspace s) ''name'' (JStr (w_name (ws_workspace s)))]"
| "expectations_for_command s (Location_update i changes reopen) = with_location s i (\<lambda>l.
     append_results (and_then (payload_keys changes) (map_result (location_expectation l)))
       (hierarchy_parent_expectations s l (jget ''parentId'' changes)))"
| "expectations_for_command s (Location_move i parent order reopen) = with_location s i (\<lambda>l.
     append_results (map_result (location_expectation l) [''parentId'', ''order''])
       (hierarchy_parent_expectations s l (Some (json_of_nullable JStr parent))))"
| "expectations_for_command s (Location_reorder i order) = with_location s i (\<lambda>l.
     map_result (location_expectation l) [''parentId'', ''order''])"
| "expectations_for_command s (Location_archive i arch) = with_location s i (\<lambda>l.
     map_result (location_expectation l) [''archivedAt''])"
| "expectations_for_command s (Capture_empty i ids) = with_location s i (\<lambda>l.
     append_results (map_result (location_expectation l) [''captureStatus'']) (whole_items s ids))"
| "expectations_for_command s (Capture_status i status) = with_location s i (\<lambda>l.
     map_result (location_expectation l) [''captureStatus''])"
| "expectations_for_command s (Location_delete i descendants ids) = with_location s i (\<lambda>l.
     append_results
       (map_result (\<lambda>c. location_expectation c []) (filter (\<lambda>c. l_id c \<in> set (i # descendants)) (ws_locations s)))
       (whole_items s ids))"
| "expectations_for_command s (Item_update i changes) = with_item s i (\<lambda>x.
     and_then (payload_keys changes) (map_result (item_expectation x)))"
| "expectations_for_command s (Item_reorder i order) = with_item s i (\<lambda>x.
     map_result (item_expectation x) [''order'', ''version''])"
| "expectations_for_command s (Item_move i d q reopen) = with_item s i (\<lambda>x.
     append_results (map_result (item_expectation x) [''locationId'', ''quantity'', ''version''])
       (capture_expectations s (\<lambda>l. reopens reopen \<and> l \<in> {i_locationId x, d})))"
| "expectations_for_command s (Item_delete i) = with_item s i (\<lambda>x. map_result (item_expectation x) [[]])"
| "expectations_for_command s (Item_bulkUpdate updates reopen) =
     append_results
       (flat_result (\<lambda>(i, changes). with_item s i (\<lambda>x. bulk_update_expectations x changes)) updates)
       (flat_result (\<lambda>l. map_result (location_expectation l) [''captureStatus'', ''archivedAt''])
          (filter (\<lambda>l. list_ex (located_item s (l_id l)) (map fst updates)) (ws_locations s)))"
| "expectations_for_command s (Item_bulkCreate itms reopen) =
     and_then (map_result destination_of itms) (\<lambda>ds.
       capture_expectations s (\<lambda>l. Some (JStr l) \<in> set ds))"
| "expectations_for_command s (Item_bulkMove d ids reopen) =
     append_results (flat_result (\<lambda>i. with_item s i (\<lambda>x.
         map_result (item_expectation x) [''locationId'', ''version''])) ids)
       (capture_expectations s (\<lambda>l. reopens reopen \<and> (l = d \<or> list_ex (located_item s l) ids)))"
| "expectations_for_command s (Plan_create plan) =
     Inr [workspace_expectation (ws_workspace s) ''revision'' (JNum (w_revision (ws_workspace s)))]"
| "expectations_for_command s (Plan_set_status i status) = with_plan s i (\<lambda>p.
     map_result (plan_expectation p) [''status''])"
| "expectations_for_command s (Plan_step_complete i st) = with_plan s i (\<lambda>p.
     map_result (plan_expectation p) [''status'', ''steps''])"
| "expectations_for_command s c = Inr []"

section \<open>Expectations are met by the state they were computed from\<close>

definition met_by :: "wstate \<Rightarrow> field_expectation \<Rightarrow> bool" where
  "met_by s x \<longleftrightarrow> read_patch_value s (fe_target x) (fe_id x) (fe_path x) = Inr (Some (fe_value x)) \<and>
     proper (fe_value x) \<and> normalize_expectation x = x"

definition all_met :: "wstate \<Rightarrow> field_expectation list result \<Rightarrow> bool" where
  "all_met s m \<longleftrightarrow> (\<forall>xs. m = Inr xs \<longrightarrow> (\<forall>x\<in>set xs. met_by s x))"

lemma met_no_conflict:
  assumes "\<forall>x\<in>set xs. met_by s x"
  shows "expectation_conflicts s c (map normalize_expectation xs) = Inr []"
  using assms
proof (induction xs)
  case (Cons x xs)
  then have f: "met_by s x" by simp
  then have "expectation_matches (Some (fe_value x)) x"
    by (simp add: met_by_def expectation_matches_def equal_opt_def equal_refl)
  with f Cons show ?case by (simp add: met_by_def)
qed simp

named_theorems met_intros "expectations that the state they come from meets"

lemma all_met_Nil [met_intros]: "all_met s (Inr [])"
  by (simp add: all_met_def)

lemma all_met_one: "met_by s x \<Longrightarrow> all_met s (Inr [x])"
  by (simp add: all_met_def)

lemma all_met_append [met_intros]: "all_met s m \<Longrightarrow> all_met s n \<Longrightarrow> all_met s (append_results m n)"
  by (auto simp: all_met_def append_results_def and_then_eq_Inr)

lemma all_met_bind [met_intros]:
  "(\<And>x. m = Inr x \<Longrightarrow> all_met s (f x)) \<Longrightarrow> all_met s (and_then m f)"
  by (auto simp: all_met_def and_then_eq_Inr)

lemma map_result_witness: "map_result f xs = Inr ys \<Longrightarrow> y \<in> set ys \<Longrightarrow> \<exists>x\<in>set xs. f x = Inr y"
  by (induction xs arbitrary: ys) (auto simp: and_then_eq_Inr)

lemma all_met_map [met_intros]:
  "(\<And>x y. x \<in> set xs \<Longrightarrow> f x = Inr y \<Longrightarrow> met_by s y) \<Longrightarrow> all_met s (map_result f xs)"
  by (auto simp: all_met_def dest: map_result_witness)

lemma all_met_flat [met_intros]:
  "(\<And>x. x \<in> set xs \<Longrightarrow> all_met s (f x)) \<Longrightarrow> all_met s (flat_result f xs)"
  by (fastforce simp: all_met_def flat_result_def and_then_eq_Inr dest: map_result_witness)

lemma met_field:
  assumes "expect_field t i m path = Inr x" and "entity_for s t i = Some (JObj m)" and "proper (JObj m)"
    and "\<And>k. k \<in> set (map fst m) \<Longrightarrow> path_keys k = Some [k]"
    and "\<And>j. normalize_expectation \<lparr>fe_id = i, fe_path = path, fe_target = t, fe_value = j\<rparr> =
           \<lparr>fe_id = i, fe_path = path, fe_target = t, fe_value = j\<rparr> \<or> map_of m path = None \<and> (path \<noteq> [] \<or> j \<noteq> JObj m)"
  shows "met_by s x"
proof (cases "path = []")
  case True
  then have "x = \<lparr>fe_id = i, fe_path = [], fe_target = t, fe_value = JObj m\<rparr>"
    using assms(1) by (simp add: expect_field_def property_of_def)
  with True assms(2,3) assms(5) [of "JObj m"] show ?thesis
    by (auto simp: met_by_def read_patch_value_def read_path_def)
next
  case False
  then obtain v where v: "map_of m path = Some v" and x: "x = \<lparr>fe_id = i, fe_path = path, fe_target = t, fe_value = v\<rparr>"
    using assms(1) by (auto simp: expect_field_def property_of_def and_then_eq_Inr)
  from v have mem: "(path, v) \<in> set m" by (rule map_of_SomeD)
  then have "path \<in> set (map fst m)" by force
  with assms(4) have "path_keys path = Some [path]" by blast
  moreover from mem assms(3) have "proper v" by (auto simp: list_all_iff)
  ultimately show ?thesis using False assms(2) assms(5) [of v] v x
    by (auto simp: met_by_def read_patch_value_def read_path_def)
qed


lemma location_keys_are_paths: "k \<in> set location_keys \<Longrightarrow> path_keys k = Some [k]"
  by (auto simp: location_keys_def intro!: path_keys_simple simp: unsafe_path_keys_def)

lemma item_keys_are_paths: "k \<in> set item_keys \<Longrightarrow> path_keys k = Some [k]"
  by (auto simp: item_keys_def intro!: path_keys_simple simp: unsafe_path_keys_def)

lemma plan_keys_are_paths: "k \<in> set (plan_keys @ [''selection'']) \<Longrightarrow> path_keys k = Some [k]"
  by (auto simp: plan_keys_def intro!: path_keys_simple simp: unsafe_path_keys_def)

lemma keys_location_obj: "map fst (location_obj l) = location_keys"
  by (simp add: location_obj_def location_keys_def)

lemma keys_item_obj: "map fst (item_obj x) = item_keys"
  by (simp add: item_obj_def item_keys_def)

lemma met_location:
  assumes "distinct (map l_id (ws_locations s))" and "l \<in> set (ws_locations s)"
    and "location_expectation l path = Inr x"
  shows "met_by s x"
proof (rule met_field [OF assms(3) [unfolded location_expectation_def]])
  show "entity_for s Target_location (l_id l) = Some (JObj (location_obj l))"
    using find_key_unique [OF assms(1,2) refl] by (simp add: find_location_def)
  show "path_keys k = Some [k]" if "k \<in> set (map fst (location_obj l))" for k
    using that location_keys_are_paths by (simp only: keys_location_obj)
qed (simp_all only: location_codec.proper_enc, simp add: normalize_expectation_def)

lemma met_item:
  assumes "distinct (map i_id (ws_items s))" and "y \<in> set (ws_items s)" and "item_expectation y path = Inr x"
  shows "met_by s x"
proof (rule met_field [OF assms(3) [unfolded item_expectation_def]])
  show "entity_for s Target_item (i_id y) = Some (JObj (item_obj y))"
    using find_key_unique [OF assms(1,2) refl] by (simp add: find_item_def)
  show "path_keys k = Some [k]" if "k \<in> set (map fst (item_obj y))" for k
    using that item_keys_are_paths by (simp only: keys_item_obj)
  have "''notes'' \<notin> set (map fst (item_obj y))" by (simp add: keys_item_obj item_keys_def del: set_map)
  then have none: "map_of (item_obj y) ''notes'' = None" by (simp add: map_of_eq_None_iff)
  then show "normalize_expectation \<lparr>fe_id = i_id y, fe_path = path, fe_target = Target_item, fe_value = j\<rparr> =
      \<lparr>fe_id = i_id y, fe_path = path, fe_target = Target_item, fe_value = j\<rparr> \<or>
      map_of (item_obj y) path = None \<and> (path \<noteq> [] \<or> j \<noteq> JObj (item_obj y))" for j
    by (auto simp: normalize_expectation_def item_obj_def)
qed (simp only: item_codec.proper_enc)

lemma met_plan:
  assumes "distinct (map p_id (ws_plans s))" and "p \<in> set (ws_plans s)" and "plan_expectation p path = Inr x"
  shows "met_by s x"
proof (rule met_field [OF assms(3) [unfolded plan_expectation_def]])
  show "entity_for s Target_plan (p_id p) = Some (JObj (plan_obj p))"
    using find_key_unique [OF assms(1,2) refl] by (simp add: find_plan_def)
  show "path_keys k = Some [k]" if "k \<in> set (map fst (plan_obj p))" for k
  proof (rule plan_keys_are_paths)
    show "k \<in> set (plan_keys @ [''selection''])" using that by (auto simp: keys_plan_obj simp del: set_map split: if_splits)
  qed
qed (simp_all only: plan_codec.proper_enc, simp add: normalize_expectation_def)

lemma met_constraint:
  assumes "distinct (map i_id (ws_items s))" and "y \<in> set (ws_items s)" and "constraint_expectation y key = Inr x"
  shows "met_by s x"
proof -
  let ?k = "constraints_obj (i_constraints y)"
  from assms(3) obtain v where v: "map_of ?k key = Some v"
    and x: "x = \<lparr>fe_id = i_id y, fe_path = ''constraints.'' @ key, fe_target = Target_item, fe_value = v\<rparr>"
    by (auto simp: constraint_expectation_def and_then_eq_Inr)
  from v have mem: "(key, v) \<in> set ?k" by (rule map_of_SomeD)
  then have "key \<in> {''avoidHumidity'', ''avoidWarmth'', ''foodOnly'', ''keepTogether'', ''requiredTags''}"
    by (auto simp: constraints_obj_def)
  then have path: "path_keys (''constraints.'' @ key) = Some [''constraints'', key]"
    by (auto simp: path_keys_def unsafe_path_keys_def)
  have "proper (JObj ?k)" by (rule constraints_codec.proper_enc)
  with mem have "proper v" by (auto simp: list_all_iff)
  moreover have "find_item s (i_id y) = Some y"
    using find_key_unique [OF assms(1,2) refl] by (simp add: find_item_def)
  moreover have "map_of (item_obj y) ''constraints'' = Some (JObj ?k)" by (simp add: item_obj_def)
  ultimately show ?thesis using v path
    by (simp add: met_by_def x read_patch_value_def read_path_def normalize_expectation_def)
qed

lemma met_workspace:
  "met_by s (workspace_expectation (ws_workspace s) ''name'' (JStr (w_name (ws_workspace s))))"
  "met_by s (workspace_expectation (ws_workspace s) ''revision'' (JNum (w_revision (ws_workspace s))))"
  by (simp_all add: met_by_def workspace_expectation_def read_patch_value_def read_path_def path_keys_simple
      unsafe_path_keys_def workspace_obj_def normalize_expectation_def)

lemma all_met_capture [met_intros]:
  "distinct (map l_id (ws_locations s)) \<Longrightarrow> all_met s (capture_expectations s P)"
  unfolding capture_expectations_def by (rule all_met_map) (auto intro: met_location)

lemma all_met_parents [met_intros]:
  "distinct (map l_id (ws_locations s)) \<Longrightarrow> all_met s (hierarchy_parent_expectations s l parent)"
  by (simp add: hierarchy_parent_expectations_def met_intros)

lemma all_met_with [met_intros]:
  "(\<And>l. l \<in> set (ws_locations s) \<Longrightarrow> all_met s (f l)) \<Longrightarrow> all_met s (with_location s i f)"
  "(\<And>x. x \<in> set (ws_items s) \<Longrightarrow> all_met s (g x)) \<Longrightarrow> all_met s (with_item s i g)"
  "(\<And>p. p \<in> set (ws_plans s) \<Longrightarrow> all_met s (h p)) \<Longrightarrow> all_met s (with_plan s i h)"
  by (auto simp: with_location_def with_item_def with_plan_def find_location_def find_item_def find_plan_def
      all_met_Nil dest: find_SomeD split: option.splits)

lemma all_met_whole [met_intros]:
  "distinct (map i_id (ws_items s)) \<Longrightarrow> all_met s (whole_items s ids)"
  unfolding whole_items_def by (rule all_met_map) (auto intro: met_item)

lemma all_met_bulk [met_intros]:
  assumes "distinct (map i_id (ws_items s))" and "x \<in> set (ws_items s)"
  shows "all_met s (bulk_update_expectations x changes)"
  unfolding bulk_update_expectations_def
  by (intro met_intros) (auto intro!: met_intros split: option.split json.split
      intro: all_met_one met_item [OF assms] met_constraint [OF assms])

lemma expectations_met:
  assumes "distinct (map l_id (ws_locations s))" and "distinct (map i_id (ws_items s))"
    and "distinct (map p_id (ws_plans s))"
  shows "all_met s (expectations_for_command s c)"
proof (cases c)
  case (Workspace_rename nm)
  then show ?thesis using met_workspace by (simp add: all_met_def)
next
  case (Plan_create nm)
  then show ?thesis using met_workspace by (simp add: all_met_def)
next
  case (Location_delete i ds xs)
  show ?thesis unfolding Location_delete expectations_for_command.simps
    by (intro met_intros assms) (auto intro: met_location [OF assms(1)])
next
  case (Item_bulkUpdate us r)
  show ?thesis unfolding Item_bulkUpdate expectations_for_command.simps
    by (intro met_intros) (auto intro!: met_intros assms intro: met_location [OF assms(1)])
next
  case (Item_bulkMove us r)
  show ?thesis unfolding Item_bulkMove expectations_for_command.simps
    by (intro met_intros assms) (auto intro: met_item [OF assms(2)])
qed (auto simp only: expectations_for_command.simps
  intro!: met_intros assms intro: met_location [OF assms(1)] met_item [OF assms(2)] met_plan [OF assms(3)])

text \<open>So a command that carries them is never refused as a conflict by that state.\<close>

lemma expectations_no_conflict:
  assumes "wf_state s" and "expectations_for_command s c = Inr xs"
  shows "expectation_conflicts s i (map normalize_expectation xs) = Inr []"
  using expectations_met [OF wf_stateD(5-7) [OF assms(1)], of c] assms(2)
  by (intro met_no_conflict) (simp add: all_met_def)

end
