(* ===== verification/Json_Text.thy ===== *)
theory Json_Text
  imports State_Json
begin

text \<open>
  The text \<open>JSON.stringify\<close> writes for a value and its size in UTF-8, which the program
  measures snapshots by (\<open>serializedJsonBytes\<close> of \<open>src/domain/snapshot-quota-usage.ts\<close>,
  \<open>serializedBytes\<close> of \<open>src/domain/history-retention.ts\<close>), and the usage counts of a snapshot.
  The size does not depend on the order of the properties of an object.
\<close>

section \<open>Text\<close>

definition hex_digit :: "nat \<Rightarrow> char" where
  "hex_digit n = (if n < 10 then char_of (48 + n) else char_of (87 + n))"

definition quote_char :: "char \<Rightarrow> string" where
  "quote_char c =
     (let n = (of_char c :: nat) in
      if n = 34 then [char_of (92::nat), c]
      else if n = 92 then [char_of (92::nat), c]
      else if n = 8 then [char_of (92::nat), CHR ''b'']
      else if n = 9 then [char_of (92::nat), CHR ''t'']
      else if n = 10 then [char_of (92::nat), CHR ''n'']
      else if n = 12 then [char_of (92::nat), CHR ''f'']
      else if n = 13 then [char_of (92::nat), CHR ''r'']
      else if n < 32 then char_of (92::nat) # ''u00'' @ [hex_digit (n div 16), hex_digit (n mod 16)]
      else [c])"

definition quoted :: "string \<Rightarrow> string" where
  "quoted s = char_of (34::nat) # concat (map quote_char s) @ [char_of (34::nat)]"

fun json_text :: "json \<Rightarrow> string" where
  "json_text JNull = ''null''"
| "json_text (JBool b) = (if b then ''true'' else ''false'')"
| "json_text (JNum n) = (if is_finite n then num_to_string n else ''null'')"
| "json_text (JStr s) = quoted s"
| "json_text (JArr xs) = ''['' @ join_with '','' (map json_text xs) @ '']''"
| "json_text (JObj m) = ''{'' @ join_with '','' (map (\<lambda>(k, v). quoted k @ '':'' @ json_text v) m) @ ''}''"

text \<open>\<open>new TextEncoder().encode(json).byteLength\<close>: characters above 127 take two bytes.\<close>

definition utf8_length :: "string \<Rightarrow> nat" where
  "utf8_length s = sum_list (map (\<lambda>c. if (of_char c :: nat) < 128 then 1 else 2) s)"

definition serialized_bytes :: "json \<Rightarrow> nat" where
  "serialized_bytes j = utf8_length (json_text j)"

section \<open>Usage of a snapshot\<close>

record quota_usage =
  qu_activities :: nat
  qu_activityPatches :: nat
  qu_auditEvents :: nat
  qu_commandReceipts :: nat
  qu_items :: nat
  qu_locations :: nat
  qu_plans :: nat
  qu_planSteps :: nat
  qu_storedBytes :: nat

definition array_length :: "string \<Rightarrow> json \<Rightarrow> nat" where
  "array_length k j = (case jget k j of Some (JArr xs) \<Rightarrow> length xs | _ \<Rightarrow> 0)"

definition nested_array_count :: "string \<Rightarrow> string \<Rightarrow> json \<Rightarrow> nat" where
  "nested_array_count collection k j =
     (case jget collection j of Some (JArr xs) \<Rightarrow> sum_list (map (array_length k) xs) | _ \<Rightarrow> 0)"

definition snapshot_quota_usage :: "json \<Rightarrow> quota_usage" where
  "snapshot_quota_usage j =
     \<lparr>qu_activities = array_length ''activities'' j,
      qu_activityPatches = nested_array_count ''activities'' ''patches'' j,
      qu_auditEvents = array_length ''audit'' j,
      qu_commandReceipts = array_length ''commandReceipts'' j,
      qu_items = array_length ''items'' j, qu_locations = array_length ''locations'' j,
      qu_plans = array_length ''plans'' j, qu_planSteps = nested_array_count ''plans'' ''steps'' j,
      qu_storedBytes = serialized_bytes j\<rparr>"

text \<open>The usage of a typed state: what the lengths of its collections say.\<close>

lemma array_length_list [simp]: "jget k j = Some (json_of_list enc xs) \<Longrightarrow> array_length k j = length xs"
  by (simp add: array_length_def json_of_list_def)

lemma state_usage:
  "qu_activities (snapshot_quota_usage (json_of_state s)) = length (ws_activities s)"
  "qu_activityPatches (snapshot_quota_usage (json_of_state s)) = sum_list (map (\<lambda>a. length (a_patches a)) (ws_activities s))"
  "qu_auditEvents (snapshot_quota_usage (json_of_state s)) = length (ws_audit s)"
  "qu_commandReceipts (snapshot_quota_usage (json_of_state s)) = length (ws_commandReceipts s)"
  "qu_items (snapshot_quota_usage (json_of_state s)) = length (ws_items s)"
  "qu_locations (snapshot_quota_usage (json_of_state s)) = length (ws_locations s)"
  "qu_plans (snapshot_quota_usage (json_of_state s)) = length (ws_plans s)"
  "qu_planSteps (snapshot_quota_usage (json_of_state s)) = sum_list (map (\<lambda>p. length (p_steps p)) (ws_plans s))"
  by (simp_all add: snapshot_quota_usage_def array_length_def nested_array_count_def json_of_state_def json_of_list_def
      json_of_activity_def plan_obj_def comp_def)

end
