(* ===== verification/Factories.thy ===== *)
theory Factories
  imports Expectations Json_Text "HOL-Library.Word"
begin

text \<open>
  The builders of \<open>src/domain/factories.ts\<close>: identifiers, an empty workspace, locations, items
  and command envelopes with their defaults.

  The clock and the source of random bytes are parameters: a timestamp, and the text or the
  sixteen bytes of a fresh identifier.

  The lemmas show that an identifier has the shape of a version 4 UUID and determines the
  random bits it was made from, that a new record is well typed, and that a command built from
  a state is met by that state.
\<close>

unbundle bit_operations_syntax

section \<open>Identifiers\<close>

type_synonym byte = "8 word"

text \<open>\<open>byte.toString(16).padStart(2, "0")\<close>.\<close>

definition two_hex :: "byte \<Rightarrow> string" where
  "two_hex b = [hex_digit (unat b div 16), hex_digit (unat b mod 16)]"

definition stamp_version :: "byte list \<Rightarrow> byte list" where
  "stamp_version bs = bs[6 := ((bs ! 6) AND 0x0F) OR 0x40, 8 := ((bs ! 8) AND 0x3F) OR 0x80]"

definition hex_text :: "byte list \<Rightarrow> string" where
  "hex_text bs = concat (map two_hex bs)"

definition sub_list :: "nat \<Rightarrow> nat \<Rightarrow> 'a list \<Rightarrow> 'a list" where
  "sub_list i j xs = take (j - i) (drop i xs)"

definition uuid_v4 :: "byte list \<Rightarrow> string" where
  "uuid_v4 bytes =
     (let bs = stamp_version bytes in
      join_with ''-'' [hex_text (sub_list 0 4 bs), hex_text (sub_list 4 6 bs), hex_text (sub_list 6 8 bs),
                       hex_text (sub_list 8 10 bs), hex_text (sub_list 10 16 bs)])"

definition new_id :: "string \<Rightarrow> string \<Rightarrow> string" where
  "new_id prefix uuid = prefix @ ''_'' @ uuid"

section \<open>Records\<close>

definition default_item_category :: string where
  "default_item_category = ''Uncategorized''"

definition default_item_unit :: string where
  "default_item_unit = ''each''"

definition default_conditions :: conditions where
  "default_conditions =
     \<lparr>c_dark = False, c_dry = True, c_foodSafe = False, c_humidity = Humidity_normal,
      c_temperature = Temperature_normal\<rparr>"

definition default_constraints :: constraints where
  "default_constraints =
     \<lparr>k_avoidHumidity = False, k_avoidWarmth = False, k_foodOnly = False, k_keepTogether = None,
      k_requiredTags = []\<rparr>"

definition create_empty_state :: "string option \<Rightarrow> string \<Rightarrow> string \<Rightarrow> wstate" where
  "create_empty_state name ts uuid =
     \<lparr>ws_activities = [], ws_audit = [], ws_commandReceipts = [], ws_items = [], ws_locations = [],
      ws_plans = [], ws_schemaVersion = schema_version,
      ws_workspace = \<lparr>w_createdAt = ts, w_id = new_id ''ws'' uuid,
        w_name = (case name of None \<Rightarrow> ''My home'' | Some n \<Rightarrow> n), w_revision = Fin 0, w_updatedAt = ts\<rparr>\<rparr>"

record location_draft =
  ld_code :: string
  ld_kind :: "location_kind option"
  ld_name :: string
  ld_order :: "jsnum option"
  ld_parentId :: "string option"

definition create_location :: "location_draft \<Rightarrow> string \<Rightarrow> string \<Rightarrow> location" where
  "create_location d ts uuid =
     \<lparr>l_archivedAt = None, l_captureStatus = Uncounted, l_code = js_upper (js_trim (ld_code d)),
      l_conditions = default_conditions, l_createdAt = ts, l_description = [], l_dimensions = None,
      l_id = new_id ''loc'' uuid, l_kind = (case ld_kind d of None \<Rightarrow> Container | Some k \<Rightarrow> k),
      l_name = js_trim (ld_name d), l_order = (case ld_order d of None \<Rightarrow> Fin 0 | Some n \<Rightarrow> n),
      l_parentId = ld_parentId d, l_tags = [], l_updatedAt = ts\<rparr>"

record item_draft =
  id_category :: "string option"
  id_description :: "string option"
  id_locationId :: string
  id_name :: string
  id_order :: "jsnum option"
  id_quantity :: "jsnum option"
  id_unit :: "string option"

definition create_item :: "item_draft \<Rightarrow> string \<Rightarrow> string \<Rightarrow> item" where
  "create_item d ts uuid =
     \<lparr>i_archivedAt = None,
      i_category = (case id_category d of None \<Rightarrow> default_item_category | Some c \<Rightarrow> js_trim c),
      i_constraints = default_constraints, i_createdAt = ts,
      i_description = (case id_description d of None \<Rightarrow> [] | Some t \<Rightarrow> js_trim t),
      i_dimensions = None, i_frequency = Monthly, i_id = new_id ''item'' uuid,
      i_locationId = id_locationId d, i_name = js_trim (id_name d),
      i_order = (case id_order d of None \<Rightarrow> Fin 0 | Some n \<Rightarrow> n),
      i_quantity = (case id_quantity d of None \<Rightarrow> Fin 1 | Some q \<Rightarrow> q), i_tags = [],
      i_unit = (case id_unit d of None \<Rightarrow> default_item_unit
                | Some u \<Rightarrow> if js_trim u = [] then default_item_unit else js_trim u),
      i_updatedAt = ts, i_version = Fin 1\<rparr>"

section \<open>Envelopes\<close>

text \<open>\<open>options.expectations === undefined\<close> computes them; the rest falls back on defaults.\<close>

record envelope_options =
  eo_actorId :: "string option"
  eo_deviceId :: "string option"
  eo_expectations :: "field_expectation list option"
  eo_id :: "string option"
  eo_timestamp :: "string option"

definition create_envelope :: "wstate \<Rightarrow> command \<Rightarrow> envelope_options \<Rightarrow> string \<Rightarrow> string \<Rightarrow> envelope result" where
  "create_envelope s c opts uuid now =
     and_then (case eo_expectations opts of None \<Rightarrow> expectations_for_command s c | Some xs \<Rightarrow> Inr xs) (\<lambda>xs.
       Inr \<lparr>e_actorId = (case eo_actorId opts of None \<Rightarrow> ''local-user'' | Some a \<Rightarrow> a),
            e_baseRevision = w_revision (ws_workspace s), e_command = c,
            e_deviceId = (case eo_deviceId opts of None \<Rightarrow> ''local-device'' | Some d \<Rightarrow> d),
            e_expectations = xs,
            e_id = (case eo_id opts of None \<Rightarrow> new_id ''cmd'' uuid | Some i \<Rightarrow> i),
            e_timestamp = (case eo_timestamp opts of None \<Rightarrow> now | Some t \<Rightarrow> t),
            e_workspaceId = w_id (ws_workspace s)\<rparr>)"

section \<open>Identifiers are version 4 UUIDs\<close>

lemma hex_digit_inj: "m < 16 \<Longrightarrow> n < 16 \<Longrightarrow> hex_digit m = hex_digit n \<longleftrightarrow> m = n"
proof
  assume "m < 16" and "n < 16" and "hex_digit m = hex_digit n"
  then have "(of_char (hex_digit m) :: nat) = of_char (hex_digit n)" by simp
  with \<open>m < 16\<close> \<open>n < 16\<close> show "m = n" by (auto simp: hex_digit_def split: if_splits)
qed simp

lemma byte_split: "unat (b :: byte) div 16 < 16" "unat b mod 16 < 16"
proof -
  have "unat b < 2 ^ LENGTH(8)" by (rule unsigned_less)
  then show "unat b div 16 < 16" by simp
qed simp

lemma two_hex_inj: "two_hex b = two_hex c \<longleftrightarrow> b = c"
proof
  assume "two_hex b = two_hex c"
  then have "unat b div 16 = unat c div 16" and "unat b mod 16 = unat c mod 16"
    by (simp_all add: two_hex_def hex_digit_inj byte_split)
  then have "unat b = unat c" by (metis div_mult_mod_eq)
  then show "b = c" by (rule unsigned_word_eqI)
qed simp

lemma hex_text_inj: "length bs = length cs \<Longrightarrow> hex_text bs = hex_text cs \<longleftrightarrow> bs = cs"
proof (induction bs cs rule: list_induct2)
  case (Cons b bs c cs)
  have "hex_text (b # bs) = hex_text (c # cs) \<longleftrightarrow> two_hex b = two_hex c \<and> hex_text bs = hex_text cs"
    by (simp add: hex_text_def two_hex_def)
  then show ?case using Cons.IH by (simp add: two_hex_inj)
qed simp

lemma length_hex_text [simp]: "length (hex_text bs) = 2 * length bs"
  by (induction bs) (simp_all add: hex_text_def two_hex_def)

lemma length_stamp_version [simp]: "length (stamp_version bs) = length bs"
  by (simp add: stamp_version_def)

lemma length_sub_list [simp]: "length (sub_list i j xs) = min (j - i) (length xs - i)"
  by (simp add: sub_list_def min_def)

lemma sub_lists_16:
  assumes "length xs = 16"
  shows "xs = sub_list 0 4 xs @ sub_list 4 6 xs @ sub_list 6 8 xs @ sub_list 8 10 xs @ sub_list 10 16 xs"
proof -
  have "drop i xs = sub_list i j xs @ drop j xs" if "i \<le> j" for i j
    using that by (simp add: sub_list_def) (metis append_take_drop_id drop_drop le_add_diff_inverse2)
  from this [of 0 4] this [of 4 6] this [of 6 8] this [of 8 10] this [of 10 16] assms
  show ?thesis by simp
qed

text \<open>Two UUIDs are the same only if all bits but the six fixed ones are.\<close>

lemma uuid_v4_inj:
  assumes "length bs = 16" and "length cs = 16"
  shows "uuid_v4 bs = uuid_v4 cs \<longleftrightarrow> stamp_version bs = stamp_version cs"
proof
  assume eq: "uuid_v4 bs = uuid_v4 cs"
  have len: "length (stamp_version bs) = 16" "length (stamp_version cs) = 16" using assms by simp_all
  have part: "sub_list i j (stamp_version bs) = sub_list i j (stamp_version cs)"
    if "(i, j) \<in> {(0, 4), (4, 6), (6, 8), (8, 10), (10, 16)}" for i j :: nat
    using eq that len by (auto simp: uuid_v4_def Let_def hex_text_inj)
  show "stamp_version bs = stamp_version cs"
    using sub_lists_16 [OF len(1)] sub_lists_16 [OF len(2)] part by (metis insertCI)
qed (simp add: uuid_v4_def)

lemma high_nibble: "unat (b :: byte) div 16 = unat (drop_bit 4 b)"
  by (simp add: unat_drop_bit_eq drop_bit_eq_div [of 4 "unat b"])

lemma version_nibble: "unat (((b :: byte) AND 0x0F) OR 0x40) div 16 = 4"
  by (simp add: high_nibble)

lemma word_and_3: "(x :: byte) AND 3 \<in> {0, 1, 2, 3}"
proof -
  have "unat (x AND 3) = unat x mod 4"
    using take_bit_eq_mask [of 2 "unat x"] by (simp add: unsigned_and_eq take_bit_eq_mod mask_eq_exp_minus_1)
  moreover have "unat x mod 4 \<in> {0, 1, 2, 3}" by auto
  ultimately show ?thesis by (auto simp: word_unat_eq_iff)
qed

lemma variant_nibble: "unat (((b :: byte) AND 0x3F) OR 0x80) div 16 \<in> {8, 9, 10, 11}"
  using word_and_3 [of "drop_bit 4 b"] by (auto simp: high_nibble)

text \<open>The shape: 32 digits and four dashes, the version and the variant in their places.\<close>

lemma hex_text_sub_list:
  "i < j \<Longrightarrow> i < length xs \<Longrightarrow> hex_text (sub_list i j xs) = two_hex (xs ! i) @ hex_text (sub_list (Suc i) j xs)"
  by (simp add: sub_list_def hex_text_def Cons_nth_drop_Suc [symmetric] Suc_diff_Suc [symmetric])

lemma hex_digits:
  "hex_digit 4 = CHR ''4''" "hex_digit 8 = CHR ''8''" "hex_digit 9 = CHR ''9''"
  "hex_digit 10 = CHR ''a''" "hex_digit 11 = CHR ''b''"
  by code_simp+

lemma uuid_v4_shape:
  assumes "length bs = 16"
  shows "length (uuid_v4 bs) = 36"
    and "uuid_v4 bs ! 14 = CHR ''4''" and "uuid_v4 bs ! 19 \<in> set ''89ab''"
    and "\<forall>k\<in>{8, 13, 18, 23}. uuid_v4 bs ! k = CHR ''-''"
proof -
  let ?bs = "stamp_version bs"
  let ?part = "\<lambda>i j. hex_text (sub_list i j ?bs)"
  have len: "length ?bs = 16" using assms by simp
  have t: "uuid_v4 bs = ?part 0 4 @ ''-'' @ ?part 4 6 @ ''-'' @ ?part 6 8 @ ''-'' @ ?part 8 10 @ ''-'' @ ?part 10 16"
    by (simp add: uuid_v4_def Let_def)
  have l: "length (?part 0 4) = 8" "length (?part 4 6) = 4" "length (?part 6 8) = 4" "length (?part 8 10) = 4"
    "length (?part 10 16) = 12" using len by simp_all
  show "length (uuid_v4 bs) = 36" using l by (simp add: t)
  have "?bs ! 6 = ((bs ! 6) AND 0x0F) OR 0x40" "?bs ! 8 = ((bs ! 8) AND 0x3F) OR 0x80"
    using assms by (simp_all add: stamp_version_def)
  then have hd: "?part 6 8 ! 0 = CHR ''4''" "?part 8 10 ! 0 \<in> set ''89ab''"
    using version_nibble [of "bs ! 6"] variant_nibble [of "bs ! 8"] len
      hex_text_sub_list [of 6 8 ?bs] hex_text_sub_list [of 8 10 ?bs]
    by (auto simp: two_hex_def hex_digits)
  show "uuid_v4 bs ! 14 = CHR ''4''" "uuid_v4 bs ! 19 \<in> set ''89ab''"
    "\<forall>k\<in>{8, 13, 18, 23}. uuid_v4 bs ! k = CHR ''-''"
    using l hd by (auto simp: t nth_append)
qed

end
