(* ===== verification/Bulk_Edit.thy ===== *)
theory Bulk_Edit
  imports Factories Json_Text History Apply_Command "HOL-Library.Sublist"
begin

text \<open>
  The editor of several items at once (\<open>src/domain/bulk-edit.ts\<close>): the changes each selected
  item needs, the command that makes them and a preview of its effects.  The drafted constraints
  are the properties of an object, in its order, without \<open>requiredTags\<close> and with
  primitive values, as its type says.
\<close>

section \<open>Drafts\<close>

datatype tag_edit_mode = Keep_tags | Add_tags | Remove_tags | Replace_tags | Clear_tags

record tag_edit =
  te_mode :: tag_edit_mode
  te_text :: string

record bulk_edit_draft =
  bd_category :: "string option"
  bd_constraints :: jsobj
  bd_frequency :: "frequency option"
  bd_requiredTags :: tag_edit
  bd_tags :: tag_edit

record bulk_edit_preview =
  bp_command :: "command option"
  bp_completedLocations :: "location list"
  bp_discardedPlanCount :: nat
  bp_expectations :: "field_expectation list"
  bp_items :: "(item \<times> field_patch list) list"
  bp_unchangedCount :: nat

definition empty_bulk_edit_draft :: bulk_edit_draft where
  "empty_bulk_edit_draft =
     \<lparr>bd_category = None, bd_constraints = [], bd_frequency = None,
      bd_requiredTags = \<lparr>te_mode = Keep_tags, te_text = []\<rparr>, bd_tags = \<lparr>te_mode = Keep_tags, te_text = []\<rparr>\<rparr>"

definition entered_tags :: "string \<Rightarrow> string list" where
  "entered_tags t = uniq (filter (\<lambda>s. s \<noteq> []) (map js_trim (split_on CHR '','' t)))"

definition edit_tags :: "string list \<Rightarrow> tag_edit \<Rightarrow> string list result" where
  "edit_tags current edit =
     (case te_mode edit of
        Keep_tags \<Rightarrow> Inr current
      | Clear_tags \<Rightarrow> Inr []
      | m \<Rightarrow>
          let tags = entered_tags (te_text edit) in
          if tags = [] then throw TAGS_REQUIRED
          else Inr (if m = Add_tags then uniq (current @ tags)
                    else if m = Remove_tags then filter (\<lambda>t. t \<notin> set tags) current
                    else tags))"

section \<open>The changes of one item\<close>

text \<open>\<open>===\<close> on a drafted value, which is never an object.\<close>

fun same_primitive :: "json \<Rightarrow> json option \<Rightarrow> bool" where
  "same_primitive JNull (Some JNull) = True"
| "same_primitive (JBool a) (Some (JBool b)) = (a = b)"
| "same_primitive (JStr a) (Some (JStr b)) = (a = b)"
| "same_primitive (JNum a) (Some (JNum b)) = js_eq a b"
| "same_primitive _ _ = False"

definition same_text :: "string list \<Rightarrow> string list \<Rightarrow> bool" where
  "same_text xs ys \<longleftrightarrow> json_text (json_of_list JStr xs) = json_text (json_of_list JStr ys)"

definition drafted_constraints :: "jsobj \<Rightarrow> jsobj result" where
  "drafted_constraints m =
     (case map_of m ''keepTogether'' of
        Some (JStr g) \<Rightarrow>
          if blank g then throw GROUP_REQUIRED else Inr (AList.update ''keepTogether'' (JStr (js_trim g)) m)
      | _ \<Rightarrow> Inr m)"

definition constraint_changes :: "jsobj \<Rightarrow> string list \<Rightarrow> item \<Rightarrow> jsobj" where
  "constraint_changes m required x =
     (let k = i_constraints x;
          differing = filter (\<lambda>(key, v). \<not> same_primitive v (map_of (constraints_obj k) key)) m
      in if same_text required (k_requiredTags k) then differing
         else AList.update ''requiredTags'' (json_of_list JStr required) differing)"

definition item_changes ::
  "string option \<Rightarrow> frequency option \<Rightarrow> string list \<Rightarrow> jsobj \<Rightarrow> item \<Rightarrow> jsobj" where
  "item_changes category freq tags constraints x =
     (case category of None \<Rightarrow> [] | Some c \<Rightarrow> if c \<noteq> i_category x then [(''category'', JStr c)] else []) @
     (case freq of None \<Rightarrow> [] | Some f \<Rightarrow>
        if f \<noteq> i_frequency x then [(''frequency'', JStr (frequency_name f))] else []) @
     (if same_text tags (i_tags x) then [] else [(''tags'', json_of_list JStr tags)]) @
     (if constraints = [] then [] else [(''constraints'', JObj constraints)])"

text \<open>\<open>new Map(items.map(item => [item.id, item]))\<close>: the last record of an identifier counts.\<close>

definition listed_item :: "wstate \<Rightarrow> string \<Rightarrow> item option" where
  "listed_item s i = List.find (\<lambda>x. i_id x = i) (rev (ws_items s))"

definition editable_item :: "wstate \<Rightarrow> string \<Rightarrow> item result" where
  "editable_item s i =
     (case listed_item s i of
        None \<Rightarrow> throw SELECTION_CHANGED
      | Some x \<Rightarrow>
          (case List.find (\<lambda>l. l_id l = i_locationId x) (ws_locations s) of
             None \<Rightarrow> throw SELECTION_CHANGED
           | Some l \<Rightarrow> if i_archived x \<or> l_archived l then throw SELECTION_CHANGED else Inr x))"

definition update_of :: "wstate \<Rightarrow> bulk_edit_draft \<Rightarrow> jsobj \<Rightarrow> string \<Rightarrow> (string \<times> json) list result" where
  "update_of s d constraints i =
     and_then (editable_item s i) (\<lambda>x.
     and_then (edit_tags (i_tags x) (bd_tags d)) (\<lambda>tags.
     and_then (edit_tags (k_requiredTags (i_constraints x)) (bd_requiredTags d)) (\<lambda>required.
       let m = item_changes (map_option js_trim (bd_category d)) (bd_frequency d) tags
                 (constraint_changes constraints required x) x
       in Inr (if m = [] then [] else [(i, JObj m)]))))"

fun updates_of :: "wstate \<Rightarrow> bulk_edit_draft \<Rightarrow> jsobj \<Rightarrow> string list \<Rightarrow> (string \<times> json) list result" where
  "updates_of s d constraints [] = Inr []"
| "updates_of s d constraints (i # is) =
     and_then (update_of s d constraints i) (\<lambda>us.
     and_then (updates_of s d constraints is) (\<lambda>vs. Inr (us @ vs)))"

section \<open>The preview\<close>

definition bulk_preview_options :: envelope_options where
  "bulk_preview_options =
     \<lparr>eo_actorId = None, eo_deviceId = None, eo_expectations = None, eo_id = Some ''cmd_bulk_edit_preview'',
      eo_timestamp = Some ''2000-01-01T00:00:00.000Z''\<rparr>"

definition bulk_command :: "(string \<times> json) list \<Rightarrow> location list \<Rightarrow> command" where
  "bulk_command updates finished = Item_bulkUpdate updates (if finished = [] then None else Some (JBool True))"

definition preview_bulk_update ::
  "(string \<Rightarrow> bool) \<Rightarrow> wstate \<Rightarrow> string list \<Rightarrow> (string \<times> json) list \<Rightarrow> bulk_edit_preview result" where
  "preview_bulk_update dp s ids updates =
     (let locs = List.map_filter (\<lambda>(i, j). map_option i_locationId (listed_item s i)) updates;
          finished = filter (\<lambda>l. l_id l \<in> set locs \<and> l_captureStatus l \<in> {Counted, Known_empty}) (ws_locations s);
          c = bulk_command updates finished
      in and_then (create_envelope s c bulk_preview_options [] []) (\<lambda>e.
         and_then (apply_command dp s e) (\<lambda>r.
           case cr_activity r of
             None \<Rightarrow> Inl Unmodelled
           | Some a \<Rightarrow>
               Inr \<lparr>bp_command = Some c, bp_completedLocations = finished,
                    bp_discardedPlanCount =
                      length (filter (\<lambda>p. fp_target p = Target_plan \<and> fp_path p = ''status'') (a_patches a)),
                    bp_expectations = e_expectations e,
                    bp_items = List.map_filter (\<lambda>(i, j). map_option (\<lambda>x.
                      (x, filter (\<lambda>p. fp_target p = Target_item \<and> fp_id p = i) (a_patches a)))
                      (listed_item s i)) updates,
                    bp_unchangedCount = length ids - length updates\<rparr>)))"

definition plan_bulk_edit ::
  "(string \<Rightarrow> bool) \<Rightarrow> wstate \<Rightarrow> string list \<Rightarrow> bulk_edit_draft \<Rightarrow> bulk_edit_preview result" where
  "plan_bulk_edit dp s ids d =
     (if ids = [] then throw EMPTY_BULK_UPDATE
      else if \<not> distinct ids then throw DUPLICATE_ITEM_ID
      else if (case bd_category d of None \<Rightarrow> False | Some c \<Rightarrow> blank c) then throw CATEGORY_REQUIRED
      else
        and_then (drafted_constraints (bd_constraints d)) (\<lambda>constraints.
        and_then (updates_of s d constraints ids) (\<lambda>updates.
          if updates = []
          then Inr \<lparr>bp_command = None, bp_completedLocations = [], bp_discardedPlanCount = 0,
                    bp_expectations = [], bp_items = [], bp_unchangedCount = length ids\<rparr>
          else preview_bulk_update dp s ids updates)))"

section \<open>What the planned command updates\<close>

lemma update_of_ids:
  assumes "update_of s d m i = Inr us"
  shows "\<exists>x. editable_item s i = Inr x \<and> (us = [] \<or> (\<exists>j. us = [(i, JObj j)] \<and> j \<noteq> []))"
  using assms by (auto simp: update_of_def Let_def and_then_eq_Inr split: if_splits)

text \<open>The updates concern selected items in the order of the selection, and each changes something.\<close>

lemma updates_of_ids:
  assumes "updates_of s d m ids = Inr us"
  shows "subseq (map fst us) ids" and "list_all (\<lambda>i. \<exists>x. editable_item s i = Inr x) ids"
    and "list_all (\<lambda>(i, j). j \<noteq> JObj []) us"
  using assms
proof (induction ids arbitrary: us)
  case (Cons i ids)
  {
    case 1
    then obtain a b where "us = a @ b" "update_of s d m i = Inr a" "updates_of s d m ids = Inr b"
      by (auto simp: and_then_eq_Inr)
    then show ?case using Cons.IH(1) update_of_ids [of s d m i a] by auto
  next
    case 2
    then show ?case using Cons.IH(2) update_of_ids [of s d m i] by (auto simp: and_then_eq_Inr)
  next
    case 3
    then obtain a b where "us = a @ b" "update_of s d m i = Inr a" "updates_of s d m ids = Inr b"
      by (auto simp: and_then_eq_Inr)
    then show ?case using Cons.IH(3) update_of_ids [of s d m i a] by auto
  }
qed simp_all

text \<open>An untouched draft changes no item.\<close>

lemma keep_changes_nothing:
  "update_of s empty_bulk_edit_draft [] i = (case editable_item s i of Inl e \<Rightarrow> Inl e | Inr x \<Rightarrow> Inr [])"
  by (simp add: update_of_def empty_bulk_edit_draft_def edit_tags_def constraint_changes_def item_changes_def
      same_text_def and_then_def split: sum.split)

lemma untouched_draft:
  assumes "list_all (\<lambda>i. \<exists>x. editable_item s i = Inr x) ids"
  shows "updates_of s empty_bulk_edit_draft [] ids = Inr []"
  using assms by (induction ids) (auto simp: keep_changes_nothing)

text \<open>
  The command a preview shows is accepted on the workspace it was planned on, and updates only
  selected items.
\<close>

lemma planned_edit_accepted:
  assumes "plan_bulk_edit dp s ids d = Inr p" and "bp_command p = Some c"
  obtains e r us b where "create_envelope s c bulk_preview_options [] [] = Inr e" and "apply_command dp s e = Inr r"
    and "c = Item_bulkUpdate us b" and "subseq (map fst us) ids" and "distinct (map fst us)"
    and "bp_unchangedCount p = length ids - length us"
proof -
  from assms obtain m us where ids: "distinct ids" and us: "updates_of s d m ids = Inr us"
    and p: "preview_bulk_update dp s ids us = Inr p"
    by (auto simp: plan_bulk_edit_def and_then_eq_Inr split: if_splits)
  note sub = updates_of_ids(1) [OF us]
  have dist: "distinct (map fst us)" using sub ids by (auto simp: subseq_conv_nths)
  from p assms(2) obtain e r where "create_envelope s c bulk_preview_options [] [] = Inr e"
    "apply_command dp s e = Inr r" "\<exists>b. c = Item_bulkUpdate us b" "bp_unchangedCount p = length ids - length us"
    by (auto simp: preview_bulk_update_def Let_def and_then_eq_Inr bulk_command_def split: option.splits)
  with that sub dist show thesis by blast
qed

end
