(* ===== verification/Preserve_Location.thy ===== *)
theory Preserve_Location
  imports Invariants
begin

text \<open>
  The location and capture handlers (\<open>Commands_Location\<close>, \<open>src/domain/commands.ts\<close>) keep the
  invariant of the state: one lemma per handler, over the patches it emits.
\<close>

section \<open>Case and trimming\<close>

lemma of_char_upper:
  "97 \<le> (of_char c :: nat) \<and> (of_char c :: nat) \<le> 122 \<Longrightarrow> (of_char (upper_char c) :: nat) = of_char c - 32"
  by (simp add: upper_char_def Let_def) (rule mod_less, linarith)

lemma upper_char_space: "is_space (upper_char c) \<longleftrightarrow> is_space c"
proof (cases "97 \<le> (of_char c :: nat) \<and> (of_char c :: nat) \<le> 122")
  case True
  then show ?thesis using of_char_upper [OF True] by (auto simp: is_space_def Let_def)
qed (auto simp: upper_char_def Let_def)

lemma upper_char_idem: "upper_char (upper_char c) = upper_char c"
proof (cases "97 \<le> (of_char c :: nat) \<and> (of_char c :: nat) \<le> 122")
  case True
  then have "\<not> 97 \<le> (of_char (upper_char c) :: nat)" using of_char_upper [OF True] by linarith
  then show ?thesis by (simp add: upper_char_def [of "upper_char c"] Let_def)
qed (auto simp: upper_char_def Let_def)

lemma js_trim_upper: "js_trim (js_upper s) = js_upper (js_trim s)"
proof -
  have d: "dropWhile is_space (map upper_char t) = map upper_char (dropWhile is_space t)" for t
    by (simp add: dropWhile_map comp_def upper_char_space)
  show ?thesis by (simp add: js_trim_def js_upper_def d rev_map)
qed

lemma normal_code_idem: "js_upper (js_trim (js_upper (js_trim c))) = js_upper (js_trim c)"
  by (simp add: js_trim_upper) (simp add: js_upper_def upper_char_idem)

section \<open>What validation establishes\<close>

text \<open>
  A location record that may take its place in the state; \<open>ign\<close> is the identifier it
  replaces, if any.
\<close>

definition placeable :: "wstate \<Rightarrow> string option \<Rightarrow> location \<Rightarrow> bool" where
  "placeable s ign y \<longleftrightarrow>
     \<not> blank (l_id y) \<and> (\<not> set_at ign \<longrightarrow> l_id y \<notin> l_id ` set (ws_locations s)) \<and>
     (\<forall>p. l_parentId y = Some p \<longrightarrow>
        p \<noteq> [] \<and> p \<noteq> l_id y \<and>
        (set_at ign \<longrightarrow> p \<notin> l_id ` set (descendants_of (ws_locations s) (the ign))) \<and>
        (\<exists>q. find_location s p = Some q \<and> (live y \<longrightarrow> live q))) \<and>
     \<not> location_code_in_use s ign (norm_code y)"

text \<open>An object that agrees with a location on the properties that place it.\<close>

definition same_place :: "jsobj \<Rightarrow> location \<Rightarrow> bool" where
  "same_place m y \<longleftrightarrow>
     map_of m ''id'' = Some (JStr (l_id y)) \<and>
     map_of m ''parentId'' = Some (json_of_nullable JStr (l_parentId y)) \<and>
     map_of m ''archivedAt'' = Some (json_of_nullable JStr (l_archivedAt y)) \<and>
     code_key (map_of m ''code'') = norm_code y"

lemma string_or_none_nullable [simp]: "string_or_none (Some (json_of_nullable JStr x)) = x"
  by (cases x) (simp_all add: json_of_nullable_def)

lemma truthy_nullable [simp]: "truthy (Some (json_of_nullable JStr x)) \<longleftrightarrow> set_at x"
  by (cases x) (simp_all add: json_of_nullable_def)

lemma nullable_eq_JNull [simp]: "json_of_nullable JStr x = JNull \<longleftrightarrow> x = None"
  by (cases x) (simp_all add: json_of_nullable_def)

lemma nullable_eq_JStr [simp]: "json_of_nullable JStr x = JStr t \<longleftrightarrow> x = Some t"
  by (cases x) (simp_all add: json_of_nullable_def)

lemma nonblank_nullable [simp]:
  "nonblank_string (json_of_nullable JStr x) \<longleftrightarrow> (\<exists>t. x = Some t \<and> \<not> blank t)"
  by (cases x) (simp_all add: json_of_nullable_def)

lemma validate_location_placeable:
  assumes "validate_location s (JObj m) ign = Inr ()" and "same_place m y"
  shows "placeable s ign y"
proof -
  note m = assms(2) [unfolded same_place_def]
  have checks: "\<not> blank (l_id y)" "set_at ign \<or> \<not> list_ex (\<lambda>c. l_id c = l_id y) (ws_locations s)"
    "l_parentId y = None \<or> (\<exists>t. l_parentId y = Some t \<and> \<not> blank t)"
    "l_parentId y \<noteq> Some (l_id y)"
    "\<not> (set_at ign \<and> set_at (l_parentId y) \<and>
        list_ex (\<lambda>c. Some (l_id c) = l_parentId y) (descendants_of (ws_locations s) (the ign)))"
    "\<not> location_code_in_use s ign (norm_code y)"
    "set_at (l_parentId y) \<Longrightarrow> \<exists>p. find_location s (the (l_parentId y)) = Some p \<and> \<not> (live y \<and> l_archived p)"
    using assms(1) m
    by (auto simp: validate_location_def Let_def and_then_eq_Inr nonblank_string_iff split: if_splits)
  have "p \<noteq> [] \<and> p \<noteq> l_id y \<and>
        (set_at ign \<longrightarrow> p \<notin> l_id ` set (descendants_of (ws_locations s) (the ign))) \<and>
        (\<exists>q. find_location s p = Some q \<and> (live y \<longrightarrow> live q))" if "l_parentId y = Some p" for p
  proof -
    have "p \<noteq> []" using checks(3) that by auto
    with checks(4,5,7) that show ?thesis by (auto simp: list_ex_iff)
  qed
  with checks(1,2,6) show ?thesis by (auto simp: placeable_def list_ex_iff)
qed

lemma code_in_use_iff:
  "location_code_in_use s ign code \<longleftrightarrow>
     (\<exists>l\<in>set (ws_locations s). Some (l_id l) \<noteq> ign \<and> live l \<and> norm_code l = code)"
  by (auto simp: location_code_in_use_def list_ex_iff norm_code_def)

text \<open>A decoded location agrees with its object.\<close>

lemma location_of_same_place:
  assumes "location_of (JObj m) = Some y"
  shows "same_place m y" and "map_of m ''captureStatus'' = Some (JStr (capture_status_name (l_captureStatus y)))"
  using assms
  by (auto simp: location_of_def same_place_def bind_eq_Some_conv field_of_eq_Some str_of_iff
      nullable_of_def json_of_nullable_def norm_code_def split: if_splits dest!: union_ofD)

section \<open>Updating the hierarchy\<close>

lemma child_rel_append: "child_rel (ls @ [y]) = child_rel ls \<union> {(p, l_id y) | p. l_parentId y = Some p}"
  by (auto simp: child_rel_def)

lemma child_rel_parents:
  "hierarchy_ok ls \<Longrightarrow> (p, c) \<in> child_rel ls \<Longrightarrow> p \<in> l_id ` set ls"
  by (force simp: hierarchy_ok_def child_rel_def parent_known_def split: option.splits)

lemma child_rel_trancl_parents:
  "hierarchy_ok ls \<Longrightarrow> (p, c) \<in> (child_rel ls)\<^sup>+ \<Longrightarrow> p \<in> l_id ` set ls"
  by (auto dest!: tranclD dest: child_rel_parents)

lemma acyclic_append:
  assumes "hierarchy_ok ls" and "l_id y \<notin> l_id ` set ls" and "l_parentId y \<noteq> Some (l_id y)"
  shows "acyclic (child_rel (ls @ [y]))"
proof (cases "l_parentId y")
  case None
  then show ?thesis using assms(1) by (simp add: child_rel_append hierarchy_ok_def)
next
  case (Some p)
  then have "child_rel (ls @ [y]) = insert (p, l_id y) (child_rel ls)"
    by (auto simp: child_rel_append)
  moreover have "(l_id y, p) \<notin> (child_rel ls)\<^sup>*"
  proof
    assume "(l_id y, p) \<in> (child_rel ls)\<^sup>*"
    with Some assms(3) have "(l_id y, p) \<in> (child_rel ls)\<^sup>+" by (auto simp: rtrancl_eq_or_trancl)
    with assms(1,2) show False by (blast dest: child_rel_trancl_parents)
  qed
  ultimately show ?thesis using assms(1) by (simp add: acyclic_insert hierarchy_ok_def)
qed

lemma find_locationI:
  "distinct (map l_id (ws_locations s)) \<Longrightarrow> l \<in> set (ws_locations s) \<Longrightarrow> find_location s (l_id l) = Some l"
  by (simp add: find_location_def find_key_unique)

lemma hierarchy_ok_append:
  assumes h: "hierarchy_ok (ws_locations s)" and p: "placeable s None y"
  shows "hierarchy_ok (ws_locations s @ [y])"
proof -
  let ?ls = "ws_locations s"
  have new: "l_id y \<notin> l_id ` set ?ls" using p by (simp add: placeable_def)
  have par: "\<exists>q\<in>set ?ls. l_id q = t \<and> (live y \<longrightarrow> live q) \<and> t \<noteq> l_id y" if "l_parentId y = Some t" for t
    using p that by (fastforce simp: placeable_def dest: find_locationD)
  have "live_parent (?ls @ [y]) l" if l: "l \<in> set ?ls" for l
    unfolding live_parent_def
  proof (intro impI ballI)
    fix m assume m: "live l" "m \<in> set (?ls @ [y])" "l_parentId l = Some (l_id m)"
    have "l_id m \<in> l_id ` set ?ls" "live_parent ?ls l"
      using h l m(3) by (auto simp: hierarchy_ok_def parent_known_def dest!: bspec)
    moreover from this new m(2) have "m \<in> set ?ls" by auto
    ultimately show "live m" using m(1,3) by (simp add: live_parent_def)
  qed
  moreover have "live_parent (?ls @ [y]) y"
    unfolding live_parent_def
  proof (intro impI ballI)
    fix m assume m: "live y" "m \<in> set (?ls @ [y])" "l_parentId y = Some (l_id m)"
    from par [OF m(3)] m(1) obtain q where q: "q \<in> set ?ls" "l_id q = l_id m" "live q" "l_id m \<noteq> l_id y" by auto
    with m(2) have "m \<in> set ?ls" by auto
    with q h show "live m" by (auto simp: hierarchy_ok_def distinct_map dest: inj_onD)
  qed
  moreover have "parent_known (?ls @ [y]) l" if "l \<in> set (?ls @ [y])" for l
    using that h par by (force simp: hierarchy_ok_def parent_known_def split: option.splits)
  moreover have "acyclic (child_rel (?ls @ [y]))"
    using par by (intro acyclic_append [OF h new]) auto
  moreover have "norm_code y \<notin> norm_code ` set (filter live ?ls)"
    using p by (auto simp: placeable_def code_in_use_iff)
  ultimately show ?thesis
    using h p new by (auto simp: hierarchy_ok_def placeable_def)
qed

text \<open>Replacing the record of an identifier.\<close>

lemma in_set_location:
  assumes "distinct (map l_id ls)" and "i \<in> l_id ` set ls" and "l_id y = i"
  shows "l \<in> set (set_location i (\<lambda>_. y) ls) \<longleftrightarrow> l = y \<or> (l \<in> set ls \<and> l_id l \<noteq> i)"
  using assms by (auto simp: set_location_map)

lemma ids_replace:
  "l_id y = i \<Longrightarrow> map l_id (set_location i (\<lambda>_. y) ls) = map l_id ls"
  unfolding set_location_def by (intro map_map_first_same) simp

lemma codes_replace:
  assumes "distinct (map norm_code (filter live ls))" and "distinct (map l_id ls)"
    and "live y \<Longrightarrow> \<forall>l\<in>set ls. l_id l \<noteq> i \<and> live l \<longrightarrow> norm_code l \<noteq> norm_code y"
  shows "distinct (map norm_code (filter live (set_location i (\<lambda>_. y) ls)))"
  using assms
proof (induction ls)
  case (Cons l ls)
  show ?case
  proof (cases "l_id l = i")
    case True
    with Cons.prems(2) have "\<forall>k\<in>set ls. l_id k \<noteq> i" by (simp, metis imageI)
    with True Cons.prems show ?thesis
      by (cases "live y"; cases "live l") (auto simp: set_location_def)
  next
    case False
    then have IH: "distinct (map norm_code (filter live (set_location i (\<lambda>_. y) ls)))"
      using Cons by (auto split: if_splits)
    have sub: "set (set_location i (\<lambda>_. y) ls) \<subseteq> insert y (set ls)"
      unfolding set_location_def by (induction ls) auto
    have "norm_code l \<notin> norm_code ` set (filter live (set_location i (\<lambda>_. y) ls))" if "live l"
      using that False Cons.prems sub by (auto simp: image_iff dest!: subsetD split: if_splits)
    with False IH show ?thesis by (simp add: set_location_def)
  qed
qed (simp add: set_location_def)

lemma hierarchy_ok_replace:
  assumes h: "hierarchy_ok (ws_locations s)" and i: "i \<in> l_id ` set (ws_locations s)" and y: "l_id y = i"
    and p: "placeable s (Some i) y"
    and children: "live y \<or> (\<forall>l\<in>set (ws_locations s). l_parentId l = Some i \<longrightarrow> l_archived l)"
  shows "hierarchy_ok (set_location i (\<lambda>_. y) (ws_locations s))"
proof -
  let ?ls = "ws_locations s"
  let ?new = "set_location i (\<lambda>_. y) ?ls"
  have d: "distinct (map l_id ?ls)" using h by (simp add: hierarchy_ok_def)
  note mem = in_set_location [OF d i y]
  have ids: "map l_id ?new = map l_id ?ls" by (rule ids_replace [OF y])
  then have idset: "l_id ` set ?new = l_id ` set ?ls" by (metis list.set_map)
  have par: "(\<exists>q\<in>set ?ls. l_id q = t \<and> (live y \<longrightarrow> live q)) \<and> t \<noteq> i \<and> (i, t) \<notin> (child_rel ?ls)\<^sup>*"
    if "l_parentId y = Some t" for t
  proof -
    have "i \<noteq> []" using p y by (auto simp: placeable_def)
    then have "t \<noteq> i" "t \<notin> l_id ` set (descendants_of ?ls i)"
      "\<exists>q. find_location s t = Some q \<and> (live y \<longrightarrow> live q)"
      using p that y by (auto simp: placeable_def)
    then show ?thesis
      by (auto simp: descendants_of_iff rtrancl_eq_or_trancl dest: find_locationD)
  qed
  have blanks: "\<forall>l\<in>set ?new. \<not> blank (l_id l)"
  proof
    fix l assume "l \<in> set ?new"
    then have "l = y \<or> l \<in> set ?ls" by (simp only: mem) blast
    then show "\<not> blank (l_id l)" using h p by (auto simp: hierarchy_ok_def placeable_def)
  qed
  have known: "\<forall>l\<in>set ?new. parent_known ?new l"
  proof
    fix l assume "l \<in> set ?new"
    then consider "l = y" | "l \<in> set ?ls" by (auto simp: mem)
    then show "parent_known ?new l"
    proof cases
      case 1
      then show ?thesis using par by (force simp: parent_known_def idset split: option.split)
    next
      case 2
      then show ?thesis using h by (simp add: hierarchy_ok_def parent_known_def idset split: option.splits)
    qed
  qed
  have edges: "child_rel ?new \<subseteq> {(t, i) | t. l_parentId y = Some t} \<union> child_rel ?ls"
  proof
    fix e assume "e \<in> child_rel ?new"
    then obtain l t where l: "e = (t, l_id l)" "l \<in> set ?new" "l_parentId l = Some t"
      by (auto simp: child_rel_def)
    from l(2) have "l = y \<or> l \<in> set ?ls" by (simp only: mem) blast
    with l(1,3) y show "e \<in> {(t, i) | t. l_parentId y = Some t} \<union> child_rel ?ls"
      unfolding child_rel_def by blast
  qed
  have acyc: "acyclic (child_rel ?new)"
  proof (cases "l_parentId y")
    case None
    with edges have "child_rel ?new \<subseteq> child_rel ?ls" by auto
    then show ?thesis using h by (meson acyclic_subset hierarchy_ok_def)
  next
    case (Some t)
    with edges have sub: "child_rel ?new \<subseteq> insert (t, i) (child_rel ?ls)" by auto
    have "acyclic (child_rel ?ls)" using h by (simp add: hierarchy_ok_def)
    moreover have "(i, t) \<notin> (child_rel ?ls)\<^sup>*" using par [OF Some] by blast
    ultimately show ?thesis using sub by (rule acyclic_reparent)
  qed
  have lives: "\<forall>l\<in>set ?new. live_parent ?new l"
    unfolding live_parent_def
  proof (intro ballI impI)
    fix l m assume l: "l \<in> set ?new" "live l" and m: "m \<in> set ?new" "l_parentId l = Some (l_id m)"
    have old: "live q" if "l' \<in> set ?ls" "live l'" "q \<in> set ?ls" "l_parentId l' = Some (l_id q)" for l' q
    proof -
      have "live_parent ?ls l'" using h that(1) unfolding hierarchy_ok_def by blast
      then show ?thesis using that unfolding live_parent_def by blast
    qed
    show "live m"
    proof (cases "m = y")
      case True
      show ?thesis
      proof (cases "l = y")
        case True
        with l(2) \<open>m = y\<close> show ?thesis by simp
      next
        case False
        with l(1) have "l \<in> set ?ls" by (simp only: mem) blast
        moreover have "l_parentId l = Some i" using m(2) True y by simp
        ultimately show ?thesis using children l(2) True by blast
      qed
    next
      case False
      with m(1) have m': "m \<in> set ?ls" by (simp only: mem) blast
      show ?thesis
      proof (cases "l = y")
        case True
        with par [of "l_id m"] m(2) l(2) obtain q where q: "q \<in> set ?ls" "l_id q = l_id m" "live q" by blast
        have "q = m" by (rule inj_onD [of l_id "set ?ls"]) (use d q m' in \<open>simp_all add: distinct_map\<close>)
        with q show ?thesis by simp
      next
        case False
        with l(1) have "l \<in> set ?ls" by (simp only: mem) blast
        with old l(2) m(2) m' show ?thesis by blast
      qed
    qed
  qed
  have "distinct (map norm_code (filter live ?new))"
    using h p by (intro codes_replace) (auto simp: hierarchy_ok_def placeable_def code_in_use_iff)
  with d ids blanks known acyc lives show ?thesis by (simp add: hierarchy_ok_def)
qed

text \<open>Items and empty spaces under the replacement of a location.\<close>

lemma items_ok_replace:
  assumes "items_ok ls xs" and "distinct (map l_id ls)" and "i \<in> l_id ` set ls" and "l_id y = i"
    and "live y \<or> (\<forall>x\<in>set xs. i_locationId x = i \<longrightarrow> i_archived x)"
  shows "items_ok (set_location i (\<lambda>_. y) ls) xs"
proof -
  note mem = in_set_location [OF assms(2-4)]
  have "map l_id (set_location i (\<lambda>_. y) ls) = map l_id ls" by (rule ids_replace [OF assms(4)])
  then have ids: "l_id ` set (set_location i (\<lambda>_. y) ls) = l_id ` set ls" by (metis list.set_map)
  have "live m" if "x \<in> set xs" "\<not> i_archived x" "m \<in> set (set_location i (\<lambda>_. y) ls)"
    "l_id m = i_locationId x" for x m
  proof (cases "m = y")
    case True
    with assms(4,5) that show ?thesis by auto
  next
    case False
    with that(3) have "m \<in> set ls" by (simp only: mem) blast
    with that assms(1) show ?thesis by (auto simp: items_ok_def place_ok_def)
  qed
  with assms(1) show ?thesis by (auto simp: items_ok_def place_ok_def ids)
qed

lemma items_ok_more_locations:
  "items_ok ls xs \<Longrightarrow> l_id y \<notin> l_id ` set ls \<Longrightarrow> items_ok (ls @ [y]) xs"
  by (auto simp: items_ok_def place_ok_def)

text \<open>
  What arrives in a space that was recorded as known empty must reopen it; what was there
  before, or is archived, need not.
\<close>

lemma empty_ok_replace:
  assumes e: "empty_ok ls xs" and d: "distinct (map l_id ls)" and x: "x \<in> set ls" "l_id x = i"
    and y: "l_id y = i" "l_parentId y \<noteq> Some i"
    and status: "l_captureStatus y = Known_empty \<Longrightarrow> l_captureStatus x = Known_empty"
    and arrival: "\<And>m. live y \<Longrightarrow> m \<in> set ls \<Longrightarrow> l_parentId y = Some (l_id m) \<Longrightarrow>
        l_captureStatus m = Known_empty \<Longrightarrow> l_id m \<notin> R \<Longrightarrow> live x \<and> l_parentId x = Some (l_id m)"
  shows "empty_ok (reopen_all R ts (set_location i (\<lambda>_. y) ls)) xs"
proof (rule empty_ok_reopen)
  have i: "i \<in> l_id ` set ls" using x by auto
  note mem = in_set_location [OF d i y(1)]
  fix m assume m: "m \<in> set (set_location i (\<lambda>_. y) ls)" "l_captureStatus m = Known_empty" "l_id m \<notin> R"
  obtain n where n: "n \<in> set ls" "l_id n = l_id m" "l_captureStatus n = Known_empty"
  proof (cases "m = y")
    case True
    with status m(2) x y(1) show ?thesis by (intro that [of x]) simp_all
  next
    case False
    with m(1) have "m \<in> set ls" by (simp only: mem) blast
    with m(2) show ?thesis by (intro that [of m]) simp_all
  qed
  from e n have hn: "holds_nothing ls xs (l_id m)" by (auto simp: empty_ok_def)
  have "l_archived l" if "l \<in> set (set_location i (\<lambda>_. y) ls)" "l_parentId l = Some (l_id m)" for l
  proof (rule ccontr)
    assume live: "live l"
    show False
    proof (cases "l = y")
      case True
      with arrival [of n] live n m(3) that(2) have "live x \<and> l_parentId x = Some (l_id m)" by simp
      with hn x(1) show False by (auto simp: holds_nothing_def)
    next
      case False
      with that(1) have "l \<in> set ls" by (simp only: mem) blast
      with hn that(2) live show False by (auto simp: holds_nothing_def)
    qed
  qed
  with hn show "holds_nothing (set_location i (\<lambda>_. y) ls) xs (l_id m)"
    by (simp add: holds_nothing_def)
qed

section \<open>Handlers that leave locations in place\<close>

lemma mk_change_Inr [simp]:
  "mk_change label ps ids = Inr c \<longleftrightarrow> c = \<lparr>ch_label = label, ch_patches = ps, ch_subjectIds = ids\<rparr>"
  by (auto simp: mk_change_def)

text \<open>A change of location records that keeps the skeleton and makes no space known empty.\<close>

lemma wf_state_skeleton:
  assumes "wf_state s" and "map skeleton (ws_locations s) = map skeleton (ws_locations t)"
    and "ws_items t = ws_items s" and "plans_ok (ws_plans t)"
    and "\<And>m. m \<in> set (ws_locations t) \<Longrightarrow> l_captureStatus m = Known_empty \<Longrightarrow>
         holds_nothing (ws_locations s) (ws_items s) (l_id m)"
  shows "wf_state t"
proof -
  have "empty_ok (ws_locations t) (ws_items t)"
    unfolding empty_ok_def using assms(3,5) holds_nothing_skeleton [OF assms(2)] by simp
  then show ?thesis
    using assms hierarchy_ok_skeleton [OF assms(2)] items_ok_skeleton [OF assms(2)]
    by (simp add: wf_state_def)
qed

lemma skeleton_set_location:
  "(\<And>l. skeleton (f l) = skeleton l) \<Longrightarrow> map skeleton (set_location i f ls) = map skeleton ls"
  unfolding set_location_def by (rule map_map_first_same) simp

lemma found_id: "find_location s i = Some l \<Longrightarrow> l_id l = i \<and> i \<in> l_id ` set (ws_locations s)"
  by (auto dest: find_locationD)

lemma ids_set_set_location:
  "(\<And>l. l_id (f l) = l_id l) \<Longrightarrow> l_id ` set (set_location i f ls) = l_id ` set ls"
  using ids_set_location [of f i ls] by (metis list.set_map)

lemma status_set_location:
  "m \<in> set (set_location i f ls) \<Longrightarrow> (\<exists>l\<in>set ls. l_id l = i \<and> m = f l) \<or> m \<in> set ls"
  unfolding set_location_def by (induction ls) (auto split: if_splits)

lemma preserve_workspace_rename:
  assumes "workspace_rename s nm = Inr c" and "apply_patches s (ch_patches c) = Inr t" and "wf_state s"
  shows "wf_state t"
proof -
  have "patches_of k (ch_patches c) = []" if "k \<noteq> Target_workspace" for k
    using assms(1) that by (auto simp: workspace_rename_def Let_def split: if_splits)
  then show ?thesis
    using apply_patches_untouched [OF assms(2)] assms(3) wf_state_cong [of t s] by simp
qed

lemma preserve_location_reorder:
  assumes h: "location_reorder s ts i q = Inr c" and t: "apply_patches s (ch_patches c) = Inr t"
    and wf: "wf_state s"
  shows "wf_state t"
proof -
  from h obtain l where l: "find_location s i = Some l" and
    c: "ch_patches c = [location_patch (l_id l) ''order'' (JNum (l_order l)) (JNum q),
               location_patch (l_id l) ''updatedAt'' (JStr (l_updatedAt l)) (JStr ts)]"
    by (auto simp: location_reorder_def and_then_eq_Inr split: if_splits)
  let ?f = "\<lambda>l. l\<lparr>l_order := q, l_updatedAt := ts\<rparr>"
  have id: "l_id l = i" "i \<in> l_id ` set (ws_locations s)" using found_id [OF l] by auto
  then have "i \<in> l_id ` set (set_location i (\<lambda>l. l\<lparr>l_order := q\<rparr>) (ws_locations s))"
    by (simp add: ids_set_set_location)
  with apply_patches_split [OF t] have locs: "ws_locations t = set_location i ?f (ws_locations s)"
    by (simp add: c id location_patches(2,3) set_location_twice)
  have skel: "map skeleton (ws_locations t) = map skeleton (ws_locations s)"
    unfolding locs by (rule skeleton_set_location) (simp add: skeleton_def norm_code_def)
  have unt: "ws_items t = ws_items s" "ws_plans t = ws_plans s"
    using apply_patches_untouched(2,3) [OF t] by (simp_all add: c)
  have "holds_nothing (ws_locations s) (ws_items s) (l_id m)"
    if "m \<in> set (ws_locations t)" "l_captureStatus m = Known_empty" for m
  proof -
    from that(1) [unfolded locs] obtain n where "n \<in> set (ws_locations s)" "l_id n = l_id m"
      "l_captureStatus n = l_captureStatus m"
      by (auto dest!: status_set_location)
    with wf_stateD(3) [OF wf] that(2) show ?thesis by (auto simp: empty_ok_def)
  qed
  then show ?thesis using wf_state_skeleton [OF wf skel [symmetric] unt(1)] wf_stateD(4) [OF wf] unt by simp
qed

section \<open>The capture handlers\<close>

lemma plans_after_invalidation:
  assumes "wf_state s" and "apply_patches s ps = Inr t"
    and "patches_of Target_plan ps = plan_invalidation_patches s xs ls"
  shows "plans_ok (ws_plans t)"
proof (rule plans_ok_discard_fold [OF wf_stateD(4) [OF assms(1)]])
  show "fold_result patch_plans (ws_plans s) (plan_invalidation_patches s xs ls) = Inr (ws_plans t)"
    using apply_patches_split [OF assms(2)] assms(3) by simp
qed

lemma status_patches_fold:
  assumes "i \<in> l_id ` set ls"
  shows "fold_result patch_locations ls
      [location_patch i ''captureStatus'' b (JStr (capture_status_name cs)),
       location_patch i ''updatedAt'' b' (JStr ts)] =
    Inr (set_location i (\<lambda>l. l\<lparr>l_captureStatus := cs, l_updatedAt := ts\<rparr>) ls)"
proof -
  have "i \<in> l_id ` set (set_location i (\<lambda>l. l\<lparr>l_captureStatus := cs\<rparr>) ls)"
    using assms by (simp add: ids_set_set_location)
  then show ?thesis by (simp add: location_patches(2,5) assms set_location_twice)
qed

text \<open>Setting the status of one space, which holds nothing if it becomes known empty.\<close>

lemma wf_state_set_status:
  assumes wf: "wf_state s" and i: "i \<in> l_id ` set (ws_locations s)"
    and locs: "ws_locations t = set_location i (\<lambda>l. l\<lparr>l_captureStatus := cs, l_updatedAt := ts\<rparr>) (ws_locations s)"
    and items: "set (ws_items t) \<subseteq> set (ws_items s)" "distinct (map i_id (ws_items t))"
    and plans: "plans_ok (ws_plans t)"
    and empty: "cs = Known_empty \<Longrightarrow> holds_nothing (ws_locations s) (ws_items t) i"
  shows "wf_state t"
proof -
  have skel: "map skeleton (ws_locations t) = map skeleton (ws_locations s)"
    unfolding locs by (rule skeleton_set_location) (simp add: skeleton_def norm_code_def)
  have "items_ok (ws_locations s) (ws_items t)"
    using wf_stateD(2) [OF wf] items by (auto simp: items_ok_def)
  then have items_t: "items_ok (ws_locations t) (ws_items t)" by (rule items_ok_skeleton [OF skel [symmetric]])
  have "empty_ok (ws_locations t) (ws_items t)"
    unfolding empty_ok_def
  proof (intro ballI impI)
    fix m assume m: "m \<in> set (ws_locations t)" "l_captureStatus m = Known_empty"
    from m(1) [unfolded locs] have "(l_id m = i \<and> l_captureStatus m = cs) \<or> m \<in> set (ws_locations s)"
      by (auto dest!: status_set_location)
    then have "holds_nothing (ws_locations s) (ws_items t) (l_id m)"
    proof
      assume "l_id m = i \<and> l_captureStatus m = cs"
      with empty m(2) show ?thesis by auto
    next
      assume "m \<in> set (ws_locations s)"
      with wf_stateD(3) [OF wf] m(2) have "holds_nothing (ws_locations s) (ws_items s) (l_id m)"
        by (simp add: empty_ok_def)
      with items(1) show ?thesis by (auto simp: holds_nothing_def)
    qed
    then show "holds_nothing (ws_locations t) (ws_items t) (l_id m)"
      using holds_nothing_skeleton [OF skel] by simp
  qed
  then show ?thesis
    using hierarchy_ok_skeleton [OF skel [symmetric] wf_stateD(1) [OF wf]] items_t plans
    by (simp add: wf_state_def)
qed

lemma preserve_capture_status:
  assumes h: "capture_status_set s ts i status = Inr c" and t: "apply_patches s (ch_patches c) = Inr t"
    and wf: "wf_state s"
  shows "wf_state t"
proof -
  from h obtain l cs where l: "find_location s i = Some l" "status = capture_status_name cs" and
    none: "status = ''known_empty'' \<Longrightarrow> \<not> list_ex (\<lambda>x. i_locationId x = l_id l \<and> \<not> i_archived x) (ws_items s)"
      "status = ''known_empty'' \<Longrightarrow> \<not> list_ex (\<lambda>c. l_parentId c = Some (l_id l) \<and> live c) (ws_locations s)" and
    c: "ch_patches c = plan_invalidation_patches s [] [l_id l] @
               [location_patch (l_id l) ''captureStatus''
                  (JStr (capture_status_name (l_captureStatus l))) (JStr status),
                location_patch (l_id l) ''updatedAt'' (JStr (l_updatedAt l)) (JStr ts)]"
    by (auto simp: capture_status_set_def and_then_eq_Inr split: if_splits)
  have id: "l_id l = i" "i \<in> l_id ` set (ws_locations s)" using found_id [OF l(1)] by auto
  show ?thesis
  proof (rule wf_state_set_status [OF wf id(2)])
    show "ws_locations t = set_location i (\<lambda>l. l\<lparr>l_captureStatus := cs, l_updatedAt := ts\<rparr>) (ws_locations s)"
      using apply_patches_split [OF t] status_patches_fold [OF id(2)] by (simp add: c id l(2))
    show "set (ws_items t) \<subseteq> set (ws_items s)" "distinct (map i_id (ws_items t))"
      using apply_patches_untouched(2) [OF t] wf_stateD(6) [OF wf] by (simp_all add: c)
    show "plans_ok (ws_plans t)" by (rule plans_after_invalidation [OF wf t]) (simp add: c)
    show "holds_nothing (ws_locations s) (ws_items t) i" if "cs = Known_empty"
      using none that l(2) apply_patches_untouched(2) [OF t]
      by (auto simp: holds_nothing_def list_ex_iff c id)
  qed
qed

lemma delete_items_fold:
  "distinct (map i_id xs) \<Longrightarrow>
   fold_result patch_items xs (map delete_item_patch ys) = Inr (filter (\<lambda>x. i_id x \<notin> i_id ` set ys) xs)"
proof (induction ys arbitrary: xs)
  case (Cons y ys)
  have "distinct (map i_id (filter (\<lambda>x. i_id x \<noteq> i_id y) xs))"
    using Cons.prems by (simp add: distinct_map inj_on_def)
  with Cons show ?case
    by (auto simp: delete_item_patch_def item_records.delete_patch remove_first_key intro: filter_cong)
qed simp

lemma delete_locations_fold:
  "distinct (map l_id ls) \<Longrightarrow>
   fold_result patch_locations ls (map delete_location_patch ms)
     = Inr (filter (\<lambda>l. l_id l \<notin> l_id ` set ms) ls)"
proof (induction ms arbitrary: ls)
  case (Cons m ms)
  have "distinct (map l_id (filter (\<lambda>l. l_id l \<noteq> l_id m) ls))"
    using Cons.prems by (simp add: distinct_map inj_on_def)
  with Cons show ?case
    by (auto simp: delete_location_patch_def location_records.delete_patch remove_first_key intro: filter_cong)
qed simp

lemma patches_of_deletes [simp]:
  "patches_of Target_item (map delete_item_patch xs) = map delete_item_patch xs"
  "patches_of Target_location (map delete_item_patch xs) = []"
  "patches_of Target_plan (map delete_item_patch xs) = []"
  "patches_of Target_location (map delete_location_patch ls) = map delete_location_patch ls"
  "patches_of Target_item (map delete_location_patch ls) = []"
  "patches_of Target_plan (map delete_location_patch ls) = []"
  by (auto simp: delete_item_patch_def delete_location_patch_def intro!: patches_of_all patches_of_none)

lemma distinct_filter_ids: "distinct (map k xs) \<Longrightarrow> distinct (map k (filter P xs))"
  by (simp add: distinct_map inj_on_def)

lemma capture_empty_effect:
  assumes h: "capture_empty s ts i reviewed = Inr c" and t: "apply_patches s (ch_patches c) = Inr t"
    and wf: "wf_state s"
  shows "ws_locations t =
      set_location i (\<lambda>l. l\<lparr>l_captureStatus := Known_empty, l_updatedAt := ts\<rparr>) (ws_locations s)"
    and "ws_items t = filter (\<lambda>x. \<not> (i_locationId x = i \<and> \<not> i_archived x)) (ws_items s)"
    and "\<forall>l\<in>set (ws_locations s). l_parentId l = Some i \<longrightarrow> l_archived l"
    and "i \<in> l_id ` set (ws_locations s)" and "plans_ok (ws_plans t)"
proof -
  let ?xs = "filter (\<lambda>x. i_locationId x = i \<and> \<not> i_archived x) (ws_items s)"
  from h obtain l where l: "find_location s i = Some l" and
    none: "\<not> list_ex (\<lambda>c. l_parentId c = Some (l_id l) \<and> live c) (ws_locations s)" and
    c: "ch_patches c = plan_invalidation_patches s
          (sort (map i_id (filter (\<lambda>x. i_locationId x = l_id l \<and> \<not> i_archived x) (ws_items s)))) [l_id l] @
          map delete_item_patch (filter (\<lambda>x. i_locationId x = l_id l \<and> \<not> i_archived x) (ws_items s)) @
                 [location_patch (l_id l) ''captureStatus''
                    (JStr (capture_status_name (l_captureStatus l))) (JStr ''known_empty''),
                  location_patch (l_id l) ''updatedAt'' (JStr (l_updatedAt l)) (JStr ts)]"
    by (auto simp: capture_empty_def and_then_eq_Inr Let_def split: if_splits)
  have id: "l_id l = i" "i \<in> l_id ` set (ws_locations s)" using found_id [OF l(1)] by auto
  have d: "distinct (map i_id (ws_items s))" using wf by (rule wf_stateD)
  have "ws_items t = filter (\<lambda>x. i_id x \<notin> i_id ` set ?xs) (ws_items s)"
    using apply_patches_split [OF t] delete_items_fold [OF d, of ?xs] by (simp add: c id)
  also have "\<dots> = filter (\<lambda>x. \<not> (i_locationId x = i \<and> \<not> i_archived x)) (ws_items s)"
    using d by (intro filter_cong) (auto simp: distinct_map dest: inj_onD)
  finally show "ws_items t = \<dots>" .
  show "ws_locations t =
      set_location i (\<lambda>l. l\<lparr>l_captureStatus := Known_empty, l_updatedAt := ts\<rparr>) (ws_locations s)"
    using apply_patches_split [OF t] status_patches_fold [OF id(2), of _ Known_empty] by (simp add: c id)
  show "plans_ok (ws_plans t)" by (rule plans_after_invalidation [OF wf t]) (simp add: c)
  show "\<forall>l\<in>set (ws_locations s). l_parentId l = Some i \<longrightarrow> l_archived l"
    using none by (auto simp: list_ex_iff id)
qed (use h in \<open>auto simp: capture_empty_def and_then_eq_Inr dest: found_id\<close>)

lemma preserve_capture_empty:
  assumes h: "capture_empty s ts i reviewed = Inr c" and t: "apply_patches s (ch_patches c) = Inr t"
    and wf: "wf_state s"
  shows "wf_state t"
proof -
  note e = capture_empty_effect [OF h t wf]
  show ?thesis
    by (rule wf_state_set_status [OF wf e(4) e(1)])
      (use e(3,5) wf_stateD(6) [OF wf] in
        \<open>auto simp: e(2) holds_nothing_def intro: distinct_filter_ids\<close>)
qed

end
