(* ===== verification/Preserve_Hierarchy.thy ===== *)
theory Preserve_Hierarchy
  imports Preserve_Location
begin

text \<open>
  Creating, updating, moving, archiving and deleting locations (\<open>Commands_Location\<close>,
  \<open>src/domain/commands.ts\<close>) keeps the invariant: the hierarchy stays a forest of existing
  parents, live below live, with unique codes, and nothing arrives unnoticed in a space that
  is recorded as known empty.
\<close>

section \<open>Creating a location\<close>

lemma plans_after_optional_invalidation:
  assumes "wf_state s" and "apply_patches s ps = Inr t"
    and "patches_of Target_plan ps = (if b then plan_invalidation_patches s xs ls else [])"
  shows "plans_ok (ws_plans t)"
proof (cases b)
  case True
  then show ?thesis using plans_after_invalidation [OF assms(1,2)] assms(3) by simp
next
  case False
  then show ?thesis using apply_patches_untouched(3) [OF assms(2)] assms(3) wf_stateD(4) [OF assms(1)] by simp
qed

lemma editable_location:
  assumes "contents_editable s cs = Inr ()" and "Some i \<in> set cs" and "i \<noteq> []"
    and "m \<in> set (ws_locations s)" and "l_id m = i" and "distinct (map l_id (ws_locations s))" and "live m"
  shows "\<not> capture_complete (l_captureStatus m)"
  using assms find_locationI [of s m] by (auto simp: contents_editable_iff)

lemma optional_progress:
  assumes "(if b then capture_progress_patches s i ts else Inr []) = Inr ps"
  obtains R where "progresses s ts ps R"
proof (cases b)
  case True
  with assms show ?thesis by (auto elim: capture_progress intro: that)
next
  case False
  with assms show ?thesis by (auto intro: that [of "{}"])
qed

lemma preserve_location_create:
  assumes h: "location_create s ts loc = Inr c" and t: "apply_patches s (ch_patches c) = Inr t"
    and wf: "wf_state s"
  shows "wf_state t"
proof -
  let ?ls = "ws_locations s"
  from h obtain m where m: "loc = JObj m" and v: "validate_location s (JObj m) None = Inr ()"
    by (cases loc) (auto simp: location_create_def Let_def and_then_eq_Inr validate_location_def)
  define parent where "parent = string_or_none (map_of m ''parentId'')"
  from h obtain ps where
    edit: "(if \<not> truthy (map_of m ''archivedAt'') \<and> set_at parent then contents_editable s [parent] else Inr ()) = Inr ()"
    and pr: "(if set_at parent then capture_progress_patches s (the parent) ts else Inr []) = Inr ps"
    and c: "ch_patches c = (if set_at parent then plan_invalidation_patches s [] [the parent] else []) @
        mk_patch Target_location (text_of (map_of m ''id'')) [] None (Some loc) # ps"
    unfolding location_create_def Let_def m jget_JObj parent_def [symmetric]
    by (elim and_then_InrE) auto
  from pr obtain R where R: "progresses s ts ps R" by (rule optional_progress)
  have plan_part: "patches_of Target_plan (ch_patches c) =
      (if set_at parent then plan_invalidation_patches s [] [the parent] else [])"
    by (simp add: c patches_of_progress [OF R])
  obtain i where i: "map_of m ''id'' = Some (JStr i)"
    using v by (auto simp: validate_location_def Let_def nonblank_string_iff split: if_splits)
  have fresh: "i \<notin> l_id ` set ?ls"
    using v i by (auto simp: validate_location_def Let_def list_ex_iff split: if_splits)
  have fold: "fold_result patch_locations ?ls (mk_patch Target_location i [] None (Some loc) # ps)
      = Inr (ws_locations t)"
    using apply_patches_split [OF t] by (simp add: c patches_of_progress [OF R] i text_of_def)
  then obtain y where y: "location_of (JObj m) = Some y"
    and fold2: "fold_result patch_locations (?ls @ [y]) ps = Inr (ws_locations t)"
    by (auto simp: location_records.create_patch [OF fresh] and_then_eq_Inr m)
  note place = location_of_same_place [OF y]
  have idy: "l_id y = i" using place(1) i by (simp add: same_place_def)
  have py: "l_parentId y = parent" using place(1) by (simp add: same_place_def parent_def)
  have p: "placeable s None y" by (rule validate_location_placeable [OF v place(1)])
  have d: "distinct (map l_id (?ls @ [y]))" using wf_stateD(5) [OF wf] fresh idy by simp
  have locs: "ws_locations t = reopen_all R ts (?ls @ [y])"
    using progresses_fold [OF R d] fold2 by auto
  have h': "hierarchy_ok (?ls @ [y])" by (rule hierarchy_ok_append [OF wf_stateD(1) [OF wf] p])
  have items: "ws_items t = ws_items s"
    using apply_patches_untouched(2) [OF t] by (simp add: c patches_of_progress [OF R])
  have nothing_in_y: "holds_nothing (?ls @ [y]) (ws_items s) (l_id y)"
  proof -
    have "i_locationId x \<in> l_id ` set ?ls" if "x \<in> set (ws_items s)" for x
      using wf_stateD(2) [OF wf] that by (simp add: items_ok_def place_ok_def)
    then have "i_locationId x \<noteq> l_id y" if "x \<in> set (ws_items s)" for x
      using fresh idy that by metis
    moreover have "parent_known ?ls l" if "l \<in> set ?ls" for l
      using wf_stateD(1) [OF wf] that by (simp add: hierarchy_ok_def)
    then have "l_parentId l \<noteq> Some (l_id y)" if "l \<in> set ?ls" for l
      using fresh idy that by (force simp: parent_known_def)
    moreover have "l_parentId y \<noteq> Some (l_id y)" using p by (auto simp: placeable_def)
    ultimately show ?thesis by (auto simp: holds_nothing_def)
  qed
  have "empty_ok (ws_locations t) (ws_items t)"
    unfolding locs items
  proof (rule empty_ok_reopen)
    fix n assume n: "n \<in> set (?ls @ [y])" "l_captureStatus n = Known_empty"
    show "holds_nothing (?ls @ [y]) (ws_items s) (l_id n)"
    proof (cases "n = y")
      case False
      with n(1) have n': "n \<in> set ?ls" by simp
      with wf_stateD(3) [OF wf] n(2) have "holds_nothing ?ls (ws_items s) (l_id n)"
        by (simp add: empty_ok_def)
      moreover have "l_archived y" if par: "l_parentId y = Some (l_id n)"
      proof (rule ccontr)
        assume live_y: "live y"
        from p par live_y obtain q where q: "find_location s (l_id n) = Some q" "live q" "l_id n \<noteq> []"
          by (auto simp: placeable_def)
        have "q = n" using q(1) find_locationI [OF wf_stateD(5) [OF wf] n'] by simp
        moreover have edit': "contents_editable s [parent] = Inr ()"
          using edit live_y place(1) par py q(3) by (auto simp: same_place_def)
        have "Some (l_id n) \<in> set [parent]" using par py by simp
        note editable_location [OF edit' this q(3) n' refl wf_stateD(5) [OF wf]]
        ultimately have "\<not> capture_complete (l_captureStatus n)" using q(2) by blast
        with n(2) show False by (simp add: capture_complete_def)
      qed
      ultimately show ?thesis by (simp add: holds_nothing_def)
    qed (simp only: nothing_in_y)
  qed
  moreover have "hierarchy_ok (ws_locations t)" "items_ok (ws_locations t) (ws_items t)"
    using hierarchy_ok_skeleton [OF _ h'] items_ok_skeleton
      [OF _ items_ok_more_locations [OF wf_stateD(2) [OF wf]]] fresh idy
    by (simp_all add: locs items)
  ultimately show ?thesis
    using plans_after_optional_invalidation [OF wf t plan_part] by (simp add: wf_state_def)
qed

section \<open>Replacing a location\<close>

lemma set_location_const:
  "find_location s i = Some x \<Longrightarrow>
   set_location i f (ws_locations s) = set_location i (\<lambda>_. f x) (ws_locations s)"
  unfolding find_location_def set_location_def by (rule map_first_const [symmetric])

lemma placeable_cong:
  "placeable s ign y \<Longrightarrow> l_id z = l_id y \<Longrightarrow> l_parentId z = l_parentId y \<Longrightarrow>
   l_archived z = l_archived y \<Longrightarrow> norm_code z = norm_code y \<Longrightarrow> placeable s ign z"
  by (simp add: placeable_def)

lemma code_unique:
  assumes "hierarchy_ok (ws_locations s)" and "x \<in> set (ws_locations s)" and "live x"
  shows "\<not> location_code_in_use s (Some (l_id x)) (norm_code x)"
proof
  assume "location_code_in_use s (Some (l_id x)) (norm_code x)"
  then obtain l where l: "l \<in> set (ws_locations s)" "l_id l \<noteq> l_id x" "live l" "norm_code l = norm_code x"
    by (auto simp: code_in_use_iff)
  have "inj_on norm_code (set (filter live (ws_locations s)))"
    using assms(1) by (simp add: hierarchy_ok_def distinct_map)
  then have "l = x" using l assms(2,3) by (auto dest: inj_onD)
  with l(2) show False by simp
qed

text \<open>A live location is placeable where it is; so is the record that archives it.\<close>

lemma placeable_self:
  assumes h: "hierarchy_ok (ws_locations s)" and x: "x \<in> set (ws_locations s)" "live x"
    and y: "l_id y = l_id x" "l_parentId y = l_parentId x" "norm_code y = norm_code x"
  shows "placeable s (Some (l_id x)) y"
proof -
  have d: "distinct (map l_id (ws_locations s))" using h by (simp add: hierarchy_ok_def)
  have nb: "\<not> blank (l_id l)" if "l \<in> set (ws_locations s)" for l using h that by (simp add: hierarchy_ok_def)
  have "p \<noteq> [] \<and> p \<noteq> l_id x \<and> p \<notin> l_id ` set (descendants_of (ws_locations s) (l_id x)) \<and>
     (\<exists>q. find_location s p = Some q \<and> live q)" if p: "l_parentId x = Some p" for p
  proof -
    have edge: "(p, l_id x) \<in> child_rel (ws_locations s)" using p x(1) by (auto simp: child_rel_def)
    have "parent_known (ws_locations s) x" "live_parent (ws_locations s) x"
      using h x(1) by (simp_all add: hierarchy_ok_def)
    then obtain q where q: "q \<in> set (ws_locations s)" "l_id q = p" "live q"
      using p x(2) by (auto simp: parent_known_def live_parent_def)
    have "p \<notin> l_id ` set (descendants_of (ws_locations s) (l_id x)) \<and> p \<noteq> l_id x"
    proof -
      have "(l_id x, p) \<notin> (child_rel (ws_locations s))\<^sup>*"
        using h edge unfolding hierarchy_ok_def acyclic_def
        by (meson rtrancl_into_trancl2 r_into_trancl' rtrancl_into_trancl1)
      then show ?thesis by (auto simp: descendants_of_iff dest: trancl_into_rtrancl)
    qed
    moreover have "p \<noteq> []" using nb [OF q(1)] q(2) by auto
    moreover have "find_location s p = Some q" using find_locationI [OF d q(1)] q(2) by simp
    ultimately show ?thesis using q(3) by blast
  qed
  then show ?thesis
    using nb [OF x(1)] code_unique [OF h x] x(1) y by (auto simp: placeable_def)
qed

lemma wf_state_replace_location:
  assumes wf: "wf_state s" and x: "find_location s i = Some x" and y: "l_id y = i"
    and p: "placeable s (Some i) y" and status: "l_captureStatus y = l_captureStatus x"
    and contents: "live y \<or> ((\<forall>l\<in>set (ws_locations s). l_parentId l = Some i \<longrightarrow> l_archived l) \<and>
                       (\<forall>x\<in>set (ws_items s). i_locationId x = i \<longrightarrow> i_archived x))"
    and arrival: "\<And>m. live y \<Longrightarrow> m \<in> set (ws_locations s) \<Longrightarrow> l_parentId y = Some (l_id m) \<Longrightarrow>
        l_captureStatus m = Known_empty \<Longrightarrow> l_id m \<notin> R \<Longrightarrow> live x \<and> l_parentId x = Some (l_id m)"
    and locs: "ws_locations t = reopen_all R ts (set_location i (\<lambda>_. y) (ws_locations s))"
    and rest: "ws_items t = ws_items s" "plans_ok (ws_plans t)"
  shows "wf_state t"
proof -
  let ?new = "set_location i (\<lambda>_. y) (ws_locations s)"
  have x': "x \<in> set (ws_locations s)" "l_id x = i" using find_locationD [OF x] by auto
  then have i: "i \<in> l_id ` set (ws_locations s)" by auto
  have "hierarchy_ok ?new"
    using contents by (intro hierarchy_ok_replace [OF wf_stateD(1) [OF wf] i y p]) blast
  moreover have "items_ok ?new (ws_items s)"
    using contents by (intro items_ok_replace [OF wf_stateD(2,5) [OF wf] i y]) blast
  moreover have "l_parentId y \<noteq> Some i" using p y by (auto simp: placeable_def)
  then have "empty_ok (reopen_all R ts ?new) (ws_items s)"
    using arrival status
    by (intro empty_ok_replace [OF wf_stateD(3,5) [OF wf] x' y]) simp_all
  ultimately show ?thesis
    unfolding wf_state_def locs rest(1) using rest(2)
    by (blast intro: hierarchy_ok_skeleton [OF skeleton_reopen_all [symmetric]]
        items_ok_skeleton [OF skeleton_reopen_all [symmetric]])
qed

section \<open>Moving a location\<close>

text \<open>A new parent that is recorded as known empty is reopened, or refuses the change.\<close>

lemma parent_progress_arrival:
  assumes pp: "parent_progress s old new reopen ts = Inr ps"
    and edit: "old \<noteq> new \<Longrightarrow> \<not> reopens reopen \<Longrightarrow> contents_editable s [old, new] = Inr ()"
    and d: "distinct (map l_id (ws_locations s))"
  obtains R where "progresses s ts ps R"
    and "\<And>m. old \<noteq> new \<Longrightarrow> m \<in> set (ws_locations s) \<Longrightarrow> new = Some (l_id m) \<Longrightarrow> l_id m \<noteq> [] \<Longrightarrow>
         live m \<Longrightarrow> l_captureStatus m = Known_empty \<Longrightarrow> l_id m \<in> R"
proof (cases "old \<noteq> new \<and> reopens reopen")
  case True
  with pp have "bulk_move_progress_patches s [old] new ts = Inr ps"
    by (simp add: parent_progress_def move_progress_patches_def)
  then obtain R where R: "progresses s ts ps R"
    and arr: "\<And>i. Some i \<in> set ([old] @ [new]) \<Longrightarrow>
      \<exists>l. find_location s i = Some l \<and> live l \<and> (capture_complete (l_captureStatus l) \<longrightarrow> i \<in> R)"
    by (rule bulk_move_progress) blast
  show ?thesis
  proof (rule that [OF R])
    fix m assume "m \<in> set (ws_locations s)" "new = Some (l_id m)" "l_captureStatus m = Known_empty"
    with arr [of "l_id m"] find_locationI [OF d] show "l_id m \<in> R" by (auto simp: capture_complete_def)
  qed
next
  case False
  then have "(if old \<noteq> new \<and> set_at new then capture_progress_patches s (the new) ts else Inr []) = Inr ps"
    using pp by (auto simp: parent_progress_def split: if_splits)
  then obtain R where R: "progresses s ts ps R" by (rule optional_progress)
  show ?thesis
  proof (rule that [OF R])
    fix m assume m: "old \<noteq> new" "m \<in> set (ws_locations s)" "new = Some (l_id m)" "l_id m \<noteq> []" "live m"
      "l_captureStatus m = Known_empty"
    have "contents_editable s [old, new] = Inr ()" using edit m(1) False by blast
    from editable_location [OF this _ m(4,2) refl d m(5)] m(3,6) show "l_id m \<in> R"
      by (simp add: capture_complete_def)
  qed
qed

text \<open>A run of property patches of one location, followed by progress patches.\<close>

lemma location_entries:
  assumes x: "find_location s i = Some x"
    and fold: "fold_result patch_locations (ws_locations s) (entry_patches Target_location i es @ ps) = Inr ls"
    and R: "progresses s ts ps R" and d: "distinct (map l_id (ws_locations s))"
    and keys: "\<forall>e\<in>set es. path_keys (fst e) = Some [fst e] \<and> fst e \<noteq> ''id''" and de: "distinct (map fst es)"
  obtains y where "ls = reopen_all R ts (set_location i (\<lambda>_. y) (ws_locations s))" and "l_id y = i"
    and "\<And>k a. k \<notin> fst ` set es \<Longrightarrow> atom a \<Longrightarrow> map_of (location_obj x) k = Some a \<Longrightarrow>
        map_of (location_obj y) k = Some a"
    and "\<And>k b v. (k, b, v) \<in> set es \<Longrightarrow> atom v \<Longrightarrow> map_of (location_obj y) k = Some v"
proof -
  from fold obtain zs where z: "fold_result patch_locations (ws_locations s) (entry_patches Target_location i es) = Inr zs"
    and rest: "fold_result patch_locations zs ps = Inr ls"
    by (auto simp: fold_result_append and_then_eq_Inr)
  have heads: "entry_head e = fst e" if "e \<in> set es" for e
    using keys that by (simp add: entry_head_def head_of_def)
  have nonempty: "\<forall>e\<in>set es. fst e \<noteq> [] \<and> entry_head e \<noteq> ''id''"
    using keys heads by (auto simp: path_keys_def)
  from location_records.entries_fold [OF z x [unfolded find_location_def] nonempty] obtain y where
    y: "zs = set_location i (\<lambda>_. y) (ws_locations s)" "l_id y = i" "location_records.run_result es x y"
    by (auto simp: set_location_def)
  have hs: "map entry_head es = map fst es" "entry_head ` set es = fst ` set es"
    using heads by (auto simp: image_iff)
  have ids: "map l_id zs = map l_id (ws_locations s)" unfolding y(1) by (rule ids_replace [OF y(2)])
  then have "l_id ` set zs = l_id ` set (ws_locations s)" by (metis list.set_map)
  with ids d have "fold_result patch_locations zs ps = Inr (reopen_all R ts zs)"
    by (intro progresses_fold [OF R]) simp_all
  with rest y(1) have "ls = reopen_all R ts (set_location i (\<lambda>_. y) (ws_locations s))" by simp
  then show ?thesis
    using y(2,3) keys de unfolding location_records.run_result_def hs
    by (intro that) force+
qed

lemma atom_nullable [simp]: "atom (json_of_nullable JStr v)"
  by (cases v) (simp_all add: json_of_nullable_def)

lemma nullable_inject [simp]: "json_of_nullable JStr v = json_of_nullable JStr w \<longleftrightarrow> v = w"
  by (cases v; cases w) (simp_all add: json_of_nullable_def)

lemma location_kept:
  assumes "\<And>k a. k \<notin> K \<Longrightarrow> atom a \<Longrightarrow> map_of (location_obj x) k = Some a \<Longrightarrow> map_of (location_obj y) k = Some a"
  shows "''archivedAt'' \<notin> K \<Longrightarrow> l_archivedAt y = l_archivedAt x"
    and "''captureStatus'' \<notin> K \<Longrightarrow> l_captureStatus y = l_captureStatus x"
    and "''parentId'' \<notin> K \<Longrightarrow> l_parentId y = l_parentId x"
    and "''code'' \<notin> K \<Longrightarrow> norm_code y = norm_code x"
proof -
  show "''archivedAt'' \<notin> K \<Longrightarrow> l_archivedAt y = l_archivedAt x"
    using assms [of "''archivedAt''" "json_of_nullable JStr (l_archivedAt x)"] by (simp add: location_obj_def)
  show "''captureStatus'' \<notin> K \<Longrightarrow> l_captureStatus y = l_captureStatus x"
    using assms [of "''captureStatus''" "JStr (capture_status_name (l_captureStatus x))"]
    by (simp add: location_obj_def capture_status.name_inject)
  show "''parentId'' \<notin> K \<Longrightarrow> l_parentId y = l_parentId x"
    using assms [of "''parentId''" "json_of_nullable JStr (l_parentId x)"] by (simp add: location_obj_def)
  show "''code'' \<notin> K \<Longrightarrow> norm_code y = norm_code x"
    using assms [of "''code''" "JStr (l_code x)"] by (simp add: location_obj_def norm_code_def)
qed

lemma preserve_location_move:
  assumes h: "location_move s ts i parent order reopen = Inr c"
    and t: "apply_patches s (ch_patches c) = Inr t" and wf: "wf_state s"
  shows "wf_state t"
proof -
  let ?ls = "ws_locations s"
  from h obtain x ps where x: "find_location s i = Some x" "live x"
    and par: "parent = None \<or> \<not> blank (the parent)" "parent \<noteq> Some (l_id x)"
    and dest: "set_at parent \<Longrightarrow> (\<exists>q. find_location s (the parent) = Some q \<and> live q) \<and>
       \<not> list_ex (\<lambda>c. Some (l_id c) = parent) (descendants_of ?ls (l_id x))"
    and edit: "parent \<noteq> l_parentId x \<Longrightarrow> \<not> reopens reopen \<Longrightarrow>
       contents_editable s [l_parentId x, parent] = Inr ()"
    and pp: "parent_progress s (l_parentId x) parent reopen ts = Inr ps"
    and c: "ch_patches c =
       (if parent \<noteq> l_parentId x
             then location_patch (l_id x) ''parentId'' (json_of_nullable JStr (l_parentId x))
                    (json_of_nullable JStr parent) #
                  plan_invalidation_patches s [] (some_ids [Some (l_id x), parent])
             else []) @
            [location_patch (l_id x) ''updatedAt'' (JStr (l_updatedAt x)) (JStr ts)] @
            (case order of None \<Rightarrow> [] | Some r \<Rightarrow>
               [location_patch (l_id x) ''order'' (JNum (l_order x)) (JNum r)]) @ ps"
    unfolding location_move_def Let_def
    by (elim and_then_InrE) (auto simp: and_then_eq_Inr split: if_splits)
  let ?es = "(if parent \<noteq> l_parentId x
       then [(''parentId'', Some (json_of_nullable JStr (l_parentId x)), json_of_nullable JStr parent)] else []) @
     [(''updatedAt'', Some (JStr (l_updatedAt x)), JStr ts)] @
     (case order of None \<Rightarrow> [] | Some r \<Rightarrow> [(''order'', Some (JNum (l_order x)), JNum r)])"
  have id: "l_id x = i" using found_id [OF x(1)] by auto
  note d = wf_stateD(5) [OF wf]
  obtain R where R: "progresses s ts ps R" and arr: "\<And>m. l_parentId x \<noteq> parent \<Longrightarrow> m \<in> set ?ls \<Longrightarrow>
      parent = Some (l_id m) \<Longrightarrow> l_id m \<noteq> [] \<Longrightarrow> live m \<Longrightarrow> l_captureStatus m = Known_empty \<Longrightarrow> l_id m \<in> R"
    by (rule parent_progress_arrival [OF pp _ d]) (use edit in auto)
  have locp: "patches_of Target_location (ch_patches c) = entry_patches Target_location i ?es @ ps"
    by (auto simp: c id entry_patches_def patches_of_progress [OF R] split: option.split)
  have "fold_result patch_locations ?ls (entry_patches Target_location i ?es @ ps) = Inr (ws_locations t)"
    using apply_patches_split [OF t] unfolding locp by blast
  then obtain y where locs: "ws_locations t = reopen_all R ts (set_location i (\<lambda>_. y) ?ls)" and y: "l_id y = i"
    and keep: "\<And>k a. k \<notin> fst ` set ?es \<Longrightarrow> atom a \<Longrightarrow> map_of (location_obj x) k = Some a \<Longrightarrow>
        map_of (location_obj y) k = Some a"
    and val: "\<And>k b v. (k, b, v) \<in> set ?es \<Longrightarrow> atom v \<Longrightarrow> map_of (location_obj y) k = Some v"
    by (rule location_entries [OF x(1) _ R d]) (auto split: option.splits)
  note fields = location_kept [of "fst ` set ?es" x y, OF keep]
  have f: "l_archivedAt y = l_archivedAt x" "l_captureStatus y = l_captureStatus x" "norm_code y = norm_code x"
    by (rule fields; auto split: option.splits)+
  have par_y: "l_parentId y = parent"
  proof (cases "parent = l_parentId x")
    case True
    then have "l_parentId y = l_parentId x" by (intro fields(3)) (auto split: option.splits)
    with True show ?thesis by simp
  next
    case False
    then have "map_of (location_obj y) ''parentId'' = Some (json_of_nullable JStr parent)"
      by (intro val [of _ "Some (json_of_nullable JStr (l_parentId x))"]) simp_all
    then show ?thesis by (simp add: location_obj_def)
  qed
  show ?thesis
  proof (rule wf_state_replace_location [OF wf x(1) y _ f(2) _ _ locs])
    show "placeable s (Some i) y"
      unfolding placeable_def
    proof (intro conjI allI impI)
      have nb: "\<not> blank i" using wf_stateD(1) [OF wf] find_locationD [OF x(1)] by (auto simp: hierarchy_ok_def)
      then show "\<not> blank (l_id y)" using y by simp
      show "l_id y \<notin> l_id ` set ?ls" if "\<not> set_at (Some i)" using that nb by auto
      show "\<not> location_code_in_use s (Some i) (norm_code y)"
        using code_unique [OF wf_stateD(1) [OF wf] _ x(2)] find_locationD [OF x(1)] f(3) by simp
      fix p assume p: "l_parentId y = Some p"
      with par par_y have nbp: "\<not> blank p" by auto
      then show "p \<noteq> []" by auto
      show "p \<noteq> l_id y" using par(2) p par_y y id by auto
      from nbp have "set_at parent" using p par_y by auto
      note de = dest [OF this]
      show "p \<notin> l_id ` set (descendants_of ?ls (the (Some i)))"
        using de p par_y id by (auto simp: list_ex_iff)
      show "\<exists>q. find_location s p = Some q \<and> (live y \<longrightarrow> live q)" using de p par_y by auto
    qed
    show "live y \<or> ((\<forall>l\<in>set ?ls. l_parentId l = Some i \<longrightarrow> l_archived l) \<and>
        (\<forall>x\<in>set (ws_items s). i_locationId x = i \<longrightarrow> i_archived x))" using f(1) x(2) by simp
    show "live x \<and> l_parentId x = Some (l_id m)"
      if m: "live y" "m \<in> set ?ls" "l_parentId y = Some (l_id m)" "l_captureStatus m = Known_empty" "l_id m \<notin> R" for m
    proof (rule conjI [OF x(2)], rule ccontr)
      assume "l_parentId x \<noteq> Some (l_id m)"
      moreover have "set_at parent" using par par_y m(3) by auto
      then obtain q where "find_location s (l_id m) = Some q" "live q" using dest par_y m(3) by auto
      then have "live m" using find_locationI [OF d m(2)] by simp
      moreover have "l_id m \<noteq> []" using \<open>set_at parent\<close> par_y m(3) by auto
      ultimately show False using arr [OF _ m(2)] m(3-5) par_y by auto
    qed
    show "ws_items t = ws_items s"
      using apply_patches_untouched(2) [OF t] by (simp add: c patches_of_progress [OF R] split: option.split)
    show "plans_ok (ws_plans t)"
      by (rule plans_after_optional_invalidation [OF wf t, where b = "parent \<noteq> l_parentId x" and xs = "[]"
            and ls = "l_id x # some_ids [parent]"])
        (simp add: c patches_of_progress [OF R] split: option.split)
  qed
qed

section \<open>Archiving and restoring\<close>

lemma same_place_obj [simp]: "same_place (location_obj y) y"
  by (simp add: same_place_def location_obj_def norm_code_def)

text \<open>What an accepted archiving or restoring went through, and the patches it emits.\<close>

lemma location_archive_accepted:
  assumes h: "location_archive s ts i (Some (JBool arch)) = Inr c"
  obtains x ps where "find_location s i = Some x" and "l_archived x \<noteq> arch"
    and "arch \<Longrightarrow> \<not> list_ex live (descendants_of (ws_locations s) (l_id x)) \<and>
        \<not> list_ex (\<lambda>z. i_locationId z = l_id x \<and> \<not> i_archived z) (ws_items s)"
    and "\<not> arch \<Longrightarrow> validate_location s (json_of_location (x\<lparr>l_archivedAt := None\<rparr>)) (Some (l_id x)) = Inr ()"
    and "set_at (l_parentId x) \<Longrightarrow> contents_editable s [l_parentId x] = Inr ()"
    and "(if \<not> arch \<and> set_at (l_parentId x) then capture_progress_patches s (the (l_parentId x)) ts
              else Inr []) = Inr ps"
    and "ch_patches c = [location_patch (l_id x) ''archivedAt'' (json_of_nullable JStr (l_archivedAt x))
               (json_of_nullable JStr (if arch then Some ts else None)),
             location_patch (l_id x) ''updatedAt'' (JStr (l_updatedAt x)) (JStr ts)] @
            plan_invalidation_patches s [] (some_ids [Some (l_id x), l_parentId x]) @ ps"
proof -
  from h obtain x ps where x: "find_location s i = Some x" and flip: "l_archived x \<noteq> arch"
    and check: "(if arch
        then if filter (\<lambda>c. \<not> l_archived c) (descendants_of (ws_locations s) (l_id x)) \<noteq> []
             then throw ARCHIVE_HAS_DESCENDANTS
             else if list_ex (\<lambda>z. i_locationId z = l_id x \<and> \<not> i_archived z) (ws_items s)
             then throw ARCHIVE_HAS_CONTENTS else Inr ()
        else validate_location s (json_of_location (x\<lparr>l_archivedAt := None\<rparr>)) (Some (l_id x))) = Inr ()"
    and edit: "(if set_at (l_parentId x) \<and> l_archived x \<noteq> arch
               then contents_editable s [l_parentId x] else Inr ()) = Inr ()"
    and pp: "(if \<not> arch \<and> set_at (l_parentId x) then capture_progress_patches s (the (l_parentId x)) ts
            else Inr []) = Inr ps"
    and c: "ch_patches c = [location_patch (l_id x) ''archivedAt'' (json_of_nullable JStr (l_archivedAt x))
             (if arch then JStr ts else JNull),
           location_patch (l_id x) ''updatedAt'' (JStr (l_updatedAt x)) (JStr ts)] @
          plan_invalidation_patches s [] (some_ids [Some (l_id x), l_parentId x]) @ ps"
    unfolding location_archive_def archive_location_def Let_def if_Inl_eq_Inr option.case json.case
    by (elim and_then_InrE) (unfold if_Inl_eq_Inr, elim conjE and_then_InrE, simp)
  show thesis
    by (rule that [OF x flip _ _ _ pp])
      (use check edit flip c in \<open>auto simp: list_ex_iff filter_empty_conv json_of_nullable_def
        simp del: assert_contents_editable.simps split: if_splits\<close>)
qed

text \<open>A location without live descendants has no live children.\<close>

lemma no_live_children:
  assumes wf: "wf_state s" and none: "\<not> list_ex live (descendants_of (ws_locations s) i)"
    and l: "l \<in> set (ws_locations s)" "l_parentId l = Some i"
  shows "l_archived l"
proof -
  have "(i, l_id l) \<in> child_rel (ws_locations s)" using l by (auto simp: child_rel_def)
  moreover have "l_id l \<noteq> i" using wf_stateD(1) [OF wf] calculation
    by (auto simp: hierarchy_ok_def acyclic_def)
  ultimately have "l_id l \<in> l_id ` set (descendants_of (ws_locations s) i)" by (auto simp: descendants_of_iff)
  then obtain k where k: "k \<in> set (descendants_of (ws_locations s) i)" "l_id k = l_id l" by auto
  with descendants_of_subset have "k \<in> set (ws_locations s)" by blast
  with k l wf_stateD(5) [OF wf] have "k = l" by (auto simp: distinct_map dest: inj_onD)
  with k none show ?thesis by (auto simp: list_ex_iff)
qed

text \<open>Archiving sets the archive mark and the timestamp, and moves nothing.\<close>

lemma location_archive_effect:
  assumes h: "location_archive s ts i (Some (JBool arch)) = Inr c" and t: "apply_patches s (ch_patches c) = Inr t"
    and wf: "wf_state s"
  obtains x y R where "find_location s i = Some x" and "l_id y = i"
    and "l_archivedAt y = (if arch then Some ts else None)" and "l_captureStatus y = l_captureStatus x"
    and "l_parentId y = l_parentId x" and "norm_code y = norm_code x"
    and "ws_locations t = reopen_all R ts (set_location i (\<lambda>_. y) (ws_locations s))"
    and "ws_items t = ws_items s" and "plans_ok (ws_plans t)"
proof -
  let ?ls = "ws_locations s"
  let ?new = "if arch then Some ts else None"
  from h obtain x ps where x: "find_location s i = Some x"
    and pp: "(if \<not> arch \<and> set_at (l_parentId x) then capture_progress_patches s (the (l_parentId x)) ts
              else Inr []) = Inr ps"
    and c: "ch_patches c = [location_patch (l_id x) ''archivedAt'' (json_of_nullable JStr (l_archivedAt x))
               (json_of_nullable JStr ?new),
             location_patch (l_id x) ''updatedAt'' (JStr (l_updatedAt x)) (JStr ts)] @
            plan_invalidation_patches s [] (some_ids [Some (l_id x), l_parentId x]) @ ps"
    by (rule location_archive_accepted)
  from pp obtain R where R: "progresses s ts ps R" by (rule optional_progress)
  let ?es = "[(''archivedAt'', Some (json_of_nullable JStr (l_archivedAt x)), json_of_nullable JStr ?new),
     (''updatedAt'', Some (JStr (l_updatedAt x)), JStr ts)]"
  have id: "l_id x = i" using find_locationD [OF x] by auto
  have "patches_of Target_location (ch_patches c) = entry_patches Target_location i ?es @ ps"
    by (simp add: c id entry_patches_def patches_of_progress [OF R])
  then have "fold_result patch_locations ?ls (entry_patches Target_location i ?es @ ps) = Inr (ws_locations t)"
    using apply_patches_split [OF t] by simp
  then obtain y where locs: "ws_locations t = reopen_all R ts (set_location i (\<lambda>_. y) ?ls)" and y: "l_id y = i"
    and keep: "\<And>k a. k \<notin> fst ` set ?es \<Longrightarrow> atom a \<Longrightarrow> map_of (location_obj x) k = Some a \<Longrightarrow>
        map_of (location_obj y) k = Some a"
    and val: "\<And>k b v. (k, b, v) \<in> set ?es \<Longrightarrow> atom v \<Longrightarrow> map_of (location_obj y) k = Some v"
    by (rule location_entries [OF x _ R wf_stateD(5) [OF wf]]) auto
  note fields = location_kept [of "fst ` set ?es" x y, OF keep]
  have f: "l_captureStatus y = l_captureStatus x" "l_parentId y = l_parentId x" "norm_code y = norm_code x"
    by (rule fields; simp)+
  have "map_of (location_obj y) ''archivedAt'' = Some (json_of_nullable JStr ?new)"
    by (intro val [of _ "Some (json_of_nullable JStr (l_archivedAt x))"]) simp_all
  then have ar: "l_archivedAt y = ?new" by (simp add: location_obj_def)
  show ?thesis
  proof (rule that [OF x y ar f locs])
    show "ws_items t = ws_items s"
      using apply_patches_untouched(2) [OF t] by (simp add: c patches_of_progress [OF R])
    show "plans_ok (ws_plans t)"
      by (rule plans_after_invalidation [OF wf t]) (simp add: c patches_of_progress [OF R])
  qed
qed

lemma location_archive_boolean:
  "location_archive s ts i arch = Inr c \<Longrightarrow> \<exists>b. arch = Some (JBool b)"
  by (cases arch; cases "the arch") (auto simp: location_archive_def and_then_eq_Inr)

lemma preserve_location_archived:
  assumes h: "location_archive s ts i (Some (JBool arch)) = Inr c" and t: "apply_patches s (ch_patches c) = Inr t"
    and wf: "wf_state s"
  shows "wf_state t"
proof -
  let ?ls = "ws_locations s"
  from h t wf obtain x y R where x: "find_location s i = Some x" and y: "l_id y = i"
    and ar: "l_archivedAt y = (if arch then Some ts else None)"
    and f: "l_captureStatus y = l_captureStatus x" "l_parentId y = l_parentId x" "norm_code y = norm_code x"
    and t': "ws_locations t = reopen_all R ts (set_location i (\<lambda>_. y) ?ls)" "ws_items t = ws_items s" "plans_ok (ws_plans t)"
    by (rule location_archive_effect)
  have id: "l_id x = i" and x': "x \<in> set ?ls" using find_locationD [OF x] by auto
  from h have flip: "l_archived x \<noteq> arch"
    and down: "arch \<Longrightarrow> \<not> list_ex live (descendants_of ?ls i) \<and>
        \<not> list_ex (\<lambda>z. i_locationId z = i \<and> \<not> i_archived z) (ws_items s)"
    and up: "\<not> arch \<Longrightarrow> validate_location s (json_of_location (x\<lparr>l_archivedAt := None\<rparr>)) (Some i) = Inr ()"
    and edit: "set_at (l_parentId x) \<Longrightarrow> contents_editable s [l_parentId x] = Inr ()"
    by (rule location_archive_accepted; use x id in simp)+
  note d = wf_stateD(5) [OF wf]
  show ?thesis
  proof (rule wf_state_replace_location [OF wf x y _ f(1) _ _ t'(1) t'(2,3)])
    show "placeable s (Some i) y"
    proof (cases arch)
      case True
      with flip have "live x" by simp
      from placeable_self [OF wf_stateD(1) [OF wf] x' this, of y] show ?thesis using y f id by simp
    next
      case False
      from validate_location_placeable [OF up [OF this]]
      have "placeable s (Some i) (x\<lparr>l_archivedAt := None\<rparr>)" by simp
      then show ?thesis
        by (rule placeable_cong) (use y f id ar False in \<open>simp_all add: norm_code_def\<close>)
    qed
    show "live y \<or> ((\<forall>l\<in>set ?ls. l_parentId l = Some i \<longrightarrow> l_archived l) \<and>
        (\<forall>z\<in>set (ws_items s). i_locationId z = i \<longrightarrow> i_archived z))"
      using no_live_children [OF wf] down ar by (cases arch) (auto simp: list_ex_iff)
    show "live x \<and> l_parentId x = Some (l_id m)"
      if m: "live y" "m \<in> set ?ls" "l_parentId y = Some (l_id m)" "l_captureStatus m = Known_empty" "l_id m \<notin> R" for m
    proof (cases arch)
      case True
      with flip m(3) f(2) show ?thesis by simp
    next
      case False
      have mp: "l_parentId x = Some (l_id m)" using m(3) f(2) by simp
      have nm: "l_id m \<noteq> []" using wf_stateD(1) [OF wf] m(2) by (auto simp: hierarchy_ok_def)
      from validate_location_placeable [OF up [OF False] same_place_obj] mp
      obtain q where "find_location s (l_id m) = Some q" "live q" by (auto simp: placeable_def)
      then have "live m" using find_locationI [OF d m(2)] by simp
      have "contents_editable s [l_parentId x] = Inr ()" using edit mp nm by simp
      from editable_location [OF this _ nm m(2) refl d \<open>live m\<close>] mp m(4) show ?thesis
        by (simp add: capture_complete_def)
    qed
  qed
qed

lemma preserve_location_archive:
  assumes "location_archive s ts i arch = Inr c" and "apply_patches s (ch_patches c) = Inr t" and "wf_state s"
  shows "wf_state t"
  using location_archive_boolean [OF assms(1)] assms preserve_location_archived by blast

end
