(* ===== verification/Preserve_Update.thy ===== *)
theory Preserve_Update
  imports Preserve_Hierarchy
begin

text \<open>
  Updating and deleting locations (\<open>Commands_Location\<close>, \<open>src/domain/commands.ts\<close>) keeps the
  invariant.  An update is a partial change: the properties it names are merged into the
  record, validated together, and written one by one where they differ.
\<close>

section \<open>Partial changes\<close>

lemma read_top:
  "read_path k (Some (JObj r)) = Inr b \<Longrightarrow> path_keys k = Some [k] \<Longrightarrow> b = map_of r k"
  by (auto simp: read_path_def path_keys_def split: option.splits if_splits)

lemma changed_entriesE:
  assumes "changed_entries r m = Inr es" and d: "distinct (map fst m)"
    and k: "\<forall>k\<in>fst ` set m. path_keys k = Some [k]"
  shows "fst ` set es \<subseteq> fst ` set m" and "distinct (map fst es)"
    and "\<And>k b v. (k, b, v) \<in> set es \<Longrightarrow> (k, v) \<in> set m \<and> b = map_of r k"
    and "\<And>k v. (k, v) \<in> set m \<Longrightarrow> k \<notin> fst ` set es \<Longrightarrow> equal_opt (map_of r k) (Some v)"
proof -
  let ?e = "\<lambda>(k, v). (k, map_of r k, v)"
  have "ys = map ?e xs"
    if "map_result (\<lambda>(k, v). and_then (read_path k (Some (JObj r))) (\<lambda>b. Inr (k, b, v))) xs = Inr ys"
      and "set xs \<subseteq> set m" for xs ys
    using that
  proof (induction xs arbitrary: ys)
    case (Cons x xs)
    obtain k v where x: "x = (k, v)" by force
    with Cons.prems obtain b zs where "read_path k (Some (JObj r)) = Inr b" "ys = (k, b, v) # zs" "zs = map ?e xs"
      using Cons.IH by (auto simp: and_then_eq_Inr)
    moreover have "path_keys k = Some [k]" using k Cons.prems(2) x by force
    ultimately show ?case using x read_top by simp
  qed simp
  with assms(1) have es: "es = filter (\<lambda>(k, b, v). \<not> equal_opt b (Some v)) (map ?e m)"
    by (auto simp: changed_entries_def and_then_eq_Inr)
  show "fst ` set es \<subseteq> fst ` set m" unfolding es by force
  have "map fst (map ?e m) = map fst m" by (induction m) auto
  with d have "distinct (map fst (map ?e m))" by (simp only:)
  then show "distinct (map fst es)" unfolding es by (rule distinct_filter_ids)
  show "(k, v) \<in> set m \<and> b = map_of r k" if "(k, b, v) \<in> set es" for k b v
    using that unfolding es by auto
  show "equal_opt (map_of r k) (Some v)" if "(k, v) \<in> set m" "k \<notin> fst ` set es" for k v
    using that unfolding es by force
qed

lemma location_key_path: "k \<in> set location_change_keys \<Longrightarrow> path_keys k = Some [k] \<and> k \<noteq> ''id''"
  by (auto simp: location_change_keys_def path_keys_def unsafe_path_keys_def)

lemma normalize_change_simps [simp]:
  "map_of (normalize_change k v m) k' =
     (if k' = k \<and> map_of m k \<noteq> None then Some v else map_of m k')"
  "fst ` set (normalize_change k v m) = fst ` set m"
  "distinct (map fst m) \<Longrightarrow> distinct (map fst (normalize_change k v m))"
proof -
  show "map_of (normalize_change k v m) k' = (if k' = k \<and> map_of m k \<noteq> None then Some v else map_of m k')"
    by (simp add: normalize_change_def update_conv')
  show "fst ` set (normalize_change k v m) = fst ` set m"
    by (cases "map_of m k") (auto simp: normalize_change_def dom_update map_of_eq_None_iff
      dest: map_of_SomeD intro: rev_image_eqI)
  show "distinct (map fst m) \<Longrightarrow> distinct (map fst (normalize_change k v m))"
    by (simp add: normalize_change_def distinct_update)
qed


text \<open>A partial change whose properties are distinct and have names.\<close>

fun plain_changes :: "json \<Rightarrow> bool" where
  "plain_changes (JObj m) = (distinct (map fst m) \<and> [] \<notin> fst ` set m)"
| "plain_changes j = True"

lemma change_place:
  assumes place: "distinct (map fst m)" "fst ` set m \<subseteq> set location_change_keys"
    and nxt: "nxt = AList.update ''name'' nm (AList.update ''code'' (JStr (js_upper (js_trim code)))
        (AList.update ''updatedAt'' (JStr ts) (obj_merge (location_obj x) m)))"
    and code: "map_of (obj_merge (location_obj x) m) ''code'' = Some (JStr code)"
    and keep: "\<And>k a. k \<notin> insert ''updatedAt'' (fst ` set m) \<Longrightarrow> atom a \<Longrightarrow>
        map_of (location_obj x) k = Some a \<Longrightarrow> map_of (location_obj y) k = Some a"
    and val: "\<And>k v. map_of m k = Some v \<Longrightarrow> k \<notin> {''code'', ''name''} \<Longrightarrow> atom v \<Longrightarrow> map_of (location_obj y) k = Some v"
    and valc: "''code'' \<in> fst ` set m \<Longrightarrow> map_of (location_obj y) ''code'' = Some (JStr (js_upper (js_trim code)))"
    and parent: "map_of nxt ''parentId'' = Some JNull \<or> satisfies nonblank_string (map_of nxt ''parentId'')"
  shows "same_place nxt y" and "l_captureStatus y = l_captureStatus x" and "l_id y = l_id x"
    and "l_archivedAt y = l_archivedAt x"
proof -
  have sub: "k \<in> set location_change_keys" if "map_of m k = Some v" for k v
    using place(2) map_of_SomeD [OF that] by force
  have none: "map_of m ''id'' = None" "map_of m ''archivedAt'' = None" "map_of m ''captureStatus'' = None"
    using sub by (auto simp: location_change_keys_def intro: ccontr)
  then have nk: "''id'' \<notin> fst ` set m" "''archivedAt'' \<notin> fst ` set m" "''captureStatus'' \<notin> fst ` set m"
    by (simp_all add: map_of_eq_None_iff)
  note merge = map_of_obj_merge [OF place(1)]
  note kept = location_kept [of "insert ''updatedAt'' (fst ` set m)" x y, OF keep]
  show status: "l_captureStatus y = l_captureStatus x" by (rule kept(2)) (use nk in simp_all)
  show ar: "l_archivedAt y = l_archivedAt x" by (rule kept(1)) (use nk in simp_all)
  show id: "l_id y = l_id x"
    using keep [of "''id''" "JStr (l_id x)"] nk(1) by (simp add: location_obj_def)
  have par: "map_of nxt ''parentId'' = Some (json_of_nullable JStr (l_parentId y))"
  proof (cases "map_of m ''parentId''")
    case None
    then have "''parentId'' \<notin> fst ` set m" by (simp add: map_of_eq_None_iff)
    then have "l_parentId y = l_parentId x" by (intro kept(3)) simp_all
    then show ?thesis by (simp add: nxt merge None update_conv') (simp add: location_obj_def)
  next
    case (Some v)
    then have n: "map_of nxt ''parentId'' = Some v" by (simp add: nxt merge update_conv')
    with parent have "atom v" by (cases v) auto
    with val [OF Some] have "map_of (location_obj y) ''parentId'' = Some v" by simp
    with n show ?thesis by (simp add: location_obj_def)
  qed
  have "norm_code y = js_upper (js_trim code)"
  proof (cases "map_of m ''code''")
    case None
    then have "''code'' \<notin> fst ` set m" by (simp add: map_of_eq_None_iff)
    then have "norm_code y = norm_code x" by (intro kept(4)) simp_all
    moreover have "code = l_code x" using code None by (simp add: merge location_obj_def)
    ultimately show ?thesis by (simp add: norm_code_def)
  next
    case (Some v)
    then have "''code'' \<in> fst ` set m" by (force dest: map_of_SomeD)
    with valc have "l_code y = js_upper (js_trim code)" by (simp add: location_obj_def)
    then show ?thesis by (simp add: norm_code_def normal_code_idem)
  qed
  then show "same_place nxt y"
    using par none id ar
    by (auto simp: same_place_def nxt merge update_conv' normal_code_idem) (simp_all add: location_obj_def)
qed


lemma preserve_location_update:
  assumes h: "location_update s ts i changes reopen = Inr c" and t: "apply_patches s (ch_patches c) = Inr t"
    and wf: "wf_state s" and plain: "plain_changes changes"
  shows "wf_state t"
proof -
  let ?ls = "ws_locations s"
  let ?merged = "\<lambda>x m. AList.update ''updatedAt'' (JStr ts) (obj_merge (location_obj x) m)"
  let ?code = "\<lambda>x m. js_upper (js_trim (text_of (map_of (?merged x m) ''code'')))"
  let ?nm = "\<lambda>x m. js_trim (text_of (map_of (?merged x m) ''name''))"
  let ?nxt = "\<lambda>x m. AList.update ''name'' (JStr (?nm x m)) (AList.update ''code'' (JStr (?code x m)) (?merged x m))"
  let ?par = "\<lambda>x m. string_or_none (map_of (?nxt x m) ''parentId'')"
  obtain x m es ps where x: "find_location s i = Some x" "live x"
    and m: "allowed_changes location_change_keys (Some changes) = Inr m"
    and code: "satisfies is_string (map_of (?merged x m) ''code'')"
    and v: "validate_location s (JObj (?nxt x m)) (Some (l_id x)) = Inr ()"
    and es: "changed_entries (location_obj x)
        (normalize_change ''name'' (JStr (?nm x m)) (normalize_change ''code'' (JStr (?code x m)) m)) = Inr es"
    and pp: "parent_progress s (l_parentId x) (?par x m) reopen ts = Inr ps"
    and edit: "?par x m \<noteq> l_parentId x \<Longrightarrow> \<not> reopens reopen \<Longrightarrow>
        contents_editable s [l_parentId x, ?par x m] = Inr ()"
    and c: "ch_patches c = entry_patches Target_location (l_id x) es @
              [location_patch (l_id x) ''updatedAt'' (JStr (l_updatedAt x)) (JStr ts)] @
              (if changes_any [''conditions'', ''dimensions'', ''kind'', ''parentId'', ''tags''] es
               then plan_invalidation_patches s [] (some_ids [Some (l_id x), ?par x m]) else []) @
              (if ?par x m \<noteq> l_parentId x then ps else [])"
  proof -
    from h show thesis
      unfolding location_update_def Let_def
      apply (elim and_then_InrE)
      apply (unfold if_Inl_eq_Inr)
      apply (elim conjE and_then_InrE)
      apply (unfold if_Inl_eq_Inr)
      apply (elim conjE and_then_InrE)
      subgoal for x m u v es ps
        by (rule that [of x m es ps])
          (auto simp del: assert_contents_editable.simps validate_location_def split: if_splits)
      done
  qed
  let ?m = "normalize_change ''name'' (JStr (?nm x m)) (normalize_change ''code'' (JStr (?code x m)) m)"
  let ?es = "es @ [(''updatedAt'', Some (JStr (l_updatedAt x)), JStr ts)]"
  have ch: "changes = JObj m" using allowed_changes_JObj [OF m] by simp
  with plain have dm: "distinct (map fst m)" and ne: "[] \<notin> set (map fst m)" by auto
  have sub: "fst ` set m \<subseteq> set location_change_keys" using allowed_changes_keys [OF m ne] by simp
  have keys: "fst ` set ?m = fst ` set m" by simp
  have paths: "\<forall>k\<in>fst ` set ?m. path_keys k = Some [k]" unfolding keys using sub location_key_path by blast
  have dm': "distinct (map fst ?m)" using dm by simp
  note E = changed_entriesE [OF es dm' paths]
  have esub: "fst ` set es \<subseteq> set location_change_keys" using E(1) sub unfolding keys by blast
  have up: "''updatedAt'' \<notin> set location_change_keys" by (simp add: location_change_keys_def)
  have id: "l_id x = i" using found_id [OF x(1)] by simp
  note d = wf_stateD(5) [OF wf]
  have ps: "(if ?par x m \<noteq> l_parentId x then ps else []) = ps"
    using pp by (auto simp: parent_progress_def)
  obtain R where R: "progresses s ts ps R" and arr: "\<And>n. l_parentId x \<noteq> ?par x m \<Longrightarrow> n \<in> set ?ls \<Longrightarrow>
      ?par x m = Some (l_id n) \<Longrightarrow> l_id n \<noteq> [] \<Longrightarrow> live n \<Longrightarrow> l_captureStatus n = Known_empty \<Longrightarrow> l_id n \<in> R"
    by (rule parent_progress_arrival [OF pp _ d]) (use edit in auto)
  have locp: "patches_of Target_location (ch_patches c) = entry_patches Target_location i ?es @ ps"
  proof -
    have "patches_of Target_location (entry_patches Target_location i zs) = entry_patches Target_location i zs" for zs
      by (auto simp: entry_patches_def intro!: patches_of_all)
    then show ?thesis
      unfolding c ps id by (simp add: patches_of_progress [OF R]) (simp add: entry_patches_def)
  qed
  have pk: "\<forall>e\<in>set ?es. path_keys (fst e) = Some [fst e] \<and> fst e \<noteq> ''id''"
    using esub location_key_path by (auto simp: path_keys_def unsafe_path_keys_def)
  have pd: "distinct (map fst ?es)" using E(2) esub up by auto
  have "fold_result patch_locations ?ls (entry_patches Target_location i ?es @ ps) = Inr (ws_locations t)"
    using apply_patches_split [OF t] unfolding locp by blast
  then obtain y where locs: "ws_locations t = reopen_all R ts (set_location i (\<lambda>_. y) ?ls)" and y: "l_id y = i"
    and keep: "\<And>k a. k \<notin> fst ` set ?es \<Longrightarrow> atom a \<Longrightarrow> map_of (location_obj x) k = Some a \<Longrightarrow>
        map_of (location_obj y) k = Some a"
    and val: "\<And>k b v. (k, b, v) \<in> set ?es \<Longrightarrow> atom v \<Longrightarrow> map_of (location_obj y) k = Some v"
    by (rule location_entries [OF x(1) _ R d pk pd]) blast
  have kept: "map_of (location_obj y) k = Some a"
    if "k \<notin> insert ''updatedAt'' (fst ` set m)" "atom a" "map_of (location_obj x) k = Some a" for k a
    using keep [of k a] E(1) that unfolding keys by auto
  have written: "map_of (location_obj y) k = Some w" if "map_of ?m k = Some w" "atom w" for k w
  proof (cases "k \<in> fst ` set es")
    case True
    then obtain b w' where e: "(k, b, w') \<in> set es" by force
    from map_of_is_SomeI [OF dm'] E(3) [OF e] have "map_of ?m k = Some w'" by blast
    with that(1) have "w' = w" by (simp only: option.inject)
    with val [of k b w] e that(2) show ?thesis by simp
  next
    case False
    have "(k, w) \<in> set ?m" using that(1) by (rule map_of_SomeD)
    with E(4) [OF this False] have "map_of (location_obj x) k = Some w"
      using that(2) by (simp add: equal_opt_atom)
    moreover have "k \<in> fst ` set ?m" using \<open>(k, w) \<in> set ?m\<close> by (rule image_eqI [rotated]) simp
    then have "k \<in> set location_change_keys" using sub unfolding keys by blast
    ultimately show ?thesis using keep [of k w] False that(2) up by auto
  qed
  obtain cd where cd: "map_of (?merged x m) ''code'' = Some (JStr cd)"
    using code by (cases "map_of (?merged x m) ''code''"; cases "the (map_of (?merged x m) ''code'')") auto
  have place: "same_place (?nxt x m) y" "l_captureStatus y = l_captureStatus x" "l_archivedAt y = l_archivedAt x"
  proof -
    have nx: "?nxt x m = AList.update ''name'' (JStr (?nm x m)) (AList.update ''code'' (JStr (js_upper (js_trim cd)))
        (?merged x m))" by (simp add: cd text_of_def)
    have cd': "map_of (obj_merge (location_obj x) m) ''code'' = Some (JStr cd)" using cd by (simp add: update_conv')
    have par: "map_of (?nxt x m) ''parentId'' = Some JNull \<or> satisfies nonblank_string (map_of (?nxt x m) ''parentId'')"
      using v by (auto simp: validate_location_def Let_def split: if_splits)
    have v1: "map_of (location_obj y) k = Some w"
      if "map_of m k = Some w" "k \<notin> {''code'', ''name''}" "atom w" for k w
      using written [of k w] that by simp
    have v2: "map_of (location_obj y) ''code'' = Some (JStr (js_upper (js_trim cd)))" if "''code'' \<in> fst ` set m"
    proof -
      have "map_of m ''code'' \<noteq> None" using that by (simp add: map_of_eq_None_iff)
      then show ?thesis using written [of "''code''"] cd by (simp add: text_of_def)
    qed
    note P = change_place [OF dm sub nx cd' kept v1 v2 par]
    show "same_place (?nxt x m) y" by (rule P(1); assumption)
    show "l_captureStatus y = l_captureStatus x" by (rule P(2); assumption)
    show "l_archivedAt y = l_archivedAt x" by (rule P(4); assumption)
  qed
  have py: "l_parentId y = ?par x m" using place(1) by (simp add: same_place_def)
  have p: "placeable s (Some i) y" using validate_location_placeable [OF v place(1)] id by simp
  show ?thesis
  proof (rule wf_state_replace_location [OF wf x(1) y p place(2) _ _ locs])
    show "live y \<or> ((\<forall>l\<in>set ?ls. l_parentId l = Some i \<longrightarrow> l_archived l) \<and>
        (\<forall>x\<in>set (ws_items s). i_locationId x = i \<longrightarrow> i_archived x))" using place(3) x(2) by simp
    show "live x \<and> l_parentId x = Some (l_id n)"
      if n: "live y" "n \<in> set ?ls" "l_parentId y = Some (l_id n)" "l_captureStatus n = Known_empty" "l_id n \<notin> R" for n
    proof (rule conjI [OF x(2)], rule ccontr)
      assume ne: "l_parentId x \<noteq> Some (l_id n)"
      from p n(1,3) obtain q where "find_location s (l_id n) = Some q" "live q" "l_id n \<noteq> []"
        by (auto simp: placeable_def)
      then have "live n" using find_locationI [OF d n(2)] by simp
      with arr [OF _ n(2)] ne n(3-5) py \<open>l_id n \<noteq> []\<close> show False by auto
    qed
    have entries: "patches_of k (entry_patches Target_location i' zs) = []" if "k \<noteq> Target_location" for k i' zs
      using that by (auto simp: entry_patches_def intro!: patches_of_none)
    show "ws_items t = ws_items s"
      using apply_patches_untouched(2) [OF t] by (simp add: c ps entries patches_of_progress [OF R])
    show "plans_ok (ws_plans t)"
      by (rule plans_after_optional_invalidation [OF wf t]) (simp add: c ps entries patches_of_progress [OF R])
  qed
qed

section \<open>Deleting a location\<close>

text \<open>Removing a set of locations that is closed under nesting, with the items in it.\<close>

lemma wf_state_remove:
  assumes wf: "wf_state s" and closed: "\<And>p c. (p, c) \<in> child_rel (ws_locations s) \<Longrightarrow> p \<in> D \<Longrightarrow> c \<in> D"
    and locs: "ws_locations t = filter (\<lambda>l. l_id l \<notin> D) (ws_locations s)"
    and items: "ws_items t = filter (\<lambda>x. i_locationId x \<notin> D) (ws_items s)"
    and plans: "plans_ok (ws_plans t)"
  shows "wf_state t"
proof -
  note h = wf_stateD(1) [OF wf, unfolded hierarchy_ok_def]
  have "parent_known (ws_locations t) l" if l: "l \<in> set (ws_locations t)" for l
  proof (cases "l_parentId l")
    case (Some p)
    have l': "l \<in> set (ws_locations s)" "l_id l \<notin> D" using l locs by auto
    then have e: "(p, l_id l) \<in> child_rel (ws_locations s)" using Some by (auto simp: child_rel_def)
    with closed l'(2) have "p \<notin> D" by blast
    moreover have "p \<in> l_id ` set (ws_locations s)" by (rule child_rel_parents [OF wf_stateD(1) [OF wf] e])
    ultimately show ?thesis using Some locs by (auto simp: parent_known_def)
  qed (simp add: parent_known_def)
  moreover have "child_rel (ws_locations t) \<subseteq> child_rel (ws_locations s)"
    by (auto simp: child_rel_def locs)
  with h have "acyclic (child_rel (ws_locations t))" by (blast intro: acyclic_subset)
  moreover have "live_parent (ws_locations t) l" if "l \<in> set (ws_locations t)" for l
    using h that by (auto simp: locs live_parent_def)
  moreover have "filter live (ws_locations t) = filter (\<lambda>l. l_id l \<notin> D) (filter live (ws_locations s))"
    by (simp add: locs conj_commute)
  then have "distinct (map norm_code (filter live (ws_locations t)))"
    using h distinct_filter_ids [of norm_code "filter live (ws_locations s)"] by simp
  ultimately have "hierarchy_ok (ws_locations t)"
    using h distinct_filter_ids [of l_id "ws_locations s"] by (simp add: hierarchy_ok_def locs)
  moreover have "items_ok (ws_locations t) (ws_items t)"
    using wf_stateD(2) [OF wf] distinct_filter_ids [of i_id "ws_items s"]
    by (auto simp: items_ok_def place_ok_def locs items)
  moreover have "empty_ok (ws_locations t) (ws_items t)"
    using wf_stateD(3) [OF wf] by (auto simp: empty_ok_def holds_nothing_def locs items)
  ultimately show ?thesis using plans by (simp add: wf_state_def)
qed

lemma map_require_item:
  "map_result (require_item s) ids = Inr xs \<Longrightarrow> map i_id xs = ids \<and> set xs \<subseteq> set (ws_items s)"
  by (induction ids arbitrary: xs) (auto simp: and_then_eq_Inr dest!: find_itemD)

text \<open>The subtree a deletion removes, and the patches it emits.\<close>

definition subtree :: "location list \<Rightarrow> string \<Rightarrow> string set" where
  "subtree ls i = insert i (l_id ` set (descendants_of ls i))"

lemma location_delete_accepted:
  assumes h: "location_delete s i rl ri = Inr c"
  obtains l xs ids where "find_location s i = Some l" and "l_id l = i"
    and "ids = sort (map i_id (filter (\<lambda>x. i_locationId x \<in> subtree (ws_locations s) i) (ws_items s)))"
    and "map_result (require_item s) ids = Inr xs"
    and "sort rl = sort (map l_id (descendants_of (ws_locations s) i))" and "sort ri = ids"
    and "ch_patches c = plan_invalidation_patches s ids (i # map l_id (descendants_of (ws_locations s) i)) @
           map delete_item_patch xs @ map delete_location_patch (rev (descendants_of (ws_locations s) i) @ [l])"
  using h unfolding location_delete_def Let_def
  apply (elim and_then_InrE)
  apply (unfold if_Inl_eq_Inr)
  apply (elim conjE and_then_InrE)
  subgoal premises p for l xs u
  proof -
    have l: "find_location s i = Some l" using p by (simp only: require_location_iff)
    then have id: "l_id l = i" by (blast dest: found_id)
    note q = p [unfolded id]
    have D: "set (i # map l_id (descendants_of (ws_locations s) i)) = subtree (ws_locations s) i"
      by (simp add: subtree_def)
    note q = q [unfolded D]
    show ?thesis
      by (rule p(1) [OF l id]) (use q in \<open>simp_all only: mk_change_Inr change.simps map_append list.map append_assoc de_Morgan_disj not_not\<close>)
  qed
  done

lemma location_delete_effect:
  assumes h: "location_delete s i rl ri = Inr c" and t: "apply_patches s (ch_patches c) = Inr t"
    and wf: "wf_state s"
  shows "ws_items t = filter (\<lambda>x. i_locationId x \<notin> subtree (ws_locations s) i) (ws_items s)"
    and "ws_locations t = filter (\<lambda>l. l_id l \<notin> subtree (ws_locations s) i) (ws_locations s)"
    and "plans_ok (ws_plans t)"
proof -
  let ?ls = "ws_locations s"
  let ?ds = "descendants_of ?ls i"
  from h obtain l xs ids where id: "l_id l = i"
    and ids: "ids = sort (map i_id (filter (\<lambda>x. i_locationId x \<in> subtree ?ls i) (ws_items s)))"
    and xs: "map_result (require_item s) ids = Inr xs"
    and c: "ch_patches c = plan_invalidation_patches s ids (i # map l_id ?ds) @
           map delete_item_patch xs @ map delete_location_patch (rev ?ds @ [l])"
    by (rule location_delete_accepted)
  have "i_id ` set xs = set ids" using map_require_item [OF xs] by (metis list.set_map)
  then have xset: "i_id ` set xs = i_id ` {x \<in> set (ws_items s). i_locationId x \<in> subtree ?ls i}"
    by (simp add: ids)
  note di = wf_stateD(6) [OF wf]
  have "ws_items t = filter (\<lambda>x. i_id x \<notin> i_id ` set xs) (ws_items s)"
    using apply_patches_split [OF t] delete_items_fold [OF di, of xs] by (simp add: c del: map_append)
  also have "\<dots> = filter (\<lambda>x. i_locationId x \<notin> subtree ?ls i) (ws_items s)"
    unfolding xset using di by (intro filter_cong) (auto simp: distinct_map dest: inj_onD)
  finally show "ws_items t = filter (\<lambda>x. i_locationId x \<notin> subtree ?ls i) (ws_items s)" .
  have "l_id ` set (rev ?ds @ [l]) = subtree ?ls i" by (auto simp: subtree_def id)
  then show "ws_locations t = filter (\<lambda>l. l_id l \<notin> subtree ?ls i) ?ls"
    using apply_patches_split [OF t] delete_locations_fold [OF wf_stateD(5) [OF wf], of "rev ?ds @ [l]"]
    by (simp add: c del: map_append)
  show "plans_ok (ws_plans t)"
    by (rule plans_after_invalidation [OF wf t]) (simp add: c del: map_append)
qed

lemma preserve_location_delete:
  assumes h: "location_delete s i rl ri = Inr c" and t: "apply_patches s (ch_patches c) = Inr t"
    and wf: "wf_state s"
  shows "wf_state t"
proof (rule wf_state_remove [OF wf])
  note e = location_delete_effect [OF h t wf]
  show "ws_locations t = filter (\<lambda>l. l_id l \<notin> subtree (ws_locations s) i) (ws_locations s)"
    and "ws_items t = filter (\<lambda>x. i_locationId x \<notin> subtree (ws_locations s) i) (ws_items s)"
    and "plans_ok (ws_plans t)" by (fact e)+
  show "c \<in> subtree (ws_locations s) i" if "(p, c) \<in> child_rel (ws_locations s)" "p \<in> subtree (ws_locations s) i" for p c
    using that by (auto simp: subtree_def descendants_of_iff intro: trancl_into_trancl)
qed

end
