(* ===== verification/Preserve_Item.thy ===== *)
theory Preserve_Item
  imports Preserve_Update
begin

text \<open>
  Creating, updating, reordering and deleting items (\<open>Commands_Item\<close>,
  \<open>src/domain/commands.ts\<close>) keeps the invariant: identifiers stay unique, quantities
  positive, versions safe, every item in a location that exists and is live if the item is, and
  no item arrives unnoticed in a space that is recorded as known empty.
\<close>

section \<open>Changes of the items\<close>

lemma wf_state_items:
  assumes wf: "wf_state s" and locs: "ws_locations t = reopen_all R ts (ws_locations s)"
    and items: "items_ok (ws_locations s) (ws_items t)" and plans: "plans_ok (ws_plans t)"
    and arrival: "\<And>x m. x \<in> set (ws_items t) \<Longrightarrow> \<not> i_archived x \<Longrightarrow> m \<in> set (ws_locations s) \<Longrightarrow>
        l_id m = i_locationId x \<Longrightarrow> l_captureStatus m = Known_empty \<Longrightarrow> l_id m \<notin> R \<Longrightarrow>
        \<exists>x'\<in>set (ws_items s). \<not> i_archived x' \<and> i_locationId x' = i_locationId x"
  shows "wf_state t"
proof -
  have "empty_ok (ws_locations t) (ws_items t)"
    unfolding locs
  proof (rule empty_ok_reopen)
    fix m assume m: "m \<in> set (ws_locations s)" "l_captureStatus m = Known_empty" "l_id m \<notin> R"
    with wf_stateD(3) [OF wf] have h: "holds_nothing (ws_locations s) (ws_items s) (l_id m)"
      by (simp add: empty_ok_def)
    show "holds_nothing (ws_locations s) (ws_items t) (l_id m)"
      unfolding holds_nothing_def
    proof (intro conjI ballI impI)
      fix x assume x: "x \<in> set (ws_items t)" "i_locationId x = l_id m"
      show "i_archived x"
      proof (rule ccontr)
        assume "\<not> i_archived x"
        from arrival [OF x(1) this m(1) x(2) [symmetric] m(2,3)] h x(2) show False
          by (auto simp: holds_nothing_def)
      qed
    qed (use h in \<open>simp add: holds_nothing_def\<close>)
  qed
  then show ?thesis
    using hierarchy_ok_skeleton [OF skeleton_reopen_all [symmetric] wf_stateD(1) [OF wf]]
      items_ok_skeleton [OF skeleton_reopen_all [symmetric] items] plans
    by (simp add: wf_state_def locs)
qed

text \<open>An item record after a change that leaves it in its place.\<close>

definition touched :: "item \<Rightarrow> item \<Rightarrow> bool" where
  "touched x y \<longleftrightarrow> i_id y = i_id x \<and> i_locationId y = i_locationId x \<and> i_archivedAt y = i_archivedAt x \<and>
     (item_ok x \<longrightarrow> item_ok y)"

lemma touched_refl [simp]: "touched x x"
  by (simp add: touched_def)

lemma touched_trans: "touched x y \<Longrightarrow> touched y z \<Longrightarrow> touched x z"
  by (simp add: touched_def)

lemma all_touched_refl [simp]: "list_all2 touched xs xs"
  by (simp add: list.rel_refl)

lemma all_touched_trans: "list_all2 touched xs ys \<Longrightarrow> list_all2 touched ys zs \<Longrightarrow> list_all2 touched xs zs"
  by (rule list_all2_trans) (rule touched_trans)

lemma touched_set_item:
  assumes "List.find (\<lambda>x. i_id x = i) xs = Some x" and "touched x y"
  shows "list_all2 touched xs (set_item i (\<lambda>_. y) xs)"
  using assms unfolding set_item_def by (induction xs) (auto split: if_splits)

lemma touched_origin: "list_all2 touched xs ys \<Longrightarrow> y \<in> set ys \<Longrightarrow> \<exists>x\<in>set xs. touched x y"
  by (induction rule: list_all2_induct) auto

lemma wf_state_touched:
  assumes wf: "wf_state s" and locs: "ws_locations t = reopen_all R ts (ws_locations s)"
    and items: "list_all2 touched (ws_items s) (ws_items t)" and plans: "plans_ok (ws_plans t)"
  shows "wf_state t"
proof (rule wf_state_items [OF wf locs _ plans])
  have origin: "\<exists>x\<in>set (ws_items s). touched x y" if "y \<in> set (ws_items t)" for y
    by (rule touched_origin [OF items that])
  have "map i_id (ws_items t) = map i_id (ws_items s)"
    using items by (induction rule: list_all2_induct) (auto simp: touched_def)
  moreover have "item_ok y \<and> place_ok (ws_locations s) y" if "y \<in> set (ws_items t)" for y
    using origin [OF that] wf_stateD(2) [OF wf] by (auto simp: items_ok_def touched_def place_ok_def)
  ultimately show "items_ok (ws_locations s) (ws_items t)"
    using wf_stateD(2) [OF wf] by (simp add: items_ok_def)
  show "\<exists>x'\<in>set (ws_items s). \<not> i_archived x' \<and> i_locationId x' = i_locationId x"
    if "x \<in> set (ws_items t)" "\<not> i_archived x" for x
    using origin [OF that(1)] that(2) by (auto simp: touched_def)
qed

section \<open>Property patches of an item\<close>

lemma idset_set_item: "(\<And>x. i_id (f x) = i_id x) \<Longrightarrow> i_id ` set (set_item i f xs) = i_id ` set xs"
  using ids_set_item [of f i xs] by (metis list.set_map)

lemma version_fold:
  assumes "i_id x = i" and "i \<in> i_id ` set xs"
  shows "fold_result patch_items xs (version_patches x ts v)
    = Inr (set_item i (\<lambda>x. x\<lparr>i_updatedAt := ts, i_version := v\<rparr>) xs)"
proof -
  have "i_id ` set (set_item i (\<lambda>x. x\<lparr>i_updatedAt := ts\<rparr>) xs) = i_id ` set xs"
    by (rule idset_set_item) simp
  then show ?thesis
    using assms by (simp add: version_patches_def item_patches(2,5) set_item_twice)
qed


lemma in_ids: "List.find (\<lambda>x. i_id x = i) xs = Some x \<Longrightarrow> i_id x = i \<and> i \<in> i_id ` set xs"
  by (auto dest: find_SomeD)

text \<open>A run of property patches of one item, closed by its new version.\<close>

lemma item_entries:
  assumes x: "List.find (\<lambda>x. i_id x = i) xs = Some x" and x': "i_id x' = i"
    and fold: "fold_result patch_items xs (entry_patches Target_item i es @ version_patches x' ts v) = Inr ys"
    and heads: "\<forall>e\<in>set es. fst e \<noteq> [] \<and> entry_head e \<noteq> ''id''"
  obtains y where "ys = set_item i (\<lambda>_. y) xs" and "i_id y = i" and "i_version y = v"
    and "\<And>k a. k \<notin> entry_head ` set es \<Longrightarrow> k \<notin> {''updatedAt'', ''version''} \<Longrightarrow> atom a \<Longrightarrow>
        map_of (item_obj x) k = Some a \<Longrightarrow> map_of (item_obj y) k = Some a"
    and "\<And>k b w. distinct (map entry_head es) \<Longrightarrow> (k, b, w) \<in> set es \<Longrightarrow> path_keys k = Some [k] \<Longrightarrow>
        k \<notin> {''updatedAt'', ''version''} \<Longrightarrow> atom w \<Longrightarrow> map_of (item_obj y) k = Some w"
proof -
  from fold obtain zs where z: "fold_result patch_items xs (entry_patches Target_item i es) = Inr zs"
    and rest: "fold_result patch_items zs (version_patches x' ts v) = Inr ys"
    by (auto simp: fold_result_append and_then_eq_Inr)
  from item_records.entries_fold [OF z x heads] obtain w where
    w: "zs = set_item i (\<lambda>_. w) xs" "i_id w = i" "item_records.run_result es x w"
    by (auto simp: set_item_def)
  let ?y = "w\<lparr>i_updatedAt := ts, i_version := v\<rparr>"
  have fz: "List.find (\<lambda>x. i_id x = i) zs = Some w"
    using find_map_first [OF x, of w] w(2) by (simp add: w(1) set_item_def)
  then have "ys = set_item i (\<lambda>x. x\<lparr>i_updatedAt := ts, i_version := v\<rparr>) zs"
    using rest version_fold [OF x'] in_ids [OF fz] by simp
  also have "\<dots> = set_item i (\<lambda>_. ?y) zs"
    unfolding set_item_def using map_first_const [OF fz, of "\<lambda>x. x\<lparr>i_updatedAt := ts, i_version := v\<rparr>"]
    by simp
  also have "\<dots> = set_item i (\<lambda>_. ?y) xs"
    unfolding w(1) set_item_def by (rule map_first_twice) (rule w(2))
  finally have ys: "ys = set_item i (\<lambda>_. ?y) xs" .
  have same: "map_of (item_obj ?y) k = map_of (item_obj w) k" if "k \<notin> {''updatedAt'', ''version''}" for k
    using that by (simp add: item_obj_def)
  show ?thesis
  proof (rule that [OF ys])
    show "i_id ?y = i" "i_version ?y = v" using w(2) by simp_all
    show "map_of (item_obj ?y) k = Some a"
      if "k \<notin> entry_head ` set es" "k \<notin> {''updatedAt'', ''version''}" "atom a" "map_of (item_obj x) k = Some a" for k a
      using w(3) that unfolding item_records.run_result_def same [OF that(2)] by blast
    show "map_of (item_obj ?y) k = Some u"
      if "distinct (map entry_head es)" "(k, b, u) \<in> set es" "path_keys k = Some [k]"
        "k \<notin> {''updatedAt'', ''version''}" "atom u" for k b u
      using w(3) that unfolding item_records.run_result_def same [OF that(4)] by force
  qed
qed

lemma item_kept:
  assumes "\<And>k a. k \<notin> K \<Longrightarrow> atom a \<Longrightarrow> map_of (item_obj x) k = Some a \<Longrightarrow> map_of (item_obj y) k = Some a"
  shows "''archivedAt'' \<notin> K \<Longrightarrow> i_archivedAt y = i_archivedAt x"
    and "''locationId'' \<notin> K \<Longrightarrow> i_locationId y = i_locationId x"
    and "''quantity'' \<notin> K \<Longrightarrow> i_quantity y = i_quantity x"
proof -
  show "''archivedAt'' \<notin> K \<Longrightarrow> i_archivedAt y = i_archivedAt x"
    using assms [of "''archivedAt''" "json_of_nullable JStr (i_archivedAt x)"] by (simp add: item_obj_def)
  show "''locationId'' \<notin> K \<Longrightarrow> i_locationId y = i_locationId x"
    using assms [of "''locationId''" "JStr (i_locationId x)"] by (simp add: item_obj_def)
  show "''quantity'' \<notin> K \<Longrightarrow> i_quantity y = i_quantity x"
    using assms [of "''quantity''" "JNum (i_quantity x)"] by (simp add: item_obj_def)
qed

text \<open>A new version that the handler computed from a record that satisfies the invariant.\<close>

definition good_version :: "jsnum \<Rightarrow> bool" where
  "good_version v \<longleftrightarrow> is_safe_integer v \<and> \<not> js_less v (Fin 1)"

lemma next_version_good: "next_item_version x = Inr v \<Longrightarrow> item_ok x \<Longrightarrow> good_version v"
  using next_item_version_safe by (simp add: good_version_def item_ok_def)

lemma patches_of_entries [simp]:
  "patches_of t (entry_patches t i es) = entry_patches t i es"
  "t \<noteq> t' \<Longrightarrow> patches_of t (entry_patches t' i es) = []"
  by (auto simp: entry_patches_def intro!: patches_of_all patches_of_none)

lemma patches_of_version [simp]:
  "patches_of Target_item (version_patches x ts v) = version_patches x ts v"
  "patches_of Target_location (version_patches x ts v) = []"
  "patches_of Target_plan (version_patches x ts v) = []"
  by (simp_all add: version_patches_def)

lemma find_item_ok: "find_item s i = Some x \<Longrightarrow> wf_state s \<Longrightarrow> item_ok x \<and> i_id x = i \<and> x \<in> set (ws_items s)"
  by (auto simp: wf_state_def items_ok_def dest!: find_itemD)

lemma item_run_touched:
  assumes x: "List.find (\<lambda>x. i_id x = i) xs = Some x" and x': "i_id x' = i"
    and fold: "fold_result patch_items xs (entry_patches Target_item i es @ version_patches x' ts v) = Inr ys"
    and heads: "\<forall>e\<in>set es. fst e \<noteq> [] \<and> entry_head e \<notin> {''id'', ''archivedAt'', ''locationId'', ''quantity''}"
    and v: "good_version v"
  shows "list_all2 touched xs ys"
proof -
  have "\<forall>e\<in>set es. fst e \<noteq> [] \<and> entry_head e \<noteq> ''id''" using heads by blast
  from item_entries [OF x x' fold this] obtain y where
    y: "ys = set_item i (\<lambda>_. y) xs" "i_id y = i" "i_version y = v"
    and keep: "\<And>k a. k \<notin> entry_head ` set es \<Longrightarrow> k \<notin> {''updatedAt'', ''version''} \<Longrightarrow> atom a \<Longrightarrow>
        map_of (item_obj x) k = Some a \<Longrightarrow> map_of (item_obj y) k = Some a"
    by blast
  let ?K = "entry_head ` set es \<union> {''updatedAt'', ''version''}"
  have "map_of (item_obj y) k = Some a" if "k \<notin> ?K" "atom a" "map_of (item_obj x) k = Some a" for k a
    using keep [of k a] that by blast
  note kept = item_kept [of ?K x y, OF this]
  have "i_archivedAt y = i_archivedAt x" "i_locationId y = i_locationId x" "i_quantity y = i_quantity x"
    by (rule kept; use heads in force)+
  then have "touched x y"
    using y v in_ids [OF x] by (auto simp: touched_def item_ok_def good_version_def)
  with x show ?thesis
    unfolding y(1) by (rule touched_set_item)
qed

lemma preserve_item_reorder:
  assumes h: "item_reorder s ts i q = Inr c" and t: "apply_patches s (ch_patches c) = Inr t"
    and wf: "wf_state s"
  shows "wf_state t"
proof -
  obtain x v where x: "find_item s i = Some x" and v: "next_item_version x = Inr v"
    and c: "ch_patches c = entry_patches Target_item (i_id x) [(''order'', Some (JNum (i_order x)), JNum q)] @ version_patches x ts v"
    using h unfolding item_reorder_def
    by (elim and_then_InrE) (auto simp: and_then_eq_Inr entry_patches_def split: if_splits)
  note ok = find_item_ok [OF x wf]
  have fold: "fold_result patch_items (ws_items s) (entry_patches Target_item i
      [(''order'', Some (JNum (i_order x)), JNum q)] @ version_patches x ts v) = Inr (ws_items t)"
    using apply_patches_split [OF t] ok by (simp add: c)
  have "list_all2 touched (ws_items s) (ws_items t)"
    by (rule item_run_touched [OF x [unfolded find_item_def] _ fold])
      (use ok next_version_good [OF v] in \<open>simp_all add: entry_head_def head_of_def\<close>)
  then show ?thesis
    using wf_state_touched [OF wf, of t "{}"] apply_patches_untouched(1,3) [OF t] wf_stateD(4) [OF wf]
    by (simp add: c)
qed

section \<open>Items that arrive as JSON\<close>

text \<open>Every number in the value is a double (or one of the special values).\<close>

fun doubles :: "json \<Rightarrow> bool" where
  "doubles (JNum n) = num_ok n"
| "doubles (JArr xs) = list_all doubles xs"
| "doubles (JObj m) = list_all (\<lambda>(k, v). doubles v) m"
| "doubles j = True"

lemma doubles_property: "doubles (JObj m) \<Longrightarrow> map_of m k = Some v \<Longrightarrow> doubles v"
  by (auto simp: list_all_iff dest!: map_of_SomeD)

lemma item_of_fields:
  assumes "item_of (JObj m) = Some y"
  shows "map_of m ''id'' = Some (JStr (i_id y))" and "map_of m ''locationId'' = Some (JStr (i_locationId y))"
    and "map_of m ''archivedAt'' = Some (json_of_nullable JStr (i_archivedAt y))"
    and "map_of m ''quantity'' = Some (JNum (i_quantity y))"
    and "map_of m ''version'' = Some (JNum (i_version y))"
  using assms
  by (auto simp: item_of_def bind_eq_Some_conv field_of_eq_Some str_of_iff num_of_iff
      nullable_of_def json_of_nullable_def split: if_splits)

lemma validated_item_ok:
  assumes v: "validate_item s (JObj m) = Inr ()" and y: "item_of (JObj m) = Some y" and d: "doubles (JObj m)"
  shows "item_ok y" and "\<not> blank (i_id y)"
    and "\<not> i_archived y \<Longrightarrow> \<exists>l. find_location s (i_locationId y) = Some l \<and> live l"
proof -
  note f = item_of_fields [OF y]
  from v f have "is_finite (i_quantity y) \<and> js_less (Fin 0) (i_quantity y)" "is_safe_integer (i_version y)"
    "\<not> js_less (i_version y) (Fin 1)"
    by (auto simp: validate_item_def Let_def split: if_splits)
  moreover have "num_ok (i_quantity y)" using doubles_property [OF d f(4)] by simp
  ultimately show "item_ok y" by (simp add: item_ok_def)
  show "\<not> blank (i_id y)" using v f by (auto simp: validate_item_def Let_def split: if_splits)
  show "\<exists>l. find_location s (i_locationId y) = Some l \<and> live l" if "\<not> i_archived y"
    using v f that by (auto simp: validate_item_def Let_def and_then_eq_Inr split: if_splits)
qed

text \<open>New items in live spaces; a space recorded as known empty reopens unless the item is archived.\<close>

lemma wf_state_new_items:
  assumes wf: "wf_state s" and locs: "ws_locations t = reopen_all R ts (ws_locations s)"
    and items: "ws_items t = ws_items s @ ys" and plans: "plans_ok (ws_plans t)"
    and fresh: "distinct (map i_id ys)" "i_id ` set ys \<inter> i_id ` set (ws_items s) = {}"
    and ok: "\<And>y. y \<in> set ys \<Longrightarrow> item_ok y \<and> (\<exists>l. find_location s (i_locationId y) = Some l \<and> live l)"
    and arrival: "\<And>y m. y \<in> set ys \<Longrightarrow> \<not> i_archived y \<Longrightarrow> m \<in> set (ws_locations s) \<Longrightarrow>
        l_id m = i_locationId y \<Longrightarrow> live m \<Longrightarrow> l_captureStatus m = Known_empty \<Longrightarrow> l_id m \<in> R"
  shows "wf_state t"
proof (rule wf_state_items [OF wf locs _ plans])
  note d = wf_stateD(5) [OF wf]
  have place: "place_ok (ws_locations s) y" if y: "y \<in> set ys" for y
  proof -
    obtain l where l: "find_location s (i_locationId y) = Some l" "live l" using ok [OF y] by blast
    then have "l \<in> set (ws_locations s)" "l_id l = i_locationId y" by (auto dest: find_locationD)
    moreover have "live m" if "m \<in> set (ws_locations s)" "l_id m = i_locationId y" for m
      using find_locationI [OF d that(1)] that(2) l by simp
    ultimately show ?thesis by (auto simp: place_ok_def image_iff intro!: bexI [of _ l])
  qed
  then show "items_ok (ws_locations s) (ws_items t)"
    using wf_stateD(2) [OF wf] fresh ok unfolding items items_ok_def by auto
  show "\<exists>x'\<in>set (ws_items s). \<not> i_archived x' \<and> i_locationId x' = i_locationId x"
    if x: "x \<in> set (ws_items t)" "\<not> i_archived x" "m \<in> set (ws_locations s)" "l_id m = i_locationId x"
      "l_captureStatus m = Known_empty" "l_id m \<notin> R" for x m
  proof (cases "x \<in> set ys")
    case True
    then obtain l where "find_location s (i_locationId x) = Some l" "live l" using ok by blast
    then have "live m" using find_locationI [OF d x(3)] x(4) by simp
    with arrival [OF True x(2-4)] x(5,6) show ?thesis by blast
  next
    case False
    with x(1,2) show ?thesis by (auto simp: items)
  qed
qed

lemma create_fold:
  assumes "length ids = length js" and "distinct ids" and "set ids \<inter> i_id ` set xs = {}"
    and "\<forall>(i, j)\<in>set (zip ids js). \<forall>y. item_of j = Some y \<longrightarrow> i_id y = i"
    and "fold_result patch_items xs (map (\<lambda>(i, j). mk_patch Target_item i [] None (Some j)) (zip ids js)) = Inr zs"
  shows "\<exists>ys. zs = xs @ ys \<and> list_all2 (\<lambda>j y. item_of j = Some y) js ys \<and> map i_id ys = ids"
  using assms
proof (induction ids js arbitrary: xs rule: list_induct2)
  case (Cons i ids j js)
  from Cons.prems have i: "i \<notin> i_id ` set xs" by auto
  with Cons.prems(4) obtain y where y: "item_of j = Some y"
    and rest: "fold_result patch_items (xs @ [y])
      (map (\<lambda>(i, j). mk_patch Target_item i [] None (Some j)) (zip ids js)) = Inr zs"
    by (auto simp: item_records.create_patch and_then_eq_Inr)
  have id: "i_id y = i" using Cons.prems(3) y by auto
  have "set ids \<inter> i_id ` set (xs @ [y]) = {}" "distinct ids" using Cons.prems(1,2) id by auto
  from Cons.IH [OF this(2,1) _ rest] Cons.prems(3) obtain ys where
    "zs = (xs @ [y]) @ ys" "list_all2 (\<lambda>j y. item_of j = Some y) js ys" "map i_id ys = ids" by auto
  then show ?case using y id by (intro exI [of _ "y # ys"]) simp
qed simp

lemma preserve_item_create:
  assumes h: "item_create s ts itm = Inr c" and t: "apply_patches s (ch_patches c) = Inr t"
    and wf: "wf_state s" and dbl: "doubles itm"
  shows "wf_state t"
proof -
  from h obtain m where m: "itm = JObj m" and v: "validate_item s (JObj m) = Inr ()"
    by (cases itm) (auto simp: item_create_def Let_def and_then_eq_Inr validate_item_def)
  obtain i loc where i: "map_of m ''id'' = Some (JStr i)" and loc: "map_of m ''locationId'' = Some (JStr loc)"
    using v by (auto simp: validate_item_def Let_def nonblank_string_iff split: if_splits)
  obtain ps where fresh: "i \<notin> i_id ` set (ws_items s)"
    and pr: "capture_progress_patches s loc ts = Inr ps"
    and c: "ch_patches c = plan_invalidation_patches s [] [loc] @ mk_patch Target_item i [] None (Some itm) # ps"
    using h unfolding item_create_def Let_def m jget_JObj
    by (elim and_then_InrE, unfold if_Inl_eq_Inr, elim conjE and_then_InrE)
      (simp only: i loc text_of_def, auto simp: list_ex_iff)
  from pr obtain R l where R: "progresses s ts ps R" and l: "find_location s loc = Some l" "live l"
    and re: "l_captureStatus l = Known_empty \<Longrightarrow> loc \<in> R" by (rule capture_progress) blast
  have fold: "fold_result patch_items (ws_items s) [mk_patch Target_item i [] None (Some itm)] = Inr (ws_items t)"
    using apply_patches_split [OF t] by (simp add: c patches_of_progress [OF R])
  then obtain y where y: "item_of (JObj m) = Some y" and items: "ws_items t = ws_items s @ [y]"
    by (auto simp: item_records.create_patch [OF fresh] and_then_eq_Inr m)
  note f = item_of_fields [OF y]
  have yi: "i_id y = i" "i_locationId y = loc" using f i loc by simp_all
  show ?thesis
  proof (rule wf_state_new_items [OF wf _ items])
    show "ws_locations t = reopen_all R ts (ws_locations s)"
      using apply_patches_split [OF t] progresses_fold [OF R wf_stateD(5) [OF wf]]
      by (simp add: c patches_of_progress [OF R])
    show "plans_ok (ws_plans t)" by (rule plans_after_invalidation [OF wf t]) (simp add: c patches_of_progress [OF R])
    show "item_ok z \<and> (\<exists>l. find_location s (i_locationId z) = Some l \<and> live l)" if "z \<in> set [y]" for z
      using that validated_item_ok(1) [OF v y] dbl l yi m by auto
    show "l_id n \<in> R" if "z \<in> set [y]" "n \<in> set (ws_locations s)" "l_id n = i_locationId z"
      "l_captureStatus n = Known_empty" for z n
      using that yi l(1) re find_locationI [OF wf_stateD(5) [OF wf], of n] by auto
  qed (use fresh yi in auto)
qed

lemma preserve_item_delete:
  assumes h: "item_delete s i = Inr c" and t: "apply_patches s (ch_patches c) = Inr t"
    and wf: "wf_state s"
  shows "wf_state t"
proof -
  obtain x where x: "find_item s i = Some x"
    and c: "ch_patches c = plan_invalidation_patches s [i_id x] [i_locationId x] @ map delete_item_patch [x]"
    using h unfolding item_delete_def by (elim and_then_InrE) simp
  have items: "ws_items t = filter (\<lambda>y. i_id y \<notin> i_id ` set [x]) (ws_items s)"
    using apply_patches_split [OF t] delete_items_fold [OF wf_stateD(6) [OF wf], of "[x]"]
    unfolding c patches_of_simps(3) patches_of_deletes by simp
  have lp: "ws_locations t = reopen_all {} ts (ws_locations s)"
    using apply_patches_untouched(1) [OF t] unfolding c patches_of_simps(3) patches_of_deletes by simp
  show ?thesis
  proof (rule wf_state_items [OF wf lp])
    show "items_ok (ws_locations s) (ws_items t)"
      using wf_stateD(2) [OF wf] distinct_filter_ids [of i_id "ws_items s"] by (auto simp: items items_ok_def)
    show "plans_ok (ws_plans t)"
      by (rule plans_after_invalidation [OF wf t]) (unfold c patches_of_simps(3) patches_of_deletes, simp)
  qed (auto simp: items)
qed

end
