(* ===== verification/Preserve_Bulk.thy ===== *)
theory Preserve_Bulk
  imports Preserve_Item
begin

text \<open>
  The update of one item, and the handlers that act on many items at once
  (\<open>Commands_Item\<close>, \<open>src/domain/commands.ts\<close>), keep the invariant.
\<close>

section \<open>Updating an item\<close>

lemma item_key_path: "k \<in> set item_change_keys \<Longrightarrow>
  path_keys k = Some [k] \<and> k \<notin> {''id'', ''archivedAt'', ''locationId'', ''updatedAt'', ''version''}"
  by (auto simp: item_change_keys_def path_keys_def unsafe_path_keys_def)

lemma validated_quantity:
  "validate_item s (JObj n) = Inr u \<Longrightarrow> map_of n ''quantity'' = Some w \<Longrightarrow>
   \<exists>q. w = JNum q \<and> is_finite q \<and> js_less (Fin 0) q"
  using num_positive_iff [of "Some w"] by (auto simp: validate_item_def Let_def split: if_splits)

lemma preserve_item_update:
  assumes h: "item_update s ts i changes = Inr c" and t: "apply_patches s (ch_patches c) = Inr t"
    and wf: "wf_state s" and plain: "plain_changes changes" and dbl: "doubles changes"
  shows "wf_state t"
proof -
  let ?merged = "\<lambda>x m v. AList.update ''version'' (JNum v)
       (AList.update ''updatedAt'' (JStr ts) (obj_merge (item_obj x) m))"
  let ?nm = "\<lambda>x m v. js_trim (text_of (map_of (?merged x m v) ''name''))"
  let ?un = "\<lambda>x m v. js_trim (text_of (map_of (?merged x m v) ''unit''))"
  let ?nxt = "\<lambda>x m v. AList.update ''unit'' (JStr (?un x m v)) (AList.update ''name'' (JStr (?nm x m v)) (?merged x m v))"
  obtain x m v es u where x: "find_item s i = Some x"
    and m: "allowed_changes item_change_keys (Some changes) = Inr m"
    and v: "next_item_version x = Inr v"
    and val: "validate_item s (JObj (?nxt x m v)) = Inr u"
    and es: "changed_entries (item_obj x)
        (normalize_change ''unit'' (JStr (?un x m v)) (normalize_change ''name'' (JStr (?nm x m v)) m)) = Inr es"
    and c: "ch_patches c = (if changes_any [''category'', ''constraints'', ''dimensions'', ''frequency'', ''quantity'',
                                 ''tags'', ''unit''] es
                 then plan_invalidation_patches s [i_id x] [i_locationId x] else []) @
                entry_patches Target_item (i_id x) es @ version_patches x ts v"
  proof -
    from h show thesis
      unfolding item_update_def Let_def
      apply (elim and_then_InrE)
      apply (unfold if_Inl_eq_Inr)
      apply (elim conjE and_then_InrE)
      apply (unfold if_Inl_eq_Inr)
      apply (elim conjE and_then_InrE)
      apply (unfold if_Inl_eq_Inr)
      apply (elim conjE and_then_InrE)
      subgoal premises p for x m v u es w
        by (rule that [of x m v u es]) (use p in \<open>simp_all only: require_item_iff mk_change_Inr change.simps\<close>)
      done
  qed
  let ?m = "normalize_change ''unit'' (JStr (?un x m v)) (normalize_change ''name'' (JStr (?nm x m v)) m)"
  have ch: "changes = JObj m" using allowed_changes_JObj [OF m] by simp
  with plain have dm: "distinct (map fst m)" and ne: "[] \<notin> set (map fst m)" by auto
  have sub: "fst ` set m \<subseteq> set item_change_keys" using allowed_changes_keys [OF m ne] by simp
  have keys: "fst ` set ?m = fst ` set m" by simp
  have paths: "\<forall>k\<in>fst ` set ?m. path_keys k = Some [k]" unfolding keys using sub item_key_path by blast
  have dm': "distinct (map fst ?m)" using dm by simp
  note E = changed_entriesE [OF es dm' paths]
  have esub: "fst ` set es \<subseteq> set item_change_keys" using E(1) sub unfolding keys by blast
  note ok = find_item_ok [OF x wf]
  have heads: "entry_head e = fst e" if "e \<in> set es" for e
    using item_key_path [of "fst e"] esub that by (auto simp: entry_head_def head_of_def)
  have hs: "map entry_head es = map fst es" "entry_head ` set es = fst ` set es"
    using heads by (auto simp: image_iff)
  have nonempty: "\<forall>e\<in>set es. fst e \<noteq> [] \<and> entry_head e \<noteq> ''id''"
    using heads item_key_path esub by (fastforce simp: path_keys_def)
  have fold: "fold_result patch_items (ws_items s) (entry_patches Target_item i es @ version_patches x ts v)
      = Inr (ws_items t)"
    using apply_patches_split [OF t] ok by (simp add: c)
  from item_entries [OF x [unfolded find_item_def] _ fold nonempty] ok obtain y where
    y: "ws_items t = set_item i (\<lambda>_. y) (ws_items s)" "i_id y = i" "i_version y = v"
    and keep: "\<And>k a. k \<notin> fst ` set es \<Longrightarrow> k \<notin> {''updatedAt'', ''version''} \<Longrightarrow> atom a \<Longrightarrow>
        map_of (item_obj x) k = Some a \<Longrightarrow> map_of (item_obj y) k = Some a"
    and writ: "\<And>k b w. distinct (map fst es) \<Longrightarrow> (k, b, w) \<in> set es \<Longrightarrow> path_keys k = Some [k] \<Longrightarrow>
        k \<notin> {''updatedAt'', ''version''} \<Longrightarrow> atom w \<Longrightarrow> map_of (item_obj y) k = Some w"
    unfolding hs by blast
  let ?K = "fst ` set es \<union> {''updatedAt'', ''version''}"
  have "map_of (item_obj y) k = Some a" if "k \<notin> ?K" "atom a" "map_of (item_obj x) k = Some a" for k a
    using keep [of k a] that by blast
  note kept = item_kept [of ?K x y, OF this]
  have place: "i_archivedAt y = i_archivedAt x" "i_locationId y = i_locationId x"
    by (rule kept; use esub item_key_path in fastforce)+
  have "is_finite (i_quantity y) \<and> js_less (Fin 0) (i_quantity y) \<and> num_ok (i_quantity y)"
  proof (cases "map_of m ''quantity''")
    case None
    then have "''quantity'' \<notin> fst ` set m" by (simp add: map_of_eq_None_iff)
    then have "''quantity'' \<notin> ?K" using E(1) unfolding keys by auto
    then have "i_quantity y = i_quantity x" by (intro kept(3))
    then show ?thesis using ok by (simp add: item_ok_def)
  next
    case (Some w)
    then have "map_of (?nxt x m v) ''quantity'' = Some w" by (simp add: update_conv' map_of_obj_merge [OF dm])
    from validated_quantity [OF val this] obtain n where n: "w = JNum n" "is_finite n" "js_less (Fin 0) n"
      by blast
    have "num_ok n" using doubles_property [of m "''quantity''" w] dbl ch Some n(1) by simp
    moreover have "map_of (item_obj y) ''quantity'' = Some w"
    proof (cases "''quantity'' \<in> fst ` set es")
      case True
      then obtain b w' where e: "(''quantity'', b, w') \<in> set es" by force
      from map_of_is_SomeI [OF dm'] E(3) [OF e] have "map_of ?m ''quantity'' = Some w'" by blast
      with Some have "w' = w" by simp
      with writ [OF E(2) e] n(1) show ?thesis by (simp add: path_keys_def unsafe_path_keys_def)
    next
      case False
      have "map_of ?m ''quantity'' = Some w" using Some by simp
      then have "equal_opt (map_of (item_obj x) ''quantity'') (Some w)" by (rule E(4) [OF map_of_SomeD False])
      then have "map_of (item_obj x) ''quantity'' = Some w" using n(1) by (simp add: equal_opt_atom)
      with keep [OF False] n(1) show ?thesis by simp
    qed
    ultimately show ?thesis using n by (simp add: item_obj_def)
  qed
  then have "touched x y"
    using place y(2,3) ok next_version_good [OF v] by (auto simp: touched_def item_ok_def good_version_def)
  with x have "list_all2 touched (ws_items s) (ws_items t)"
    unfolding y(1) find_item_def by (rule touched_set_item)
  moreover have "plans_ok (ws_plans t)"
    by (rule plans_after_optional_invalidation [OF wf t]) (simp add: c)
  ultimately show ?thesis
    using wf_state_touched [OF wf, of t "{}"] apply_patches_untouched(1) [OF t] by (simp add: c)
qed

section \<open>Clean JSON\<close>

text \<open>
  Two properties of JSON.  A parsed value has doubles for numbers and no property twice, which
  holds of everything that \<open>JSON.parse\<close> returns.  A named value has, at no depth, a property
  whose name is the empty string; valid JSON may well have one.
\<close>

fun parsed :: "json \<Rightarrow> bool" where
  "parsed (JNum n) = num_ok n"
| "parsed (JArr xs) = list_all parsed xs"
| "parsed (JObj m) = (distinct (map fst m) \<and> list_all (\<lambda>(k, v). parsed v) m)"
| "parsed j = True"

fun named :: "json \<Rightarrow> bool" where
  "named (JArr xs) = list_all named xs"
| "named (JObj m) = ([] \<notin> fst ` set m \<and> list_all (\<lambda>(k, v). named v) m)"
| "named j = True"

fun clean :: "json \<Rightarrow> bool" where
  "clean (JNum n) = num_ok n"
| "clean (JArr xs) = list_all clean xs"
| "clean (JObj m) = (distinct (map fst m) \<and> [] \<notin> fst ` set m \<and> list_all (\<lambda>(k, v). clean v) m)"
| "clean j = True"

lemma clean_iff: "clean j \<longleftrightarrow> parsed j \<and> named j"
  by (induction j rule: clean.induct) (auto simp: list_all_iff)

lemma parsed_doubles: "parsed j \<Longrightarrow> doubles j"
  by (induction j rule: parsed.induct) (auto simp: list_all_iff)

lemma clean_doubles: "clean j \<Longrightarrow> doubles j"
  by (simp add: clean_iff parsed_doubles)

lemma clean_plain: "clean j \<Longrightarrow> plain_changes j"
  by (cases j) simp_all

lemma clean_property: "clean (JObj m) \<Longrightarrow> map_of m k = Some v \<Longrightarrow> clean v"
  by (auto simp: list_all_iff dest!: map_of_SomeD)

section \<open>Bulk updates\<close>

lemma changed_entries_keys:
  assumes "changed_entries r m = Inr es"
  shows "fst ` set es \<subseteq> fst ` set m"
proof -
  have same: "map fst ys = map fst xs"
    if "map_result (\<lambda>(k, v). and_then (read_path k (Some (JObj r))) (\<lambda>b. Inr (k, b, v))) xs = Inr ys" for xs ys
    using that by (induction xs arbitrary: ys) (auto simp: and_then_eq_Inr split: prod.splits)
  from assms obtain ys where
    ys: "map_result (\<lambda>(k, v). and_then (read_path k (Some (JObj r))) (\<lambda>b. Inr (k, b, v))) m = Inr ys"
    and es: "es = filter (\<lambda>(k, b, v). \<not> equal_opt b (Some v)) ys"
    unfolding changed_entries_def by (elim and_then_InrE) simp
  have "fst ` set es \<subseteq> set (map fst ys)" unfolding es by auto
  then show ?thesis unfolding same [OF ys] by simp
qed

lemma bulk_entries_keys:
  "k \<in> fst ` set (bulk_entries m) \<Longrightarrow>
     (k \<in> fst ` set m \<and> k \<noteq> ''constraints'') \<or>
     (\<exists>n leaf. (''constraints'', JObj n) \<in> set m \<and> leaf \<in> fst ` set n \<and> k = ''constraints.'' @ leaf)"
  by (induction m rule: bulk_entries.induct) (force split: if_splits json.splits)+

lemma bulk_heads:
  assumes m: "allowed_changes bulk_item_change_keys (Some changes) = Inr m" and clean: "clean changes"
    and leaves: "map_of m ''constraints'' \<noteq> None \<Longrightarrow>
      allowed_changes bulk_constraint_change_keys (map_of m ''constraints'') = Inr n"
    and k: "k \<in> fst ` set (bulk_entries m)"
  shows "k \<noteq> [] \<and> head_of k \<in> {''category'', ''constraints'', ''frequency'', ''tags''}"
proof -
  have ch: "changes = JObj m" using allowed_changes_JObj [OF m] by simp
  then have sub: "fst ` set m \<subseteq> set bulk_item_change_keys"
    using allowed_changes_keys [OF m] clean by simp
  from bulk_entries_keys [OF k] show ?thesis
  proof
    assume "k \<in> fst ` set m \<and> k \<noteq> ''constraints''"
    then have "k \<in> {''category'', ''frequency'', ''tags''}" using sub by (auto simp: bulk_item_change_keys_def)
    then show ?thesis by (auto simp: head_of_def path_keys_def unsafe_path_keys_def)
  next
    assume "\<exists>n leaf. (''constraints'', JObj n) \<in> set m \<and> leaf \<in> fst ` set n \<and> k = ''constraints.'' @ leaf"
    then obtain n' leaf where n': "(''constraints'', JObj n') \<in> set m" "leaf \<in> fst ` set n'"
      "k = ''constraints.'' @ leaf" by blast
    have mo: "map_of m ''constraints'' = Some (JObj n')" using n'(1) clean ch by simp
    then have al: "allowed_changes bulk_constraint_change_keys (Some (JObj n')) = Inr n" using leaves by simp
    then have "n = n'" using allowed_changes_JObj [OF al] by simp
    moreover have "[] \<notin> fst ` set n'" using clean_property [OF clean [unfolded ch] mo] by simp
    ultimately have "leaf \<in> set bulk_constraint_change_keys" using allowed_changes_keys [OF al] n'(2) by auto
    then show ?thesis using n'(3)
      by (auto simp: bulk_constraint_change_keys_def head_of_def path_keys_def unsafe_path_keys_def)
  qed
qed

lemma bulk_update_one_shape:
  assumes "bulk_update_one s ts i changes = Inr (Some (x, ps))"
  obtains m n es v where "find_item s i = Some x"
    and "allowed_changes bulk_item_change_keys (Some changes) = Inr m"
    and "map_of m ''constraints'' \<noteq> None \<Longrightarrow>
      allowed_changes bulk_constraint_change_keys (map_of m ''constraints'') = Inr n"
    and "changed_entries (item_obj x) (bulk_entries m) = Inr es"
    and "next_item_version x = Inr v"
    and "ps = entry_patches Target_item (i_id x) es @ version_patches x ts v"
proof -
  from assms show thesis
    unfolding bulk_update_one_def Let_def
    apply (elim and_then_InrE)
    subgoal premises p for y l m n u es
    proof -
      have e: "es \<noteq> []" using p(7) by auto
      then obtain v where v: "next_item_version y = Inr v" "y = x"
        "ps = entry_patches Target_item (i_id y) es @ version_patches y ts v"
        using p(7) by (auto simp: and_then_eq_Inr)
      have y: "find_item s i = Some y" using p(1) unfolding require_active_item_iff by blast
      have n: "allowed_changes bulk_constraint_change_keys (map_of m ''constraints'') = Inr n"
        if "map_of m ''constraints'' \<noteq> None"
        using p(4) unfolding if_P [OF that] .
      from y v have "find_item s i = Some x" by (simp only:)
      from that [OF this p(3) n _ _] p(6) v show thesis by (simp only:) blast
    qed
    done
qed

lemma bulk_update_one_touched:
  assumes h: "bulk_update_one s ts i changes = Inr (Some (x, ps))" and clean: "clean changes" and wf: "wf_state s"
    and fold: "fold_result patch_items xs ps = Inr ys" and ids: "i_id ` set xs = i_id ` set (ws_items s)"
  shows "list_all2 touched xs ys"
proof -
  from h obtain m n es v where x: "find_item s i = Some x"
    and m: "allowed_changes bulk_item_change_keys (Some changes) = Inr m"
    and leaves: "map_of m ''constraints'' \<noteq> None \<Longrightarrow>
      allowed_changes bulk_constraint_change_keys (map_of m ''constraints'') = Inr n"
    and es: "changed_entries (item_obj x) (bulk_entries m) = Inr es"
    and v: "next_item_version x = Inr v"
    and ps: "ps = entry_patches Target_item (i_id x) es @ version_patches x ts v"
    by (rule bulk_update_one_shape) blast
  note ok = find_item_ok [OF x wf]
  have "\<exists>w. List.find (\<lambda>x. i_id x = i) xs = Some w"
    using ok ids by (intro item_records.find_ident) force
  then obtain w where w: "List.find (\<lambda>x. i_id x = i) xs = Some w" by blast
  have heads: "fst e \<noteq> [] \<and> entry_head e \<notin> {''id'', ''archivedAt'', ''locationId'', ''quantity''}"
    if "e \<in> set es" for e
  proof -
    have "fst e \<in> fst ` set (bulk_entries m)" using changed_entries_keys [OF es] that by blast
    from bulk_heads [OF m clean leaves this] show ?thesis by (auto simp: entry_head_def)
  qed
  show ?thesis
    by (rule item_run_touched [OF w, of x]) (use fold ps ok heads next_version_good [OF v] in auto)
qed

lemma touched_ids: "list_all2 touched xs ys \<Longrightarrow> i_id ` set ys = i_id ` set xs"
  by (induction rule: list_all2_induct) (auto simp: touched_def)

lemma bulk_update_loop_touched:
  assumes "bulk_update_loop s ts seen updates = Inr changed" and "\<forall>(i, j)\<in>set updates. clean j" and "wf_state s"
    and "fold_result patch_items xs (concat (map snd changed)) = Inr ys"
    and "i_id ` set xs = i_id ` set (ws_items s)"
  shows "list_all2 touched xs ys"
  using assms
proof (induction updates arbitrary: seen changed xs)
  case (Cons u updates)
  obtain i j where u: "u = (i, j)" by force
  from Cons.prems(1) obtain r rs where r: "bulk_update_one s ts i j = Inr r"
    and rs: "bulk_update_loop s ts (i # seen) updates = Inr rs"
    and changed: "changed = (case r of None \<Rightarrow> rs | Some u \<Rightarrow> u # rs)"
    by (auto simp: u and_then_eq_Inr split: if_splits)
  have clean: "\<forall>(i, j)\<in>set updates. clean j" "clean j" using Cons.prems(2) u by auto
  note IH = Cons.IH [OF rs clean(1) Cons.prems(3)]
  show ?case
  proof (cases r)
    case None
    then show ?thesis using IH Cons.prems(4,5) changed by simp
  next
    case (Some q)
    obtain x ps where q: "q = (x, ps)" by force
    from Cons.prems(4) obtain zs where z: "fold_result patch_items xs ps = Inr zs"
      and rest: "fold_result patch_items zs (concat (map snd rs)) = Inr ys"
      by (auto simp: changed Some q fold_result_append and_then_eq_Inr)
    have one: "list_all2 touched xs zs"
      by (rule bulk_update_one_touched [OF _ clean(2) Cons.prems(3) z Cons.prems(5)]) (use r Some q in simp)
    have "i_id ` set zs = i_id ` set (ws_items s)" using touched_ids [OF one] Cons.prems(5) by simp
    from all_touched_trans [OF one IH [OF rest this]] show ?thesis .
  qed
qed simp

lemma bulk_update_targets:
  "bulk_update_loop s ts seen updates = Inr changed \<Longrightarrow> p \<in> set (concat (map snd changed)) \<Longrightarrow>
   fp_target p = Target_item"
proof (induction updates arbitrary: seen changed)
  case (Cons u updates)
  obtain i j where u: "u = (i, j)" by force
  have one: "fp_target p = Target_item" if "bulk_update_one s ts i j = Inr (Some (x, ps))" "p \<in> set ps" for x ps
    using that by (elim bulk_update_one_shape) (auto simp: entry_patches_def version_patches_def)
  from Cons.prems(1) obtain r rs where "bulk_update_one s ts i j = Inr r"
    "bulk_update_loop s ts (i # seen) updates = Inr rs" "changed = (case r of None \<Rightarrow> rs | Some u \<Rightarrow> u # rs)"
    by (auto simp: u and_then_eq_Inr split: if_splits)
  with Cons.IH Cons.prems(2) one show ?case by (cases r) force+
qed simp

lemma preserve_item_bulk_update:
  assumes h: "item_bulk_update s ts updates reopen = Inr c" and t: "apply_patches s (ch_patches c) = Inr t"
    and wf: "wf_state s" and clean: "\<forall>(i, j)\<in>set updates. clean j"
  shows "wf_state t"
proof -
  obtain changed ps where changed: "bulk_update_loop s ts [] updates = Inr changed"
    and pr: "bulk_move_progress_patches s (map Some (uniq (map i_locationId (map fst changed)))) None ts = Inr ps"
    and c: "ch_patches c = plan_invalidation_patches s (map i_id (map fst changed))
        (uniq (map i_locationId (map fst changed))) @ concat (map snd changed) @ ps"
    using h unfolding item_bulk_update_def Let_def if_Inl_eq_Inr
    by (elim conjE and_then_InrE, unfold if_Inl_eq_Inr, elim conjE and_then_InrE) simp
  from pr obtain R where R: "progresses s ts ps R" by (rule bulk_move_progress) blast
  note targets = bulk_update_targets [OF changed]
  have items: "patches_of Target_item (concat (map snd changed)) = concat (map snd changed)"
    by (rule patches_of_all) (rule targets)
  have others: "patches_of k (concat (map snd changed)) = []" if "k \<noteq> Target_item" for k
    using targets that by (intro patches_of_none) fastforce
  have "fold_result patch_items (ws_items s) (concat (map snd changed)) = Inr (ws_items t)"
    using apply_patches_split [OF t] by (simp add: c items patches_of_progress [OF R])
  then have "list_all2 touched (ws_items s) (ws_items t)"
    by (rule bulk_update_loop_touched [OF changed clean wf]) simp
  moreover have "ws_locations t = reopen_all R ts (ws_locations s)"
    using apply_patches_split [OF t] progresses_fold [OF R wf_stateD(5) [OF wf]]
    by (simp add: c others patches_of_progress [OF R])
  moreover have "plans_ok (ws_plans t)"
    by (rule plans_after_invalidation [OF wf t]) (simp add: c others patches_of_progress [OF R])
  ultimately show ?thesis using wf_state_touched [OF wf] by blast
qed

section \<open>Bulk creation\<close>

lemma bulk_create_checks_facts:
  assumes "bulk_create_checks s seen itms = Inr u"
  shows "\<forall>j\<in>set itms. validate_item s j = Inr ()"
    and "distinct (map (\<lambda>j. text_of (jget ''id'' j)) itms)"
    and "\<forall>j\<in>set itms. text_of (jget ''id'' j) \<notin> set seen \<and> text_of (jget ''id'' j) \<notin> i_id ` set (ws_items s)"
  using assms
  by (induction s seen itms rule: bulk_create_checks.induct)
    (auto simp: and_then_eq_Inr Let_def list_ex_iff split: if_splits)

lemma validated_record: "validate_item s j = Inr u \<Longrightarrow> \<exists>m. j = JObj m"
  by (cases j) (auto simp: validate_item_def)

lemma preserve_item_bulk_create:
  assumes h: "item_bulk_create s ts itms reopen = Inr c" and t: "apply_patches s (ch_patches c) = Inr t"
    and wf: "wf_state s" and dbl: "\<forall>j\<in>set itms. doubles j"
  shows "wf_state t"
proof -
  let ?id = "\<lambda>j. text_of (jget ''id'' j)" and ?loc = "\<lambda>j. text_of (jget ''locationId'' j)"
  let ?ds = "uniq (map ?loc itms)"
  obtain u w ps where checks: "bulk_create_checks s [] itms = Inr u"
    and edit: "(if reopens reopen then Inr () else contents_editable s (map Some ?ds)) = Inr w"
    and pr: "bulk_create_progress_patches s ?ds ts (reopens reopen) = Inr ps"
    and c: "ch_patches c = plan_invalidation_patches s [] ?ds @
      map (\<lambda>(i, j). mk_patch Target_item i [] None (Some j)) (zip (map ?id itms) itms) @ ps"
    using h unfolding item_bulk_create_def Let_def if_Inl_eq_Inr
    by (elim conjE and_then_InrE) simp
  let ?creates = "map (\<lambda>(i, j). mk_patch Target_item i [] None (Some j)) (zip (map ?id itms) itms)"
  note C = bulk_create_checks_facts [OF checks]
  from pr obtain R where R: "progresses s ts ps R" and dest: "\<And>i. i \<in> set ?ds \<Longrightarrow>
      \<exists>l. find_location s i = Some l \<and> live l \<and> (reopens reopen \<longrightarrow> capture_complete (l_captureStatus l) \<longrightarrow> i \<in> R)"
    by (rule bulk_create_progress) blast
  have cp: "patches_of Target_item ?creates = ?creates" "k \<noteq> Target_item \<Longrightarrow> patches_of k ?creates = []" for k
    by (auto intro!: patches_of_all patches_of_none)
  have fold: "fold_result patch_items (ws_items s) ?creates = Inr (ws_items t)"
    using apply_patches_split [OF t] by (simp add: c cp patches_of_progress [OF R])
  have ids: "\<forall>(i, j)\<in>set (zip (map ?id itms) itms). \<forall>y. item_of j = Some y \<longrightarrow> i_id y = i"
  proof -
    have "i_id y = ?id j" if "j \<in> set itms" "item_of j = Some y" for j y
      using C(1) validated_record that item_of_fields(1) by (fastforce simp: text_of_def)
    then show ?thesis by (auto simp: set_zip)
  qed
  have fresh: "set (map ?id itms) \<inter> i_id ` set (ws_items s) = {}" using C(3) by auto
  from create_fold [OF _ C(2) fresh ids fold] obtain ys where
    items: "ws_items t = ws_items s @ ys" and dec: "list_all2 (\<lambda>j y. item_of j = Some y) itms ys"
    and yids: "map i_id ys = map ?id itms" by auto
  have from_json: "\<exists>j m. j \<in> set itms \<and> j = JObj m \<and> item_of (JObj m) = Some y \<and> validate_item s (JObj m) = Inr () \<and>
      i_locationId y \<in> set ?ds" if y: "y \<in> set ys" for y
  proof -
    from dec y obtain j where j: "j \<in> set itms" "item_of j = Some y"
      by (induction rule: list_all2_induct) auto
    moreover obtain m where m: "j = JObj m" using C(1) j(1) validated_record by blast
    moreover from this j have "i_locationId y = ?loc j" using item_of_fields(2) [of m y] by (simp add: text_of_def)
    with j(1) have "i_locationId y \<in> set ?ds" by simp
    ultimately show ?thesis using C(1) by blast
  qed
  show ?thesis
  proof (rule wf_state_new_items [OF wf _ items])
    show "ws_locations t = reopen_all R ts (ws_locations s)"
      using apply_patches_split [OF t] progresses_fold [OF R wf_stateD(5) [OF wf]]
      by (simp add: c cp patches_of_progress [OF R])
    show "plans_ok (ws_plans t)"
      by (rule plans_after_invalidation [OF wf t]) (simp add: c cp patches_of_progress [OF R])
    show "distinct (map i_id ys)" unfolding yids by (rule C(2))
    have "set (map i_id ys) \<inter> i_id ` set (ws_items s) = {}" unfolding yids by (rule fresh)
    then show "i_id ` set ys \<inter> i_id ` set (ws_items s) = {}" by simp
    show "item_ok y \<and> (\<exists>l. find_location s (i_locationId y) = Some l \<and> live l)" if y: "y \<in> set ys" for y
    proof -
      from from_json [OF y] obtain m where m: "JObj m \<in> set itms" "item_of (JObj m) = Some y"
        "validate_item s (JObj m) = Inr ()" "i_locationId y \<in> set ?ds" by blast
      from dest [OF m(4)] validated_item_ok(1) [OF m(3,2)] dbl m(1) show ?thesis by blast
    qed
    show "l_id m \<in> R" if y: "y \<in> set ys" and m: "m \<in> set (ws_locations s)" "l_id m = i_locationId y" "live m"
      "l_captureStatus m = Known_empty" for y m
    proof -
      have d: "l_id m \<in> set ?ds" using from_json [OF y] m(2) by (simp only:) blast
      show ?thesis
      proof (cases "reopens reopen")
        case True
        with dest [OF d] m find_locationI [OF wf_stateD(5) [OF wf] m(1)] show ?thesis
          by (auto simp: capture_complete_def)
      next
        case False
        with edit have e: "contents_editable s (map Some ?ds) = Inr ()" by simp
        have "l_id m \<noteq> []" using wf_stateD(1) [OF wf] m(1) by (auto simp: hierarchy_ok_def)
        from editable_location [OF e _ this m(1) refl wf_stateD(5) [OF wf] m(3)] d m(4) show ?thesis
          by (simp add: capture_complete_def)
      qed
    qed
  qed
qed

end
