(* ===== verification/Preserve_Move.thy ===== *)
theory Preserve_Move
  imports Preserve_Bulk
begin

text \<open>
  What a move does to the list of items: \<open>moved_items\<close> is the specification of
  \<open>moveItemPatches\<close> (\<open>src/domain/commands.ts\<close>), without patches.  The patches implement it,
  it keeps the invariant, and it neither creates nor loses quantity.
\<close>

section \<open>The specification of a move\<close>

definition next_version :: "item \<Rightarrow> jsnum" where
  "next_version x = js_add (i_version x) (Fin 1)"

definition with_quantity :: "string \<Rightarrow> jsnum \<Rightarrow> item \<Rightarrow> item" where
  "with_quantity ts q x = x\<lparr>i_quantity := q, i_updatedAt := ts, i_version := next_version x\<rparr>"

definition relocated :: "string \<Rightarrow> string \<Rightarrow> jsnum \<Rightarrow> item \<Rightarrow> item" where
  "relocated ts d order x =
     x\<lparr>i_locationId := d, i_order := order, i_updatedAt := ts, i_version := next_version x\<rparr>"

definition merge_target :: "wstate \<Rightarrow> item \<Rightarrow> string \<Rightarrow> item option" where
  "merge_target s x d =
     List.find (\<lambda>c. i_id c \<noteq> i_id x \<and> \<not> i_archived c \<and> i_locationId c = d \<and> equivalent c x) (ws_items s)"

definition moved_items :: "wstate \<Rightarrow> item \<Rightarrow> string \<Rightarrow> jsnum \<Rightarrow> string \<Rightarrow> string \<Rightarrow> item list" where
  "moved_items s x d q envelope_id ts =
     (let remaining = js_sub (i_quantity x) q; whole = js_eq remaining (Fin 0) in
      case merge_target s x d of
        Some m \<Rightarrow>
          (let merged = set_item (i_id m) (with_quantity ts (js_add (i_quantity m) q)) (ws_items s)
           in if whole then filter (\<lambda>y. i_id y \<noteq> i_id x) merged
              else set_item (i_id x) (with_quantity ts remaining) merged)
      | None \<Rightarrow>
          if whole then set_item (i_id x) (relocated ts d (destination_order s d)) (ws_items s)
          else set_item (i_id x) (with_quantity ts remaining) (ws_items s) @
               [split_item x (''item_split_'' @ envelope_id) d (destination_order s d) q ts])"

lemma with_quantity_sel [simp]:
  "i_id (with_quantity ts q x) = i_id x" "i_locationId (with_quantity ts q x) = i_locationId x"
  "i_archivedAt (with_quantity ts q x) = i_archivedAt x" "i_quantity (with_quantity ts q x) = q"
  "equivalent (with_quantity ts q x) z = equivalent x z"
  by (simp_all add: with_quantity_def equivalent_def)

lemma relocated_sel [simp]:
  "i_id (relocated ts d r x) = i_id x" "i_locationId (relocated ts d r x) = d"
  "i_archivedAt (relocated ts d r x) = i_archivedAt x" "i_quantity (relocated ts d r x) = i_quantity x"
  "equivalent (relocated ts d r x) z = equivalent x z"
  by (simp_all add: relocated_def equivalent_def)

lemma split_item_sel [simp]:
  "i_id (split_item x i d r q ts) = i" "i_locationId (split_item x i d r q ts) = d"
  "i_archivedAt (split_item x i d r q ts) = i_archivedAt x" "i_quantity (split_item x i d r q ts) = q"
  "i_version (split_item x i d r q ts) = Fin 1" "equivalent (split_item x i d r q ts) z = equivalent x z"
  by (simp_all add: split_item_def equivalent_def)

section \<open>The patches implement the specification\<close>

lemma quantity_fold:
  assumes ps: "item_quantity_patches x q ts = Inr ps" and x: "x \<in> set xs" and d: "distinct (map i_id xs)"
  shows "fold_result patch_items xs ps = Inr (set_item (i_id x) (with_quantity ts q) xs)"
    and "\<forall>p\<in>set ps. fp_target p = Target_item"
proof -
  let ?i = "i_id x"
  obtain v where v: "next_item_version x = Inr v" and
    p: "ps = [item_patch ?i ''quantity'' (JNum (i_quantity x)) (JNum q),
        item_patch ?i ''updatedAt'' (JStr (i_updatedAt x)) (JStr ts),
        item_patch ?i ''version'' (JNum (i_version x)) (JNum v)]"
    using ps by (auto simp: item_quantity_patches_def and_then_eq_Inr)
  have v': "v = next_version x" using v by (auto simp: next_item_version_def next_version_def split: if_splits)
  have i: "?i \<in> i_id ` set xs" using x by simp
  have i': "?i \<in> i_id ` set (set_item ?i f xs)" if "\<And>x. i_id (f x) = i_id x" for f
    using i idset_set_item [of f, OF that] by simp
  have "fold_result patch_items xs ps = Inr (set_item ?i (\<lambda>y. y\<lparr>i_quantity := q, i_updatedAt := ts, i_version := v\<rparr>) xs)"
    by (simp add: p item_patches(2,4,5) i i' set_item_twice)
  also have "set_item ?i (\<lambda>y. y\<lparr>i_quantity := q, i_updatedAt := ts, i_version := v\<rparr>) xs
      = set_item ?i (with_quantity ts q) xs"
    unfolding set_item_map [OF d] v' using d x
    by (intro map_cong refl) (auto simp: with_quantity_def distinct_map dest: inj_onD)
  finally show "fold_result patch_items xs ps = Inr (set_item ?i (with_quantity ts q) xs)" .
  show "\<forall>p\<in>set ps. fp_target p = Target_item" by (simp add: p)
qed

lemma relocate_fold:
  assumes v: "next_item_version x = Inr v" and x: "x \<in> set xs" and d: "distinct (map i_id xs)"
  shows "fold_result patch_items xs
      [item_patch (i_id x) ''locationId'' (JStr (i_locationId x)) (JStr l),
       item_patch (i_id x) ''order'' (JNum (i_order x)) (JNum r),
       item_patch (i_id x) ''updatedAt'' (JStr (i_updatedAt x)) (JStr ts),
       item_patch (i_id x) ''version'' (JNum (i_version x)) (JNum v)]
    = Inr (set_item (i_id x) (relocated ts l r) xs)"
proof -
  let ?i = "i_id x"
  have v': "v = next_version x" using v by (auto simp: next_item_version_def next_version_def split: if_splits)
  have i: "?i \<in> i_id ` set xs" using x by simp
  have i': "?i \<in> i_id ` set (set_item ?i f xs)" if "\<And>x. i_id (f x) = i_id x" for f
    using i idset_set_item [of f, OF that] by simp
  let ?f = "\<lambda>y. y\<lparr>i_locationId := l, i_order := r, i_updatedAt := ts, i_version := v\<rparr>"
  have "set_item ?i ?f xs = set_item ?i (relocated ts l r) xs"
    unfolding set_item_map [OF d] v' using d x
    by (intro map_cong refl) (auto simp: relocated_def distinct_map dest: inj_onD)
  then show ?thesis by (simp add: item_patches(1,2,3,5) i i' set_item_twice)
qed

lemma unaffected: "x \<in> set xs \<Longrightarrow> i_id x \<noteq> i \<Longrightarrow> x \<in> set (set_item i f xs)"
  unfolding set_item_def by (induction xs) auto

text \<open>The conditions under which a move is accepted.\<close>

definition move_accepted :: "wstate \<Rightarrow> item \<Rightarrow> string \<Rightarrow> jsnum \<Rightarrow> string \<Rightarrow> bool" where
  "move_accepted s x d q envelope_id \<longleftrightarrow>
     (\<exists>l. find_location s d = Some l \<and> live l) \<and> i_locationId x \<noteq> d \<and>
     is_finite q \<and> \<not> js_le q (Fin 0) \<and> \<not> js_less (i_quantity x) q \<and>
     (case merge_target s x d of
        Some m \<Rightarrow> is_finite (js_add (i_quantity m) q) \<and> (\<exists>v. next_item_version m = Inr v) \<and>
          (js_eq (js_sub (i_quantity x) q) (Fin 0) \<or> (\<exists>v. next_item_version x = Inr v))
      | None \<Rightarrow> (\<exists>v. next_item_version x = Inr v) \<and>
          (js_eq (js_sub (i_quantity x) q) (Fin 0) \<or>
           ''item_split_'' @ envelope_id \<notin> i_id ` set (ws_items s)))"

lemma move_item_patches_accepted:
  "move_item_patches s x d q e ts = Inr ps \<Longrightarrow> move_accepted s x d q e"
  unfolding move_item_patches_def move_accepted_def merge_target_def [symmetric] Let_def item_quantity_patches_def
  by (auto simp: and_then_eq_Inr list_ex_iff split: option.splits if_splits)

lemma move_implements:
  assumes h: "move_item_patches s x d q e ts = Inr ps" and x: "x \<in> set (ws_items s)"
    and dist: "distinct (map i_id (ws_items s))"
  shows "fold_result patch_items (ws_items s) ps = Inr (moved_items s x d q e ts) \<and>
    (\<forall>p\<in>set ps. fp_target p = Target_item)"
proof (cases "merge_target s x d")
  case (Some m)
  let ?merged = "set_item (i_id m) (with_quantity ts (js_add (i_quantity m) q)) (ws_items s)"
  from Some have m: "m \<in> set (ws_items s)" "i_id m \<noteq> i_id x" by (auto simp: merge_target_def dest: find_SomeD)
  have d1: "distinct (map i_id ?merged)" using dist by simp
  have x1: "x \<in> set ?merged" using x m(2) by (intro unaffected) auto
  from h Some obtain as where as: "item_quantity_patches m (js_add (i_quantity m) q) ts = Inr as"
    and rest: "(if js_eq (js_sub (i_quantity x) q) (Fin 0) then Inr (as @ [delete_item_patch x])
      else and_then (item_quantity_patches x (js_sub (i_quantity x) q) ts) (\<lambda>qs. Inr (as @ qs))) = Inr ps"
    unfolding move_item_patches_def merge_target_def [symmetric] Let_def
    by (auto simp: and_then_eq_Inr split: if_splits)
  note A = quantity_fold [OF as m(1) dist]
  show ?thesis
  proof (cases "js_eq (js_sub (i_quantity x) q) (Fin 0)")
    case True
    with rest A Some d1 show ?thesis
      by (auto simp: fold_result_append moved_items_def delete_item_patch_def item_records.delete_patch
          remove_first_key)
  next
    case False
    with rest obtain bs where bs: "item_quantity_patches x (js_sub (i_quantity x) q) ts = Inr bs" "ps = as @ bs"
      by (auto simp: and_then_eq_Inr)
    from quantity_fold [OF bs(1) x1 d1] A Some False bs(2) show ?thesis
      by (auto simp: fold_result_append moved_items_def)
  qed
next
  case None
  show ?thesis
  proof (cases "js_eq (js_sub (i_quantity x) q) (Fin 0)")
    case True
    with h None obtain v where v: "next_item_version x = Inr v" and
      ps: "ps = [item_patch (i_id x) ''locationId'' (JStr (i_locationId x)) (JStr d),
         item_patch (i_id x) ''order'' (JNum (i_order x)) (JNum (destination_order s d)),
         item_patch (i_id x) ''updatedAt'' (JStr (i_updatedAt x)) (JStr ts),
         item_patch (i_id x) ''version'' (JNum (i_version x)) (JNum v)]"
      unfolding move_item_patches_def merge_target_def [symmetric] Let_def
      by (auto simp: and_then_eq_Inr split: if_splits)
    from relocate_fold [OF v x dist] True None show ?thesis
      by (simp only: ps moved_items_def Let_def option.case if_True simp_thms) simp
  next
    case False
    let ?new = "split_item x (''item_split_'' @ e) d (destination_order s d) q ts"
    from False h None obtain bs where bs: "item_quantity_patches x (js_sub (i_quantity x) q) ts = Inr bs"
      "ps = bs @ [create_item_patch ?new]"
      unfolding move_item_patches_def merge_target_def [symmetric] Let_def
      by (auto simp: and_then_eq_Inr list_ex_iff split: if_splits)
    have fresh: "''item_split_'' @ e \<notin> i_id ` set (ws_items s)"
      using move_item_patches_accepted [OF h] False None unfolding move_accepted_def
      by (simp only: option.case simp_thms)
    note B = quantity_fold [OF bs(1) x dist]
    let ?left = "set_item (i_id x) (with_quantity ts (js_sub (i_quantity x) q)) (ws_items s)"
    have "i_id ?new \<notin> i_id ` set ?left" using fresh by (subst idset_set_item) simp_all
    then have "patch_items ?left (create_item_patch ?new) = Inr (?left @ [?new])"
      unfolding create_item_patch_def by (subst item_records.create_patch) (simp_all add: item_codec.dec_enc)
    with B False None bs(2) show ?thesis
      by (auto simp: fold_result_append moved_items_def create_item_patch_def)
  qed
qed

section \<open>A move keeps the items in order\<close>

lemma quantity_value:
  "item_ok x \<Longrightarrow> \<exists>a>0. i_quantity x = Fin a \<and> num_ok (Fin a)"
  using positive_finite_iff [of "i_quantity x"] by (auto simp: item_ok_def)

lemma moved_quantity:
  assumes "is_finite q" and "\<not> js_le q (Fin 0)"
  obtains b where "q = Fin b" and "0 < b"
  using assms by (cases q) (auto simp: js_le_def split: if_splits)

lemma next_version_ok: "next_item_version x = Inr v \<Longrightarrow> item_ok x \<Longrightarrow> good_version (next_version x)"
  using next_version_good [of x v] by (auto simp: next_item_version_def next_version_def split: if_splits)

lemma with_quantity_ok:
  "item_ok x \<Longrightarrow> next_item_version x = Inr v \<Longrightarrow> 0 < a \<Longrightarrow> num_ok (Fin a) \<Longrightarrow> item_ok (with_quantity ts (Fin a) x)"
  using next_version_ok [of x v] by (simp add: item_ok_def good_version_def with_quantity_def)

lemma relocated_ok: "item_ok x \<Longrightarrow> next_item_version x = Inr v \<Longrightarrow> item_ok (relocated ts d r x)"
  using next_version_ok [of x v] by (simp add: item_ok_def good_version_def relocated_def)

lemma split_ok: "0 < a \<Longrightarrow> num_ok (Fin a) \<Longrightarrow> item_ok (split_item x i d r (Fin a) ts)"
  by (simp add: item_ok_def is_safe_integer_def max_safe_def)

text \<open>What is left behind, unless the whole record moves.\<close>

lemma remaining_positive:
  assumes "item_ok x" and "is_finite q" and "\<not> js_le q (Fin 0)" and "\<not> js_less (i_quantity x) q"
    and "num_ok q" and "\<not> js_eq (js_sub (i_quantity x) q) (Fin 0)"
  obtains r where "js_sub (i_quantity x) q = Fin r" and "0 < r" and "num_ok (Fin r)"
proof -
  obtain a where a: "i_quantity x = Fin a" "0 < a" "num_ok (Fin a)" using quantity_value [OF assms(1)] by blast
  obtain b where b: "q = Fin b" "0 < b" using assms(2,3) by (rule moved_quantity)
  have "b \<noteq> a" using assms(6) a(1) b(1) js_sub_self by auto
  then have "b < a" using assms(4) a(1) b(1) by auto
  then obtain r where r: "js_sub (Fin a) (Fin b) = Fin r" "0 < r"
    using js_sub_smaller [OF b(2) _ a(3)] assms(5) b(1) by auto
  moreover have "num_ok (Fin r)" unfolding r(1) [symmetric] by (rule num_ok_sub)
  ultimately show thesis using that a(1) b(1) by simp
qed

lemma merged_positive:
  assumes "item_ok m" and "is_finite q" and "\<not> js_le q (Fin 0)" and "num_ok q" and "is_finite (js_add (i_quantity m) q)"
  obtains r where "js_add (i_quantity m) q = Fin r" and "0 < r" and "num_ok (Fin r)"
proof -
  obtain a where a: "i_quantity m = Fin a" "0 < a" "num_ok (Fin a)" using quantity_value [OF assms(1)] by blast
  obtain b where b: "q = Fin b" "0 < b" using assms(2,3) by (rule moved_quantity)
  obtain r where r: "js_add (Fin a) (Fin b) = Fin r" "0 < r"
    using js_add_positive [OF a(2) b(2)] a b assms(4,5) by auto
  moreover have "num_ok (Fin r)" unfolding r(1) [symmetric] by (rule num_ok_add)
  ultimately show thesis using that a(1) b(1) by simp
qed

lemma set_set_item: "y \<in> set (set_item i f xs) \<Longrightarrow> (\<exists>x\<in>set xs. i_id x = i \<and> y = f x) \<or> y \<in> set xs"
  unfolding set_item_def by (induction xs) (auto split: if_splits)

lemma set_item_member:
  assumes "y \<in> set (set_item (i_id x) f xs)" and "x \<in> set xs" and "distinct (map i_id xs)"
  shows "y = f x \<or> y \<in> set xs"
  using set_set_item [OF assms(1)] assms(2,3) by (auto simp: distinct_map dest: inj_onD)

text \<open>Every record after the move is sound, and lies where a live record lay, or at the destination.\<close>

lemma moved_member:
  assumes acc: "move_accepted s x d q e" and x: "x \<in> set (ws_items s)" "\<not> i_archived x"
    and ok: "\<forall>y\<in>set (ws_items s). item_ok y" and dist: "distinct (map i_id (ws_items s))" and q: "num_ok q"
    and y: "y \<in> set (moved_items s x d q e ts)"
  shows "item_ok y \<and> (y \<in> set (ws_items s) \<or> i_locationId y = d \<or>
    (\<exists>z\<in>set (ws_items s). \<not> i_archived z \<and> i_locationId z = i_locationId y \<and> i_archivedAt z = i_archivedAt y))"
proof -
  note A = acc [unfolded move_accepted_def]
  have whole: "item_ok (with_quantity ts (js_sub (i_quantity x) q) x)"
    if "\<not> js_eq (js_sub (i_quantity x) q) (Fin 0)" "next_item_version x = Inr v" for v
    using remaining_positive [OF ok [rule_format, OF x(1)] _ _ _ q that(1)] A
      with_quantity_ok [OF ok [rule_format, OF x(1)] that(2)] by metis
  show ?thesis
  proof (cases "merge_target s x d")
    case (Some m)
    have m: "m \<in> set (ws_items s)" "i_id m \<noteq> i_id x" "i_locationId m = d" "\<not> i_archived m"
      using Some by (auto simp: merge_target_def dest: find_SomeD)
    let ?merged = "set_item (i_id m) (with_quantity ts (js_add (i_quantity m) q)) (ws_items s)"
    from A Some obtain v where fin: "is_finite (js_add (i_quantity m) q)" and v: "next_item_version m = Inr v" by auto
    obtain r where r: "js_add (i_quantity m) q = Fin r" "0 < r" "num_ok (Fin r)"
      using merged_positive [OF ok [rule_format, OF m(1)] _ _ q fin] A by blast
    have inm: "item_ok z \<and> (z \<in> set (ws_items s) \<or> i_locationId z = d)" if "z \<in> set ?merged" for z
      using set_item_member [OF that m(1) dist] ok with_quantity_ok [OF ok [rule_format, OF m(1)] v r(2,3)] r(1) m(3)
      by auto
    show ?thesis
    proof (cases "js_eq (js_sub (i_quantity x) q) (Fin 0)")
      case True
      with y Some have "y \<in> set ?merged" by (simp add: moved_items_def Let_def del: js_eq.simps)
      then show ?thesis using inm by blast
    next
      case False
      with A Some obtain w where w: "next_item_version x = Inr w" by auto
      from y Some False have "y \<in> set (set_item (i_id x) (with_quantity ts (js_sub (i_quantity x) q)) ?merged)"
        by (simp add: moved_items_def Let_def del: js_eq.simps)
      moreover have "x \<in> set ?merged" using x(1) m(2) by (intro unaffected) auto
      moreover have "distinct (map i_id ?merged)" using dist by simp
      ultimately have "y = with_quantity ts (js_sub (i_quantity x) q) x \<or> y \<in> set ?merged"
        by (rule set_item_member)
      then show ?thesis using inm whole [OF False w] x by auto
    qed
  next
    case None
    with A obtain v where v: "next_item_version x = Inr v" by auto
    show ?thesis
    proof (cases "js_eq (js_sub (i_quantity x) q) (Fin 0)")
      case True
      with y None have "y \<in> set (set_item (i_id x) (relocated ts d (destination_order s d)) (ws_items s))"
        by (simp add: moved_items_def Let_def del: js_eq.simps)
      from set_item_member [OF this x(1) dist] ok relocated_ok [OF ok [rule_format, OF x(1)] v] show ?thesis by auto
    next
      case False
      let ?new = "split_item x (''item_split_'' @ e) d (destination_order s d) q ts"
      obtain b where b: "q = Fin b" "0 < b" using A by (auto elim: moved_quantity)
      from y None False have "y = ?new \<or> y \<in> set (set_item (i_id x) (with_quantity ts (js_sub (i_quantity x) q)) (ws_items s))"
        by (auto simp: moved_items_def Let_def simp del: js_eq.simps)
      then show ?thesis
      proof
        assume "y = ?new"
        then show ?thesis using split_ok [OF b(2)] q b(1) by auto
      next
        assume "y \<in> set (set_item (i_id x) (with_quantity ts (js_sub (i_quantity x) q)) (ws_items s))"
        from set_item_member [OF this x(1) dist] ok whole [OF False v] x show ?thesis by auto
      qed
    qed
  qed
qed

lemma moved_distinct:
  assumes "move_accepted s x d q e" and "distinct (map i_id (ws_items s))"
  shows "distinct (map i_id (moved_items s x d q e ts))"
proof (cases "merge_target s x d")
  case (Some m)
  then show ?thesis using assms(2) by (simp add: moved_items_def Let_def distinct_filter_ids)
next
  case None
  have "i_id ` set (set_item (i_id x) (with_quantity ts r) (ws_items s)) = i_id ` set (ws_items s)" for r
    by (rule idset_set_item) simp
  moreover have "''item_split_'' @ e \<notin> i_id ` set (ws_items s)" if "\<not> js_eq (js_sub (i_quantity x) q) (Fin 0)"
    using assms(1) None that unfolding move_accepted_def by (simp only: option.case simp_thms)
  ultimately show ?thesis
    using None assms(2) by (cases "js_eq (js_sub (i_quantity x) q) (Fin 0)")
      (simp_all add: moved_items_def Let_def del: js_eq.simps)
qed

section \<open>The move handlers\<close>

text \<open>Records that lie at the destination or where some record lay, archived as that one was.\<close>

definition shifted :: "item list \<Rightarrow> string \<Rightarrow> item list \<Rightarrow> bool" where
  "shifted xs d ys \<longleftrightarrow> distinct (map i_id ys) \<and>
     (\<forall>y\<in>set ys. item_ok y \<and>
        (i_locationId y = d \<or>
         (\<exists>z\<in>set xs. i_locationId z = i_locationId y \<and> i_archivedAt z = i_archivedAt y)))"

lemma shifted_refl: "items_ok ls xs \<Longrightarrow> shifted xs d xs"
  by (auto simp: shifted_def items_ok_def)

lemma shifted_move:
  assumes w: "shifted xs d (ws_items w)" and acc: "move_accepted w x d q e"
    and x: "x \<in> set (ws_items w)" "\<not> i_archived x" and q: "num_ok q"
  shows "shifted xs d (moved_items w x d q e ts)"
proof -
  note W = w [unfolded shifted_def]
  have "item_ok y \<and> (i_locationId y = d \<or>
      (\<exists>z\<in>set xs. i_locationId z = i_locationId y \<and> i_archivedAt z = i_archivedAt y))"
    if y: "y \<in> set (moved_items w x d q e ts)" for y
  proof -
    have m: "item_ok y" "y \<in> set (ws_items w) \<or> i_locationId y = d \<or>
      (\<exists>z\<in>set (ws_items w). \<not> i_archived z \<and> i_locationId z = i_locationId y \<and> i_archivedAt z = i_archivedAt y)"
      using moved_member [OF acc x _ _ q y] W by blast+
    from m(2) consider "i_locationId y = d" | z where "z \<in> set (ws_items w)" "i_locationId z = i_locationId y"
      "i_archivedAt z = i_archivedAt y" by blast
    then show ?thesis
    proof cases
      case 2
      with W have "i_locationId z = d \<or> (\<exists>u\<in>set xs. i_locationId u = i_locationId z \<and> i_archivedAt u = i_archivedAt z)"
        by blast
      then show ?thesis using m(1) 2(2,3) by auto
    qed (use m(1) in simp)
  qed
  moreover have "distinct (map i_id (moved_items w x d q e ts))" using moved_distinct [OF acc] W by blast
  ultimately show ?thesis by (simp add: shifted_def)
qed

lemma wf_state_shifted:
  assumes wf: "wf_state s" and locs: "ws_locations t = reopen_all R ts (ws_locations s)"
    and items: "shifted (ws_items s) d (ws_items t)" and plans: "plans_ok (ws_plans t)"
    and d: "find_location s d = Some l" "live l" "l_captureStatus l = Known_empty \<Longrightarrow> d \<in> R"
  shows "wf_state t"
proof (rule wf_state_items [OF wf locs _ plans])
  note dist = wf_stateD(5) [OF wf]
  have l: "l \<in> set (ws_locations s)" "l_id l = d" using find_locationD [OF d(1)] by auto
  have uniq: "m = l" if "m \<in> set (ws_locations s)" "l_id m = d" for m
    using find_locationI [OF dist that(1)] that(2) d(1) by simp
  have "place_ok (ws_locations s) y" if y: "y \<in> set (ws_items t)" for y
  proof (cases "i_locationId y = d")
    case True
    with l have "i_locationId y \<in> l_id ` set (ws_locations s)" by (intro image_eqI [of _ _ l]) simp_all
    moreover have "live m" if "m \<in> set (ws_locations s)" "l_id m = i_locationId y" for m
      using uniq [OF that(1)] that(2) True d(2) by simp
    ultimately show ?thesis by (simp add: place_ok_def)
  next
    case False
    with items y obtain z where z: "z \<in> set (ws_items s)" "i_locationId z = i_locationId y" "i_archivedAt z = i_archivedAt y"
      by (auto simp: shifted_def)
    with wf_stateD(2) [OF wf] have "place_ok (ws_locations s) z" by (simp add: items_ok_def)
    then show ?thesis using z(2,3) by (simp add: place_ok_def)
  qed
  then show "items_ok (ws_locations s) (ws_items t)" using items by (auto simp: items_ok_def shifted_def)
  show "\<exists>x'\<in>set (ws_items s). \<not> i_archived x' \<and> i_locationId x' = i_locationId y"
    if y: "y \<in> set (ws_items t)" "\<not> i_archived y" "m \<in> set (ws_locations s)" "l_id m = i_locationId y"
      "l_captureStatus m = Known_empty" "l_id m \<notin> R" for y m
  proof (cases "i_locationId y = d")
    case True
    with uniq [OF y(3)] y(4-6) d(3) l(2) show ?thesis by auto
  next
    case False
    with items y(1) obtain z where z: "z \<in> set (ws_items s)" "i_locationId z = i_locationId y" "i_archivedAt z = i_archivedAt y"
      by (auto simp: shifted_def)
    then show ?thesis using y(2) by (intro bexI [of _ z]) simp_all
  qed
qed

text \<open>The destination's progress patches, with or without reopening.\<close>

lemma destination_progress:
  assumes "(if reopen then bulk_move_progress_patches s sources (Some d) ts else capture_progress_patches s d ts) = Inr ps"
  obtains R l where "progresses s ts ps R" and "find_location s d = Some l" and "live l"
    and "l_captureStatus l = Known_empty \<Longrightarrow> d \<in> R"
proof (cases reopen)
  case True
  with assms have "bulk_move_progress_patches s sources (Some d) ts = Inr ps" by simp
  then obtain R where R: "progresses s ts ps R"
    and arr: "\<And>i. Some i \<in> set (sources @ [Some d]) \<Longrightarrow>
      \<exists>l. find_location s i = Some l \<and> live l \<and> (capture_complete (l_captureStatus l) \<longrightarrow> i \<in> R)"
    by (rule bulk_move_progress) blast
  from arr [of d] obtain l where l: "find_location s d = Some l" "live l"
    "capture_complete (l_captureStatus l) \<longrightarrow> d \<in> R" by auto
  show thesis by (rule that [OF R l(1,2)]) (use l(3) in \<open>simp add: capture_complete_def\<close>)
next
  case False
  with assms have "capture_progress_patches s d ts = Inr ps" by simp
  then show thesis by (rule capture_progress) (blast intro: that)
qed

text \<open>
  A counted space that a move leaves or enters is reopened: with the flag by the patches, and
  without it the move is refused.
\<close>

lemma ends_reopened:
  assumes pr: "(if reopen then bulk_move_progress_patches s sources (Some d) ts else capture_progress_patches s d ts) = Inr ps"
    and edit: "(if reopen then Inr () else contents_editable s (sources @ [Some d])) = Inr ()"
    and R: "progresses s ts ps R" and wf: "wf_state s"
    and j: "Some j \<in> set (sources @ [Some d])" "find_location s j = Some m" "live m" "capture_complete (l_captureStatus m)"
  shows "j \<in> R"
proof (cases reopen)
  case True
  then have "bulk_move_progress_patches s sources (Some d) ts = Inr ps" using pr by simp
  then obtain R' where R': "progresses s ts ps R'"
    "\<And>i. Some i \<in> set (sources @ [Some d]) \<Longrightarrow>
      \<exists>l. find_location s i = Some l \<and> live l \<and> (capture_complete (l_captureStatus l) \<longrightarrow> i \<in> R')"
    by (rule bulk_move_progress) blast
  then have "j \<in> R'" using j by force
  moreover have "R' = R" by (rule progresses_unique [OF R'(1) R])
  ultimately show ?thesis by simp
next
  case False
  have "j \<noteq> []" using wf_stateD(1) [OF wf] find_locationD [OF j(2)] by (auto simp: hierarchy_ok_def)
  with False edit j have False by (auto simp: contents_editable_iff)
  then show ?thesis ..
qed

lemma item_move_effect:
  assumes h: "item_move s e ts i d q reopen = Inr c" and t: "apply_patches s (ch_patches c) = Inr t"
    and wf: "wf_state s"
  obtains x ms R l where "find_item s i = Some x" and "\<not> i_archived x"
    and "move_item_patches s x d q e ts = Inr ms" and "ws_items t = moved_items s x d q e ts"
    and "ws_locations t = reopen_all R ts (ws_locations s)" and "plans_ok (ws_plans t)"
    and "find_location s d = Some l" and "live l" and "l_captureStatus l = Known_empty \<Longrightarrow> d \<in> R"
    and "\<And>j m. j = i_locationId x \<or> j = d \<Longrightarrow> find_location s j = Some m \<Longrightarrow> live m \<Longrightarrow>
      capture_complete (l_captureStatus m) \<Longrightarrow> j \<in> R"
proof -
  obtain x ms ps where x: "find_item s i = Some x" "\<not> i_archived x"
    and ms: "move_item_patches s x d q e ts = Inr ms"
    and edit: "(if reopens reopen then Inr ()
        else contents_editable s [Some (i_locationId x), Some d]) = Inr ()"
    and pr: "(if reopens reopen then bulk_move_progress_patches s [Some (i_locationId x)] (Some d) ts
        else capture_progress_patches s d ts) = Inr ps"
    and c: "ch_patches c = plan_invalidation_patches s [i_id x] [i_locationId x, d] @ ms @ ps"
    using h unfolding item_move_def move_progress_patches_def
    apply (elim and_then_InrE)
    subgoal premises p for x v ms u ps by (rule p(1) [of x ms ps]) (use p in simp_all)
    done
  from pr obtain R l where R: "progresses s ts ps R" and l: "find_location s d = Some l" "live l"
    "l_captureStatus l = Known_empty \<Longrightarrow> d \<in> R" by (rule destination_progress) blast
  have M: "fold_result patch_items (ws_items s) ms = Inr (moved_items s x d q e ts)"
      "\<forall>p\<in>set ms. fp_target p = Target_item"
    using move_implements [OF ms _ wf_stateD(6) [OF wf]] find_itemD [OF x(1)] by blast+
  have items: "patches_of Target_item ms = ms" by (rule patches_of_all) (use M in blast)
  have others: "patches_of k ms = []" if "k \<noteq> Target_item" for k
    using M that by (intro patches_of_none) auto
  have "ws_items t = moved_items s x d q e ts"
    using apply_patches_split [OF t] M by (simp add: c items patches_of_progress [OF R])
  moreover have "ws_locations t = reopen_all R ts (ws_locations s)"
    using apply_patches_split [OF t] progresses_fold [OF R wf_stateD(5) [OF wf]]
    by (simp add: c others patches_of_progress [OF R])
  moreover have "plans_ok (ws_plans t)"
    by (rule plans_after_invalidation [OF wf t]) (simp add: c others patches_of_progress [OF R])
  moreover have "(if reopens reopen then Inr () else contents_editable s ([Some (i_locationId x)] @ [Some d])) = Inr ()"
    using edit by (simp only: append.simps)
  note ends_reopened [OF pr this R wf]
  ultimately show ?thesis by (intro that [OF x ms _ _ _ l]) auto
qed

lemma item_move_ends_open:
  assumes h: "item_move s e ts i d q reopen = Inr c" and t: "apply_patches s (ch_patches c) = Inr t"
    and wf: "wf_state s" and x: "find_item s i = Some x"
    and l: "l \<in> set (ws_locations t)" "l_id l = i_locationId x \<or> l_id l = d" "live l"
  shows "\<not> capture_complete (l_captureStatus l)"
proof -
  from h t wf obtain x' R where x': "find_item s i = Some x'"
    and locs: "ws_locations t = reopen_all R ts (ws_locations s)"
    and ends: "\<And>j m. j = i_locationId x' \<or> j = d \<Longrightarrow> find_location s j = Some m \<Longrightarrow> live m \<Longrightarrow>
      capture_complete (l_captureStatus m) \<Longrightarrow> j \<in> R"
    by (rule item_move_effect) blast
  from l(1) obtain m where m: "m \<in> set (ws_locations s)" "l = (if l_id m \<in> R then reopened ts m else m)"
    by (auto simp: locs reopen_all_def)
  have "find_location s (l_id m) = Some m" by (rule find_locationI [OF wf_stateD(5) [OF wf] m(1)])
  moreover have "l_id m = l_id l" "live m" using m(2) l(3) by (simp_all split: if_splits)
  ultimately have "capture_complete (l_captureStatus m) \<Longrightarrow> l_id m \<in> R"
    using ends [of "l_id m" m] l(2) x x' by simp
  then show ?thesis unfolding m(2) by (cases "l_id m \<in> R") (auto simp: capture_complete_def)
qed

lemma preserve_item_move:
  assumes h: "item_move s e ts i d q reopen = Inr c" and t: "apply_patches s (ch_patches c) = Inr t"
    and wf: "wf_state s" and q: "num_ok q"
  shows "wf_state t"
proof -
  from h t wf obtain x ms R l where x: "find_item s i = Some x" "\<not> i_archived x"
    and ms: "move_item_patches s x d q e ts = Inr ms" and items: "ws_items t = moved_items s x d q e ts"
    and t': "ws_locations t = reopen_all R ts (ws_locations s)" "plans_ok (ws_plans t)"
    and l: "find_location s d = Some l" "live l" "l_captureStatus l = Known_empty \<Longrightarrow> d \<in> R"
    by (rule item_move_effect) blast
  have "shifted (ws_items s) d (ws_items t)"
    using shifted_move [OF shifted_refl [OF wf_stateD(2) [OF wf]] move_item_patches_accepted [OF ms] _ x(2) q]
      find_itemD [OF x(1)] by (simp add: items)
  from wf_state_shifted [OF wf t'(1) this t'(2) l] show ?thesis .
qed

lemma bulk_move_loop_facts:
  assumes "bulk_move_loop w e ts d ids = Inr (w', ps)"
    and "shifted xs d (ws_items w)"
  shows "apply_patches w ps = Inr w' \<and> (\<forall>p\<in>set ps. fp_target p = Target_item) \<and> shifted xs d (ws_items w')"
  using assms
proof (induction ids arbitrary: w ps)
  case (Cons i ids)
  from Cons.prems(1) obtain x ms u qs where x: "find_item w i = Some x" "\<not> i_archived x"
    and ms: "move_item_patches w x d (i_quantity x) (e @ ''_'' @ i) ts = Inr ms"
    and u: "apply_patches w ms = Inr u" and rest: "bulk_move_loop u e ts d ids = Inr (w', qs)"
    and ps: "ps = ms @ qs"
    by (auto simp: and_then_eq_Inr)
  have x': "x \<in> set (ws_items w)" using find_itemD [OF x(1)] by simp
  have dist: "distinct (map i_id (ws_items w))" "item_ok x" using Cons.prems(2) x' by (auto simp: shifted_def)
  note M = move_implements [OF ms x' dist(1)]
  have items: "patches_of Target_item ms = ms" by (rule patches_of_all) (use M in blast)
  have "ws_items u = moved_items w x d (i_quantity x) (e @ ''_'' @ i) ts"
    using apply_patches_split [OF u] M by (simp add: items)
  moreover have "num_ok (i_quantity x)" using dist(2) by (simp add: item_ok_def)
  ultimately have "shifted xs d (ws_items u)"
    using shifted_move [OF Cons.prems(2) move_item_patches_accepted [OF ms] x' x(2)] by simp
  from Cons.IH [OF rest this] M u show ?case by (auto simp: ps apply_patches_append)
qed (simp add: apply_patches_Nil)

lemma preserve_item_bulk_move:
  assumes h: "item_bulk_move s e ts d selected reopen = Inr c" and t: "apply_patches s (ch_patches c) = Inr t"
    and wf: "wf_state s"
  shows "wf_state t"
proof -
  obtain w ms xs movable ps ls where loop: "bulk_move_loop s e ts d movable = Inr (w, ms)"
    and pr: "(if reopens reopen then bulk_move_progress_patches s xs (Some d) ts
        else capture_progress_patches s d ts) = Inr ps"
    and c: "ch_patches c = plan_invalidation_patches s movable ls @ ms @ ps"
    using h unfolding item_bulk_move_def Let_def if_Inl_eq_Inr
    apply (elim conjE and_then_InrE)
    apply (unfold if_Inl_eq_Inr)
    apply (elim conjE and_then_InrE)
    by (auto simp: and_then_eq_Inr split: prod.splits)
  from pr obtain R l where R: "progresses s ts ps R" and l: "find_location s d = Some l" "live l"
    "l_captureStatus l = Known_empty \<Longrightarrow> d \<in> R" by (rule destination_progress) blast
  note L = bulk_move_loop_facts [OF loop shifted_refl [OF wf_stateD(2) [OF wf]]]
  have items: "patches_of Target_item ms = ms" by (rule patches_of_all) (use L in blast)
  have others: "patches_of k ms = []" if "k \<noteq> Target_item" for k
    using L that by (intro patches_of_none) auto
  have "fold_result patch_items (ws_items s) ms = Inr (ws_items t)"
    using apply_patches_split [OF t] by (simp add: c items patches_of_progress [OF R])
  moreover have "fold_result patch_items (ws_items s) ms = Inr (ws_items w)"
    using apply_patches_split [of s ms w] L items by simp
  ultimately have sh: "shifted (ws_items s) d (ws_items t)" using L by simp
  show ?thesis
  proof (rule wf_state_shifted [OF wf _ sh _ l])
    show "ws_locations t = reopen_all R ts (ws_locations s)"
      using apply_patches_split [OF t] progresses_fold [OF R wf_stateD(5) [OF wf]]
      by (simp add: c others patches_of_progress [OF R])
    show "plans_ok (ws_plans t)"
      by (rule plans_after_invalidation [OF wf t]) (simp add: c others patches_of_progress [OF R])
  qed
qed

end
