(* ===== verification/Preserve_Plan.thy ===== *)
theory Preserve_Plan
  imports Preserve_Move
begin

text \<open>
  The handlers for plans (\<open>Commands_Plan\<close>, \<open>src/domain/commands.ts\<close>) keep the invariant: a
  new plan replaces the active one, at most one plan is ever active, and completing a step
  moves its subject as the move handlers do.
\<close>

section \<open>Plans\<close>

lemma discard_active: "plans_ok (discard_all (p_id ` {p \<in> set ps. p_status p = Active}) ps) \<or> \<not> plans_ok ps"
  using plans_ok_discard by blast

lemma none_active:
  "filter (\<lambda>p. p_status p = Active) (discard_all (p_id ` {p \<in> set ps. p_status p = Active}) ps) = []"
  by (auto simp: discard_all_def filter_empty_conv)

lemma plan_of_fields:
  assumes "plan_of (JObj m) = Some p"
  shows "map_of m ''id'' = Some (JStr (p_id p))" and "map_of m ''status'' = Some (JStr (plan_status_name (p_status p)))"
proof -
  obtain sel where "plan_of_obj sel m = Some p"
    using assms by (auto simp: bind_eq_Some_conv split: if_splits)
  then show "map_of m ''id'' = Some (JStr (p_id p))" "map_of m ''status'' = Some (JStr (plan_status_name (p_status p)))"
    by (auto simp: plan_of_obj_def bind_eq_Some_conv field_of_eq_Some str_of_iff dest!: union_ofD)
qed

lemma set_plan_const: "distinct (map p_id ps) \<Longrightarrow> p \<in> set ps \<Longrightarrow>
    set_plan (p_id p) f ps = map (\<lambda>r. if r = p then f p else r) ps"
  unfolding set_plan_map by (intro map_cong refl) (auto simp: distinct_map dest: inj_onD)

text \<open>Updating one plan, which becomes active only where no other plan is.\<close>

lemma plans_ok_set:
  assumes "plans_ok ps" and p: "p \<in> set ps" and f: "p_id (f p) = p_id p"
    and act: "p_status (f p) = Active \<Longrightarrow> p_status p = Active \<or> (\<forall>r\<in>set ps. p_id r \<noteq> p_id p \<longrightarrow> p_status r \<noteq> Active)"
  shows "plans_ok (map (\<lambda>r. if r = p then f p else r) ps)"
proof -
  let ?qs = "map (\<lambda>r. if r = p then f p else r) ps"
  have dist: "distinct (map p_id ps)" using assms(1) by (simp add: plans_ok_def)
  have ids: "map p_id ?qs = map p_id ps" using f by (simp add: comp_def)
  have "length (filter (\<lambda>r. p_status r = Active) ?qs) \<le> 1"
  proof (cases "p_status (f p) = Active \<and> p_status p \<noteq> Active")
    case True
    with act have none: "p_status r \<noteq> Active" if "r \<in> set ps" for r
      using that dist p by (auto simp: distinct_map dest: inj_onD)
    have "filter (\<lambda>r. p_status r = Active) ?qs = map (\<lambda>r. f p) (filter (\<lambda>r. r = p) ps)"
      using none True by (induction ps) auto
    moreover have "length (filter (\<lambda>r. r = p) ps) \<le> 1"
      using dist by (induction ps) (auto simp: filter_empty_conv)
    ultimately show ?thesis by simp
  next
    case False
    then have "length (filter (\<lambda>r. p_status r = Active) ?qs) \<le> length (filter (\<lambda>r. p_status r = Active) ps)"
      by (induction ps) auto
    then show ?thesis using assms(1) by (simp add: plans_ok_def)
  qed
  moreover have "distinct (map p_id ?qs)" unfolding ids by (rule dist)
  ultimately show ?thesis unfolding plans_ok_def by blast
qed

lemma patches_of_plan_patch [simp]:
  "patches_of Target_item [plan_patch i k b a] = []" "patches_of Target_location [plan_patch i k b a] = []"
  by simp_all

lemma preserve_plan_status:
  assumes h: "plan_status_set s i status = Inr c" and t: "apply_patches s (ch_patches c) = Inr t"
    and wf: "wf_state s"
  shows "wf_state t"
proof -
  obtain p st where p: "find_plan s i = Some p" and st: "status = plan_status_name st"
    and act: "st = Active \<Longrightarrow> \<forall>r\<in>set (ws_plans s). p_id r \<noteq> p_id p \<longrightarrow> p_status r \<noteq> Active"
    and c: "ch_patches c = [plan_patch (p_id p) ''status'' (JStr (plan_status_name (p_status p))) (JStr status)]"
  proof -
    from h obtain p where p: "find_plan s i = Some p" and st: "status \<in> plan_status_name ` set all_plan_status"
      and act: "\<not> (status = ''active'' \<and> list_ex (\<lambda>c. p_id c \<noteq> p_id p \<and> p_status c = Active) (ws_plans s))"
      and c: "ch_patches c = [plan_patch (p_id p) ''status'' (JStr (plan_status_name (p_status p))) (JStr status)]"
      unfolding plan_status_set_def
      by (elim and_then_InrE, unfold if_Inl_eq_Inr, elim conjE and_then_InrE, unfold if_Inl_eq_Inr)
        (elim conjE, simp)
    from st obtain x where x: "status = plan_status_name x" by auto
    show thesis by (rule that [OF p x _ c]) (use act x in \<open>auto simp: list_ex_iff\<close>)
  qed
  have pin: "p \<in> set (ws_plans s)" using find_planD [OF p] by simp
  have unt: "ws_locations t = ws_locations s" "ws_items t = ws_items s"
    using apply_patches_untouched(1,2) [OF t] by (simp_all add: c)
  have "ws_plans t = set_plan (p_id p) (\<lambda>p. p\<lparr>p_status := st\<rparr>) (ws_plans s)"
    using apply_patches_split [OF t] plan_patches(1) [of "p_id p" "ws_plans s" _ st] pin by (simp add: c st)
  then have "plans_ok (ws_plans t)"
    using plans_ok_set [OF wf_stateD(4) [OF wf] pin, of "\<lambda>p. p\<lparr>p_status := st\<rparr>"] act
    by (simp add: set_plan_const [OF wf_stateD(7) [OF wf] pin])
  then show ?thesis using wf by (simp add: wf_state_def unt)
qed

lemma preserve_plan_create:
  assumes h: "plan_create s plan = Inr c" and t: "apply_patches s (ch_patches c) = Inr t"
    and wf: "wf_state s"
  shows "wf_state t"
proof -
  let ?Q = "filter (\<lambda>p. p_status p = Active) (ws_plans s)"
  obtain m where m: "plan = JObj m"
    using h by (cases plan) (auto simp: plan_create_def plan_shape_def Let_def)
  obtain i where i: "map_of m ''id'' = Some (JStr i)" and fresh: "i \<notin> p_id ` set (ws_plans s)"
    and c: "ch_patches c = map discard_patch ?Q @ [mk_patch Target_plan i [] None (Some plan)]"
  proof -
    from h show thesis
      unfolding plan_create_def Let_def if_Inl_eq_Inr
      apply (elim conjE and_then_InrE)
      apply (unfold if_Inl_eq_Inr)
      apply (elim conjE and_then_InrE)
      subgoal premises p
      proof -
        from p(1) obtain i where i: "map_of m ''id'' = Some (JStr i)"
          by (auto simp: plan_shape_def nonblank_string_iff m)
        then have "text_of (jget ''id'' plan) = i" by (simp add: m text_of_def)
        with p i show thesis by (intro that [of i]) (auto simp: list_ex_iff)
      qed
      done
  qed
  define ps where "ps = discard_all (p_id ` set ?Q) (ws_plans s)"
  have "fold_result patch_plans ps [mk_patch Target_plan i [] None (Some plan)] = Inr (ws_plans t)"
    using apply_patches_split [OF t] discard_fold [OF wf_stateD(7) [OF wf], of ?Q]
    by (simp add: c fold_result_append ps_def)
  moreover have ids: "map p_id ps = map p_id (ws_plans s)" by (simp add: discard_all_def ps_def)
  then have fresh': "i \<notin> p_id ` set ps" using fresh by (metis list.set_map)
  ultimately obtain y where y: "plan_of (JObj m) = Some y" and plans: "ws_plans t = ps @ [y]"
    by (auto simp: plan_records.create_patch [OF fresh'] and_then_eq_Inr m simp del: plan_of.simps)
  have yi: "p_id y = i" using plan_of_fields(1) [OF y] i by simp
  have "filter (\<lambda>p. p_status p = Active) ps = []" using none_active [of "ws_plans s"] by (simp add: ps_def)
  moreover have "distinct (map p_id ps)" unfolding ids by (rule wf_stateD(7) [OF wf])
  ultimately have "plans_ok (ws_plans t)" using fresh' yi by (simp add: plans_ok_def plans)
  moreover have "ws_locations t = ws_locations s" "ws_items t = ws_items s"
    using apply_patches_untouched(1,2) [OF t] by (simp_all add: c)
  ultimately show ?thesis using wf by (simp add: wf_state_def)
qed

section \<open>Completing a step\<close>

lemma step_plan_patches:
  assumes i: "i \<in> p_id ` set qs"
    and fold: "fold_result patch_plans qs
      [plan_patch i ''steps'' b (json_of_list json_of_step steps),
       plan_patch i ''status'' b' (JStr (plan_status_name st))] = Inr ps"
  shows "ps = set_plan i (\<lambda>p. p\<lparr>p_steps := steps, p_status := st\<rparr>) qs"
proof -
  have "i \<in> p_id ` set (set_plan i (\<lambda>p. p\<lparr>p_steps := steps\<rparr>) qs)"
    using i ids_set_plan [of "\<lambda>p. p\<lparr>p_steps := steps\<rparr>" i qs]
    by (metis list.set_map move_plan.select_convs(2) move_plan.surjective move_plan.update_convs(6))
  then show ?thesis using fold i by (simp add: plan_patches set_plan_twice)
qed

lemma step_plan_fold:
  assumes wf: "wf_state s" and p: "find_plan s i = Some p" "p_status p = Active"
    and fold: "fold_result patch_plans (ws_plans s)
      [plan_patch (p_id p) ''steps'' b (json_of_list json_of_step steps),
       plan_patch (p_id p) ''status'' b' (JStr (plan_status_name st))] = Inr ps"
  shows "plans_ok ps"
proof -
  have pin: "p \<in> set (ws_plans s)" using find_planD [OF p(1)] by simp
  then have "ps = set_plan (p_id p) (\<lambda>p. p\<lparr>p_steps := steps, p_status := st\<rparr>) (ws_plans s)"
    by (intro step_plan_patches [OF _ fold]) simp
  then show ?thesis
    using plans_ok_set [OF wf_stateD(4) [OF wf] pin, of "\<lambda>p. p\<lparr>p_steps := steps, p_status := st\<rparr>"] p(2)
    by (simp add: set_plan_const [OF wf_stateD(7) [OF wf] pin])
qed

lemma same_quantity:
  "item_ok x \<Longrightarrow> \<not> other_quantity st x \<Longrightarrow> (case s_quantity st of None \<Rightarrow> i_quantity x | Some q \<Rightarrow> q) = i_quantity x"
proof (cases "s_quantity st")
  case (Some q)
  assume "item_ok x" "\<not> other_quantity st x"
  with Some have e: "js_eq q (i_quantity x)" by (simp add: other_quantity_def)
  obtain a where "i_quantity x = Fin a" "0 < a" using quantity_value [OF \<open>item_ok x\<close>] by blast
  with e Some show ?thesis by (cases q) auto
qed simp

lemma move_targets: "move_item_patches s x d q e ts = Inr ms \<Longrightarrow> p \<in> set ms \<Longrightarrow> fp_target p = Target_item"
  unfolding move_item_patches_def Let_def item_quantity_patches_def delete_item_patch_def create_item_patch_def
  by (auto simp: and_then_eq_Inr split: option.splits if_splits)

lemma step_no_plans:
  assumes "step_item_patches s e ts st = Inr ps \<or> step_location_patches s ts st = Inr ps"
  shows "patches_of Target_plan ps = []"
  using assms
proof
  assume "step_item_patches s e ts st = Inr ps"
  then obtain x ms gs q where ms: "move_item_patches s x (s_destinationId st) q e ts = Inr ms"
    and gs: "bulk_move_progress_patches s [Some (s_sourceId st)] (Some (s_destinationId st)) ts = Inr gs"
    and ps: "ps = ms @ gs"
    unfolding step_item_patches_def move_progress_patches_def
    by (elim and_then_InrE, unfold if_Inl_eq_Inr, elim conjE and_then_InrE) (simp add: that)
  have "patches_of Target_plan ms = []" using move_targets [OF ms] by (intro patches_of_none) fastforce
  then show ?thesis using gs by (auto elim!: bulk_move_progress simp: ps patches_of_progress)
next
  assume "step_location_patches s ts st = Inr ps"
  then show ?thesis
    unfolding step_location_patches_def move_progress_patches_def
    by (elim and_then_InrE, unfold if_Inl_eq_Inr, elim conjE and_then_InrE)
      (auto elim!: bulk_move_progress simp: patches_of_progress)
qed

lemma step_item_effect:
  assumes h: "step_item_patches s e ts st = Inr ps" and wf: "wf_state s"
    and t: "apply_patches s (ps @ qs) = Inr t" and qs: "\<forall>p\<in>set qs. fp_target p = Target_plan"
    and plans: "plans_ok (ws_plans t)"
  shows "wf_state t"
proof -
  let ?d = "s_destinationId st"
  from h obtain x ms gs where x: "find_item s (the (s_itemId st)) = Some x" "\<not> i_archived x" "\<not> other_quantity st x"
    and ms: "move_item_patches s x ?d (case s_quantity st of None \<Rightarrow> i_quantity x | Some q \<Rightarrow> q) e ts = Inr ms"
    and gs: "bulk_move_progress_patches s [Some (s_sourceId st)] (Some ?d) ts = Inr gs" and ps: "ps = ms @ gs"
    unfolding step_item_patches_def move_progress_patches_def
    by (elim and_then_InrE, unfold if_Inl_eq_Inr, elim conjE and_then_InrE) (simp add: that)
  note ok = find_item_ok [OF x(1) wf]
  have ms: "move_item_patches s x ?d (i_quantity x) e ts = Inr ms"
    using ms same_quantity [OF _ x(3)] ok by simp
  have q: "num_ok (i_quantity x)" using ok by (simp add: item_ok_def)
  have "(if True then bulk_move_progress_patches s [Some (s_sourceId st)] (Some ?d) ts
      else capture_progress_patches s ?d ts) = Inr gs" using gs by simp
  then obtain R l where R: "progresses s ts gs R" and l: "find_location s ?d = Some l" "live l"
    "l_captureStatus l = Known_empty \<Longrightarrow> ?d \<in> R" by (rule destination_progress) blast
  note M = move_implements [OF ms _ wf_stateD(6) [OF wf]]
  have targets: "\<forall>p\<in>set ms. fp_target p = Target_item" using M ok by blast
  have items: "patches_of Target_item ms = ms" by (rule patches_of_all) (use targets in blast)
  have others: "patches_of k ms = []" if "k \<noteq> Target_item" for k
    using targets that by (intro patches_of_none) auto
  have others': "patches_of k qs = []" if "k \<noteq> Target_plan" for k
    using qs that by (intro patches_of_none) auto
  have "ws_items t = moved_items s x ?d (i_quantity x) e ts"
    using apply_patches_split [OF t] M ok by (simp add: ps items others' patches_of_progress [OF R])
  then have sh: "shifted (ws_items s) ?d (ws_items t)"
    using shifted_move [OF shifted_refl [OF wf_stateD(2) [OF wf]] move_item_patches_accepted [OF ms] _ x(2) q] ok
    by simp
  show "wf_state t"
  proof (rule wf_state_shifted [OF wf _ sh plans l])
    show "ws_locations t = reopen_all R ts (ws_locations s)"
      using apply_patches_split [OF t] progresses_fold [OF R wf_stateD(5) [OF wf]]
      by (simp add: ps others others' patches_of_progress [OF R])
  qed
qed

lemma step_location_effect:
  assumes h: "step_location_patches s ts st = Inr ps" and wf: "wf_state s"
    and t: "apply_patches s (ps @ qs) = Inr t" and qs: "\<forall>p\<in>set qs. fp_target p = Target_plan"
    and plans: "plans_ok (ws_plans t)"
  shows "wf_state t"
proof -
  let ?d = "s_destinationId st" and ?ls = "ws_locations s"
  from h obtain x w gs where x: "find_location s (the (s_locationId st)) = Some x" "live x"
    and below: "\<not> destination_below s x ?d" and w: "find_location s ?d = Some w" "live w"
    and gs: "bulk_move_progress_patches s [Some (s_sourceId st)] (Some ?d) ts = Inr gs"
    and ps: "ps = [location_patch (l_id x) ''parentId'' (json_of_nullable JStr (l_parentId x)) (JStr ?d),
             location_patch (l_id x) ''updatedAt'' (JStr (l_updatedAt x)) (JStr ts)] @ gs"
    unfolding step_location_patches_def move_progress_patches_def
    by (elim and_then_InrE, unfold if_Inl_eq_Inr, elim conjE and_then_InrE) (simp add: that)
  define i where "i = l_id x"
  have x': "find_location s i = Some x" "x \<in> set ?ls" using x(1) find_locationD [OF x(1)] by (auto simp: i_def)
  have w': "w \<in> set ?ls" "l_id w = ?d" using find_locationD [OF w(1)] by auto
  note d = wf_stateD(5) [OF wf]
  from gs obtain R where R: "progresses s ts gs R" and arr: "\<And>i. Some i \<in> set ([Some (s_sourceId st)] @ [Some ?d]) \<Longrightarrow>
      \<exists>l. find_location s i = Some l \<and> live l \<and> (capture_complete (l_captureStatus l) \<longrightarrow> i \<in> R)"
    by (rule bulk_move_progress) blast
  have others: "patches_of k qs = []" if "k \<noteq> Target_plan" for k
    using qs that by (intro patches_of_none) auto
  let ?f = "\<lambda>l. l\<lparr>l_parentId := Some ?d, l_updatedAt := ts\<rparr>"
  have i: "i \<in> l_id ` set ?ls" using x'(2) by (simp add: i_def)
  then have i': "i \<in> l_id ` set (set_location i (\<lambda>l. l\<lparr>l_parentId := Some ?d\<rparr>) ?ls)"
    by (simp add: ids_set_set_location)
  have two: "fold_result patch_locations ?ls
      [location_patch i ''parentId'' b (JStr ?d), location_patch i ''updatedAt'' b' (JStr ts)]
      = Inr (set_location i ?f ?ls)" for b b'
    using location_patches(1) [OF i, of b "Some ?d"] location_patches(2) [OF i']
    by (simp add: json_of_nullable_def set_location_twice)
  have con: "set_location i ?f ?ls = set_location i (\<lambda>_. ?f x) ?ls" by (rule set_location_const [OF x'(1)])
  have idsf: "map l_id (set_location i ?f ?ls) = map l_id ?ls" by simp
  have locs: "ws_locations t = reopen_all R ts (set_location i (\<lambda>_. ?f x) ?ls)"
  proof -
    have "fold_result patch_locations (set_location i ?f ?ls) gs = Inr (reopen_all R ts (set_location i ?f ?ls))"
      using idsf d by (intro progresses_fold [OF R]) (simp_all add: ids_set_set_location)
    moreover have "patches_of Target_location (ps @ qs) =
        [location_patch i ''parentId'' (json_of_nullable JStr (l_parentId x)) (JStr ?d),
         location_patch i ''updatedAt'' (JStr (l_updatedAt x)) (JStr ts)] @ gs"
      by (simp add: ps others patches_of_progress [OF R] i_def)
    then have "fold_result patch_locations ?ls
        ([location_patch i ''parentId'' (json_of_nullable JStr (l_parentId x)) (JStr ?d),
         location_patch i ''updatedAt'' (JStr (l_updatedAt x)) (JStr ts)] @ gs) = Inr (ws_locations t)"
      using apply_patches_split [OF t] by (simp only:)
    ultimately show ?thesis
      unfolding fold_result_append two and_then_Inr con by (simp only: sum.inject)
  qed
  have nb: "\<not> blank (l_id l)" if "l \<in> set ?ls" for l
    using wf_stateD(1) [OF wf] that by (simp add: hierarchy_ok_def)
  show "wf_state t"
  proof (rule wf_state_replace_location [OF wf x'(1) _ _ _ _ _ locs])
    show "placeable s (Some i) (?f x)"
      unfolding placeable_def
      using nb [OF x'(2)] nb [OF w'(1)] below w w'(2) code_unique [OF wf_stateD(1) [OF wf] x'(2) x(2)]
      by (auto simp: i_def norm_code_def destination_below_def list_ex_iff)
    show "live x \<and> l_parentId x = Some (l_id m)"
      if m: "m \<in> set ?ls" "l_parentId (?f x) = Some (l_id m)" "l_captureStatus m = Known_empty" "l_id m \<notin> R" for m
      using arr [of ?d] m find_locationI [OF d m(1)] by (auto simp: capture_complete_def)
    show "ws_items t = ws_items s"
      using apply_patches_untouched(2) [OF t] by (simp add: ps others patches_of_progress [OF R])
  qed (use x(2) plans in \<open>simp_all add: i_def\<close>)
qed

text \<open>What an accepted completion went through, and the patches it emits.\<close>

definition complete_step :: "string \<Rightarrow> plan_step \<Rightarrow> plan_step list \<Rightarrow> plan_step list" where
  "complete_step ts st steps = map_first (\<lambda>c. s_id c = s_id st) (\<lambda>c. c\<lparr>s_completedAt := Some ts\<rparr>) steps"

definition completion_status :: "move_plan \<Rightarrow> plan_step list \<Rightarrow> plan_status" where
  "completion_status p steps = (if list_all completed steps then Completed else p_status p)"

lemma plan_step_complete_accepted:
  assumes h: "plan_step_complete s e ts i step_id = Inr c"
  obtains p st ps where "find_plan s i = Some p" and "p_status p = Active"
    and "List.find (\<lambda>c. s_id c = step_id) (p_steps p) = Some st" and "\<not> completed st"
    and "list_all completed (takeWhile (\<lambda>c. s_id c \<noteq> s_id st) (p_steps p))"
    and "step_item_patches s e ts st = Inr ps \<or> step_location_patches s ts st = Inr ps"
    and "ch_patches c = ps @
      [plan_patch (p_id p) ''steps'' (json_of_list json_of_step (p_steps p))
         (json_of_list json_of_step (complete_step ts st (p_steps p))),
       plan_patch (p_id p) ''status'' (JStr (plan_status_name (p_status p)))
         (JStr (plan_status_name (completion_status p (complete_step ts st (p_steps p)))))]"
proof -
  from h obtain p where p: "find_plan s i = Some p" "p_status p = Active"
    and "List.find (\<lambda>c. s_id c = step_id) (p_steps p) \<noteq> None"
    unfolding plan_step_complete_def
    by (elim and_then_InrE, unfold if_Inl_eq_Inr) (elim conjE, force split: option.split_asm)
  then obtain st where st: "List.find (\<lambda>c. s_id c = step_id) (p_steps p) = Some st" by blast
  note rest = h [unfolded plan_step_complete_def require_plan_def p(1) option.case and_then_Inr st if_Inl_eq_Inr Let_def]
  from rest obtain ps where checks: "\<not> completed st" "\<not> list_ex (\<lambda>c. \<not> completed c) (takeWhile (\<lambda>c. s_id c \<noteq> s_id st) (p_steps p))"
    and ps: "(if moves_item st then step_item_patches s e ts st
               else if moves_location st then step_location_patches s ts st
               else throw INVALID_PLAN_STEP) = Inr ps"
    and c: "ch_patches c = ps @
      [plan_patch (p_id p) ''steps'' (json_of_list json_of_step (p_steps p))
         (json_of_list json_of_step (complete_step ts st (p_steps p))),
       plan_patch (p_id p) ''status'' (JStr (plan_status_name (p_status p)))
         (JStr (plan_status_name (completion_status p (complete_step ts st (p_steps p)))))]"
    unfolding complete_step_def [symmetric] completion_status_def [symmetric]
    by (elim conjE and_then_InrE, unfold if_Inl_eq_Inr, elim conjE and_then_InrE) (simp only: mk_change_Inr change.simps)
  have "step_item_patches s e ts st = Inr ps \<or> step_location_patches s ts st = Inr ps"
    using ps by (auto split: if_splits)
  with p st checks c show ?thesis by (intro that) (auto simp: list_all_iff list_ex_iff)
qed

lemma preserve_plan_step_complete:
  assumes h: "plan_step_complete s e ts i step_id = Inr c" and t: "apply_patches s (ch_patches c) = Inr t"
    and wf: "wf_state s"
  shows "wf_state t"
proof -
  from h obtain p st ps where p: "find_plan s i = Some p" "p_status p = Active"
    and ps: "step_item_patches s e ts st = Inr ps \<or> step_location_patches s ts st = Inr ps"
    and c: "ch_patches c = ps @
      [plan_patch (p_id p) ''steps'' (json_of_list json_of_step (p_steps p))
         (json_of_list json_of_step (complete_step ts st (p_steps p))),
       plan_patch (p_id p) ''status'' (JStr (plan_status_name (p_status p)))
         (JStr (plan_status_name (completion_status p (complete_step ts st (p_steps p)))))]" (is "_ = ps @ ?qs")
    by (rule plan_step_complete_accepted)
  have t': "apply_patches s (ps @ ?qs) = Inr t" using t by (simp only: c)
  have qs: "\<forall>p\<in>set ?qs. fp_target p = Target_plan" by simp
  have "fold_result patch_plans (ws_plans s) ?qs = Inr (ws_plans t)"
    using apply_patches_split [OF t'] step_no_plans [OF ps] by simp
  then have plan: "plans_ok (ws_plans t)" by (rule step_plan_fold [OF wf p])
  from ps step_item_effect [OF _ wf t' qs plan] step_location_effect [OF _ wf t' qs plan] show ?thesis by blast
qed

text \<open>
  A completed step is recorded in its plan, and the plan is completed with its last step; the
  other plans stay as they are.
\<close>

lemma plan_step_complete_effect:
  assumes h: "plan_step_complete s e ts i step_id = Inr c" and t: "apply_patches s (ch_patches c) = Inr t"
  obtains p st where "find_plan s i = Some p" and "p_status p = Active"
    and "List.find (\<lambda>c. s_id c = step_id) (p_steps p) = Some st" and "\<not> completed st"
    and "list_all completed (takeWhile (\<lambda>c. s_id c \<noteq> s_id st) (p_steps p))"
    and "ws_plans t = set_plan i (\<lambda>q. q\<lparr>p_steps := complete_step ts st (p_steps p),
           p_status := completion_status p (complete_step ts st (p_steps p))\<rparr>) (ws_plans s)"
proof -
  from h obtain p st ps where p: "find_plan s i = Some p" "p_status p = Active"
    and st: "List.find (\<lambda>c. s_id c = step_id) (p_steps p) = Some st" "\<not> completed st"
      "list_all completed (takeWhile (\<lambda>c. s_id c \<noteq> s_id st) (p_steps p))"
    and ps: "step_item_patches s e ts st = Inr ps \<or> step_location_patches s ts st = Inr ps"
    and c: "ch_patches c = ps @
      [plan_patch (p_id p) ''steps'' (json_of_list json_of_step (p_steps p))
         (json_of_list json_of_step (complete_step ts st (p_steps p))),
       plan_patch (p_id p) ''status'' (JStr (plan_status_name (p_status p)))
         (JStr (plan_status_name (completion_status p (complete_step ts st (p_steps p)))))]" (is "_ = ps @ ?qs")
    by (rule plan_step_complete_accepted)
  have i: "p_id p = i" "i \<in> p_id ` set (ws_plans s)" using find_planD [OF p(1)] by auto
  have "fold_result patch_plans (ws_plans s) ?qs = Inr (ws_plans t)"
    using apply_patches_split [OF t [unfolded c]] step_no_plans [OF ps] by simp
  then have "ws_plans t = set_plan i (\<lambda>q. q\<lparr>p_steps := complete_step ts st (p_steps p),
           p_status := completion_status p (complete_step ts st (p_steps p))\<rparr>) (ws_plans s)"
    unfolding i(1) by (rule step_plan_patches [OF i(2)])
  then show ?thesis by (rule that [OF p st])
qed

end
