(* ===== verification/Sample.thy ===== *)
theory Sample
  imports Apply_Command Invariants
begin

text \<open>
  A small workspace on which the witnesses of the properties run: a room with two boxes, an
  item in each box, and no plan.  The commands are those of one device.
\<close>

definition plain_conditions :: conditions where
  "plain_conditions = \<lparr>c_dark = False, c_dry = True, c_foodSafe = False, c_humidity = Humidity_normal,
     c_temperature = Temperature_normal\<rparr>"

definition sample_location :: "string \<Rightarrow> string \<Rightarrow> location_kind \<Rightarrow> string option \<Rightarrow> location" where
  "sample_location i code kind parent =
     \<lparr>l_archivedAt = None, l_captureStatus = In_progress, l_code = code, l_conditions = plain_conditions,
      l_createdAt = ''t0'', l_description = [], l_dimensions = None, l_id = i, l_kind = kind,
      l_name = i, l_order = Fin 0, l_parentId = parent, l_tags = [], l_updatedAt = ''t0''\<rparr>"

definition sample_item :: "string \<Rightarrow> string \<Rightarrow> string \<Rightarrow> jsnum \<Rightarrow> item" where
  "sample_item i nm loc q =
     \<lparr>i_archivedAt = None, i_category = ''food'',
      i_constraints = \<lparr>k_avoidHumidity = False, k_avoidWarmth = False, k_foodOnly = False,
        k_keepTogether = None, k_requiredTags = []\<rparr>,
      i_createdAt = ''t0'', i_description = [], i_dimensions = None, i_frequency = Weekly, i_id = i,
      i_locationId = loc, i_name = nm, i_order = Fin 0, i_quantity = q, i_tags = [],
      i_unit = ''jar'', i_updatedAt = ''t0'', i_version = Fin 1\<rparr>"

definition sample_locations :: "location list" where
  "sample_locations =
     [sample_location ''room'' ''R'' Room None,
      sample_location ''left'' ''L'' Box (Some ''room''),
      sample_location ''right'' ''X'' Box (Some ''room'')]"

definition sample_items :: "item list" where
  "sample_items =
     [sample_item ''jam'' ''Jam'' ''left'' (Fin 5),
      sample_item ''jam2'' '' JAM '' ''right'' (Fin 2)]"

definition sample_state :: wstate where
  "sample_state = \<lparr>ws_activities = [], ws_audit = [], ws_commandReceipts = [], ws_items = sample_items,
     ws_locations = sample_locations, ws_plans = [], ws_schemaVersion = 2,
     ws_workspace = \<lparr>w_createdAt = ''t0'', w_id = ''w'', w_name = ''Home'', w_revision = Fin 7,
       w_updatedAt = ''t0''\<rparr>\<rparr>"

definition sample_envelope :: "command \<Rightarrow> envelope" where
  "sample_envelope c = \<lparr>e_actorId = ''a'', e_baseRevision = Fin 7, e_command = c, e_deviceId = ''d'',
     e_expectations = [], e_id = ''c1'', e_timestamp = ''t1'', e_workspaceId = ''w''\<rparr>"

lemmas sample_defs = sample_state_def sample_locations_def sample_location_def sample_items_def
  sample_item_def sample_envelope_def plain_conditions_def

lemma sample_location_sel [simp]:
  "l_id (sample_location i c k p) = i" "l_parentId (sample_location i c k p) = p"
  "l_archivedAt (sample_location i c k p) = None" "l_code (sample_location i c k p) = c"
  "l_captureStatus (sample_location i c k p) = In_progress"
  by (simp_all add: sample_location_def)

lemma sample_item_sel [simp]:
  "i_id (sample_item i n l q) = i" "i_locationId (sample_item i n l q) = l"
  "i_archivedAt (sample_item i n l q) = None" "i_quantity (sample_item i n l q) = q"
  "i_version (sample_item i n l q) = Fin 1"
  by (simp_all add: sample_item_def)

lemma sample_hierarchy: "hierarchy_ok sample_locations"
proof -
  have "acyclic (child_rel sample_locations)"
    by (rule acyclicI_order [where f = "\<lambda>i. if i = ''room'' then 1 else 0 :: nat"])
      (auto simp: child_rel_def sample_locations_def)
  then show ?thesis
    by (simp add: hierarchy_ok_def sample_locations_def blank_def js_trim_def is_space_def parent_known_def
        live_parent_def norm_code_def js_upper_def upper_char_def)
qed

lemma sample_wf: "wf_state sample_state"
  using sample_hierarchy
  by (simp add: wf_state_def sample_state_def sample_locations_def sample_items_def items_ok_def item_ok_def
      place_ok_def empty_ok_def plans_ok_def on_grid_of_int [of 5, simplified] on_grid_of_int [of 2, simplified]
      max_double_def is_safe_integer_def max_safe_def)

end
