(* ===== verification/Command_Safety.thy ===== *)
theory Command_Safety
  imports Preserve_Plan Sample
begin

text \<open>
  The handlers together: every accepted command that is not a history command and whose
  changes have no empty property name keeps the invariant, and so does every run of such
  commands.
\<close>

section \<open>Payloads\<close>

text \<open>
  What a command carries was parsed from JSON.  Every request and every stored record is.
\<close>

fun parsed_command :: "command \<Rightarrow> bool" where
  "parsed_command (Location_update i j r) = parsed j"
| "parsed_command (Item_create j) = parsed j"
| "parsed_command (Item_bulkCreate js r) = list_all parsed js"
| "parsed_command (Item_update i j) = parsed j"
| "parsed_command (Item_bulkUpdate us r) = list_all (\<lambda>(i, j). parsed j) us"
| "parsed_command (Item_move i d q r) = num_ok q"
| "parsed_command c = True"

text \<open>
  The partial changes of a command have no property whose name is empty.  This is a real
  restriction: the allow-lists of the code let such a property pass, and as a path it stands
  for the whole record (\<open>Empty_Names\<close> shows what it can do).
\<close>

fun named_command :: "command \<Rightarrow> bool" where
  "named_command (Location_update i j r) = named j"
| "named_command (Item_update i j) = named j"
| "named_command (Item_bulkUpdate us r) = list_all (\<lambda>(i, j). named j) us"
| "named_command c = True"

lemma parsed_property: "parsed (JObj m) \<Longrightarrow> map_of m k = Some v \<Longrightarrow> parsed v"
  by (auto simp: list_all_iff dest!: map_of_SomeD)

lemma named_property: "named (JObj m) \<Longrightarrow> map_of m k = Some v \<Longrightarrow> named v"
  by (auto simp: list_all_iff dest!: map_of_SomeD)

lemma set_alist_delete: "set (AList.delete k m) \<subseteq> set m"
  by (induction m) auto

lemma set_alist_update: "set (AList.update k v m) \<subseteq> insert (k, v) (set m)"
  by (induction m) auto

lemma parsed_delete: "parsed (JObj m) \<Longrightarrow> parsed (JObj (AList.delete k m))"
  using set_alist_delete [of k m] by (auto simp: list_all_iff distinct_delete)

lemma named_delete: "named (JObj m) \<Longrightarrow> named (JObj (AList.delete k m))"
  using set_alist_delete [of k m] by (auto simp: list_all_iff)

lemma parsed_update: "parsed (JObj m) \<Longrightarrow> parsed v \<Longrightarrow> parsed (JObj (AList.update k v m))"
  using set_alist_update [of k v m] by (fastforce simp: list_all_iff distinct_update)

lemma named_update: "named (JObj m) \<Longrightarrow> named v \<Longrightarrow> k \<noteq> [] \<Longrightarrow> named (JObj (AList.update k v m))"
  using set_alist_update [of k v m] by (fastforce simp: list_all_iff)

lemma normalize_description_keeps:
  shows "parsed j \<Longrightarrow> parsed (normalize_description j)" and "named j \<Longrightarrow> named (normalize_description j)"
proof -
  have "(parsed j \<longrightarrow> parsed (normalize_description j)) \<and> (named j \<longrightarrow> named (normalize_description j))"
  proof (cases j)
    case (JObj m)
    show ?thesis
    proof (cases "map_of m ''notes''")
      case (Some v)
      let ?m = "if map_of m ''description'' = None then AList.update ''description'' v m else m"
      have "parsed j \<Longrightarrow> parsed (JObj ?m)" using parsed_property [OF _ Some] parsed_update [of m v] by (simp add: JObj)
      moreover have "named j \<Longrightarrow> named (JObj ?m)"
        using named_property [OF _ Some] named_update [of m v "''description''"] by (simp add: JObj)
      ultimately show ?thesis
        using Some parsed_delete named_delete by (simp add: JObj del: parsed.simps named.simps)
    qed (simp add: JObj)
  qed simp_all
  then show "parsed j \<Longrightarrow> parsed (normalize_description j)" "named j \<Longrightarrow> named (normalize_description j)" by blast+
qed

lemma normalize_command_keeps:
  "parsed_command c \<Longrightarrow> parsed_command (normalize_command c)"
  "named_command c \<Longrightarrow> named_command (normalize_command c)"
  by (cases c; fastforce simp: list_all_iff normalize_description_keeps)+

section \<open>One command\<close>

lemma normal_patches_preserve:
  assumes h: "normal_patches s e = Inr c" and t: "apply_patches s (ch_patches c) = Inr t"
    and wf: "wf_state s" and parsed: "parsed_command (e_command e)" and named: "named_command (e_command e)"
  shows "wf_state t"
proof (cases "e_command e")
  case (Item_bulkCreate js r)
  then show ?thesis using h parsed preserve_item_bulk_create [OF _ t wf] parsed_doubles
    by (simp add: normal_patches_def list_all_iff)
next
  case (Item_bulkUpdate us r)
  then have u: "item_bulk_update s (e_timestamp e) us r = Inr c" using h by (simp add: normal_patches_def)
  have "\<forall>(i, j)\<in>set us. clean j" using parsed named Item_bulkUpdate by (auto simp: list_all_iff clean_iff)
  then show ?thesis by (rule preserve_item_bulk_update [OF u t wf])
qed (use h parsed named in \<open>auto simp: normal_patches_def intro: parsed_doubles clean_plain [unfolded clean_iff, OF conjI]
    preserve_workspace_rename [OF _ t wf] preserve_location_create [OF _ t wf]
    preserve_location_update [OF _ t wf] preserve_location_move [OF _ t wf]
    preserve_location_reorder [OF _ t wf] preserve_location_archive [OF _ t wf]
    preserve_location_delete [OF _ t wf] preserve_capture_empty [OF _ t wf]
    preserve_capture_status [OF _ t wf] preserve_item_create [OF _ t wf]
    preserve_item_update [OF _ t wf] preserve_item_reorder [OF _ t wf]
    preserve_item_delete [OF _ t wf] preserve_item_move [OF _ t wf]
    preserve_item_bulk_move [OF _ t wf] preserve_plan_create [OF _ t wf]
    preserve_plan_status [OF _ t wf] preserve_plan_step_complete [OF _ t wf]\<close>)

lemma apply_command_preserves:
  assumes "apply_command dp s e = Inr r" and "\<not> is_history_command (normalize_command (e_command e))"
    and "wf_state s" and "parsed_command (e_command e)" and "named_command (e_command e)"
  shows "wf_state (cr_state r)"
proof -
  from apply_command_accepted(6) [OF assms(1,2)] obtain c t where
    c: "normal_patches s (normalize_envelope e) = Inr c" and t: "apply_patches s (ch_patches c) = Inr t"
    and r: "cr_state r = bump_revision (e_timestamp e) (t\<lparr>ws_activities := ws_activities t @ [activity_of (normalize_envelope e) c]\<rparr>)"
    by (auto simp: apply_normal_command_Inr normalize_envelope_def)
  have "wf_state t"
    using normal_patches_preserve [OF c t assms(3)] normalize_command_keeps(1) [OF assms(4)] normalize_command_keeps(2) [OF assms(5)]
    by (simp add: normalize_envelope_def)
  moreover have "ws_locations (cr_state r) = ws_locations t" "ws_items (cr_state r) = ws_items t"
    "ws_plans (cr_state r) = ws_plans t"
    by (simp_all add: r bump_revision_def)
  ultimately show ?thesis using wf_state_cong by blast
qed

section \<open>Runs of commands\<close>

text \<open>The states a workspace passes through when accepted commands are applied to it.\<close>

inductive run :: "(string \<Rightarrow> bool) \<Rightarrow> wstate \<Rightarrow> envelope list \<Rightarrow> wstate \<Rightarrow> bool" for dp where
  run_Nil: "run dp s [] s"
| run_Cons: "apply_command dp s e = Inr r \<Longrightarrow> run dp (cr_state r) es t \<Longrightarrow> run dp s (e # es) t"

inductive_simps run_simps: "run dp s [] t" "run dp s (e # es) t"

lemma run_append: "run dp s es t \<Longrightarrow> run dp t fs u \<Longrightarrow> run dp s (es @ fs) u"
  by (induction rule: run.induct) (auto intro: run_Cons)

text \<open>
  An ordinary request is neither undo nor redo, was parsed from JSON and has no empty property
  name in the changes of an update.
\<close>

definition ordinary :: "envelope \<Rightarrow> bool" where
  "ordinary e \<longleftrightarrow>
     \<not> is_history_command (e_command e) \<and> parsed_command (e_command e) \<and> named_command (e_command e)"

lemma history_normalize [simp]: "is_history_command (normalize_command c) = is_history_command c"
  by (cases c) simp_all

lemma run_preserves:
  "run dp s es t \<Longrightarrow> wf_state s \<Longrightarrow> \<forall>e\<in>set es. ordinary e \<Longrightarrow> wf_state t"
proof (induction rule: run.induct)
  case (run_Cons s e r es t)
  have "wf_state (cr_state r)"
    using apply_command_preserves [OF run_Cons.hyps(1)] run_Cons.prems by (simp add: ordinary_def)
  then show ?case using run_Cons.IH run_Cons.prems(2) by simp
qed

end
