(* ===== verification/Quantities.thy ===== *)
theory Quantities
  imports Preserve_Move
begin

text \<open>
  Moves neither create nor lose anything: for integer quantities, the total held by
  interchangeable records is the same before and after a move (\<open>moveItemPatches\<close> of
  \<open>src/domain/commands.ts\<close>), whether the record moves, splits or merges.
\<close>

definition held :: "item \<Rightarrow> item \<Rightarrow> rat" where
  "held z y = (if equivalent y z then num_val (i_quantity y) else 0)"

definition total_held :: "item \<Rightarrow> item list \<Rightarrow> rat" where
  "total_held z xs = sum_list (map (held z) xs)"

text \<open>Counts that are added and subtracted exactly.\<close>

definition countable :: "jsnum \<Rightarrow> bool" where
  "countable q \<longleftrightarrow> (\<exists>n::int. q = JsInt n \<and> \<bar>n\<bar> \<le> 2 ^ 52)"

lemma total_set_item:
  assumes "x \<in> set xs" and "distinct (map i_id xs)"
  shows "total_held z (set_item (i_id x) f xs) = total_held z xs - held z x + held z (f x)"
  using assms
proof (induction xs)
  case (Cons y ys)
  show ?case
  proof (cases "i_id y = i_id x")
    case True
    then have "y = x" using Cons.prems by (auto simp: image_iff)
    then show ?thesis by (simp add: total_held_def set_item_def)
  next
    case False
    then show ?thesis using Cons by (auto simp: total_held_def set_item_def)
  qed
qed simp

lemma total_remove:
  assumes "x \<in> set xs" and "distinct (map i_id xs)"
  shows "total_held z (filter (\<lambda>y. i_id y \<noteq> i_id x) xs) = total_held z xs - held z x"
  using assms
proof (induction xs)
  case (Cons y ys)
  show ?case
  proof (cases "i_id y = i_id x")
    case True
    then have "y = x" using Cons.prems by (auto simp: image_iff)
    moreover have "filter (\<lambda>u. i_id u \<noteq> i_id x) ys = ys"
      using Cons.prems True by (auto simp: filter_id_conv image_iff)
    ultimately show ?thesis by (simp add: total_held_def)
  next
    case False
    then show ?thesis using Cons by (auto simp: total_held_def)
  qed
qed simp

lemma held_with_quantity: "held z (with_quantity ts q x) = (if equivalent x z then num_val q else 0)"
  by (simp add: held_def)

lemma held_relocated: "held z (relocated ts d r x) = held z x"
  by (simp add: held_def)

lemma held_split: "held z (split_item x i d r q ts) = (if equivalent x z then num_val q else 0)"
  by (simp add: held_def)

lemma moved_items_total:
  assumes x: "x \<in> set (ws_items s)" and dist: "distinct (map i_id (ws_items s))"
    and counts: "\<forall>y\<in>set (ws_items s). countable (i_quantity y)" and q: "countable q"
  shows "total_held z (moved_items s x d q e ts) = total_held z (ws_items s)"
proof -
  from counts x obtain n where n: "i_quantity x = JsInt n" "\<bar>n\<bar> \<le> 2 ^ 52" by (auto simp: countable_def)
  from q obtain k where k: "q = JsInt k" "\<bar>k\<bar> \<le> 2 ^ 52" by (auto simp: countable_def)
  have rem: "js_sub (i_quantity x) q = JsInt (n - k)"
    unfolding n k by (rule js_sub_int) (use n k in simp)
  have hx: "held z x = (if equivalent x z then of_int n else 0)" by (simp add: held_def n)
  show ?thesis
  proof (cases "merge_target s x d")
    case (Some m)
    let ?merged = "set_item (i_id m) (with_quantity ts (js_add (i_quantity m) q)) (ws_items s)"
    have m: "m \<in> set (ws_items s)" "i_id m \<noteq> i_id x" "equivalent m x"
      using Some by (auto simp: merge_target_def dest: find_SomeD)
    from counts m(1) obtain a where a: "i_quantity m = JsInt a" "\<bar>a\<bar> \<le> 2 ^ 52" by (auto simp: countable_def)
    have add: "js_add (i_quantity m) q = JsInt (a + k)" unfolding a k by (rule js_add_int) (use a k in simp)
    have e: "equivalent m z = equivalent x z" using m(3) equivalent_trans equivalent_sym by blast
    have hm: "held z m = (if equivalent x z then of_int a else 0)" by (simp add: held_def a e)
    have one: "total_held z ?merged = total_held z (ws_items s) + (if equivalent x z then of_int k else 0)"
      using total_set_item [OF m(1) dist, of z] by (simp add: held_with_quantity add hm e)
    have xm: "x \<in> set ?merged" "distinct (map i_id ?merged)"
      using x m(2) dist by (auto intro!: unaffected)
    show ?thesis
    proof (cases "n = k")
      case True
      then show ?thesis
        using total_remove [OF xm, of z] Some one hx rem by (simp add: moved_items_def Let_def)
    next
      case False
      then show ?thesis
        using total_set_item [OF xm, of z] Some one hx rem
        by (simp add: moved_items_def Let_def held_with_quantity)
    qed
  next
    case None
    show ?thesis
    proof (cases "n = k")
      case True
      then show ?thesis
        using total_set_item [OF x dist, of z] None rem by (simp add: moved_items_def Let_def held_relocated)
    next
      case False
      then show ?thesis
        using total_set_item [OF x dist, of z] None hx rem k
        by (simp add: moved_items_def Let_def held_with_quantity held_split total_held_def)
    qed
  qed
qed

end
