(* ===== verification/Sample_Runs.thy ===== *)
theory Sample_Runs
  imports Command_Safety Quantities
begin

text \<open>
  The commands on the sample workspace that the witnesses use, evaluated: two jars of jam move
  from the left box to the right one, where an interchangeable record takes them in.
\<close>

abbreviation jam :: item where
  "jam \<equiv> sample_item ''jam'' ''Jam'' ''left'' (Fin 5)"

abbreviation jam2 :: item where
  "jam2 \<equiv> sample_item ''jam2'' '' JAM '' ''right'' (Fin 2)"

lemma sample_items_sel [simp]: "ws_items sample_state = [jam, jam2]"
  by (simp add: sample_state_def sample_items_def)

lemma sample_plans_sel [simp]: "ws_plans sample_state = []" "w_id (ws_workspace sample_state) = ''w''"
  "w_revision (ws_workspace sample_state) = Fin 7"
  by (simp_all add: sample_state_def)

lemma sample_find [simp]:
  "find_location sample_state ''left'' = Some (sample_location ''left'' ''L'' Box (Some ''room''))"
  "find_location sample_state ''right'' = Some (sample_location ''right'' ''X'' Box (Some ''room''))"
  "find_location sample_state ''room'' = Some (sample_location ''room'' ''R'' Room None)"
  "find_item sample_state ''jam'' = Some jam"
  "find_item sample_state ''jam2'' = Some jam2"
  by (simp_all add: find_location_def sample_state_def sample_locations_def)
    (simp_all add: find_item_def sample_items_def)

lemma jam_names: "normal_text '' JAM '' = normal_text ''Jam''"
  by code_simp

lemma jams_equivalent: "equivalent jam2 jam"
  by (simp add: equivalent_def sample_item_def jam_names)

lemma sample_merge: "merge_target sample_state jam ''right'' = Some jam2"
  using jams_equivalent by (simp add: merge_target_def)

definition jam_patches :: "field_patch list" where
  "jam_patches =
     [item_patch ''jam2'' ''quantity'' (JNum (Fin 2)) (JNum (Fin 4)),
      item_patch ''jam2'' ''updatedAt'' (JStr ''t0'') (JStr ''t1''),
      item_patch ''jam2'' ''version'' (JNum (Fin 1)) (JNum (Fin 2)),
      item_patch ''jam'' ''quantity'' (JNum (Fin 5)) (JNum (Fin 3)),
      item_patch ''jam'' ''updatedAt'' (JStr ''t0'') (JStr ''t1''),
      item_patch ''jam'' ''version'' (JNum (Fin 1)) (JNum (Fin 2))]"

lemma sample_arith: "js_add (Fin 2) (Fin 2) = Fin 4" "js_sub (Fin 5) (Fin 2) = Fin 3"
  "js_add (Fin 1) (Fin 1) = Fin 2" "js_add (Fin 7) (Fin 1) = Fin 8"
  using js_add_int [of 2 2] js_sub_int [of 5 2] js_add_int [of 1 1] js_add_int [of 7 1]
  by (simp_all del: js_add.simps)

lemma sample_next_version: "next_item_version (sample_item i n l q) = Inr (Fin 2)"
  by (simp add: next_item_version_def is_safe_integer_def max_safe_def js_le_def sample_arith del: js_add.simps)

lemma sample_item_updatedAt [simp]: "i_updatedAt (sample_item i n l q) = ''t0''"
  by (simp add: sample_item_def)

lemma sample_move: "move_item_patches sample_state jam ''right'' (Fin 2) ''c1'' ''t1'' = Inr jam_patches"
  using sample_merge jams_equivalent
  by (simp add: move_item_patches_def Let_def require_active_location_def require_location_def js_le_def merge_target_def item_quantity_patches_def
      sample_next_version sample_arith jam_patches_def
      del: js_add.simps)

abbreviation move_jam :: envelope where
  "move_jam \<equiv> sample_envelope (Item_move ''jam'' ''right'' (Fin 2) None)"

lemma sample_item_move:
  "item_move sample_state ''c1'' ''t1'' ''jam'' ''right'' (Fin 2) None =
     mk_change (''Moved '' @ num_to_string (Fin 2) @ '' '' @ i_unit jam @ '' '' @ i_name jam)
       jam_patches [''jam'', ''left'', ''right'']"
  by (simp add: item_move_def require_active_item_def require_item_def sample_move
      require_location_def sample_location_def capture_complete_def capture_progress_patches_def
      require_active_location_def plan_invalidation_patches_def)

lemma jam_patches_apply:
  "apply_patches sample_state jam_patches =
     Inr (sample_state\<lparr>ws_items := moved_items sample_state jam ''right'' (Fin 2) ''c1'' ''t1''\<rparr>)"
  using move_implements [OF sample_move] by (simp add: apply_item_patches)

lemma sample_accepted: "\<exists>r. apply_command (\<lambda>_. True) sample_state move_jam = Inr r"
  by (simp add: Let_def apply_command_def normalize_envelope_def validate_envelope_def check_revision_def
      apply_normal_command_def normal_patches_def sample_envelope_def sample_item_move
      mk_change_def jam_patches_apply blank_def js_trim_def is_space_def is_safe_integer_def max_safe_def js_le_def)

text \<open>The same move by a device that still expects four jars.\<close>

definition stale_quantity :: field_expectation where
  "stale_quantity = \<lparr>fe_id = ''jam'', fe_path = ''quantity'', fe_target = Target_item, fe_value = JNum (Fin 4)\<rparr>"

definition stale_move :: envelope where
  "stale_move = move_jam\<lparr>e_expectations := [stale_quantity]\<rparr>"

definition stale_conflict :: sync_conflict where
  "stale_conflict = \<lparr>sc_commandId = ''c1'', sc_current = Some (JNum (Fin 5)),
     sc_expected = Some (JNum (Fin 4)), sc_field = ''quantity'', sc_id = ''jam'', sc_target = Target_item\<rparr>"

lemma sample_reads: "read_patch_value sample_state Target_item ''jam'' ''quantity'' = Inr (Some (JNum (Fin 5)))"
  by (simp add: read_patch_value_def read_path_def item_obj_def sample_item_def)

lemma sample_checks:
  "validate_envelope (\<lambda>_. True) (normalize_envelope stale_move) = Inr ()"
  "check_revision sample_state (normalize_envelope stale_move) = Inr ()"
  by (simp_all add: stale_move_def stale_quantity_def sample_envelope_def validate_envelope_def check_revision_def
      normalize_envelope_def normalize_expectation_def check_expectation_def blank_def js_trim_def
      is_space_def is_safe_integer_def max_safe_def js_le_def)

text \<open>The right box and its jar are deleted; then it is emptied instead.\<close>

lemma sample_locations_sel [simp]: "ws_locations sample_state = sample_locations"
  by (simp add: sample_state_def)

lemma sample_right_leaf: "descendants_of sample_locations ''right'' = []"
  by (simp add: descendants_of_def descendants_loop.simps children_of_def sample_locations_def)

lemma sample_delete_patches:
  "\<exists>u. apply_patches sample_state [delete_item_patch jam2, delete_location_patch (sample_location ''right'' ''X'' Box (Some ''room''))] = Inr u"
  by (simp add: apply_patches_Cons delete_item_patch_def delete_location_patch_def
      item_records.delete_patch location_records.delete_patch)

lemma sample_delete:
  "\<exists>c t. location_delete sample_state ''right'' [] [''jam2''] = Inr c \<and> apply_patches sample_state (ch_patches c) = Inr t"
  using sample_delete_patches
  by (simp add: location_delete_def Let_def require_location_def sample_right_leaf require_item_def
      plan_invalidation_patches_def capture_complete_def mk_change_def)

lemma sample_empty_patches:
  "\<exists>u. apply_patches sample_state
     [delete_item_patch jam2,
      location_patch ''right'' ''captureStatus'' (JStr ''in_progress'') (JStr ''known_empty''),
      location_patch ''right'' ''updatedAt'' (JStr (l_updatedAt (sample_location ''right'' ''X'' Box (Some ''room'')))) (JStr ''t1'')] = Inr u"
proof -
  have "''right'' \<in> l_id ` set sample_locations" by (simp add: sample_locations_def)
  from status_patches_fold [OF this, of "JStr ''in_progress''" Known_empty] obtain ls where
    "patch_locations sample_locations
      (location_patch ''right'' ''captureStatus'' (JStr ''in_progress'') (JStr ''known_empty'')) = Inr ls"
    "\<exists>ms. patch_locations ls (location_patch ''right'' ''updatedAt''
      (JStr (l_updatedAt (sample_location ''right'' ''X'' Box (Some ''room'')))) (JStr ''t1'')) = Inr ms"
    by (force simp: and_then_eq_Inr)
  then show ?thesis
    by (auto simp: apply_patches_Cons delete_item_patch_def item_records.delete_patch)
qed

lemma sample_empty:
  "\<exists>c t. capture_empty sample_state ''t1'' ''right'' [''jam2''] = Inr c \<and> apply_patches sample_state (ch_patches c) = Inr t"
  using sample_empty_patches
  by (simp add: capture_empty_def Let_def require_active_location_def require_location_def
      plan_invalidation_patches_def mk_change_def sample_locations_def)

text \<open>The same boxes without the jam: the right one can be archived.\<close>

definition bare_state :: wstate where
  "bare_state = sample_state\<lparr>ws_items := []\<rparr>"

lemma bare_state_sel [simp]: "ws_items bare_state = []" "ws_plans bare_state = []"
  "ws_locations bare_state = sample_locations"
  by (simp_all add: bare_state_def)

lemma bare_wf: "wf_state bare_state"
  using sample_wf by (auto simp: wf_state_def items_ok_def empty_ok_def holds_nothing_def)

lemma bare_archive:
  "\<exists>c t. location_archive bare_state ''t1'' ''right'' (Some (JBool True)) = Inr c \<and> apply_patches bare_state (ch_patches c) = Inr t"
proof -
  let ?r = "sample_location ''right'' ''X'' Box (Some ''room'')"
  obtain ls where ls: "patch_locations sample_locations
      (location_patch ''right'' ''archivedAt'' JNull (JStr ''t1'')) = Inr ls" "''right'' \<in> l_id ` set ls"
    using location_patches(4) [of "''right''" sample_locations JNull "Some ''t1''"]
    by (simp add: sample_locations_def set_location_def json_of_nullable_def)
  then obtain ms where "patch_locations ls (location_patch ''right'' ''updatedAt'' (JStr (l_updatedAt ?r)) (JStr ''t1'')) = Inr ms"
    using location_patches(2) by blast
  with ls(1) have "\<exists>t. apply_patches bare_state
      [location_patch ''right'' ''archivedAt'' JNull (JStr ''t1''),
       location_patch ''right'' ''updatedAt'' (JStr (l_updatedAt ?r)) (JStr ''t1'')] = Inr t"
    by (simp add: apply_patches_Cons)
  moreover have "find_location bare_state ''right'' = Some ?r" "find_location bare_state ''room'' = Some (sample_location ''room'' ''R'' Room None)"
    by (simp_all add: find_location_def sample_locations_def)
  ultimately show ?thesis
    by (simp add: location_archive_def archive_location_def require_location_def sample_right_leaf capture_complete_def
        plan_invalidation_patches_def mk_change_def json_of_nullable_def)
qed

end
