(* ===== verification/Empty_Names.thy ===== *)
theory Empty_Names
  imports Sample_Runs Command_Safety
begin

text \<open>
  What an empty property name in the changes of an update can do (\<open>assertAllowedChanges\<close> and
  \<open>writePath\<close> of \<open>src/domain/commands.ts\<close>): it passes the allow-list, and as a path it stands for
  the whole record.  The record written here differs from the stored one in its parent alone,
  which is the location itself.
\<close>

definition own_parent :: location where
  "own_parent = sample_location ''left'' ''L'' Box (Some ''left'')"

abbreviation hollow :: jsobj where
  "hollow \<equiv> [([], json_of_location own_parent)]"

definition hollow_change :: envelope where
  "hollow_change = sample_envelope (Location_update ''left'' (JObj hollow) None)"

definition hollow_patches :: "field_patch list" where
  "hollow_patches =
     [mk_patch Target_location ''left'' [] (Some (json_of_location (sample_location ''left'' ''L'' Box (Some ''room''))))
        (Some (json_of_location own_parent)),
      location_patch ''left'' ''updatedAt'' (JStr ''t0'') (JStr ''t1'')]"

lemma left_found: "require_active_location sample_state ''left'' = Inr (sample_location ''left'' ''L'' Box (Some ''room''))"
  by (simp add: require_active_location_def require_location_def find_location_def sample_state_def sample_locations_def)

lemma hollow_passes: "allowed_changes location_change_keys (Some (JObj hollow)) = Inr hollow"
  by (simp add: refused_key_def location_change_keys_def)

lemma hollow_entries:
  "changed_entries (location_obj (sample_location ''left'' ''L'' Box (Some ''room''))) hollow =
     Inr [([], Some (json_of_location (sample_location ''left'' ''L'' Box (Some ''room''))), json_of_location own_parent)]"
  by (simp add: changed_entries_def read_path_def path_keys_def equal_opt_def equal.simps own_parent_def location_obj_def
      sample_location_def json_of_nullable_def)

lemma hollow_update:
  "location_update sample_state ''t1'' ''left'' (JObj hollow) None =
     mk_change ''Updated left'' hollow_patches [''left'']"
proof -
  let ?l = "sample_location ''left'' ''L'' Box (Some ''room'')"
  define nxt where "nxt = AList.update ''name'' (JStr ''left'') (AList.update ''code'' (JStr ''L'')
     (AList.update ''updatedAt'' (JStr ''t1'') (obj_merge (location_obj ?l) hollow)))"
  have same: "normalize_change ''name'' (JStr nm) (normalize_change ''code'' (JStr code) hollow) = hollow" for nm code
    by (simp add: normalize_change_def)
  have valid: "validate_location sample_state (JObj nxt) (Some ''left'') = Inr ()" and parent: "map_of nxt ''parentId'' = Some (JStr ''room'')"
    by (simp_all add: nxt_def validate_location_def obj_merge_def location_obj_def sample_location_def location_code_in_use_def
        json_of_conditions_def plain_conditions_def json_of_list_def json_of_nullable_def
        sample_state_def sample_locations_def blank_def js_trim_def is_space_def require_location_def find_location_def
        js_upper_def upper_char_def all_humidity_def all_temperature_def all_capture_status_def all_location_kind_def
        descendants_of_def descendants_loop.simps children_of_def Let_def)
  have merged: "map_of (AList.update ''updatedAt'' (JStr ''t1'') (obj_merge (location_obj ?l) hollow)) ''code'' = Some (JStr ''L'')"
    "map_of (AList.update ''updatedAt'' (JStr ''t1'') (obj_merge (location_obj ?l) hollow)) ''name'' = Some (JStr ''left'')"
    by (simp_all add: obj_merge_def location_obj_def sample_location_def)
  have sel: "l_name ?l = ''left''" "l_updatedAt ?l = ''t0''" by (simp_all add: sample_location_def)
  have trim: "js_upper (js_trim ''L'') = ''L''" "js_trim ''left'' = ''left''"
    by (simp_all add: js_upper_def js_trim_def is_space_def upper_char_def)
  show ?thesis
    unfolding location_update_def left_found hollow_passes Let_def and_then_Inr confirmation_simps same hollow_entries merged
      satisfies.simps text_of_def string_or_none.simps option.case trim nxt_def [symmetric] parent
    using valid sel
    by (simp add: parent_progress_def changes_any_def entry_patches_def hollow_patches_def)
qed

lemma hollow_applied:
  "\<exists>t. apply_patches sample_state hollow_patches = Inr t \<and> own_parent\<lparr>l_updatedAt := ''t1''\<rparr> \<in> set (ws_locations t)"
proof -
  have "write_path (location_obj own_parent) ''updatedAt'' (Some (JStr ''t1'')) =
      Inr (JObj (location_obj (own_parent\<lparr>l_updatedAt := ''t1''\<rparr>)))"
    by (simp add: write_path_def path_keys_def unsafe_path_keys_def location_obj_def)
  moreover have "l_id own_parent = ''left''" by (simp add: own_parent_def)
  ultimately show ?thesis
    by (simp add: hollow_patches_def apply_patches_def patch_collection_def patch_whole_def patch_property_def typed_def
        location_codec.dec_enc sample_state_def sample_locations_def)
qed

text \<open>The command is accepted, and afterwards the location lies in itself.\<close>

lemma hollow_accepted:
  "\<exists>r. apply_command (\<lambda>_. True) sample_state hollow_change = Inr r \<and>
     own_parent\<lparr>l_updatedAt := ''t1''\<rparr> \<in> set (ws_locations (cr_state r))"
  using hollow_applied
  by (auto simp: Let_def apply_command_def normalize_envelope_def validate_envelope_def check_revision_def
      apply_normal_command_def normal_patches_def sample_envelope_def hollow_change_def hollow_update
      mk_change_def blank_def js_trim_def is_space_def is_safe_integer_def max_safe_def js_le_def bump_revision_def)

theorem empty_name_breaks_hierarchy:
  "\<exists>r. apply_command (\<lambda>_. True) sample_state hollow_change = Inr r \<and> wf_state sample_state \<and> \<not> wf_state (cr_state r)"
proof -
  obtain r where r: "apply_command (\<lambda>_. True) sample_state hollow_change = Inr r"
    "own_parent\<lparr>l_updatedAt := ''t1''\<rparr> \<in> set (ws_locations (cr_state r))" using hollow_accepted by blast
  then have "(''left'', ''left'') \<in> child_rel (ws_locations (cr_state r))"
    by (force simp: child_rel_def own_parent_def)
  then have "\<not> acyclic (child_rel (ws_locations (cr_state r)))" by (auto simp: acyclic_def)
  then have "\<not> wf_state (cr_state r)" by (simp add: wf_state_def hierarchy_ok_def)
  with r(1) sample_wf show ?thesis by blast
qed

end
