(* ===== verification/Workspace_Access.thy ===== *)
theory Workspace_Access
  imports Model_Types Errors
begin

text \<open>
  Access to a shared workspace as the client stores and reconciles it
  (\<open>src/domain/workspace-access.ts\<close>): roles, the capabilities a role gives, the normalisation
  of stored and received values, and the rule by which a newer access state replaces the
  current one.

  Absent and \<open>null\<close> account identifiers are both \<open>None\<close>, as every function of the module
  treats them alike.  The parameter \<open>lc\<close> is \<open>localeCompare\<close>, whose collation the platform decides.
\<close>

section \<open>Roles, statuses and capabilities\<close>

datatype workspace_role = Owner | Editor | Viewer

datatype access_status = Access_active | Access_revoked | Access_left | Access_deleted | Access_unknown

datatype access_kind = Device_only | On_server

fun role_name :: "workspace_role \<Rightarrow> string" where
  "role_name Owner = ''owner''"
| "role_name Editor = ''editor''"
| "role_name Viewer = ''viewer''"

definition all_roles :: "workspace_role list" where
  "all_roles = [Owner, Editor, Viewer]"

fun access_status_name :: "access_status \<Rightarrow> string" where
  "access_status_name Access_active = ''active''"
| "access_status_name Access_revoked = ''revoked''"
| "access_status_name Access_left = ''left''"
| "access_status_name Access_deleted = ''deleted''"
| "access_status_name Access_unknown = ''unknown''"

definition all_access_statuses :: "access_status list" where
  "all_access_statuses = [Access_active, Access_revoked, Access_left, Access_deleted, Access_unknown]"

interpretation workspace_role: string_union role_name all_roles
  by unfold_locales (auto simp: all_roles_def elim: role_name.elims intro: workspace_role.exhaust)

interpretation access_status: string_union access_status_name all_access_statuses
  by unfold_locales (auto simp: all_access_statuses_def intro: access_status.exhaust)

fun role_rank :: "workspace_role \<Rightarrow> nat" where
  "role_rank Editor = 1"
| "role_rank Owner = 2"
| "role_rank Viewer = 0"

record capabilities =
  cap_delete :: bool
  cap_leave :: bool
  cap_manageAccess :: bool
  cap_read :: bool
  cap_write :: bool

record access_state =
  ac_accountId :: "string option"
  ac_accessRevision :: jsnum
  ac_capabilities :: capabilities
  ac_checkedAt :: "string option"
  ac_kind :: access_kind
  ac_membershipRevision :: jsnum
  ac_role :: "workspace_role option"
  ac_status :: access_status

record server_summary =
  sm_accountId :: "string option"
  sm_accessRevision :: jsnum
  sm_capabilities :: capabilities
  sm_id :: string
  sm_membershipRevision :: jsnum
  sm_name :: string
  sm_revision :: jsnum
  sm_role :: workspace_role
  sm_updatedAt :: string

record access_options =
  op_accountId :: "string option"
  op_accessRevision :: "jsnum option"
  op_canLeave :: "bool option"
  op_checkedAt :: "string option"
  op_membershipRevision :: "jsnum option"
  op_status :: "access_status option"

definition no_capabilities :: capabilities where
  "no_capabilities = \<lparr>cap_delete = False, cap_leave = False, cap_manageAccess = False, cap_read = False, cap_write = False\<rparr>"

definition device_only_capabilities :: capabilities where
  "device_only_capabilities =
     \<lparr>cap_delete = False, cap_leave = False, cap_manageAccess = False, cap_read = True, cap_write = True\<rparr>"

abbreviation read_only :: capabilities where
  "read_only \<equiv> no_capabilities\<lparr>cap_read := True\<rparr>"

section \<open>Reading stored values\<close>

fun non_negative_integer :: "json option \<Rightarrow> jsnum" where
  "non_negative_integer (Some (JNum n)) = (if is_safe_integer n \<and> \<not> js_less n (Fin 0) then n else Fin 0)"
| "non_negative_integer v = Fin 0"

fun optional_string :: "json option \<Rightarrow> string option" where
  "optional_string (Some (JStr t)) = (if js_trim t \<noteq> [] then Some t else None)"
| "optional_string v = None"

abbreviation optional_text :: "string option \<Rightarrow> string option" where
  "optional_text t \<equiv> optional_string (map_option JStr t)"

fun role_of :: "json option \<Rightarrow> workspace_role option" where
  "role_of (Some (JStr t)) = enum_of role_name all_roles t"
| "role_of v = None"

fun access_status_of :: "json option \<Rightarrow> access_status option" where
  "access_status_of (Some (JStr t)) = enum_of access_status_name all_access_statuses t"
| "access_status_of v = None"

definition capabilities_for_role :: "workspace_role \<Rightarrow> bool option \<Rightarrow> capabilities" where
  "capabilities_for_role role can_leave =
     \<lparr>cap_delete = (role = Owner),
      cap_leave = (case can_leave of None \<Rightarrow> role \<noteq> Owner | Some b \<Rightarrow> b),
      cap_manageAccess = (role = Owner), cap_read = True, cap_write = (role = Owner \<or> role = Editor)\<rparr>"

definition device_only_access :: access_state where
  "device_only_access =
     \<lparr>ac_accountId = None, ac_accessRevision = Fin 0, ac_capabilities = device_only_capabilities,
      ac_checkedAt = None, ac_kind = Device_only, ac_membershipRevision = Fin 0, ac_role = Some Owner,
      ac_status = Access_active\<rparr>"

definition server_access :: "workspace_role \<Rightarrow> access_options \<Rightarrow> access_state" where
  "server_access role opts =
     (let status = (case op_status opts of None \<Rightarrow> Access_active | Some st \<Rightarrow> st) in
      \<lparr>ac_accountId = optional_text (op_accountId opts),
       ac_accessRevision = non_negative_integer (map_option JNum (op_accessRevision opts)),
       ac_capabilities = (if status = Access_active then capabilities_for_role role (op_canLeave opts) else read_only),
       ac_checkedAt = op_checkedAt opts, ac_kind = On_server,
       ac_membershipRevision = non_negative_integer (map_option JNum (op_membershipRevision opts)),
       ac_role = Some role, ac_status = status\<rparr>)"

definition normalize_capabilities :: "json option \<Rightarrow> workspace_role \<Rightarrow> access_status \<Rightarrow> capabilities" where
  "normalize_capabilities v role status =
     (let maximum = capabilities_for_role role None; yes = (\<lambda>k. Option.bind v (jget k) = Some (JBool True)) in
      if status \<noteq> Access_active then read_only
      else if \<not> (case v of Some j \<Rightarrow> is_record j | None \<Rightarrow> False) then maximum
      else \<lparr>cap_delete = (cap_delete maximum \<and> yes ''delete''),
            cap_leave = yes ''leave'',
            cap_manageAccess = (cap_manageAccess maximum \<and> yes ''manageAccess''),
            cap_read = (cap_read maximum \<and> Option.bind v (jget ''read'') \<noteq> Some (JBool False)),
            cap_write = (cap_write maximum \<and> yes ''write'')\<rparr>)"

definition normalize_access :: "json \<Rightarrow> access_state" where
  "normalize_access j =
     (let get = (\<lambda>k. jget k j); role = role_of (get ''role'');
          status = (case access_status_of (get ''status'') of Some st \<Rightarrow> st
                    | None \<Rightarrow> if role \<noteq> None then Access_active else Access_unknown) in
      if \<not> is_record j \<or> get ''kind'' \<noteq> Some (JStr ''server'') then device_only_access
      else
        \<lparr>ac_accountId = optional_string (get ''accountId''),
         ac_accessRevision = non_negative_integer (get ''accessRevision''),
         ac_capabilities = (case role of None \<Rightarrow> read_only
                            | Some r \<Rightarrow> normalize_capabilities (get ''capabilities'') r status),
         ac_checkedAt = optional_string (get ''checkedAt''), ac_kind = On_server,
         ac_membershipRevision = non_negative_integer (get ''membershipRevision''),
         ac_role = role, ac_status = status\<rparr>)"

definition normalize_summary :: "json \<Rightarrow> server_summary option" where
  "normalize_summary j =
     (let get = (\<lambda>k. jget k j) in
      if \<not> is_record j then None
      else case (role_of (get ''role''), optional_string (get ''id''), optional_string (get ''name''),
                 optional_string (get ''updatedAt'')) of
        (Some role, Some i, Some nm, Some upd) \<Rightarrow>
          Some \<lparr>sm_accountId = optional_string (get ''accountId''),
                sm_accessRevision = non_negative_integer (get ''accessRevision''),
                sm_capabilities = normalize_capabilities (get ''capabilities'') role Access_active,
                sm_id = i, sm_membershipRevision = non_negative_integer (get ''membershipRevision''),
                sm_name = nm, sm_revision = non_negative_integer (get ''revision''), sm_role = role,
                sm_updatedAt = upd\<rparr>
      | _ \<Rightarrow> None)"

section \<open>Accounts\<close>

definition account_ids_match :: "string option \<Rightarrow> string option \<Rightarrow> bool" where
  "account_ids_match l r \<longleftrightarrow> optional_text l = optional_text r"

text \<open>An outbox entry is seen as its account identifier and its status.\<close>

definition has_foreign_pending_work :: "(string option \<times> string) list \<Rightarrow> string option \<Rightarrow> bool" where
  "has_foreign_pending_work outbox account =
     (case optional_text account of
        None \<Rightarrow> False
      | Some current \<Rightarrow> list_ex (\<lambda>(entry_account, status).
          status = ''pending'' \<and> optional_text entry_account \<noteq> None \<and> optional_text entry_account \<noteq> Some current) outbox)"

definition access_for_account :: "json \<Rightarrow> string option \<Rightarrow> access_state" where
  "access_for_account j account =
     (let a = normalize_access j in
      case optional_text account of
        None \<Rightarrow> a
      | Some current \<Rightarrow>
          if ac_kind a \<noteq> On_server \<or> account_ids_match (ac_accountId a) (Some current) then a
          else \<lparr>ac_accountId = Some current, ac_accessRevision = ac_accessRevision a, ac_capabilities = read_only,
                ac_checkedAt = ac_checkedAt a, ac_kind = On_server,
                ac_membershipRevision = ac_membershipRevision a, ac_role = None, ac_status = Access_unknown\<rparr>)"

definition json_of_capabilities :: "capabilities \<Rightarrow> json" where
  "json_of_capabilities c = JObj
     [(''delete'', JBool (cap_delete c)), (''leave'', JBool (cap_leave c)),
      (''manageAccess'', JBool (cap_manageAccess c)), (''read'', JBool (cap_read c)), (''write'', JBool (cap_write c))]"

definition access_from_summary :: "server_summary \<Rightarrow> string \<Rightarrow> access_state" where
  "access_from_summary m checked_at =
     \<lparr>ac_accountId = optional_text (sm_accountId m), ac_accessRevision = sm_accessRevision m,
      ac_capabilities = normalize_capabilities (Some (json_of_capabilities (sm_capabilities m))) (sm_role m) Access_active,
      ac_checkedAt = Some checked_at, ac_kind = On_server, ac_membershipRevision = sm_membershipRevision m,
      ac_role = Some (sm_role m), ac_status = Access_active\<rparr>"

section \<open>Which state is newer\<close>

definition grants_more :: "capabilities \<Rightarrow> capabilities \<Rightarrow> bool" where
  "grants_more c d \<longleftrightarrow>
     cap_delete c \<and> \<not> cap_delete d \<or> cap_leave c \<and> \<not> cap_leave d \<or> cap_manageAccess c \<and> \<not> cap_manageAccess d \<or>
     cap_read c \<and> \<not> cap_read d \<or> cap_write c \<and> \<not> cap_write d"

definition should_apply_access :: "access_state \<Rightarrow> access_state \<Rightarrow> bool" where
  "should_apply_access current cand =
     (let cur_account = optional_text (ac_accountId current); cand_account = optional_text (ac_accountId cand) in
      if ac_kind cand = Device_only then ac_kind current = Device_only
      else if ac_kind current = Device_only then True
      else if cand_account \<noteq> None \<and> cand_account \<noteq> cur_account then True
      else if cur_account \<noteq> None \<and> cand_account = None then False
      else if \<not> js_eq (ac_membershipRevision cand) (ac_membershipRevision current)
      then js_less (ac_membershipRevision current) (ac_membershipRevision cand)
      else if \<not> js_eq (ac_accessRevision cand) (ac_accessRevision current)
      then js_less (ac_accessRevision current) (ac_accessRevision cand)
      else if ac_status current \<noteq> ac_status cand
      then ac_status current = Access_active \<and> ac_status cand \<noteq> Access_active
      else if ac_role current \<noteq> ac_role cand
      then (case ac_role cand of None \<Rightarrow> True
            | Some c \<Rightarrow> (case ac_role current of None \<Rightarrow> False | Some r \<Rightarrow> role_rank c < role_rank r))
      else \<not> grants_more (ac_capabilities cand) (ac_capabilities current))"

definition compare_summaries :: "(string \<Rightarrow> string \<Rightarrow> jsnum) \<Rightarrow> server_summary \<Rightarrow> server_summary \<Rightarrow> jsnum" where
  "compare_summaries lc l r =
     (if \<not> js_eq (sm_membershipRevision l) (sm_membershipRevision r)
      then js_sub (sm_membershipRevision l) (sm_membershipRevision r)
      else if \<not> js_eq (sm_accessRevision l) (sm_accessRevision r)
      then js_sub (sm_accessRevision l) (sm_accessRevision r)
      else if \<not> js_eq (sm_revision l) (sm_revision r) then js_sub (sm_revision l) (sm_revision r)
      else lc (sm_updatedAt l) (sm_updatedAt r))"

section \<open>Write access\<close>

definition read_only_reason :: "access_state \<Rightarrow> string option" where
  "read_only_reason a =
     (if cap_write (ac_capabilities a) then None
      else if ac_status a = Access_deleted
      then Some ''The server workspace was deleted. This retained device copy is read-only.''
      else if ac_status a = Access_left
      then Some ''You left this workspace. This retained device copy is read-only.''
      else if ac_status a = Access_revoked
      then Some ''Your workspace access was removed. This retained device copy is read-only.''
      else if ac_role a = Some Viewer
      then Some ''Viewer access allows browsing and export, but not editing.''
      else Some ''Editing is unavailable until workspace access can be confirmed.'')"

text \<open>A refusal is a \<open>WorkspacePermissionError\<close> with the reason as its message.\<close>

definition require_write_access :: "access_state \<Rightarrow> string + unit" where
  "require_write_access a =
     (case read_only_reason a of None \<Rightarrow> Inr () | Some reason \<Rightarrow> Inl reason)"

section \<open>Lemmas\<close>

lemma read_only_sel [simp]:
  "\<not> cap_delete read_only" "\<not> cap_leave read_only" "\<not> cap_manageAccess read_only" "cap_read read_only" "\<not> cap_write read_only"
  by (simp_all add: no_capabilities_def)

text \<open>No stored value grants more than its role does: normalisation caps the capabilities.\<close>

definition within_role :: "access_state \<Rightarrow> bool" where
  "within_role a \<longleftrightarrow>
     (ac_kind a = Device_only \<longrightarrow> a = device_only_access) \<and>
     (ac_kind a = On_server \<longrightarrow>
        (cap_delete (ac_capabilities a) \<or> cap_manageAccess (ac_capabilities a) \<longrightarrow>
           ac_status a = Access_active \<and> ac_role a = Some Owner) \<and>
        (cap_write (ac_capabilities a) \<longrightarrow>
           ac_status a = Access_active \<and> (ac_role a = Some Owner \<or> ac_role a = Some Editor)) \<and>
        (cap_leave (ac_capabilities a) \<longrightarrow> ac_status a = Access_active \<and> ac_role a \<noteq> None))"

lemma normalize_capabilities_within:
  "cap_delete (normalize_capabilities v r st) \<Longrightarrow> st = Access_active \<and> r = Owner"
  "cap_manageAccess (normalize_capabilities v r st) \<Longrightarrow> st = Access_active \<and> r = Owner"
  "cap_write (normalize_capabilities v r st) \<Longrightarrow> st = Access_active \<and> (r = Owner \<or> r = Editor)"
  "cap_leave (normalize_capabilities v r st) \<Longrightarrow> st = Access_active"
  by (auto simp: normalize_capabilities_def capabilities_for_role_def Let_def split: if_splits)

lemma normalize_access_within: "within_role (normalize_access j)"
  by (auto simp: within_role_def normalize_access_def device_only_access_def Let_def split: option.splits
      dest: normalize_capabilities_within)

lemma access_for_account_within: "within_role (access_for_account j account)"
  using normalize_access_within [of j]
  by (auto simp: access_for_account_def Let_def within_role_def split: option.splits)

text \<open>Normalising what was normalised changes nothing.\<close>

lemma capabilities_fixed:
  "normalize_capabilities (Some (json_of_capabilities (normalize_capabilities v r Access_active))) r Access_active =
     normalize_capabilities v r Access_active"
  by (auto simp: normalize_capabilities_def json_of_capabilities_def capabilities_for_role_def Let_def)

text \<open>
  The right to leave is not capped by the role: a stored or received record of capabilities
  grants it to anybody, and without such a record everybody but an owner has it.
\<close>

definition leave_granted :: "json \<Rightarrow> workspace_role \<Rightarrow> bool" where
  "leave_granted j r \<longleftrightarrow>
     (case jget ''capabilities'' j of
        Some (JObj c) \<Rightarrow> map_of c ''leave'' = Some (JBool True)
      | _ \<Rightarrow> r \<noteq> Owner)"

definition within_rights :: "json \<Rightarrow> access_state \<Rightarrow> bool" where
  "within_rights j a \<longleftrightarrow>
     (cap_delete (ac_capabilities a) \<or> cap_manageAccess (ac_capabilities a) \<longrightarrow>
        ac_status a = Access_active \<and> ac_role a = Some Owner) \<and>
     (require_write_access a = Inr () \<longrightarrow>
        ac_status a = Access_active \<and> (ac_role a = Some Owner \<or> ac_role a = Some Editor)) \<and>
     (cap_leave (ac_capabilities a) \<longleftrightarrow>
        ac_status a = Access_active \<and> (\<exists>r. ac_role a = Some r \<and> leave_granted j r))"

lemma require_write_iff: "require_write_access a = Inr () \<longleftrightarrow> cap_write (ac_capabilities a)"
  by (simp add: require_write_access_def read_only_reason_def)

lemma normalize_leave:
  "cap_leave (normalize_capabilities (jget ''capabilities'' j) r st) \<longleftrightarrow> st = Access_active \<and> leave_granted j r"
  by (auto simp: normalize_capabilities_def capabilities_for_role_def leave_granted_def jget_def [of "''leave''"] Let_def
      split: if_splits option.splits json.splits)

lemma normalize_access_rights:
  "ac_kind (normalize_access j) = On_server \<Longrightarrow> within_rights j (normalize_access j)"
  using normalize_capabilities_within normalize_leave
  by (auto simp: within_rights_def require_write_iff normalize_access_def device_only_access_def Let_def split: option.splits if_splits)

lemma access_for_account_rights:
  "ac_kind (access_for_account j account) = On_server \<Longrightarrow> within_rights j (access_for_account j account)"
  using normalize_access_rights [of j]
  by (auto simp: access_for_account_def Let_def within_rights_def require_write_iff split: option.splits if_splits)

lemma summary_rights: "normalize_summary j = Some m \<Longrightarrow> within_rights j (access_from_summary m now)"
  using normalize_capabilities_within normalize_leave
  by (auto simp: within_rights_def require_write_iff normalize_summary_def access_from_summary_def capabilities_fixed Let_def
      split: option.splits if_splits)

section \<open>Replacing the current state\<close>

text \<open>
  Between server states of one account the rule orders states by membership revision, then by
  access revision; at equal revisions it only takes rights away.
\<close>

definition account_of :: "access_state \<Rightarrow> string option" where
  "account_of a = optional_text (ac_accountId a)"

definition counts_revisions :: "access_state \<Rightarrow> bool" where
  "counts_revisions a \<longleftrightarrow> is_finite (ac_membershipRevision a) \<and> is_finite (ac_accessRevision a)"

definition stamp :: "access_state \<Rightarrow> rat \<times> rat" where
  "stamp a = (num_val (ac_membershipRevision a), num_val (ac_accessRevision a))"

definition older :: "access_state \<Rightarrow> access_state \<Rightarrow> bool" where
  "older a b \<longleftrightarrow> fst (stamp a) < fst (stamp b) \<or> fst (stamp a) = fst (stamp b) \<and> snd (stamp a) < snd (stamp b)"

lemma should_apply_same_account:
  assumes "ac_kind cur = On_server" and "ac_kind cand = On_server" and "account_of cur = account_of cand"
    and "counts_revisions cur" and "counts_revisions cand"
  shows "should_apply_access cur cand \<longleftrightarrow>
    older cur cand \<or>
    (stamp cur = stamp cand \<and>
     (if ac_status cur \<noteq> ac_status cand then ac_status cur = Access_active
      else if ac_role cur \<noteq> ac_role cand
      then (case ac_role cand of None \<Rightarrow> True
            | Some c \<Rightarrow> (case ac_role cur of None \<Rightarrow> False | Some r \<Rightarrow> role_rank c < role_rank r))
      else \<not> grants_more (ac_capabilities cand) (ac_capabilities cur)))"
  using assms
  by (auto simp: should_apply_access_def Let_def account_of_def counts_revisions_def stamp_def older_def
      js_eq_finite js_less_finite)

lemma normalize_counts: "counts_revisions (normalize_access j)"
proof -
  have "is_finite (non_negative_integer v)" for v
    by (cases v rule: non_negative_integer.cases) (auto dest: safe_integer_Fin)
  then show ?thesis by (simp add: counts_revisions_def normalize_access_def device_only_access_def Let_def)
qed

text \<open>The capabilities a role gives by default.\<close>

definition default_access :: "access_state \<Rightarrow> bool" where
  "default_access a \<longleftrightarrow> ac_kind a = On_server \<and> ac_role a \<noteq> None \<and> ac_status a = Access_active \<and>
     ac_capabilities a = capabilities_for_role (the (ac_role a)) None"

lemma equal_stamp_never_grants:
  assumes cur: "default_access cur" and "ac_kind cand = On_server" and "within_role cand"
    and "account_of cur = account_of cand" and "counts_revisions cur" and "counts_revisions cand"
    and "stamp cur = stamp cand" and "should_apply_access cur cand"
  shows "cap_delete (ac_capabilities cand) \<longrightarrow> cap_delete (ac_capabilities cur)"
    and "cap_manageAccess (ac_capabilities cand) \<longrightarrow> cap_manageAccess (ac_capabilities cur)"
    and "cap_write (ac_capabilities cand) \<longrightarrow> cap_write (ac_capabilities cur)"
proof -
  obtain r where r: "ac_role cur = Some r" "ac_capabilities cur = capabilities_for_role r None"
    and k: "ac_kind cur = On_server" "ac_status cur = Access_active"
    using cur by (auto simp: default_access_def)
  have "\<not> older cur cand" using assms(7) by (simp add: older_def)
  then have rule: "if ac_status cur \<noteq> ac_status cand then ac_status cur = Access_active
      else if ac_role cur \<noteq> ac_role cand
      then (case ac_role cand of None \<Rightarrow> True
            | Some c \<Rightarrow> (case ac_role cur of None \<Rightarrow> False | Some r \<Rightarrow> role_rank c < role_rank r))
      else \<not> grants_more (ac_capabilities cand) (ac_capabilities cur)"
    using assms(8) should_apply_same_account [OF k(1) assms(2,4,5,6)] by blast
  have w: "cap_delete (ac_capabilities cand) \<or> cap_manageAccess (ac_capabilities cand) \<Longrightarrow>
        ac_status cand = Access_active \<and> ac_role cand = Some Owner"
      "cap_write (ac_capabilities cand) \<Longrightarrow>
        ac_status cand = Access_active \<and> (ac_role cand = Some Owner \<or> ac_role cand = Some Editor)"
    using assms(2,3) by (auto simp: within_role_def)
  show "cap_delete (ac_capabilities cand) \<longrightarrow> cap_delete (ac_capabilities cur)"
    and "cap_manageAccess (ac_capabilities cand) \<longrightarrow> cap_manageAccess (ac_capabilities cur)"
    and "cap_write (ac_capabilities cand) \<longrightarrow> cap_write (ac_capabilities cur)"
    using rule w r k by (cases r; fastforce simp: capabilities_for_role_def grants_more_def)+
qed

text \<open>A chain of replacements never goes back in time while the account stays.\<close>

fun absorb :: "access_state \<Rightarrow> access_state list \<Rightarrow> access_state" where
  "absorb cur [] = cur"
| "absorb cur (c # cs) = absorb (if should_apply_access cur c then c else cur) cs"

lemma absorb_not_older:
  assumes "ac_kind cur = On_server" and "counts_revisions cur"
    and "\<forall>c\<in>set cs. ac_kind c = On_server \<and> account_of c = account_of cur \<and> counts_revisions c"
  shows "\<not> older (absorb cur cs) cur \<and> (\<forall>c\<in>set cs. \<not> older (absorb cur cs) c)"
  using assms
proof (induction cs arbitrary: cur)
  case (Cons c cs)
  let ?n = "if should_apply_access cur c then c else cur"
  have c: "ac_kind c = On_server" "account_of c = account_of cur" "counts_revisions c" using Cons.prems by auto
  have IH: "\<not> older (absorb ?n cs) ?n \<and> (\<forall>d\<in>set cs. \<not> older (absorb ?n cs) d)"
    using Cons.prems by (intro Cons.IH) auto
  have step: "\<not> older ?n cur" "\<not> older ?n c"
    using should_apply_same_account [OF Cons.prems(1) c(1) c(2) [symmetric] Cons.prems(2) c(3)]
    by (auto simp: older_def)
  have trans: "older x y \<Longrightarrow> \<not> older x ?n \<Longrightarrow> older ?n y" for x y by (auto simp: older_def)
  show ?case using IH step trans by auto
qed (simp add: older_def)

end
