(* ===== verification/History_Retention.thy ===== *)
theory History_Retention
  imports Json_Text Invariants
begin

text \<open>
  Compaction of the history of a workspace (\<open>src/domain/history-retention.ts\<close>): when the
  activities, their patches, the audit events, the receipts or the serialised size exceed
  their limits, the oldest activities and audit events that are not protected are removed, and
  the identifiers of their commands are kept as receipts, so that a repeated command is still
  recognised.
\<close>

record retention_limits =
  lim_activities :: nat
  lim_activityPatches :: nat
  lim_auditEvents :: nat
  lim_commandReceipts :: nat
  lim_serializedBytes :: nat

definition state_bytes :: "wstate \<Rightarrow> nat" where
  "state_bytes s = serialized_bytes (json_of_state s)"

section \<open>Receipts\<close>

definition command_id_for_audit :: "audit_event \<Rightarrow> string option" where
  "command_id_for_audit u =
     (if \<not> starts_with ''audit_'' (u_id u) then None
      else let c = drop (length ''audit_'') (u_id u) in if c = [] then None else Some c)"

fun append_receipts :: "string list \<Rightarrow> string option list \<Rightarrow> string list" where
  "append_receipts rs [] = rs"
| "append_receipts rs (c # cs) =
     append_receipts (case c of None \<Rightarrow> rs | Some i \<Rightarrow> if i = [] \<or> i \<in> set rs then rs else rs @ [i]) cs"

definition with_command_receipts :: "wstate \<Rightarrow> string option list \<Rightarrow> nat \<Rightarrow> wstate" where
  "with_command_receipts s ids limit =
     (let rs = append_receipts (ws_commandReceipts s) ids
      in s\<lparr>ws_commandReceipts := drop (length rs - limit) rs\<rparr>)"

section \<open>Leaving records out\<close>

definition audit_label :: "audit_event \<Rightarrow> nat \<Rightarrow> string" where
  "audit_label u n =
     (if u_type u = Undo \<or> u_type u = Batch_undo then ''Undid'' else ''Reapplied'') @ '' '' @
     digits_of n @ '' change'' @ plural_s n"

definition normalize_audit :: "audit_event list \<Rightarrow> string set \<Rightarrow> audit_event list" where
  "normalize_audit audit kept =
     concat (map (\<lambda>u.
       let targets = filter (\<lambda>i. i \<in> kept) (u_targetActivityIds u) in
       if targets = [] then []
       else if length targets = length (u_targetActivityIds u) then [u]
       else [u\<lparr>u_label := audit_label u (length targets), u_targetActivityIds := targets\<rparr>]) audit)"

definition without_activities :: "wstate \<Rightarrow> string set \<Rightarrow> nat \<Rightarrow> wstate" where
  "without_activities s removed limit =
     (if removed = {} then s
      else
        let gone = filter (\<lambda>a. a_id a \<in> removed) (ws_activities s);
            kept = filter (\<lambda>a. a_id a \<notin> removed) (ws_activities s);
            audit = normalize_audit (ws_audit s) (a_id ` set kept)
        in with_command_receipts (s\<lparr>ws_activities := kept, ws_audit := audit\<rparr>)
             (map (\<lambda>a. Some (a_commandId a)) gone @
              map command_id_for_audit (filter (\<lambda>u. u_id u \<notin> u_id ` set audit) (ws_audit s))) limit)"

definition without_audits :: "wstate \<Rightarrow> string set \<Rightarrow> nat \<Rightarrow> wstate" where
  "without_audits s removed limit =
     (if removed = {} then s
      else with_command_receipts (s\<lparr>ws_audit := filter (\<lambda>u. u_id u \<notin> removed) (ws_audit s)\<rparr>)
             (map command_id_for_audit (filter (\<lambda>u. u_id u \<in> removed) (ws_audit s))) limit)"

definition without_receipts :: "wstate \<Rightarrow> string set \<Rightarrow> wstate" where
  "without_receipts s removed =
     (if removed = {} then s
      else s\<lparr>ws_commandReceipts := filter (\<lambda>c. c \<notin> removed) (ws_commandReceipts s)\<rparr>)"

section \<open>The least removal that fits\<close>

function search_removal :: "(nat \<Rightarrow> bool) \<Rightarrow> nat \<Rightarrow> nat \<Rightarrow> nat" where
  "search_removal fits low high =
     (if low < high
      then let middle = (low + high) div 2 in
           if fits middle then search_removal fits low middle else search_removal fits (middle + 1) high
      else low)"
  by pat_completeness auto
termination by (relation "measure (\<lambda>(fits, low, high). high - low)") auto

declare search_removal.simps [simp del]

definition minimal_removal_count :: "string list \<Rightarrow> (string set \<Rightarrow> wstate) \<Rightarrow> nat \<Rightarrow> nat" where
  "minimal_removal_count candidates state_without limit =
     search_removal (\<lambda>n. state_bytes (state_without (set (take n candidates))) \<le> limit) 1 (length candidates)"

definition compact_receipt_bytes :: "wstate \<Rightarrow> nat \<Rightarrow> wstate" where
  "compact_receipt_bytes s limit =
     (let removable = butlast (ws_commandReceipts s) in
      if removable = [] then s
      else
        let least = without_receipts s (set removable) in
        if state_bytes least > limit then least
        else without_receipts s (set (take (minimal_removal_count removable (without_receipts s) limit) removable)))"

definition compact_bytes :: "wstate \<Rightarrow> retention_limits \<Rightarrow> string set \<Rightarrow> string set \<Rightarrow> wstate" where
  "compact_bytes s lims keep_activities keep_audits =
     (if state_bytes s \<le> lim_serializedBytes lims then s
      else
        let audits = map u_id (filter (\<lambda>u. u_id u \<notin> keep_audits) (ws_audit s));
            remove_audits = (\<lambda>ids. without_audits s ids (lim_commandReceipts lims));
            bare = remove_audits (set audits)
        in
        if audits \<noteq> [] \<and> state_bytes bare \<le> lim_serializedBytes lims
        then remove_audits (set (take (minimal_removal_count audits remove_audits (lim_serializedBytes lims)) audits))
        else
          let s' = (if audits \<noteq> [] then bare else s);
              activities = map a_id (filter (\<lambda>a. a_id a \<notin> keep_activities) (ws_activities s'));
              remove_activities = (\<lambda>ids. without_activities s' ids (lim_commandReceipts lims));
              least = remove_activities (set activities)
          in
          if activities = [] then compact_receipt_bytes s' (lim_serializedBytes lims)
          else if state_bytes least \<le> lim_serializedBytes lims
          then remove_activities
                 (set (take (minimal_removal_count activities remove_activities (lim_serializedBytes lims)) activities))
          else compact_receipt_bytes least (lim_serializedBytes lims))"

section \<open>Compaction\<close>

text \<open>The loop over the activities, oldest first, that stops when both counts fit.\<close>

fun surplus_activities :: "retention_limits \<Rightarrow> string set \<Rightarrow> nat \<Rightarrow> nat \<Rightarrow> activity list \<Rightarrow> string list" where
  "surplus_activities lims keep n patches [] = []"
| "surplus_activities lims keep n patches (a # as) =
     (if n \<le> lim_activities lims \<and> patches \<le> lim_activityPatches lims then []
      else if a_id a \<in> keep then surplus_activities lims keep n patches as
      else a_id a # surplus_activities lims keep (n - 1) (patches - length (a_patches a)) as)"

definition patch_count :: "activity list \<Rightarrow> nat" where
  "patch_count as = sum_list (map (\<lambda>a. length (a_patches a)) as)"

definition compact_workspace_history :: "wstate \<Rightarrow> retention_limits \<Rightarrow> string list \<Rightarrow> string list \<Rightarrow> wstate" where
  "compact_workspace_history s lims keep_activities keep_audits =
     (let s1 = with_command_receipts s [] (lim_commandReceipts lims);
          surplus = surplus_activities lims (set keep_activities) (length (ws_activities s1))
                      (patch_count (ws_activities s1)) (ws_activities s1);
          s2 = without_activities s1 (set surplus) (lim_commandReceipts lims);
          audits = map u_id (take (length (ws_audit s2) - lim_auditEvents lims)
                     (filter (\<lambda>u. u_id u \<notin> set keep_audits) (ws_audit s2)));
          s3 = without_audits s2 (set audits) (lim_commandReceipts lims)
      in compact_bytes s3 lims (set keep_activities) (set keep_audits))"

section \<open>What compaction leaves alone\<close>

definition content :: "wstate \<Rightarrow> int \<times> workspace \<times> location list \<times> item list \<times> move_plan list" where
  "content s = (ws_schemaVersion s, ws_workspace s, ws_locations s, ws_items s, ws_plans s)"

lemma content_removals [simp]:
  "content (with_command_receipts s ids n) = content s"
  "content (without_activities s R n) = content s"
  "content (without_audits s R n) = content s"
  "content (without_receipts s R) = content s"
  "content (compact_receipt_bytes s n) = content s"
  by (simp_all add: content_def with_command_receipts_def without_activities_def without_audits_def
      without_receipts_def compact_receipt_bytes_def Let_def)

end
