(* ===== verification/Retention_Facts.thy ===== *)
theory Retention_Facts
  imports History_Retention
begin

text \<open>
  What the compaction of the history guarantees: the contents of the workspace and the protected
  records stay, the limits are met unless only protected records are left, and the identifiers
  by which repeated commands are recognised are kept as long as the receipts have room.
\<close>

section \<open>The search for the least removal\<close>

lemma search_removal_spec:
  assumes "low \<le> high" and "fits high"
  shows "low \<le> search_removal fits low high \<and> search_removal fits low high \<le> high \<and>
    fits (search_removal fits low high) \<and>
    (search_removal fits low high = low \<or> \<not> fits (search_removal fits low high - 1))"
  using assms
proof (induction fits low high rule: search_removal.induct)
  case (1 fits low high)
  let ?m = "(low + high) div 2"
  show ?case
  proof (cases "low < high")
    case False
    then have "search_removal fits low high = low" by (subst search_removal.simps) simp
    then show ?thesis using False "1.prems" by simp
  next
    case True
    then have m: "low \<le> ?m" "?m < high" by auto
    show ?thesis
    proof (cases "fits ?m")
      case fits: True
      then show ?thesis using "1.IH"(1) [OF True refl fits] m True
        by (simp add: search_removal.simps [of fits low high])
    next
      case fits: False
      from "1.IH"(2) [OF True refl fits] m "1.prems"(2) have
        "?m + 1 \<le> search_removal fits (?m + 1) high" "search_removal fits (?m + 1) high \<le> high"
        "fits (search_removal fits (?m + 1) high)"
        "search_removal fits (?m + 1) high = ?m + 1 \<or> \<not> fits (search_removal fits (?m + 1) high - 1)"
        by auto
      moreover from this have "\<not> fits (search_removal fits (?m + 1) high - 1)" using fits by auto
      ultimately show ?thesis using True fits m
        by (simp add: search_removal.simps [of fits low high] Let_def)
    qed
  qed
qed

lemma minimal_removal_fits:
  assumes "cs \<noteq> []" and "state_bytes (f (set cs)) \<le> n"
  shows "state_bytes (f (set (take (minimal_removal_count cs f n) cs))) \<le> n"
  using search_removal_spec [of 1 "length cs" "\<lambda>k. state_bytes (f (set (take k cs))) \<le> n"] assms
  by (cases cs) (auto simp: minimal_removal_count_def)

lemma without_none [simp]: "without_audits s {} n = s" "without_activities s {} n = s" "without_receipts s {} = s"
  by (simp_all add: without_audits_def without_activities_def without_receipts_def)

lemma compact_bytes_cases:
  obtains (fits) "compact_bytes s lims ka ku = s" "state_bytes s \<le> lim_serializedBytes lims"
  | (audits) n where "compact_bytes s lims ka ku =
        without_audits s (set (take n (map u_id (filter (\<lambda>u. u_id u \<notin> ku) (ws_audit s))))) (lim_commandReceipts lims)"
      "state_bytes (compact_bytes s lims ka ku) \<le> lim_serializedBytes lims"
  | (activities) n u where "u = without_audits s (set (map u_id (filter (\<lambda>u. u_id u \<notin> ku) (ws_audit s)))) (lim_commandReceipts lims)"
      "compact_bytes s lims ka ku =
        without_activities u (set (take n (map a_id (filter (\<lambda>a. a_id a \<notin> ka) (ws_activities u))))) (lim_commandReceipts lims)"
      "state_bytes (compact_bytes s lims ka ku) \<le> lim_serializedBytes lims"
  | (receipts) u where "u = without_audits s (set (map u_id (filter (\<lambda>u. u_id u \<notin> ku) (ws_audit s)))) (lim_commandReceipts lims)"
      "compact_bytes s lims ka ku = compact_receipt_bytes
         (without_activities u (set (map a_id (filter (\<lambda>a. a_id a \<notin> ka) (ws_activities u)))) (lim_commandReceipts lims))
         (lim_serializedBytes lims)"
proof -
  let ?L = "lim_serializedBytes lims" and ?R = "lim_commandReceipts lims"
  define audits where "audits = map u_id (filter (\<lambda>u. u_id u \<notin> ku) (ws_audit s))"
  define u where "u = without_audits s (set audits) ?R"
  define acts where "acts = map a_id (filter (\<lambda>a. a_id a \<notin> ka) (ws_activities u))"
  have u: "u = without_audits s (set (map u_id (filter (\<lambda>u. u_id u \<notin> ku) (ws_audit s)))) ?R"
    by (simp add: u_def audits_def)
  have u': "(if audits \<noteq> [] then u else s) = u" by (simp add: u_def)
  have unf: "compact_bytes s lims ka ku =
     (if state_bytes s \<le> ?L then s
      else if audits \<noteq> [] \<and> state_bytes u \<le> ?L
      then without_audits s (set (take (minimal_removal_count audits (\<lambda>ids. without_audits s ids ?R) ?L) audits)) ?R
      else if acts = [] then compact_receipt_bytes u ?L
      else if state_bytes (without_activities u (set acts) ?R) \<le> ?L
      then without_activities u (set (take (minimal_removal_count acts (\<lambda>ids. without_activities u ids ?R) ?L) acts)) ?R
      else compact_receipt_bytes (without_activities u (set acts) ?R) ?L)"
    unfolding compact_bytes_def Let_def audits_def [symmetric] u_def [symmetric] u' acts_def [symmetric] by (rule refl)
  consider "state_bytes s \<le> ?L" | "\<not> state_bytes s \<le> ?L" "audits \<noteq> []" "state_bytes u \<le> ?L"
    | "\<not> state_bytes s \<le> ?L" "\<not> (audits \<noteq> [] \<and> state_bytes u \<le> ?L)" "acts \<noteq> []"
        "state_bytes (without_activities u (set acts) ?R) \<le> ?L"
    | "\<not> state_bytes s \<le> ?L" "\<not> (audits \<noteq> [] \<and> state_bytes u \<le> ?L)"
        "acts = [] \<or> \<not> state_bytes (without_activities u (set acts) ?R) \<le> ?L" by blast
  then show thesis
  proof cases
    case 1 then show thesis using fits unf by simp
  next
    case 2
    have "state_bytes (without_audits s (set (take (minimal_removal_count audits (\<lambda>ids. without_audits s ids ?R) ?L) audits)) ?R) \<le> ?L"
      by (rule minimal_removal_fits [of audits "\<lambda>ids. without_audits s ids ?R"]) (use 2 in \<open>simp_all add: u_def\<close>)
    moreover have "compact_bytes s lims ka ku =
        without_audits s (set (take (minimal_removal_count audits (\<lambda>ids. without_audits s ids ?R) ?L) audits)) ?R"
      by (simp only: unf 2 if_True if_False simp_thms)
    ultimately show thesis using audits unfolding audits_def by metis
  next
    case 3
    have "state_bytes (without_activities u (set (take (minimal_removal_count acts (\<lambda>ids. without_activities u ids ?R) ?L) acts)) ?R) \<le> ?L"
      by (rule minimal_removal_fits [of acts "\<lambda>ids. without_activities u ids ?R"]) (use 3 in simp_all)
    moreover have "compact_bytes s lims ka ku =
        without_activities u (set (take (minimal_removal_count acts (\<lambda>ids. without_activities u ids ?R) ?L) acts)) ?R"
      by (simp only: unf 3 if_True if_False simp_thms)
    ultimately show thesis using activities [OF u] unfolding acts_def by metis
  next
    case 4
    then have "compact_bytes s lims ka ku = compact_receipt_bytes (without_activities u (set acts) ?R) ?L"
      by (auto simp: unf)
    then show thesis using receipts [OF u] unfolding acts_def by metis
  qed
qed

section \<open>Nothing is lost that a repeated command needs\<close>

text \<open>The command identifiers by which a repeated command is recognised (\<open>wasApplied\<close>).\<close>

definition audit_name :: "string \<Rightarrow> string" where
  "audit_name c = ''audit_'' @ c"

definition known :: "wstate \<Rightarrow> string \<Rightarrow> bool" where
  "known s c \<longleftrightarrow>
     c \<in> set (ws_commandReceipts s) \<or> c \<in> a_commandId ` set (ws_activities s) \<or>
     audit_name c \<in> u_id ` set (ws_audit s)"

definition remembers :: "nat \<Rightarrow> wstate \<Rightarrow> wstate \<Rightarrow> bool" where
  "remembers n s t \<longleftrightarrow>
     length (ws_commandReceipts t) = n \<or>
     length (ws_commandReceipts t) < n \<and> (\<forall>c. c \<noteq> [] \<longrightarrow> known s c \<longrightarrow> known t c)"

lemma set_append_receipts: "set (append_receipts rs cs) = set rs \<union> {i. i \<noteq> [] \<and> Some i \<in> set cs}"
  by (induction rs cs rule: append_receipts.induct) (auto split: option.splits)

lemma length_append_receipts: "length rs \<le> length (append_receipts rs cs)"
proof (induction rs cs rule: append_receipts.induct)
  case (2 rs c cs)
  then show ?case by (cases c) (auto split: if_splits)
qed simp

lemma command_id_for_audit [simp]: "u_id u = audit_name c \<Longrightarrow> c \<noteq> [] \<Longrightarrow> command_id_for_audit u = Some c"
  by (simp add: command_id_for_audit_def audit_name_def)

lemma receipts_with_command_receipts:
  "ws_commandReceipts (with_command_receipts s ids n) =
     drop (length (append_receipts (ws_commandReceipts s) ids) - n) (append_receipts (ws_commandReceipts s) ids)"
  by (simp add: with_command_receipts_def Let_def)

lemma length_with_command_receipts:
  "length (ws_commandReceipts (with_command_receipts s ids n)) \<le> n"
  "length (ws_commandReceipts s) = n \<Longrightarrow> length (ws_commandReceipts (with_command_receipts s ids n)) = n"
  using length_append_receipts [of "ws_commandReceipts s" ids]
  by (auto simp: receipts_with_command_receipts)

lemma with_command_receipts_sel [simp]:
  "ws_activities (with_command_receipts s ids n) = ws_activities s"
  "ws_audit (with_command_receipts s ids n) = ws_audit s"
  by (simp_all add: with_command_receipts_def Let_def)

lemma with_command_receipts_remembers:
  assumes "\<And>c. c \<noteq> [] \<Longrightarrow> known s c \<Longrightarrow> known t c \<or> Some c \<in> set ids"
    and "ws_commandReceipts t = ws_commandReceipts s"
  shows "remembers n s (with_command_receipts t ids n)"
proof (cases "length (append_receipts (ws_commandReceipts t) ids) < n")
  case True
  let ?r = "with_command_receipts t ids n"
  have "known ?r c" if "c \<noteq> []" "known s c" for c
  proof -
    have "c \<in> set (ws_commandReceipts ?r) \<longleftrightarrow> c \<in> set (ws_commandReceipts t) \<or> Some c \<in> set ids"
      using True that(1) by (simp add: receipts_with_command_receipts set_append_receipts)
    with assms(1) [OF that] show ?thesis by (auto simp: known_def)
  qed
  with True show ?thesis by (simp add: remembers_def receipts_with_command_receipts)
qed (simp add: remembers_def receipts_with_command_receipts)

lemma remembers_trans:
  assumes "remembers n s t" and "remembers n t u"
    and "length (ws_commandReceipts t) = n \<Longrightarrow> length (ws_commandReceipts u) = n"
  shows "remembers n s u"
  using assms unfolding remembers_def by blast

lemma remembers_refl: "length (ws_commandReceipts s) \<le> n \<Longrightarrow> remembers n s s"
  by (auto simp: remembers_def)

lemma normalize_audit_ids:
  "u \<in> set (normalize_audit us K) \<longleftrightarrow>
     (\<exists>v\<in>set us. filter (\<lambda>i. i \<in> K) (u_targetActivityIds v) \<noteq> [] \<and>
        u = (if length (filter (\<lambda>i. i \<in> K) (u_targetActivityIds v)) = length (u_targetActivityIds v) then v
             else v\<lparr>u_label := audit_label v (length (filter (\<lambda>i. i \<in> K) (u_targetActivityIds v))),
                    u_targetActivityIds := filter (\<lambda>i. i \<in> K) (u_targetActivityIds v)\<rparr>))"
  by (fastforce simp: normalize_audit_def Let_def split: if_splits)

lemma without_activities_remembers:
  assumes "length (ws_commandReceipts s) \<le> n"
  shows "remembers n s (without_activities s R n)"
proof (cases "R = {}")
  case True with assms show ?thesis by (simp add: remembers_refl)
next
  case False
  define kept where "kept = filter (\<lambda>a. a_id a \<notin> R) (ws_activities s)"
  define us where "us = normalize_audit (ws_audit s) (a_id ` set kept)"
  define ids where "ids = map (\<lambda>a. Some (a_commandId a)) (filter (\<lambda>a. a_id a \<in> R) (ws_activities s)) @
    map command_id_for_audit (filter (\<lambda>u. u_id u \<notin> u_id ` set us) (ws_audit s))"
  have "known (s\<lparr>ws_activities := kept, ws_audit := us\<rparr>) c \<or> Some c \<in> set ids"
    if c: "c \<noteq> []" "known s c" for c
  proof -
    consider "c \<in> set (ws_commandReceipts s)" | a where "a \<in> set (ws_activities s)" "a_commandId a = c"
      | u where "u \<in> set (ws_audit s)" "u_id u = audit_name c"
      using c(2) unfolding known_def by (metis imageE)
    then show ?thesis
    proof cases
      case 2
      then show ?thesis by (cases "a_id a \<in> R") (auto simp: known_def ids_def kept_def)
    next
      case 3
      show ?thesis
      proof (cases "u_id u \<in> u_id ` set us")
        case True
        then have "audit_name c \<in> u_id ` set us" using 3(2) by metis
        then show ?thesis by (simp add: known_def)
      next
        case False
        with 3 have "u \<in> set (filter (\<lambda>u. u_id u \<notin> u_id ` set us) (ws_audit s))" by simp
        with 3(2) c(1) have "Some c \<in> set (map command_id_for_audit (filter (\<lambda>u. u_id u \<notin> u_id ` set us) (ws_audit s)))"
          unfolding set_map by (intro image_eqI [of _ _ u]) simp_all
        then show ?thesis by (simp add: ids_def)
      qed
    qed (simp add: known_def)
  qed
  from with_command_receipts_remembers [of s _ ids, OF this] show ?thesis
    using False by (simp add: without_activities_def Let_def kept_def us_def ids_def)
qed

lemma without_audits_remembers:
  assumes "length (ws_commandReceipts s) \<le> n"
  shows "remembers n s (without_audits s R n)"
proof (cases "R = {}")
  case True with assms show ?thesis by (simp add: remembers_refl)
next
  case False
  define ids where "ids = map command_id_for_audit (filter (\<lambda>u. u_id u \<in> R) (ws_audit s))"
  have "known (s\<lparr>ws_audit := filter (\<lambda>u. u_id u \<notin> R) (ws_audit s)\<rparr>) c \<or> Some c \<in> set ids"
    if c: "c \<noteq> []" "known s c" for c
  proof (cases "\<exists>u\<in>set (ws_audit s). u_id u = audit_name c")
    case True
    then obtain u where u: "u \<in> set (ws_audit s)" "u_id u = audit_name c" by blast
    show ?thesis
    proof (cases "u_id u \<in> R")
      case True
      then have "Some c \<in> set ids" unfolding ids_def set_map using u c(1) by (intro image_eqI [of _ _ u]) simp_all
      then show ?thesis ..
    next
      case False
      with u have "audit_name c \<in> u_id ` set (filter (\<lambda>u. u_id u \<notin> R) (ws_audit s))"
        by (intro image_eqI [of _ _ u]) simp_all
      then show ?thesis by (simp add: known_def)
    qed
  next
    case False
    then have "audit_name c \<notin> u_id ` set (ws_audit s)" by (metis imageE)
    with c(2) show ?thesis by (auto simp: known_def)
  qed
  from with_command_receipts_remembers [of s _ ids, OF this] show ?thesis
    using False by (simp add: without_audits_def ids_def)
qed

lemma length_removals:
  "length (ws_commandReceipts s) \<le> n \<Longrightarrow> length (ws_commandReceipts (without_activities s R n)) \<le> n"
  "length (ws_commandReceipts s) \<le> n \<Longrightarrow> length (ws_commandReceipts (without_audits s R n)) \<le> n"
  "length (ws_commandReceipts s) = n \<Longrightarrow> length (ws_commandReceipts (without_activities s R n)) = n"
  "length (ws_commandReceipts s) = n \<Longrightarrow> length (ws_commandReceipts (without_audits s R n)) = n"
  by (simp_all add: without_activities_def without_audits_def Let_def length_with_command_receipts)

lemma length_compact_receipt_bytes: "length (ws_commandReceipts (compact_receipt_bytes s n)) \<le> length (ws_commandReceipts s)"
  by (simp add: compact_receipt_bytes_def Let_def without_receipts_def)

lemma removals_sel [simp]:
  "ws_activities (without_audits s R n) = ws_activities s"
  "ws_activities (without_activities s R n) = filter (\<lambda>a. a_id a \<notin> R) (ws_activities s)"
  "ws_audit (without_audits s R n) = filter (\<lambda>u. u_id u \<notin> R) (ws_audit s)"
  "ws_activities (compact_receipt_bytes s n) = ws_activities s"
  "ws_audit (compact_receipt_bytes s n) = ws_audit s"
  by (simp_all add: without_audits_def without_activities_def compact_receipt_bytes_def without_receipts_def Let_def)

lemma audit_without_activities:
  "ws_audit (without_activities s R n) =
     (if R = {} then ws_audit s
      else normalize_audit (ws_audit s) (a_id ` set (filter (\<lambda>a. a_id a \<notin> R) (ws_activities s))))"
  by (simp add: without_activities_def Let_def)

section \<open>The result of a compaction\<close>

definition only_protected :: "string set \<Rightarrow> string set \<Rightarrow> wstate \<Rightarrow> bool" where
  "only_protected ka ku s \<longleftrightarrow>
     (\<forall>a\<in>set (ws_activities s). a_id a \<in> ka) \<and> (\<forall>u\<in>set (ws_audit s). u_id u \<in> ku)"

lemma normalize_audit_subset: "u_id ` set (normalize_audit us K) \<subseteq> u_id ` set us"
  by (auto simp: normalize_audit_ids split: if_splits)

lemma audit_ids_without_activities: "u_id ` set (ws_audit (without_activities s R n)) \<subseteq> u_id ` set (ws_audit s)"
  by (simp add: audit_without_activities normalize_audit_subset)

lemma compact_receipts_protected:
  assumes "u = without_audits s (set (map u_id (filter (\<lambda>u. u_id u \<notin> ku) (ws_audit s)))) n"
  shows "only_protected ka ku (compact_receipt_bytes
    (without_activities u (set (map a_id (filter (\<lambda>a. a_id a \<notin> ka) (ws_activities u)))) n) m)"
proof -
  have ku: "u_id ` set (ws_audit u) \<subseteq> ku" by (auto simp: assms)
  show ?thesis
    using subset_trans [OF audit_ids_without_activities ku]
    by (auto simp: only_protected_def)
qed

lemma compact_receipt_bytes_fit:
  "state_bytes (compact_receipt_bytes s n) \<le> n \<or> length (ws_commandReceipts (compact_receipt_bytes s n)) \<le> 1"
proof -
  let ?rs = "ws_commandReceipts s"
  have last: "length (filter (\<lambda>c. c \<notin> set (butlast ?rs)) ?rs) \<le> 1"
    by (cases ?rs rule: rev_cases) (auto simp: filter_empty_conv)
  show ?thesis
  proof (cases "butlast ?rs = []")
    case True
    then have "length ?rs \<le> 1" by (cases ?rs rule: rev_cases) auto
    with True show ?thesis by (simp add: compact_receipt_bytes_def Let_def)
  next
    case False
    let ?l = "without_receipts s (set (butlast ?rs))"
    show ?thesis
    proof (cases "state_bytes ?l > n")
      case True
      then have "ws_commandReceipts (compact_receipt_bytes s n) = filter (\<lambda>c. c \<notin> set (butlast ?rs)) ?rs"
        using False by (simp add: compact_receipt_bytes_def Let_def without_receipts_def)
      with last show ?thesis by simp
    next
      case fits: False
      then have "compact_receipt_bytes s n = without_receipts s
          (set (take (minimal_removal_count (butlast ?rs) (without_receipts s) n) (butlast ?rs)))"
        by (simp only: compact_receipt_bytes_def Let_def False fits if_False)
      then show ?thesis using minimal_removal_fits [OF False, of "without_receipts s" n] fits by simp
    qed
  qed
qed

lemma taken_unprotected: "x \<in> set (take n (map f (filter (\<lambda>a. f a \<notin> K) as))) \<Longrightarrow> x \<notin> K"
  by (auto dest!: in_set_takeD)

lemma filter_unprotected:
  "filter (\<lambda>a. a_id a \<notin> set (take n (map a_id (filter (\<lambda>a. a_id a \<notin> ka) as)))) as =
   filter (\<lambda>a. a_id a \<in> ka \<or> a_id a \<notin> set (take n (map a_id (filter (\<lambda>a. a_id a \<notin> ka) as)))) as"
  by (rule filter_cong) (auto dest: taken_unprotected)

lemma compact_bytes_content [simp]: "content (compact_bytes s lims ka ku) = content s"
  by (rule compact_bytes_cases [of s lims ka ku]) simp_all

lemma compact_bytes_fit:
  "state_bytes (compact_bytes s lims ka ku) \<le> lim_serializedBytes lims \<or>
   only_protected ka ku (compact_bytes s lims ka ku) \<and> length (ws_commandReceipts (compact_bytes s lims ka ku)) \<le> 1"
proof (cases rule: compact_bytes_cases [of s lims ka ku])
  case (receipts u)
  then show ?thesis using compact_receipt_bytes_fit compact_receipts_protected by metis
qed simp_all

lemma compact_bytes_remembers:
  assumes "length (ws_commandReceipts s) \<le> lim_commandReceipts lims"
  shows "remembers (lim_commandReceipts lims) s (compact_bytes s lims ka ku) \<or>
    only_protected ka ku (compact_bytes s lims ka ku)"
proof (cases rule: compact_bytes_cases [of s lims ka ku])
  case fits then show ?thesis using remembers_refl assms by simp
next
  case (audits n) then show ?thesis using without_audits_remembers assms by simp
next
  case (activities n u)
  have "length (ws_commandReceipts u) \<le> lim_commandReceipts lims"
    unfolding activities(1) by (rule length_removals) (rule assms)
  note rem = without_activities_remembers [OF this] and eq = length_removals(3)
  have "remembers (lim_commandReceipts lims) s u"
    unfolding activities(1) by (rule without_audits_remembers) (rule assms)
  from remembers_trans [OF this rem eq] show ?thesis unfolding activities(2) by blast
next
  case (receipts u) then show ?thesis using compact_receipts_protected by metis
qed

lemma compact_bytes_receipts:
  assumes "length (ws_commandReceipts s) \<le> lim_commandReceipts lims"
  shows "length (ws_commandReceipts (compact_bytes s lims ka ku)) \<le> lim_commandReceipts lims"
proof (cases rule: compact_bytes_cases [of s lims ka ku])
  case (receipts u) then show ?thesis
    using le_trans [OF length_compact_receipt_bytes] by (simp add: length_removals assms)
qed (simp_all add: length_removals assms)

lemma compact_bytes_activities:
  "\<exists>p. ws_activities (compact_bytes s lims ka ku) = filter (\<lambda>a. a_id a \<in> ka \<or> p (a_id a)) (ws_activities s)"
proof (cases rule: compact_bytes_cases [of s lims ka ku])
  case fits then show ?thesis by (intro exI [of _ "\<lambda>_. True"]) simp
next
  case (audits n) then show ?thesis by (intro exI [of _ "\<lambda>_. True"]) simp
next
  case (activities n u)
  then have "ws_activities (compact_bytes s lims ka ku) =
      filter (\<lambda>a. a_id a \<notin> set (take n (map a_id (filter (\<lambda>a. a_id a \<notin> ka) (ws_activities s))))) (ws_activities s)"
    by simp
  then show ?thesis unfolding filter_unprotected [of n ka]
    by (intro exI [of _ "\<lambda>i. i \<notin> set (take n (map a_id (filter (\<lambda>a. a_id a \<notin> ka) (ws_activities s))))"])
next
  case (receipts u)
  then have "ws_activities (compact_bytes s lims ka ku) =
      filter (\<lambda>a. a_id a \<in> ka \<or> False) (ws_activities s)" by (auto intro!: filter_cong)
  then show ?thesis by (intro exI [of _ "\<lambda>_. False"])
qed

lemma compact_bytes_audit: "u_id ` set (ws_audit (compact_bytes s lims ka ku)) \<subseteq> u_id ` set (ws_audit s)"
proof (cases rule: compact_bytes_cases [of s lims ka ku])
  case (activities n u)
  have "u_id ` set (ws_audit u) \<subseteq> u_id ` set (ws_audit s)" by (auto simp: activities(1))
  then show ?thesis unfolding activities(2) by (rule subset_trans [OF audit_ids_without_activities])
next
  case (receipts u)
  have "u_id ` set (ws_audit u) \<subseteq> u_id ` set (ws_audit s)" by (auto simp: receipts(1))
  then show ?thesis unfolding receipts(2) removals_sel by (rule subset_trans [OF audit_ids_without_activities])
qed auto

lemma length_normalize_audit: "length (normalize_audit us K) \<le> length us"
  by (induction us) (auto simp: normalize_audit_def Let_def)

lemma compact_bytes_audit_length: "length (ws_audit (compact_bytes s lims ka ku)) \<le> length (ws_audit s)"
proof -
  have step: "length (ws_audit (without_activities u R n)) \<le> length (ws_audit u)" for u R n
    by (simp add: audit_without_activities length_normalize_audit)
  have bare: "length (ws_audit (without_audits s R n)) \<le> length (ws_audit s)" for R n by simp
  show ?thesis
    by (cases rule: compact_bytes_cases [of s lims ka ku]) (auto intro: le_trans [OF step bare])
qed

text \<open>The counts of activities and patches fit after the first stage, or only protected ones are left.\<close>

lemma patch_count_filter: "patch_count (filter P as) \<le> patch_count as"
  by (simp add: patch_count_def sum_list_filter_le_nat)

lemma surplus_activities_fit:
  assumes "set (surplus_activities lims ka (k + length as) (q + patch_count as) as) \<subseteq> R"
    and "R \<inter> ka = {}"
  shows "(k + length (filter (\<lambda>a. a_id a \<notin> R) as) \<le> lim_activities lims \<and>
      q + patch_count (filter (\<lambda>a. a_id a \<notin> R) as) \<le> lim_activityPatches lims) \<or>
    (\<forall>a\<in>set as. a_id a \<in> ka \<or> a_id a \<in> R)"
  using assms(1)
proof (induction as arbitrary: k q)
  case (Cons a as)
  consider (stop) "k + length (a # as) \<le> lim_activities lims \<and> q + patch_count (a # as) \<le> lim_activityPatches lims"
    | (kept) "\<not> (k + length (a # as) \<le> lim_activities lims \<and> q + patch_count (a # as) \<le> lim_activityPatches lims)" "a_id a \<in> ka"
    | (gone) "\<not> (k + length (a # as) \<le> lim_activities lims \<and> q + patch_count (a # as) \<le> lim_activityPatches lims)" "a_id a \<notin> ka"
    by blast
  then show ?case
  proof cases
    case stop
    then show ?thesis
      using length_filter_le [of "\<lambda>a. a_id a \<notin> R" "a # as"] patch_count_filter [of "\<lambda>a. a_id a \<notin> R" "a # as"] by linarith
  next
    case kept
    with Cons.prems have "set (surplus_activities lims ka (Suc k + length as) (q + length (a_patches a) + patch_count as) as) \<subseteq> R"
      by (simp add: patch_count_def add.assoc split: if_splits)
    from Cons.IH [OF this] show ?thesis using kept(2) assms(2) by (auto simp: patch_count_def)
  next
    case gone
    with Cons.prems have "a_id a \<in> R" "set (surplus_activities lims ka (k + length as) (q + patch_count as) as) \<subseteq> R"
      by (auto simp: patch_count_def split: if_splits)
    with Cons.IH [OF this(2)] show ?thesis by auto
  qed
qed simp

lemma surplus_not_protected: "set (surplus_activities lims ka n p as) \<inter> ka = {}"
  by (induction lims ka n p as rule: surplus_activities.induct) auto

text \<open>The three stages of a compaction, named once for the facts that follow.\<close>

definition stage_receipts :: "wstate \<Rightarrow> retention_limits \<Rightarrow> wstate" where
  "stage_receipts s lims = with_command_receipts s [] (lim_commandReceipts lims)"

definition stage_activities :: "wstate \<Rightarrow> retention_limits \<Rightarrow> string list \<Rightarrow> wstate" where
  "stage_activities s lims ka =
     (let s1 = stage_receipts s lims in
      without_activities s1 (set (surplus_activities lims (set ka) (length (ws_activities s1))
        (patch_count (ws_activities s1)) (ws_activities s1))) (lim_commandReceipts lims))"

definition stage_audits :: "wstate \<Rightarrow> retention_limits \<Rightarrow> string list \<Rightarrow> string list \<Rightarrow> wstate" where
  "stage_audits s lims ka ku =
     (let s2 = stage_activities s lims ka in
      without_audits s2 (set (map u_id (take (length (ws_audit s2) - lim_auditEvents lims)
        (filter (\<lambda>u. u_id u \<notin> set ku) (ws_audit s2))))) (lim_commandReceipts lims))"

lemma compact_stages:
  "compact_workspace_history s lims ka ku = compact_bytes (stage_audits s lims ka ku) lims (set ka) (set ku)"
  by (simp add: compact_workspace_history_def stage_receipts_def stage_activities_def stage_audits_def Let_def)

lemma stages_content [simp]: "content (stage_audits s lims ka ku) = content s"
  by (simp add: stage_receipts_def stage_activities_def stage_audits_def Let_def)

lemma stages_receipts:
  "length (ws_commandReceipts (stage_receipts s lims)) \<le> lim_commandReceipts lims"
  "length (ws_commandReceipts (stage_activities s lims ka)) \<le> lim_commandReceipts lims"
  "length (ws_commandReceipts (stage_audits s lims ka ku)) \<le> lim_commandReceipts lims"
  by (simp_all add: stage_receipts_def stage_activities_def stage_audits_def Let_def length_removals
      length_with_command_receipts)

lemma stages_remember: "remembers (lim_commandReceipts lims) s (stage_audits s lims ka ku)"
proof -
  let ?n = "lim_commandReceipts lims"
  have 1: "remembers ?n s (stage_receipts s lims)"
    unfolding stage_receipts_def by (rule with_command_receipts_remembers) simp_all
  have "remembers ?n (stage_receipts s lims) (stage_activities s lims ka)"
    unfolding stage_activities_def Let_def by (rule without_activities_remembers) (rule stages_receipts)
  then have 2: "remembers ?n s (stage_activities s lims ka)"
    by (rule remembers_trans [OF 1]) (simp add: stage_activities_def Let_def length_removals(3))
  have "remembers ?n (stage_activities s lims ka) (stage_audits s lims ka ku)"
    unfolding stage_audits_def Let_def by (rule without_audits_remembers) (rule stages_receipts)
  then show ?thesis
    by (rule remembers_trans [OF 2]) (simp add: stage_audits_def Let_def length_removals(4))
qed

lemma stage_activities_sel:
  "ws_activities (stage_audits s lims ka ku) =
     filter (\<lambda>a. a_id a \<notin> set (surplus_activities lims (set ka) (length (ws_activities s))
       (patch_count (ws_activities s)) (ws_activities s))) (ws_activities s)"
  by (simp add: stage_receipts_def stage_activities_def stage_audits_def Let_def)

lemma stage_activities_fit:
  "(length (ws_activities (stage_audits s lims ka ku)) \<le> lim_activities lims \<and>
    patch_count (ws_activities (stage_audits s lims ka ku)) \<le> lim_activityPatches lims) \<or>
   (\<forall>a\<in>set (ws_activities (stage_audits s lims ka ku)). a_id a \<in> set ka)"
proof -
  let ?as = "ws_activities s"
  let ?R = "set (surplus_activities lims (set ka) (length ?as) (patch_count ?as) ?as)"
  have "(length (filter (\<lambda>a. a_id a \<notin> ?R) ?as) \<le> lim_activities lims \<and>
      patch_count (filter (\<lambda>a. a_id a \<notin> ?R) ?as) \<le> lim_activityPatches lims) \<or>
    (\<forall>a\<in>set ?as. a_id a \<in> set ka \<or> a_id a \<in> ?R)"
    using surplus_activities_fit [of lims "set ka" 0 ?as 0 ?R] surplus_not_protected by simp
  then show ?thesis unfolding stage_activities_sel by auto
qed

lemma length_filter_mono: "(\<And>x. P x \<Longrightarrow> Q x) \<Longrightarrow> length (filter P xs) \<le> length (filter Q xs)"
  by (induction xs) auto

lemma length_without_first:
  "length (filter (\<lambda>u. f u \<notin> set (map f (take n (filter (\<lambda>u. f u \<notin> K) us)))) us) + n \<le> length us \<or>
   (\<forall>u\<in>set us. f u \<in> K \<or> f u \<in> set (map f (take n (filter (\<lambda>u. f u \<notin> K) us))))"
proof (cases "n \<le> length (filter (\<lambda>u. f u \<notin> K) us)")
  case True
  have "length (filter (\<lambda>u. f u \<notin> f ` set (take n (filter (\<lambda>u. f u \<notin> K) us))) us) + n \<le> length us" using True
  proof (induction us arbitrary: n)
    case (Cons u us)
    show ?case
    proof (cases "f u \<in> K \<or> n = 0")
      case True
      then show ?thesis
      proof
        assume "n = 0"
        then show ?thesis by simp
      next
        assume K: "f u \<in> K"
        with Cons.prems have "length (filter (\<lambda>u. f u \<notin> f ` set (take n (filter (\<lambda>u. f u \<notin> K) us))) us) + n \<le> length us"
          by (intro Cons.IH) simp
        with K show ?thesis by (simp del: set_map)
      qed
    next
      case False
      then obtain m where m: "n = Suc m" by (cases n) auto
      let ?T = "f ` set (take m (filter (\<lambda>u. f u \<notin> K) us))"
      have "length (filter (\<lambda>v. f v \<noteq> f u \<and> f v \<notin> ?T) us) \<le> length (filter (\<lambda>v. f v \<notin> ?T) us)"
        by (rule length_filter_mono) simp
      with Cons.IH [of m] Cons.prems False show ?thesis by (simp add: m)
    qed
  qed simp
  then show ?thesis by simp
qed auto

lemma stage_audits_fit:
  "length (ws_audit (stage_audits s lims ka ku)) \<le> lim_auditEvents lims \<or>
   (\<forall>u\<in>set (ws_audit (stage_audits s lims ka ku)). u_id u \<in> set ku)"
proof -
  let ?s = "stage_activities s lims ka"
  have "ws_audit (stage_audits s lims ka ku) = filter (\<lambda>u. u_id u \<notin> set (map u_id
      (take (length (ws_audit ?s) - lim_auditEvents lims) (filter (\<lambda>u. u_id u \<notin> set ku) (ws_audit ?s))))) (ws_audit ?s)"
    by (simp add: stage_audits_def Let_def)
  then show ?thesis
    using length_without_first [where f = u_id and n = "length (ws_audit ?s) - lim_auditEvents lims" and K = "set ku" and us = "ws_audit ?s"]
    by (auto simp del: set_map)
qed

section \<open>What a compaction guarantees\<close>

lemma compaction_content [simp]: "content (compact_workspace_history s lims ka ku) = content s"
  by (simp add: compact_stages)

lemma compaction_wf [simp]: "wf_state (compact_workspace_history s lims ka ku) = wf_state s"
  using compaction_content [of s lims ka ku] by (intro wf_state_cong) (simp_all add: content_def)

lemma compaction_counts_fit:
  fixes s lims ka ku
  defines "t \<equiv> compact_workspace_history s lims ka ku"
  shows "(length (ws_activities t) \<le> lim_activities lims \<and> patch_count (ws_activities t) \<le> lim_activityPatches lims) \<or>
    (\<forall>a\<in>set (ws_activities t). a_id a \<in> set ka)"
proof -
  let ?s = "stage_audits s lims ka ku"
  obtain p where t: "ws_activities t = filter (\<lambda>a. a_id a \<in> set ka \<or> p (a_id a)) (ws_activities ?s)"
    using compact_bytes_activities [of ?s lims "set ka" "set ku"] by (auto simp: t_def compact_stages)
  then have "length (ws_activities t) \<le> length (ws_activities ?s)" "patch_count (ws_activities t) \<le> patch_count (ws_activities ?s)"
    "set (ws_activities t) \<subseteq> set (ws_activities ?s)"
    by (auto simp: patch_count_filter)
  with stage_activities_fit [of s lims ka ku] show ?thesis by (meson le_trans subsetD)
qed

lemma compaction_audits_fit:
  fixes s lims ka ku
  defines "t \<equiv> compact_workspace_history s lims ka ku"
  shows "length (ws_audit t) \<le> lim_auditEvents lims \<or> (\<forall>u\<in>set (ws_audit t). u_id u \<in> set ku)"
proof -
  let ?s = "stage_audits s lims ka ku"
  have "length (ws_audit t) \<le> length (ws_audit ?s)" "u_id ` set (ws_audit t) \<subseteq> u_id ` set (ws_audit ?s)"
    unfolding t_def compact_stages by (rule compact_bytes_audit_length, rule compact_bytes_audit)
  with stage_audits_fit [of s lims ka ku] show ?thesis by fastforce
qed

lemma compaction_receipts: "length (ws_commandReceipts (compact_workspace_history s lims ka ku)) \<le> lim_commandReceipts lims"
  unfolding compact_stages by (rule compact_bytes_receipts) (rule stages_receipts)

lemma compaction_bytes:
  "state_bytes (compact_workspace_history s lims ka ku) \<le> lim_serializedBytes lims \<or>
   only_protected (set ka) (set ku) (compact_workspace_history s lims ka ku) \<and>
   length (ws_commandReceipts (compact_workspace_history s lims ka ku)) \<le> 1"
  unfolding compact_stages by (rule compact_bytes_fit)

lemma compaction_remembers:
  fixes s lims ka ku
  defines "t \<equiv> compact_workspace_history s lims ka ku"
  assumes "known s c" and "c \<noteq> []"
  shows "known t c \<or> length (ws_commandReceipts t) = lim_commandReceipts lims \<or> only_protected (set ka) (set ku) t"
proof -
  let ?s = "stage_audits s lims ka ku" and ?n = "lim_commandReceipts lims"
  have "remembers ?n ?s t \<or> only_protected (set ka) (set ku) t"
    unfolding t_def compact_stages by (rule compact_bytes_remembers) (rule stages_receipts)
  moreover have "remembers ?n s t" if r: "remembers ?n ?s t"
    and le: "length (ws_commandReceipts ?s) = ?n \<Longrightarrow> length (ws_commandReceipts t) = ?n"
    using remembers_trans [OF stages_remember r le] .
  moreover have "length (ws_commandReceipts t) = ?n \<or> only_protected (set ka) (set ku) t"
    if full: "length (ws_commandReceipts ?s) = ?n"
  proof (cases rule: compact_bytes_cases [of ?s lims "set ka" "set ku"])
    case (activities n u)
    have "length (ws_commandReceipts u) = ?n" unfolding activities(1) by (rule length_removals) (rule full)
    then show ?thesis unfolding t_def compact_stages activities(2) by (intro disjI1 length_removals)
  next
    case (receipts u)
    then show ?thesis unfolding t_def compact_stages receipts(2) using compact_receipts_protected by metis
  qed (simp_all add: t_def compact_stages full length_removals)
  ultimately show ?thesis using assms(2,3) unfolding remembers_def by blast
qed

lemma compaction_keeps_activity:
  assumes "a \<in> set (ws_activities s)" and "a_id a \<in> set ka"
  shows "a \<in> set (ws_activities (compact_workspace_history s lims ka ku))"
proof -
  let ?s = "stage_audits s lims ka ku"
  have "a_id a \<notin> set (surplus_activities lims (set ka) n p as)" for n p as
    using surplus_not_protected assms(2) by blast
  with assms(1) have "a \<in> set (ws_activities ?s)" by (simp add: stage_activities_sel)
  with assms(2) show ?thesis
    using compact_bytes_activities [of ?s lims "set ka" "set ku"] by (auto simp: compact_stages)
qed

text \<open>
  An audit event is safe when it is protected itself and all its targets are protected
  activities that are there.
\<close>

definition safe_audit :: "string set \<Rightarrow> string set \<Rightarrow> wstate \<Rightarrow> audit_event \<Rightarrow> bool" where
  "safe_audit ka ku s u \<longleftrightarrow>
     u \<in> set (ws_audit s) \<and> u_id u \<in> ku \<and> u_targetActivityIds u \<noteq> [] \<and>
     set (u_targetActivityIds u) \<subseteq> ka \<inter> a_id ` set (ws_activities s)"

lemma safe_without_audits: "safe_audit ka ku s u \<Longrightarrow> R \<inter> ku = {} \<Longrightarrow> safe_audit ka ku (without_audits s R n) u"
  by (auto simp: safe_audit_def)

lemma safe_without_activities:
  assumes "safe_audit ka ku s u" and "R \<inter> ka = {}"
  shows "safe_audit ka ku (without_activities s R n) u"
proof -
  let ?K = "a_id ` set (filter (\<lambda>a. a_id a \<notin> R) (ws_activities s))"
  have sub: "set (u_targetActivityIds u) \<subseteq> ?K"
  proof
    fix i assume "i \<in> set (u_targetActivityIds u)"
    with assms(1) obtain a where a: "a \<in> set (ws_activities s)" "a_id a = i" "i \<in> ka"
      by (auto simp: safe_audit_def)
    with assms(2) have "a \<in> set (filter (\<lambda>a. a_id a \<notin> R) (ws_activities s))" by auto
    with a(2) show "i \<in> ?K" by blast
  qed
  then have all: "filter (\<lambda>i. i \<in> ?K) (u_targetActivityIds u) = u_targetActivityIds u"
    by (intro filter_True) blast
  have u: "u \<in> set (ws_audit s)" "u_targetActivityIds u \<noteq> []" using assms(1) by (auto simp: safe_audit_def)
  have "u \<in> set (normalize_audit (ws_audit s) ?K)"
    unfolding normalize_audit_ids by (rule bexI [OF _ u(1)]) (simp only: all u(2) if_True simp_thms)
  then show ?thesis using assms sub by (auto simp: safe_audit_def audit_without_activities)
qed

lemma safe_compact_receipt_bytes: "safe_audit ka ku s u \<Longrightarrow> safe_audit ka ku (compact_receipt_bytes s n) u"
  by (simp add: safe_audit_def)

lemma safe_with_command_receipts: "safe_audit ka ku s u \<Longrightarrow> safe_audit ka ku (with_command_receipts s ids n) u"
  by (simp add: safe_audit_def)

lemma protected_disjoint:
  "set (take n (map f (filter (\<lambda>a. f a \<notin> K) as))) \<inter> K = {}"
  "set (map f (take n (filter (\<lambda>a. f a \<notin> K) as))) \<inter> K = {}"
  "set (map f (filter (\<lambda>a. f a \<notin> K) as)) \<inter> K = {}"
  by (auto dest!: taken_unprotected in_set_takeD)

lemma compaction_keeps_audit:
  assumes "safe_audit (set ka) (set ku) s u"
  shows "u \<in> set (ws_audit (compact_workspace_history s lims ka ku))"
proof -
  let ?s = "stage_audits s lims ka ku"
  have "safe_audit (set ka) (set ku) (stage_receipts s lims) u"
    unfolding stage_receipts_def by (rule safe_with_command_receipts) (rule assms)
  then have "safe_audit (set ka) (set ku) (stage_activities s lims ka) u"
    unfolding stage_activities_def Let_def by (rule safe_without_activities) (rule surplus_not_protected)
  then have s: "safe_audit (set ka) (set ku) ?s u"
    unfolding stage_audits_def Let_def by (rule safe_without_audits) (rule protected_disjoint)
  have "safe_audit (set ka) (set ku) (compact_bytes ?s lims (set ka) (set ku)) u"
  proof (cases rule: compact_bytes_cases [of ?s lims "set ka" "set ku"])
    case fits then show ?thesis using s by simp
  next
    case (audits n) then show ?thesis unfolding audits(1) by (intro safe_without_audits s protected_disjoint)
  next
    case (activities n v)
    then show ?thesis unfolding activities(2) unfolding activities(1)
      by (intro safe_without_activities safe_without_audits s protected_disjoint)
  next
    case (receipts v)
    then show ?thesis unfolding receipts(2) unfolding receipts(1)
      by (intro safe_compact_receipt_bytes safe_without_activities safe_without_audits s protected_disjoint)
  qed
  then show ?thesis by (simp add: safe_audit_def compact_stages)
qed

end
