(* ===== verification/Quotas.thy ===== *)
theory Quotas
  imports Json_Text
begin

text \<open>
  The quotas on stored snapshots (\<open>src/shared/quotas.js\<close>, \<open>src/server/quotas.ts\<close>,
  \<open>src/domain/snapshot-quota-usage.ts\<close>).  A snapshot over a quota is refused only when it is
  further over it than the previous one, so that a workspace that is too large can still
  shrink.
\<close>

datatype quota_name =
    Active_guest_links | Activities | Activity_patches | Audit_events | Command_receipts
  | Commands_per_request | Items | Locations | Members | Owned_workspaces | Plans | Plan_steps
  | Retained_guest_links | Stored_bytes

fun api_quota :: "quota_name \<Rightarrow> nat" where
  "api_quota Active_guest_links = 10"
| "api_quota Activities = 10000"
| "api_quota Activity_patches = 50000"
| "api_quota Audit_events = 10000"
| "api_quota Command_receipts = 20000"
| "api_quota Commands_per_request = 100"
| "api_quota Items = 4000"
| "api_quota Locations = 1000"
| "api_quota Members = 25"
| "api_quota Owned_workspaces = 5"
| "api_quota Plans = 250"
| "api_quota Plan_steps = 5000"
| "api_quota Retained_guest_links = 100"
| "api_quota Stored_bytes = 1800000"

definition snapshot_quota_order :: "quota_name list" where
  "snapshot_quota_order =
     [Locations, Items, Plans, Plan_steps, Activities, Audit_events, Activity_patches, Command_receipts, Stored_bytes]"

text \<open>\<open>usage[quota]\<close>; the quotas that are not counted on a snapshot are not read.\<close>

fun usage_of :: "quota_usage \<Rightarrow> quota_name \<Rightarrow> nat" where
  "usage_of u Activities = qu_activities u"
| "usage_of u Activity_patches = qu_activityPatches u"
| "usage_of u Audit_events = qu_auditEvents u"
| "usage_of u Command_receipts = qu_commandReceipts u"
| "usage_of u Items = qu_items u"
| "usage_of u Locations = qu_locations u"
| "usage_of u Plans = qu_plans u"
| "usage_of u Plan_steps = qu_planSteps u"
| "usage_of u Stored_bytes = qu_storedBytes u"
| "usage_of u q = 0"

datatype quota_status = Status_409 | Status_413

record quota_exceeded =
  qe_actual :: nat
  qe_limit :: nat
  qe_quota :: quota_name
  qe_status :: quota_status

definition exceeds :: "quota_usage option \<Rightarrow> quota_usage \<Rightarrow> quota_name \<Rightarrow> bool" where
  "exceeds previous u q \<longleftrightarrow>
     api_quota q < usage_of u q \<and> (case previous of None \<Rightarrow> True | Some p \<Rightarrow> usage_of p q < usage_of u q)"

definition assert_usage_within_quotas ::
  "quota_usage \<Rightarrow> quota_usage option \<Rightarrow> quota_status \<Rightarrow> quota_exceeded + quota_usage" where
  "assert_usage_within_quotas u previous status =
     (case List.find (exceeds previous u) snapshot_quota_order of
        None \<Rightarrow> Inr u
      | Some q \<Rightarrow> Inl \<lparr>qe_actual = usage_of u q, qe_limit = api_quota q, qe_quota = q, qe_status = status\<rparr>)"

definition assert_snapshot_within_quotas ::
  "json \<Rightarrow> quota_usage option \<Rightarrow> quota_status \<Rightarrow> quota_exceeded + quota_usage" where
  "assert_snapshot_within_quotas j previous status = assert_usage_within_quotas (snapshot_quota_usage j) previous status"

lemma find_satisfies: "List.find P xs = Some x \<Longrightarrow> x \<in> set xs \<and> P x"
  by (auto simp: find_Some_iff)

lemma within_quotas:
  "assert_snapshot_within_quotas j previous status = Inr u \<longleftrightarrow>
     u = snapshot_quota_usage j \<and> (\<forall>q\<in>set snapshot_quota_order. \<not> exceeds previous u q)"
  by (auto simp: assert_snapshot_within_quotas_def assert_usage_within_quotas_def find_None_iff
      dest!: find_satisfies split: option.splits)

text \<open>A chain of accepted snapshots never grows a count past both its quota and where it started.\<close>

lemma within_quotas_trans:
  assumes "usage_of p q \<le> max (api_quota q) (usage_of start q)" and "\<not> exceeds (Some p) u q"
  shows "usage_of u q \<le> max (api_quota q) (usage_of start q)"
  using assms by (auto simp: exceeds_def)

end
