(* ===== verification/Command_Frame.thy ===== *)
theory Command_Frame
  imports Command_Safety
begin

text \<open>
  What accepted commands do beside the records they change: the activity log, the audit log,
  the receipts and the revision (\<open>applyNormalCommand\<close>, \<open>applyHistoryAction\<close> and
  \<open>expectationConflicts\<close> of \<open>src/domain/commands.ts\<close>).
\<close>

section \<open>Only a rename patches the workspace record\<close>

definition off_workspace :: "field_patch list \<Rightarrow> bool" where
  "off_workspace ps \<longleftrightarrow> (\<forall>p\<in>set ps. fp_target p \<noteq> Target_workspace)"

lemma off_workspace_simps [simp]:
  "off_workspace []" "off_workspace (p # ps) \<longleftrightarrow> fp_target p \<noteq> Target_workspace \<and> off_workspace ps"
  "off_workspace (ps @ qs) \<longleftrightarrow> off_workspace ps \<and> off_workspace qs"
  "off_workspace (if b then ps else qs) \<longleftrightarrow> (if b then off_workspace ps else off_workspace qs)"
  "off_workspace (plan_invalidation_patches s xs ls)"
  "off_workspace (map delete_item_patch ys)" "off_workspace (map delete_location_patch zs)"
  "off_workspace (entry_patches Target_item i es)" "off_workspace (entry_patches Target_location i es)"
  "off_workspace (version_patches x ts v)"
  by (auto simp: off_workspace_def plan_invalidation_patches_def discard_patch_def delete_item_patch_def
      delete_location_patch_def entry_patches_def version_patches_def)

lemma off_workspace_progress: "(\<And>p. p \<in> set ps \<Longrightarrow> progress_patch s p) \<Longrightarrow> off_workspace ps"
  unfolding off_workspace_def progress_patch_def in_progress_patches_def by fastforce

lemmas off_workspace_progresses =
  off_workspace_progress [OF capture_progress_patch] off_workspace_progress [OF bulk_move_progress_patch]
  off_workspace_progress [OF bulk_create_progress_patch]

lemma off_workspace_move: "move_progress_patches s a b ts = Inr ps \<Longrightarrow> off_workspace ps"
  unfolding move_progress_patches_def by (rule off_workspace_progresses(2))

lemma off_workspace_parent: "parent_progress s old new r ts = Inr ps \<Longrightarrow> off_workspace ps"
  by (auto simp: parent_progress_def split: if_splits intro: off_workspace_progresses off_workspace_move)

lemma off_workspace_quantity: "item_quantity_patches x q ts = Inr ps \<Longrightarrow> off_workspace ps"
  by (auto simp: item_quantity_patches_def and_then_eq_Inr)

lemma off_workspace_item_move: "move_item_patches s x d q e ts = Inr ps \<Longrightarrow> off_workspace ps"
  by (auto simp: move_item_patches_def and_then_eq_Inr Let_def delete_item_patch_def create_item_patch_def
      split: if_splits option.splits dest: off_workspace_quantity)

lemma off_workspace_bulk_move: "bulk_move_loop w e ts d ids = Inr (v, ps) \<Longrightarrow> off_workspace ps"
  by (induction ids arbitrary: w ps)
    (auto simp: and_then_eq_Inr split: prod.splits dest: off_workspace_item_move)

lemma off_workspace_bulk_update:
  "bulk_update_loop s ts seen us = Inr rs \<Longrightarrow> off_workspace (concat (map snd rs))"
  by (induction us arbitrary: seen rs)
    (fastforce simp: and_then_eq_Inr bulk_update_one_def Let_def split: if_splits option.splits)+

lemmas off_workspace_rules = off_workspace_progresses off_workspace_move off_workspace_parent
  off_workspace_item_move off_workspace_bulk_move off_workspace_bulk_update

text \<open>What every change a handler returns satisfies, read off the handler step by step.\<close>

definition yields :: "(change \<Rightarrow> bool) \<Rightarrow> change result \<Rightarrow> bool" where
  "yields P m \<longleftrightarrow> (\<forall>c. m = Inr c \<longrightarrow> P c)"

lemma yieldsD: "yields P m \<Longrightarrow> m = Inr c \<Longrightarrow> P c"
  by (simp add: yields_def)

lemma yields_rules:
  "yields P (Inl err)"
  "(b \<Longrightarrow> yields P m1) \<Longrightarrow> (\<not> b \<Longrightarrow> yields P m2) \<Longrightarrow> yields P (if b then m1 else m2)"
  "(\<And>x. m = Inr x \<Longrightarrow> yields P (f x)) \<Longrightarrow> yields P (and_then m f)"
  "P \<lparr>ch_label = l, ch_patches = ps, ch_subjectIds = ids\<rparr> \<Longrightarrow> yields P (mk_change l ps ids)"
  "(\<And>x y. p = (x, y) \<Longrightarrow> yields P (g x y)) \<Longrightarrow> yields P (case p of (x, y) \<Rightarrow> g x y)"
  "(opt = None \<Longrightarrow> yields P m1) \<Longrightarrow> (\<And>x. opt = Some x \<Longrightarrow> yields P (f x)) \<Longrightarrow>
   yields P (case opt of None \<Rightarrow> m1 | Some x \<Rightarrow> f x)"
  "(\<And>b. j = JBool b \<Longrightarrow> yields P (h b)) \<Longrightarrow> yields P m1 \<Longrightarrow> yields P (case j of JBool b \<Rightarrow> h b | _ \<Rightarrow> m1)"
  by (auto simp: yields_def mk_change_def and_then_eq_Inr split: option.splits prod.splits json.splits)

abbreviation spares_workspace :: "change result \<Rightarrow> bool" where
  "spares_workspace \<equiv> yields (\<lambda>c. off_workspace (ch_patches c))"

lemma if_Inr_Nil: "(if b then m else Inr []) = Inr ps \<Longrightarrow> b \<and> m = Inr ps \<or> \<not> b \<and> ps = []"
  by (auto split: if_splits)

lemma off_workspace_if:
  "(if b then m1 else m2) = Inr ps \<Longrightarrow> (m1 = Inr ps \<Longrightarrow> off_workspace ps) \<Longrightarrow>
   (m2 = Inr ps \<Longrightarrow> off_workspace ps) \<Longrightarrow> off_workspace ps"
  by (simp split: if_splits)

lemma off_workspace_Nil: "Inr [] = Inr ps \<Longrightarrow> off_workspace ps"
  by auto

lemmas off_workspace_intros = off_workspace_rules off_workspace_Nil

lemma location_handlers_spare:
  "spares_workspace (location_create s ts j)" "spares_workspace (location_update s ts i j r)"
  "spares_workspace (location_move s ts i p order r)" "spares_workspace (location_reorder s ts i q)"
  "spares_workspace (location_archive s ts i b)" "spares_workspace (location_delete s i ds xs)"
  "spares_workspace (capture_empty s ts i xs)" "spares_workspace (capture_status_set s ts i st)"
  subgoal unfolding location_create_def Let_def
    by (intro yields_rules) (simp, erule off_workspace_if; rule off_workspace_intros)
  subgoal unfolding location_update_def Let_def
    by (intro yields_rules) (simp add: off_workspace_parent)
  subgoal unfolding location_move_def Let_def
    by (intro yields_rules) (simp add: off_workspace_parent split: option.split)
  subgoal unfolding location_reorder_def by (intro yields_rules) simp
  subgoal unfolding location_archive_def archive_location_def
    by (intro yields_rules) (simp, erule off_workspace_if; rule off_workspace_intros)
  subgoal unfolding location_delete_def Let_def
    by (intro yields_rules) (simp add: delete_location_patch_def)
  subgoal unfolding capture_empty_def Let_def by (intro yields_rules) simp
  subgoal unfolding capture_status_set_def by (intro yields_rules) simp
  done

lemma off_workspace_created: "off_workspace (map (\<lambda>(i, j). mk_patch Target_item i [] None (Some j)) ijs)"
  by (auto simp: off_workspace_def)

lemma off_workspace_discard: "off_workspace (map discard_patch ps)"
  by (auto simp: off_workspace_def discard_patch_def)

lemma item_handlers_spare:
  "spares_workspace (item_create s ts j)" "spares_workspace (item_bulk_create s ts js r)"
  "spares_workspace (item_update s ts i j)" "spares_workspace (item_bulk_update s ts us r)"
  "spares_workspace (item_reorder s ts i q)" "spares_workspace (item_delete s i)"
  "spares_workspace (item_move s e ts i d q r)" "spares_workspace (item_bulk_move s e ts d ids r)"
  subgoal unfolding item_create_def Let_def
    by (intro yields_rules) (simp add: off_workspace_intros)
  subgoal unfolding item_bulk_create_def Let_def
    by (intro yields_rules) (simp add: off_workspace_created off_workspace_intros)
  subgoal unfolding item_update_def Let_def by (intro yields_rules) simp
  subgoal unfolding item_bulk_update_def Let_def
    by (intro yields_rules) (simp add: off_workspace_intros)
  subgoal unfolding item_reorder_def by (intro yields_rules) simp
  subgoal unfolding item_delete_def by (intro yields_rules) (simp add: delete_item_patch_def)
  subgoal unfolding item_move_def
    by (intro yields_rules) (simp add: off_workspace_item_move, erule off_workspace_if; rule off_workspace_intros)
  subgoal unfolding item_bulk_move_def Let_def
    by (intro yields_rules) (simp add: off_workspace_bulk_move, erule off_workspace_if; rule off_workspace_intros)
  done

lemma off_workspace_step:
  "step_item_patches s e ts st = Inr ps \<Longrightarrow> off_workspace ps"
  "step_location_patches s ts st = Inr ps \<Longrightarrow> off_workspace ps"
  unfolding step_item_patches_def step_location_patches_def
  by (auto simp: and_then_eq_Inr split: if_split_asm option.split_asm
      dest!: off_workspace_item_move off_workspace_move)

lemma plan_handlers_spare:
  "spares_workspace (plan_create s j)" "spares_workspace (plan_status_set s i st)"
  "spares_workspace (plan_step_complete s e ts i k)"
  subgoal unfolding plan_create_def Let_def
    by (intro yields_rules) (simp add: off_workspace_discard)
  subgoal unfolding plan_status_set_def by (intro yields_rules) simp
  subgoal unfolding plan_step_complete_def Let_def
    by (intro yields_rules) (simp, erule off_workspace_if; (erule off_workspace_if)?; (simp add: off_workspace_step)?)
  done

lemmas handlers_spare = location_handlers_spare item_handlers_spare plan_handlers_spare

text \<open>The workspace record after the patches of a command: at most its name differs.\<close>

lemma rename_workspace:
  assumes "workspace_rename s nm = Inr c" and "apply_patches s (ch_patches c) = Inr t"
  shows "ws_workspace t = (ws_workspace s)\<lparr>w_name := js_trim nm\<rparr>"
  using assms workspace_set_name [of "JStr (js_trim nm)" "js_trim nm"]
  by (auto simp: workspace_rename_def mk_change_def Let_def apply_patches_simps
      patch_workspace_def write_path_top and_then_eq_Inr split: if_splits)

lemma normal_patches_workspace:
  assumes h: "normal_patches s e = Inr c" and t: "apply_patches s (ch_patches c) = Inr t"
  shows "\<exists>nm. ws_workspace t = (ws_workspace s)\<lparr>w_name := nm\<rparr>"
proof (cases "\<exists>nm. e_command e = Workspace_rename nm")
  case True
  then obtain nm where "e_command e = Workspace_rename nm" by blast
  with h have "workspace_rename s nm = Inr c" by (simp add: normal_patches_def)
  then show ?thesis using rename_workspace t by blast
next
  case False
  then have "spares_workspace (normal_patches s e)"
    using handlers_spare yields_rules(1)
    by (cases "e_command e") (simp_all add: normal_patches_def)
  then have "off_workspace (ch_patches c)" by (rule yieldsD [OF _ h])
  then have "ws_workspace t = (ws_workspace s)\<lparr>w_name := w_name (ws_workspace s)\<rparr>"
    using apply_patches_untouched(4) [OF t patches_of_none] by (auto simp: off_workspace_def)
  then show ?thesis by blast
qed

section \<open>The outcome of an accepted command\<close>

lemma accepted_normal:
  assumes "apply_command dp s e = Inr r" and "\<not> is_history_command (e_command e)"
  obtains a where "cr_activity r = Some a" and "a_commandId a = e_id e" and "a_status a = Applied"
    and "a_id a = ''activity_'' @ e_id e" and "a_timestamp a = e_timestamp e"
    and "ws_activities (cr_state r) = ws_activities s @ [a]" and "ws_audit (cr_state r) = ws_audit s"
    and "ws_commandReceipts (cr_state r) = ws_commandReceipts s"
    and "ws_schemaVersion (cr_state r) = ws_schemaVersion s"
    and "w_id (ws_workspace (cr_state r)) = w_id (ws_workspace s)"
    and "w_revision (ws_workspace (cr_state r)) = js_add (w_revision (ws_workspace s)) (Fin 1)"
proof -
  from apply_command_accepted(6) [OF assms(1)] assms(2)
  obtain c t where c: "normal_patches s (normalize_envelope e) = Inr c"
    and t: "apply_patches s (ch_patches c) = Inr t"
    and r: "r = \<lparr>cr_activity = Some (activity_of (normalize_envelope e) c), cr_audit = None,
      cr_state = bump_revision (e_timestamp e)
        (t\<lparr>ws_activities := ws_activities t @ [activity_of (normalize_envelope e) c]\<rparr>)\<rparr>"
    by (auto simp: apply_normal_command_Inr normalize_envelope_def)
  show ?thesis
    using that [of "activity_of (normalize_envelope e) c"] apply_patches_split [OF t]
      normal_patches_workspace [OF c t]
    by (auto simp: r bump_revision_def activity_of_def normalize_envelope_def)
qed

lemma normalize_envelope_base [simp]:
  "e_baseRevision (normalize_envelope e) = e_baseRevision e" "e_id (normalize_envelope e) = e_id e"
  by (simp_all add: normalize_envelope_def)

text \<open>A revision that may be incremented is a safe integer and stays one.\<close>

lemma check_revision_next:
  assumes "check_revision s e = Inr ()"
  shows "is_safe_integer (js_add (w_revision (ws_workspace s)) (Fin 1))"
    and "num_val (js_add (w_revision (ws_workspace s)) (Fin 1)) = num_val (w_revision (ws_workspace s)) + 1"
    and "\<not> js_less (w_revision (ws_workspace s)) (e_baseRevision e)"
proof -
  let ?r = "w_revision (ws_workspace s)"
  from assms have safe: "is_safe_integer ?r" and le: "\<not> js_le (JsInt max_safe) ?r"
    and base: "\<not> js_less ?r (e_baseRevision e)"
    by (auto simp: check_revision_def Let_def split: if_splits)
  have "is_finite ?r" using safe_integer_Fin [OF safe] by blast
  then have "js_less ?r (JsInt max_safe)" using le by (simp add: js_le_finite js_less_finite)
  with safe obtain n where "num_val ?r = of_int n" "js_add ?r (Fin 1) = JsInt (n + 1)"
    "is_safe_integer (js_add ?r (Fin 1))"
    by (rule js_succ_safe)
  then show "is_safe_integer (js_add ?r (Fin 1))" "num_val (js_add ?r (Fin 1)) = num_val ?r + 1" by simp_all
  show "\<not> js_less ?r (e_baseRevision e)" by (rule base)
qed

section \<open>Expectations\<close>

text \<open>The conflicts are exactly the expectations that do not match, in order.\<close>

definition met :: "wstate \<Rightarrow> field_expectation \<Rightarrow> bool" where
  "met s x \<longleftrightarrow> (\<exists>cur. read_patch_value s (fe_target x) (fe_id x) (fe_path x) = Inr cur \<and> expectation_matches cur x)"

lemma expectation_conflicts_iff:
  "expectation_conflicts s i xs = Inr cs \<Longrightarrow>
   map (\<lambda>c. (sc_target c, sc_id c, sc_field c)) cs =
     map (\<lambda>x. (fe_target x, fe_id x, field_label (fe_path x))) (filter (\<lambda>x. \<not> met s x) xs)"
  by (induction xs arbitrary: cs) (auto simp: and_then_eq_Inr met_def)

end
