(* ===== verification/Snapshot_Facts.thy ===== *)
theory Snapshot_Facts
  imports Command_Frame Snapshot
begin

text \<open>
  What the snapshot validator's verdict on a typed state says about the state.  \<open>reports k cs\<close>
  reads off the errors of code \<open>k\<close>; it distributes over the way the validator builds its list.
\<close>

section \<open>Errors by code\<close>

definition reports :: "string \<Rightarrow> issue list \<Rightarrow> bool" where
  "reports k cs \<longleftrightarrow> (\<exists>c\<in>set cs. is_error c \<and> is_code c = k)"

lemma issue_sel [simp]: "is_code (an_issue c m) = c" "is_message (an_issue c m) = m" "is_error (an_issue c m)"
  by (simp_all add: an_issue_def)

lemma reports_simps [simp]:
  "\<not> reports k []" "reports k (x # cs) \<longleftrightarrow> is_error x \<and> is_code x = k \<or> reports k cs"
  "reports k (cs @ ds) \<longleftrightarrow> reports k cs \<or> reports k ds"
  "reports k (report b c m) \<longleftrightarrow> b \<and> c = k"
  "reports k (concat (map f xs)) \<longleftrightarrow> (\<exists>x\<in>set xs. reports k (f x))"
  by (auto simp: reports_def report_def)

lemma reports_if [simp]: "reports k (if b then cs else ds) \<longleftrightarrow> (if b then reports k cs else reports k ds)"
  by simp

lemma reports_require_string [simp]: "reports k (require_string m f) \<longleftrightarrow> k = ''STRING_REQUIRED'' \<and> \<not> satisfies is_string (map_of m f)"
  by (auto simp: require_string_def)

lemma reports_dimensions: "k \<noteq> ''DIMENSIONS'' \<Longrightarrow> \<not> reports k (dimension_issues v)"
  by (cases v rule: dimension_issues.cases) simp_all

section \<open>A typed state as the validator sees it\<close>

lemma elements_json_of_list [simp]: "elements_of (Some (json_of_list f xs)) = map f xs"
  by (simp add: json_of_list_def)

lemma location_obj_get [simp]:
  "map_of (location_obj l) ''id'' = Some (JStr (l_id l))"
  "map_of (location_obj l) ''parentId'' = Some (json_of_nullable JStr (l_parentId l))"
  "map_of (location_obj l) ''archivedAt'' = Some (json_of_nullable JStr (l_archivedAt l))"
  "map_of (location_obj l) ''code'' = Some (JStr (l_code l))"
  "map_of (location_obj l) ''captureStatus'' = Some (JStr (capture_status_name (l_captureStatus l)))"
  by (simp_all add: location_obj_def)

lemma item_obj_get [simp]:
  "map_of (item_obj x) ''id'' = Some (JStr (i_id x))"
  "map_of (item_obj x) ''locationId'' = Some (JStr (i_locationId x))"
  "map_of (item_obj x) ''archivedAt'' = Some (json_of_nullable JStr (i_archivedAt x))"
  "map_of (item_obj x) ''quantity'' = Some (JNum (i_quantity x))"
  "map_of (item_obj x) ''version'' = Some (JNum (i_version x))"
  by (simp_all add: item_obj_def)

lemma plan_obj_get [simp]:
  "map_of (plan_obj p) ''id'' = Some (JStr (p_id p))"
  "map_of (plan_obj p) ''status'' = Some (JStr (plan_status_name (p_status p)))"
  by (simp_all add: plan_obj_def)

lemma nullable_string [simp]:
  "string_or_none (Some (json_of_nullable JStr v)) = v"
  "truthy (Some (json_of_nullable JStr v)) \<longleftrightarrow> set_at v"
  by (cases v; simp add: json_of_nullable_def)+

lemma records_by_id_locations [simp]:
  "records_by_id (map (\<lambda>l. json_of_location l) ls) = map (\<lambda>l. (l_id l, location_obj l)) ls"
  by (induction ls) (simp_all add: records_by_id_def)

lemma known_ids_locations [simp]:
  "known_ids (map (\<lambda>l. json_of_location l) ls) = filter (\<lambda>i. \<not> blank i) (map l_id ls)"
  by (simp add: known_ids_def comp_def)

lemma parent_links_locations [simp]:
  "parent_links (map (\<lambda>l. json_of_location l) ls) = map (\<lambda>l. (l_id l, l_parentId l)) ls"
  by (simp add: parent_links_def comp_def)

lemma last_by_id_locations:
  assumes "distinct (map l_id ls)" and "l \<in> set ls"
  shows "last_by_id (map (\<lambda>l. json_of_location l) ls) (l_id l) = Some (location_obj l)"
  using assms by (auto simp: last_by_id_def rev_map [symmetric] comp_def intro!: map_of_is_SomeI)

section \<open>Locations\<close>

lemma norm_code_nonempty: "\<not> blank (l_code l) \<Longrightarrow> norm_code l \<noteq> []"
  by (simp add: norm_code_def blank_def js_upper_def)

lemma location_loop_Cons:
  "\<not> blank (l_id l) \<Longrightarrow> location_loop ids codes (map (\<lambda>l. json_of_location l) (l # ls)) =
     report (l_id l \<in> set ids) ''DUPLICATE_ID'' ''Duplicate location id'' @ location_field_issues (location_obj l) @
     report (live l \<and> norm_code l \<noteq> [] \<and> norm_code l \<in> set codes) ''DUPLICATE_CODE''
       (''Active code '' @ l_code l @ '' is duplicated'') @
     location_loop (l_id l # ids) (if live l \<and> norm_code l \<noteq> [] then norm_code l # codes else codes)
       (map (\<lambda>l. json_of_location l) ls)"
  "blank (l_id l) \<Longrightarrow> reports ''LOCATION_ID'' (location_loop ids codes (map (\<lambda>l. json_of_location l) (l # ls)))"
  by (simp_all add: Let_def norm_code_def report_def)

lemma location_fields_reports:
  "\<not> reports ''LOCATION_CODE'' (location_field_issues (location_obj l)) \<Longrightarrow> \<not> blank (l_code l)"
  "\<not> reports ''LOCATION_PARENT'' (location_field_issues (location_obj l)) \<Longrightarrow> l_parentId l = Some p \<Longrightarrow> \<not> blank p"
  by (auto simp: location_field_issues_def json_of_nullable_def)

lemma location_loop_sound:
  assumes "\<And>k. k \<in> {''LOCATION_ID'', ''DUPLICATE_ID'', ''DUPLICATE_CODE'', ''LOCATION_PARENT'', ''LOCATION_CODE''} \<Longrightarrow>
    \<not> reports k (location_loop ids codes (map (\<lambda>l. json_of_location l) ls))"
  shows "distinct (map l_id ls) \<and> l_id ` set ls \<inter> set ids = {} \<and>
    distinct (map norm_code (filter live ls)) \<and> norm_code ` set (filter live ls) \<inter> set codes = {} \<and>
    (\<forall>l\<in>set ls. \<not> blank (l_id l) \<and> (\<forall>p. l_parentId l = Some p \<longrightarrow> \<not> blank p))"
  using assms
proof (induction ls arbitrary: ids codes)
  case (Cons l ls)
  have "\<not> reports ''LOCATION_ID'' (location_loop ids codes (map (\<lambda>l. json_of_location l) (l # ls)))"
    by (rule Cons.prems) (rule insertI1)
  then have id: "\<not> blank (l_id l)" using location_loop_Cons(2) [of l ids codes ls] by argo
  note step = location_loop_Cons(1) [OF id]
  let ?loop = "location_loop (l_id l # ids) (if live l \<and> norm_code l \<noteq> [] then norm_code l # codes else codes)
    (map (\<lambda>l. json_of_location l) ls)"
  have parts: "\<not> reports k (location_field_issues (location_obj l)) \<and> \<not> reports k ?loop"
    if "k \<in> {''LOCATION_ID'', ''DUPLICATE_ID'', ''DUPLICATE_CODE'', ''LOCATION_PARENT'', ''LOCATION_CODE''}" for k
    using Cons.prems [OF that] unfolding step reports_simps by blast
  have code: "\<not> blank (l_code l)"
    by (rule location_fields_reports) (use parts [of "''LOCATION_CODE''"] in simp)
  have parent: "\<not> blank p" if "l_parentId l = Some p" for p
    by (rule location_fields_reports(2) [OF _ that]) (use parts [of "''LOCATION_PARENT''"] in simp)
  have dup: "l_id l \<notin> set ids"
    using Cons.prems [of "''DUPLICATE_ID''"] unfolding step reports_simps by blast
  have "live l \<Longrightarrow> norm_code l \<notin> set codes"
    using Cons.prems [of "''DUPLICATE_CODE''"] norm_code_nonempty [OF code] unfolding step reports_simps by blast
  moreover have "distinct (map l_id ls) \<and> l_id ` set ls \<inter> set (l_id l # ids) = {} \<and>
    distinct (map norm_code (filter live ls)) \<and>
    norm_code ` set (filter live ls) \<inter> set (if live l \<and> norm_code l \<noteq> [] then norm_code l # codes else codes) = {} \<and>
    (\<forall>l\<in>set ls. \<not> blank (l_id l) \<and> (\<forall>p. l_parentId l = Some p \<longrightarrow> \<not> blank p))"
    by (rule Cons.IH) (use parts in blast)
  ultimately show ?case using dup id parent norm_code_nonempty [OF code] by (auto split: if_splits)
qed simp

section \<open>The hierarchy has no cycle\<close>

lemma walk_repeats_cycle:
  assumes "\<And>l p. l \<in> set ls \<Longrightarrow> l_parentId l = Some p \<Longrightarrow> p \<noteq> []" and "distinct (map l_id ls)"
    and "(c, c) \<in> (child_rel ls)\<^sup>+"
  shows "walk_repeats (map (\<lambda>l. (l_id l, l_parentId l)) ls) seen (Some c)"
  using assms(3)
proof (induction "map (\<lambda>l. (l_id l, l_parentId l)) ls" seen "Some c" arbitrary: c rule: walk_repeats.induct)
  case (1 seen)
  let ?links = "map (\<lambda>l. (l_id l, l_parentId l)) ls"
  from "1.prems" obtain p where p: "(p, c) \<in> child_rel ls" "(c, p) \<in> (child_rel ls)\<^sup>*"
    by (meson tranclD2)
  then obtain l where l: "l \<in> set ls" "l_id l = c" "l_parentId l = Some p" by (auto simp: child_rel_def)
  have link: "map_of ?links c = Some (Some p)"
    using l assms(2) by (auto intro!: map_of_is_SomeI simp: comp_def)
  from "1.prems" obtain d where "(c, d) \<in> child_rel ls" by (meson tranclD)
  then have "c \<noteq> []" using assms(1) by (auto simp: child_rel_def)
  moreover have "walk_repeats ?links (insert c seen) (Some p)" if "c \<notin> seen"
    using "1.hyps" [OF refl \<open>c \<noteq> []\<close> that link] p by (meson rtrancl_into_trancl2)
  ultimately show ?case by (simp add: walk_repeats.simps [of ?links seen] link)
qed

lemma parents_sound:
  assumes dist: "distinct (map l_id ls)"
    and ok: "\<forall>l\<in>set ls. \<not> blank (l_id l) \<and> (\<forall>p. l_parentId l = Some p \<longrightarrow> \<not> blank p)"
    and none: "\<And>k l. k \<in> {''DANGLING_PARENT'', ''LOCATION_CYCLE''} \<Longrightarrow> l \<in> set ls \<Longrightarrow>
      \<not> reports k (parent_issues (map (\<lambda>l. json_of_location l) ls) (l_id l, location_obj l))"
  shows "(\<forall>l\<in>set ls. parent_known ls l) \<and> acyclic (child_rel ls)"
proof (intro conjI ballI)
  fix l assume l: "l \<in> set ls"
  show "parent_known ls l"
  proof (cases "l_parentId l")
    case (Some p)
    then have "p \<noteq> []" using ok l by auto
    with none [of "''DANGLING_PARENT''", OF _ l] Some show ?thesis
      by (auto simp: parent_issues_def Let_def parent_known_def)
  qed (simp add: parent_known_def)
next
  have ne: "p \<noteq> []" if "l \<in> set ls" "l_parentId l = Some p" for l p using ok that by auto
  show "acyclic (child_rel ls)"
  proof (rule acyclicI, rule allI, rule notI)
    fix x assume x: "(x, x) \<in> (child_rel ls)\<^sup>+"
    then obtain p where p: "(p, x) \<in> child_rel ls" "(x, p) \<in> (child_rel ls)\<^sup>*" by (meson tranclD2)
    then obtain l where l: "l \<in> set ls" "l_id l = x" "l_parentId l = Some p" by (auto simp: child_rel_def)
    have cycle: "(p, p) \<in> (child_rel ls)\<^sup>+" using p by (meson rtrancl_into_trancl2)
    have "walk_repeats (map (\<lambda>l. (l_id l, l_parentId l)) ls) {x} (Some p)"
      by (rule walk_repeats_cycle [OF ne dist cycle])
    with none [of "''LOCATION_CYCLE''", OF _ l(1)] l show False by (simp add: parent_issues_def Let_def)
  qed
qed

lemma last_by_id_archived:
  assumes "distinct (map l_id ls)"
  shows "(\<exists>m. last_by_id (map (\<lambda>l. json_of_location l) ls) p = Some m \<and> truthy (map_of m ''archivedAt'')) \<longleftrightarrow>
    (\<exists>m\<in>set ls. l_id m = p \<and> l_archived m)"
proof
  assume "\<exists>m. last_by_id (map (\<lambda>l. json_of_location l) ls) p = Some m \<and> truthy (map_of m ''archivedAt'')"
  then obtain m where m: "last_by_id (map (\<lambda>l. json_of_location l) ls) p = Some m" "truthy (map_of m ''archivedAt'')" by blast
  from m(1) have "(p, m) \<in> set (rev (map (\<lambda>l. (l_id l, location_obj l)) ls))"
    unfolding last_by_id_def records_by_id_locations by (rule map_of_SomeD)
  then obtain k where "k \<in> set ls" "p = l_id k" "m = location_obj k" by auto
  with m(2) show "\<exists>m\<in>set ls. l_id m = p \<and> l_archived m" by auto
next
  assume "\<exists>m\<in>set ls. l_id m = p \<and> l_archived m"
  then show "\<exists>m. last_by_id (map (\<lambda>l. json_of_location l) ls) p = Some m \<and> truthy (map_of m ''archivedAt'')"
    using last_by_id_locations [OF assms] by fastforce
qed

lemma parent_archived_reports:
  assumes "distinct (map l_id ls)" and "l \<in> set ls" and "\<forall>p. l_parentId l = Some p \<longrightarrow> p \<noteq> []"
  shows "reports ''PARENT_ARCHIVED'' (parent_issues (map (\<lambda>l. json_of_location l) ls) (l_id l, location_obj l)) \<longleftrightarrow>
    \<not> live_parent ls l"
proof -
  let ?L = "map (\<lambda>l. json_of_location l) ls"
  have "reports ''PARENT_ARCHIVED'' (parent_issues ?L (l_id l, location_obj l)) \<longleftrightarrow>
      live l \<and> (\<exists>p. l_parentId l = Some p \<and> (\<exists>m. last_by_id ?L p = Some m \<and> truthy (map_of m ''archivedAt'')))"
    using assms(3) by (cases "l_parentId l") (auto simp: parent_issues_def Let_def)
  then show ?thesis unfolding last_by_id_archived [OF assms(1)] live_parent_def by auto
qed

section \<open>Items, spaces recorded as empty, and plans\<close>

lemma item_loop_Cons:
  "\<not> blank (i_id x) \<Longrightarrow> item_loop locs ids (map (\<lambda>x. json_of_item x) (x # xs)) =
     report (i_id x \<in> set ids) ''DUPLICATE_ID'' ''Duplicate item id'' @ item_place_issues locs (item_obj x) @
     item_field_issues (item_obj x) @ item_loop locs (i_id x # ids) (map (\<lambda>x. json_of_item x) xs)"
  "blank (i_id x) \<Longrightarrow> reports ''ITEM_ID'' (item_loop locs ids (map (\<lambda>x. json_of_item x) (x # xs)))"
  by (simp_all add: Let_def)

lemma item_fields_reports:
  "\<not> reports ''ITEM_QUANTITY'' (item_field_issues (item_obj x)) \<Longrightarrow>
   is_finite (i_quantity x) \<and> js_less (Fin 0) (i_quantity x)"
  "\<not> reports ''ITEM_VERSION'' (item_field_issues (item_obj x)) \<Longrightarrow>
   is_safe_integer (i_version x) \<and> \<not> js_less (i_version x) (Fin 1)"
  by (auto simp: item_field_issues_def)

lemma item_place_reports:
  assumes "distinct (map l_id ls)"
  shows "\<not> reports ''DANGLING_LOCATION'' (item_place_issues (map (\<lambda>l. json_of_location l) ls) (item_obj x)) \<Longrightarrow>
      i_locationId x \<in> l_id ` set ls"
    and "(\<forall>l\<in>set ls. \<not> blank (l_id l)) \<Longrightarrow> i_locationId x \<in> l_id ` set ls \<Longrightarrow>
      reports ''ARCHIVED_LOCATION'' (item_place_issues (map (\<lambda>l. json_of_location l) ls) (item_obj x)) \<longleftrightarrow>
      \<not> i_archived x \<and> (\<exists>m\<in>set ls. l_id m = i_locationId x \<and> l_archived m)"
proof -
  assume "\<not> reports ''DANGLING_LOCATION'' (item_place_issues (map (\<lambda>l. json_of_location l) ls) (item_obj x))"
  then show "i_locationId x \<in> l_id ` set ls" by (auto simp: item_place_issues_def Let_def split: if_splits)
next
  assume "\<forall>l\<in>set ls. \<not> blank (l_id l)" "i_locationId x \<in> l_id ` set ls"
  then have "i_locationId x \<in> set (known_ids (map (\<lambda>l. json_of_location l) ls))" by auto
  then have "reports ''ARCHIVED_LOCATION'' (item_place_issues (map (\<lambda>l. json_of_location l) ls) (item_obj x)) \<longleftrightarrow>
      \<not> i_archived x \<and> (\<exists>m. last_by_id (map (\<lambda>l. json_of_location l) ls) (i_locationId x) = Some m \<and> truthy (map_of m ''archivedAt''))"
    by (simp add: item_place_issues_def Let_def del: known_ids_locations split: option.split)
  then show "reports ''ARCHIVED_LOCATION'' (item_place_issues (map (\<lambda>l. json_of_location l) ls) (item_obj x)) \<longleftrightarrow>
      \<not> i_archived x \<and> (\<exists>m\<in>set ls. l_id m = i_locationId x \<and> l_archived m)"
    unfolding last_by_id_archived [OF assms] .
qed

lemma item_loop_sound:
  assumes dist: "distinct (map l_id ls)"
    and "\<And>k. k \<in> {''ITEM_ID'', ''DUPLICATE_ID'', ''DANGLING_LOCATION'', ''ITEM_QUANTITY'', ''ITEM_VERSION''} \<Longrightarrow>
      \<not> reports k (item_loop (map (\<lambda>l. json_of_location l) ls) ids (map (\<lambda>x. json_of_item x) xs))"
  shows "distinct (map i_id xs) \<and> i_id ` set xs \<inter> set ids = {} \<and>
    (\<forall>x\<in>set xs. \<not> blank (i_id x) \<and> i_locationId x \<in> l_id ` set ls \<and>
       is_finite (i_quantity x) \<and> js_less (Fin 0) (i_quantity x) \<and>
       is_safe_integer (i_version x) \<and> \<not> js_less (i_version x) (Fin 1))"
  using assms(2)
proof (induction xs arbitrary: ids)
  case (Cons x xs)
  let ?L = "map (\<lambda>l. json_of_location l) ls"
  have "\<not> reports ''ITEM_ID'' (item_loop ?L ids (map (\<lambda>x. json_of_item x) (x # xs)))"
    by (rule Cons.prems) (rule insertI1)
  then have id: "\<not> blank (i_id x)" using item_loop_Cons(2) [of x ?L ids xs] by argo
  note step = item_loop_Cons(1) [OF id]
  have parts: "\<not> reports k (item_place_issues ?L (item_obj x)) \<and> \<not> reports k (item_field_issues (item_obj x)) \<and>
      \<not> reports k (item_loop ?L (i_id x # ids) (map (\<lambda>x. json_of_item x) xs))"
    if "k \<in> {''ITEM_ID'', ''DUPLICATE_ID'', ''DANGLING_LOCATION'', ''ITEM_QUANTITY'', ''ITEM_VERSION''}" for k
    using Cons.prems [OF that] unfolding step reports_simps by blast
  have dup: "i_id x \<notin> set ids" using Cons.prems [of "''DUPLICATE_ID''"] unfolding step reports_simps by blast
  have "i_locationId x \<in> l_id ` set ls"
    by (rule item_place_reports(1) [OF dist]) (use parts [of "''DANGLING_LOCATION''"] in simp)
  moreover have "is_finite (i_quantity x) \<and> js_less (Fin 0) (i_quantity x)"
    by (rule item_fields_reports) (use parts [of "''ITEM_QUANTITY''"] in simp)
  moreover have "is_safe_integer (i_version x) \<and> \<not> js_less (i_version x) (Fin 1)"
    by (rule item_fields_reports) (use parts [of "''ITEM_VERSION''"] in simp)
  moreover have "distinct (map i_id xs) \<and> i_id ` set xs \<inter> set (i_id x # ids) = {} \<and>
    (\<forall>x\<in>set xs. \<not> blank (i_id x) \<and> i_locationId x \<in> l_id ` set ls \<and>
       is_finite (i_quantity x) \<and> js_less (Fin 0) (i_quantity x) \<and>
       is_safe_integer (i_version x) \<and> \<not> js_less (i_version x) (Fin 1))"
    by (rule Cons.IH) (use parts in blast)
  ultimately show ?case using id dup by auto
qed simp

lemma item_loop_archived:
  assumes "distinct (map l_id ls)" and "\<forall>l\<in>set ls. \<not> blank (l_id l)"
    and "\<forall>x\<in>set xs. \<not> blank (i_id x) \<and> i_locationId x \<in> l_id ` set ls"
  shows "reports ''ARCHIVED_LOCATION'' (item_loop (map (\<lambda>l. json_of_location l) ls) ids (map (\<lambda>x. json_of_item x) xs)) \<longleftrightarrow>
    (\<exists>x\<in>set xs. \<not> i_archived x \<and> (\<exists>m\<in>set ls. l_id m = i_locationId x \<and> l_archived m))"
  using assms(3)
proof (induction xs arbitrary: ids)
  case (Cons x xs)
  have "\<not> reports ''ARCHIVED_LOCATION'' (item_field_issues (item_obj x))"
    by (simp add: item_field_issues_def reports_dimensions constraint_issues_def Let_def)
  with Cons item_place_reports(2) [OF assms(1,2)] show ?case
    by (subst item_loop_Cons) auto
qed simp

lemma status_known_empty [simp]: "capture_status_name c = ''known_empty'' \<longleftrightarrow> c = Known_empty"
  by (cases c) simp_all

lemma strict_eq_strings [simp]:
  "strict_eq (Some (JStr a)) (Some (JStr b)) \<longleftrightarrow> a = b"
  "strict_eq (Some (json_of_nullable JStr v)) (Some (JStr b)) \<longleftrightarrow> v = Some b"
  by (cases v; simp add: json_of_nullable_def)+

lemma known_empty_reports:
  "reports k (known_empty_issues (map (\<lambda>l. json_of_location l) ls) (map (\<lambda>x. json_of_item x) xs) (json_of_location l)) \<longleftrightarrow>
     k = ''NOT_EMPTY'' \<and> l_captureStatus l = Known_empty \<and> \<not> holds_nothing ls xs (l_id l)"
  by (auto simp: known_empty_issues_def list_ex_iff holds_nothing_def)

lemma plan_loop_sound:
  assumes "\<And>k. k \<in> {''PLAN_ID'', ''DUPLICATE_ID''} \<Longrightarrow> \<not> reports k (plan_loop locs itms ids (map (\<lambda>p. json_of_plan p) ps))"
  shows "distinct (map p_id ps) \<and> p_id ` set ps \<inter> set ids = {} \<and> (\<forall>p\<in>set ps. \<not> blank (p_id p))"
  using assms
proof (induction ps arbitrary: ids)
  case (Cons p ps)
  let ?J = "map (\<lambda>p. json_of_plan p)"
  have "\<not> reports ''PLAN_ID'' (plan_loop locs itms ids (?J (p # ps)))" by (rule Cons.prems) (rule insertI1)
  then have id: "\<not> blank (p_id p)" by (auto simp: plan_named_def)
  then have step: "plan_loop locs itms ids (?J (p # ps)) =
      report (p_id p \<in> set ids) ''DUPLICATE_ID'' ''Duplicate plan id'' @ plan_field_issues (plan_obj p) @
      plan_steps_issues locs itms (plan_obj p) @ plan_loop locs itms (p_id p # ids) (?J ps)"
    by (simp add: plan_named_def Let_def)
  have "\<not> reports k (plan_loop locs itms (p_id p # ids) (?J ps))" if "k \<in> {''PLAN_ID'', ''DUPLICATE_ID''}" for k
    using Cons.prems [OF that] unfolding step reports_simps by blast
  then have "distinct (map p_id ps) \<and> p_id ` set ps \<inter> set (p_id p # ids) = {} \<and> (\<forall>p\<in>set ps. \<not> blank (p_id p))"
    by (rule Cons.IH)
  moreover have "p_id p \<notin> set ids" using Cons.prems [of "''DUPLICATE_ID''"] unfolding step reports_simps by blast
  ultimately show ?case using id by auto
qed simp

lemma status_active [simp]: "plan_status_name c = ''active'' \<longleftrightarrow> c = Active"
  by (cases c) simp_all

lemma active_plans_typed:
  "\<forall>p\<in>set ps. \<not> blank (p_id p) \<Longrightarrow>
   length (active_plans (map (\<lambda>p. json_of_plan p) ps)) = length (filter (\<lambda>p. p_status p = Active) ps)"
  by (induction ps) (auto simp: active_plans_def plan_named_def)

end
