(* ===== verification/Snapshot_Sound.thy ===== *)
theory Snapshot_Sound
  imports Snapshot_Facts
begin

text \<open>
  A typed state that the snapshot validator accepts is well formed, and on a well-formed state
  the validator reports none of the structural issues it tolerates in old backups.
\<close>

definition structural :: "string set" where
  "structural = {''ARCHIVED_LOCATION'', ''MULTIPLE_ACTIVE_PLANS'', ''NOT_EMPTY'', ''PARENT_ARCHIVED''}"

lemma structuralE:
  assumes "k \<in> structural"
  obtains "k = ''ARCHIVED_LOCATION''" | "k = ''MULTIPLE_ACTIVE_PLANS''" | "k = ''NOT_EMPTY''" | "k = ''PARENT_ARCHIVED''"
  using assms that unfolding structural_def by (metis empty_iff insert_iff)

section \<open>Where structural issues do not come from\<close>

lemma structural_header:
  assumes "k \<in> structural"
  shows "\<not> reports k (header_issues j)"
  using assms by (rule structuralE) (simp_all add: header_issues_def workspace_issues_def Let_def)

lemma structural_receipts:
  assumes "k \<in> structural"
  shows "\<not> reports k (receipt_issues v)"
proof -
  have "\<not> reports k (receipt_loop seen rs)" for seen rs
    using assms by (elim structuralE) (induction seen rs rule: receipt_loop.induct; simp)+
  with assms show ?thesis by (elim structuralE) (simp_all add: receipt_issues_def)
qed

lemma structural_fields:
  assumes "k \<in> structural"
  shows "\<not> reports k (location_field_issues m)" "\<not> reports k (item_field_issues m)"
    "\<not> reports k (plan_field_issues m)"
  using assms
  by (auto elim!: structuralE simp: location_field_issues_def item_field_issues_def plan_field_issues_def
      reports_dimensions condition_issues_def constraint_issues_def plan_weight_issues_def Let_def)

lemma structural_location_loop: "k \<in> structural \<Longrightarrow> \<not> reports k (location_loop ids codes js)"
  by (induction ids codes js rule: location_loop.induct)
     (auto simp: Let_def structural_fields elim!: structuralE)

lemma reports_case [simp]:
  "reports k (case v of None \<Rightarrow> cs | Some x \<Rightarrow> f x) \<longleftrightarrow> (case v of None \<Rightarrow> reports k cs | Some x \<Rightarrow> reports k (f x))"
  by (simp split: option.split)

lemma structural_step_ends:
  assumes "k \<in> structural" and "c \<in> {''PLAN_SOURCE'', ''PLAN_DESTINATION''}"
  shows "\<not> reports k (step_end_issues locs b v r c m)"
  using assms by (elim structuralE) (auto simp: step_end_issues_def)

lemma structural_item_step: "k \<in> structural \<Longrightarrow> \<not> reports k (item_step_issues itms b m)"
  by (erule structuralE) (simp_all add: item_step_issues_def Let_def split: option.split)

lemma structural_location_step: "k \<in> structural \<Longrightarrow> \<not> reports k (location_step_issues itms b m)"
  by (erule structuralE) (simp_all add: location_step_issues_def Let_def split: option.split)

lemma structural_steps:
  assumes "k \<in> structural"
  shows "\<not> reports k (step_issues locs itms b m)"
proof -
  have "\<not> reports k (step_end_issues locs b v r ''PLAN_SOURCE'' x)"
    "\<not> reports k (step_end_issues locs b v r ''PLAN_DESTINATION'' x)" for v r x
    using assms by (simp_all add: structural_step_ends)
  with assms structural_item_step [OF assms] structural_location_step [OF assms] show ?thesis
    by (elim structuralE) (simp_all add: step_issues_def)
qed

lemma structural_step_loop: "k \<in> structural \<Longrightarrow> \<not> reports k (step_loop locs itms b ids js)"
  by (induction locs itms b ids js rule: step_loop.induct)
     (auto simp: Let_def structural_steps elim!: structuralE)

lemma structural_plan_loop: "k \<in> structural \<Longrightarrow> \<not> reports k (plan_loop locs itms ids js)"
  by (induction locs itms ids js rule: plan_loop.induct)
     (auto simp: Let_def structural_fields plan_steps_issues_def structural_step_loop elim!: structuralE)

lemma structural_selection: "k \<in> structural \<Longrightarrow> \<not> reports k (selection_pass locs itms j)"
  by (auto elim!: structuralE simp: selection_pass_def Let_def split: option.splits)

lemma structural_audit: "k \<in> structural \<Longrightarrow> \<not> reports k (audit_loop as ids js)"
  by (induction as ids js rule: audit_loop.induct) (auto simp: Let_def elim!: structuralE)

lemma concat_options_Some: "concat_options xs = Some y \<longleftrightarrow> (\<exists>ys. xs = map Some ys \<and> y = concat ys)"
  by (induction xs arbitrary: y rule: concat_options.induct) (auto simp: Cons_eq_map_conv)

lemma structural_patch: "k \<in> structural \<Longrightarrow> patch_issues w j = Some cs \<Longrightarrow> \<not> reports k cs"
  by (auto elim!: structuralE simp: patch_issues_def Let_def split: if_splits)

lemma structural_activity:
  assumes "k \<in> structural" and "activity_issues w m d = Some cs"
  shows "\<not> reports k cs"
proof -
  obtain ys where ys: "map (patch_issues w) (elements_of (map_of m ''patches'')) = map Some ys"
    "reports k cs \<longleftrightarrow> reports k (concat ys)"
    using assms by (auto simp: activity_issues_def concat_options_Some elim!: structuralE)
  have "\<not> reports k y" if y: "y \<in> set ys" for y
  proof -
    have "Some y \<in> set (map (patch_issues w) (elements_of (map_of m ''patches'')))" using y unfolding ys(1) by simp
    then show ?thesis using structural_patch [OF assms(1)] by fastforce
  qed
  then show ?thesis unfolding ys(2) by (auto simp: reports_def)
qed

lemma structural_activity_loop: "k \<in> structural \<Longrightarrow> activity_loop w ids js = Some cs \<Longrightarrow> \<not> reports k cs"
proof (induction w ids js arbitrary: cs rule: activity_loop.induct)
  case (2 w ids j js)
  show ?case
  proof (cases "is_record j")
    case False
    then obtain rest where "activity_loop w ids js = Some rest" "cs = an_issue ''ACTIVITY'' ''Activity must be an object'' # rest"
      using "2.prems"(2) by auto
    with "2.IH"(1) [OF False "2.prems"(1)] "2.prems"(1) show ?thesis by (auto elim!: structuralE)
  next
    case True
    define ids' where "ids' = (if satisfies nonblank_string (map_of (record_of (Some j)) ''id'')
      then string_of_opt (map_of (record_of (Some j)) ''id'') # ids else ids)"
    obtain d a rest where "activity_issues w (record_of (Some j)) d = Some a"
      "activity_loop w ids' js = Some rest" "cs = a @ rest"
      using "2.prems"(2) True by (auto simp: Let_def concat_options_Some Cons_eq_map_conv ids'_def)
    with "2.IH"(2) [OF _ refl refl refl "2.prems"(1)] True structural_activity [OF "2.prems"(1)] show ?thesis
      by (simp add: ids'_def)
  qed
qed simp

section \<open>The verdict on a typed state\<close>

abbreviation locations_json :: "wstate \<Rightarrow> json list" where
  "locations_json s \<equiv> map (\<lambda>l. json_of_location l) (ws_locations s)"

abbreviation items_json :: "wstate \<Rightarrow> json list" where
  "items_json s \<equiv> map (\<lambda>x. json_of_item x) (ws_items s)"

abbreviation plans_json :: "wstate \<Rightarrow> json list" where
  "plans_json s \<equiv> map (\<lambda>p. json_of_plan p) (ws_plans s)"

definition typed_records :: "wstate \<Rightarrow> issue list" where
  "typed_records s = record_issues (locations_json s) (items_json s) (plans_json s)"

lemma json_of_state_get:
  "jget ''locations'' (json_of_state s) = Some (json_of_list (\<lambda>l. json_of_location l) (ws_locations s))"
  "jget ''items'' (json_of_state s) = Some (json_of_list (\<lambda>x. json_of_item x) (ws_items s))"
  "jget ''plans'' (json_of_state s) = Some (json_of_list (\<lambda>p. json_of_plan p) (ws_plans s))"
  "jget ''activities'' (json_of_state s) = Some (json_of_list json_of_activity (ws_activities s))"
  "jget ''audit'' (json_of_state s) = Some (json_of_list json_of_audit (ws_audit s))"
  "jget ''workspace'' (json_of_state s) = Some (json_of_workspace (ws_workspace s))"
  by (simp_all add: json_of_state_def)

lemma typed_header: "\<not> list_ex (\<lambda>c. is_code c = ''ARRAY_REQUIRED'') (header_issues (json_of_state s))"
  by (auto simp: header_issues_def workspace_issues_def Let_def json_of_state_get json_of_list_def report_def
      require_string_def)

lemma validate_typed:
  assumes "validate_snapshot (json_of_state s) = Some cs"
  obtains as hs us where
    "activity_loop (Some (json_of_workspace (ws_workspace s))) [] (map json_of_activity (ws_activities s)) = Some as"
    "cs = hs @ typed_records s @ us @ as @ audit_loop (named_ids (map json_of_activity (ws_activities s))) [] (map json_of_audit (ws_audit s))"
    "\<And>k. k \<in> structural \<Longrightarrow> \<not> reports k hs" "\<And>k. k \<in> structural \<Longrightarrow> \<not> reports k us"
proof -
  note typed_header [of s]
  moreover have "is_record (json_of_state s)" by (simp add: json_of_state_def)
  ultimately have "snapshot_issues (json_of_state s) = Some cs"
    using assms by (simp add: validate_snapshot_def)
  then show thesis
    using that [of _ "header_issues (json_of_state s) @ receipt_issues (jget ''commandReceipts'' (json_of_state s))"]
    by (auto simp: snapshot_issues_def Let_def json_of_state_get concat_options_Some Cons_eq_map_conv typed_records_def
        structural_header structural_receipts structural_selection)
qed

lemma typed_records_reports:
  "reports k (typed_records s) \<longleftrightarrow>
     reports k (location_loop [] [] (locations_json s)) \<or>
     (\<exists>l\<in>set (ws_locations s). reports k (parent_issues (locations_json s) (l_id l, location_obj l))) \<or>
     reports k (item_loop (locations_json s) [] (items_json s)) \<or>
     k = ''NOT_EMPTY'' \<and> \<not> empty_ok (ws_locations s) (ws_items s) \<or>
     reports k (plan_loop (locations_json s) (items_json s) [] (plans_json s)) \<or>
     k = ''MULTIPLE_ACTIVE_PLANS'' \<and> 1 < length (active_plans (plans_json s))"
proof -
  have "reports k (concat (map (known_empty_issues (locations_json s) (items_json s)) (filter is_record (locations_json s)))) \<longleftrightarrow>
      k = ''NOT_EMPTY'' \<and> \<not> empty_ok (ws_locations s) (ws_items s)"
    by (auto simp: known_empty_reports empty_ok_def)
  then show ?thesis by (auto simp: typed_records_def record_issues_def)
qed

text \<open>The codes whose absence makes a state well formed.\<close>

definition sound_codes :: "string set" where
  "sound_codes =
     {''LOCATION_ID'', ''DUPLICATE_ID'', ''DUPLICATE_CODE'', ''LOCATION_PARENT'', ''LOCATION_CODE'',
      ''DANGLING_PARENT'', ''LOCATION_CYCLE'', ''ITEM_ID'', ''DANGLING_LOCATION'', ''ITEM_QUANTITY'',
      ''ITEM_VERSION'', ''PLAN_ID''}"

lemma records_sound:
  assumes quiet: "\<And>k. k \<in> sound_codes \<union> structural \<Longrightarrow> \<not> reports k (typed_records s)"
    and doubles: "\<forall>x\<in>set (ws_items s). num_ok (i_quantity x)"
  shows "wf_state s"
proof -
  let ?ls = "ws_locations s" and ?xs = "ws_items s" and ?ps = "ws_plans s"
  have parts: "\<not> reports k (location_loop [] [] (locations_json s))"
    "\<And>l. l \<in> set ?ls \<Longrightarrow> \<not> reports k (parent_issues (locations_json s) (l_id l, location_obj l))"
    "\<not> reports k (item_loop (locations_json s) [] (items_json s))"
    "\<not> reports k (plan_loop (locations_json s) (items_json s) [] (plans_json s))"
    if "k \<in> sound_codes \<union> structural" for k
    using quiet [OF that] unfolding typed_records_reports by blast+
  have L: "distinct (map l_id ?ls) \<and> l_id ` set ?ls \<inter> set [] = {} \<and>
    distinct (map norm_code (filter live ?ls)) \<and> norm_code ` set (filter live ?ls) \<inter> set [] = {} \<and>
    (\<forall>l\<in>set ?ls. \<not> blank (l_id l) \<and> (\<forall>p. l_parentId l = Some p \<longrightarrow> \<not> blank p))"
    by (rule location_loop_sound) (rule parts(1), auto simp: sound_codes_def)
  then have dist: "distinct (map l_id ?ls)" and
    named: "\<forall>l\<in>set ?ls. \<not> blank (l_id l) \<and> (\<forall>p. l_parentId l = Some p \<longrightarrow> \<not> blank p)" by blast+
  have P: "(\<forall>l\<in>set ?ls. parent_known ?ls l) \<and> acyclic (child_rel ?ls)"
    by (rule parents_sound [OF dist named]) (rule parts(2), auto simp: sound_codes_def)
  have "live_parent ?ls l" if "l \<in> set ?ls" for l
    using parts(2) [of "''PARENT_ARCHIVED''", OF _ that] parent_archived_reports [OF dist that] named that
    by (fastforce simp: structural_def)
  then have hier: "hierarchy_ok ?ls" using L P named by (simp add: hierarchy_ok_def)
  have I: "distinct (map i_id ?xs) \<and> i_id ` set ?xs \<inter> set [] = {} \<and>
    (\<forall>x\<in>set ?xs. \<not> blank (i_id x) \<and> i_locationId x \<in> l_id ` set ?ls \<and>
       is_finite (i_quantity x) \<and> js_less (Fin 0) (i_quantity x) \<and>
       is_safe_integer (i_version x) \<and> \<not> js_less (i_version x) (Fin 1))"
    by (rule item_loop_sound [OF dist]) (rule parts(3), auto simp: sound_codes_def)
  have "\<not> (\<exists>x\<in>set ?xs. \<not> i_archived x \<and> (\<exists>m\<in>set ?ls. l_id m = i_locationId x \<and> l_archived m))"
    using parts(3) [of "''ARCHIVED_LOCATION''"] I named
    by (subst item_loop_archived [OF dist, symmetric, where ids = "[]"]) (simp_all add: structural_def)
  then have items: "items_ok ?ls ?xs" using I doubles by (auto simp: items_ok_def item_ok_def place_ok_def)
  have empty: "empty_ok ?ls ?xs" using quiet [of "''NOT_EMPTY''"] by (simp add: typed_records_reports structural_def)
  have Q: "distinct (map p_id ?ps) \<and> p_id ` set ?ps \<inter> set [] = {} \<and> (\<forall>p\<in>set ?ps. \<not> blank (p_id p))"
    by (rule plan_loop_sound) (rule parts(4), auto simp: sound_codes_def)
  have "length (active_plans (plans_json s)) \<le> 1"
    using quiet [of "''MULTIPLE_ACTIVE_PLANS''"] by (simp add: typed_records_reports structural_def)
  then have "plans_ok ?ps" using Q by (simp add: plans_ok_def active_plans_typed)
  with hier items empty show ?thesis by (simp add: wf_state_def)
qed

text \<open>The other direction for the structural codes.\<close>

lemma item_loop_archivedD:
  assumes "distinct (map l_id ls)" and "\<forall>l\<in>set ls. \<not> blank (l_id l)"
    and "\<forall>x\<in>set xs. place_ok ls x"
  shows "\<not> reports ''ARCHIVED_LOCATION'' (item_loop (map (\<lambda>l. json_of_location l) ls) ids (map (\<lambda>x. json_of_item x) xs))"
  using assms(3)
proof (induction xs arbitrary: ids)
  case (Cons x xs)
  show ?case
  proof (cases "blank (i_id x)")
    case True
    with Cons show ?thesis by simp
  next
    case False
    have "\<not> reports ''ARCHIVED_LOCATION'' (item_field_issues (item_obj x))"
      by (rule structural_fields) (simp add: structural_def)
    moreover have "\<not> reports ''ARCHIVED_LOCATION'' (item_place_issues (map (\<lambda>l. json_of_location l) ls) (item_obj x))"
      using item_place_reports(2) [OF assms(1,2)] Cons.prems by (auto simp: place_ok_def)
    ultimately show ?thesis unfolding item_loop_Cons(1) [OF False] using Cons by simp
  qed
qed simp

lemma active_plans_le: "length (active_plans (map (\<lambda>p. json_of_plan p) ps)) \<le> length (filter (\<lambda>p. p_status p = Active) ps)"
  by (induction ps) (auto simp: active_plans_def plan_named_def)

lemma structural_parent_issues: "k \<in> structural \<Longrightarrow> reports k (parent_issues locs r) \<Longrightarrow> k = ''PARENT_ARCHIVED''"
  by (auto simp: parent_issues_def Let_def structural_def split: prod.splits)

lemma structural_item_loop: "k \<in> structural \<Longrightarrow> reports k (item_loop locs ids js) \<Longrightarrow> k = ''ARCHIVED_LOCATION''"
proof (induction locs ids js rule: item_loop.induct)
  case (2 locs ids j js)
  have place: "\<not> reports k (item_place_issues locs m)" if "k \<noteq> ''ARCHIVED_LOCATION''" for m
    using 2(3) that by (auto simp: item_place_issues_def Let_def structural_def)
  have "k \<noteq> ''ITEM_ID''" "k \<noteq> ''DUPLICATE_ID''" using 2(3) by (auto simp: structural_def)
  with 2 place structural_fields(2) [OF 2(3)] show ?case by (auto simp: Let_def split: if_splits)
qed simp

lemma records_complete:
  assumes wf: "wf_state s" and k: "k \<in> structural"
  shows "\<not> reports k (typed_records s)"
proof -
  let ?ls = "ws_locations s"
  have hier: "hierarchy_ok ?ls" and items: "items_ok ?ls (ws_items s)" and empty: "empty_ok ?ls (ws_items s)"
    and plans: "plans_ok (ws_plans s)" using wf by (simp_all add: wf_state_def)
  have dist: "distinct (map l_id ?ls)" and named: "\<forall>l\<in>set ?ls. \<not> blank (l_id l)"
    using hier by (simp_all add: hierarchy_ok_def)
  have parent: "\<forall>p. l_parentId l = Some p \<longrightarrow> p \<noteq> []" if l: "l \<in> set ?ls" for l
  proof (intro allI impI notI)
    fix p assume "l_parentId l = Some p" "p = []"
    then have "[] \<in> l_id ` set ?ls" using hier l by (fastforce simp: hierarchy_ok_def parent_known_def)
    then show False using named by auto
  qed
  have "\<not> reports ''PARENT_ARCHIVED'' (parent_issues (locations_json s) (l_id l, location_obj l))" if l: "l \<in> set ?ls" for l
    using parent_archived_reports [OF dist l parent [OF l]] hier l by (simp add: hierarchy_ok_def)
  then have "\<not> reports k (parent_issues (locations_json s) (l_id l, location_obj l))" if "l \<in> set ?ls" for l
    using structural_parent_issues [OF k] that by blast
  moreover have "\<not> reports ''ARCHIVED_LOCATION'' (item_loop (locations_json s) [] (items_json s))"
    by (rule item_loop_archivedD [OF dist named]) (use items in \<open>simp add: items_ok_def\<close>)
  then have "\<not> reports k (item_loop (locations_json s) [] (items_json s))"
    using structural_item_loop [OF k] by blast
  moreover have "\<not> 1 < length (active_plans (plans_json s))"
    using active_plans_le [of "ws_plans s"] plans by (simp add: plans_ok_def)
  ultimately show ?thesis
    using empty structural_location_loop [OF k] structural_plan_loop [OF k] unfolding typed_records_reports by blast
qed

section \<open>Verdicts\<close>

lemma validate_reports:
  assumes "validate_snapshot (json_of_state s) = Some cs"
  shows "reports k (typed_records s) \<Longrightarrow> reports k cs"
    and "k \<in> structural \<Longrightarrow> reports k cs \<Longrightarrow> reports k (typed_records s)"
  using validate_typed [OF assms] structural_activity_loop [of k] structural_audit [of k]
  by (metis reports_simps(3))+

lemma validate_sound:
  assumes "validate_snapshot (json_of_state s) = Some cs"
    and "\<And>k. k \<in> sound_codes \<union> structural \<Longrightarrow> \<not> reports k cs"
    and "\<forall>x\<in>set (ws_items s). num_ok (i_quantity x)"
  shows "wf_state s"
  using records_sound assms(3) validate_reports(1) [OF assms(1)] assms(2) by blast

lemma validate_complete:
  assumes "validate_snapshot (json_of_state s) = Some cs" and "wf_state s" and "k \<in> structural"
  shows "\<not> reports k cs"
  using records_complete [OF assms(2,3)] validate_reports(2) [OF assms(1,3)] by blast

end
