(* ===== verification/History_Facts.thy ===== *)
theory History_Facts
  imports Snapshot_Sound Preserve_Item
begin

text \<open>
  Undo and reapply (\<open>applyHistoryAction\<close> of \<open>src/domain/commands.ts\<close>): what an accepted history
  command leaves alone, and why it keeps the workspace well formed: its outcome passes the
  snapshot validator, except for structural issues the earlier state had as well.
\<close>

section \<open>What the verdict says about the history\<close>

lemma first_new_issue_None:
  "first_new_issue base cs = None \<Longrightarrow> c \<in> set cs \<Longrightarrow> is_error c \<Longrightarrow>
   is_legacy_compatible_issue c \<and> issue_key c \<in> set base"
proof (induction base cs rule: first_new_issue.induct)
  case (2 base d cs)
  then show ?case by (auto split: if_splits dest: set_mp [OF set_remove1_subset])
qed simp

lemma legacy_codes:
  "is_legacy_compatible_issue c \<Longrightarrow> is_code c \<in> insert ''PLAN_STATUS'' (set legacy_invariant_codes)"
  by (auto simp: is_legacy_compatible_issue_def legacy_invariant_codes_def split: if_splits)

lemma legacy_no_sound: "is_legacy_compatible_issue c \<Longrightarrow> is_code c \<notin> sound_codes \<union> {''PATCH_PATH''}"
  using legacy_codes [of c] by (auto simp: sound_codes_def legacy_invariant_codes_def)

text \<open>The key of an issue determines its code when both codes are tolerated ones.\<close>

lemma key_code:
  assumes "issue_key c = issue_key d" and "is_legacy_compatible_issue c" and "is_legacy_compatible_issue d"
  shows "is_code c = is_code d"
  using assms legacy_codes [OF assms(2)] legacy_codes [OF assms(3)]
  by (auto simp: issue_key_def legacy_invariant_codes_def)

lemma accepted_verdict:
  assumes "first_new_issue (compatible_baseline earlier) later = None"
  shows "k \<in> sound_codes \<union> {''PATCH_PATH''} \<Longrightarrow> \<not> reports k later"
    and "reports k later \<Longrightarrow> reports k earlier"
proof -
  show "\<not> reports k later" if "k \<in> sound_codes \<union> {''PATCH_PATH''}"
    using first_new_issue_None [OF assms] legacy_no_sound that by (auto simp: reports_def)
  assume "reports k later"
  then obtain c where c: "c \<in> set later" "is_error c" "is_code c = k" by (auto simp: reports_def)
  from first_new_issue_None [OF assms c(1,2)] have "is_legacy_compatible_issue c" "issue_key c \<in> set (compatible_baseline earlier)"
    by simp_all
  then obtain d where "d \<in> set earlier" "is_error d" "is_legacy_compatible_issue d" "issue_key d = issue_key c"
    by (auto simp: compatible_baseline_def)
  with key_code [of d c] c \<open>is_legacy_compatible_issue c\<close> show "reports k earlier" by (auto simp: reports_def)
qed

lemma patch_issues_path:
  assumes "patch_issues w (json_of_patch p) = Some cs" and "\<not> reports ''PATCH_PATH'' cs"
  shows "fp_path p \<in> set (patch_paths (target_name (fp_target p)))"
  using assms
  by (cases "fp_target p"; cases "fp_after p"; cases "fp_before p")
     (auto simp: patch_issues_def json_of_patch_def Let_def inherited_names_def split: if_splits)

lemma activity_issues_paths:
  assumes "activity_issues w m d = Some cs" and "\<not> reports ''PATCH_PATH'' cs"
    and "map_of m ''patches'' = Some (json_of_list json_of_patch ps)" and "p \<in> set ps"
  shows "fp_path p \<in> set (patch_paths (target_name (fp_target p)))"
proof -
  obtain ys where ys: "map (patch_issues w) (map json_of_patch ps) = map Some ys" "\<not> reports ''PATCH_PATH'' (concat ys)"
    using assms(1-3) by (auto simp: activity_issues_def concat_options_Some)
  have "patch_issues w (json_of_patch p) \<in> set (map Some ys)" using assms(4) unfolding ys(1) [symmetric] by simp
  then obtain y where y: "y \<in> set ys" "patch_issues w (json_of_patch p) = Some y" by auto
  have "\<not> reports ''PATCH_PATH'' y" using ys(2) y(1) by (auto simp: reports_def)
  then show ?thesis by (rule patch_issues_path [OF y(2)])
qed

lemma activity_loop_paths:
  assumes "activity_loop w ids (map json_of_activity as) = Some cs" and "\<not> reports ''PATCH_PATH'' cs"
    and "a \<in> set as" and "p \<in> set (a_patches a)"
  shows "fp_path p \<in> set (patch_paths (target_name (fp_target p)))"
  using assms
proof (induction as arbitrary: ids cs)
  case (Cons b as)
  obtain m where m: "json_of_activity b = JObj m" "map_of m ''patches'' = Some (json_of_list json_of_patch (a_patches b))"
    by (simp add: json_of_activity_def)
  obtain d ids' x rest where parts: "activity_issues w m d = Some x"
    "activity_loop w ids' (map json_of_activity as) = Some rest" "cs = x @ rest"
    using Cons.prems(1) by (auto simp: m(1) Let_def concat_options_Some Cons_eq_map_conv)
  show ?case
  proof (cases "a = b")
    case True
    then show ?thesis using activity_issues_paths [OF parts(1) _ m(2)] Cons.prems(2,4) parts(3) by simp
  next
    case False
    then show ?thesis using Cons.IH [OF parts(2)] Cons.prems parts(3) by simp
  qed
qed simp

definition safe_paths :: "activity list \<Rightarrow> bool" where
  "safe_paths as \<longleftrightarrow> (\<forall>a\<in>set as. \<forall>p\<in>set (a_patches a). fp_target p = Target_workspace \<longrightarrow> fp_path p = ''name'')"

lemma validated_paths:
  assumes "validate_snapshot (json_of_state s) = Some cs" and "\<not> reports ''PATCH_PATH'' cs"
  shows "safe_paths (ws_activities s)"
proof -
  from validate_typed [OF assms(1)] assms(2) obtain as where
    "activity_loop (Some (json_of_workspace (ws_workspace s))) [] (map json_of_activity (ws_activities s)) = Some as"
    "\<not> reports ''PATCH_PATH'' as"
    by (metis reports_simps(3))
  from activity_loop_paths [OF this] show ?thesis
    by (fastforce simp: safe_paths_def patch_paths_def)
qed

section \<open>Replaying an activity\<close>

lemma directed_patches_elem:
  assumes "q \<in> set (directed_patches d ps)"
  obtains p where "p \<in> set ps" "fp_target q = fp_target p" "fp_path q = fp_path p" "fp_after q \<in> {fp_after p, fp_before p}"
  using assms by (cases d) (auto simp: directed_patches_def reverse_patches_def meaningful_patches_def reverse_patch_def Let_def)

lemma workspace_of_fields:
  assumes "workspace_of (JObj m) = Some w"
  shows "map_of m ''id'' = Some (JStr (w_id w))" and "map_of m ''revision'' = Some (JNum (w_revision w))"
  using assms
  by (auto simp: workspace_of_def bind_eq_Some_conv field_of_eq_Some str_of_iff num_of_iff split: if_splits)

lemma patch_workspace_name:
  assumes "patch_workspace p w = Inr v" and "fp_path p = ''name''"
  shows "w_id v = w_id w \<and> w_revision v = w_revision w"
proof -
  obtain m where m: "workspace_of (JObj m) = Some v" "\<And>k. k \<noteq> ''name'' \<Longrightarrow> map_of m k = map_of (workspace_obj w) k"
    using assms by (cases "fp_after p")
      (auto simp: patch_workspace_def write_path_top and_then_eq_Inr update_conv' delete_conv' split: if_splits)
  from workspace_of_fields [OF m(1)] m(2) [of "''id''"] m(2) [of "''revision''"] show ?thesis
    by (simp add: workspace_obj_def)
qed

definition same_workspace :: "wstate \<Rightarrow> wstate \<Rightarrow> bool" where
  "same_workspace s t \<longleftrightarrow>
     w_id (ws_workspace t) = w_id (ws_workspace s) \<and> w_revision (ws_workspace t) = w_revision (ws_workspace s)"

lemma apply_patches_same_workspace:
  assumes "apply_patches s ps = Inr t" and "\<forall>p\<in>set ps. fp_target p = Target_workspace \<longrightarrow> fp_path p = ''name''"
  shows "same_workspace s t"
  using assms
proof (induction ps arbitrary: s)
  case (Cons p ps)
  obtain u where u: "apply_field_patch s p = Inr u" "apply_patches u ps = Inr t"
    using Cons.prems(1) by (auto simp: apply_patches_Cons and_then_eq_Inr)
  have "same_workspace s u"
    using u(1) Cons.prems(2) patch_workspace_name
    by (cases "fp_target p") (auto simp: same_workspace_def and_then_eq_Inr)
  with Cons.IH [OF u(2)] Cons.prems(2) show ?case by (simp add: same_workspace_def)
qed (simp add: same_workspace_def)

section \<open>Quantities stay doubles\<close>

definition double_quantities :: "item list \<Rightarrow> bool" where
  "double_quantities xs \<longleftrightarrow> (\<forall>x\<in>set xs. num_ok (i_quantity x))"

lemma item_of_quantity: "item_of j = Some y \<Longrightarrow> doubles j \<Longrightarrow> num_ok (i_quantity y)"
  using item_of_fields(4) doubles_property by (cases j) (fastforce simp: item_of_def)+

lemma write_path_quantity:
  assumes "write_path (item_obj x) path v = Inr j" and "item_of j = Some y"
    and "num_ok (i_quantity x)" and "\<And>w. v = Some w \<Longrightarrow> doubles w"
  shows "num_ok (i_quantity y)"
proof -
  obtain ks m where ks: "path_keys path = Some ks" "write_keys ks v (item_obj x) = Some m" "j = JObj m"
    using assms(1) by (auto simp: write_path_def split: option.splits)
  have q: "map_of m ''quantity'' = Some (JNum (i_quantity y))" using assms(2) ks(3) item_of_fields(4) by simp
  show ?thesis
  proof (cases ks)
    case Nil
    then show ?thesis using ks(2) by simp
  next
    case (Cons k ks')
    show ?thesis
    proof (cases "k = ''quantity''")
      case False
      then have "map_of m ''quantity'' = map_of (item_obj x) ''quantity''"
        using write_keys_other [OF ks(2) [unfolded Cons]] by simp
      then show ?thesis using q assms(3) by simp
    next
      case True
      show ?thesis
      proof (cases ks')
        case Nil
        then have m: "m = (case v of None \<Rightarrow> AList.delete ''quantity'' (item_obj x) | Some w \<Rightarrow> AList.update ''quantity'' w (item_obj x))"
          using ks(2) Cons True by simp
        then obtain w where w: "v = Some w" using q by (cases v) (simp_all add: delete_conv')
        then have "w = JNum (i_quantity y)" using m q by (simp add: update_conv')
        then show ?thesis using assms(4) [OF w] by simp
      next
        case (Cons k' ks'')
        then obtain n where "m = AList.update ''quantity'' (JObj n) (item_obj x)"
          using write_keys_nested ks(2) \<open>ks = k # ks'\<close> True by metis
        then show ?thesis using q by (simp add: update_conv')
      qed
    qed
  qed
qed

lemma set_map_first_cases: "y \<in> set (map_first p f xs) \<Longrightarrow> y \<in> set xs \<or> (\<exists>x\<in>set xs. y = f x)"
  by (induction xs) (auto split: if_splits)

lemma patch_items_quantities:
  assumes "patch_collection item_obj item_of i_id p xs = Inr ys" and "double_quantities xs"
    and dbl: "\<And>w. fp_after p = Some w \<Longrightarrow> doubles w"
  shows "double_quantities ys"
proof (cases "fp_path p = []")
  case True
  show ?thesis
  proof (cases "fp_after p")
    case None
    then show ?thesis using assms(1,2) True set_remove_first_subset
      by (fastforce simp: patch_collection_def patch_whole_def double_quantities_def)
  next
    case (Some j)
    then obtain y where y: "item_of j = Some y" "ys = xs @ [y] \<or> ys = map_first (\<lambda>x. i_id x = fp_id p) (\<lambda>_. y) xs"
      using assms(1) True by (auto simp: patch_collection_def patch_whole_def and_then_eq_Inr)
    have "num_ok (i_quantity y)" by (rule item_of_quantity [OF y(1) dbl [OF Some]])
    with y(2) assms(2) show ?thesis by (auto simp: double_quantities_def dest!: set_map_first_cases)
  qed
next
  case False
  then obtain x j y where x: "x \<in> set xs" "write_path (item_obj x) (fp_path p) (fp_after p) = Inr j" "item_of j = Some y"
    "ys = map_first (\<lambda>x. i_id x = fp_id p) (\<lambda>_. y) xs"
    using assms(1) find_Some_iff [of "\<lambda>x. i_id x = fp_id p" xs]
    by (auto simp: patch_collection_def patch_property_def and_then_eq_Inr split: option.splits) (metis nth_mem)
  have "num_ok (i_quantity y)"
    by (rule write_path_quantity [OF x(2,3)]) (use assms(2) x(1) dbl in \<open>auto simp: double_quantities_def\<close>)
  with x(4) assms(2) show ?thesis by (auto simp: double_quantities_def dest!: set_map_first_cases)
qed

lemma apply_patches_quantities:
  assumes "apply_patches s ps = Inr t" and "double_quantities (ws_items s)"
    and "\<forall>p\<in>set ps. \<forall>w. fp_after p = Some w \<longrightarrow> doubles w"
  shows "double_quantities (ws_items t)"
  using assms
proof (induction ps arbitrary: s)
  case (Cons p ps)
  obtain u where u: "apply_field_patch s p = Inr u" "apply_patches u ps = Inr t"
    using Cons.prems(1) by (auto simp: apply_patches_Cons and_then_eq_Inr)
  have "double_quantities (ws_items u)"
    using u(1) Cons.prems(2,3) patch_items_quantities [of p "ws_items s"]
    by (cases "fp_target p") (auto simp: and_then_eq_Inr)
  with Cons.IH [OF u(2)] Cons.prems(3) show ?case by simp
qed simp

section \<open>Touching the records of a replayed activity\<close>

lemma touch_item_frame:
  assumes "touch_item ts s i = Inr t"
  shows "ws_workspace t = ws_workspace s \<and> ws_activities t = ws_activities s \<and> ws_audit t = ws_audit s \<and>
    ws_commandReceipts t = ws_commandReceipts s \<and> ws_schemaVersion t = ws_schemaVersion s \<and>
    (double_quantities (ws_items s) \<longrightarrow> double_quantities (ws_items t))"
  using assms
  by (auto simp: touch_item_def and_then_eq_Inr double_quantities_def dest!: set_map_first_cases split: option.splits)

lemma touch_frame:
  assumes "touch_history_records s ps ts = Inr t"
  shows "ws_workspace t = ws_workspace s \<and> ws_activities t = ws_activities s \<and> ws_audit t = ws_audit s \<and>
    ws_commandReceipts t = ws_commandReceipts s \<and> ws_schemaVersion t = ws_schemaVersion s \<and>
    (double_quantities (ws_items s) \<longrightarrow> double_quantities (ws_items t))"
proof -
  obtain u where u: "fold_result (touch_item ts) s (touched_ids Target_item ps) = Inr u"
    "t = foldl (touch_location ts) u (touched_ids Target_location ps)"
    using assms by (auto simp: touch_history_records_def and_then_eq_Inr)
  have "ws_workspace u = ws_workspace s \<and> ws_activities u = ws_activities s \<and> ws_audit u = ws_audit s \<and>
    ws_commandReceipts u = ws_commandReceipts s \<and> ws_schemaVersion u = ws_schemaVersion s \<and>
    (double_quantities (ws_items s) \<longrightarrow> double_quantities (ws_items u))"
    by (rule fold_result_invariant [OF u(1)]) (auto dest!: touch_item_frame)
  moreover have "ws_workspace (foldl (touch_location ts) v is) = ws_workspace v \<and> ws_activities (foldl (touch_location ts) v is) = ws_activities v \<and>
    ws_audit (foldl (touch_location ts) v is) = ws_audit v \<and> ws_commandReceipts (foldl (touch_location ts) v is) = ws_commandReceipts v \<and>
    ws_schemaVersion (foldl (touch_location ts) v is) = ws_schemaVersion v \<and> ws_items (foldl (touch_location ts) v is) = ws_items v" for v "is"
    by (induction "is" arbitrary: v) (simp_all add: touch_location_def)
  ultimately show ?thesis using u(2) by simp
qed

section \<open>An accepted history command\<close>

definition history_of :: "wstate \<Rightarrow> (string \<times> string \<times> field_patch list) list" where
  "history_of s = map (\<lambda>a. (a_id a, a_commandId a, a_patches a)) (ws_activities s)"

definition history_step :: "wstate \<Rightarrow> wstate \<Rightarrow> bool" where
  "history_step s t \<longleftrightarrow>
     history_of t = history_of s \<and> ws_audit t = ws_audit s \<and> ws_commandReceipts t = ws_commandReceipts s \<and>
     ws_schemaVersion t = ws_schemaVersion s"

lemma history_of_mark [simp]: "history_of (mark_activity d ts i s) = history_of s"
  by (simp add: history_of_def mark_activity_def, rule map_map_first_same, simp split: direction.split)

definition double_patch :: "field_patch \<Rightarrow> bool" where
  "double_patch p \<longleftrightarrow>
     (case fp_after p of None \<Rightarrow> True | Some v \<Rightarrow> doubles v) \<and> (case fp_before p of None \<Rightarrow> True | Some v \<Rightarrow> doubles v)"

lemma replay_step:
  assumes "replay_activity d c ts s a = Inr t"
  shows "history_step s t"
    and "\<forall>p\<in>set (a_patches a). fp_target p = Target_workspace \<longrightarrow> fp_path p = ''name'' \<Longrightarrow> same_workspace s t"
    and "\<forall>p\<in>set (a_patches a). double_patch p \<Longrightarrow>
      double_quantities (ws_items s) \<Longrightarrow> double_quantities (ws_items t)"
proof -
  obtain u v where u: "apply_patches s (directed_patches d (a_patches a)) = Inr u"
    "touch_history_records u (meaningful_patches (a_patches a)) ts = Inr v" "t = mark_activity d ts (a_id a) v"
    using assms by (auto simp: replay_activity_def and_then_eq_Inr split: if_splits)
  note f = touch_frame [OF u(2)] apply_patches_split [OF u(1)]
  have "history_of v = history_of s" using f by (simp add: history_of_def)
  then show "history_step s t" using f by (simp add: u(3) history_step_def) (simp add: mark_activity_def)
  show "same_workspace s t" if "\<forall>p\<in>set (a_patches a). fp_target p = Target_workspace \<longrightarrow> fp_path p = ''name''"
  proof -
    have "same_workspace s u"
      by (rule apply_patches_same_workspace [OF u(1)]) (use that in \<open>auto elim!: directed_patches_elem\<close>)
    then show ?thesis using f by (simp add: u(3) same_workspace_def mark_activity_def)
  qed
  show "double_quantities (ws_items t)"
    if "\<forall>p\<in>set (a_patches a). double_patch p"
      "double_quantities (ws_items s)"
  proof -
    have "double_quantities (ws_items u)"
    proof (rule apply_patches_quantities [OF u(1) that(2)], intro ballI allI impI)
      fix q w assume q: "q \<in> set (directed_patches d (a_patches a))" "fp_after q = Some w"
      then obtain p where "p \<in> set (a_patches a)" "Some w \<in> {fp_after p, fp_before p}" by (metis directed_patches_elem)
      with that(1) show "doubles w" by (fastforce simp: double_patch_def split: option.splits)
    qed
    then show ?thesis using f by (simp add: u(3) mark_activity_def)
  qed
qed

text \<open>The values recorded in the history are JSON numbers a client can send.\<close>

definition double_history :: "activity list \<Rightarrow> bool" where
  "double_history as \<longleftrightarrow>
     (\<forall>a\<in>set as. \<forall>p\<in>set (a_patches a). double_patch p)"

lemma history_patches: "history_of t = history_of s \<Longrightarrow> map a_patches (ws_activities t) = map a_patches (ws_activities s)"
  by (drule arg_cong [where f = "map (\<lambda>(i, c, ps). ps)"]) (simp add: history_of_def comp_def)

lemma safe_paths_history:
  assumes "history_of t = history_of s"
  shows "safe_paths (ws_activities t) = safe_paths (ws_activities s)"
proof -
  have "safe_paths as \<longleftrightarrow> (\<forall>ps\<in>set (map a_patches as). \<forall>p\<in>set ps. fp_target p = Target_workspace \<longrightarrow> fp_path p = ''name'')" for as
    by (simp add: safe_paths_def)
  then show ?thesis by (simp only: history_patches [OF assms])
qed

lemma replay_fold:
  assumes "fold_result (replay_activity d c ts) s as = Inr t"
  shows "history_step s t" and "safe_paths as \<Longrightarrow> same_workspace s t"
    and "double_history as \<Longrightarrow> double_quantities (ws_items s) \<Longrightarrow> double_quantities (ws_items t)"
  using assms
proof (induction as arbitrary: s)
  case (Cons a as)
  { case 1
    then obtain u where "replay_activity d c ts s a = Inr u" "fold_result (replay_activity d c ts) u as = Inr t"
      by (auto simp: and_then_eq_Inr)
    from replay_step(1) [OF this(1)] Cons.IH(1) [OF this(2)] show ?case by (simp add: history_step_def) }
  { case 2
    then obtain u where "replay_activity d c ts s a = Inr u" "fold_result (replay_activity d c ts) u as = Inr t"
      by (auto simp: and_then_eq_Inr)
    from replay_step(2) [OF this(1)] Cons.IH(2) [OF _ this(2)] 2 show ?case by (simp add: same_workspace_def safe_paths_def) }
  { case 3
    then obtain u where "replay_activity d c ts s a = Inr u" "fold_result (replay_activity d c ts) u as = Inr t"
      by (auto simp: and_then_eq_Inr)
    from replay_step(3) [OF this(1)] Cons.IH(3) [OF _ _ this(2)] 3 show ?case by (simp add: double_history_def) }
qed (simp_all add: history_step_def same_workspace_def)

definition history_audit :: "envelope \<Rightarrow> audit_type \<Rightarrow> activity list \<Rightarrow> audit_event" where
  "history_audit e type as =
     \<lparr>u_actorId = e_actorId e, u_id = ''audit_'' @ e_id e,
      u_label = (case audit_direction type of Undoing \<Rightarrow> ''Undid'' | Reapplying \<Rightarrow> ''Reapplied'') @ '' '' @
        digits_of (length as) @ '' change'' @ plural_s (length as),
      u_targetActivityIds = map a_id as, u_timestamp = e_timestamp e, u_type = type\<rparr>"

lemma apply_history_action_Inr:
  "apply_history_action s e type as = Inr r \<longleftrightarrow>
     (\<exists>cs t ds. state_issues s = Inr cs \<and>
        fold_result (replay_activity (audit_direction type) (e_id e) (e_timestamp e)) s as = Inr t \<and>
        state_issues t = Inr ds \<and> first_new_issue (compatible_baseline cs) ds = None \<and>
        r = \<lparr>cr_activity = None, cr_audit = Some (history_audit e type as),
             cr_state = bump_revision (e_timestamp e) (t\<lparr>ws_audit := ws_audit t @ [history_audit e type as]\<rparr>)\<rparr>)"
  unfolding apply_history_action_def Let_def and_then_eq_Inr if_Inl_eq_Inr history_audit_def [symmetric]
  by (simp add: eq_commute [of r])

lemma history_action_accepted:
  assumes "apply_history_action s e type as = Inr r" and "set as \<subseteq> set (ws_activities s)"
  obtains t u where "cr_state r = bump_revision (e_timestamp e) (t\<lparr>ws_audit := ws_audit s @ [u]\<rparr>)"
    and "cr_activity r = None" and "cr_audit r = Some u" and "u_id u = ''audit_'' @ e_id e"
    and "u_targetActivityIds u = map a_id as" and "history_step s t" and "same_workspace s t"
    and "double_history as \<Longrightarrow> wf_state s \<Longrightarrow> wf_state t"
proof -
  let ?d = "audit_direction type" and ?ts = "e_timestamp e"
  obtain cs t ds where v: "state_issues s = Inr cs" "fold_result (replay_activity ?d (e_id e) ?ts) s as = Inr t"
    "state_issues t = Inr ds" "first_new_issue (compatible_baseline cs) ds = None"
    and r: "r = \<lparr>cr_activity = None, cr_audit = Some (history_audit e type as),
      cr_state = bump_revision ?ts (t\<lparr>ws_audit := ws_audit t @ [history_audit e type as]\<rparr>)\<rparr>"
    using assms(1) unfolding apply_history_action_Inr by blast
  have cs: "validate_snapshot (json_of_state s) = Some cs" and ds: "validate_snapshot (json_of_state t) = Some ds"
    using v(1,3) by (simp_all add: state_issues_def)
  note verdict = accepted_verdict [OF v(4)]
  note fold = replay_fold [OF v(2)]
  have "safe_paths (ws_activities t)" by (rule validated_paths [OF ds]) (rule verdict(1), simp)
  then have "safe_paths (ws_activities s)" using safe_paths_history [of t s] fold(1) by (simp add: history_step_def)
  then have "safe_paths as" using assms(2) by (auto simp: safe_paths_def)
  then have ws: "same_workspace s t" by (rule fold(2))
  have "wf_state t" if dbl: "double_history as" and wf: "wf_state s"
  proof (rule validate_sound [OF ds])
    show "\<not> reports k ds" if "k \<in> sound_codes \<union> structural" for k
      using that verdict validate_complete [OF cs wf] by blast
    have "double_quantities (ws_items s)"
      using wf by (simp add: wf_state_def items_ok_def item_ok_def double_quantities_def)
    from fold(3) [OF dbl this] show "\<forall>x\<in>set (ws_items t). num_ok (i_quantity x)" by (simp add: double_quantities_def)
  qed
  moreover have "ws_audit t = ws_audit s" using fold(1) by (simp add: history_step_def)
  ultimately show thesis using that [of "history_audit e type as" t] fold(1) ws r by (simp add: history_audit_def)
qed

lemma collect_undone_subset:
  "(\<And>i a. undone i = Some a \<Longrightarrow> a \<in> A) \<Longrightarrow> set (collect_undone undone sel ids) \<subseteq> A"
  by (induction undone sel ids rule: collect_undone.induct) (auto split: option.splits if_splits)

lemma find_member: "List.find P xs = Some x \<Longrightarrow> x \<in> set xs"
  by (auto simp: find_Some_iff)

lemma redo_candidates_subset: "set (redo_candidates s) \<subseteq> set (ws_activities s)"
proof -
  have "a \<in> set (ws_activities s)"
    if "List.find (\<lambda>a. a_id a = i) (rev (filter (\<lambda>a. a_status a = Undone) (ws_activities s))) = Some a" for i a
    using find_member [OF that] by simp
  from collect_undone_subset [of _ "set (ws_activities s)", OF this] show ?thesis
    by (auto simp: redo_candidates_def Let_def)
qed

lemma history_command_accepted:
  assumes "apply_history_command s e = Inr r"
  obtains as type where "set as \<subseteq> set (ws_activities s)" and "apply_history_action s e type as = Inr r"
    and "as \<noteq> []"
proof -
  have undo: "set (take n (undo_candidates s)) \<subseteq> set (ws_activities s)" for n
    by (auto simp: undo_candidates_def dest: in_set_takeD)
  have redo: "set (take n (redo_candidates s)) \<subseteq> set (ws_activities s)" for n
    using redo_candidates_subset by (meson set_take_subset subset_trans)
  have one: "set [a] \<subseteq> set (ws_activities s)" if "List.find (\<lambda>a. a_id a = i) (ws_activities s) = Some a" for i a
    using find_member [OF that] by simp
  have many: "take (count_of n) as \<noteq> []" if "valid_count n" "length (take (count_of n) as) = count_of n" for n and as :: "activity list"
  proof -
    have "0 < count_of n" using that(1) by (cases n) (auto simp: valid_count_def count_of_def)
    with that(2) show ?thesis by fastforce
  qed
  have "\<exists>as type. set as \<subseteq> set (ws_activities s) \<and> apply_history_action s e type as = Inr r \<and> as \<noteq> []"
  proof (cases "e_command e")
    case (History_undo i)
    then obtain a where "List.find (\<lambda>a. a_id a = i) (ws_activities s) = Some a" "apply_history_action s e Undo [a] = Inr r"
      using assms by (auto simp: apply_history_command_def split: option.splits)
    then show ?thesis using one by blast
  next
    case (History_reapply i)
    then obtain a where "List.find (\<lambda>a. a_id a = i) (ws_activities s) = Some a" "apply_history_action s e Reapply [a] = Inr r"
      using assms by (auto simp: apply_history_command_def split: option.splits)
    then show ?thesis using one by blast
  next
    case (History_batchUndo n)
    let ?as = "take (count_of n) (undo_candidates s)"
    have "valid_count n \<and> length ?as = count_of n \<and> apply_history_action s e Batch_undo ?as = Inr r"
      using assms History_batchUndo by (auto simp: apply_history_command_def Let_def split: if_splits)
    then show ?thesis using undo many by blast
  next
    case (History_batchRedo n)
    let ?as = "take (count_of n) (redo_candidates s)"
    have "valid_count n \<and> length ?as = count_of n \<and> apply_history_action s e Batch_redo ?as = Inr r"
      using assms History_batchRedo by (auto simp: apply_history_command_def Let_def split: if_splits)
    then show ?thesis using redo many by blast
  qed (use assms in \<open>simp_all add: apply_history_command_def\<close>)
  then show thesis using that by blast
qed

section \<open>Every accepted command\<close>

lemma apply_command_revision:
  assumes "apply_command dp s e = Inr r"
  shows "w_revision (ws_workspace (cr_state r)) = js_add (w_revision (ws_workspace s)) (Fin 1)"
    and "w_id (ws_workspace (cr_state r)) = w_id (ws_workspace s)"
proof -
  have "w_revision (ws_workspace (cr_state r)) = js_add (w_revision (ws_workspace s)) (Fin 1) \<and>
    w_id (ws_workspace (cr_state r)) = w_id (ws_workspace s)"
  proof (cases "is_history_command (e_command e)")
    case False
    from accepted_normal [OF assms this] show ?thesis by metis
  next
    case True
    then have "apply_history_command s (normalize_envelope e) = Inr r"
      using apply_command_accepted(5) [OF assms] by simp
    then obtain as type where a: "set as \<subseteq> set (ws_activities s)"
      "apply_history_action s (normalize_envelope e) type as = Inr r" "as \<noteq> []" by (rule history_command_accepted)
    from history_action_accepted [OF a(2,1)] obtain t u where
      "cr_state r = bump_revision (e_timestamp (normalize_envelope e)) (t\<lparr>ws_audit := ws_audit s @ [u]\<rparr>)"
      "same_workspace s t" by metis
    then show ?thesis by (simp add: bump_revision_def same_workspace_def)
  qed
  then show "w_revision (ws_workspace (cr_state r)) = js_add (w_revision (ws_workspace s)) (Fin 1)"
    "w_id (ws_workspace (cr_state r)) = w_id (ws_workspace s)" by simp_all
qed

text \<open>A history command keeps the invariant when the recorded numbers are doubles.\<close>

lemma history_preserves:
  assumes "apply_command dp s e = Inr r" and "is_history_command (e_command e)" and "wf_state s"
    and "double_history (ws_activities s)"
  shows "wf_state (cr_state r)"
proof -
  have "apply_history_command s (normalize_envelope e) = Inr r"
    using apply_command_accepted(5) [OF assms(1)] assms(2) by simp
  then obtain as type where a: "set as \<subseteq> set (ws_activities s)"
    "apply_history_action s (normalize_envelope e) type as = Inr r" "as \<noteq> []" by (rule history_command_accepted)
  from history_action_accepted [OF a(2,1)] obtain t u where
    r: "cr_state r = bump_revision (e_timestamp (normalize_envelope e)) (t\<lparr>ws_audit := ws_audit s @ [u]\<rparr>)"
    and wf: "double_history as \<Longrightarrow> wf_state s \<Longrightarrow> wf_state t" by metis
  have "double_history as" using assms(4) a(1) by (auto simp: double_history_def)
  from wf [OF this assms(3)] show ?thesis by (simp add: r bump_revision_def wf_state_def)
qed

text \<open>The command is known afterwards: by its activity, or by its audit event.\<close>

lemma accepted_recorded:
  assumes "apply_command dp s e = Inr r"
  obtains a where "cr_activity r = Some a" and "cr_audit r = None" and "a \<in> set (ws_activities (cr_state r))"
    and "a_commandId a = e_id e"
  | u where "cr_activity r = None" and "cr_audit r = Some u" and "u \<in> set (ws_audit (cr_state r))"
    and "u_id u = ''audit_'' @ e_id e" and "set (u_targetActivityIds u) \<subseteq> a_id ` set (ws_activities (cr_state r))"
    and "u_targetActivityIds u \<noteq> []"
proof (cases "is_history_command (e_command e)")
  case False
  obtain c t where "r = \<lparr>cr_activity = Some (activity_of (normalize_envelope e) c), cr_audit = None,
      cr_state = bump_revision (e_timestamp (normalize_envelope e))
        (t\<lparr>ws_activities := ws_activities t @ [activity_of (normalize_envelope e) c]\<rparr>)\<rparr>"
    using apply_command_accepted(6) [OF assms] False by (auto simp: apply_normal_command_Inr)
  then show thesis using that(1) by (simp add: activity_of_def bump_revision_def)
next
  case True
  then have "apply_history_command s (normalize_envelope e) = Inr r"
    using apply_command_accepted(5) [OF assms] by simp
  then obtain as type where a: "set as \<subseteq> set (ws_activities s)"
    "apply_history_action s (normalize_envelope e) type as = Inr r" "as \<noteq> []" by (rule history_command_accepted)
  from history_action_accepted [OF a(2,1)] obtain t u where
    r: "cr_state r = bump_revision (e_timestamp (normalize_envelope e)) (t\<lparr>ws_audit := ws_audit s @ [u]\<rparr>)"
      "cr_activity r = None" "cr_audit r = Some u" "u_id u = ''audit_'' @ e_id e" "u_targetActivityIds u = map a_id as"
      "history_step s t" by (metis normalize_envelope_base(2))
  have "map fst (history_of t) = map fst (history_of s)" using r(6) by (simp add: history_step_def)
  then have "map a_id (ws_activities t) = map a_id (ws_activities s)" by (simp add: history_of_def comp_def)
  then have "a_id ` set (ws_activities t) = a_id ` set (ws_activities s)" by (metis set_map)
  then have "set (u_targetActivityIds u) \<subseteq> a_id ` set (ws_activities (cr_state r))"
    using a(1) r(5) by (auto simp: r(1) bump_revision_def)
  then show thesis using that(2) r a(3) by (simp add: bump_revision_def)
qed

end
