(* ===== verification/Migration.thy ===== *)
theory Migration
  imports Apply_Command
begin

text \<open>
  Bringing a stored or imported snapshot to the current form (\<open>src/domain/import.ts\<close>:
  \<open>normalizeWorkspaceState\<close>, \<open>validateImportSnapshot\<close>, \<open>previewImport\<close>, \<open>parseSnapshot\<close>):
  the legacy item field is renamed, the schema version raised, the receipts de-duplicated and
  items without an order receive the next one of their location.

  The function is translated twice, as the program uses it: on an arbitrary JSON value, where
  every check of the shape counts, and on a typed state; \<open>normalize_typed\<close> below shows that
  both agree on the JSON form of a state.  An object or array in the receipts is a value of
  its own, as \<open>structuredClone\<close> and \<open>JSON.parse\<close> make them.
\<close>

section \<open>Receipts\<close>

text \<open>Membership of a \<open>Set\<close>: \<open>NaN\<close> equals itself, and an object only the same object.\<close>

fun same_value :: "json \<Rightarrow> json \<Rightarrow> bool" where
  "same_value (JNum a) (JNum b) = (js_eq a b \<or> a = NaN \<and> b = NaN)"
| "same_value (JArr xs) w = False"
| "same_value (JObj m) w = False"
| "same_value v w = (v = w)"

fun uniq_values :: "json list \<Rightarrow> json list" where
  "uniq_values [] = []"
| "uniq_values (x # xs) = x # filter (\<lambda>y. \<not> same_value x y) (uniq_values xs)"

fun normalize_receipts :: "json option \<Rightarrow> json" where
  "normalize_receipts (Some (JArr xs)) = JArr (uniq_values xs)"
| "normalize_receipts v = JArr []"

section \<open>The legacy description of items in patches\<close>

definition legacy_patch_fields :: "jsobj \<Rightarrow> jsobj" where
  "legacy_patch_fields p =
     (if map_of p ''target'' \<noteq> Some (JStr ''item'') then p
      else if map_of p ''path'' = Some (JStr ''notes'') then AList.update ''path'' (JStr ''description'') p
      else if map_of p ''path'' = Some (JStr [])
      then map (\<lambda>(k, v). (k, if k \<in> {''before'', ''after''} then normalize_description v else v)) p
      else p)"

fun on_record :: "(jsobj \<Rightarrow> jsobj) \<Rightarrow> json \<Rightarrow> json" where
  "on_record f (JObj m) = JObj (f m)"
| "on_record f j = j"

definition on_array :: "string \<Rightarrow> (json \<Rightarrow> json) \<Rightarrow> jsobj \<Rightarrow> jsobj" where
  "on_array k f m =
     (case map_of m k of Some (JArr xs) \<Rightarrow> AList.update k (JArr (map f xs)) m | _ \<Rightarrow> m)"

definition legacy_fields :: "jsobj \<Rightarrow> jsobj" where
  "legacy_fields m =
     on_array ''activities'' (on_record (on_array ''patches'' (on_record legacy_patch_fields)))
       (on_array ''items'' normalize_description m)"

section \<open>Orders\<close>

text \<open>The two maps of the loop: the next order of a location, and the order of an item.\<close>

record orders =
  next_order :: "(string \<times> jsnum) list"
  order_by_item :: "(string \<times> jsnum) list"

definition order_at :: "(string \<times> jsnum) list \<Rightarrow> string \<Rightarrow> jsnum" where
  "order_at m k = (case map_of m k of None \<Rightarrow> Fin 0 | Some n \<Rightarrow> n)"

definition after_order :: "string \<Rightarrow> jsnum \<Rightarrow> orders \<Rightarrow> orders" where
  "after_order loc n os =
     os\<lparr>next_order := AList.update loc (js_max (order_at (next_order os) loc) (js_add n (Fin 1))) (next_order os)\<rparr>"

definition item_order :: "string \<Rightarrow> jsnum option \<Rightarrow> orders \<Rightarrow> jsnum" where
  "item_order loc given os =
     (case given of
        Some n \<Rightarrow> if is_finite n then n else order_at (next_order os) loc
      | None \<Rightarrow> order_at (next_order os) loc)"

definition record_order :: "string option \<Rightarrow> string \<Rightarrow> jsnum \<Rightarrow> orders \<Rightarrow> orders" where
  "record_order i loc n os =
     (if \<not> is_finite n then os
      else after_order loc n
        (case i of None \<Rightarrow> os | Some k \<Rightarrow> os\<lparr>order_by_item := AList.update k n (order_by_item os)\<rparr>))"

fun string_opt :: "json option \<Rightarrow> string option" where
  "string_opt (Some (JStr s)) = Some s"
| "string_opt v = None"

fun number_opt :: "json option \<Rightarrow> jsnum option" where
  "number_opt (Some (JNum n)) = Some n"
| "number_opt v = None"

definition set_order :: "jsobj \<Rightarrow> jsnum \<Rightarrow> jsobj" where
  "set_order m n = (if number_opt (map_of m ''order'') = Some n then m else AList.update ''order'' (JNum n) m)"

fun order_items :: "orders \<Rightarrow> json list \<Rightarrow> json list \<times> orders" where
  "order_items os [] = ([], os)"
| "order_items os (j # js) =
     (case (j, string_opt (jget ''locationId'' j)) of
        (JObj m, Some loc) \<Rightarrow>
          let n = item_order loc (number_opt (map_of m ''order'')) os;
              (js', os') = order_items (record_order (string_opt (map_of m ''id'')) loc n os) js
          in (JObj (set_order m n) # js', os')
      | _ \<Rightarrow> let (js', os') = order_items os js in (j # js', os'))"

text \<open>One side of a patch that holds a whole item record without a finite order.\<close>

definition order_side :: "json \<Rightarrow> orders \<Rightarrow> json \<times> orders" where
  "order_side j os =
     (case (j, string_opt (jget ''id'' j), string_opt (jget ''locationId'' j)) of
        (JObj m, Some i, Some loc) \<Rightarrow>
          (case number_opt (map_of m ''order'') of
             Some n \<Rightarrow> if is_finite n then (j, os) else
               (let a = (case map_of (order_by_item os) i of Some n \<Rightarrow> n | None \<Rightarrow> order_at (next_order os) loc)
                in (JObj (AList.update ''order'' (JNum a) m),
                    after_order loc a (os\<lparr>order_by_item := AList.update i a (order_by_item os)\<rparr>)))
           | None \<Rightarrow>
               (let a = (case map_of (order_by_item os) i of Some n \<Rightarrow> n | None \<Rightarrow> order_at (next_order os) loc)
                in (JObj (AList.update ''order'' (JNum a) m),
                    after_order loc a (os\<lparr>order_by_item := AList.update i a (order_by_item os)\<rparr>))))
      | _ \<Rightarrow> (j, os))"

definition order_field :: "string \<Rightarrow> jsobj \<Rightarrow> orders \<Rightarrow> jsobj \<times> orders" where
  "order_field k p os =
     (case map_of p k of
        None \<Rightarrow> (p, os)
      | Some j \<Rightarrow> let (j', os') = order_side j os in (AList.update k j' p, os'))"

fun order_patches :: "orders \<Rightarrow> json list \<Rightarrow> json list \<times> orders" where
  "order_patches os [] = ([], os)"
| "order_patches os (JObj p # js) =
     (let (p', os') =
            (if map_of p ''target'' = Some (JStr ''item'') \<and> map_of p ''path'' = Some (JStr [])
             then let (p1, os1) = order_field ''before'' p os in order_field ''after'' p1 os1
             else (p, os));
          (js', os'') = order_patches os' js
      in (JObj p' # js', os''))"
| "order_patches os (j # js) = (let (js', os') = order_patches os js in (j # js', os'))"

fun order_activities :: "orders \<Rightarrow> json list \<Rightarrow> json list \<times> orders" where
  "order_activities os [] = ([], os)"
| "order_activities os (j # js) =
     (case (j, jget ''patches'' j) of
        (JObj a, Some (JArr ps)) \<Rightarrow>
          let (ps', os') = order_patches os ps; (js', os'') = order_activities os' js
          in (JObj (AList.update ''patches'' (JArr ps') a) # js', os'')
      | _ \<Rightarrow> let (js', os') = order_activities os js in (j # js', os'))"

section \<open>Normalisation of a JSON value\<close>

definition assign_orders :: "jsobj \<Rightarrow> jsobj" where
  "assign_orders m =
     (case map_of m ''items'' of
        Some (JArr js) \<Rightarrow>
          let (js', os) = order_items \<lparr>next_order = [], order_by_item = []\<rparr> js;
              m' = AList.update ''items'' (JArr js') m
          in (case map_of m' ''activities'' of
                Some (JArr as) \<Rightarrow> AList.update ''activities'' (JArr (fst (order_activities os as))) m'
              | _ \<Rightarrow> m')
      | _ \<Rightarrow> m)"

definition normalize_workspace_state :: "jsobj \<Rightarrow> jsobj" where
  "normalize_workspace_state m =
     (let version = map_of m ''schemaVersion'';
          legacy = strict_eq version (Some (JNum (Fin 1)));
          m1 = (if legacy \<or> strict_eq version (Some (JNum (JsInt schema_version))) then legacy_fields m else m);
          m2 = (if legacy then AList.update ''schemaVersion'' (JNum (JsInt schema_version)) m1 else m1);
          m3 = AList.update ''commandReceipts'' (normalize_receipts (map_of m2 ''commandReceipts'')) m2
      in assign_orders m3)"

section \<open>Import\<close>

definition downgrade :: "issue \<Rightarrow> issue" where
  "downgrade c =
     (if is_error c \<and> is_legacy_compatible_issue c
      then c\<lparr>is_message := ''Compatible v1 state is preserved: '' @ is_message c, is_error := False\<rparr>
      else c)"

definition validate_import_snapshot :: "json \<Rightarrow> issue list option" where
  "validate_import_snapshot j =
     map_option (map downgrade) (validate_snapshot (on_record normalize_workspace_state j))"

record import_counts =
  ic_items :: nat
  ic_locations :: nat
  ic_plans :: nat

record import_preview =
  ip_incoming :: import_counts
  ip_issues :: "issue list"
  ip_replacing :: import_counts
  ip_valid :: bool

definition preview_import :: "wstate \<Rightarrow> json \<Rightarrow> import_preview option" where
  "preview_import current j =
     map_option (\<lambda>issues.
       \<lparr>ip_incoming = \<lparr>ic_items = length (elements_of (jget ''items'' j)),
                       ic_locations = length (elements_of (jget ''locations'' j)),
                       ic_plans = length (elements_of (jget ''plans'' j))\<rparr>,
        ip_issues = issues,
        ip_replacing = \<lparr>ic_items = length (ws_items current), ic_locations = length (ws_locations current),
                        ic_plans = length (ws_plans current)\<rparr>,
        ip_valid = list_all (\<lambda>c. \<not> is_error c) issues\<rparr>)
       (validate_import_snapshot j)"

text \<open>
  \<open>parseSnapshot\<close> after \<open>JSON.parse\<close>: the messages of the errors, or the normalised value.
  Only an object can be free of errors.
\<close>

definition parse_snapshot :: "json \<Rightarrow> (string list + json) option" where
  "parse_snapshot j =
     map_option (\<lambda>issues.
       let errors = filter is_error issues
       in if errors \<noteq> [] then Inl (map is_message errors) else Inr (on_record normalize_workspace_state j))
       (validate_import_snapshot j)"

end
