(* ===== verification/Migration_Facts.thy ===== *)
theory Migration_Facts
  imports Migration State_Json
begin

text \<open>
  \<open>normalizeWorkspaceState\<close> (\<open>src/domain/import.ts\<close>) on a typed state, as the server's stores
  apply it.  It agrees with the translation on JSON values, leaves a current state alone and
  makes every other one current.
\<close>

section \<open>On a typed state\<close>

definition legacy_patch :: "field_patch \<Rightarrow> field_patch" where
  "legacy_patch p =
     (if fp_target p \<noteq> Target_item then p
      else if fp_path p = ''notes'' then p\<lparr>fp_path := ''description''\<rparr>
      else if fp_path p = []
      then p\<lparr>fp_after := map_option normalize_description (fp_after p),
             fp_before := map_option normalize_description (fp_before p)\<rparr>
      else p)"

fun order_typed_items :: "orders \<Rightarrow> item list \<Rightarrow> item list \<times> orders" where
  "order_typed_items os [] = ([], os)"
| "order_typed_items os (x # xs) =
     (let n = item_order (i_locationId x) (Some (i_order x)) os;
          (xs', os') = order_typed_items (record_order (Some (i_id x)) (i_locationId x) n os) xs
      in (x\<lparr>i_order := n\<rparr> # xs', os'))"

definition order_typed_side :: "json option \<Rightarrow> orders \<Rightarrow> json option \<times> orders" where
  "order_typed_side v os =
     (case v of None \<Rightarrow> (None, os) | Some j \<Rightarrow> let (j', os') = order_side j os in (Some j', os'))"

definition order_typed_patch :: "orders \<Rightarrow> field_patch \<Rightarrow> field_patch \<times> orders" where
  "order_typed_patch os p =
     (if fp_target p = Target_item \<and> fp_path p = []
      then let (b, os1) = order_typed_side (fp_before p) os; (a, os2) = order_typed_side (fp_after p) os1
           in (p\<lparr>fp_before := b, fp_after := a\<rparr>, os2)
      else (p, os))"

fun order_typed_patches :: "orders \<Rightarrow> field_patch list \<Rightarrow> field_patch list \<times> orders" where
  "order_typed_patches os [] = ([], os)"
| "order_typed_patches os (p # ps) =
     (let (p', os') = order_typed_patch os p; (ps', os'') = order_typed_patches os' ps in (p' # ps', os''))"

fun order_typed_activities :: "orders \<Rightarrow> activity list \<Rightarrow> activity list \<times> orders" where
  "order_typed_activities os [] = ([], os)"
| "order_typed_activities os (a # as) =
     (let (ps, os') = order_typed_patches os (a_patches a); (as', os'') = order_typed_activities os' as
      in (a\<lparr>a_patches := ps\<rparr> # as', os''))"

definition known_schema :: "wstate \<Rightarrow> bool" where
  "known_schema s \<longleftrightarrow> ws_schemaVersion s = 1 \<or> ws_schemaVersion s = schema_version"

definition legacy_state :: "wstate \<Rightarrow> wstate" where
  "legacy_state s =
     (if known_schema s
      then s\<lparr>ws_activities := map (\<lambda>a. a\<lparr>a_patches := map legacy_patch (a_patches a)\<rparr>) (ws_activities s),
             ws_schemaVersion := schema_version\<rparr>
      else s)"

definition order_state :: "wstate \<Rightarrow> wstate" where
  "order_state s =
     (let (xs, os) = order_typed_items \<lparr>next_order = [], order_by_item = []\<rparr> (ws_items s)
      in s\<lparr>ws_items := xs, ws_activities := fst (order_typed_activities os (ws_activities s))\<rparr>)"

definition normalize_typed :: "wstate \<Rightarrow> wstate" where
  "normalize_typed s =
     (let t = legacy_state s in order_state (t\<lparr>ws_commandReceipts := uniq (ws_commandReceipts t)\<rparr>))"

section \<open>Agreement with the translation on JSON values\<close>

lemma uniq_values_strings [simp]: "uniq_values (map JStr xs) = map JStr (uniq xs)"
proof (induction xs)
  case (Cons x xs)
  have "filter (\<lambda>y. \<not> same_value (JStr x) y) (map JStr (uniq xs)) = map JStr (filter (\<lambda>y. y \<noteq> x) (uniq xs))"
    by (rule trans [OF filter_map]) (auto simp: comp_def intro!: arg_cong [where f = "map JStr"] filter_cong)
  with Cons show ?case by simp
qed simp

lemma target_name_item [simp]: "target_name t = ''item'' \<longleftrightarrow> t = Target_item"
  by (cases t) simp_all

definition patch_obj :: "field_patch \<Rightarrow> jsobj" where
  "patch_obj p =
     (case fp_after p of None \<Rightarrow> [] | Some v \<Rightarrow> [(''after'', v)]) @
     (case fp_before p of None \<Rightarrow> [] | Some v \<Rightarrow> [(''before'', v)]) @
     [(''id'', JStr (fp_id p)), (''path'', JStr (fp_path p)), (''target'', JStr (target_name (fp_target p)))]"

lemma json_of_patch: "json_of_patch p = JObj (patch_obj p)"
  by (simp add: json_of_patch_def patch_obj_def)

lemma patch_obj_map_of [simp]:
  "map_of (patch_obj p) ''target'' = Some (JStr (target_name (fp_target p)))"
  "map_of (patch_obj p) ''path'' = Some (JStr (fp_path p))"
  "map_of (patch_obj p) ''before'' = fp_before p"
  "map_of (patch_obj p) ''after'' = fp_after p"
  by (simp_all add: patch_obj_def split: option.split)

lemma legacy_patch_json: "legacy_patch_fields (patch_obj p) = patch_obj (legacy_patch p)"
  by (simp add: legacy_patch_fields_def legacy_patch_def patch_obj_def split: option.split)

lemma order_field_json:
  "order_field ''before'' (patch_obj p) os =
     (let (b, os') = order_typed_side (fp_before p) os in (patch_obj (p\<lparr>fp_before := b\<rparr>), os'))"
  "order_field ''after'' (patch_obj p) os =
     (let (a, os') = order_typed_side (fp_after p) os in (patch_obj (p\<lparr>fp_after := a\<rparr>), os'))"
  by (simp_all add: order_field_def order_typed_side_def patch_obj_def split: option.split prod.split)

lemma order_patches_json:
  "order_patches os (map json_of_patch ps) =
     (let (ps', os') = order_typed_patches os ps in (map json_of_patch ps', os'))"
  by (induction ps arbitrary: os)
     (simp_all add: json_of_patch order_field_json order_typed_patch_def Let_def split: prod.split)

lemma order_activities_json:
  "order_activities os (map json_of_activity as) =
     (let (as', os') = order_typed_activities os as in (map json_of_activity as', os'))"
  by (induction as arbitrary: os)
     (simp_all add: json_of_activity_def json_of_list_def order_patches_json Let_def split: prod.split)

lemma set_order_item: "set_order (item_obj x) n = item_obj (x\<lparr>i_order := n\<rparr>)"
  by (simp add: set_order_def item_obj_def)

lemma item_obj_map_of [simp]:
  "map_of (item_obj x) ''locationId'' = Some (JStr (i_locationId x))"
  "map_of (item_obj x) ''id'' = Some (JStr (i_id x))"
  "map_of (item_obj x) ''order'' = Some (JNum (i_order x))"
  "map_of (item_obj x) ''notes'' = None"
  by (simp_all add: item_obj_def)

lemma order_items_json:
  "order_items os (map (\<lambda>x. json_of_item x) xs) =
     (let (xs', os') = order_typed_items os xs in (map (\<lambda>x. json_of_item x) xs', os'))"
  by (induction xs arbitrary: os) (simp_all add: set_order_item Let_def split: prod.split)

definition state_obj :: "wstate \<Rightarrow> jsobj" where
  "state_obj s =
     [(''activities'', json_of_list json_of_activity (ws_activities s)),
      (''audit'', json_of_list json_of_audit (ws_audit s)),
      (''commandReceipts'', json_of_list JStr (ws_commandReceipts s)),
      (''items'', json_of_list (\<lambda>x. json_of_item x) (ws_items s)),
      (''locations'', json_of_list (\<lambda>l. json_of_location l) (ws_locations s)),
      (''plans'', json_of_list (\<lambda>p. json_of_plan p) (ws_plans s)),
      (''schemaVersion'', JNum (JsInt (ws_schemaVersion s))),
      (''workspace'', json_of_workspace (ws_workspace s))]"

lemma json_of_state: "json_of_state s = JObj (state_obj s)"
  by (simp add: json_of_state_def state_obj_def)

lemma assign_orders_json: "assign_orders (state_obj s) = state_obj (order_state s)"
  by (simp add: assign_orders_def state_obj_def json_of_list_def order_items_json order_activities_json
      order_state_def Let_def split: prod.split)

lemma legacy_activity_json:
  "on_record (on_array ''patches'' (on_record legacy_patch_fields)) (json_of_activity a) =
     json_of_activity (a\<lparr>a_patches := map legacy_patch (a_patches a)\<rparr>)"
  by (simp add: json_of_activity_def on_array_def json_of_list_def json_of_patch legacy_patch_json comp_def)

lemma legacy_fields_json:
  "legacy_fields (state_obj s) =
     state_obj (s\<lparr>ws_activities := map (\<lambda>a. a\<lparr>a_patches := map legacy_patch (a_patches a)\<rparr>) (ws_activities s)\<rparr>)"
  by (simp add: legacy_fields_def state_obj_def on_array_def json_of_list_def legacy_activity_json comp_def)

lemma normalize_json: "normalize_workspace_state (state_obj s) = state_obj (normalize_typed s)"
proof -
  have v: "map_of (state_obj t) ''schemaVersion'' = Some (JNum (JsInt (ws_schemaVersion t)))"
    "map_of (state_obj t) ''commandReceipts'' = Some (json_of_list JStr (ws_commandReceipts t))"
    "AList.update ''schemaVersion'' (JNum (JsInt n)) (state_obj t) = state_obj (t\<lparr>ws_schemaVersion := n\<rparr>)"
    "AList.update ''commandReceipts'' (json_of_list JStr rs) (state_obj t) = state_obj (t\<lparr>ws_commandReceipts := rs\<rparr>)" for t n rs
    by (simp_all add: state_obj_def)
  note v2 = v(3) [of 2, simplified]
  have r: "normalize_receipts (Some (json_of_list JStr rs)) = json_of_list JStr (uniq rs)" for rs
    by (simp add: json_of_list_def)
  have n: "(of_int (ws_schemaVersion s) = (1::rat)) = (ws_schemaVersion s = 1)"
    "(of_int (ws_schemaVersion s) = (2::rat)) = (ws_schemaVersion s = 2)" by linarith+
  show ?thesis
    using n unfolding normalize_workspace_state_def normalize_typed_def legacy_state_def known_schema_def schema_version_def
    by (cases s) (auto simp: Let_def v v2 legacy_fields_json assign_orders_json r)
qed

section \<open>A current state\<close>

definition current_side :: "json option \<Rightarrow> bool" where
  "current_side v \<longleftrightarrow>
     (case v of None \<Rightarrow> True
      | Some j \<Rightarrow> jget ''notes'' j = None \<and>
          (string_opt (jget ''id'' j) = None \<or> string_opt (jget ''locationId'' j) = None \<or>
           (\<exists>n. number_opt (jget ''order'' j) = Some n \<and> is_finite n)))"

definition current_patch :: "field_patch \<Rightarrow> bool" where
  "current_patch p \<longleftrightarrow>
     (fp_target p = Target_item \<longrightarrow>
        fp_path p \<noteq> ''notes'' \<and> (fp_path p = [] \<longrightarrow> current_side (fp_before p) \<and> current_side (fp_after p)))"

definition current_state :: "wstate \<Rightarrow> bool" where
  "current_state s \<longleftrightarrow>
     ws_schemaVersion s = schema_version \<and> distinct (ws_commandReceipts s) \<and>
     (\<forall>x\<in>set (ws_items s). is_finite (i_order x)) \<and>
     (\<forall>a\<in>set (ws_activities s). \<forall>p\<in>set (a_patches a). current_patch p)"

lemma normalize_description_id: "jget ''notes'' j = None \<Longrightarrow> normalize_description j = j"
  by (cases j) simp_all

lemma legacy_patch_current: "current_patch p \<Longrightarrow> legacy_patch p = p"
  by (cases p) (auto simp: current_patch_def legacy_patch_def current_side_def normalize_description_id
      split: option.splits)

lemma order_side_current: "current_side (Some j) \<Longrightarrow> order_side j os = (j, os)"
  by (auto simp: current_side_def order_side_def split: json.splits option.splits)

lemma order_typed_side_current: "current_side v \<Longrightarrow> order_typed_side v os = (v, os)"
  by (cases v) (simp_all add: order_typed_side_def order_side_current)

lemma order_typed_patches_current: "\<forall>p\<in>set ps. current_patch p \<Longrightarrow> order_typed_patches os ps = (ps, os)"
  by (induction ps) (auto simp: order_typed_patch_def current_patch_def order_typed_side_current)

lemma order_typed_activities_current:
  "\<forall>a\<in>set as. \<forall>p\<in>set (a_patches a). current_patch p \<Longrightarrow> order_typed_activities os as = (as, os)"
  by (induction as) (simp_all add: order_typed_patches_current)

lemma order_typed_items_current:
  "\<forall>x\<in>set xs. is_finite (i_order x) \<Longrightarrow> \<exists>os'. order_typed_items os xs = (xs, os')"
proof (induction xs arbitrary: os)
  case (Cons x xs)
  let ?os = "record_order (Some (i_id x)) (i_locationId x) (i_order x) os"
  obtain os' where "order_typed_items ?os xs = (xs, os')" using Cons.IH [of ?os] Cons.prems by auto
  then show ?case using Cons.prems by (simp add: item_order_def Let_def)
qed simp

lemma normalize_current: "current_state s \<Longrightarrow> normalize_typed s = s"
proof -
  assume cur: "current_state s"
  have "map (\<lambda>a. a\<lparr>a_patches := map legacy_patch (a_patches a)\<rparr>) (ws_activities s) = ws_activities s"
    using cur by (intro map_idI) (simp add: current_state_def legacy_patch_current map_idI)
  then have "legacy_state s = s" using cur by (simp add: legacy_state_def current_state_def)
  moreover obtain os where "order_typed_items \<lparr>next_order = [], order_by_item = []\<rparr> (ws_items s) = (ws_items s, os)"
    using cur order_typed_items_current unfolding current_state_def by blast
  moreover have "order_typed_activities os (ws_activities s) = (ws_activities s, os)"
    using cur order_typed_activities_current by (auto simp: current_state_def)
  ultimately show ?thesis
    using cur by (simp add: normalize_typed_def order_state_def current_state_def uniq_distinct)
qed

section \<open>Normalisation makes a state current\<close>

text \<open>Adding one to a double never overflows.\<close>

lemma round_half_even_near: "q < of_int k + 1 / 2 \<Longrightarrow> round_half_even q \<le> k"
proof -
  assume q: "q < of_int k + 1 / 2"
  then have "\<lfloor>q\<rfloor> \<le> k" by linarith
  then consider "\<lfloor>q\<rfloor> < k" | "\<lfloor>q\<rfloor> = k" by linarith
  then show ?thesis
  proof cases
    case 2
    with q have "q - of_int \<lfloor>q\<rfloor> < 1 / 2" by linarith
    with 2 show ?thesis by (simp add: round_half_even_def Let_def)
  qed (auto simp: round_half_even_def Let_def)
qed

lemma round_pos_succ:
  assumes "0 < q" and "q \<le> max_double + 1"
  shows "round_pos q \<le> max_double"
proof (cases "q \<le> max_double")
  case True then show ?thesis by (rule round_pos_le_max [OF assms(1)])
next
  case False
  let ?m = "max (floor_log2 q - 52) min_exponent"
  have "2 powi floor_log2 q < (2::rat) powi 1024"
    using floor_log2_bounds(1) [OF assms(1)] assms(2) by (simp add: max_double_def)
  then have "floor_log2 q < 1024" by (simp only: two_powi_less_iff)
  then have m: "?m \<le> 971" by (simp add: min_exponent_def)
  have "(2::rat) powi 54 < 2 powi (floor_log2 q + 1)"
    using floor_log2_bounds(2) [OF assms(1)] False by (simp add: max_double_def)
  then have two: "2 \<le> ?m" by (simp only: two_powi_less_iff)
  let ?k = "2 ^ nat (1024 - ?m) - 2 ^ nat (971 - ?m) :: int"
  have u: "(4::rat) \<le> 2 powi ?m"
    using power_int_increasing [OF two, of "2::rat"] by simp
  have pos: "(0::rat) < 2 powi ?m" by simp
  have "q \<le> of_int ?k * 2 powi ?m + 1" using assms(2) unfolding max_double_split [OF m] .
  then have "q / 2 powi ?m \<le> (of_int ?k * 2 powi ?m + 1) / 2 powi ?m"
    using u by (intro divide_right_mono) simp_all
  also have "\<dots> = of_int ?k + 1 / 2 powi ?m" using u by (simp add: add_divide_distrib)
  also have "\<dots> < of_int ?k + 1 / 2"
    using u by (simp add: divide_less_eq)
  finally have "round_half_even (q / 2 powi ?m) \<le> ?k" by (rule round_half_even_near)
  then have "of_int (round_half_even (q / 2 powi ?m)) * 2 powi ?m \<le> of_int ?k * (2::rat) powi ?m"
    using pos by (intro mult_right_mono) (simp_all only: of_int_le_iff less_imp_le)
  then show ?thesis unfolding max_double_split [OF m] round_pos_def Let_def .
qed

lemma finite_round_double: "\<bar>q\<bar> \<le> max_double + 1 \<Longrightarrow> is_finite (round_double q)"
proof (cases "q = 0")
  case False
  assume q: "\<bar>q\<bar> \<le> max_double + 1"
  have "round_pos \<bar>q\<bar> < overflow_bound"
    using round_pos_succ [OF _ q] False max_double_less by simp
  then show ?thesis by (simp add: round_double_def Let_def)
qed (simp add: round_double_def)

definition order_ok :: "jsnum \<Rightarrow> bool" where
  "order_ok n \<longleftrightarrow> is_finite n \<and> num_ok n"

lemma order_ok_add: "order_ok n \<Longrightarrow> order_ok (js_add n (Fin 1))"
proof -
  assume n: "order_ok n"
  then have "\<bar>num_val n\<bar> \<le> max_double" by (cases n) (auto simp: order_ok_def)
  then have "\<bar>num_val n + 1\<bar> \<le> max_double + 1" by linarith
  from finite_round_double [OF this] n show ?thesis by (cases n) (auto simp: order_ok_def)
qed

lemma order_ok_0 [simp]: "order_ok (Fin 0)"
  by (simp add: order_ok_def)

lemma order_ok_max: "order_ok m \<Longrightarrow> order_ok n \<Longrightarrow> order_ok (js_max m n)"
  by (auto simp: order_ok_def js_max_def)

definition orders_ok :: "orders \<Rightarrow> bool" where
  "orders_ok os \<longleftrightarrow>
     (\<forall>k n. map_of (next_order os) k = Some n \<longrightarrow> order_ok n) \<and>
     (\<forall>k n. map_of (order_by_item os) k = Some n \<longrightarrow> order_ok n)"

lemma orders_ok_simps [simp]:
  "orders_ok \<lparr>next_order = [], order_by_item = []\<rparr>"
  "orders_ok os \<Longrightarrow> order_ok n \<Longrightarrow> orders_ok (os\<lparr>order_by_item := AList.update i n (order_by_item os)\<rparr>)"
  by (auto simp: orders_ok_def update_conv' split: if_splits)

lemma order_at_ok: "orders_ok os \<Longrightarrow> order_ok (order_at (next_order os) loc)"
  by (auto simp: orders_ok_def order_at_def split: option.split)

lemma after_order_ok: "orders_ok os \<Longrightarrow> order_ok n \<Longrightarrow> orders_ok (after_order loc n os)"
  using order_ok_max [OF order_at_ok order_ok_add]
  by (auto simp: orders_ok_def after_order_def update_conv')

lemma order_typed_items_ok:
  assumes "orders_ok os" and "\<forall>x\<in>set xs. num_ok (i_order x)" and "order_typed_items os xs = (ys, os')"
  shows "orders_ok os' \<and> (\<forall>y\<in>set ys. is_finite (i_order y))"
  using assms
proof (induction xs arbitrary: os ys)
  case (Cons x xs)
  define n where "n = item_order (i_locationId x) (Some (i_order x)) os"
  have n: "order_ok n"
    using Cons.prems(1,2) order_at_ok by (auto simp: n_def item_order_def order_ok_def)
  then have os: "orders_ok (record_order (Some (i_id x)) (i_locationId x) n os)"
    using Cons.prems(1) by (simp add: record_order_def after_order_ok)
  obtain zs where zs: "order_typed_items (record_order (Some (i_id x)) (i_locationId x) n os) xs = (zs, os')"
    "ys = x\<lparr>i_order := n\<rparr> # zs"
    using Cons.prems(3) by (auto simp: n_def Let_def split: prod.splits)
  from Cons.IH [OF os _ zs(1)] Cons.prems(2) n zs(2) show ?case by (auto simp: order_ok_def)
qed simp

text \<open>A side of a patch after the first step: no legacy field, and any order it has is a double.\<close>

definition side_ok :: "json option \<Rightarrow> bool" where
  "side_ok v \<longleftrightarrow> (case v of None \<Rightarrow> True | Some j \<Rightarrow> jget ''notes'' j = None)"

definition assigned :: "orders \<Rightarrow> string \<Rightarrow> string \<Rightarrow> jsnum" where
  "assigned os i loc = (case map_of (order_by_item os) i of Some n \<Rightarrow> n | None \<Rightarrow> order_at (next_order os) loc)"

lemma order_side_cases:
  obtains (same) "order_side j os = (j, os)" "current_side (Some j) \<or> jget ''notes'' j \<noteq> None"
  | (given) m i loc where "j = JObj m" "order_side j os =
      (JObj (AList.update ''order'' (JNum (assigned os i loc)) m),
       after_order loc (assigned os i loc) (os\<lparr>order_by_item := AList.update i (assigned os i loc) (order_by_item os)\<rparr>))"
proof (cases "string_opt (jget ''id'' j) = None \<or> string_opt (jget ''locationId'' j) = None \<or>
    (\<exists>n. number_opt (jget ''order'' j) = Some n \<and> is_finite n)")
  case True
  then have "current_side (Some j) \<or> jget ''notes'' j \<noteq> None" by (auto simp: current_side_def)
  moreover have "order_side j os = (j, os)"
    using True by (auto simp: order_side_def split: json.splits option.splits)
  ultimately show thesis using same by blast
next
  case False
  then obtain i loc where i: "string_opt (jget ''id'' j) = Some i" "string_opt (jget ''locationId'' j) = Some loc"
    by (auto simp: not_None_eq)
  then obtain m where m: "j = JObj m" by (cases j) (auto simp: jget_def)
  show thesis
    by (rule given [OF m, of i loc]) (use False i m in \<open>auto simp: order_side_def assigned_def Let_def split: option.split\<close>)
qed

lemma order_side_ok:
  assumes "orders_ok os" and "jget ''notes'' j = None" and "order_side j os = (j', os')"
  shows "orders_ok os' \<and> current_side (Some j')"
proof (cases rule: order_side_cases [of j os])
  case same then show ?thesis using assms by auto
next
  case (given m i loc)
  have a: "order_ok (assigned os i loc)"
    using assms(1) order_at_ok by (auto simp: orders_ok_def assigned_def split: option.split)
  have "current_side (Some (JObj (AList.update ''order'' (JNum (assigned os i loc)) m)))"
    using assms(2) given(1) a by (simp add: current_side_def update_conv' order_ok_def)
  with a given(2) assms(1,3) show ?thesis by (auto simp: after_order_ok)
qed

lemma order_typed_side_ok:
  "orders_ok os \<Longrightarrow> side_ok v \<Longrightarrow> order_typed_side v os = (v', os') \<Longrightarrow> orders_ok os' \<and> current_side v'"
  by (cases v) (auto simp: order_typed_side_def side_ok_def current_side_def dest: order_side_ok split: prod.splits)

definition patch_ok :: "field_patch \<Rightarrow> bool" where
  "patch_ok p \<longleftrightarrow>
     (fp_target p = Target_item \<longrightarrow>
        fp_path p \<noteq> ''notes'' \<and> (fp_path p = [] \<longrightarrow> side_ok (fp_before p) \<and> side_ok (fp_after p)))"

lemma side_ok_description: "side_ok (map_option normalize_description v)"
proof (cases v)
  case (Some j)
  then show ?thesis by (cases j) (auto simp: side_ok_def jget_not_record delete_conv' split: option.split)
qed (simp add: side_ok_def)

lemma legacy_patch_ok: "patch_ok (legacy_patch p)"
  by (auto simp: patch_ok_def legacy_patch_def side_ok_description)

lemma order_typed_patch_ok:
  assumes "orders_ok os" and "patch_ok p" and "order_typed_patch os p = (p', os')"
  shows "orders_ok os' \<and> current_patch p'"
proof (cases "fp_target p = Target_item \<and> fp_path p = []")
  case True
  obtain b os1 a where "order_typed_side (fp_before p) os = (b, os1)" "order_typed_side (fp_after p) os1 = (a, os')"
    "p' = p\<lparr>fp_before := b, fp_after := a\<rparr>"
    using assms(3) True by (auto simp: order_typed_patch_def split: prod.splits)
  with True assms(1,2) show ?thesis
    using order_typed_side_ok by (simp add: patch_ok_def current_patch_def) blast
next
  case False
  with assms show ?thesis by (auto simp: order_typed_patch_def patch_ok_def current_patch_def)
qed

lemma order_typed_patches_ok:
  assumes "orders_ok os" and "\<forall>p\<in>set ps. patch_ok p" and "order_typed_patches os ps = (qs, os')"
  shows "orders_ok os' \<and> (\<forall>p\<in>set qs. current_patch p)"
  using assms
proof (induction ps arbitrary: os qs)
  case (Cons p ps)
  obtain p' os1 ps' where s: "order_typed_patch os p = (p', os1)" "order_typed_patches os1 ps = (ps', os')" "qs = p' # ps'"
    using Cons.prems(3) by (auto split: prod.splits)
  have "orders_ok os1 \<and> current_patch p'" using order_typed_patch_ok [OF Cons.prems(1) _ s(1)] Cons.prems(2) by simp
  with Cons.IH [OF _ _ s(2)] Cons.prems(2) s(3) show ?case by simp
qed simp

lemma order_typed_activities_ok:
  assumes "orders_ok os" and "\<forall>a\<in>set as. \<forall>p\<in>set (a_patches a). patch_ok p"
  shows "\<forall>a\<in>set (fst (order_typed_activities os as)). \<forall>p\<in>set (a_patches a). current_patch p"
  using assms
proof (induction as arbitrary: os)
  case (Cons a as)
  obtain ps os1 where s: "order_typed_patches os (a_patches a) = (ps, os1)" by fastforce
  have "orders_ok os1 \<and> (\<forall>p\<in>set ps. current_patch p)"
    using order_typed_patches_ok [OF Cons.prems(1) _ s] Cons.prems(2) by simp
  with Cons.IH [of os1] Cons.prems(2) s show ?case by (auto split: prod.split)
qed simp

lemma normalize_makes_current:
  assumes "known_schema s" and "\<forall>x\<in>set (ws_items s). num_ok (i_order x)"
  shows "current_state (normalize_typed s)"
proof -
  obtain xs os where xs: "order_typed_items \<lparr>next_order = [], order_by_item = []\<rparr> (ws_items s) = (xs, os)" by fastforce
  have ok: "orders_ok os \<and> (\<forall>y\<in>set xs. is_finite (i_order y))"
    using order_typed_items_ok [OF _ assms(2) xs] by simp
  have "\<forall>a\<in>set (fst (order_typed_activities os (map (\<lambda>a. a\<lparr>a_patches := map legacy_patch (a_patches a)\<rparr>) (ws_activities s)))).
      \<forall>p\<in>set (a_patches a). current_patch p"
    using ok by (intro order_typed_activities_ok) (auto simp: legacy_patch_ok)
  with ok xs assms(1) show ?thesis
    by (simp add: normalize_typed_def legacy_state_def order_state_def current_state_def Let_def)
qed

end
