(* ===== verification/Sync.thy ===== *)
theory Sync
  imports Workspace_Access Retention_Facts Quotas History_Facts Migration_Facts
begin

text \<open>
  The synchronisation of a batch of commands with the stored snapshot
  (\<open>src/server/sync-service.ts\<close>): load the snapshot, apply the commands one after the other,
  write the outcome back if the stored revision has not moved, and start over otherwise.

  The store is a parameter: its \<open>load\<close> and \<open>compareAndSwap\<close> are the arguments \<open>load\<close> and
  \<open>cas\<close>.  Each call of the store is one step of the client, so that other clients can act
  between them.
\<close>

section \<open>Receipts\<close>

datatype receipt_status = Receipt_applied | Receipt_duplicate | Receipt_rejected

datatype rejection =
    Rejected_quota quota_exceeded
  | Rejected_conflicts "sync_conflict list"
  | Rejected_code error_code
  | Rejected_access string

record sync_receipt =
  rc_commandId :: string
  rc_rejection :: "rejection option"
  rc_revision :: jsnum
  rc_status :: receipt_status

record batch =
  b_state :: wstate
  b_usage :: quota_usage
  b_receipts :: "sync_receipt list"
  b_applied :: bool

abbreviation revision :: "wstate \<Rightarrow> jsnum" where
  "revision s \<equiv> w_revision (ws_workspace s)"

definition start_batch :: "wstate \<Rightarrow> batch" where
  "start_batch s =
     \<lparr>b_state = s, b_usage = snapshot_quota_usage (json_of_state s), b_receipts = [], b_applied = False\<rparr>"

definition add_receipt :: "string \<Rightarrow> receipt_status \<Rightarrow> rejection option \<Rightarrow> batch \<Rightarrow> batch" where
  "add_receipt c st why b =
     b\<lparr>b_receipts := b_receipts b @
         [\<lparr>rc_commandId = c, rc_rejection = why, rc_revision = revision (b_state b), rc_status = st\<rparr>]\<rparr>"

section \<open>One command\<close>

definition was_applied :: "wstate \<Rightarrow> string \<Rightarrow> bool" where
  "was_applied s c \<longleftrightarrow>
     c \<in> set (ws_commandReceipts s) \<or> list_ex (\<lambda>a. a_commandId a = c) (ws_activities s) \<or>
     list_ex (\<lambda>u. u_id u = ''audit_'' @ c) (ws_audit s)"

definition receipt_name :: "envelope \<Rightarrow> nat \<Rightarrow> string" where
  "receipt_name e n = (if e_id e \<noteq> [] then e_id e else ''invalid-command-'' @ digits_of (n + 1))"

definition snapshot_limits :: retention_limits where
  "snapshot_limits =
     \<lparr>lim_activities = api_quota Activities, lim_activityPatches = api_quota Activity_patches,
      lim_auditEvents = api_quota Audit_events, lim_commandReceipts = api_quota Command_receipts,
      lim_serializedBytes = api_quota Stored_bytes\<rparr>"

text \<open>A base revision that counts the earlier commands of the batch is brought down to the state's.\<close>

definition rebase :: "wstate \<Rightarrow> batch \<Rightarrow> envelope \<Rightarrow> envelope" where
  "rebase initial b e =
     (if js_less (revision (b_state b)) (e_baseRevision e) \<and>
         js_le (e_baseRevision e) (js_add (revision initial) (JsInt (int (length (b_receipts b)))))
      then e\<lparr>e_baseRevision := revision (b_state b)\<rparr> else e)"

definition compact_result :: "command_result \<Rightarrow> wstate" where
  "compact_result r =
     compact_workspace_history (cr_state r) snapshot_limits
       ((case cr_activity r of None \<Rightarrow> [] | Some a \<Rightarrow> [a_id a]) @
        (case cr_audit r of None \<Rightarrow> [] | Some u \<Rightarrow> u_targetActivityIds u))
       (case cr_audit r of None \<Rightarrow> [] | Some u \<Rightarrow> [u_id u])"

text \<open>\<open>None\<close> is an exception that is none of the three expected ones and leaves the function.\<close>

definition process_command :: "(string \<Rightarrow> bool) \<Rightarrow> wstate \<Rightarrow> batch \<Rightarrow> envelope \<Rightarrow> batch option" where
  "process_command dp initial b e =
     (let c = receipt_name e (length (b_receipts b)) in
      if was_applied (b_state b) c then Some (add_receipt c Receipt_duplicate None b)
      else case apply_command dp (b_state b) (rebase initial b e) of
          Inl (DomainError code) \<Rightarrow> Some (add_receipt c Receipt_rejected (Some (Rejected_code code)) b)
        | Inl (ConflictError cs) \<Rightarrow> Some (add_receipt c Receipt_rejected (Some (Rejected_conflicts cs)) b)
        | Inl Unmodelled \<Rightarrow> None
        | Inr r \<Rightarrow>
            (case assert_snapshot_within_quotas (json_of_state (compact_result r)) (Some (b_usage b)) Status_409 of
               Inl q \<Rightarrow> Some (add_receipt c Receipt_rejected (Some (Rejected_quota q)) b)
             | Inr u \<Rightarrow> Some (add_receipt c Receipt_applied None
                 (b\<lparr>b_state := compact_result r, b_usage := u, b_applied := True\<rparr>))))"

fun process_commands :: "(string \<Rightarrow> bool) \<Rightarrow> wstate \<Rightarrow> batch \<Rightarrow> envelope list \<Rightarrow> batch option" where
  "process_commands dp initial b [] = Some b"
| "process_commands dp initial b (e # es) =
     (case process_command dp initial b e of None \<Rightarrow> None | Some b' \<Rightarrow> process_commands dp initial b' es)"

definition process_batch :: "(string \<Rightarrow> bool) \<Rightarrow> wstate \<Rightarrow> envelope list \<Rightarrow> batch option" where
  "process_batch dp s es = process_commands dp s (start_batch s) es"

section \<open>A client of the store\<close>

datatype sync_failure =
    Batch_of_another_workspace | Workspace_missing | Workspace_busy | Unexpected

datatype sync_client =
    Attempting nat
  | Loaded nat wstate
  | Answered "sync_receipt list" wstate
  | Failed sync_failure

record request =
  rq_workspaceId :: string
  rq_commands :: "envelope list"
  rq_maxRetries :: nat

definition default_sync_retries :: nat where
  "default_sync_retries = 8"

definition sync_start :: "request \<Rightarrow> sync_client" where
  "sync_start rq =
     (if list_ex (\<lambda>e. e_workspaceId e \<noteq> rq_workspaceId rq) (rq_commands rq)
      then Failed Batch_of_another_workspace else Attempting 0)"

definition sync_step ::
  "('st \<Rightarrow> string \<Rightarrow> wstate option) \<Rightarrow> ('st \<Rightarrow> string \<Rightarrow> jsnum \<Rightarrow> wstate \<Rightarrow> bool \<times> 'st) \<Rightarrow>
   (string \<Rightarrow> bool) \<Rightarrow> request \<Rightarrow> sync_client \<times> 'st \<Rightarrow> sync_client \<times> 'st" where
  "sync_step load cas dp rq = (\<lambda>(c, st).
     case c of
       Attempting n \<Rightarrow>
         if rq_maxRetries rq \<le> n then (Failed Workspace_busy, st)
         else (case load st (rq_workspaceId rq) of
                 None \<Rightarrow> (Failed Workspace_missing, st) | Some s \<Rightarrow> (Loaded n s, st))
     | Loaded n s \<Rightarrow>
         (case process_batch dp s (rq_commands rq) of
            None \<Rightarrow> (Failed Unexpected, st)
          | Some b \<Rightarrow>
              if \<not> b_applied b then (Answered (b_receipts b) (b_state b), st)
              else let (swapped, st') = cas st (rq_workspaceId rq) (revision s) (b_state b)
                   in (if swapped then Answered (b_receipts b) (b_state b) else Attempting (n + 1), st'))
     | _ \<Rightarrow> (c, st))"

fun sync_steps :: "nat \<Rightarrow> (sync_client \<times> 'st \<Rightarrow> sync_client \<times> 'st) \<Rightarrow> sync_client \<times> 'st \<Rightarrow> sync_client \<times> 'st" where
  "sync_steps 0 f c = c"
| "sync_steps (Suc n) f c = sync_steps n f (f c)"

text \<open>
  \<open>synchronize\<close> with no other client about: the loop runs at most the given number of
  attempts of two steps each, and one step to give up.
\<close>

definition synchronize ::
  "('st \<Rightarrow> string \<Rightarrow> wstate option) \<Rightarrow> ('st \<Rightarrow> string \<Rightarrow> jsnum \<Rightarrow> wstate \<Rightarrow> bool \<times> 'st) \<Rightarrow>
   (string \<Rightarrow> bool) \<Rightarrow> request \<Rightarrow> 'st \<Rightarrow> sync_client \<times> 'st" where
  "synchronize load cas dp rq st =
     sync_steps (2 * rq_maxRetries rq + 1) (sync_step load cas dp rq) (sync_start rq, st)"

end
