(* ===== verification/Sync_Facts.thy ===== *)
theory Sync_Facts
  imports Sync
begin

text \<open>
  Facts about a batch of commands (\<open>src/server/sync-service.ts\<close>): its receipts, the revision it
  reaches, its quotas, the invariant of the workspace, and that a command is recognised when
  it arrives again.
\<close>

section \<open>One command of a batch\<close>

lemma was_applied_known: "was_applied s c \<longleftrightarrow> known s c"
  unfolding was_applied_def known_def audit_name_def list_ex_iff image_iff by metis

lemma add_receipt_sel [simp]:
  "b_state (add_receipt c st why b) = b_state b" "b_usage (add_receipt c st why b) = b_usage b"
  "b_applied (add_receipt c st why b) = b_applied b"
  "b_receipts (add_receipt c st why b) = b_receipts b @
     [\<lparr>rc_commandId = c, rc_rejection = why, rc_revision = revision (b_state b), rc_status = st\<rparr>]"
  by (simp_all add: add_receipt_def)

lemma process_command_cases:
  assumes "process_command dp initial b e = Some b'"
  obtains (duplicate) "known (b_state b) (receipt_name e (length (b_receipts b)))"
      "b' = add_receipt (receipt_name e (length (b_receipts b))) Receipt_duplicate None b"
  | (rejected) why where "\<not> known (b_state b) (receipt_name e (length (b_receipts b)))"
      "b' = add_receipt (receipt_name e (length (b_receipts b))) Receipt_rejected (Some why) b"
  | (applied) r u where "\<not> known (b_state b) (receipt_name e (length (b_receipts b)))"
      "apply_command dp (b_state b) (rebase initial b e) = Inr r"
      "assert_snapshot_within_quotas (json_of_state (compact_result r)) (Some (b_usage b)) Status_409 = Inr u"
      "b' = add_receipt (receipt_name e (length (b_receipts b))) Receipt_applied None
         (b\<lparr>b_state := compact_result r, b_usage := u, b_applied := True\<rparr>)"
  using assms by (auto simp: process_command_def was_applied_known Let_def split: if_splits sum.splits error.splits)

text \<open>An invariant of every command is an invariant of the batch.\<close>

lemma process_commands_invariant:
  assumes "process_commands dp initial b es = Some b'" and "P b"
    and "\<And>b e b'. e \<in> set es \<Longrightarrow> P b \<Longrightarrow> process_command dp initial b e = Some b' \<Longrightarrow> P b'"
  shows "P b'"
  using assms
proof (induction es arbitrary: b)
  case (Cons e es)
  from Cons.prems(1) obtain b1 where b1: "process_command dp initial b e = Some b1" "process_commands dp initial b1 es = Some b'"
    by (auto split: option.splits)
  have "P b1" using Cons.prems(2) Cons.prems(3) [OF _ _ b1(1)] by simp
  then show ?case by (rule Cons.IH [OF b1(2)]) (use Cons.prems(3) in auto)
qed simp

section \<open>Receipts\<close>

fun receipt_names :: "nat \<Rightarrow> envelope list \<Rightarrow> string list" where
  "receipt_names n [] = []"
| "receipt_names n (e # es) = receipt_name e n # receipt_names (n + 1) es"

lemma process_command_receipt:
  assumes "process_command dp initial b e = Some b'"
  shows "map rc_commandId (b_receipts b') = map rc_commandId (b_receipts b) @ [receipt_name e (length (b_receipts b))]"
    and "length (b_receipts b') = length (b_receipts b) + 1"
  using assms by (cases rule: process_command_cases; simp)+

lemma process_commands_receipts:
  "process_commands dp initial b es = Some b' \<Longrightarrow>
   map rc_commandId (b_receipts b') = map rc_commandId (b_receipts b) @ receipt_names (length (b_receipts b)) es"
proof (induction es arbitrary: b)
  case (Cons e es)
  then obtain b1 where b1: "process_command dp initial b e = Some b1" "process_commands dp initial b1 es = Some b'"
    by (auto split: option.splits)
  from Cons.IH [OF b1(2)] process_command_receipt [OF b1(1)] show ?case by simp
qed simp

section \<open>The revision\<close>

lemma compact_result_workspace [simp]:
  "ws_workspace (compact_result r) = ws_workspace (cr_state r)"
  "wf_state (compact_result r) = wf_state (cr_state r)"
  using compaction_content [of "cr_state r" snapshot_limits] by (simp_all add: compact_result_def content_def)

text \<open>How the state of a batch relates to the state it started from.\<close>

definition advanced :: "wstate \<Rightarrow> batch \<Rightarrow> bool" where
  "advanced s b \<longleftrightarrow>
     w_id (ws_workspace (b_state b)) = w_id (ws_workspace s) \<and>
     b_usage b = snapshot_quota_usage (json_of_state (b_state b)) \<and>
     (let n = length (filter (\<lambda>r. rc_status r = Receipt_applied) (b_receipts b)) in
      (b_applied b \<longleftrightarrow> 0 < n) \<and>
      (if b_applied b
       then is_safe_integer (revision s) \<and> is_safe_integer (revision (b_state b)) \<and>
            num_val (revision (b_state b)) = num_val (revision s) + of_nat n
       else b_state b = s))"

lemma advanced_start: "advanced s (start_batch s)"
  by (simp add: advanced_def start_batch_def)

lemma advanced_step:
  assumes "advanced s b" and "process_command dp initial b e = Some b'"
  shows "advanced s b'"
  using assms(2)
proof (cases rule: process_command_cases)
  case (applied r u)
  have check: "check_revision (b_state b) (normalize_envelope (rebase initial b e)) = Inr ()"
    using apply_command_accepted(3) [OF applied(2)] .
  note step = check_revision_next [OF check] apply_command_revision [OF applied(2)]
  have "is_safe_integer (revision (b_state b))"
    using check by (auto simp: check_revision_def Let_def split: if_splits)
  then show ?thesis
    using assms(1) step applied(3,4) by (auto simp: advanced_def Let_def within_quotas split: if_splits)
qed (use assms(1) in \<open>simp_all add: advanced_def\<close>)

lemma batch_advanced: "process_batch dp s es = Some b \<Longrightarrow> advanced s b"
  unfolding process_batch_def
  by (rule process_commands_invariant [where P = "advanced s"]) (auto simp: advanced_start intro: advanced_step)

lemma safe_integer_less:
  "is_safe_integer a \<Longrightarrow> is_safe_integer b \<Longrightarrow> js_less a b \<longleftrightarrow> num_val a < num_val b"
  by (metis js_less_finite safe_integer_Fin)

lemma batch_revision:
  assumes "process_batch dp s es = Some b" and "b_applied b"
  shows "is_safe_integer (revision s)" and "is_safe_integer (revision (b_state b))"
    and "num_val (revision s) < num_val (revision (b_state b))"
  using batch_advanced [OF assms(1)] assms(2) by (auto simp: advanced_def Let_def)

lemma batch_unchanged: "process_batch dp s es = Some b \<Longrightarrow> \<not> b_applied b \<Longrightarrow> b_state b = s"
  using batch_advanced by (auto simp: advanced_def Let_def)

section \<open>Quotas\<close>

lemma batch_quotas:
  assumes "process_batch dp s es = Some b" and "q \<in> set snapshot_quota_order"
  shows "usage_of (snapshot_quota_usage (json_of_state (b_state b))) q
    \<le> max (api_quota q) (usage_of (snapshot_quota_usage (json_of_state s)) q)"
proof -
  let ?u = "usage_of (snapshot_quota_usage (json_of_state s)) q"
  have "usage_of (b_usage b) q \<le> max (api_quota q) ?u"
    using assms(1) unfolding process_batch_def
  proof (rule process_commands_invariant [where P = "\<lambda>b. usage_of (b_usage b) q \<le> max (api_quota q) ?u"])
    show "usage_of (b_usage (start_batch s)) q \<le> max (api_quota q) ?u" by (simp add: start_batch_def)
  next
    fix b e b' assume "usage_of (b_usage b) q \<le> max (api_quota q) ?u" "process_command dp s b e = Some b'"
    from this(2,1) show "usage_of (b_usage b') q \<le> max (api_quota q) ?u"
    proof (cases rule: process_command_cases)
      case (applied r u)
      then have "\<not> exceeds (Some (b_usage b)) u q" using assms(2) unfolding within_quotas by blast
      then show "usage_of (b_usage b) q \<le> max (api_quota q) ?u \<Longrightarrow> ?thesis"
        using applied(4) within_quotas_trans by simp
    qed simp_all
  qed
  then show ?thesis using batch_advanced [OF assms(1)] by (simp add: advanced_def)
qed

section \<open>The invariant of the workspace\<close>

lemma rebase_command [simp]: "e_command (rebase initial b e) = e_command e" "e_id (rebase initial b e) = e_id e"
  by (simp_all add: rebase_def)

lemma batch_preserves:
  assumes "process_batch dp s es = Some b" and "wf_state s" and "\<forall>e\<in>set es. ordinary e"
  shows "wf_state (b_state b)"
  using assms(1) unfolding process_batch_def
proof (rule process_commands_invariant [where P = "\<lambda>b. wf_state (b_state b)"])
  show "wf_state (b_state (start_batch s))" using assms(2) by (simp add: start_batch_def)
next
  fix b e b' assume e: "e \<in> set es" "wf_state (b_state b)" and p: "process_command dp s b e = Some b'"
  from p e(2) show "wf_state (b_state b')"
  proof (cases rule: process_command_cases)
    case (applied r u)
    have "wf_state (cr_state r)"
      using apply_command_preserves [OF applied(2)] e assms(3) by (simp add: ordinary_def)
    then show ?thesis using applied(4) by simp
  qed simp_all
qed

section \<open>Base revisions\<close>

text \<open>A command whose base counts the earlier commands of its batch is never ahead of the state.\<close>

lemma js_less_irrefl [simp]: "\<not> js_less x x"
  by (cases x) simp_all

lemma rebase_not_ahead:
  assumes "js_le (e_baseRevision e) (js_add (revision s) (JsInt (int (length (b_receipts b)))))"
  shows "\<not> js_less (revision (b_state b)) (e_baseRevision (rebase s b e))"
  using assms by (auto simp: rebase_def js_less_irrefl)

section \<open>Repeated commands\<close>

text \<open>A state within all limits is not compacted.\<close>

definition within_limits :: "retention_limits \<Rightarrow> wstate \<Rightarrow> bool" where
  "within_limits lims s \<longleftrightarrow>
     length (ws_activities s) \<le> lim_activities lims \<and> patch_count (ws_activities s) \<le> lim_activityPatches lims \<and>
     length (ws_audit s) \<le> lim_auditEvents lims \<and> length (ws_commandReceipts s) \<le> lim_commandReceipts lims \<and>
     state_bytes s \<le> lim_serializedBytes lims"

lemma within_limits_compact:
  assumes "within_limits lims s"
  shows "compact_workspace_history s lims ka ku = s"
proof -
  have "with_command_receipts s [] (lim_commandReceipts lims) = s"
    using assms by (simp add: with_command_receipts_def within_limits_def)
  moreover have "surplus_activities lims (set ka) (length as) (patch_count as) as = []"
    if "length as \<le> lim_activities lims" "patch_count as \<le> lim_activityPatches lims" for as
    using that by (cases as) simp_all
  ultimately show ?thesis
    using assms by (simp add: compact_workspace_history_def Let_def within_limits_def compact_bytes_def)
qed

lemma accepted_known:
  assumes "apply_command dp s e = Inr r" and "known s c"
  shows "known (cr_state r) c"
proof (cases "is_history_command (e_command e)")
  case False
  from accepted_normal [OF assms(1) this] obtain a where
    "ws_activities (cr_state r) = ws_activities s @ [a]" "ws_audit (cr_state r) = ws_audit s"
    "ws_commandReceipts (cr_state r) = ws_commandReceipts s" by metis
  with assms(2) show ?thesis by (auto simp: known_def)
next
  case True
  then have "apply_history_command s (normalize_envelope e) = Inr r"
    using apply_command_accepted(5) [OF assms(1)] by simp
  then obtain as type where a: "set as \<subseteq> set (ws_activities s)"
    "apply_history_action s (normalize_envelope e) type as = Inr r" by (rule history_command_accepted)
  from history_action_accepted [OF a(2,1)] obtain t u where
    r: "cr_state r = bump_revision (e_timestamp (normalize_envelope e)) (t\<lparr>ws_audit := ws_audit s @ [u]\<rparr>)"
      "history_step s t" by metis
  have "map (fst \<circ> snd) (history_of t) = map (fst \<circ> snd) (history_of s)" using r(2) by (simp add: history_step_def)
  then have "map a_commandId (ws_activities t) = map a_commandId (ws_activities s)" by (simp add: history_of_def comp_def)
  then have "a_commandId ` set (ws_activities t) = a_commandId ` set (ws_activities s)" by (metis set_map)
  with assms(2) r show ?thesis by (auto simp: known_def history_step_def bump_revision_def)
qed

lemma accepted_id: "apply_command dp s e = Inr r \<Longrightarrow> e_id e \<noteq> []"
  using apply_command_accepted(1) [of dp s e r] by (auto simp: validate_envelope_def split: if_splits)

text \<open>The command just applied survives the compaction, however full the history is.\<close>

lemma applied_known:
  assumes "apply_command dp s e = Inr r"
  shows "known (compact_result r) (e_id e)"
  using assms
proof (cases rule: accepted_recorded)
  case (1 a)
  then have "a \<in> set (ws_activities (compact_result r))"
    unfolding compact_result_def by (intro compaction_keeps_activity) simp_all
  then show ?thesis using 1(4) unfolding known_def by (metis image_eqI)
next
  case (2 u)
  have "u \<in> set (ws_audit (compact_result r))"
    unfolding compact_result_def
    by (rule compaction_keeps_audit) (use 2 in \<open>auto simp: safe_audit_def\<close>)
  then show ?thesis using 2(4) unfolding known_def audit_name_def by (metis image_eqI)
qed

text \<open>
  A result leaves room when compacting it changes nothing, or when afterwards the receipts are
  not full and some history is left that could still be dropped.  The next lemma shows that
  nothing is forgotten then.
\<close>

abbreviation answered_activities :: "command_result \<Rightarrow> string list" where
  "answered_activities r \<equiv>
     (case cr_activity r of None \<Rightarrow> [] | Some a \<Rightarrow> [a_id a]) @
     (case cr_audit r of None \<Rightarrow> [] | Some u \<Rightarrow> u_targetActivityIds u)"

abbreviation answered_audits :: "command_result \<Rightarrow> string list" where
  "answered_audits r \<equiv> (case cr_audit r of None \<Rightarrow> [] | Some u \<Rightarrow> [u_id u])"

definition roomy :: "command_result \<Rightarrow> bool" where
  "roomy r \<longleftrightarrow>
     compact_result r = cr_state r \<or>
     (length (ws_commandReceipts (compact_result r)) < lim_commandReceipts snapshot_limits \<and>
      \<not> only_protected (set (answered_activities r)) (set (answered_audits r)) (compact_result r))"

lemma roomy_known:
  assumes "roomy r" and "known (cr_state r) c" and "c \<noteq> []"
  shows "known (compact_result r) c"
  using compaction_remembers [OF assms(2,3), of snapshot_limits "answered_activities r" "answered_audits r"] assms
  unfolding roomy_def compact_result_def by fastforce

lemma within_limits_roomy: "within_limits snapshot_limits (cr_state r) \<Longrightarrow> roomy r"
  unfolding roomy_def compact_result_def by (intro disjI1 within_limits_compact)

text \<open>The results the batch accepts, before they are compacted.\<close>

fun batch_results :: "(string \<Rightarrow> bool) \<Rightarrow> wstate \<Rightarrow> batch \<Rightarrow> envelope list \<Rightarrow> command_result list" where
  "batch_results dp initial b [] = []"
| "batch_results dp initial b (e # es) =
     (case apply_command dp (b_state b) (rebase initial b e) of Inl err \<Rightarrow> [] | Inr r \<Rightarrow> [r]) @
     (case process_command dp initial b e of None \<Rightarrow> [] | Some b' \<Rightarrow> batch_results dp initial b' es)"

text \<open>The states the batch goes through.\<close>

fun batch_states :: "(string \<Rightarrow> bool) \<Rightarrow> wstate \<Rightarrow> batch \<Rightarrow> envelope list \<Rightarrow> wstate list" where
  "batch_states dp initial b [] = [b_state b]"
| "batch_states dp initial b (e # es) =
     b_state b # (case process_command dp initial b e of None \<Rightarrow> [] | Some b' \<Rightarrow> batch_states dp initial b' es)"

lemma first_batch_state [simp]: "b_state b \<in> set (batch_states dp initial b es)"
  by (cases es) simp_all

lemma receipt_name_nonempty [simp]: "receipt_name e n \<noteq> []"
  by (simp add: receipt_name_def)

lemma receipt_name_id [simp]: "e_id e \<noteq> [] \<Longrightarrow> receipt_name e n = e_id e"
  by (simp add: receipt_name_def)

text \<open>What is acknowledged was applied: before the batch or in it, whatever compaction did later.\<close>

lemma acknowledged_applied:
  assumes "process_commands dp initial b es = Some b'" and "r \<in> set (b_receipts b')" and "rc_status r \<noteq> Receipt_rejected"
  shows "r \<in> set (b_receipts b) \<or> (\<exists>t\<in>set (batch_states dp initial b es). known t (rc_commandId r))"
  using assms(1,2)
proof (induction es arbitrary: b)
  case (Cons e es)
  from Cons.prems(1) obtain b1 where b1: "process_command dp initial b e = Some b1" "process_commands dp initial b1 es = Some b'"
    by (auto split: option.splits)
  have new: "known (b_state b) (rc_commandId r) \<or> known (b_state b1) (rc_commandId r)"
    if "r \<in> set (b_receipts b1)" "r \<notin> set (b_receipts b)"
    using b1(1)
  proof (cases rule: process_command_cases)
    case (applied q u)
    have "e_id e \<noteq> []" using accepted_id [OF applied(2)] by simp
    then show ?thesis using applied_known [OF applied(2)] applied(4) that by simp
  qed (use that assms(3) in auto)
  from Cons.IH [OF b1(2) Cons.prems(2)] new show ?case
    using first_batch_state [of b1 dp initial es] by (auto simp: b1(1))
qed simp

definition acknowledged :: "batch \<Rightarrow> bool" where
  "acknowledged b \<longleftrightarrow>
     (\<forall>r\<in>set (b_receipts b). rc_status r \<noteq> Receipt_rejected \<longrightarrow>
        rc_commandId r \<noteq> [] \<and> known (b_state b) (rc_commandId r))"

lemma acknowledged_step:
  assumes "acknowledged b" and "process_command dp initial b e = Some b'"
    and "\<And>r. apply_command dp (b_state b) (rebase initial b e) = Inr r \<Longrightarrow> roomy r"
  shows "acknowledged b'"
  using assms(2)
proof (cases rule: process_command_cases)
  case (applied r u)
  have "known (b_state b) c \<Longrightarrow> c \<noteq> [] \<Longrightarrow> known (b_state b') c" for c
    using roomy_known [OF assms(3) [OF applied(2)] accepted_known [OF applied(2)]] applied(4) by simp
  moreover have "known (b_state b') (e_id e)" using applied_known [OF applied(2)] applied(4) by simp
  moreover have "e_id e \<noteq> []" using accepted_id [OF applied(2)] by simp
  ultimately show ?thesis using assms(1) applied(4) by (auto simp: acknowledged_def)
qed (use assms(1) in \<open>auto simp: acknowledged_def\<close>)

lemma commands_acknowledged:
  assumes "process_commands dp initial b es = Some b'" and "acknowledged b"
    and "\<forall>r\<in>set (batch_results dp initial b es). roomy r"
  shows "acknowledged b'"
  using assms
proof (induction es arbitrary: b)
  case (Cons e es)
  from Cons.prems(1) obtain b1 where b1: "process_command dp initial b e = Some b1" "process_commands dp initial b1 es = Some b'"
    by (auto split: option.splits)
  have "acknowledged b1"
    by (rule acknowledged_step [OF Cons.prems(2) b1(1)]) (use Cons.prems(3) in simp)
  then show ?case by (rule Cons.IH [OF b1(2)]) (use Cons.prems(3) b1(1) in simp)
qed simp

text \<open>Known commands are answered as duplicates and change nothing.\<close>

lemma known_commands:
  assumes "\<forall>c\<in>set (receipt_names (length (b_receipts b)) es). known (b_state b) c"
  shows "\<exists>b'. process_commands dp initial b es = Some b' \<and> b_state b' = b_state b \<and> b_applied b' = b_applied b \<and>
    (\<exists>rs. b_receipts b' = b_receipts b @ rs \<and> map rc_commandId rs = receipt_names (length (b_receipts b)) es \<and>
      (\<forall>r\<in>set rs. rc_status r = Receipt_duplicate))"
  using assms
proof (induction es arbitrary: b)
  case (Cons e es)
  let ?c = "receipt_name e (length (b_receipts b))"
  let ?b = "add_receipt ?c Receipt_duplicate None b"
  have "process_command dp initial b e = Some ?b"
    using Cons.prems by (simp add: process_command_def was_applied_known Let_def)
  moreover obtain b' rs where "process_commands dp initial ?b es = Some b'" "b_state b' = b_state b"
    "b_applied b' = b_applied b" "b_receipts b' = b_receipts ?b @ rs"
    "map rc_commandId rs = receipt_names (length (b_receipts ?b)) es"
    "\<forall>r\<in>set rs. rc_status r = Receipt_duplicate"
    using Cons.IH [of ?b] Cons.prems by auto
  ultimately show ?case by simp
qed simp

lemma retry_known:
  assumes "process_batch dp s es = Some b" and "\<forall>r\<in>set (batch_results dp s (start_batch s) es). roomy r"
    and "\<forall>r\<in>set (b_receipts b). rc_status r \<noteq> Receipt_rejected"
  shows "map rc_commandId (b_receipts b) = receipt_names 0 es" and "\<forall>c\<in>set (receipt_names 0 es). known (b_state b) c"
proof -
  have "acknowledged (start_batch s)" by (simp add: acknowledged_def start_batch_def)
  with assms(1,2) have ack: "acknowledged b"
    unfolding process_batch_def by (intro commands_acknowledged [of dp s "start_batch s" es b])
  show names: "map rc_commandId (b_receipts b) = receipt_names 0 es"
    using process_commands_receipts [OF assms(1) [unfolded process_batch_def]] by (simp add: start_batch_def)
  show "\<forall>c\<in>set (receipt_names 0 es). known (b_state b) c"
    unfolding names [symmetric] using ack assms(3) by (auto simp: acknowledged_def)
qed

lemma process_batch_known:
  assumes "\<forall>c\<in>set (receipt_names 0 es). known s c"
  shows "\<exists>b. process_batch dp s es = Some b \<and> b_state b = s \<and> \<not> b_applied b \<and>
    map rc_commandId (b_receipts b) = receipt_names 0 es \<and> (\<forall>r\<in>set (b_receipts b). rc_status r = Receipt_duplicate)"
  using known_commands [of "start_batch s" es dp s] assms by (auto simp: process_batch_def start_batch_def)

end
