(* ===== verification/Snapshot_Store.thy ===== *)
theory Snapshot_Store
  imports Sync_Facts
begin

text \<open>
  The store of snapshots (\<open>src/server/storage.ts\<close>) and several clients that synchronise with it
  at the same time.  The locale \<open>snapshot_store\<close> states what the synchronisation relies on; the
  memory store of the program is an instance.  Its lemmas show that the interleaved clients
  implement atomic batches: no client overwrites a snapshot it has not seen.
\<close>

section \<open>The memory store\<close>

type_synonym memory_store = "string \<Rightarrow> wstate option"

definition normalized_clone :: "wstate \<Rightarrow> wstate" where
  "normalized_clone s = normalize_typed s"

definition memory_store :: "wstate list \<Rightarrow> memory_store" where
  "memory_store ss = foldl (\<lambda>m s. m(w_id (ws_workspace s) \<mapsto> normalized_clone s)) Map.empty ss"

definition memory_load :: "memory_store \<Rightarrow> string \<Rightarrow> wstate option" where
  "memory_load m w = map_option normalized_clone (m w)"

definition memory_compare_and_swap :: "memory_store \<Rightarrow> string \<Rightarrow> jsnum \<Rightarrow> wstate \<Rightarrow> bool \<times> memory_store" where
  "memory_compare_and_swap m w r t =
     (case m w of
        None \<Rightarrow> (False, m)
      | Some s \<Rightarrow> if \<not> js_eq (revision s) r then (False, m) else (True, m(w \<mapsto> normalized_clone t)))"

definition memory_replace :: "memory_store \<Rightarrow> string \<Rightarrow> jsnum \<Rightarrow> wstate \<Rightarrow> bool \<times> memory_store" where
  "memory_replace m w r t = memory_compare_and_swap m w r t"

datatype initialized = Created | Deleted | Exists

definition memory_initialize :: "memory_store \<Rightarrow> wstate \<Rightarrow> initialized \<times> memory_store" where
  "memory_initialize m s =
     (if m (w_id (ws_workspace s)) \<noteq> None then (Exists, m)
      else (Created, m(w_id (ws_workspace s) \<mapsto> normalized_clone s)))"

section \<open>Several clients\<close>

type_synonym 'st system = "(request \<times> sync_client) list \<times> 'st"

inductive system_step ::
  "('st \<Rightarrow> string \<Rightarrow> wstate option) \<Rightarrow> ('st \<Rightarrow> string \<Rightarrow> jsnum \<Rightarrow> wstate \<Rightarrow> bool \<times> 'st) \<Rightarrow>
   (string \<Rightarrow> bool) \<Rightarrow> 'st system \<Rightarrow> 'st system \<Rightarrow> bool"
  for load cas dp where
  client_acts: "i < length cs \<Longrightarrow> cs ! i = (rq, c) \<Longrightarrow> sync_step load cas dp rq (c, st) = (c', st') \<Longrightarrow>
    system_step load cas dp (cs, st) (cs[i := (rq, c')], st')"

inductive_cases system_stepE: "system_step load cas dp (cs, st) (cs', st')"

inductive system_run ::
  "('st \<Rightarrow> string \<Rightarrow> wstate option) \<Rightarrow> ('st \<Rightarrow> string \<Rightarrow> jsnum \<Rightarrow> wstate \<Rightarrow> bool \<times> 'st) \<Rightarrow>
   (string \<Rightarrow> bool) \<Rightarrow> 'st system \<Rightarrow> 'st system \<Rightarrow> bool"
  for load cas dp where
  run_refl: "system_run load cas dp sys sys"
| run_step: "system_run load cas dp sys sys' \<Longrightarrow> system_step load cas dp sys' sys'' \<Longrightarrow> system_run load cas dp sys sys''"

text \<open>The specification: a batch is applied to the current snapshot in one step.\<close>

definition atomic_batch ::
  "(wstate \<Rightarrow> wstate) \<Rightarrow> (string \<Rightarrow> bool) \<Rightarrow> envelope list set \<Rightarrow>
   (string \<Rightarrow> wstate option) \<Rightarrow> (string \<Rightarrow> wstate option) \<Rightarrow> bool" where
  "atomic_batch tidy dp batches snap snap' \<longleftrightarrow>
     (\<exists>w s es b. es \<in> batches \<and> snap w = Some s \<and> process_batch dp s es = Some b \<and> b_applied b \<and>
        snap' = snap(w \<mapsto> tidy (b_state b)))"

definition requested :: "(request \<times> sync_client) list \<Rightarrow> envelope list set" where
  "requested cs = (\<lambda>(rq, c). rq_commands rq) ` set cs"

section \<open>What a store promises\<close>

locale snapshot_store =
  fixes load :: "'st \<Rightarrow> string \<Rightarrow> wstate option"
    and cas :: "'st \<Rightarrow> string \<Rightarrow> jsnum \<Rightarrow> wstate \<Rightarrow> bool \<times> 'st"
    and tidy :: "wstate \<Rightarrow> wstate"
  assumes cas_refused: "cas st w r t = (False, st') \<Longrightarrow> load st' = load st"
    and cas_matched: "cas st w r t = (True, st') \<Longrightarrow> \<exists>s. load st w = Some s \<and> js_eq (revision s) r"
    and cas_written: "cas st w r t = (True, st') \<Longrightarrow> load st' = (load st)(w \<mapsto> tidy t)"
    and cas_current: "load st w = Some s \<Longrightarrow> js_eq (revision s) r \<Longrightarrow> fst (cas st w r t)"
    and tidy_workspace: "ws_workspace (tidy t) = ws_workspace t"
    and tidy_wf: "wf_state (tidy t) = wf_state t"
begin

text \<open>
  What a client has loaded is either still the snapshot or older than it; the revision tells
  the two apart.
\<close>

definition fresh :: "'st system \<Rightarrow> bool" where
  "fresh sys \<longleftrightarrow>
     (\<forall>(rq, c)\<in>set (fst sys). \<forall>n s. c = Loaded n s \<longrightarrow>
        (\<exists>t. load (snd sys) (rq_workspaceId rq) = Some t \<and> (t = s \<or> num_val (revision s) < num_val (revision t))))"

lemma freshD:
  "fresh (cs, st) \<Longrightarrow> (rq, Loaded n s) \<in> set cs \<Longrightarrow>
   \<exists>t. load st (rq_workspaceId rq) = Some t \<and> (t = s \<or> num_val (revision s) < num_val (revision t))"
  unfolding fresh_def by fastforce

lemma fresh_start: "fresh (map (\<lambda>rq. (rq, sync_start rq)) rqs, st)"
  by (auto simp: fresh_def sync_start_def)

text \<open>A client that writes replaces exactly the snapshot it loaded.\<close>

lemma swap_unseen:
  assumes "fresh (cs, st)" and "(rq, Loaded n s) \<in> set cs"
    and "cas st (rq_workspaceId rq) (revision s) t = (True, st')"
  shows "load st (rq_workspaceId rq) = Some s"
proof -
  obtain u where u: "load st (rq_workspaceId rq) = Some u" "js_eq (revision u) (revision s)"
    using cas_matched [OF assms(3)] by blast
  then show ?thesis using freshD [OF assms(1,2)] js_eq_num_val [OF u(2)] by auto
qed

lemma client_outcome:
  assumes "sync_step load cas dp rq (c, st) = (c', st')"
  obtains (quiet) "load st' = load st"
      "\<And>n s. c' = Loaded n s \<Longrightarrow> c = c' \<or> load st (rq_workspaceId rq) = Some s"
  | (swapped) n s b where "c = Loaded n s" "process_batch dp s (rq_commands rq) = Some b" "b_applied b"
      "cas st (rq_workspaceId rq) (revision s) (b_state b) = (True, st')" "c' = Answered (b_receipts b) (b_state b)"
proof (cases c)
  case (Attempting n)
  then show thesis using assms quiet by (auto simp: sync_step_def split: if_splits option.splits)
next
  case (Loaded n s)
  show thesis
  proof (cases "process_batch dp s (rq_commands rq)")
    case None
    then show thesis using assms quiet Loaded by (auto simp: sync_step_def)
  next
    case (Some b)
    show thesis
    proof (cases "b_applied b")
      case False
      then show thesis using assms quiet Loaded Some by (auto simp: sync_step_def)
    next
      case True
      obtain ok u where ou: "cas st (rq_workspaceId rq) (revision s) (b_state b) = (ok, u)" by fastforce
      show thesis
      proof (cases ok)
        case True
        then show thesis using assms swapped [OF Loaded Some \<open>b_applied b\<close>] ou Loaded Some \<open>b_applied b\<close>
          by (simp add: sync_step_def)
      next
        case False
        then have "load u = load st" using ou cas_refused by simp
        moreover have "st' = u" "c' = Attempting (n + 1)"
          using assms ou Loaded Some \<open>b_applied b\<close> False by (auto simp: sync_step_def)
        ultimately show thesis using quiet by auto
      qed
    qed
  qed
qed (use assms quiet in \<open>auto simp: sync_step_def\<close>)

lemma fresh_quiet:
  assumes "fresh (cs, st)" and "load st' = load st" and "i < length cs" and "cs ! i = (rq, c)"
    and "\<And>n s. c' = Loaded n s \<Longrightarrow> c = c' \<or> load st (rq_workspaceId rq) = Some s"
  shows "fresh (cs[i := (rq, c')], st')"
proof -
  have "\<exists>t. load st' (rq_workspaceId rq') = Some t \<and> (t = s \<or> num_val (revision s) < num_val (revision t))"
    if m: "(rq', Loaded n s) \<in> set (cs[i := (rq, c')])" for rq' n s
  proof (cases "(rq', Loaded n s) \<in> set cs")
    case True then show ?thesis using freshD [OF assms(1)] assms(2) by simp
  next
    case False
    then have "rq' = rq" "c' = Loaded n s" using m set_update_subset_insert by fastforce+
    moreover from this False have "c \<noteq> c'" using assms(3,4) by (metis nth_mem)
    ultimately show ?thesis using assms(2,5) by auto
  qed
  then show ?thesis unfolding fresh_def by auto
qed

lemma swap_atomic:
  assumes "fresh (cs, st)" and "(rq, Loaded n s) \<in> set cs" and "process_batch dp s (rq_commands rq) = Some b" and "b_applied b"
    and "cas st (rq_workspaceId rq) (revision s) (b_state b) = (True, st')"
  shows "atomic_batch tidy dp (requested cs) (load st) (load st')"
proof -
  have "rq_commands rq \<in> requested cs" using assms(2) by (force simp: requested_def)
  then show ?thesis
    using swap_unseen [OF assms(1,2,5)] cas_written [OF assms(5)] assms(3,4) unfolding atomic_batch_def by blast
qed

lemma fresh_swapped:
  assumes "fresh (cs, st)" and "(rq, Loaded n s) \<in> set cs" and "process_batch dp s (rq_commands rq) = Some b" and "b_applied b"
    and "cas st (rq_workspaceId rq) (revision s) (b_state b) = (True, st')"
  shows "fresh (cs[i := (rq, Answered rs t)], st')"
proof -
  let ?w = "rq_workspaceId rq"
  have now: "load st ?w = Some s" by (rule swap_unseen [OF assms(1,2,5)])
  have up: "num_val (revision s) < num_val (revision (tidy (b_state b)))"
    using batch_revision(3) [OF assms(3,4)] by (simp add: tidy_workspace)
  have "\<exists>t. load st' (rq_workspaceId rq') = Some t \<and> (t = s' \<or> num_val (revision s') < num_val (revision t))"
    if m: "(rq', Loaded n' s') \<in> set (cs[i := (rq, Answered rs t)])" for rq' n' s'
  proof -
    have "(rq', Loaded n' s') \<in> set cs" using m set_update_subset_insert by fastforce
    from freshD [OF assms(1) this] obtain u where
      u: "load st (rq_workspaceId rq') = Some u" "u = s' \<or> num_val (revision s') < num_val (revision u)" by blast
    show ?thesis
    proof (cases "rq_workspaceId rq' = ?w")
      case True
      then have "u = s" using u(1) now by simp
      then show ?thesis using u(2) up True cas_written [OF assms(5)] by auto
    next
      case False then show ?thesis using u cas_written [OF assms(5)] by simp
    qed
  qed
  then show ?thesis unfolding fresh_def by auto
qed

lemma system_step_refines:
  assumes "system_step load cas dp (cs, st) (cs', st')" and "fresh (cs, st)"
  shows "fresh (cs', st')" and "requested cs' = requested cs"
    and "load st' = load st \<or> atomic_batch tidy dp (requested cs) (load st) (load st')"
proof -
  from assms(1) obtain i rq c c' where i: "i < length cs" "cs ! i = (rq, c)"
    and step: "sync_step load cas dp rq (c, st) = (c', st')" and cs': "cs' = cs[i := (rq, c')]"
    by (auto elim: system_stepE)
  have mem: "(rq, c) \<in> set cs" using i by (metis nth_mem)
  have "map fst cs' = map fst cs" using i by (simp add: cs' map_update list_update_same_conv)
  moreover have "requested ds = rq_commands ` set (map fst ds)" for ds by (force simp: requested_def)
  ultimately show "requested cs' = requested cs" by metis
  from step show "fresh (cs', st')"
    by (cases rule: client_outcome) (use assms(2) i mem in \<open>auto simp: cs' intro: fresh_quiet fresh_swapped\<close>)
  from step show "load st' = load st \<or> atomic_batch tidy dp (requested cs) (load st) (load st')"
    by (cases rule: client_outcome) (use assms(2) mem in \<open>auto intro: swap_atomic\<close>)
qed

text \<open>A run of the system is a run of atomic batches, as the snapshots show it.\<close>

lemma system_run_refines:
  assumes "system_run load cas dp (cs, st) (cs', st')" and "fresh (cs, st)"
  shows "fresh (cs', st') \<and> requested cs' = requested cs \<and>
    (atomic_batch tidy dp (requested cs))\<^sup>*\<^sup>* (load st) (load st')"
  using assms
proof (induction "(cs, st)" "(cs', st')" arbitrary: cs' st' rule: system_run.induct)
  case (run_step sys')
  obtain cs1 st1 where sys': "sys' = (cs1, st1)" by fastforce
  with run_step have ih: "fresh (cs1, st1)" "requested cs1 = requested cs"
    "(atomic_batch tidy dp (requested cs))\<^sup>*\<^sup>* (load st) (load st1)" by auto
  note step = system_step_refines [OF run_step(3) [unfolded sys'] ih(1)]
  from step(3) ih(2,3) have "(atomic_batch tidy dp (requested cs))\<^sup>*\<^sup>* (load st) (load st')"
    by (metis rtranclp.rtrancl_into_rtrancl)
  then show ?case using step(1,2) ih(2) by simp
qed simp

lemma atomic_preserves:
  assumes "(atomic_batch tidy dp B)\<^sup>*\<^sup>* m m'" and "\<forall>es\<in>B. \<forall>e\<in>set es. ordinary e"
    and "\<forall>w s. m w = Some s \<longrightarrow> wf_state s"
  shows "\<forall>w s. m' w = Some s \<longrightarrow> wf_state s"
  using assms(1)
proof (induction rule: rtranclp_induct)
  case (step m1 m2)
  then obtain w s es b where b: "es \<in> B" "m1 w = Some s" "process_batch dp s es = Some b" "m2 = m1(w \<mapsto> tidy (b_state b))"
    unfolding atomic_batch_def by blast
  have "wf_state (tidy (b_state b))"
    using batch_preserves [OF b(3)] assms(2) b(1,2) step(3) by (simp add: tidy_wf)
  then show ?case using step(3) b(4) by simp
qed (use assms(3) in simp)

text \<open>Revisions of the stored snapshots only grow.\<close>

lemma atomic_revisions:
  assumes "(atomic_batch tidy dp B)\<^sup>*\<^sup>* m m'" and "m w = Some s"
  shows "\<exists>t. m' w = Some t \<and> (t = s \<or> num_val (revision s) < num_val (revision t))"
  using assms(1)
proof (induction rule: rtranclp_induct)
  case (step m1 m2)
  then obtain w' s' es b where b: "m1 w' = Some s'" "process_batch dp s' es = Some b" "b_applied b" "m2 = m1(w' \<mapsto> tidy (b_state b))"
    unfolding atomic_batch_def by blast
  from step(3) obtain t where t: "m1 w = Some t" "t = s \<or> num_val (revision s) < num_val (revision t)" by blast
  show ?case
  proof (cases "w' = w")
    case True
    then have "num_val (revision t) < num_val (revision (tidy (b_state b)))"
      using batch_revision(3) [OF b(2,3)] b(1) t(1) by (simp add: tidy_workspace)
    then show ?thesis using b(4) True t(2) by auto
  qed (use b(4) t in simp)
qed (use assms(2) in simp)

text \<open>Alone with the store, a client that finds its workspace is never turned away.\<close>

lemma alone_answered:
  assumes "load st (rq_workspaceId rq) = Some s" and "process_batch dp s (rq_commands rq) = Some b"
    and "0 < rq_maxRetries rq" and "sync_start rq = Attempting 0"
  shows "\<exists>st'. synchronize load cas dp rq st = (Answered (b_receipts b) (b_state b), st') \<and>
    load st' = (if b_applied b then (load st)(rq_workspaceId rq \<mapsto> tidy (b_state b)) else load st)"
proof -
  let ?f = "sync_step load cas dp rq"
  have stay: "sync_steps n ?f (Answered rs t, u) = (Answered rs t, u)" for n rs t u
    by (induction n) (simp_all add: sync_step_def)
  obtain k where k: "2 * rq_maxRetries rq + 1 = Suc (Suc k)" using assms(3) by (cases "rq_maxRetries rq") auto
  have first: "?f (Attempting 0, st) = (Loaded 0 s, st)" using assms(1,3) by (simp add: sync_step_def)
  show ?thesis
  proof (cases "b_applied b")
    case False
    then have "?f (Loaded 0 s, st) = (Answered (b_receipts b) (b_state b), st)" using assms(2) by (simp add: sync_step_def)
    then show ?thesis using k first stay False by (simp add: synchronize_def assms(4))
  next
    case True
    have "is_safe_integer (revision s)" by (rule batch_revision [OF assms(2) True])
    then have "js_eq (revision s) (revision s)" by (intro js_eq_refl) (auto simp: is_safe_integer_def)
    then have "fst (cas st (rq_workspaceId rq) (revision s) (b_state b))" by (rule cas_current [OF assms(1)])
    then obtain st' where st': "cas st (rq_workspaceId rq) (revision s) (b_state b) = (True, st')"
      by (cases "cas st (rq_workspaceId rq) (revision s) (b_state b)") auto
    then have "?f (Loaded 0 s, st) = (Answered (b_receipts b) (b_state b), st')" using assms(2) True by (simp add: sync_step_def)
    then show ?thesis using k first stay True cas_written [OF st'] by (simp add: synchronize_def assms(4))
  qed
qed

end

section \<open>Every client finishes\<close>

text \<open>Other clients act on the store before each step of the client.\<close>

fun disturbed_steps :: "('st \<Rightarrow> 'st) list \<Rightarrow> (sync_client \<times> 'st \<Rightarrow> sync_client \<times> 'st) \<Rightarrow> sync_client \<times> 'st \<Rightarrow> sync_client \<times> 'st" where
  "disturbed_steps [] f c = c"
| "disturbed_steps (g # gs) f (c, st) = disturbed_steps gs f (f (c, g st))"

fun finished :: "sync_client \<Rightarrow> bool" where
  "finished (Answered rs s) = True"
| "finished (Failed e) = True"
| "finished c = False"

fun steps_left :: "nat \<Rightarrow> sync_client \<Rightarrow> nat" where
  "steps_left m (Attempting n) = 2 * (m - n) + 1"
| "steps_left m (Loaded n s) = 2 * (m - n)"
| "steps_left m c = 0"

fun in_bounds :: "nat \<Rightarrow> sync_client \<Rightarrow> bool" where
  "in_bounds m (Loaded n s) = (n < m)"
| "in_bounds m c = True"

lemma step_progress:
  assumes "in_bounds (rq_maxRetries rq) c" and "sync_step load cas dp rq (c, st) = (c', st')"
  shows "in_bounds (rq_maxRetries rq) c'"
    and "finished c \<or> steps_left (rq_maxRetries rq) c' < steps_left (rq_maxRetries rq) c"
    and "finished c \<Longrightarrow> c' = c"
  using assms by (cases c; auto simp: sync_step_def split: if_splits option.splits prod.splits)+

lemma disturbed_finishes:
  assumes "in_bounds (rq_maxRetries rq) c" and "steps_left (rq_maxRetries rq) c \<le> length gs"
  shows "finished (fst (disturbed_steps gs (sync_step load cas dp rq) (c, st)))"
  using assms
proof (induction gs arbitrary: c st)
  case Nil
  then show ?case by (cases c) auto
next
  case (Cons g gs)
  obtain c' st' where step: "sync_step load cas dp rq (c, g st) = (c', st')" by fastforce
  note p = step_progress [OF Cons.prems(1) step]
  have "steps_left (rq_maxRetries rq) c' \<le> length gs"
    using p(2,3) Cons.prems(2) by (cases "finished c") (auto elim: finished.elims)
  then show ?case using Cons.IH [OF p(1)] step by simp
qed

section \<open>The memory store keeps its promises\<close>

text \<open>Normalisation touches nothing that the invariant reads: it may only renumber the items.\<close>

definition unordered :: "item list \<Rightarrow> item list" where
  "unordered xs = map (\<lambda>x. x\<lparr>i_order := Fin 0\<rparr>) xs"

lemma unordered_order_typed: "unordered (fst (order_typed_items os xs)) = unordered xs"
proof (induction xs arbitrary: os)
  case (Cons x xs)
  let ?os = "record_order (Some (i_id x)) (i_locationId x) (item_order (i_locationId x) (Some (i_order x)) os) os"
  show ?case using Cons.IH [of ?os] by (simp add: unordered_def Let_def case_prod_beta)
qed (simp add: unordered_def)

lemma items_ok_unordered: "items_ok ls (unordered xs) = items_ok ls xs"
  by (auto simp: items_ok_def unordered_def comp_def item_ok_def place_ok_def)

lemma empty_ok_unordered: "empty_ok ls (unordered xs) = empty_ok ls xs"
  by (simp add: empty_ok_def unordered_def holds_nothing_def)

lemma wf_normalize_typed: "wf_state (normalize_typed s) = wf_state s"
proof -
  let ?t = "normalize_typed s"
  have same: "ws_locations ?t = ws_locations s" "ws_plans ?t = ws_plans s" "unordered (ws_items ?t) = unordered (ws_items s)"
    using unordered_order_typed
    by (auto simp: normalize_typed_def order_state_def legacy_state_def Let_def split: prod.splits) (metis fst_conv)
  have "items_ok ls (ws_items ?t) = items_ok ls (ws_items s)" "empty_ok ls (ws_items ?t) = empty_ok ls (ws_items s)" for ls
    using same(3) items_ok_unordered empty_ok_unordered by metis+
  then show ?thesis using same by (simp add: wf_state_def)
qed

lemma workspace_normalize_typed: "ws_workspace (normalize_typed s) = ws_workspace s"
  by (simp add: normalize_typed_def order_state_def legacy_state_def Let_def split: prod.splits)

definition memory_tidy :: "wstate \<Rightarrow> wstate" where
  "memory_tidy s = normalized_clone (normalized_clone s)"

interpretation memory: snapshot_store memory_load memory_compare_and_swap memory_tidy
proof unfold_locales
  fix m m' :: memory_store and w r and s t :: wstate
  note defs = memory_load_def memory_compare_and_swap_def memory_tidy_def normalized_clone_def workspace_normalize_typed
  show "memory_load m' = memory_load m" if "memory_compare_and_swap m w r t = (False, m')"
    using that by (auto simp: defs split: option.splits if_splits)
  show "\<exists>s. memory_load m w = Some s \<and> js_eq (revision s) r" if "memory_compare_and_swap m w r t = (True, m')"
    using that by (auto simp: defs split: option.splits if_splits)
  show "memory_load m' = (memory_load m)(w \<mapsto> memory_tidy t)" if "memory_compare_and_swap m w r t = (True, m')"
    using that by (fastforce simp: defs split: option.splits if_splits)
  show "fst (memory_compare_and_swap m w r t)" if "memory_load m w = Some s" "js_eq (revision s) r"
    using that by (auto simp: defs)
qed (simp_all add: memory_tidy_def normalized_clone_def workspace_normalize_typed wf_normalize_typed)

end
