(* ===== verification/D1_Store.thy ===== *)
theory D1_Store
  imports Snapshot_Store
begin

text \<open>
  The snapshot stores on SQL databases (\<open>src/adapters/d1-snapshot-store.ts\<close>, and the plain
  operations of \<open>src/adapters/node-sqlite-snapshot-store.ts\<close>).  A table is an association list
  from its primary key; a statement is the function on the tables that its SQL describes, and it
  runs as one step.  A column that holds the JSON text of a state is the state: its numbers are
  finite and no negative zero, so the text is read back as the same state.

  The refusal of growth over the storage quotas of an account (\<open>snapshotGrowthRefusal\<close>, a long
  query over further tables) is the parameter \<open>growth\<close>; the clock is the parameter \<open>now\<close>.
\<close>

section \<open>Tables\<close>

record user_row =
  ur_active :: bool
  ur_membershipRevision :: jsnum

record snapshot_row =
  sn_accessRevision :: jsnum
  sn_createdAt :: string
  sn_revision :: jsnum
  sn_state :: wstate
  sn_updatedAt :: string

record d1_database =
  db_deletions :: "string list"
  db_members :: "((string \<times> string) \<times> workspace_role) list"
  db_snapshots :: "(string \<times> snapshot_row) list"
  db_users :: "(string \<times> user_row) list"

record snapshot_authorization =
  sa_accessRevision :: jsnum
  sa_membershipRevision :: jsnum
  sa_ownerRequired :: bool
  sa_userId :: string

record authorized_snapshot =
  as_accessRevision :: jsnum
  as_membershipRevision :: jsnum
  as_ownerCount :: nat
  as_role :: workspace_role
  as_state :: wstate
  as_updatedAt :: string

record authorization_state =
  az_accessRevision :: "jsnum option"
  az_active :: bool
  az_deleted :: bool
  az_membershipRevision :: jsnum
  az_role :: "workspace_role option"

datatype store_error =
    Authorization_range | Growth_refused | Stored_authorization_invalid | Stored_revision_mismatch

type_synonym growth = "d1_database \<Rightarrow> string \<Rightarrow> nat \<Rightarrow> bool"

abbreviation snapshot_of :: "d1_database \<Rightarrow> string \<Rightarrow> snapshot_row option" where
  "snapshot_of db w \<equiv> map_of (db_snapshots db) w"

definition is_authorization_revision :: "jsnum \<Rightarrow> bool" where
  "is_authorization_revision v \<longleftrightarrow> is_safe_integer v \<and> js_le (Fin 0) v"

section \<open>Reading\<close>

definition read_state :: "snapshot_row \<Rightarrow> store_error + wstate" where
  "read_state row =
     (let s = normalized_clone (sn_state row)
      in if js_eq (revision s) (sn_revision row) then Inr s else Inl Stored_revision_mismatch)"

definition d1_load :: "d1_database \<Rightarrow> string \<Rightarrow> store_error + wstate option" where
  "d1_load db w =
     (case snapshot_of db w of
        None \<Rightarrow> Inr None
      | Some row \<Rightarrow> and_then (read_state row) (\<lambda>s. Inr (Some s)))"

definition active_user :: "d1_database \<Rightarrow> string \<Rightarrow> user_row option" where
  "active_user db u =
     (case map_of (db_users db) u of None \<Rightarrow> None | Some row \<Rightarrow> if ur_active row then Some row else None)"

definition owner_count :: "d1_database \<Rightarrow> string \<Rightarrow> nat" where
  "owner_count db w =
     length (filter (\<lambda>((w', u), role). w' = w \<and> role = Owner \<and> active_user db u \<noteq> None) (db_members db))"

definition d1_load_authorized :: "d1_database \<Rightarrow> string \<Rightarrow> string \<Rightarrow> store_error + authorized_snapshot option" where
  "d1_load_authorized db w u =
     (case (snapshot_of db w, map_of (db_members db) (w, u), active_user db u) of
        (Some row, Some role, Some user) \<Rightarrow>
          if w \<in> set (db_deletions db) then Inr None
          else if \<not> is_authorization_revision (sn_accessRevision row) \<or>
                  \<not> is_authorization_revision (ur_membershipRevision user)
          then Inl Stored_authorization_invalid
          else and_then (read_state row) (\<lambda>s. Inr (Some
            \<lparr>as_accessRevision = sn_accessRevision row, as_membershipRevision = ur_membershipRevision user,
             as_ownerCount = owner_count db w, as_role = role, as_state = s, as_updatedAt = sn_updatedAt row\<rparr>))
      | _ \<Rightarrow> Inr None)"

definition d1_load_authorization :: "d1_database \<Rightarrow> string \<Rightarrow> string \<Rightarrow> store_error + authorization_state option" where
  "d1_load_authorization db w u =
     (case map_of (db_users db) u of
        None \<Rightarrow> Inr None
      | Some user \<Rightarrow>
          let access = map_option sn_accessRevision (snapshot_of db w);
              role = (if snapshot_of db w = None then None else map_of (db_members db) (w, u))
          in if \<not> is_authorization_revision (ur_membershipRevision user) \<or>
                (case access of None \<Rightarrow> False | Some v \<Rightarrow> \<not> is_authorization_revision v)
             then Inl Stored_authorization_invalid
             else Inr (Some
               \<lparr>az_accessRevision = access, az_active = ur_active user,
                az_deleted = (w \<in> set (db_deletions db)),
                az_membershipRevision = ur_membershipRevision user, az_role = role\<rparr>))"

section \<open>Writing\<close>

text \<open>The \<open>UPDATE\<close> of a row that passes a condition; whether a row changed.\<close>

definition update_snapshot ::
  "(snapshot_row \<Rightarrow> bool) \<Rightarrow> d1_database \<Rightarrow> string \<Rightarrow> jsnum \<Rightarrow> wstate \<Rightarrow> string \<Rightarrow> bool \<times> d1_database" where
  "update_snapshot allowed db w r t now =
     (case snapshot_of db w of
        None \<Rightarrow> (False, db)
      | Some row \<Rightarrow>
          if js_eq (sn_revision row) r \<and> allowed row
          then (True, db\<lparr>db_snapshots := AList.update w
                 (row\<lparr>sn_revision := revision t, sn_state := t, sn_updatedAt := now\<rparr>) (db_snapshots db)\<rparr>)
          else (False, db))"

definition d1_compare_and_swap ::
  "growth \<Rightarrow> d1_database \<Rightarrow> string \<Rightarrow> jsnum \<Rightarrow> wstate \<Rightarrow> string \<Rightarrow> store_error + bool \<times> d1_database" where
  "d1_compare_and_swap growth db w r t now =
     (if growth db w (state_bytes t) then Inl Growth_refused
      else Inr (update_snapshot (\<lambda>_. True) db w r t now))"

text \<open>The condition of the authorised write, read on the tables at the time of the write.\<close>

definition may_write :: "d1_database \<Rightarrow> string \<Rightarrow> snapshot_authorization \<Rightarrow> snapshot_row \<Rightarrow> bool" where
  "may_write db w auth row \<longleftrightarrow>
     w \<notin> set (db_deletions db) \<and>
     (case (map_of (db_members db) (w, sa_userId auth), active_user db (sa_userId auth)) of
        (Some role, Some user) \<Rightarrow>
          (if sa_ownerRequired auth then role = Owner else role = Owner \<or> role = Editor) \<and>
          (js_eq (ur_membershipRevision user) (sa_membershipRevision auth) \<or>
           js_eq (sn_accessRevision row) (sa_accessRevision auth))
      | _ \<Rightarrow> False)"

definition d1_compare_and_swap_authorized ::
  "growth \<Rightarrow> d1_database \<Rightarrow> string \<Rightarrow> jsnum \<Rightarrow> wstate \<Rightarrow> snapshot_authorization \<Rightarrow> string \<Rightarrow>
   store_error + bool \<times> d1_database" where
  "d1_compare_and_swap_authorized growth db w r t auth now =
     (if \<not> is_authorization_revision (sa_accessRevision auth) \<or>
         \<not> is_authorization_revision (sa_membershipRevision auth)
      then Inl Authorization_range
      else if growth db w (state_bytes t) then Inl Growth_refused
      else Inr (update_snapshot (may_write db w auth) db w r t now))"

definition d1_replace ::
  "growth \<Rightarrow> d1_database \<Rightarrow> string \<Rightarrow> jsnum \<Rightarrow> wstate \<Rightarrow> string \<Rightarrow> store_error + bool \<times> d1_database" where
  "d1_replace growth db w r t now = d1_compare_and_swap growth db w r t now"

text \<open>\<open>INSERT OR IGNORE\<close>; a new row has the access revision 0.\<close>

definition d1_initialize :: "d1_database \<Rightarrow> wstate \<Rightarrow> string \<Rightarrow> initialized \<times> d1_database" where
  "d1_initialize db s now =
     (let w = w_id (ws_workspace s) in
      if snapshot_of db w = None \<and> w \<notin> set (db_deletions db)
      then (Created, db\<lparr>db_snapshots := db_snapshots db @
             [(w, \<lparr>sn_accessRevision = Fin 0, sn_createdAt = now, sn_revision = revision s, sn_state = s,
                   sn_updatedAt = now\<rparr>)]\<rparr>)
      else (if w \<in> set (db_deletions db) then Deleted else Exists, db))"

definition d1_delete_if_unclaimed :: "d1_database \<Rightarrow> string \<Rightarrow> jsnum \<Rightarrow> bool \<times> d1_database" where
  "d1_delete_if_unclaimed db w r =
     (case snapshot_of db w of
        None \<Rightarrow> (False, db)
      | Some row \<Rightarrow>
          if js_eq (sn_revision row) r \<and> \<not> list_ex (\<lambda>((w', u), role). w' = w) (db_members db)
          then (True, db\<lparr>db_snapshots := AList.delete w (db_snapshots db)\<rparr>) else (False, db))"

text \<open>\<open>NodeSqliteSnapshotStore\<close> has the same statements and no limit on growth.\<close>

definition sqlite_compare_and_swap ::
  "d1_database \<Rightarrow> string \<Rightarrow> jsnum \<Rightarrow> wstate \<Rightarrow> string \<Rightarrow> bool \<times> d1_database" where
  "sqlite_compare_and_swap db w r t now = update_snapshot (\<lambda>_. True) db w r t now"

section \<open>Stored revisions\<close>

text \<open>Every row is the revision of its state: an invariant of the stores.\<close>

definition revisions_match :: "d1_database \<Rightarrow> bool" where
  "revisions_match db \<longleftrightarrow> (\<forall>w row. snapshot_of db w = Some row \<longrightarrow> sn_revision row = revision (sn_state row))"

lemma revision_normalized [simp]: "revision (normalized_clone s) = revision s"
  by (simp add: normalized_clone_def workspace_normalize_typed)

lemma update_snapshot_cases:
  assumes "update_snapshot allowed db w r t now = (ok, db')"
  obtains (refused) "\<not> ok" "db' = db"
  | (written) row where "ok" "snapshot_of db w = Some row" "js_eq (sn_revision row) r" "allowed row"
      "db' = db\<lparr>db_snapshots := AList.update w
         (row\<lparr>sn_revision := revision t, sn_state := t, sn_updatedAt := now\<rparr>) (db_snapshots db)\<rparr>"
  using assms by (auto simp: update_snapshot_def split: option.splits if_splits)

lemma update_snapshot_match:
  assumes "revisions_match db" and "update_snapshot allowed db w r t now = (ok, db')"
  shows "revisions_match db'"
  using assms(2)
proof (cases rule: update_snapshot_cases)
  case (written row)
  with assms(1) show ?thesis by (auto simp: revisions_match_def update_conv' split: if_splits)
qed (use assms(1) in simp)

lemma read_state_match: "sn_revision row = revision (sn_state row) \<Longrightarrow> revision (sn_state row) \<noteq> NaN \<Longrightarrow>
    read_state row = Inr (normalized_clone (sn_state row))"
  by (simp add: read_state_def Let_def js_eq_refl)

end
