(* ===== verification/Authorized_Sync.thy ===== *)
theory Authorized_Sync
  imports D1_Store
begin

text \<open>
  The synchronisation on behalf of a signed-in account (\<open>src/server/sync-service.ts\<close> with an
  authorisation context) against the SQL store.  Each call of the store is one step of the
  client; between the steps other clients act, and the administration changes users,
  memberships, access revisions and deletion marks.

  The lemmas show that in every interleaving a stored snapshot changes only when the account
  of the writing client may write at that very moment, and then by one whole batch applied to
  the snapshot it replaces.
\<close>

section \<open>Refusals\<close>

record authorization_basis =
  ab_membershipRevision :: jsnum
  ab_workspaceAccessRevision :: jsnum

datatype authorization_failure = Failure_deleted | Failure_inactive | Failure_revoked | Failure_stale | Failure_write

record authorization_context =
  ax_basis :: authorization_basis
  ax_userId :: string

record authorization_refusal =
  rf_authorization :: "authorization_state option"
  rf_failure :: authorization_failure
  rf_receipts :: "sync_receipt list"
  rf_revision :: jsnum

definition authorization_failure_of ::
  "authorization_state option \<Rightarrow> authorization_basis \<Rightarrow> authorization_failure option" where
  "authorization_failure_of auth expected =
     (case auth of
        None \<Rightarrow> Some Failure_inactive
      | Some a \<Rightarrow>
          if \<not> az_active a then Some Failure_inactive
          else if az_deleted a then Some Failure_deleted
          else if az_role a = None then Some Failure_revoked
          else if az_role a = Some Viewer then Some Failure_write
          else if \<not> js_eq (az_membershipRevision a) (ab_membershipRevision expected) \<and>
                  (case az_accessRevision a of
                     None \<Rightarrow> True | Some v \<Rightarrow> \<not> js_eq v (ab_workspaceAccessRevision expected))
          then Some Failure_stale else None)"

fun failure_name :: "authorization_failure \<Rightarrow> string" where
  "failure_name Failure_deleted = ''deleted''"
| "failure_name Failure_inactive = ''inactive''"
| "failure_name Failure_revoked = ''revoked''"
| "failure_name Failure_stale = ''stale''"
| "failure_name Failure_write = ''write''"

text \<open>Every command is answered: a duplicate stays one, everything else is rejected.\<close>

definition authorization_receipts ::
  "envelope list \<Rightarrow> jsnum \<Rightarrow> authorization_failure \<Rightarrow> sync_receipt list \<Rightarrow> sync_receipt list" where
  "authorization_receipts es at_revision why old =
     map (\<lambda>(e, n).
       let c = receipt_name e n;
           rejected_one = \<lparr>rc_commandId = c, rc_rejection = Some (Rejected_access (failure_name why)),
             rc_revision = at_revision, rc_status = Receipt_rejected\<rparr>
       in case List.find (\<lambda>r. rc_commandId r = c) (rev old) of
            None \<Rightarrow> rejected_one
          | Some r \<Rightarrow> if rc_status r = Receipt_duplicate then r else rejected_one)
       (zip es [0..<length es])"

section \<open>A client\<close>

text \<open>
  \<open>A_unavailable\<close>: the authorised load found nothing and the reason is still to be asked for;
  \<open>A_refused_write\<close>: the write was refused and the authorisation is to be asked for again.
\<close>

datatype auth_client =
    A_attempting nat
  | A_unavailable
  | A_loaded nat wstate
  | A_refused_write nat wstate "sync_receipt list"
  | A_answered "sync_receipt list" wstate
  | A_unauthorized authorization_refusal
  | A_failed sync_failure
  | A_store_error store_error

record auth_request =
  ar_context :: authorization_context
  ar_request :: request

definition auth_start :: "auth_request \<Rightarrow> auth_client" where
  "auth_start ar =
     (if list_ex (\<lambda>e. e_workspaceId e \<noteq> rq_workspaceId (ar_request ar)) (rq_commands (ar_request ar))
      then A_failed Batch_of_another_workspace else A_attempting 0)"

definition write_authorization :: "authorization_context \<Rightarrow> snapshot_authorization" where
  "write_authorization ctx =
     \<lparr>sa_accessRevision = ab_workspaceAccessRevision (ax_basis ctx),
      sa_membershipRevision = ab_membershipRevision (ax_basis ctx),
      sa_ownerRequired = False, sa_userId = ax_userId ctx\<rparr>"

definition refuse ::
  "auth_request \<Rightarrow> authorization_state option \<Rightarrow> authorization_failure \<Rightarrow> jsnum \<Rightarrow> sync_receipt list \<Rightarrow> auth_client" where
  "refuse ar auth why at_revision old =
     A_unauthorized
       \<lparr>rf_authorization = auth, rf_failure = why,
        rf_receipts = authorization_receipts (rq_commands (ar_request ar)) at_revision why old,
        rf_revision = at_revision\<rparr>"

definition state_of_authorized :: "authorized_snapshot \<Rightarrow> authorization_state" where
  "state_of_authorized a =
     \<lparr>az_accessRevision = Some (as_accessRevision a), az_active = True, az_deleted = False,
      az_membershipRevision = as_membershipRevision a, az_role = Some (as_role a)\<rparr>"

definition auth_step ::
  "growth \<Rightarrow> (string \<Rightarrow> bool) \<Rightarrow> string \<Rightarrow> auth_request \<Rightarrow> auth_client \<times> d1_database \<Rightarrow> auth_client \<times> d1_database" where
  "auth_step growth dp now ar = (\<lambda>(c, db).
     let ctx = ar_context ar; w = rq_workspaceId (ar_request ar); es = rq_commands (ar_request ar) in
     case c of
       A_attempting n \<Rightarrow>
         if rq_maxRetries (ar_request ar) \<le> n then (A_failed Workspace_busy, db)
         else (case d1_load_authorized db w (ax_userId ctx) of
                 Inl e \<Rightarrow> (A_store_error e, db)
               | Inr None \<Rightarrow> (A_unavailable, db)
               | Inr (Some a) \<Rightarrow>
                   (case (if es = [] then None
                          else authorization_failure_of (Some (state_of_authorized a)) (ax_basis ctx)) of
                      None \<Rightarrow> (A_loaded n (as_state a), db)
                    | Some why \<Rightarrow>
                        (refuse ar (Some (state_of_authorized a)) why (revision (as_state a)) [], db)))
     | A_unavailable \<Rightarrow>
         (case d1_load_authorization db w (ax_userId ctx) of
            Inl e \<Rightarrow> (A_store_error e, db)
          | Inr auth \<Rightarrow>
              (refuse ar auth
                 (case authorization_failure_of auth (ax_basis ctx) of None \<Rightarrow> Failure_revoked | Some why \<Rightarrow> why)
                 (Fin 0) [], db))
     | A_loaded n s \<Rightarrow>
         (case process_batch dp s es of
            None \<Rightarrow> (A_failed Unexpected, db)
          | Some b \<Rightarrow>
              if \<not> b_applied b then (A_answered (b_receipts b) (b_state b), db)
              else (case d1_compare_and_swap_authorized growth db w (revision s) (b_state b)
                           (write_authorization ctx) now of
                      Inl e \<Rightarrow> (A_store_error e, db)
                    | Inr (swapped, db') \<Rightarrow>
                        (if swapped then A_answered (b_receipts b) (b_state b)
                         else A_refused_write n s (b_receipts b), db')))
     | A_refused_write n s rs \<Rightarrow>
         (case d1_load_authorization db w (ax_userId ctx) of
            Inl e \<Rightarrow> (A_store_error e, db)
          | Inr auth \<Rightarrow>
              (case authorization_failure_of auth (ax_basis ctx) of
                 None \<Rightarrow> (A_attempting (n + 1), db)
               | Some why \<Rightarrow> (refuse ar auth why (revision s) rs, db)))
     | _ \<Rightarrow> (c, db))"

section \<open>Clients and administration\<close>

text \<open>The administration may change everything but the state and revision of a stored snapshot.\<close>

definition same_snapshots :: "d1_database \<Rightarrow> d1_database \<Rightarrow> bool" where
  "same_snapshots db db' \<longleftrightarrow>
     (\<forall>w. map_option (\<lambda>r. (sn_revision r, sn_state r)) (snapshot_of db' w) =
          map_option (\<lambda>r. (sn_revision r, sn_state r)) (snapshot_of db w))"

inductive auth_system ::
  "growth \<Rightarrow> (string \<Rightarrow> bool) \<Rightarrow> (auth_request \<times> auth_client) list \<times> d1_database \<Rightarrow>
   (auth_request \<times> auth_client) list \<times> d1_database \<Rightarrow> bool" for growth dp where
  auth_client_acts: "i < length cs \<Longrightarrow> cs ! i = (ar, c) \<Longrightarrow> auth_step growth dp now ar (c, db) = (c', db') \<Longrightarrow>
    auth_system growth dp (cs, db) (cs[i := (ar, c')], db')"
| administration_acts: "same_snapshots db db' \<Longrightarrow> auth_system growth dp (cs, db) (cs, db')"

inductive_cases auth_systemE: "auth_system growth dp (cs, db) (cs', db')"

definition stored :: "d1_database \<Rightarrow> string \<Rightarrow> wstate option" where
  "stored db w = map_option sn_state (snapshot_of db w)"

text \<open>
  An account that may edit: the workspace is not marked as deleted, the account is active and an
  owner or an editor of it, and the membership or the access revision of the basis is current.
\<close>

definition may_edit :: "d1_database \<Rightarrow> string \<Rightarrow> authorization_context \<Rightarrow> snapshot_row \<Rightarrow> bool" where
  "may_edit db w ctx row \<longleftrightarrow>
     w \<notin> set (db_deletions db) \<and> map_of (db_members db) (w, ax_userId ctx) \<in> {Some Owner, Some Editor} \<and>
     (\<exists>user. map_of (db_users db) (ax_userId ctx) = Some user \<and> ur_active user \<and>
        (js_eq (ur_membershipRevision user) (ab_membershipRevision (ax_basis ctx)) \<or>
         js_eq (sn_accessRevision row) (ab_workspaceAccessRevision (ax_basis ctx))))"

lemma may_write_edit: "may_write db w (write_authorization ctx) row \<Longrightarrow> may_edit db w ctx row"
  by (auto simp: may_write_def may_edit_def write_authorization_def active_user_def split: option.splits if_splits)

text \<open>What is written: the batch of a client that may edit, on the snapshot that is stored.\<close>

definition authorized_batch ::
  "(string \<Rightarrow> bool) \<Rightarrow> auth_request set \<Rightarrow> d1_database \<Rightarrow> d1_database \<Rightarrow> bool" where
  "authorized_batch dp ars db db' \<longleftrightarrow>
     (\<exists>ar\<in>ars. \<exists>row b. snapshot_of db (rq_workspaceId (ar_request ar)) = Some row \<and>
        may_edit db (rq_workspaceId (ar_request ar)) (ar_context ar) row \<and>
        process_batch dp (normalized_clone (sn_state row)) (rq_commands (ar_request ar)) = Some b \<and> b_applied b \<and>
        stored db' = (stored db)(rq_workspaceId (ar_request ar) \<mapsto> b_state b))"

section \<open>What a client has loaded\<close>

definition seen :: "auth_client \<Rightarrow> wstate option" where
  "seen c = (case c of A_loaded n s \<Rightarrow> Some s | _ \<Rightarrow> None)"

text \<open>A loaded snapshot is the stored one, or its revision is behind.\<close>

definition not_ahead :: "d1_database \<Rightarrow> string \<Rightarrow> wstate \<Rightarrow> bool" where
  "not_ahead db w s \<longleftrightarrow>
     (\<exists>t. stored db w = Some t \<and> (s = normalized_clone t \<or> num_val (revision s) < num_val (revision t)))"

definition auth_fresh :: "(auth_request \<times> auth_client) list \<times> d1_database \<Rightarrow> bool" where
  "auth_fresh sys \<longleftrightarrow> revisions_match (snd sys) \<and>
     (\<forall>(ar, c)\<in>set (fst sys). \<forall>s. seen c = Some s \<longrightarrow> not_ahead (snd sys) (rq_workspaceId (ar_request ar)) s)"

lemma auth_freshD:
  "auth_fresh (cs, db) \<Longrightarrow> (ar, c) \<in> set cs \<Longrightarrow> seen c = Some s \<Longrightarrow> not_ahead db (rq_workspaceId (ar_request ar)) s"
  unfolding auth_fresh_def by fastforce

lemma auth_fresh_start: "revisions_match db \<Longrightarrow> auth_fresh (map (\<lambda>ar. (ar, auth_start ar)) ars, db)"
  by (auto simp: auth_fresh_def auth_start_def seen_def)

lemma seen_simps [simp]:
  "seen (A_loaded n s) = Some s" "seen (A_attempting n) = None" "seen A_unavailable = None"
  "seen (A_refused_write n s rs) = None" "seen (A_answered rs s) = None" "seen (refuse ar a y v o') = None"
  "seen (A_failed f) = None" "seen (A_store_error e) = None"
  by (simp_all add: seen_def refuse_def)

lemma load_authorized_state:
  assumes "d1_load_authorized db w u = Inr (Some a)"
  shows "\<exists>t. stored db w = Some t \<and> as_state a = normalized_clone t"
  using assms
  by (auto simp: d1_load_authorized_def stored_def and_then_eq_Inr read_state_def Let_def split: option.splits if_splits)

lemma auth_step_outcome:
  assumes "auth_step growth dp now ar (c, db) = (c', db')"
  obtains (quiet) "db' = db" "\<And>s. seen c' = Some s \<Longrightarrow> c' = c \<or>
      (\<exists>t. stored db (rq_workspaceId (ar_request ar)) = Some t \<and> s = normalized_clone t)"
  | (swapped) n s b row where "c = A_loaded n s" "process_batch dp s (rq_commands (ar_request ar)) = Some b" "b_applied b"
      "snapshot_of db (rq_workspaceId (ar_request ar)) = Some row" "js_eq (sn_revision row) (revision s)"
      "may_write db (rq_workspaceId (ar_request ar)) (write_authorization (ar_context ar)) row"
      "update_snapshot (may_write db (rq_workspaceId (ar_request ar)) (write_authorization (ar_context ar)))
         db (rq_workspaceId (ar_request ar)) (revision s) (b_state b) now = (True, db')"
      "seen c' = None"
proof (cases c)
  case (A_attempting n)
  then show thesis using assms quiet load_authorized_state
    by (auto simp: auth_step_def Let_def split: if_splits sum.splits option.splits)
next
  case A_unavailable
  then show thesis using assms quiet by (auto simp: auth_step_def Let_def split: sum.splits)
next
  case (A_refused_write n s rs)
  then show thesis using assms quiet by (auto simp: auth_step_def Let_def split: sum.splits option.splits)
next
  case (A_loaded n s)
  let ?w = "rq_workspaceId (ar_request ar)" and ?auth = "write_authorization (ar_context ar)"
  show thesis
  proof (cases "process_batch dp s (rq_commands (ar_request ar))")
    case None
    then show thesis using assms quiet A_loaded by (auto simp: auth_step_def Let_def)
  next
    case (Some b)
    show thesis
    proof (cases "b_applied b")
      case False
      then show thesis using assms quiet A_loaded Some by (auto simp: auth_step_def Let_def)
    next
      case True
      show thesis
      proof (cases "d1_compare_and_swap_authorized growth db ?w (revision s) (b_state b) ?auth now")
        case (Inl e)
        then show thesis using assms quiet A_loaded Some True by (auto simp: auth_step_def Let_def)
      next
        case (Inr p)
        obtain ok u where p: "p = (ok, u)" by fastforce
        with Inr have up: "update_snapshot (may_write db ?w ?auth) db ?w (revision s) (b_state b) now = (ok, u)"
          by (simp add: d1_compare_and_swap_authorized_def split: if_splits)
        have step: "db' = u" "c' = (if ok then A_answered (b_receipts b) (b_state b) else A_refused_write n s (b_receipts b))"
          using assms A_loaded Some True Inr p by (simp_all add: auth_step_def Let_def)
        from up show thesis
        proof (cases rule: update_snapshot_cases)
          case refused
          then show thesis using quiet step by simp
        next
          case (written row)
          then show thesis using swapped [OF A_loaded Some True written(2-4)] up step by simp
        qed
      qed
    qed
  qed
qed (use assms quiet in \<open>auto simp: auth_step_def Let_def\<close>)

section \<open>Every step is a batch of an account that may write\<close>

lemma same_snapshots_stored: "same_snapshots db db' \<Longrightarrow> stored db' = stored db"
proof
  fix w assume "same_snapshots db db'"
  then have "map_option snd (map_option (\<lambda>r. (sn_revision r, sn_state r)) (snapshot_of db' w)) =
      map_option snd (map_option (\<lambda>r. (sn_revision r, sn_state r)) (snapshot_of db w))"
    unfolding same_snapshots_def by metis
  then show "stored db' w = stored db w" by (simp add: stored_def option.map_comp comp_def)
qed

lemma same_snapshots_match: "same_snapshots db db' \<Longrightarrow> revisions_match db \<Longrightarrow> revisions_match db'"
  unfolding revisions_match_def same_snapshots_def
  by (metis (mono_tags, lifting) map_option_eq_Some prod.inject)

lemma administration_fresh:
  "same_snapshots db db' \<Longrightarrow> auth_fresh (cs, db) \<Longrightarrow> auth_fresh (cs, db')"
  using same_snapshots_stored same_snapshots_match by (simp add: auth_fresh_def not_ahead_def)

lemma swapped_stored:
  "update_snapshot allowed db w r t now = (True, db') \<Longrightarrow> stored db' = (stored db)(w \<mapsto> t)"
  by (erule update_snapshot_cases) (auto simp: stored_def update_conv' fun_eq_iff)

lemma authorized_swap_unseen:
  assumes "revisions_match db" and "not_ahead db w s" and "snapshot_of db w = Some row" and "js_eq (sn_revision row) (revision s)"
  shows "s = normalized_clone (sn_state row)"
proof -
  have "js_eq (revision (sn_state row)) (revision s)" using assms(1,3,4) by (metis revisions_match_def)
  then show ?thesis using js_eq_num_val assms(2,3) by (fastforce simp: not_ahead_def stored_def)
qed

lemma not_ahead_swapped:
  assumes "not_ahead db v s'" and "stored db w = Some t" and "num_val (revision t) < num_val (revision u)"
    and "stored db' = (stored db)(w \<mapsto> u)"
  shows "not_ahead db' v s'"
  using assms by (cases "v = w") (auto simp: not_ahead_def)

lemma fresh_member:
  assumes "i < length cs" and "cs ! i = (ar, c)" and "(ar', c'') \<in> set (cs[i := (ar, c')])"
  shows "(ar', c'') \<in> set cs \<or> ar' = ar \<and> c'' = c'"
  using assms(3) set_update_subset_insert by fastforce

lemma auth_system_safe:
  assumes "auth_system growth dp (cs, db) (cs', db')" and "auth_fresh (cs, db)"
  shows "auth_fresh (cs', db')" and "map fst cs' = map fst cs"
    and "stored db' = stored db \<or> authorized_batch dp (fst ` set cs) db db'"
proof -
  have "auth_fresh (cs', db') \<and> map fst cs' = map fst cs \<and>
      (stored db' = stored db \<or> authorized_batch dp (fst ` set cs) db db')"
  proof -
    from assms(1) consider
        (client) i ar c now c' where "cs' = cs[i := (ar, c')]" "i < length cs" "cs ! i = (ar, c)"
          "auth_step growth dp now ar (c, db) = (c', db')"
      | (administration) "cs' = cs" "same_snapshots db db'"
      by (auto elim: auth_systemE)
    then show ?thesis
  proof cases
    case administration
    then show ?thesis using administration_fresh same_snapshots_stored assms(2) by simp
  next
    case (client i ar c now c')
    have mem: "(ar, c) \<in> set cs" using client(2,3) by (metis nth_mem)
    have names: "map fst cs' = map fst cs" using client(1-3) by (simp add: map_update list_update_same_conv)
    from client(4) show ?thesis
    proof (cases rule: auth_step_outcome)
      case quiet
      have "not_ahead db (rq_workspaceId (ar_request ar')) s"
        if "(ar', c'') \<in> set cs'" "seen c'' = Some s" for ar' c'' s
        using fresh_member [OF client(2,3)] that client(1) auth_freshD [OF assms(2)] quiet(2) mem by (fastforce simp: not_ahead_def)
      then show ?thesis using quiet(1) names assms(2) by (auto simp: auth_fresh_def)
    next
      case (swapped n s b row)
      let ?w = "rq_workspaceId (ar_request ar)"
      have match: "revisions_match db" using assms(2) by (simp add: auth_fresh_def)
      have ns: "s = normalized_clone (sn_state row)"
        using authorized_swap_unseen [OF match _ swapped(4,5)] auth_freshD [OF assms(2) mem] swapped(1) by simp
      note st = swapped_stored [OF swapped(7)]
      have up: "num_val (revision (sn_state row)) < num_val (revision (b_state b))"
        using batch_revision(3) [OF swapped(2,3)] by (simp add: ns)
      have "not_ahead db' (rq_workspaceId (ar_request ar')) s'"
        if "(ar', c'') \<in> set cs'" "seen c'' = Some s'" for ar' c'' s'
        using fresh_member [OF client(2,3)] that client(1) auth_freshD [OF assms(2)] swapped(4,8)
          not_ahead_swapped [OF _ _ up st] by (fastforce simp: stored_def)
      then have "auth_fresh (cs', db')" using update_snapshot_match [OF match swapped(7)] by (auto simp: auth_fresh_def)
      moreover have "authorized_batch dp (fst ` set cs) db db'"
        unfolding authorized_batch_def using mem swapped st ns may_write_edit by (force intro: bexI [where x = ar])
      ultimately show ?thesis using names by simp
    qed
  qed
  qed
  then show "auth_fresh (cs', db')" and "map fst cs' = map fst cs"
    and "stored db' = stored db \<or> authorized_batch dp (fst ` set cs) db db'" by blast+
qed

text \<open>The runs of the system from its start keep the invariant.\<close>

inductive auth_run ::
  "growth \<Rightarrow> (string \<Rightarrow> bool) \<Rightarrow> (auth_request \<times> auth_client) list \<times> d1_database \<Rightarrow>
   (auth_request \<times> auth_client) list \<times> d1_database \<Rightarrow> bool" for growth dp where
  auth_run_refl: "auth_run growth dp sys sys"
| auth_run_step: "auth_run growth dp sys sys' \<Longrightarrow> auth_system growth dp sys' sys'' \<Longrightarrow> auth_run growth dp sys sys''"

lemma auth_run_fresh:
  assumes "auth_run growth dp (cs, db) (cs', db')" and "auth_fresh (cs, db)"
  shows "auth_fresh (cs', db') \<and> map fst cs' = map fst cs"
  using assms
proof (induction "(cs, db)" "(cs', db')" arbitrary: cs' db' rule: auth_run.induct)
  case (auth_run_step sys')
  then show ?case using auth_system_safe(1,2) by (cases sys') metis
qed simp

end
