(* ===== verification/Local_Replica.thy ===== *)
theory Local_Replica
  imports Authorized_Sync
begin

text \<open>
  The replica of a workspace on a device (\<open>src/client/local-replica.ts\<close>): the state the user
  sees, the outbox of commands the server has not confirmed, the access of the account, and the
  reconciliation with an answer of the server.

  The authorisation basis that an envelope carries to the server is a field of the outbox entry
  here, because the commands themselves never look at it.  The error text of an entry is the
  reason it was written for.  Optional fields that the program reads with \<open>?? null\<close> are options;
  the account of an entry keeps the difference between absent and \<open>null\<close>.
\<close>

section \<open>Entries of the outbox\<close>

datatype entry_status = Pending | Blocked

datatype outbox_error =
    Unattributed_change
  | Server_copy_deleted
  | Refused_because rejection
  | Refused_with string
  | Refused_silently
  | Not_acknowledged

record outbox_entry =
  oe_accountId :: "string option option"
  oe_authorization :: "authorization_basis option"
  oe_envelope :: envelope
  oe_error :: "outbox_error option"
  oe_status :: entry_status

record local_replica =
  lr_authorization :: "access_state option"
  lr_lastSyncAttemptAt :: "string option"
  lr_lastSyncError :: "string option"
  lr_lastSyncedAt :: "string option"
  lr_outbox :: "outbox_entry list"
  lr_serverSummary :: "server_summary option"
  lr_state :: wstate
  lr_updatedAt :: string

abbreviation entry_id :: "outbox_entry \<Rightarrow> string" where
  "entry_id e \<equiv> e_id (oe_envelope e)"

abbreviation entry_account :: "outbox_entry \<Rightarrow> string option" where
  "entry_account e \<equiv> Option.bind (oe_accountId e) id"

abbreviation replica_id :: "local_replica \<Rightarrow> string" where
  "replica_id r \<equiv> w_id (ws_workspace (lr_state r))"

definition outbox_entry_account_id :: "string option \<Rightarrow> string option" where
  "outbox_entry_account_id account = optional_text account"

section \<open>The next batch\<close>

definition commands_per_sync_request :: nat where
  "commands_per_sync_request = 100"

definition same_basis :: "authorization_basis option \<Rightarrow> authorization_basis option \<Rightarrow> bool" where
  "same_basis expected cand =
     (case (expected, cand) of
        (Some x, Some c) \<Rightarrow>
          js_eq (ab_membershipRevision x) (ab_membershipRevision c) \<and>
          js_eq (ab_workspaceAccessRevision x) (ab_workspaceAccessRevision c)
      | _ \<Rightarrow> expected = cand)"

text \<open>An account that is not given matches every entry.\<close>

definition of_account :: "string option option \<Rightarrow> outbox_entry \<Rightarrow> bool" where
  "of_account account e =
     (case account of None \<Rightarrow> True | Some a \<Rightarrow> account_ids_match (entry_account e) a)"

fun take_batch ::
  "string option option \<Rightarrow> authorization_basis option \<Rightarrow> nat \<Rightarrow> outbox_entry list \<Rightarrow> outbox_entry list" where
  "take_batch account expected n [] = []"
| "take_batch account expected n (e # es) =
     (if \<not> of_account account e \<or> \<not> same_basis expected (oe_authorization e) then []
      else e # (if commands_per_sync_request \<le> n + 1 then [] else take_batch account expected (n + 1) es))"

definition select_pending_sync_batch :: "outbox_entry list \<Rightarrow> string option option \<Rightarrow> outbox_entry list" where
  "select_pending_sync_batch outbox account =
     (case filter (\<lambda>e. oe_status e = Pending) outbox of
        [] \<Rightarrow> []
      | first # rest \<Rightarrow>
          if \<not> of_account account first then []
          else take_batch account (oe_authorization first) 0 (first # rest))"

section \<open>Accounts and deletions\<close>

definition block_entry :: "outbox_error \<Rightarrow> outbox_entry \<Rightarrow> outbox_entry" where
  "block_entry why e = e\<lparr>oe_error := Some why, oe_status := Blocked\<rparr>"

definition block_pending_after_server_deletion :: "outbox_entry list \<Rightarrow> outbox_entry list" where
  "block_pending_after_server_deletion outbox =
     map (\<lambda>e. if oe_status e = Pending then block_entry Server_copy_deleted e else e) outbox"

definition given_text :: "string option \<Rightarrow> bool" where
  "given_text t \<longleftrightarrow> (case t of None \<Rightarrow> False | Some s \<Rightarrow> s \<noteq> [])"

definition attribute_entries :: "string option \<Rightarrow> outbox_entry list \<Rightarrow> outbox_entry list" where
  "attribute_entries account outbox =
     map (\<lambda>e. if oe_accountId e = None then e\<lparr>oe_accountId := Some account\<rparr> else e) outbox"

definition scope_outbox_for_account :: "outbox_entry list \<Rightarrow> access_state \<Rightarrow> access_state \<Rightarrow> outbox_entry list" where
  "scope_outbox_for_account outbox current cand =
     (if ac_kind cand \<noteq> On_server \<or> \<not> given_text (ac_accountId cand) then outbox
      else if ac_kind current = Device_only then attribute_entries (ac_accountId cand) outbox
      else if account_ids_match (ac_accountId current) (ac_accountId cand) then outbox
      else if given_text (ac_accountId current) then attribute_entries (ac_accountId current) outbox
      else map (\<lambda>e. if oe_status e = Pending \<and> oe_accountId e = None
                    then block_entry Unattributed_change (e\<lparr>oe_accountId := Some None\<rparr>) else e) outbox)"

definition scope_outbox :: "outbox_entry list \<Rightarrow> access_state \<Rightarrow> access_state \<Rightarrow> outbox_entry list" where
  "scope_outbox outbox current cand =
     (let scoped = scope_outbox_for_account outbox current cand
      in if ac_kind cand = On_server \<and> ac_status cand = Access_deleted
         then block_pending_after_server_deletion scoped else scoped)"

section \<open>Stored access values\<close>

text \<open>The JSON form of typed access values, which normalisation reads again.\<close>

fun access_kind_name :: "access_kind \<Rightarrow> string" where
  "access_kind_name Device_only = ''device-only''"
| "access_kind_name On_server = ''server''"

definition json_of_access :: "access_state \<Rightarrow> json" where
  "json_of_access a = JObj
     [(''accountId'', json_of_nullable JStr (ac_accountId a)), (''accessRevision'', JNum (ac_accessRevision a)),
      (''capabilities'', json_of_capabilities (ac_capabilities a)),
      (''checkedAt'', json_of_nullable JStr (ac_checkedAt a)), (''kind'', JStr (access_kind_name (ac_kind a))),
      (''membershipRevision'', JNum (ac_membershipRevision a)),
      (''role'', json_of_nullable (\<lambda>r. JStr (role_name r)) (ac_role a)),
      (''status'', JStr (access_status_name (ac_status a)))]"

definition json_of_summary :: "server_summary \<Rightarrow> json" where
  "json_of_summary m = JObj
     [(''accountId'', json_of_nullable JStr (sm_accountId m)), (''accessRevision'', JNum (sm_accessRevision m)),
      (''capabilities'', json_of_capabilities (sm_capabilities m)), (''id'', JStr (sm_id m)),
      (''membershipRevision'', JNum (sm_membershipRevision m)), (''name'', JStr (sm_name m)),
      (''revision'', JNum (sm_revision m)), (''role'', JStr (role_name (sm_role m))),
      (''updatedAt'', JStr (sm_updatedAt m))]"

definition normalized_access :: "access_state option \<Rightarrow> access_state" where
  "normalized_access a = (case a of None \<Rightarrow> device_only_access | Some x \<Rightarrow> normalize_access (json_of_access x))"

definition normalized_summary :: "server_summary \<Rightarrow> server_summary option" where
  "normalized_summary m = normalize_summary (json_of_summary m)"

section \<open>Orders of queued items\<close>

text \<open>Commands queued before items had an order get one when the replica is read.\<close>

definition finite_order :: "json \<Rightarrow> jsnum option" where
  "finite_order j =
     (case jget ''order'' j of Some (JNum n) \<Rightarrow> if is_finite n then Some n else None | _ \<Rightarrow> None)"

definition string_id :: "json \<Rightarrow> string option" where
  "string_id j = (case jget ''id'' j of Some (JStr i) \<Rightarrow> Some i | _ \<Rightarrow> None)"

definition give_order :: "jsnum \<Rightarrow> json \<Rightarrow> json" where
  "give_order n j = (case j of JObj m \<Rightarrow> JObj (AList.update ''order'' (JNum n) m) | _ \<Rightarrow> j)"

definition created_item :: "envelope \<Rightarrow> json option" where
  "created_item e = (case e_command e of Item_create j \<Rightarrow> if is_record j then Some j else None | _ \<Rightarrow> None)"

definition whole_item_expected :: "field_expectation \<Rightarrow> bool" where
  "whole_item_expected x \<longleftrightarrow> fe_target x = Target_item \<and> fe_path x = [] \<and> is_record (fe_value x)"

definition infer_expected :: "(string \<Rightarrow> jsnum option) \<Rightarrow> field_expectation \<Rightarrow> string \<Rightarrow> jsnum option" where
  "infer_expected orders x =
     (if whole_item_expected x
      then (case finite_order (fe_value x) of None \<Rightarrow> orders | Some n \<Rightarrow> orders(fe_id x \<mapsto> n)) else orders)"

definition infer_orders :: "(string \<Rightarrow> jsnum option) \<Rightarrow> envelope \<Rightarrow> string \<Rightarrow> jsnum option" where
  "infer_orders orders e =
     foldl infer_expected
       (case created_item e of
          None \<Rightarrow> orders
        | Some j \<Rightarrow> (case (string_id j, finite_order j) of (Some i, Some n) \<Rightarrow> orders(i \<mapsto> n) | _ \<Rightarrow> orders))
       (e_expectations e)"

text \<open>\<open>new Map(items.map(item => [item.id, item]))\<close>: the last record of an identifier counts.\<close>

definition item_by_id :: "item list \<Rightarrow> string \<Rightarrow> item option" where
  "item_by_id xs i = List.find (\<lambda>x. i_id x = i) (rev xs)"

definition restore_expected :: "item list \<Rightarrow> field_expectation \<Rightarrow> field_expectation" where
  "restore_expected xs x =
     (if whole_item_expected x \<and> finite_order (fe_value x) = None
      then (case item_by_id xs (fe_id x) of
              None \<Rightarrow> x | Some y \<Rightarrow> x\<lparr>fe_value := give_order (i_order y) (fe_value x)\<rparr>)
      else x)"

definition restore_orders :: "item list \<Rightarrow> (string \<Rightarrow> jsnum option) \<Rightarrow> envelope \<Rightarrow> envelope \<times> (string \<Rightarrow> jsnum option)" where
  "restore_orders xs orders e =
     (let e' = e\<lparr>e_expectations := map (restore_expected xs) (e_expectations e)\<rparr> in
      case created_item e of
        None \<Rightarrow> (e', orders)
      | Some j \<Rightarrow>
          if finite_order j \<noteq> None then (e', orders)
          else let i = (case string_id j of None \<Rightarrow> [] | Some i \<Rightarrow> i);
                   n = (case Option.bind (string_id j) (item_by_id xs) of
                          Some y \<Rightarrow> i_order y
                        | None \<Rightarrow> (case orders i of Some n \<Rightarrow> n | None \<Rightarrow> Fin 0))
               in (e'\<lparr>e_command := Item_create (give_order n j)\<rparr>, if i = [] then orders else orders(i \<mapsto> n)))"

fun restore_outbox :: "item list \<Rightarrow> (string \<Rightarrow> jsnum option) \<Rightarrow> outbox_entry list \<Rightarrow> outbox_entry list" where
  "restore_outbox xs orders [] = []"
| "restore_outbox xs orders (e # es) =
     (let (f, orders') = restore_orders xs orders (oe_envelope e)
      in e\<lparr>oe_envelope := f\<rparr> # restore_outbox xs orders' es)"

section \<open>Normalising a stored replica\<close>

definition is_sign_in_backup_error :: "string option \<Rightarrow> bool" where
  "is_sign_in_backup_error t \<longleftrightarrow>
     t = Some ''Remote backup is paused until you sign in again.'' \<or> t = Some ''Sign in to back up this workspace.''"

definition normalize_entry :: "outbox_entry \<Rightarrow> outbox_entry" where
  "normalize_entry e =
     e\<lparr>oe_envelope := normalize_envelope (oe_envelope e),
       oe_accountId := map_option (\<lambda>a. map_option js_trim (optional_text a)) (oe_accountId e)\<rparr>"

definition stored_access :: "local_replica \<Rightarrow> server_summary option \<Rightarrow> access_state" where
  "stored_access r summary =
     (case (lr_authorization r, summary) of
        (None, Some m) \<Rightarrow> access_from_summary m
          (case lr_lastSyncAttemptAt r of Some t \<Rightarrow> t
           | None \<Rightarrow> (case lr_lastSyncedAt r of Some t \<Rightarrow> t | None \<Rightarrow> sm_updatedAt m))
      | (a, _) \<Rightarrow> normalized_access a)"

definition normalize_local_replica :: "local_replica \<Rightarrow> local_replica" where
  "normalize_local_replica r =
     (let s = normalized_clone (lr_state r);
          summary = Option.bind (lr_serverSummary r) normalized_summary;
          access = stored_access r summary;
          outbox = map normalize_entry (lr_outbox r);
          orders = foldl (\<lambda>m e. infer_orders m (oe_envelope e))
                     (\<lambda>i. map_option i_order (item_by_id (ws_items s) i)) outbox
      in r\<lparr>lr_state := s, lr_serverSummary := summary, lr_authorization := Some access,
           lr_lastSyncError :=
             (if ac_kind access = Device_only \<and> is_sign_in_backup_error (lr_lastSyncError r) then None
              else lr_lastSyncError r),
           lr_outbox := restore_outbox (ws_items s) orders outbox\<rparr>)"

section \<open>Reconciliation\<close>

text \<open>The queued commands are applied to the server state; the first that is refused is an error.\<close>

fun replay_queue :: "(string \<Rightarrow> bool) \<Rightarrow> wstate \<Rightarrow> outbox_entry list \<Rightarrow> wstate result" where
  "replay_queue dp s [] = Inr s"
| "replay_queue dp s (e # es) =
     and_then (apply_command dp s (oe_envelope e)) (\<lambda>r. replay_queue dp (cr_state r) es)"

definition receipt_for :: "sync_receipt list \<Rightarrow> string \<Rightarrow> sync_receipt option" where
  "receipt_for rs c = List.find (\<lambda>r. rc_commandId r = c) (rev rs)"

definition confirmed_by :: "sync_receipt list \<Rightarrow> string \<Rightarrow> bool" where
  "confirmed_by rs c =
     (case receipt_for rs c of None \<Rightarrow> False | Some r \<Rightarrow> rc_status r \<in> {Receipt_applied, Receipt_duplicate})"

definition refusal_of :: "sync_receipt list \<Rightarrow> string \<Rightarrow> outbox_error" where
  "refusal_of rs c =
     (case receipt_for rs c of
        None \<Rightarrow> Not_acknowledged
      | Some r \<Rightarrow> (case rc_rejection r of None \<Rightarrow> Refused_silently | Some why \<Rightarrow> Refused_because why))"

definition settle_entry :: "outbox_entry list \<Rightarrow> sync_receipt list \<Rightarrow> outbox_entry \<Rightarrow> outbox_entry list" where
  "settle_entry sent rs e =
     (if entry_id e \<notin> entry_id ` set sent then [e]
      else if confirmed_by rs (entry_id e) then []
      else [block_entry (refusal_of rs (entry_id e)) e])"

definition confirmed_local_revision :: "local_replica \<Rightarrow> jsnum" where
  "confirmed_local_revision r = js_sub (revision (lr_state r)) (JsInt (int (length (lr_outbox r))))"

definition reconcile_replica ::
  "(string \<Rightarrow> bool) \<Rightarrow> local_replica \<Rightarrow> outbox_entry list \<Rightarrow> wstate \<Rightarrow> sync_receipt list \<Rightarrow> local_replica result" where
  "reconcile_replica dp latest sent server rs =
     (if js_less (revision server) (confirmed_local_revision latest) then Inr latest
      else if sent \<noteq> [] \<and> \<not> list_ex (\<lambda>e. entry_id e \<in> entry_id ` set sent) (lr_outbox latest) then Inr latest
      else
        let outbox = concat (map (settle_entry sent rs) (lr_outbox latest)) in
        and_then
          (if list_ex (\<lambda>e. oe_status e = Blocked) outbox then Inr (lr_state latest)
           else replay_queue dp (normalized_clone server) outbox)
          (\<lambda>s. Inr (latest\<lparr>lr_state := s, lr_outbox := outbox\<rparr>)))"

definition can_rebase_queued_command :: "wstate \<Rightarrow> jsnum \<Rightarrow> string list \<Rightarrow> bool" where
  "can_rebase_queued_command s base prior =
     (let applied = uniq (filter (was_applied s) prior)
      in applied \<noteq> [] \<and> js_eq (revision s) (js_add base (JsInt (int (length applied)))))"

end
