(* ===== verification/Device_Store.thy ===== *)
theory Device_Store
  imports Local_Replica
begin

text \<open>
  The records a device keeps (\<open>src/client/local-replica.ts\<close>): the active replica, one replica per
  workspace, and the catalog of server workspaces of every account.  An operation of the program
  is one read-write transaction of the database, so here it is one function on the store; an
  aborted transaction is an error and leaves the store alone.  Cancelling an opening through an
  abort signal is left out.

  The parameter \<open>lc\<close> is \<open>localeCompare\<close>.
\<close>

section \<open>Records\<close>

record server_catalog =
  ct_accountId :: string
  ct_catalogRevision :: jsnum
  ct_complete :: bool
  ct_entries :: "server_summary list"
  ct_fetchedAt :: string
  ct_hasMore :: bool
  ct_membershipRevision :: jsnum
  ct_nextCursor :: "string option"

record catalog_page =
  cg_accountId :: string
  cg_entries :: "server_summary list"
  cg_fetchedAt :: string
  cg_hasMore :: bool
  cg_membershipRevision :: jsnum
  cg_nextCursor :: "string option"

record device_store =
  ds_active :: "local_replica option"
  ds_catalogAccount :: "string option"
  ds_catalogs :: "(string \<times> server_catalog) list"
  ds_workspaces :: "(string \<times> local_replica) list"

datatype device_error =
    Replica_changed
  | Catalog_changed
  | Catalog_of_another_account
  | Catalog_revision_invalid
  | Authorization_changed
  | Read_only_workspace string
  | Summary_invalid
  | Summary_of_another_workspace
  | Deletion_not_confirmed
  | Metadata_missing
  | Account_required
  | Update_refused error

type_synonym 'a device_result = "device_error + 'a"

definition empty_device :: device_store where
  "empty_device = \<lparr>ds_active = None, ds_catalogAccount = None, ds_catalogs = [], ds_workspaces = []\<rparr>"

abbreviation workspace_replica :: "device_store \<Rightarrow> string \<Rightarrow> local_replica option" where
  "workspace_replica d w \<equiv> map_of (ds_workspaces d) w"

definition put_workspace :: "string \<Rightarrow> local_replica \<Rightarrow> device_store \<Rightarrow> device_store" where
  "put_workspace w r d = d\<lparr>ds_workspaces := AList.update w r (ds_workspaces d)\<rparr>"

definition put_active :: "local_replica \<Rightarrow> device_store \<Rightarrow> device_store" where
  "put_active r d = d\<lparr>ds_active := Some r\<rparr>"

definition delete_workspace_key :: "string \<Rightarrow> device_store \<Rightarrow> device_store" where
  "delete_workspace_key w d = d\<lparr>ds_workspaces := AList.delete w (ds_workspaces d)\<rparr>"

text \<open>The active replica when it is the one of a workspace.\<close>

definition active_as :: "device_store \<Rightarrow> string \<Rightarrow> local_replica option" where
  "active_as d w = (case ds_active d of None \<Rightarrow> None | Some r \<Rightarrow> if replica_id r = w then Some r else None)"

definition current_replica :: "device_store \<Rightarrow> string \<Rightarrow> local_replica option" where
  "current_replica d w = (case workspace_replica d w of Some r \<Rightarrow> Some r | None \<Rightarrow> active_as d w)"

text \<open>The active replica of another workspace is kept under its own key.\<close>

definition keep_active :: "string \<Rightarrow> device_store \<Rightarrow> device_store" where
  "keep_active w d =
     (case ds_active d of
        None \<Rightarrow> d | Some r \<Rightarrow> if replica_id r = w then d else put_workspace (replica_id r) r d)"

section \<open>Versions\<close>

definition access_versions_match :: "access_state \<Rightarrow> access_state \<Rightarrow> bool" where
  "access_versions_match current expected \<longleftrightarrow>
     ac_kind current = ac_kind expected \<and> account_ids_match (ac_accountId current) (ac_accountId expected) \<and>
     js_eq (ac_membershipRevision current) (ac_membershipRevision expected) \<and>
     js_eq (ac_accessRevision current) (ac_accessRevision expected) \<and>
     ac_status current = ac_status expected \<and> ac_role current = ac_role expected"

definition same_summary_version ::
  "(string \<Rightarrow> string \<Rightarrow> jsnum) \<Rightarrow> server_summary option \<Rightarrow> server_summary option \<Rightarrow> bool" where
  "same_summary_version lc current expected =
     (case (current, expected) of
        (Some m, Some n) \<Rightarrow> account_ids_match (sm_accountId m) (sm_accountId n) \<and> js_eq (compare_summaries lc m n) (Fin 0)
      | _ \<Rightarrow> current = None \<and> expected = None)"

definition same_entry_version :: "outbox_entry \<Rightarrow> outbox_entry \<Rightarrow> bool" where
  "same_entry_version e f \<longleftrightarrow>
     entry_id e = entry_id f \<and> account_ids_match (entry_account e) (entry_account f) \<and> oe_status e = oe_status f"

definition same_replica_version ::
  "(string \<Rightarrow> string \<Rightarrow> jsnum) \<Rightarrow> local_replica \<Rightarrow> local_replica \<Rightarrow> bool" where
  "same_replica_version lc current expected \<longleftrightarrow>
     replica_id current = replica_id expected \<and>
     js_eq (revision (lr_state current)) (revision (lr_state expected)) \<and>
     lr_updatedAt current = lr_updatedAt expected \<and>
     access_versions_match (normalized_access (lr_authorization current)) (normalized_access (lr_authorization expected)) \<and>
     same_summary_version lc (Option.bind (lr_serverSummary current) normalized_summary)
       (Option.bind (lr_serverSummary expected) normalized_summary) \<and>
     list_all2 same_entry_version (lr_outbox current) (lr_outbox expected)"

definition replica_version_matches ::
  "(string \<Rightarrow> string \<Rightarrow> jsnum) \<Rightarrow> local_replica option \<Rightarrow> local_replica option \<Rightarrow> bool" where
  "replica_version_matches lc current expected =
     (case (current, expected) of
        (Some r, Some q) \<Rightarrow> same_replica_version lc r q | _ \<Rightarrow> current = None \<and> expected = None)"

section \<open>Writing\<close>

definition write_replica :: "local_replica \<Rightarrow> device_store \<Rightarrow> device_store" where
  "write_replica r d = put_workspace (replica_id r) r (put_active r (keep_active (replica_id r) d))"

definition write_replica_if_unchanged ::
  "(string \<Rightarrow> string \<Rightarrow> jsnum) \<Rightarrow> local_replica \<Rightarrow> local_replica \<Rightarrow> device_store \<Rightarrow> device_store device_result" where
  "write_replica_if_unchanged lc r expected d =
     (case ds_active d of
        None \<Rightarrow> Inl Replica_changed
      | Some current \<Rightarrow>
          if \<not> same_replica_version lc current expected then Inl Replica_changed
          else Inr (put_workspace (replica_id r) r (put_active r d)))"

definition write_workspace_replica_if_unchanged ::
  "(string \<Rightarrow> string \<Rightarrow> jsnum) \<Rightarrow> local_replica \<Rightarrow> local_replica option \<Rightarrow> local_replica option \<Rightarrow>
   device_store \<Rightarrow> device_store device_result" where
  "write_workspace_replica_if_unchanged lc r expected_target expected_active d =
     (if \<not> replica_version_matches lc (current_replica d (replica_id r)) expected_target \<or>
         \<not> replica_version_matches lc (ds_active d) expected_active
      then Inl Replica_changed else Inr (write_replica r d))"

definition mutate_replica ::
  "(local_replica \<Rightarrow> local_replica device_result) \<Rightarrow> device_store \<Rightarrow>
   (local_replica option \<times> device_store) device_result" where
  "mutate_replica update d =
     (case ds_active d of
        None \<Rightarrow> Inr (None, d)
      | Some current \<Rightarrow>
          and_then (update (normalize_local_replica current)) (\<lambda>r.
            Inr (Some r, put_workspace (replica_id r) r (put_active r d))))"

definition mutate_workspace_replica ::
  "string \<Rightarrow> (local_replica \<Rightarrow> local_replica device_result) \<Rightarrow> device_store \<Rightarrow>
   (local_replica option \<times> device_store) device_result" where
  "mutate_workspace_replica w update d =
     (case current_replica d w of
        None \<Rightarrow> Inr (None, d)
      | Some current \<Rightarrow>
          and_then (update (normalize_local_replica current)) (\<lambda>r.
            Inr (Some r, put_workspace w r (if active_as d w = None then d else put_active r d))))"

definition mutate_if_writable ::
  "string \<Rightarrow> (local_replica \<Rightarrow> local_replica device_result) \<Rightarrow> device_store \<Rightarrow>
   (local_replica option \<times> device_store) device_result" where
  "mutate_if_writable w update =
     mutate_workspace_replica w (\<lambda>current.
       case require_write_access (normalized_access (lr_authorization current)) of
         Inl reason \<Rightarrow> Inl (Read_only_workspace reason)
       | Inr u \<Rightarrow> update current)"

section \<open>Access of the account\<close>

definition checked_summary :: "string \<Rightarrow> server_summary option option \<Rightarrow> server_summary option option device_result" where
  "checked_summary w given =
     (case given of
        Some (Some m) \<Rightarrow>
          (case normalized_summary m of
             None \<Rightarrow> Inl Summary_invalid
           | Some n \<Rightarrow> if sm_id n \<noteq> w then Inl Summary_of_another_workspace else Inr (Some (Some n)))
      | _ \<Rightarrow> Inr given)"

definition newer_summary ::
  "(string \<Rightarrow> string \<Rightarrow> jsnum) \<Rightarrow> server_summary option \<Rightarrow> server_summary \<Rightarrow> server_summary option" where
  "newer_summary lc current cand =
     (case current of
        None \<Rightarrow> Some cand
      | Some m \<Rightarrow>
          if \<not> account_ids_match (sm_accountId cand) (sm_accountId m) \<or> js_le (Fin 0) (compare_summaries lc cand m)
          then Some cand else Some m)"

text \<open>An absent candidate keeps the summary and \<open>null\<close> drops it.\<close>

definition resolve_summary ::
  "(string \<Rightarrow> string \<Rightarrow> jsnum) \<Rightarrow> server_summary option \<Rightarrow> server_summary option option \<Rightarrow> server_summary option" where
  "resolve_summary lc current cand =
     (case cand of None \<Rightarrow> current | Some None \<Rightarrow> None | Some (Some m) \<Rightarrow> newer_summary lc current m)"

definition apply_confirmed_deletion ::
  "(string \<Rightarrow> string \<Rightarrow> jsnum) \<Rightarrow> local_replica \<Rightarrow> access_state \<Rightarrow> server_summary option option \<Rightarrow>
   local_replica device_result" where
  "apply_confirmed_deletion lc current access given =
     (let cand = normalized_access (Some access); existing = normalized_access (lr_authorization current) in
      if ac_kind cand \<noteq> On_server \<or> ac_status cand \<noteq> Access_deleted then Inl Deletion_not_confirmed
      else
        let new_access =
              (if ac_kind existing = On_server \<and> ac_status existing = Access_deleted \<and>
                  account_ids_match (ac_accountId existing) (ac_accountId cand)
               then normalized_access (Some (cand
                 \<lparr>ac_accessRevision := js_max (ac_accessRevision cand) (ac_accessRevision existing),
                  ac_membershipRevision := js_max (ac_membershipRevision cand) (ac_membershipRevision existing)\<rparr>))
               else cand) in
        and_then (checked_summary (replica_id current) given) (\<lambda>m.
          Inr (current\<lparr>lr_authorization := Some new_access,
                       lr_outbox := scope_outbox (lr_outbox current) existing new_access,
                       lr_serverSummary :=
                         resolve_summary lc (Option.bind (lr_serverSummary current) normalized_summary) m\<rparr>)))"

definition write_confirmed_deletion ::
  "(string \<Rightarrow> string \<Rightarrow> jsnum) \<Rightarrow> string \<Rightarrow> access_state \<Rightarrow> server_summary option option \<Rightarrow>
   device_store \<Rightarrow> (local_replica option \<times> device_store) device_result" where
  "write_confirmed_deletion lc w access given =
     mutate_workspace_replica w (\<lambda>current. apply_confirmed_deletion lc current access given)"

definition write_authorization_if_unchanged ::
  "(string \<Rightarrow> string \<Rightarrow> jsnum) \<Rightarrow> string \<Rightarrow> access_state \<Rightarrow> access_state \<Rightarrow> server_summary option option \<Rightarrow>
   device_store \<Rightarrow> (local_replica option \<times> device_store) device_result" where
  "write_authorization_if_unchanged lc w access expected given d =
     (let cand = normalized_access (Some access) in
      and_then (checked_summary w given) (\<lambda>m.
        mutate_workspace_replica w (\<lambda>current.
          let current_access = normalized_access (lr_authorization current) in
          if \<not> access_versions_match current_access (normalized_access (Some expected)) \<or>
             \<not> should_apply_access current_access cand
          then Inl Authorization_changed
          else Inr (current\<lparr>lr_authorization := Some cand,
                            lr_outbox := scope_outbox (lr_outbox current) current_access cand,
                            lr_serverSummary :=
                              resolve_summary lc (Option.bind (lr_serverSummary current) normalized_summary) m\<rparr>)) d))"

section \<open>Opening workspaces\<close>

definition activate_workspace_replica :: "string \<Rightarrow> device_store \<Rightarrow> local_replica option \<times> device_store" where
  "activate_workspace_replica w d =
     (case workspace_replica d w of
        None \<Rightarrow> (None, d)
      | Some r \<Rightarrow>
          let r' = normalize_local_replica r in (Some r', put_workspace w r' (put_active r' d)))"

definition activate_or_insert :: "local_replica \<Rightarrow> device_store \<Rightarrow> local_replica \<times> device_store" where
  "activate_or_insert cand d =
     (let w = replica_id cand;
          selected = normalize_local_replica (case current_replica d w of None \<Rightarrow> cand | Some r \<Rightarrow> r)
      in (selected, put_active selected (put_workspace w selected (keep_active w d))))"

text \<open>What a downloaded workspace must come with.\<close>

definition server_metadata_matches :: "local_replica \<Rightarrow> access_state \<Rightarrow> server_summary \<Rightarrow> bool" where
  "server_metadata_matches r a m \<longleftrightarrow>
     ac_kind a = On_server \<and> ac_status a = Access_active \<and> ac_role a \<noteq> None \<and> cap_read (ac_capabilities a) \<and>
     sm_id m = replica_id r \<and> sm_name m = w_name (ws_workspace (lr_state r)) \<and>
     js_eq (sm_revision m) (revision (lr_state r)) \<and> Some (sm_role m) = ac_role a \<and>
     js_eq (sm_membershipRevision m) (ac_membershipRevision a) \<and> js_eq (sm_accessRevision m) (ac_accessRevision a) \<and>
     account_ids_match (sm_accountId m) (ac_accountId a) \<and> sm_capabilities m = ac_capabilities a"

definition with_server_metadata ::
  "(string \<Rightarrow> string \<Rightarrow> jsnum) \<Rightarrow> local_replica \<Rightarrow> access_state \<Rightarrow> server_summary \<Rightarrow> local_replica" where
  "with_server_metadata lc existing a m =
     (let existing_access = (case lr_authorization existing of None \<Rightarrow> device_only_access | Some b \<Rightarrow> b) in
      existing\<lparr>lr_authorization :=
                 (if should_apply_access existing_access a then Some a else lr_authorization existing),
               lr_outbox := scope_outbox (lr_outbox existing) existing_access a,
               lr_serverSummary := newer_summary lc (lr_serverSummary existing) m\<rparr>)"

definition activate_or_insert_server ::
  "(string \<Rightarrow> string \<Rightarrow> jsnum) \<Rightarrow> local_replica \<Rightarrow> device_store \<Rightarrow> (local_replica \<times> device_store) device_result" where
  "activate_or_insert_server lc cand d =
     (let prepared = normalize_local_replica cand; w = replica_id prepared in
      case (lr_authorization prepared, lr_serverSummary prepared) of
        (Some a, Some m) \<Rightarrow>
          if \<not> server_metadata_matches prepared a m then Inl Metadata_missing
          else
            let selected =
                  (case current_replica d w of
                     None \<Rightarrow> prepared
                   | Some r \<Rightarrow> with_server_metadata lc (normalize_local_replica r) a m)
            in Inr (selected, put_active selected (put_workspace w selected (keep_active w d)))
      | _ \<Rightarrow> Inl Metadata_missing)"

section \<open>Replacing and removing\<close>

definition replace_replica :: "local_replica \<Rightarrow> string option \<Rightarrow> device_store \<Rightarrow> device_store" where
  "replace_replica r previous d =
     (let d' = put_workspace (replica_id r) r (put_active r d) in
      case previous of
        None \<Rightarrow> d' | Some p \<Rightarrow> if p \<noteq> [] \<and> p \<noteq> replica_id r then delete_workspace_key p d' else d')"

definition replace_replica_if_unchanged ::
  "(string \<Rightarrow> string \<Rightarrow> jsnum) \<Rightarrow> local_replica \<Rightarrow> local_replica \<Rightarrow> device_store \<Rightarrow> device_store device_result" where
  "replace_replica_if_unchanged lc r expected d =
     (case ds_active d of
        None \<Rightarrow> Inl Replica_changed
      | Some current \<Rightarrow>
          if \<not> same_replica_version lc current expected then Inl Replica_changed
          else
            let d' = put_workspace (replica_id r) r (put_active r d)
            in Inr (if replica_id expected \<noteq> replica_id r then delete_workspace_key (replica_id expected) d' else d'))"

definition clear_device :: "device_store \<Rightarrow> device_store" where
  "clear_device d = empty_device"

text \<open>Removing a replica prunes the catalog of an account that has lost its access.\<close>

definition normalized_catalog :: "server_catalog \<Rightarrow> string \<Rightarrow> server_catalog option" where
  "normalized_catalog c account =
     (if ct_accountId c \<noteq> account then None
      else Some (c
        \<lparr>ct_entries := map (\<lambda>m. m\<lparr>sm_accountId := Some account\<rparr>)
            (List.map_filter normalized_summary (ct_entries c)),
         ct_catalogRevision := non_negative_integer (Some (JNum (ct_catalogRevision c))),
         ct_membershipRevision := non_negative_integer (Some (JNum (ct_membershipRevision c)))\<rparr>))"

definition catalog_of :: "device_store \<Rightarrow> string \<Rightarrow> server_catalog option" where
  "catalog_of d account = Option.bind (map_of (ds_catalogs d) account) (\<lambda>c. normalized_catalog c account)"

definition put_catalog :: "server_catalog \<Rightarrow> device_store \<Rightarrow> device_store" where
  "put_catalog c d = d\<lparr>ds_catalogs := AList.update (ct_accountId c) c (ds_catalogs d)\<rparr>"

definition pruned_catalog :: "server_catalog option \<Rightarrow> string \<Rightarrow> jsnum \<Rightarrow> string \<Rightarrow> server_catalog" where
  "pruned_catalog c account membership w =
     (case c of
        None \<Rightarrow> \<lparr>ct_accountId = account, ct_catalogRevision = js_add (Fin 0) (Fin 1), ct_complete = False,
                 ct_entries = [], ct_fetchedAt = [], ct_hasMore = False,
                 ct_membershipRevision = js_max (Fin 0) membership, ct_nextCursor = None\<rparr>
      | Some k \<Rightarrow> \<lparr>ct_accountId = account, ct_catalogRevision = js_add (ct_catalogRevision k) (Fin 1),
                 ct_complete = ct_complete k, ct_entries = filter (\<lambda>m. sm_id m \<noteq> w) (ct_entries k),
                 ct_fetchedAt = ct_fetchedAt k, ct_hasMore = ct_hasMore k,
                 ct_membershipRevision = js_max (ct_membershipRevision k) membership,
                 ct_nextCursor = ct_nextCursor k\<rparr>)"

definition prune_needed :: "server_catalog option \<Rightarrow> jsnum \<Rightarrow> string \<Rightarrow> bool" where
  "prune_needed c membership w =
     (case c of
        None \<Rightarrow> True
      | Some k \<Rightarrow> js_le (ct_membershipRevision k) membership \<and>
                 (list_ex (\<lambda>m. sm_id m = w) (ct_entries k) \<or> js_less (ct_membershipRevision k) membership))"

definition delete_workspace_replica ::
  "string \<Rightarrow> string option \<Rightarrow> device_store \<Rightarrow>
   ((server_catalog option \<times> string option) \<times> device_store) device_result" where
  "delete_workspace_replica w expected_updated d =
     (let target = current_replica d w;
          access = Option.bind target (\<lambda>r. lr_authorization (normalize_local_replica r));
          gone = delete_workspace_key w (if active_as d w = None then d else d\<lparr>ds_active := None\<rparr>)
      in if (case (expected_updated, target) of
               (Some t, Some r) \<Rightarrow> t \<noteq> [] \<and> lr_updatedAt r \<noteq> t | _ \<Rightarrow> False)
         then Inl Replica_changed
         else case access of
           None \<Rightarrow> Inr ((None, None), gone)
         | Some a \<Rightarrow>
             if ac_kind a \<noteq> On_server \<or> ac_status a = Access_active \<or> \<not> given_text (ac_accountId a)
             then Inr ((None, None), gone)
             else
               let account = the (ac_accountId a); c = catalog_of d account; m = ac_membershipRevision a
               in if prune_needed c m w
                  then let k = pruned_catalog c account m w in Inr ((Some k, Some account), put_catalog k gone)
                  else Inr ((c, Some account), gone))"

section \<open>Catalogs\<close>

text \<open>A stable sort by a consistent comparison function.\<close>

fun insert_by :: "('a \<Rightarrow> 'a \<Rightarrow> jsnum) \<Rightarrow> 'a \<Rightarrow> 'a list \<Rightarrow> 'a list" where
  "insert_by cmp x [] = [x]"
| "insert_by cmp x (y # ys) = (if js_less (Fin 0) (cmp x y) then y # insert_by cmp x ys else x # y # ys)"

definition sort_by :: "('a \<Rightarrow> 'a \<Rightarrow> jsnum) \<Rightarrow> 'a list \<Rightarrow> 'a list" where
  "sort_by cmp xs = foldr (insert_by cmp) xs []"

definition or_number :: "jsnum \<Rightarrow> jsnum \<Rightarrow> jsnum" where
  "or_number a b = (if js_eq a (Fin 0) \<or> a = NaN then b else a)"

definition newest_first :: "(string \<Rightarrow> string \<Rightarrow> jsnum) \<Rightarrow> server_summary \<Rightarrow> server_summary \<Rightarrow> jsnum" where
  "newest_first lc l r = or_number (lc (sm_updatedAt r) (sm_updatedAt l)) (lc (sm_id l) (sm_id r))"

definition summary_with_id :: "server_summary list \<Rightarrow> string \<Rightarrow> server_summary option" where
  "summary_with_id ms i = List.find (\<lambda>m. sm_id m = i) (rev ms)"

text \<open>One entry of a page; the map of entries is an association list in insertion order.\<close>

definition merge_entry ::
  "(string \<Rightarrow> string \<Rightarrow> jsnum) \<Rightarrow> server_summary list \<Rightarrow> bool \<Rightarrow> string \<Rightarrow>
   (string \<times> server_summary) list \<Rightarrow> server_summary \<Rightarrow> (string \<times> server_summary) list" where
  "merge_entry lc previous replace account entries m =
     (case normalized_summary m of
        None \<Rightarrow> entries
      | Some n \<Rightarrow>
          let scoped = n\<lparr>sm_accountId := Some account\<rparr>; i = sm_id n in
          case (case map_of entries i of Some p \<Rightarrow> Some p | None \<Rightarrow> summary_with_id previous i) of
            None \<Rightarrow> AList.update i scoped entries
          | Some p \<Rightarrow>
              if \<not> account_ids_match (sm_accountId p) (Some account) \<or> js_le (Fin 0) (compare_summaries lc scoped p)
              then AList.update i scoped entries
              else if replace then AList.update (sm_id p) p entries else entries)"

definition merge_server_catalog ::
  "(string \<Rightarrow> string \<Rightarrow> jsnum) \<Rightarrow> server_catalog option \<Rightarrow> catalog_page \<Rightarrow> bool \<Rightarrow> server_catalog device_result" where
  "merge_server_catalog lc current pg replace =
     (let previous = (case current of None \<Rightarrow> [] | Some c \<Rightarrow> ct_entries c);
          start = (if replace then [] else foldl (\<lambda>es m. AList.update (sm_id m) m es) [] previous);
          entries = foldl (merge_entry lc previous replace (cg_accountId pg)) start (cg_entries pg)
      in if (case current of None \<Rightarrow> False | Some c \<Rightarrow> ct_accountId c \<noteq> cg_accountId pg)
         then Inl Catalog_of_another_account
         else if \<not> is_safe_integer (cg_membershipRevision pg) \<or> js_less (cg_membershipRevision pg) (Fin 0)
         then Inl Catalog_revision_invalid
         else case current of
           Some c \<Rightarrow>
             if js_less (cg_membershipRevision pg) (ct_membershipRevision c) then Inr c
             else Inr \<lparr>ct_accountId = cg_accountId pg, ct_catalogRevision = js_add (ct_catalogRevision c) (Fin 1),
                       ct_complete = (\<not> cg_hasMore pg), ct_entries = sort_by (newest_first lc) (map snd entries),
                       ct_fetchedAt = cg_fetchedAt pg, ct_hasMore = cg_hasMore pg,
                       ct_membershipRevision = cg_membershipRevision pg, ct_nextCursor = cg_nextCursor pg\<rparr>
         | None \<Rightarrow> Inr \<lparr>ct_accountId = cg_accountId pg, ct_catalogRevision = js_add (Fin 0) (Fin 1),
                       ct_complete = (\<not> cg_hasMore pg), ct_entries = sort_by (newest_first lc) (map snd entries),
                       ct_fetchedAt = cg_fetchedAt pg, ct_hasMore = cg_hasMore pg,
                       ct_membershipRevision = cg_membershipRevision pg, ct_nextCursor = cg_nextCursor pg\<rparr>)"

definition same_catalog_version :: "server_catalog option \<Rightarrow> server_catalog option \<Rightarrow> bool" where
  "same_catalog_version current expected =
     (case (current, expected) of
        (Some c, Some k) \<Rightarrow> ct_accountId c = ct_accountId k \<and> js_eq (ct_catalogRevision c) (ct_catalogRevision k)
      | _ \<Rightarrow> current = None \<and> expected = None)"

definition write_catalog_if_unchanged ::
  "server_catalog \<Rightarrow> server_catalog option \<Rightarrow> device_store \<Rightarrow> device_store device_result" where
  "write_catalog_if_unchanged c expected d =
     (case normalized_catalog c (ct_accountId c) of
        None \<Rightarrow> Inl Catalog_changed
      | Some k \<Rightarrow>
          if \<not> same_catalog_version (catalog_of d (ct_accountId k)) expected then Inl Catalog_changed
          else Inr (put_catalog k d))"

definition write_server_catalog :: "server_catalog \<Rightarrow> device_store \<Rightarrow> device_store" where
  "write_server_catalog c d =
     (case normalized_catalog c (ct_accountId c) of None \<Rightarrow> d | Some k \<Rightarrow> put_catalog k d)"

definition set_catalog_account :: "string \<Rightarrow> device_store \<Rightarrow> device_store device_result" where
  "set_catalog_account account d =
     (if js_trim account = [] then Inl Account_required else Inr (d\<lparr>ds_catalogAccount := Some (js_trim account)\<rparr>))"

definition clear_catalog_account :: "device_store \<Rightarrow> device_store" where
  "clear_catalog_account d = d\<lparr>ds_catalogAccount := None\<rparr>"

definition delete_catalog :: "string \<Rightarrow> device_store \<Rightarrow> device_store" where
  "delete_catalog account d = d\<lparr>ds_catalogs := AList.delete account (ds_catalogs d)\<rparr>"

section \<open>Lists of workspaces\<close>

record queued_change =
  qc_error :: "outbox_error option"
  qc_id :: string
  qc_label :: string
  qc_status :: entry_status
  qc_timestamp :: string

record local_summary =
  lw_authorization :: "access_state option"
  lw_blocked :: nat
  lw_changes :: "queued_change list"
  lw_id :: string
  lw_lastSyncAttemptAt :: "string option"
  lw_lastSyncError :: "string option"
  lw_lastSyncedAt :: "string option"
  lw_name :: string
  lw_pending :: nat
  lw_revision :: jsnum
  lw_serverSummary :: "server_summary option"
  lw_updatedAt :: string

text \<open>The label is that of the activity, or else the type of the command as words.\<close>

definition change_summary :: "wstate \<Rightarrow> (command \<Rightarrow> string) \<Rightarrow> outbox_entry \<Rightarrow> queued_change" where
  "change_summary s type_words e =
     \<lparr>qc_error = oe_error e, qc_id = entry_id e,
      qc_label = (case List.find (\<lambda>a. a_commandId a = entry_id e) (ws_activities s) of
                    Some a \<Rightarrow> a_label a | None \<Rightarrow> type_words (e_command (oe_envelope e))),
      qc_status = oe_status e, qc_timestamp = e_timestamp (oe_envelope e)\<rparr>"

definition replica_summary :: "(command \<Rightarrow> string) \<Rightarrow> local_replica \<Rightarrow> local_summary" where
  "replica_summary type_words given =
     (let r = normalize_local_replica given in
      \<lparr>lw_authorization = lr_authorization r,
       lw_blocked = length (filter (\<lambda>e. oe_status e = Blocked) (lr_outbox r)),
       lw_changes = map (change_summary (lr_state r) type_words) (lr_outbox r), lw_id = replica_id r,
       lw_lastSyncAttemptAt = lr_lastSyncAttemptAt r, lw_lastSyncError = lr_lastSyncError r,
       lw_lastSyncedAt = lr_lastSyncedAt r, lw_name = w_name (ws_workspace (lr_state r)),
       lw_pending = length (filter (\<lambda>e. oe_status e = Pending) (lr_outbox r)),
       lw_revision = revision (lr_state r), lw_serverSummary = lr_serverSummary r,
       lw_updatedAt = lr_updatedAt r\<rparr>)"

text \<open>The replicas under workspace keys in the order of the keys, then the active one.\<close>

definition scoped_replicas :: "device_store \<Rightarrow> (string \<times> local_replica) list" where
  "scoped_replicas d =
     (let scoped = foldl (\<lambda>m (w, r). AList.update (replica_id r) r m) [] (sort_key fst (ds_workspaces d)) in
      case ds_active d of
        None \<Rightarrow> scoped
      | Some r \<Rightarrow> if replica_id r = [] \<or> map_of scoped (replica_id r) \<noteq> None then scoped
                  else scoped @ [(replica_id r, r)])"

definition list_workspace_replicas ::
  "(string \<Rightarrow> string \<Rightarrow> jsnum) \<Rightarrow> (command \<Rightarrow> string) \<Rightarrow> device_store \<Rightarrow> local_summary list" where
  "list_workspace_replicas lc type_words d =
     sort_by (\<lambda>l r. or_number (lc (lw_updatedAt r) (lw_updatedAt l)) (lc (lw_id l) (lw_id r)))
       (map (\<lambda>(w, r). replica_summary type_words r) (scoped_replicas d))"

definition reconciliation_targets :: "local_summary list \<Rightarrow> string option \<Rightarrow> (bool \<times> string) list" where
  "reconciliation_targets ws active =
     (let pending = map lw_id (filter (\<lambda>l. 0 < lw_pending l) ws);
          ids = uniq (pending @ (case active of None \<Rightarrow> [] | Some a \<Rightarrow> if a = [] then [] else [a]))
      in map (\<lambda>i. (Some i = active, i)) ids)"

end
