(* ===== verification/Sync_Reconciliation.thy ===== *)
theory Sync_Reconciliation
  imports Device_Store
begin

text \<open>
  What a device makes of an answer of the server (\<open>src/client/sync-reconciliation.ts\<close>).

  The lemmas show that no queued command is lost: it stays in the outbox, in its place, until the
  server has acknowledged it; and that the state of a replica is the server state with exactly
  the queued commands applied, or the one it had.
\<close>

section \<open>Answers\<close>

record sync_context =
  sc_authorization :: "access_state option"
  sc_summary :: "server_summary option"

definition inaccessible_access :: "access_state option \<Rightarrow> string \<Rightarrow> string \<Rightarrow> access_state" where
  "inaccessible_access a account checked_at =
     (let current = normalized_access a in
      \<lparr>ac_accountId = Some account, ac_accessRevision = ac_accessRevision current, ac_capabilities = read_only,
       ac_checkedAt = Some checked_at, ac_kind = On_server, ac_membershipRevision = ac_membershipRevision current,
       ac_role = None, ac_status = Access_unknown\<rparr>)"

definition apply_server_context ::
  "(string \<Rightarrow> string \<Rightarrow> jsnum) \<Rightarrow> local_replica \<Rightarrow> sync_context \<Rightarrow> local_replica" where
  "apply_server_context lc r ctx =
     (let current = normalized_access (lr_authorization r);
          summary = Option.bind (lr_serverSummary r) normalized_summary;
          next_access = (case sc_authorization ctx of
                           Some a \<Rightarrow> if should_apply_access current a then a else current
                         | None \<Rightarrow> current)
      in r\<lparr>lr_authorization := Some next_access,
           lr_outbox := scope_outbox (lr_outbox r) current next_access,
           lr_serverSummary := (case sc_summary ctx of None \<Rightarrow> summary | Some m \<Rightarrow> newer_summary lc summary m)\<rparr>)"

definition refused_entry :: "outbox_entry list \<Rightarrow> sync_receipt list \<Rightarrow> string \<Rightarrow> outbox_entry \<Rightarrow> outbox_entry" where
  "refused_entry sent rs message e =
     (if oe_status e \<noteq> Pending \<or> entry_id e \<notin> entry_id ` set sent then e
      else block_entry
        (case Option.bind (receipt_for rs (entry_id e)) rc_rejection of
           Some why \<Rightarrow> Refused_because why | None \<Rightarrow> Refused_with message) e)"

definition apply_refused_response ::
  "(string \<Rightarrow> string \<Rightarrow> jsnum) \<Rightarrow> local_replica \<Rightarrow> outbox_entry list \<Rightarrow> sync_receipt list \<Rightarrow> string \<Rightarrow> string \<Rightarrow>
   bool \<Rightarrow> sync_context \<Rightarrow> local_replica" where
  "apply_refused_response lc r sent rs message attempted_at definitive ctx =
     (let r' = apply_server_context lc r ctx in
      r'\<lparr>lr_lastSyncAttemptAt := Some attempted_at, lr_lastSyncError := Some message,
         lr_outbox := (if definitive then map (refused_entry sent rs message) (lr_outbox r') else lr_outbox r')\<rparr>)"

definition apply_successful_response ::
  "(string \<Rightarrow> bool) \<Rightarrow> (string \<Rightarrow> string \<Rightarrow> jsnum) \<Rightarrow> local_replica \<Rightarrow> outbox_entry list \<Rightarrow> wstate \<Rightarrow>
   sync_receipt list \<Rightarrow> string \<Rightarrow> sync_context \<Rightarrow> local_replica result" where
  "apply_successful_response dp lc r sent server rs synced_at ctx =
     and_then (reconcile_replica dp r sent server rs) (\<lambda>q.
       Inr ((apply_server_context lc q ctx)
         \<lparr>lr_lastSyncAttemptAt := Some synced_at, lr_lastSyncError := None, lr_lastSyncedAt := Some synced_at\<rparr>))"

section \<open>The envelopes of an outbox\<close>

abbreviation queued :: "outbox_entry list \<Rightarrow> envelope list" where
  "queued es \<equiv> map oe_envelope es"

lemma block_entry_sel [simp]:
  "oe_envelope (block_entry why e) = oe_envelope e" "oe_accountId (block_entry why e) = oe_accountId e"
  "oe_status (block_entry why e) = Blocked"
  by (simp_all add: block_entry_def)

lemma queued_scope [simp]: "queued (scope_outbox es current cand) = queued es"
  by (simp add: scope_outbox_def scope_outbox_for_account_def block_pending_after_server_deletion_def
      attribute_entries_def Let_def)

lemma queued_context [simp]: "queued (lr_outbox (apply_server_context lc r ctx)) = queued (lr_outbox r)"
  by (simp add: apply_server_context_def Let_def)

lemma state_context [simp]: "lr_state (apply_server_context lc r ctx) = lr_state r"
  by (simp add: apply_server_context_def Let_def)

lemma queued_refused: "queued (lr_outbox (apply_refused_response lc r sent rs message t definitive ctx)) = queued (lr_outbox r)"
proof -
  have "oe_envelope (refused_entry sent rs message e) = oe_envelope e" for e
    by (simp add: refused_entry_def)
  then show ?thesis by (simp add: apply_refused_response_def Let_def comp_def)
qed

section \<open>Settled entries\<close>

lemma queued_settled:
  "queued (concat (map (settle_entry sent rs) es)) =
     filter (\<lambda>f. \<not> (e_id f \<in> entry_id ` set sent \<and> confirmed_by rs (e_id f))) (queued es)"
  by (induction es) (auto simp: settle_entry_def)

lemma reconcile_cases:
  assumes "reconcile_replica dp r sent server rs = Inr q"
  obtains (kept) "q = r"
  | (settled) s where "q = r\<lparr>lr_state := s, lr_outbox := concat (map (settle_entry sent rs) (lr_outbox r))\<rparr>"
      "s = lr_state r \<or> replay_queue dp (normalized_clone server) (lr_outbox q) = Inr s"
proof -
  let ?q = "\<lambda>s. r\<lparr>lr_state := s, lr_outbox := concat (map (settle_entry sent rs) (lr_outbox r))\<rparr>"
  from assms consider "q = r" | s where "q = ?q s"
      "(if list_ex (\<lambda>e. oe_status e = Blocked) (lr_outbox q) then Inr (lr_state r)
        else replay_queue dp (normalized_clone server) (lr_outbox q)) = Inr s"
    by (force simp: reconcile_replica_def Let_def and_then_eq_Inr split: if_splits)
  then show thesis
  proof cases
    case 2
    then show thesis by (intro settled [of s]) (auto split: if_splits)
  qed (rule kept)
qed

lemma replay_run: "replay_queue dp s es = Inr t \<Longrightarrow> run dp s (queued es) t"
  by (induction es arbitrary: s) (auto simp: and_then_eq_Inr run_simps)

lemma successful_state:
  assumes "apply_successful_response dp lc r sent server rs t ctx = Inr q"
  shows "lr_state q = lr_state r \<or> run dp (normalized_clone server) (queued (lr_outbox q)) (lr_state q)"
proof -
  from assms obtain p where p: "reconcile_replica dp r sent server rs = Inr p"
    and q: "lr_state q = lr_state p" "queued (lr_outbox q) = queued (lr_outbox p)"
    by (auto simp: apply_successful_response_def and_then_eq_Inr)
  from p show ?thesis
    by (cases rule: reconcile_cases) (auto simp: q dest: replay_run)
qed

lemma successful_queue:
  assumes "apply_successful_response dp lc r sent server rs t ctx = Inr q"
  shows "queued (lr_outbox q) = queued (lr_outbox r) \<or>
    queued (lr_outbox q) =
      filter (\<lambda>f. \<not> (e_id f \<in> entry_id ` set sent \<and> confirmed_by rs (e_id f))) (queued (lr_outbox r))"
proof -
  from assms obtain p where p: "reconcile_replica dp r sent server rs = Inr p"
    and q: "queued (lr_outbox q) = queued (lr_outbox p)"
    by (auto simp: apply_successful_response_def and_then_eq_Inr)
  from p show ?thesis
    by (cases rule: reconcile_cases) (simp_all add: q queued_settled del: map_concat map_map)
qed

text \<open>A blocked entry stays blocked, and an answer that is current is applied.\<close>

lemma list_ex_map_kept: "list_ex P es \<Longrightarrow> (\<And>e. P e \<Longrightarrow> P (f e)) \<Longrightarrow> list_ex P (map f es)"
  by (induction es) auto

lemma blocked_scope:
  "list_ex (\<lambda>e. oe_status e = Blocked) es \<Longrightarrow> list_ex (\<lambda>e. oe_status e = Blocked) (scope_outbox es current cand)"
  unfolding scope_outbox_def scope_outbox_for_account_def block_pending_after_server_deletion_def
    attribute_entries_def Let_def
  by (auto intro!: list_ex_map_kept simp del: list.map_comp map_map)

lemma blocked_context:
  "list_ex (\<lambda>e. oe_status e = Blocked) (lr_outbox r) \<Longrightarrow>
   list_ex (\<lambda>e. oe_status e = Blocked) (lr_outbox (apply_server_context lc r ctx))"
  by (simp add: apply_server_context_def Let_def blocked_scope)

lemma current_answer:
  assumes "apply_successful_response dp lc r sent server rs t ctx = Inr q"
    and "\<not> js_less (revision server) (confirmed_local_revision r)"
    and "sent = [] \<or> list_ex (\<lambda>e. entry_id e \<in> entry_id ` set sent) (lr_outbox r)"
  shows "queued (lr_outbox q) =
      filter (\<lambda>f. \<not> (e_id f \<in> entry_id ` set sent \<and> confirmed_by rs (e_id f))) (queued (lr_outbox r))" (is ?queue)
    and "list_ex (\<lambda>e. oe_status e = Blocked) (lr_outbox q) \<or>
      run dp (normalized_clone server) (queued (lr_outbox q)) (lr_state q)" (is ?state)
proof -
  let ?es = "concat (map (settle_entry sent rs) (lr_outbox r))"
  from assms(1) obtain p where rec: "reconcile_replica dp r sent server rs = Inr p"
    and q: "lr_state q = lr_state p" "queued (lr_outbox q) = queued (lr_outbox p)"
      "lr_outbox q = lr_outbox (apply_server_context lc p ctx)"
    by (auto simp: apply_successful_response_def and_then_eq_Inr)
  from rec assms(2,3) obtain s where p: "p = r\<lparr>lr_state := s, lr_outbox := ?es\<rparr>"
    and s: "(if list_ex (\<lambda>e. oe_status e = Blocked) ?es then Inr (lr_state r)
             else replay_queue dp (normalized_clone server) ?es) = Inr s"
    unfolding reconcile_replica_def Let_def by (elim disjE) (auto simp: and_then_eq_Inr)
  show ?queue using q(2) by (simp add: p queued_settled del: map_concat map_map)
  show ?state
  proof (cases "list_ex (\<lambda>e. oe_status e = Blocked) ?es")
    case True
    then have "list_ex (\<lambda>e. oe_status e = Blocked) (lr_outbox p)" by (simp add: p)
    then show ?thesis using blocked_context q(3) by simp
  next
    case False
    then show ?thesis using s q(1,2) by (auto simp: p dest: replay_run)
  qed
qed

text \<open>Between device and server: what leaves the queue was applied by the server.\<close>

lemma confirmed_receipt:
  "confirmed_by rs c \<Longrightarrow> \<exists>r\<in>set rs. rc_commandId r = c \<and> rc_status r \<noteq> Receipt_rejected"
  by (auto simp: confirmed_by_def receipt_for_def split: option.splits dest!: find_SomeD)

lemma dropped_applied:
  assumes "process_batch dp s es = Some b" and "confirmed_by (b_receipts b) c"
  shows "\<exists>t\<in>set (batch_states dp s (start_batch s) es). was_applied t c"
proof -
  obtain r where "r \<in> set (b_receipts b)" "rc_commandId r = c" "rc_status r \<noteq> Receipt_rejected"
    using confirmed_receipt [OF assms(2)] by blast
  with acknowledged_applied [OF assms(1) [unfolded process_batch_def]] show ?thesis
    by (auto simp: was_applied_known start_batch_def)
qed

lemma queue_or_server:
  assumes "process_batch dp s es = Some b"
    and "apply_successful_response dp lc r sent (b_state b) (b_receipts b) t ctx = Inr q" and "f \<in> set (queued (lr_outbox r))"
  shows "f \<in> set (queued (lr_outbox q)) \<or> (\<exists>t\<in>set (batch_states dp s (start_batch s) es). was_applied t (e_id f))"
  using successful_queue [OF assms(2)]
proof
  assume "queued (lr_outbox q) =
    filter (\<lambda>f. \<not> (e_id f \<in> entry_id ` set sent \<and> confirmed_by (b_receipts b) (e_id f))) (queued (lr_outbox r))"
  then show ?thesis using assms(3) dropped_applied [OF assms(1), of "e_id f"] by simp
qed (use assms(3) in simp)

section \<open>The batch that is sent\<close>

lemma take_batch_prefix: "\<exists>rest. es = take_batch account x n es @ rest"
  by (induction es arbitrary: n) auto

lemma take_batch_member:
  "e \<in> set (take_batch account x n es) \<Longrightarrow> of_account account e \<and> same_basis x (oe_authorization e)"
  by (induction es arbitrary: n) (auto split: if_splits)

lemma take_batch_length: "n < commands_per_sync_request \<Longrightarrow> n + length (take_batch account x n es) \<le> commands_per_sync_request"
proof (induction es arbitrary: n)
  case (Cons e es)
  show ?case
  proof (cases "commands_per_sync_request \<le> n + 1")
    case False
    then show ?thesis using Cons.IH [of "n + 1"] Cons.prems by auto
  qed (use Cons.prems in auto)
qed simp

text \<open>A batch is a run of pending entries of one account and one basis, within the quota.\<close>

lemma selected_cases:
  obtains (none) "select_pending_sync_batch outbox account = []"
  | (some) x xs where "filter (\<lambda>e. oe_status e = Pending) outbox = x # xs"
      "select_pending_sync_batch outbox account = take_batch account (oe_authorization x) 0 (x # xs)"
proof (cases "filter (\<lambda>e. oe_status e = Pending) outbox")
  case Nil then show thesis using none by (simp add: select_pending_sync_batch_def)
next
  case (Cons x xs)
  then show thesis using none some [of x xs]
    by (cases "of_account account x") (simp_all add: select_pending_sync_batch_def del: take_batch.simps)
qed

lemma selected_length: "length (select_pending_sync_batch outbox account) \<le> commands_per_sync_request"
proof (cases outbox account rule: selected_cases)
  case (some x xs)
  then show ?thesis using take_batch_length [of 0 account "oe_authorization x" "x # xs"]
    by (simp add: commands_per_sync_request_def)
qed simp

lemma selected_prefix:
  "\<exists>rest. filter (\<lambda>e. oe_status e = Pending) outbox = select_pending_sync_batch outbox account @ rest"
proof (cases outbox account rule: selected_cases)
  case (some x xs)
  then show ?thesis by (simp only: take_batch_prefix)
qed simp

lemma take_batch_run:
  "n < commands_per_sync_request \<Longrightarrow> take_batch account x n es =
     takeWhile (\<lambda>e. of_account account e \<and> same_basis x (oe_authorization e)) (take (commands_per_sync_request - n) es)"
proof (induction es arbitrary: n)
  case (Cons e es)
  from Cons.prems have "commands_per_sync_request - n = Suc (commands_per_sync_request - (n + 1))" by simp
  then show ?case using Cons.IH [of "n + 1"] Cons.prems by (cases "commands_per_sync_request \<le> n + 1") auto
qed simp

lemma selected_uniform:
  assumes "e \<in> set (select_pending_sync_batch outbox account)"
  shows "of_account account e" and
    "same_basis (oe_authorization (hd (select_pending_sync_batch outbox account))) (oe_authorization e)"
proof -
  have "of_account account e \<and>
    same_basis (oe_authorization (hd (select_pending_sync_batch outbox account))) (oe_authorization e)"
  proof (cases outbox account rule: selected_cases)
    case (some x xs)
    then have "hd (select_pending_sync_batch outbox account) = x"
      using assms by (auto split: if_splits)
    then show ?thesis using assms some(2) take_batch_member by metis
  qed (use assms in simp)
  then show "of_account account e" and
    "same_basis (oe_authorization (hd (select_pending_sync_batch outbox account))) (oe_authorization e)" by blast+
qed

section \<open>The device store\<close>

text \<open>
  Replicas are stored under the identifier of their workspace, and the active replica is stored
  there too.
\<close>

definition mirrored :: "device_store \<Rightarrow> bool" where
  "mirrored d \<longleftrightarrow>
     (\<forall>w r. workspace_replica d w = Some r \<longrightarrow> replica_id r = w) \<and>
     (\<forall>r. ds_active d = Some r \<longrightarrow> workspace_replica d (replica_id r) = Some r)"

lemma mirrored_empty: "mirrored empty_device"
  by (simp add: mirrored_def empty_device_def)

lemma mirrored_put [simp]: "mirrored d \<Longrightarrow> mirrored (put_workspace (replica_id r) r (put_active r d))"
  by (auto simp: mirrored_def put_workspace_def put_active_def update_conv')

lemma mirrored_put_swap [simp]:
  "mirrored d \<Longrightarrow> w = replica_id r \<Longrightarrow> mirrored (put_active r (put_workspace w r d))"
  by (auto simp: mirrored_def put_workspace_def put_active_def update_conv')

lemma mirrored_keep [simp]: "mirrored d \<Longrightarrow> mirrored (keep_active w d)"
  by (auto simp: keep_active_def mirrored_def put_workspace_def update_conv' split: option.split)

lemma mirrored_catalogs [simp]:
  "mirrored (d\<lparr>ds_catalogs := cs\<rparr>) = mirrored d" "mirrored (d\<lparr>ds_catalogAccount := a\<rparr>) = mirrored d"
  by (simp_all add: mirrored_def)

lemma normalize_replica_id [simp]: "replica_id (normalize_local_replica r) = replica_id r"
  by (simp add: normalize_local_replica_def Let_def normalized_clone_def workspace_normalize_typed)

lemma mirrored_key: "mirrored d \<Longrightarrow> workspace_replica d w = Some r \<Longrightarrow> replica_id r = w"
  unfolding mirrored_def by blast

lemma current_replica_id: "mirrored d \<Longrightarrow> current_replica d w = Some r \<Longrightarrow> replica_id r = w"
  by (auto simp: current_replica_def active_as_def dest: mirrored_key split: option.splits if_splits)

lemma mirrored_delete:
  "mirrored d \<Longrightarrow> \<forall>r. ds_active d = Some r \<longrightarrow> replica_id r \<noteq> w \<Longrightarrow> mirrored (delete_workspace_key w d)"
  by (auto simp: mirrored_def delete_workspace_key_def delete_conv' split: if_splits)

lemma mirrored_mutate_workspace:
  assumes "mutate_workspace_replica w update d = Inr (res, d')" and "mirrored d"
    and "\<And>r q. update r = Inr q \<Longrightarrow> replica_id q = replica_id r"
  shows "mirrored d'"
proof (cases "current_replica d w")
  case (Some r)
  then obtain q where q: "update (normalize_local_replica r) = Inr q"
    and d': "d' = put_workspace w q (if active_as d w = None then d else put_active q d)"
    using assms(1) by (auto simp: mutate_workspace_replica_def and_then_eq_Inr)
  have w: "replica_id q = w" using assms(3) [OF q] current_replica_id [OF assms(2) Some] by simp
  show ?thesis
  proof (cases "active_as d w")
    case None
    then show ?thesis using assms(2) w
      by (auto simp: d' mirrored_def active_as_def put_workspace_def update_conv' split: if_splits)
  next
    case (Some p)
    then show ?thesis using mirrored_put [OF assms(2), of q] by (simp add: d' w)
  qed
qed (use assms in \<open>simp add: mutate_workspace_replica_def\<close>)

text \<open>The operations of the program on the store; an update keeps the workspace of its replica.\<close>

definition keeps_workspace :: "(local_replica \<Rightarrow> local_replica device_result) \<Rightarrow> bool" where
  "keeps_workspace update \<longleftrightarrow> (\<forall>r q. update r = Inr q \<longrightarrow> replica_id q = replica_id r)"

inductive device_step :: "(string \<Rightarrow> string \<Rightarrow> jsnum) \<Rightarrow> device_store \<Rightarrow> device_store \<Rightarrow> bool" for lc where
  "device_step lc d (write_replica r d)"
| "write_replica_if_unchanged lc r x d = Inr d' \<Longrightarrow> device_step lc d d'"
| "write_workspace_replica_if_unchanged lc r x y d = Inr d' \<Longrightarrow> device_step lc d d'"
| "mutate_replica f d = Inr (res, d') \<Longrightarrow> device_step lc d d'"
| "mutate_workspace_replica w f d = Inr (res, d') \<Longrightarrow> keeps_workspace f \<Longrightarrow> device_step lc d d'"
| "mutate_if_writable w f d = Inr (res, d') \<Longrightarrow> keeps_workspace f \<Longrightarrow> device_step lc d d'"
| "write_confirmed_deletion lc w a m d = Inr (res, d') \<Longrightarrow> device_step lc d d'"
| "write_authorization_if_unchanged lc w a x m d = Inr (res, d') \<Longrightarrow> device_step lc d d'"
| "activate_workspace_replica w d = (res, d') \<Longrightarrow> device_step lc d d'"
| "activate_or_insert r d = (q, d') \<Longrightarrow> device_step lc d d'"
| "activate_or_insert_server lc r d = Inr (q, d') \<Longrightarrow> device_step lc d d'"
| "device_step lc d (replace_replica r previous d)"
| "replace_replica_if_unchanged lc r x d = Inr d' \<Longrightarrow> device_step lc d d'"
| "delete_workspace_replica w updated d = Inr (res, d') \<Longrightarrow> device_step lc d d'"
| "device_step lc d (clear_device d)"
| "device_step lc d (write_server_catalog c d)"
| "write_catalog_if_unchanged c x d = Inr d' \<Longrightarrow> device_step lc d d'"
| "device_step lc d (delete_catalog a d)"
| "set_catalog_account a d = Inr d' \<Longrightarrow> device_step lc d d'"
| "device_step lc d (clear_catalog_account d)"

lemma mirrored_mutate:
  "mutate_workspace_replica w f d = Inr (res, d') \<Longrightarrow> keeps_workspace f \<Longrightarrow> mirrored d \<Longrightarrow> mirrored d'"
  by (erule mirrored_mutate_workspace) (auto simp: keeps_workspace_def)

lemma keeps_writable:
  "keeps_workspace f \<Longrightarrow> keeps_workspace (\<lambda>current.
     case require_write_access (normalized_access (lr_authorization current)) of
       Inl reason \<Rightarrow> Inl (Read_only_workspace reason) | Inr u \<Rightarrow> f current)"
  by (auto simp: keeps_workspace_def split: sum.splits)

lemma keeps_deletion: "keeps_workspace (\<lambda>current. apply_confirmed_deletion lc current a m)"
  by (auto simp: keeps_workspace_def apply_confirmed_deletion_def Let_def and_then_eq_Inr split: if_splits)

lemma mirrored_authorization:
  assumes "write_authorization_if_unchanged lc w a x m d = Inr (res, d')" and "mirrored d"
  shows "mirrored d'"
  using assms(1) unfolding write_authorization_if_unchanged_def Let_def
  by (elim and_then_InrE) (erule mirrored_mutate_workspace [OF _ assms(2)], auto split: if_splits)

lemma mirrored_insert:
  "mirrored d \<Longrightarrow> replica_id r = w \<Longrightarrow> mirrored (put_active r (put_workspace w r (keep_active w d)))"
  by simp

lemma mirrored_delete_other:
  "mirrored d \<Longrightarrow> ds_active d = Some r \<Longrightarrow> w \<noteq> replica_id r \<Longrightarrow> mirrored (delete_workspace_key w d)"
  by (rule mirrored_delete) auto

lemma active_put [simp]: "ds_active (put_workspace w r d) = ds_active d" "ds_active (put_active r d) = Some r"
  by (simp_all add: put_workspace_def put_active_def)

lemma mirrored_gone:
  "mirrored d \<Longrightarrow> mirrored (delete_workspace_key w (if active_as d w = None then d else d\<lparr>ds_active := None\<rparr>))"
  by (rule mirrored_delete) (auto simp: active_as_def mirrored_def split: if_splits option.splits)

lemma mirrored_put_catalog [simp]: "mirrored (put_catalog c d) = mirrored d"
  by (simp add: put_catalog_def)

lemma mirrored_activate:
  assumes "activate_workspace_replica w d = (res, d')" and "mirrored d"
  shows "mirrored d'"
proof (cases "workspace_replica d w")
  case (Some r)
  then have "replica_id (normalize_local_replica r) = w" using mirrored_key [OF assms(2)] by simp
  then show ?thesis using assms(1) Some mirrored_put [OF assms(2), of "normalize_local_replica r"]
    by (simp add: activate_workspace_replica_def Let_def)
qed (use assms in \<open>simp add: activate_workspace_replica_def\<close>)

lemma mirrored_write: "mirrored d \<Longrightarrow> mirrored (write_replica r d)"
  by (simp add: write_replica_def)

lemma mirrored_activate_or_insert:
  assumes "activate_or_insert r d = (q, d')" and "mirrored d"
  shows "mirrored d'"
proof -
  have "replica_id (case current_replica d (replica_id r) of None \<Rightarrow> r | Some p \<Rightarrow> p) = replica_id r"
    using current_replica_id [OF assms(2)] by (simp split: option.split)
  then have "replica_id q = replica_id r" using assms(1) by (auto simp: activate_or_insert_def Let_def)
  then show ?thesis using assms mirrored_insert by (auto simp: activate_or_insert_def Let_def)
qed

lemma mirrored_activate_server:
  assumes "activate_or_insert_server lc r d = Inr (q, d')" and "mirrored d"
  shows "mirrored d'"
proof -
  have "replica_id (with_server_metadata lc p a m) = replica_id p" for p a m
    by (simp add: with_server_metadata_def Let_def)
  then have "replica_id (case current_replica d (replica_id r) of
      None \<Rightarrow> normalize_local_replica r | Some p \<Rightarrow> with_server_metadata lc (normalize_local_replica p) a m) = replica_id r" for a m
    using current_replica_id [OF assms(2)] by (simp split: option.split)
  moreover from assms(1) obtain a m where "q = (case current_replica d (replica_id r) of
      None \<Rightarrow> normalize_local_replica r | Some p \<Rightarrow> with_server_metadata lc (normalize_local_replica p) a m)"
    by (auto simp: activate_or_insert_server_def Let_def split: option.splits if_splits)
  ultimately have "replica_id q = replica_id r" by simp
  moreover from assms(1) have "d' = put_active q (put_workspace (replica_id r) q (keep_active (replica_id r) d))"
    by (auto simp: activate_or_insert_server_def Let_def split: option.splits if_splits)
  ultimately show ?thesis using mirrored_insert [OF assms(2), of q "replica_id r"] by simp
qed

lemma mirrored_replace: "mirrored d \<Longrightarrow> mirrored (replace_replica r previous d)"
  by (auto simp: replace_replica_def Let_def intro: mirrored_delete_other split: option.split)

lemma mirrored_replace_if_unchanged:
  assumes "replace_replica_if_unchanged lc r x d = Inr d'" and "mirrored d"
  shows "mirrored d'"
proof -
  let ?d = "put_workspace (replica_id r) r (put_active r d)"
  from assms(1) have "d' = (if replica_id x \<noteq> replica_id r then delete_workspace_key (replica_id x) ?d else ?d)"
    by (simp add: replace_replica_if_unchanged_def Let_def split: option.splits if_splits)
  then show ?thesis using assms(2) mirrored_delete_other [of ?d r] by simp
qed

lemma mirrored_delete_workspace:
  assumes "delete_workspace_replica w updated d = Inr (res, d')" and "mirrored d"
  shows "mirrored d'"
  using assms(1) mirrored_gone [OF assms(2), of w] unfolding delete_workspace_replica_def Let_def
  by (simp split: if_splits option.splits) auto

lemma device_step_mirrored:
  assumes "device_step lc d d'" and "mirrored d"
  shows "mirrored d'"
  using assms(1)
proof cases
  case (2 r x)
  then show ?thesis using assms(2) by (auto simp: write_replica_if_unchanged_def split: option.splits if_splits)
next
  case (3 r x y)
  then show ?thesis using assms(2) mirrored_write
    by (auto simp: write_workspace_replica_if_unchanged_def split: if_splits)
next
  case (4 f res)
  then show ?thesis using assms(2) by (auto simp: mutate_replica_def and_then_eq_Inr split: option.splits)
next
  case (5 w f res)
  then show ?thesis using mirrored_mutate assms(2) by blast
next
  case (6 w f res)
  then show ?thesis using mirrored_mutate keeps_writable assms(2) unfolding mutate_if_writable_def by blast
next
  case (7 w a m res)
  then show ?thesis using mirrored_mutate keeps_deletion assms(2) unfolding write_confirmed_deletion_def by blast
next
  case (17 c x)
  then show ?thesis using assms(2) by (auto simp: write_catalog_if_unchanged_def split: option.splits if_splits)
next
  case (16 c)
  then show ?thesis using assms(2) by (simp add: write_server_catalog_def split: option.split)
next
  case (19 a)
  then show ?thesis using assms(2) by (auto simp: set_catalog_account_def split: if_splits)
next
  case (14 w updated res)
  then show ?thesis using mirrored_delete_workspace assms(2) by blast
next
  case (8 w a x m res)
  then show ?thesis using mirrored_authorization assms(2) by blast
qed (use assms(2) in \<open>simp_all add: clear_device_def mirrored_empty delete_catalog_def clear_catalog_account_def
  mirrored_write mirrored_activate mirrored_activate_or_insert mirrored_activate_server mirrored_replace
  mirrored_replace_if_unchanged\<close>)

lemma mirrored_spelled:
  "mirrored d \<Longrightarrow>
     list_all (\<lambda>w. map_option replica_id (workspace_replica d w) = Some w) (map fst (ds_workspaces d)) \<and>
     (case ds_active d of None \<Rightarrow> True | Some r \<Rightarrow> workspace_replica d (replica_id r) = Some r)"
proof -
  assume d: "mirrored d"
  have "map_option replica_id (workspace_replica d w) = Some w" if "w \<in> set (map fst (ds_workspaces d))" for w
  proof -
    from that obtain r where r: "workspace_replica d w = Some r"
      by (cases "workspace_replica d w") (auto simp: map_of_eq_None_iff)
    then show ?thesis using mirrored_key [OF d r] by simp
  qed
  then show ?thesis using d by (auto simp: list_all_iff mirrored_def split: option.split)
qed

lemma kept_under_key:
  "ds_active d = Some r \<Longrightarrow> w \<noteq> replica_id r \<Longrightarrow>
     workspace_replica (put_active q (put_workspace w p (keep_active w d))) (replica_id r) = Some r"
  by (simp add: keep_active_def put_workspace_def put_active_def update_conv')

lemma opening_keeps:
  assumes "mirrored d" and "ds_active d = Some r" and "w \<noteq> replica_id r"
  shows "activate_workspace_replica w d = (res, d') \<Longrightarrow> workspace_replica d' (replica_id r) = Some r"
    and "activate_or_insert c d = (q, d') \<Longrightarrow> replica_id c = w \<Longrightarrow> workspace_replica d' (replica_id r) = Some r"
    and "activate_or_insert_server lc c d = Inr (q, d') \<Longrightarrow> replica_id c = w \<Longrightarrow>
      workspace_replica d' (replica_id r) = Some r"
    and "write_replica c d = d' \<Longrightarrow> replica_id c = w \<Longrightarrow> workspace_replica d' (replica_id r) = Some r"
proof -
  have own: "workspace_replica d (replica_id r) = Some r" using assms(1,2) by (simp add: mirrored_def)
  show "activate_workspace_replica w d = (res, d') \<Longrightarrow> workspace_replica d' (replica_id r) = Some r"
    using own assms(3)
    by (auto simp: activate_workspace_replica_def Let_def put_workspace_def put_active_def update_conv' split: option.splits)
  show "activate_or_insert c d = (q, d') \<Longrightarrow> replica_id c = w \<Longrightarrow> workspace_replica d' (replica_id r) = Some r"
    using kept_under_key [OF assms(2,3)] by (auto simp: activate_or_insert_def Let_def)
  show "activate_or_insert_server lc c d = Inr (q, d') \<Longrightarrow> replica_id c = w \<Longrightarrow>
      workspace_replica d' (replica_id r) = Some r"
    using kept_under_key [OF assms(2,3)]
    by (auto simp: activate_or_insert_server_def Let_def split: option.splits if_splits)
  show "write_replica c d = d' \<Longrightarrow> replica_id c = w \<Longrightarrow> workspace_replica d' (replica_id r) = Some r"
    using assms(2,3) by (auto simp: write_replica_def keep_active_def put_workspace_def put_active_def update_conv')
qed

end
