(* ===== verification/Sample_Plan.thy ===== *)
theory Sample_Plan
  imports Sample_Runs
begin

text \<open>The sample workspace with an active plan of one step: the jam goes to the right box.\<close>

definition sample_step :: plan_step where
  "sample_step = \<lparr>s_completedAt = None, s_destinationId = ''right'', s_explanation = [''Together''], s_id = ''s1'',
     s_itemId = Some ''jam'', s_locationId = None, s_quantity = Some (Fin 5), s_score = Fin 1,
     s_sourceId = ''left'', s_type = Item_step\<rparr>"

definition sample_plan :: move_plan where
  "sample_plan = \<lparr>p_createdAt = ''t0'', p_id = ''p1'', p_name = ''Tidy'', p_selection = None,
     p_status = Active, p_steps = [sample_step],
     p_weights = \<lparr>pw_accessibility = Fin 1, pw_capacity = Fin 1, pw_grouping = Fin 1, pw_moveCost = Fin 1,
       pw_suitability = Fin 1\<rparr>\<rparr>"

definition plan_state :: wstate where
  "plan_state = sample_state\<lparr>ws_plans := [sample_plan]\<rparr>"

lemma plan_state_sel [simp]:
  "ws_items plan_state = [jam, jam2]" "ws_plans plan_state = [sample_plan]"
  "ws_locations plan_state = sample_locations"
  by (simp_all add: plan_state_def)

lemma sample_plan_sel [simp]:
  "p_id sample_plan = ''p1''" "p_status sample_plan = Active" "p_steps sample_plan = [sample_step]"
  "p_selection sample_plan = None"
  by (simp_all add: sample_plan_def)

lemma plan_wf: "wf_state plan_state"
  using sample_wf by (simp add: wf_state_def plans_ok_def plan_state_def)

lemma plan_find [simp]:
  "find_item plan_state ''jam'' = Some jam"
  "find_location plan_state ''left'' = Some (sample_location ''left'' ''L'' Box (Some ''room''))"
  "find_location plan_state ''right'' = Some (sample_location ''right'' ''X'' Box (Some ''room''))"
  "find_plan plan_state ''p1'' = Some sample_plan"
  by (simp_all add: find_item_def find_location_def find_plan_def sample_locations_def)

lemma plan_move: "\<exists>ms. move_item_patches plan_state jam ''right'' (Fin 5) ''c1'' ''t1'' = Inr ms"
proof -
  have "js_add (Fin 2) (Fin 5) = Fin 7" using js_add_int [of 2 5] by (simp del: js_add.simps)
  moreover have "js_sub (Fin 5) (Fin 5) = Fin 0" by (rule js_sub_self)
  ultimately show ?thesis using jams_equivalent
    by (simp add: move_item_patches_def Let_def js_le_def item_quantity_patches_def require_active_location_def
        require_location_def sample_next_version del: js_add.simps)
qed

lemma plan_progress:
  "move_progress_patches plan_state (Some ''left'') (Some ''right'') ts = Inr []"
  by (simp add: move_progress_patches_def bulk_move_progress_patches_def require_active_location_def
      require_location_def capture_complete_def)

lemma plan_step_accepted:
  "\<exists>c t. plan_step_complete plan_state ''c1'' ''t1'' ''p1'' ''s1'' = Inr c \<and>
     apply_patches plan_state (ch_patches c) = Inr t"
proof -
  obtain ms where ms: "move_item_patches plan_state jam ''right'' (Fin 5) ''c1'' ''t1'' = Inr ms"
    using plan_move by blast
  let ?steps = "complete_step ''t1'' sample_step [sample_step]"
  let ?qs = "[plan_patch ''p1'' ''steps'' (json_of_list json_of_step [sample_step]) (json_of_list json_of_step ?steps),
     plan_patch ''p1'' ''status'' (JStr (plan_status_name Active)) (JStr (plan_status_name Completed))]"
  have "step_item_patches plan_state ''c1'' ''t1'' sample_step = Inr ms"
    using ms by (simp add: step_item_patches_def require_item_def require_active_location_def require_location_def
        plan_progress other_quantity_def sample_step_def)
  then have c: "plan_step_complete plan_state ''c1'' ''t1'' ''p1'' ''s1'' =
      mk_change (''Completed plan step: '' @ ''Together'') (ms @ ?qs) [''p1'', ''jam'']"
    by (simp add: plan_step_complete_def require_plan_def assert_plan_selection_def selection_json_def
        plan_selection_issue_def plan_selection_step_issue_def completed_def sample_step_def moves_item_def
        complete_step_def step_subject_def)
  have "apply_patches plan_state ms = Inr (plan_state\<lparr>ws_items := moved_items plan_state jam ''right'' (Fin 5) ''c1'' ''t1''\<rparr>)"
    using move_implements [OF ms] by (simp add: apply_item_patches)
  moreover have "\<exists>u. apply_patches (plan_state\<lparr>ws_items := xs\<rparr>) ?qs = Inr u" for xs
    using plan_patches(2) [of "''p1''" "[sample_plan]"]
      plan_patches(1) [of "''p1''" "[sample_plan\<lparr>p_steps := ?steps\<rparr>]" _ Completed]
    by (simp add: apply_patches_Cons set_plan_def)
  ultimately show ?thesis using c by (auto simp: apply_patches_append mk_change_def)
qed

end
