(* ===== verification/Sample_Sync.thy ===== *)
theory Sample_Sync
  imports Snapshot_Store Sample_Plan
begin

text \<open>
  The sample workspace on the server: the witnesses of the properties of the synchronisation
  send the move of the jam.  The size of a serialised snapshot is bounded without writing the
  text out.
\<close>

section \<open>A bound on the size of a serialised value\<close>

fun size_bound :: "json \<Rightarrow> nat" where
  "size_bound JNull = 4"
| "size_bound (JBool b) = 5"
| "size_bound (JNum n) = (if is_finite n then 2 * length (num_to_string n) else 4)"
| "size_bound (JStr s) = 12 * length s + 2"
| "size_bound (JArr js) = sum_list (map (\<lambda>j. size_bound j + 1) js) + 2"
| "size_bound (JObj m) = sum_list (map (\<lambda>(k, j). 12 * length k + 4 + size_bound j) m) + 2"

lemma utf8_length_simps [simp]:
  "utf8_length [] = 0" "utf8_length (a @ b) = utf8_length a + utf8_length b"
  "utf8_length (c # a) = (if (of_char c :: nat) < 128 then 1 else 2) + utf8_length a"
  by (simp_all add: utf8_length_def)

lemma utf8_length_le: "utf8_length s \<le> 2 * length s"
  by (induction s) auto

lemma utf8_quote: "utf8_length (quote_char c) \<le> 12"
proof -
  have "length (quote_char c) \<le> 6" by (simp add: quote_char_def Let_def)
  then show ?thesis using utf8_length_le [of "quote_char c"] by linarith
qed

lemma utf8_quoted: "utf8_length (quoted s) \<le> 12 * length s + 2"
proof -
  have "utf8_length (concat (map quote_char s)) \<le> 12 * length s"
  proof (induction s)
    case (Cons c s) then show ?case using utf8_quote [of c] by simp
  qed simp
  then show ?thesis by (simp add: quoted_def)
qed

lemma utf8_join: "utf8_length (join_with '','' ts) \<le> sum_list (map (\<lambda>t. utf8_length t + 1) ts)"
  by (induction ts rule: induct_list012) auto

lemma serialized_bound: "serialized_bytes j \<le> size_bound j"
  unfolding serialized_bytes_def
proof (induction j)
  case (JNum n)
  then show ?case using utf8_length_le by simp
next
  case (JStr s)
  then show ?case using utf8_quoted by simp
next
  case (JArr js)
  have "sum_list (map (\<lambda>t. utf8_length t + 1) (map json_text js)) \<le> sum_list (map (\<lambda>j. size_bound j + 1) js)"
    using JArr by (simp add: comp_def) (intro sum_list_mono, simp)
  then show ?case using utf8_join [of "map json_text js"] by simp
next
  case (JObj m)
  let ?t = "\<lambda>(k, j). quoted k @ '':'' @ json_text j"
  have "utf8_length (?t e) + 1 \<le> (\<lambda>(k, j). 12 * length k + 4 + size_bound j) e" if "e \<in> set m" for e
  proof (cases e)
    case (Pair k j)
    then show ?thesis using JObj [of e j] that utf8_quoted [of k] by (simp add: snds.simps)
  qed
  then have "sum_list (map (\<lambda>t. utf8_length t + 1) (map ?t m)) \<le> sum_list (map (\<lambda>(k, j). 12 * length k + 4 + size_bound j) m)"
    unfolding map_map comp_def by (intro sum_list_mono) auto
  then show ?case using utf8_join [of "map ?t m"] by simp
qed simp_all

section \<open>One digit\<close>

lemma decimal_exponent_digit:
  assumes "1 \<le> q" and "q < 10"
  shows "decimal_exponent q = 1"
proof -
  have small: "\<not> q < 10 powi (int j - 340)" if "j < 341" for j
  proof -
    have "(10::rat) powi (int j - 340) \<le> 10 powi 0" by (rule power_int_increasing) (use that in auto)
    then show ?thesis using assms(1) by simp
  qed
  have "List.find (\<lambda>k. q < 10 powi (int k - 340)) [0..<700] = Some 341"
    unfolding find_Some_iff using assms(2) small by (intro exI [of _ 341]) (auto simp: nth_upt)
  then show ?thesis by (simp add: decimal_exponent_def)
qed

lemma digit_text:
  assumes "1 \<le> m" and "m \<le> (9::int)"
  shows "length (num_to_string (Fin (of_int m))) = 1"
proof -
  have "decimal_exponent (of_int m) = 1" using assms by (intro decimal_exponent_digit) simp_all
  moreover have "round_double (of_int m :: rat) = Fin (of_int m)"
    using assms by (intro round_double_of_int) simp_all
  ultimately have "shortest_digits (of_int m) = (m, 1)"
    using assms by (simp add: shortest_digits_def Let_def upt_rec)
  moreover have "digits_of (nat m) = [char_of (48 + nat m)]" using assms by (simp add: digits_of.simps)
  ultimately show ?thesis using assms by (simp add: positive_string_def strip_zeros_def Let_def)
qed

lemma sample_digits:
  "length (num_to_string (Fin 0)) = 1"
  "length (num_to_string (Fin 1)) = 1" "length (num_to_string (Fin 2)) = 1" "length (num_to_string (Fin 3)) = 1"
  "length (num_to_string (Fin 4)) = 1" "length (num_to_string (Fin 5)) = 1" "length (num_to_string (Fin 7)) = 1" "length (num_to_string (Fin 8)) = 1"
  using digit_text [of 1] digit_text [of 2] digit_text [of 3] digit_text [of 4] digit_text [of 5] digit_text [of 7] digit_text [of 8]
  by (simp, simp_all del: num_to_string.simps)

section \<open>The move of the jam\<close>

definition moved_state :: wstate where
  "moved_state = bump_revision ''t1'' (sample_state
     \<lparr>ws_items := moved_items sample_state jam ''right'' (Fin 2) ''c1'' ''t1'',
      ws_activities := [activity_of move_jam
        \<lparr>ch_label = ''Moved '' @ num_to_string (Fin 2) @ '' '' @ i_unit jam @ '' '' @ i_name jam,
         ch_patches = jam_patches, ch_subjectIds = [''jam'', ''left'', ''right'']\<rparr>]\<rparr>)"

lemma sample_activities [simp]: "ws_activities sample_state = []" "ws_audit sample_state = []"
    "ws_commandReceipts sample_state = []"
  by (simp_all add: sample_state_def)

lemma move_jam_result:
  "apply_command (\<lambda>_. True) sample_state move_jam =
     Inr \<lparr>cr_activity = Some (hd (ws_activities moved_state)), cr_audit = None, cr_state = moved_state\<rparr>"
  by (simp add: Let_def apply_command_def normalize_envelope_def validate_envelope_def check_revision_def
      apply_normal_command_def normal_patches_def sample_envelope_def sample_item_move moved_state_def bump_revision_def
      mk_change_def jam_patches_apply blank_def js_trim_def is_space_def is_safe_integer_def max_safe_def js_le_def
      del: js_add.simps num_to_string.simps)

lemma moved_items_sample:
  "moved_items sample_state jam ''right'' (Fin 2) ''c1'' ''t1'' =
     [jam\<lparr>i_quantity := Fin 3, i_updatedAt := ''t1'', i_version := Fin 2\<rparr>,
      jam2\<lparr>i_quantity := Fin 4, i_updatedAt := ''t1'', i_version := Fin 2\<rparr>]"
  by (simp add: moved_items_def Let_def sample_merge sample_arith set_item_def with_quantity_def next_version_def
      del: js_add.simps)

lemma sample_text: "i_unit jam = ''jar''" "i_name jam = ''Jam''"
  by (simp_all add: sample_item_def)

text \<open>The sizes of the parts.\<close>

lemma sample_item_size:
  "n \<in> {Fin 3, Fin 4} \<Longrightarrow> length i \<le> 10 \<Longrightarrow> length nm \<le> 10 \<Longrightarrow> length loc \<le> 10 \<Longrightarrow>
   size_bound (json_of_item (sample_item i nm loc q\<lparr>i_quantity := n, i_updatedAt := ''t1'', i_version := Fin 2\<rparr>)) \<le> 10000"
  by (auto simp: sample_item_def item_obj_def sample_digits constraints_obj_def json_of_list_def json_of_nullable_def
      simp del: num_to_string.simps)

lemma sample_location_size:
  "length i \<le> 10 \<Longrightarrow> length code \<le> 10 \<Longrightarrow> kind \<in> {Room, Box} \<Longrightarrow> parent \<in> {None, Some ''room''} \<Longrightarrow>
   size_bound (json_of_location (sample_location i code kind parent)) \<le> 10000"
  by (auto simp: sample_location_def location_obj_def sample_digits json_of_conditions_def plain_conditions_def
      json_of_list_def json_of_nullable_def simp del: num_to_string.simps)

lemma moved_activity_size: "size_bound (json_of_activity (hd (ws_activities moved_state))) \<le> 10000"
  by (simp add: moved_state_def bump_revision_def activity_of_def json_of_activity_def json_of_list_def json_of_patch_def
      jam_patches_def meaningful_patches_def sample_envelope_def sample_text sample_digits json_of_nullable_def
      mk_patch_def is_bookkeeping_def uniq_distinct del: num_to_string.simps)

lemma moved_workspace: "ws_workspace moved_state =
    \<lparr>w_createdAt = ''t0'', w_id = ''w'', w_name = ''Home'', w_revision = Fin 8, w_updatedAt = ''t1''\<rparr>"
  by (simp add: moved_state_def bump_revision_def sample_arith sample_state_def del: js_add.simps)

lemma moved_state_sel [simp]:
  "ws_locations moved_state = sample_locations" "ws_plans moved_state = []" "ws_audit moved_state = []"
  "ws_commandReceipts moved_state = []" "ws_schemaVersion moved_state = 2"
  "ws_items moved_state =
     [jam\<lparr>i_quantity := Fin 3, i_updatedAt := ''t1'', i_version := Fin 2\<rparr>,
      jam2\<lparr>i_quantity := Fin 4, i_updatedAt := ''t1'', i_version := Fin 2\<rparr>]"
  "\<exists>a. ws_activities moved_state = [a] \<and> a_commandId a = ''c1''"
  "length (ws_activities moved_state) = 1"
  by (simp_all add: moved_state_def bump_revision_def moved_items_sample activity_of_def sample_envelope_def)
    (simp_all add: sample_state_def)

lemma moved_state_bytes: "state_bytes moved_state \<le> 1800000"
proof -
  obtain a where a: "ws_activities moved_state = [a]" using moved_state_sel(7) by blast
  have "size_bound (json_of_activity a) \<le> 10000" using moved_activity_size by (simp add: a)
  moreover have "size_bound (json_of_workspace (ws_workspace moved_state)) \<le> 10000"
    by (simp add: moved_workspace workspace_obj_def sample_digits del: num_to_string.simps)
  moreover have "sum_list (map (\<lambda>l. size_bound (json_of_location l) + 1) sample_locations) \<le> 40000"
    using sample_location_size [of "''room''" "''R''" Room None] sample_location_size [of "''left''" "''L''" Box "Some ''room''"]
      sample_location_size [of "''right''" "''X''" Box "Some ''room''"]
    unfolding sample_locations_def by (simp del: size_bound.simps)
  moreover have "sum_list (map (\<lambda>x. size_bound (json_of_item x) + 1) (ws_items moved_state)) \<le> 30000"
    using sample_item_size [of "Fin 3" "''jam''" "''Jam''" "''left''" "Fin 5"] sample_item_size [of "Fin 4" "''jam2''" "'' JAM ''" "''right''" "Fin 2"]
    by (simp del: size_bound.simps)
  ultimately have "size_bound (json_of_state moved_state) \<le> 1800000"
    unfolding json_of_state_def json_of_list_def size_bound.simps
    by (simp add: a comp_def sample_digits del: num_to_string.simps)
  then show ?thesis using serialized_bound [of "json_of_state moved_state"] by (simp add: state_bytes_def)
qed

lemma moved_patch_count: "patch_count (ws_activities moved_state) = 2"
  by (simp add: moved_state_def bump_revision_def activity_of_def jam_patches_def meaningful_patches_def
      is_bookkeeping_def mk_patch_def patch_count_def)

lemma moved_within_limits: "within_limits snapshot_limits moved_state"
  using moved_state_bytes moved_patch_count by (simp add: within_limits_def snapshot_limits_def)

definition move_result :: command_result where
  "move_result = \<lparr>cr_activity = Some (hd (ws_activities moved_state)), cr_audit = None, cr_state = moved_state\<rparr>"

lemma move_compacted [simp]: "compact_result move_result = moved_state"
  using within_limits_compact [OF moved_within_limits] by (simp add: compact_result_def move_result_def)

lemma moved_within_quotas:
  "assert_snapshot_within_quotas (json_of_state moved_state) p Status_409 = Inr (snapshot_quota_usage (json_of_state moved_state))"
proof -
  have b: "qu_storedBytes (snapshot_quota_usage (json_of_state moved_state)) \<le> 1800000"
    using moved_state_bytes by (simp add: snapshot_quota_usage_def state_bytes_def)
  then show ?thesis
    using moved_patch_count
    by (auto simp: patch_count_def within_quotas snapshot_quota_order_def exceeds_def state_usage sample_locations_def)
qed

lemma sample_step:
  "process_command (\<lambda>_. True) sample_state (start_batch sample_state) move_jam =
     Some (add_receipt ''c1'' Receipt_applied None
       \<lparr>b_state = moved_state, b_usage = snapshot_quota_usage (json_of_state moved_state), b_receipts = [], b_applied = True\<rparr>)"
proof -
  have "rebase sample_state (start_batch sample_state) move_jam = move_jam"
    by (simp add: rebase_def start_batch_def sample_envelope_def)
  moreover have "b_state (start_batch sample_state) = sample_state" "b_receipts (start_batch sample_state) = []"
    by (simp_all add: start_batch_def)
  moreover have "\<not> was_applied sample_state ''c1''" by (simp add: was_applied_def)
  moreover have "apply_command (\<lambda>_. True) sample_state move_jam = Inr move_result"
    using move_jam_result by (simp add: move_result_def)
  moreover have "e_id move_jam = ''c1''" by (simp add: sample_envelope_def)
  ultimately show ?thesis
    by (simp add: process_command_def Let_def moved_within_quotas start_batch_def)
qed

lemma sample_batch:
  "\<exists>b. process_batch (\<lambda>_. True) sample_state [move_jam] = Some b \<and> b_state b = moved_state \<and> b_applied b \<and>
     b_receipts b = [\<lparr>rc_commandId = ''c1'', rc_rejection = None, rc_revision = Fin 8, rc_status = Receipt_applied\<rparr>]"
  using sample_step by (simp add: process_batch_def add_receipt_def moved_workspace)

text \<open>The workspace on the memory store and the request of a device.\<close>

definition sample_store :: memory_store where
  "sample_store = memory_store [sample_state]"

definition sample_request :: request where
  "sample_request = \<lparr>rq_workspaceId = ''w'', rq_commands = [move_jam], rq_maxRetries = default_sync_retries\<rparr>"

lemma sample_current: "current_state sample_state"
  by (simp add: current_state_def sample_state_def sample_items_def sample_item_def schema_version_def)

lemma sample_load: "memory_load sample_store ''w'' = Some sample_state" "memory_load sample_store w \<noteq> None \<Longrightarrow> w = ''w''"
  using normalize_current [OF sample_current]
  by (auto simp: memory_load_def sample_store_def memory_store_def normalized_clone_def split: if_splits)

lemma sample_request_sel [simp]:
  "rq_workspaceId sample_request = ''w''" "rq_commands sample_request = [move_jam]"
  "rq_maxRetries sample_request = default_sync_retries"
  by (simp_all add: sample_request_def)

lemma sample_store_wf: "memory_load sample_store w = Some s \<Longrightarrow> wf_state s"
  using sample_load sample_wf by (cases "w = ''w''") auto

text \<open>The client loads the workspace, writes its batch back and is answered.\<close>

lemma sample_start: "sync_start sample_request = Attempting 0"
  by (simp add: sync_start_def sample_request_def sample_envelope_def)

lemma sample_run:
  "\<exists>rs m. system_run memory_load memory_compare_and_swap (\<lambda>_. True)
     (map (\<lambda>rq. (rq, sync_start rq)) [sample_request], sample_store) ([(sample_request, Answered rs moved_state)], m)"
proof -
  let ?step = "sync_step memory_load memory_compare_and_swap (\<lambda>_. True) sample_request"
  obtain b where b: "process_batch (\<lambda>_. True) sample_state [move_jam] = Some b" "b_state b = moved_state" "b_applied b"
    using sample_batch by blast
  have load: "?step (Attempting 0, sample_store) = (Loaded 0 sample_state, sample_store)"
    by (simp add: sync_step_def sample_request_def sample_load default_sync_retries_def)
  have "fst (memory_compare_and_swap sample_store ''w'' (Fin 7) moved_state)"
    by (rule memory.cas_current [OF sample_load(1)]) simp
  then obtain m where "memory_compare_and_swap sample_store ''w'' (Fin 7) moved_state = (True, m)"
    by (metis prod.collapse)
  then have swap: "?step (Loaded 0 sample_state, sample_store) = (Answered (b_receipts b) moved_state, m)"
    using b by (simp add: sync_step_def sample_request_def)
  have "system_step memory_load memory_compare_and_swap (\<lambda>_. True)
      ([(sample_request, Attempting 0)], sample_store) ([(sample_request, Loaded 0 sample_state)], sample_store)"
    using client_acts [of 0 "[(sample_request, Attempting 0)]", OF _ _ load] by simp
  moreover have "system_step memory_load memory_compare_and_swap (\<lambda>_. True)
      ([(sample_request, Loaded 0 sample_state)], sample_store) ([(sample_request, Answered (b_receipts b) moved_state)], m)"
    using client_acts [of 0 "[(sample_request, Loaded 0 sample_state)]", OF _ _ swap] by simp
  ultimately have "system_run memory_load memory_compare_and_swap (\<lambda>_. True)
      ([(sample_request, Attempting 0)], sample_store) ([(sample_request, Answered (b_receipts b) moved_state)], m)"
    by (meson run_refl run_step)
  then show ?thesis by (auto simp: sample_start)
qed

end
