(* ===== verification/Device_Properties.thy ===== *)
theory Device_Properties
  imports Sync_Reconciliation Sample_Sync "HOL-Library.Sublist"
begin

text \<open>
  Properties of a device that edits without a connection and reconciles with the server later:
  its outbox, its replica, the batches it sends and the records of its database.  Each property
  is followed by a witness that applies it to a concrete input.
\<close>

section \<open>A device with two queued edits\<close>

definition sample_entry :: "entry_status \<Rightarrow> envelope \<Rightarrow> outbox_entry" where
  "sample_entry st e =
     \<lparr>oe_accountId = Some (Some ''u''), oe_authorization = None, oe_envelope = e, oe_error = None, oe_status = st\<rparr>"

definition sample_replica :: "outbox_entry list \<Rightarrow> local_replica" where
  "sample_replica es =
     \<lparr>lr_authorization = None, lr_lastSyncAttemptAt = None, lr_lastSyncError = None, lr_lastSyncedAt = None,
      lr_outbox = es, lr_serverSummary = None, lr_state = moved_state, lr_updatedAt = ''t1''\<rparr>"

definition later_rename :: envelope where
  "later_rename = sample_envelope (Workspace_rename ''H'')\<lparr>e_id := ''c2''\<rparr>"

abbreviation no_context :: sync_context where
  "no_context \<equiv> \<lparr>sc_authorization = None, sc_summary = None\<rparr>"

lemma sample_ids [simp]: "e_id move_jam = ''c1''" "e_id later_rename = ''c2''"
  by (simp_all add: later_rename_def sample_envelope_def)

lemma sample_entry_sel [simp]:
  "oe_envelope (sample_entry st e) = e" "oe_status (sample_entry st e) = st" "oe_authorization (sample_entry st e) = None"
  "oe_accountId (sample_entry st e) = Some (Some ''u'')"
  by (simp_all add: sample_entry_def)

lemma sample_replica_sel [simp]:
  "lr_outbox (sample_replica es) = es" "lr_state (sample_replica es) = moved_state"
  by (simp_all add: sample_replica_def)

text \<open>The state of the replica has revision 8, the one of the server 7 or 8.\<close>

lemma sample_not_behind:
  "\<not> js_less (revision moved_state) (confirmed_local_revision (sample_replica [x, y]))"
  "\<not> js_less (revision sample_state) (confirmed_local_revision (sample_replica [x]))"
  by (simp_all add: confirmed_local_revision_def js_sub_def moved_workspace
      round_double_of_int [of 6, simplified] round_double_of_int [of 7, simplified])

lemma sample_context:
  "lr_outbox (apply_server_context lc (sample_replica es\<lparr>lr_state := s, lr_outbox := fs\<rparr>) no_context) = fs"
  by (simp add: apply_server_context_def scope_outbox_def scope_outbox_for_account_def normalized_access_def
      device_only_access_def sample_replica_def)

lemma sample_refresh:
  "reconcile_replica (\<lambda>_. True) (sample_replica [sample_entry Pending move_jam]) [] sample_state [] =
     Inr (sample_replica [sample_entry Pending move_jam]\<lparr>lr_state := moved_state, lr_outbox := [sample_entry Pending move_jam]\<rparr>)"
proof -
  have "normalized_clone sample_state = sample_state"
    using normalize_current [OF sample_current] by (simp add: normalized_clone_def)
  then show ?thesis
    unfolding reconcile_replica_def using sample_not_behind(2) [of "sample_entry Pending move_jam"]
    by (simp add: settle_entry_def move_jam_result Let_def)
qed

section \<open>Reconciliation\<close>

text \<open>
  C6: no edit is lost between a device and the server.  When the replica can apply the answer of
  the server to a batch (otherwise the replica stays as it was), every command that was queued on
  it, in whatever batch it was or will be sent, is still queued or was applied by the server: a
  state the batch went through records it, even if a later compaction forgot it.  The commands
  that stay keep their order.
\<close>

theorem no_edit_is_lost:
  assumes "process_batch dp s es = Some b"
    and "apply_successful_response dp lc r sent (b_state b) (b_receipts b) t ctx = Inr q"
  shows "list_all (\<lambda>f. f \<in> set (queued (lr_outbox q)) \<or>
      list_ex (\<lambda>t. was_applied t (e_id f)) (batch_states dp s (start_batch s) es)) (queued (lr_outbox r)) \<and>
    subseq (queued (lr_outbox q)) (queued (lr_outbox r))"
proof
  show "list_all (\<lambda>f. f \<in> set (queued (lr_outbox q)) \<or>
      list_ex (\<lambda>t. was_applied t (e_id f)) (batch_states dp s (start_batch s) es)) (queued (lr_outbox r))"
    using queue_or_server [OF assms] by (simp add: list_all_iff list_ex_iff)
  show "subseq (queued (lr_outbox q)) (queued (lr_outbox r))"
    using successful_queue [OF assms(2)] by auto
qed

theorem no_edit_is_lost_witness:
  "\<exists>b q. process_batch (\<lambda>_. True) sample_state [move_jam] = Some b \<and>
     apply_successful_response (\<lambda>_. True) (\<lambda>_ _. Fin 0)
       (sample_replica [sample_entry Pending move_jam, sample_entry Blocked later_rename])
       [sample_entry Pending move_jam] (b_state b) (b_receipts b) ''t2'' no_context = Inr q \<and>
     queued (lr_outbox q) = [later_rename] \<and>
     list_ex (\<lambda>t. was_applied t ''c1'') (batch_states (\<lambda>_. True) sample_state (start_batch sample_state) [move_jam])"
proof -
  let ?r = "sample_replica [sample_entry Pending move_jam, sample_entry Blocked later_rename]"
  obtain b where b: "process_batch (\<lambda>_. True) sample_state [move_jam] = Some b" "b_state b = moved_state"
    "b_receipts b = [\<lparr>rc_commandId = ''c1'', rc_rejection = None, rc_revision = Fin 8, rc_status = Receipt_applied\<rparr>]"
    using sample_batch by blast
  obtain q where q: "apply_successful_response (\<lambda>_. True) (\<lambda>_ _. Fin 0) ?r [sample_entry Pending move_jam] (b_state b) (b_receipts b)
      ''t2'' no_context = Inr q" "queued (lr_outbox q) = [later_rename]"
    by (simp add: apply_successful_response_def reconcile_replica_def settle_entry_def confirmed_by_def receipt_for_def
        b sample_not_behind Let_def)
  have "e_id move_jam \<noteq> e_id later_rename" by simp
  then have other: "move_jam \<noteq> later_rename" by metis
  have "list_ex (\<lambda>t. was_applied t ''c1'') (batch_states (\<lambda>_. True) sample_state (start_batch sample_state) [move_jam])"
    using no_edit_is_lost [OF b(1) q(1)] other unfolding q(2) by (simp del: map_map batch_states.simps)
  with b(1) q show ?thesis by (intro exI [of _ b] exI [of _ q] conjI)
qed

text \<open>
  C7: what a device shows is the state of the server with its own queued commands applied.
  After a successful answer that is not behind the replica and concerns a command that is still
  queued, the queue holds exactly the commands that were not confirmed, and the state is
  the one that the queued commands lead to from the normalised state of the server; only
  while a command of the queue is blocked does the replica keep the state it had.
\<close>

theorem replica_is_server_plus_queue:
  assumes "apply_successful_response dp lc r sent server rs t ctx = Inr q"
    and "\<not> js_less (revision server) (confirmed_local_revision r)"
    and "sent = [] \<or> list_ex (\<lambda>e. entry_id e \<in> entry_id ` set sent) (lr_outbox r)"
  shows "queued (lr_outbox q) =
      filter (\<lambda>f. \<not> (e_id f \<in> entry_id ` set sent \<and> confirmed_by rs (e_id f))) (queued (lr_outbox r)) \<and>
    (if list_ex (\<lambda>e. oe_status e = Blocked) (lr_outbox q)
     then lr_state q = lr_state r \<or> run dp (normalized_clone server) (queued (lr_outbox q)) (lr_state q)
     else run dp (normalized_clone server) (queued (lr_outbox q)) (lr_state q))"
  using current_answer [OF assms] successful_state [OF assms(1)] by auto

theorem replica_is_server_plus_queue_witness:
  "\<exists>q. apply_successful_response (\<lambda>_. True) (\<lambda>_ _. Fin 0) (sample_replica [sample_entry Pending move_jam]) [] sample_state []
       ''t2'' no_context = Inr q \<and>
     run (\<lambda>_. True) sample_state [move_jam] (lr_state q)"
proof -
  let ?r = "sample_replica [sample_entry Pending move_jam]"
  have clone: "normalized_clone sample_state = sample_state"
    using normalize_current [OF sample_current] by (simp add: normalized_clone_def)
  obtain q where q: "apply_successful_response (\<lambda>_. True) (\<lambda>_ _. Fin 0) ?r [] sample_state [] ''t2'' no_context = Inr q"
    "lr_outbox q = [sample_entry Pending move_jam]"
    by (simp add: apply_successful_response_def sample_refresh sample_context)
  have "\<not> js_less (revision sample_state) (confirmed_local_revision ?r)" by (rule sample_not_behind)
  from replica_is_server_plus_queue [OF q(1) this] q show ?thesis by (auto simp: clone)
qed

section \<open>What is sent\<close>

text \<open>
  C8: the batch a device sends is the longest run of pending commands, from the first one on,
  that belong to the account and carry the authorisation basis of the first, cut off at the
  number of commands one request may have: never out of order, and never
  commands queued under another account or another basis.
\<close>

theorem batch_is_uniform_run:
  "select_pending_sync_batch outbox account =
     (let pending = filter (\<lambda>e. oe_status e = Pending) outbox
      in takeWhile (\<lambda>e. of_account account e \<and> same_basis (oe_authorization (hd pending)) (oe_authorization e))
           (take 100 pending))"
proof (cases "filter (\<lambda>e. oe_status e = Pending) outbox")
  case (Cons x xs)
  have "select_pending_sync_batch outbox account =
      (if of_account account x then take_batch account (oe_authorization x) 0 (x # xs) else [])"
    by (simp add: select_pending_sync_batch_def Cons del: take_batch.simps)
  moreover have "take_batch account (oe_authorization x) 0 (x # xs) =
      takeWhile (\<lambda>e. of_account account e \<and> same_basis (oe_authorization x) (oe_authorization e)) (take 100 (x # xs))"
    using take_batch_run [of 0 account "oe_authorization x" "x # xs"] by (simp add: commands_per_sync_request_def)
  ultimately show ?thesis by (simp add: Cons del: take_batch.simps)
qed (simp add: select_pending_sync_batch_def)

section \<open>The records of the device\<close>

text \<open>
  C9: through every sequence of operations on the database of a device, with update callbacks that
  keep the workspace of the replica they are given, each replica lies under the identifier of its workspace and the open replica has the very same record under its
  own workspace, so opening, replacing or updating one workspace never shows or overwrites an
  outdated copy of another.
\<close>

theorem device_store_stays_mirrored:
  assumes "(device_step lc)\<^sup>*\<^sup>* empty_device d"
  shows "list_all (\<lambda>w. map_option replica_id (workspace_replica d w) = Some w) (map fst (ds_workspaces d)) \<and>
    (case ds_active d of None \<Rightarrow> True | Some r \<Rightarrow> workspace_replica d (replica_id r) = Some r)"
proof -
  from assms have "mirrored d"
    by (induction rule: rtranclp_induct) (auto intro: mirrored_empty device_step_mirrored)
  then show ?thesis by (rule mirrored_spelled)
qed

theorem device_store_stays_mirrored_witness:
  "\<exists>d. ds_active d = Some (sample_replica []) \<and> workspace_replica d ''w'' = Some (sample_replica [])"
proof -
  let ?r = "sample_replica []"
  let ?d = "write_replica ?r empty_device"
  have "(device_step undefined)\<^sup>*\<^sup>* empty_device ?d" by (intro r_into_rtranclp device_step.intros)
  from device_store_stays_mirrored [OF this] show ?thesis
    by (intro exI [of _ ?d]) (simp add: write_replica_def put_active_def put_workspace_def moved_workspace)
qed



end
