(* ===== verification/Csv_Import.thy ===== *)
theory Csv_Import
  imports Csv_Parse Factories History_Retention Quotas
begin

text \<open>
  Planning a spreadsheet import (\<open>src/domain/csv-import.ts\<close> after the reader): guessing which
  column holds which property, matching location values against the workspace, checking the
  mapping and every row, building the items, and trying the resulting command on the workspace
  to see whether its quotas allow it.

  Issues keep their code, field and record number; messages are left out, and with them the
  severity, which is \<open>error\<close> for every issue the program creates.  A column index is a number,
  as in the code; an index that is no position of the row reads as nothing.

  The vertical bar of paths in other scripts (\<open>U+203A\<close>) is not among the 8-bit characters.
\<close>

section \<open>Text\<close>

text \<open>\<open>s.replace(/p+/g, sep)\<close> for a class of characters.\<close>

fun replace_runs :: "(char \<Rightarrow> bool) \<Rightarrow> string \<Rightarrow> bool \<Rightarrow> string \<Rightarrow> string" where
  "replace_runs p sep inside [] = []"
| "replace_runs p sep inside (c # s) =
     (if p c then (if inside then [] else sep) @ replace_runs p sep True s
      else c # replace_runs p sep False s)"

definition is_lower_alnum :: "char \<Rightarrow> bool" where
  "is_lower_alnum c \<longleftrightarrow> (let n = (of_char c :: nat) in (97 \<le> n \<and> n \<le> 122) \<or> (48 \<le> n \<and> n \<le> 57))"

definition normalized_words :: "string \<Rightarrow> string" where
  "normalized_words s = js_trim (replace_runs (\<lambda>c. \<not> is_lower_alnum c) '' '' False (js_lower (js_trim s)))"

definition csv_location_value_key :: "string \<Rightarrow> string" where
  "csv_location_value_key s = replace_runs is_space '' '' False (js_lower (js_trim s))"

definition csv_value_preview :: "string \<Rightarrow> nat \<Rightarrow> string" where
  "csv_value_preview s maximum =
     (let normalized = replace_runs is_space '' '' False (js_trim s)
      in if length normalized \<le> maximum then normalized
         else take (if 3 \<le> maximum then maximum - 3 else length normalized - (3 - maximum)) normalized @ ''...'')"

definition is_path_separator :: "char \<Rightarrow> bool" where
  "is_path_separator c \<longleftrightarrow> c = CHR ''>'' \<or> c = CHR ''/'' \<or> c = CHR 0x5C"

text \<open>
  \<open>replace(/\s*(?:>|\/|\\)\s*/g, "/")\<close>: white space is held back until it is known not to touch
  a separator.
\<close>

fun slash_separators :: "bool \<Rightarrow> string \<Rightarrow> string \<Rightarrow> string" where
  "slash_separators after_sep held [] = held"
| "slash_separators after_sep held (c # s) =
     (if is_path_separator c then CHR ''/'' # slash_separators True [] s
      else if is_space c then slash_separators after_sep (if after_sep then [] else held @ [c]) s
      else held @ c # slash_separators False [] s)"

definition normalized_path :: "string \<Rightarrow> string" where
  "normalized_path s = slash_separators False [] (csv_location_value_key s)"

section \<open>Columns\<close>

datatype csv_field = F_name | F_quantity | F_unit | F_category | F_description | F_tags | F_frequency

datatype issue_field = Field csv_field | Field_location | Field_row

definition csv_item_fields :: "csv_field list" where
  "csv_item_fields = [F_name, F_quantity, F_unit, F_category, F_description, F_tags, F_frequency]"

type_synonym csv_mapping = "csv_field \<Rightarrow> jsnum option"

definition empty_csv_item_mapping :: csv_mapping where
  "empty_csv_item_mapping = (\<lambda>_. None)"

fun header_aliases :: "issue_field \<Rightarrow> string list" where
  "header_aliases (Field F_category) = [''category'', ''group'', ''item category'', ''type'']"
| "header_aliases (Field F_description) = [''description'', ''details'', ''note'', ''notes'']"
| "header_aliases (Field F_frequency) = [''frequency'', ''usage'', ''usage frequency'', ''used'']"
| "header_aliases Field_location =
     [''container'', ''container code'', ''location'', ''location code'', ''space'', ''storage location'']"
| "header_aliases (Field F_name) = [''item'', ''item name'', ''name'', ''product'', ''title'']"
| "header_aliases (Field F_quantity) = [''amount'', ''count'', ''qty'', ''quantity'']"
| "header_aliases (Field F_tags) = [''keywords'', ''labels'', ''tags'']"
| "header_aliases (Field F_unit) = [''measurement unit'', ''unit'', ''units'', ''uom'']"
| "header_aliases Field_row = []"

text \<open>The guesses, in the order the fields are tried; a column is used once.\<close>

fun guess_columns :: "csv_column list \<Rightarrow> nat list \<Rightarrow> issue_field list \<Rightarrow> (issue_field \<times> nat) list" where
  "guess_columns cols used [] = []"
| "guess_columns cols used (f # fs) =
     (case List.find (\<lambda>c. col_index c \<notin> set used \<and> normalized_words (col_header c) \<in> set (header_aliases f)) cols of
        None \<Rightarrow> guess_columns cols used fs
      | Some c \<Rightarrow> (f, col_index c) # guess_columns cols (col_index c # used) fs)"

definition guess_csv_columns :: "parsed_csv \<Rightarrow> issue_field \<Rightarrow> jsnum option" where
  "guess_csv_columns p =
     (let guesses = guess_columns (pc_columns p) [] (map Field csv_item_fields @ [Field_location])
      in (\<lambda>f. map_option (\<lambda>n. JsInt (int n)) (map_of guesses f)))"

text \<open>The position an index names in a list of the given length.\<close>

definition position :: "jsnum \<Rightarrow> nat \<Rightarrow> nat option" where
  "position n len =
     (if is_integer n \<and> 0 \<le> num_val n \<and> nat \<lfloor>num_val n\<rfloor> < len then Some (nat \<lfloor>num_val n\<rfloor>) else None)"

definition valid_column :: "jsnum option \<Rightarrow> parsed_csv \<Rightarrow> nat option" where
  "valid_column n p = Option.bind n (\<lambda>k. position k (length (pc_columns p)))"

definition row_cell :: "csv_row \<Rightarrow> jsnum option \<Rightarrow> string" where
  "row_cell d n =
     (case Option.bind n (\<lambda>k. position k (length (dr_cells d))) of None \<Rightarrow> [] | Some k \<Rightarrow> dr_cells d ! k)"

section \<open>Locations\<close>

datatype matched_by = By_code | By_name | By_path

record location_match =
  lm_ambiguous :: bool
  lm_locationId :: "string option"
  lm_matchedBy :: "matched_by option"

definition no_match :: location_match where
  "no_match = \<lparr>lm_ambiguous = False, lm_locationId = None, lm_matchedBy = None\<rparr>"

text \<open>\<open>new Map(entries)\<close>: the last record of an identifier counts.\<close>

definition by_id :: "location list \<Rightarrow> string \<Rightarrow> location option" where
  "by_id ls i = List.find (\<lambda>l. l_id l = i) (rev ls)"

text \<open>The walk to the root, which stops at a location it has seen; it starts at a location of the list.\<close>

function name_walk :: "location list \<Rightarrow> string set \<Rightarrow> location option \<Rightarrow> string list" where
  "name_walk ls seen current =
     (case current of
        None \<Rightarrow> []
      | Some l \<Rightarrow>
          if l_id l \<in> seen then []
          else if l \<notin> set ls then [l_name l]
          else name_walk ls (insert (l_id l) seen)
                 (case l_parentId l of None \<Rightarrow> None | Some p \<Rightarrow> if p = [] then None else by_id ls p) @ [l_name l])"
  by pat_completeness auto
termination
proof (relation "measure (\<lambda>(ls, seen, c). card (l_id ` set ls - seen))", goal_cases)
  case (2 ls seen current l)
  then have "l_id l \<in> l_id ` set ls - seen" by simp
  then have "card (l_id ` set ls - insert (l_id l) seen) < card (l_id ` set ls - seen)"
    by (intro psubset_card_mono) auto
  then show ?case by simp
qed simp

declare name_walk.simps [simp del]

definition location_name_path :: "location list \<Rightarrow> location \<Rightarrow> string" where
  "location_name_path ls l = join_with ''/'' (name_walk ls {} (Some l))"

definition unique_location_match :: "location list \<Rightarrow> matched_by \<Rightarrow> location_match option" where
  "unique_location_match ls how =
     (case ls of
        [] \<Rightarrow> None
      | [l] \<Rightarrow> Some \<lparr>lm_ambiguous = False, lm_locationId = Some (l_id l), lm_matchedBy = Some how\<rparr>
      | _ \<Rightarrow> Some \<lparr>lm_ambiguous = True, lm_locationId = None, lm_matchedBy = None\<rparr>)"

definition or_else :: "'a option \<Rightarrow> 'a option \<Rightarrow> 'a option" where
  "or_else x y = (case x of None \<Rightarrow> y | Some v \<Rightarrow> Some v)"

definition match_csv_location :: "string \<Rightarrow> location list \<Rightarrow> location_match" where
  "match_csv_location s locations =
     (let key = csv_location_value_key s; path = normalized_path s;
          active = filter (\<lambda>l. \<not> l_archived l) locations;
          by_code = unique_location_match (filter (\<lambda>l. csv_location_value_key (l_code l) = key) active) By_code;
          by_path = unique_location_match
            (filter (\<lambda>l. normalized_path (location_name_path active l) = path) active) By_path;
          by_name = unique_location_match (filter (\<lambda>l. csv_location_value_key (l_name l) = key) active) By_name
      in if key = [] then no_match
         else (case or_else by_code (or_else by_path by_name) of None \<Rightarrow> no_match | Some m \<Rightarrow> m))"

record value_group =
  vg_count :: nat
  vg_key :: string
  vg_label :: string
  vg_match :: location_match
  vg_recordNumbers :: "nat list"

text \<open>The groups of a column in the order of their first rows.\<close>

definition csv_location_value_groups :: "parsed_csv \<Rightarrow> jsnum \<Rightarrow> location list \<Rightarrow> value_group list" where
  "csv_location_value_groups p n locations =
     (case valid_column (Some n) p of
        None \<Rightarrow> []
      | Some k \<Rightarrow>
          let raw = (\<lambda>d. row_cell d (Some n)); key = (\<lambda>d. csv_location_value_key (raw d)) in
          map (\<lambda>v.
            let ds = filter (\<lambda>d. key d = v) (pc_rows p);
                label = (if js_trim (raw (hd ds)) = [] then ''Blank location'' else js_trim (raw (hd ds)))
            in \<lparr>vg_count = length ds, vg_key = v, vg_label = label,
                vg_match = match_csv_location (if v = [] then [] else label) locations,
                vg_recordNumbers = map dr_recordNumber ds\<rparr>)
            (uniq (map key (pc_rows p))))"

definition suggested_csv_location_assignments :: "value_group list \<Rightarrow> (string \<times> string) list" where
  "suggested_csv_location_assignments groups =
     concat (map (\<lambda>g. case lm_locationId (vg_match g) of
         None \<Rightarrow> []
       | Some i \<Rightarrow> if i = [] then [] else [(vg_key g, i)]) groups)"

datatype csv_placement =
    Single_placement "string option"
  | Column_placement "(string \<times> string) list" "jsnum option"

section \<open>Checking the mapping\<close>

record csv_issue =
  ci_code :: string
  ci_field :: "issue_field option"
  ci_recordNumber :: "nat option"

definition global_issue :: "string \<Rightarrow> issue_field \<Rightarrow> csv_issue" where
  "global_issue code f = \<lparr>ci_code = code, ci_field = Some f, ci_recordNumber = None\<rparr>"

definition row_issue :: "string \<Rightarrow> issue_field \<Rightarrow> csv_row \<Rightarrow> csv_issue" where
  "row_issue code f d = \<lparr>ci_code = code, ci_field = Some f, ci_recordNumber = Some (dr_recordNumber d)\<rparr>"

definition live_location :: "wstate \<Rightarrow> string option \<Rightarrow> location option" where
  "live_location s i = List.find (\<lambda>l. Some (l_id l) = i \<and> \<not> l_archived l) (ws_locations s)"

definition field_issues :: "parsed_csv \<Rightarrow> csv_mapping \<Rightarrow> csv_field \<Rightarrow> csv_issue list" where
  "field_issues p mapping f =
     (if f = F_name \<and> mapping f = None then [global_issue ''NAME_COLUMN_REQUIRED'' (Field f)]
      else if mapping f \<noteq> None \<and> valid_column (mapping f) p = None
      then [global_issue ''INVALID_COLUMN'' (Field f)] else [])"

definition placement_issues :: "parsed_csv \<Rightarrow> csv_placement \<Rightarrow> wstate \<Rightarrow> csv_issue list" where
  "placement_issues p placement s =
     (case placement of
        Single_placement i \<Rightarrow>
          if live_location s i = None then [global_issue ''DESTINATION_REQUIRED'' Field_location] else []
      | Column_placement assignments n \<Rightarrow>
          if valid_column n p = None then [global_issue ''LOCATION_COLUMN_REQUIRED'' Field_location] else [])"

definition mapped_columns :: "parsed_csv \<Rightarrow> csv_mapping \<Rightarrow> csv_placement \<Rightarrow> (issue_field \<times> nat) list" where
  "mapped_columns p mapping placement =
     concat (map (\<lambda>f. case valid_column (mapping f) p of None \<Rightarrow> [] | Some k \<Rightarrow> [(Field f, k)]) csv_item_fields) @
     (case placement of
        Single_placement i \<Rightarrow> []
      | Column_placement assignments n \<Rightarrow>
          (case valid_column n p of None \<Rightarrow> [] | Some k \<Rightarrow> [(Field_location, k)]))"

definition duplicate_issues :: "(issue_field \<times> nat) list \<Rightarrow> csv_issue list" where
  "duplicate_issues mapped =
     concat (map (\<lambda>k.
       let fields = map fst (filter (\<lambda>(f, n). n = k) mapped)
       in if length fields < 2 then [] else [global_issue ''DUPLICATE_COLUMN_MAPPING'' (hd fields)])
       (uniq (map snd mapped)))"

definition mapping_issues :: "parsed_csv \<Rightarrow> csv_mapping \<Rightarrow> csv_placement \<Rightarrow> wstate \<Rightarrow> csv_issue list" where
  "mapping_issues p mapping placement s =
     (if pc_rows p = [] then [global_issue ''NO_DATA_ROWS'' Field_row] else []) @
     concat (map (field_issues p mapping) csv_item_fields) @ placement_issues p placement s @
     duplicate_issues (mapped_columns p mapping placement)"

section \<open>Reading a row\<close>

definition is_digit :: "char \<Rightarrow> bool" where
  "is_digit c \<longleftrightarrow> (let n = (of_char c :: nat) in 48 \<le> n \<and> n \<le> 57)"

fun digits_number :: "string \<Rightarrow> nat \<Rightarrow> nat" where
  "digits_number [] n = n"
| "digits_number (c # s) n = digits_number s (10 * n + (of_char c - 48))"

text \<open>\<open>POSITIVE_DECIMAL\<close>: the integer and the fractional digits of a match.\<close>

definition decimal_parts :: "string \<Rightarrow> (string \<times> string) option" where
  "decimal_parts s =
     (let whole = takeWhile is_digit s in
      case dropWhile is_digit s of
        [] \<Rightarrow> if whole = [] then None else Some (whole, [])
      | c # fraction \<Rightarrow>
          if c = CHR ''.'' \<and> list_all is_digit fraction \<and> (whole \<noteq> [] \<or> fraction \<noteq> []) then Some (whole, fraction) else None)"

definition parse_quantity :: "string \<Rightarrow> jsnum option" where
  "parse_quantity s =
     (if js_trim s = [] then Some (Fin 1)
      else case decimal_parts (js_trim s) of
          None \<Rightarrow> None
        | Some (whole, fraction) \<Rightarrow>
            let q = round_double (of_nat (digits_number (whole @ fraction) 0) / 10 ^ length fraction)
            in if is_finite q \<and> js_less (Fin 0) q then Some q else None)"

definition parse_frequency :: "string \<Rightarrow> frequency option" where
  "parse_frequency s =
     (let normalized = js_lower (js_trim s)
      in if normalized = [] then Some Monthly else enum_of frequency_name all_frequency normalized)"

text \<open>\<open>value.split(/[|;,]/)\<close>.\<close>

fun split_any :: "(char \<Rightarrow> bool) \<Rightarrow> string \<Rightarrow> string list" where
  "split_any p [] = [[]]"
| "split_any p (c # s) =
     (case split_any p s of [] \<Rightarrow> [] | w # ws \<Rightarrow> if p c then [] # w # ws else (c # w) # ws)"

fun new_tags :: "string list \<Rightarrow> string list \<Rightarrow> string list" where
  "new_tags seen [] = []"
| "new_tags seen (candidate # cs) =
     (let tag = js_trim candidate; key = js_lower tag
      in if tag = [] \<or> key \<in> set seen then new_tags seen cs else tag # new_tags (key # seen) cs)"

definition parse_tags :: "string \<Rightarrow> string list" where
  "parse_tags s = new_tags [] (split_any (\<lambda>c. c = CHR ''|'' \<or> c = CHR '';'' \<or> c = CHR '','') s)"

definition row_destination :: "csv_row \<Rightarrow> csv_placement \<Rightarrow> wstate \<Rightarrow> csv_issue list \<times> string option" where
  "row_destination d placement s =
     (case placement of
        Single_placement i \<Rightarrow> ([], map_option l_id (live_location s i))
      | Column_placement assignments None \<Rightarrow> ([], None)
      | Column_placement assignments n \<Rightarrow>
          (case live_location s (map_of assignments (csv_location_value_key (row_cell d n))) of
             Some l \<Rightarrow> ([], Some (l_id l))
           | None \<Rightarrow> ([row_issue ''UNRESOLVED_LOCATION'' Field_location d], None)))"

section \<open>Planning the rows\<close>

record import_options =
  po_commandId :: string
  po_mapping :: csv_mapping
  po_parsed :: parsed_csv
  po_placement :: csv_placement
  po_rowIds :: "nat \<Rightarrow> string option"
  po_state :: wstate
  po_timestamp :: string

record row_plan =
  rp_destinationId :: "string option"
  rp_issues :: "csv_issue list"
  rp_item :: "item option"
  rp_recordNumber :: nat
  rp_source :: csv_row

text \<open>The next free order in every location.\<close>

definition next_item_orders :: "item list \<Rightarrow> string \<Rightarrow> jsnum option" where
  "next_item_orders xs =
     foldl (\<lambda>orders x.
       if i_archived x then orders
       else orders(i_locationId x \<mapsto>
         js_max (case orders (i_locationId x) of None \<Rightarrow> Fin 0 | Some n \<Rightarrow> n) (js_add (i_order x) (Fin 1))))
       (\<lambda>_. None) xs"

definition nonempty :: "string \<Rightarrow> string option" where
  "nonempty t = (if t = [] then None else Some t)"

definition row_item :: "import_options \<Rightarrow> csv_row \<Rightarrow> string \<Rightarrow> string \<Rightarrow> jsnum \<Rightarrow> frequency \<Rightarrow> jsnum \<Rightarrow> item" where
  "row_item po d i loc q fr order =
     (let cell = (\<lambda>f. row_cell d (po_mapping po f)) in
      (create_item
         \<lparr>id_category = nonempty (js_trim (cell F_category)), id_description = Some (cell F_description),
          id_locationId = loc, id_name = js_trim (cell F_name), id_order = Some order,
          id_quantity = Some q, id_unit = nonempty (js_trim (cell F_unit))\<rparr> (po_timestamp po) [])
      \<lparr>i_id := i, i_frequency := fr, i_tags := parse_tags (cell F_tags)\<rparr>)"

definition row_id :: "import_options \<Rightarrow> csv_row \<Rightarrow> string" where
  "row_id po d = (case po_rowIds po (dr_recordNumber d) of None \<Rightarrow> [] | Some i \<Rightarrow> js_trim i)"

text \<open>The issues of a row in the order of the code.\<close>

definition row_issues :: "import_options \<Rightarrow> csv_issue list \<Rightarrow> string set \<Rightarrow> csv_row \<Rightarrow> csv_issue list" where
  "row_issues po destination prepared d =
     (let cell = (\<lambda>f. row_cell d (po_mapping po f)) in
      (if length (dr_cells d) > length (pc_columns (po_parsed po))
       then [row_issue ''EXTRA_COLUMNS'' Field_row d] else []) @
      (if js_trim (cell F_name) = [] \<and> po_mapping po F_name \<noteq> None
       then [row_issue ''NAME_REQUIRED'' (Field F_name) d] else []) @
      (if parse_quantity (cell F_quantity) = None
       then [row_issue ''INVALID_QUANTITY'' (Field F_quantity) d] else []) @
      (if parse_frequency (cell F_frequency) = None
       then [row_issue ''INVALID_FREQUENCY'' (Field F_frequency) d] else []) @
      destination @
      (if row_id po d = [] then [row_issue ''ITEM_ID_REQUIRED'' Field_row d]
       else if row_id po d \<in> i_id ` set (ws_items (po_state po)) \<or> row_id po d \<in> prepared
       then [row_issue ''ITEM_ID_COLLISION'' Field_row d] else []))"

definition plan_row ::
  "import_options \<Rightarrow> csv_issue list \<Rightarrow> string set \<Rightarrow> (string \<Rightarrow> jsnum option) \<Rightarrow> csv_row \<Rightarrow> row_plan" where
  "plan_row po globals prepared orders d =
     (let cell = (\<lambda>f. row_cell d (po_mapping po f));
          (found, destination) =
            (if list_ex (\<lambda>c. ci_field c = Some Field_location) globals then ([], None)
             else row_destination d (po_placement po) (po_state po));
          issues = row_issues po found prepared d
      in \<lparr>rp_destinationId = destination, rp_issues = issues,
          rp_item =
            (if globals \<noteq> [] \<or> issues \<noteq> [] then None
             else case (parse_quantity (cell F_quantity), parse_frequency (cell F_frequency), destination) of
                 (Some q, Some fr, Some loc) \<Rightarrow>
                   if loc = [] then None
                   else Some (row_item po d (row_id po d) loc q fr
                          (case orders loc of None \<Rightarrow> Fin 0 | Some n \<Rightarrow> n))
               | _ \<Rightarrow> None),
          rp_recordNumber = dr_recordNumber d, rp_source = d\<rparr>)"

fun plan_rows ::
  "import_options \<Rightarrow> csv_issue list \<Rightarrow> string set \<Rightarrow> (string \<Rightarrow> jsnum option) \<Rightarrow> csv_row list \<Rightarrow> row_plan list" where
  "plan_rows po globals prepared orders [] = []"
| "plan_rows po globals prepared orders (d # ds) =
     (let rp = plan_row po globals prepared orders d
      in rp # plan_rows po globals
           (if row_id po d = [] then prepared else insert (row_id po d) prepared)
           (case rp_item rp of
              None \<Rightarrow> orders
            | Some x \<Rightarrow> orders(i_locationId x \<mapsto> js_add (i_order x) (Fin 1)))
           ds)"

section \<open>Quotas\<close>

definition history_limits :: retention_limits where
  "history_limits =
     \<lparr>lim_activities = api_quota Activities, lim_activityPatches = api_quota Activity_patches,
      lim_auditEvents = api_quota Audit_events, lim_commandReceipts = api_quota Command_receipts,
      lim_serializedBytes = api_quota Stored_bytes\<rparr>"

record quota_violation =
  qv_actual :: nat
  qv_limit :: nat
  qv_quota :: quota_name

record quota_projection =
  qp_historyWillBeCompacted :: bool
  qp_previousUsage :: quota_usage
  qp_projectedUsage :: quota_usage
  qp_rawUsage :: quota_usage
  qp_violation :: "quota_violation option"

definition preview_options :: "string \<Rightarrow> string \<Rightarrow> envelope_options" where
  "preview_options command_id ts =
     \<lparr>eo_actorId = Some ''csv-import-preview'', eo_deviceId = Some ''csv-import-preview'',
      eo_expectations = None, eo_id = Some command_id, eo_timestamp = Some ts\<rparr>"

definition state_usage_of :: "wstate \<Rightarrow> quota_usage" where
  "state_usage_of s = snapshot_quota_usage (json_of_state s)"

definition project_quota ::
  "(string \<Rightarrow> bool) \<Rightarrow> wstate \<Rightarrow> command \<Rightarrow> string \<Rightarrow> string \<Rightarrow> quota_projection result" where
  "project_quota dp s c command_id ts =
     and_then (create_envelope s c (preview_options command_id ts) [] ts) (\<lambda>e.
     and_then (apply_command dp s e) (\<lambda>r.
       let compacted = compact_workspace_history (cr_state r) history_limits
             (case cr_activity r of None \<Rightarrow> [] | Some a \<Rightarrow> [a_id a]) [];
           previous = state_usage_of s; projected = state_usage_of compacted
       in Inr
         \<lparr>qp_historyWillBeCompacted = (state_bytes (cr_state r) \<noteq> state_bytes compacted),
          qp_previousUsage = previous, qp_projectedUsage = projected,
          qp_rawUsage = state_usage_of (cr_state r),
          qp_violation = map_option
            (\<lambda>q. \<lparr>qv_actual = usage_of projected q, qv_limit = api_quota q, qv_quota = q\<rparr>)
            (List.find (exceeds (Some previous) projected) snapshot_quota_order)\<rparr>))"

section \<open>The plan\<close>

record csv_import_plan =
  ip_canCommit :: bool
  ip_command :: "command option"
  ip_completedDestinations :: "location list"
  ip_destinations :: "(nat \<times> location) list"
  ip_invalidRows :: "row_plan list"
  ip_issues :: "csv_issue list"
  ip_mappingIssues :: "csv_issue list"
  ip_parsed :: parsed_csv
  ip_quota :: "quota_projection option"
  ip_rows :: "row_plan list"
  ip_validRows :: "row_plan list"

definition row_items :: "row_plan list \<Rightarrow> item list" where
  "row_items rps = concat (map (\<lambda>rp. case rp_item rp of None \<Rightarrow> [] | Some x \<Rightarrow> [x]) rps)"

definition import_command :: "item list \<Rightarrow> location list \<Rightarrow> command" where
  "import_command xs finished_spaces =
     Item_bulkCreate (map json_of_item xs) (if finished_spaces \<noteq> [] then Some (JBool True) else None)"

definition plan_csv_import :: "(string \<Rightarrow> bool) \<Rightarrow> import_options \<Rightarrow> csv_import_plan" where
  "plan_csv_import dp po =
     (let s = po_state po;
          mapping = mapping_issues (po_parsed po) (po_mapping po) (po_placement po) s;
          rows = plan_rows po mapping {} (next_item_orders (ws_items s)) (pc_rows (po_parsed po));
          valid = filter (\<lambda>rp. rp_item rp \<noteq> None) rows;
          items = row_items valid;
          checked = mapping @
            (if valid = [] \<and> \<not> list_ex (\<lambda>c. ci_code c = ''NO_DATA_ROWS'') mapping
             then [global_issue ''NO_VALID_ROWS'' Field_row] else []);
          finished_spaces = filter (\<lambda>l. l_id l \<in> set (map i_locationId items) \<and> \<not> l_archived l \<and>
             (l_captureStatus l = Counted \<or> l_captureStatus l = Known_empty)) (ws_locations s);
          command = (if valid \<noteq> [] \<and> checked = [] then Some (import_command items finished_spaces) else None);
          preview = map_option (\<lambda>c. project_quota dp s c (po_commandId po) (po_timestamp po)) command;
          globals = checked @
            (case preview of Some (Inl e) \<Rightarrow> [global_issue ''IMPORT_PREVIEW_FAILED'' Field_row] | _ \<Rightarrow> []);
          quota = (case preview of Some (Inr q) \<Rightarrow> Some q | _ \<Rightarrow> None);
          count = (\<lambda>l. length (filter (\<lambda>x. i_locationId x = l_id l) items))
      in \<lparr>ip_canCommit = (command \<noteq> None \<and> globals = [] \<and>
            (case quota of None \<Rightarrow> True | Some q \<Rightarrow> qp_violation q = None)),
          ip_command = command, ip_completedDestinations = finished_spaces,
          ip_destinations = map (\<lambda>l. (count l, l)) (filter (\<lambda>l. count l \<noteq> 0) (ws_locations s)),
          ip_invalidRows = filter (\<lambda>rp. rp_item rp = None) rows,
          ip_issues = globals @ concat (map rp_issues rows), ip_mappingIssues = globals,
          ip_parsed = po_parsed po, ip_quota = quota, ip_rows = rows, ip_validRows = valid\<rparr>)"

end
