(* ===== verification/Csv_Parse_Facts.thy ===== *)
theory Csv_Parse_Facts
  imports Csv_Parse
begin

text \<open>
  The spreadsheet reader respects its limits, and reads back what the usual quoting writes.
  The limits are an invariant of the reader's state, kept by every step.
\<close>

section \<open>Limits\<close>

definition record_within :: "parse_limits \<Rightarrow> nat \<Rightarrow> csv_row \<Rightarrow> bool" where
  "record_within lm n d \<longleftrightarrow>
     dr_cells d \<noteq> [] \<and> length (dr_cells d) \<le> pl_columns lm \<and>
     (\<forall>c\<in>set (dr_cells d). length c \<le> pl_cellCharacters lm) \<and> \<not> blank_record d \<and> dr_recordNumber d < n"

definition records_of :: "reader \<Rightarrow> csv_row list" where
  "records_of r = (case rd_header r of None \<Rightarrow> [] | Some h \<Rightarrow> [h]) @ rd_rows r"

definition reader_within :: "parse_limits \<Rightarrow> reader \<Rightarrow> bool" where
  "reader_within lm r \<longleftrightarrow>
     length (rd_field r) \<le> pl_cellCharacters lm \<and> length (rd_row r) \<le> pl_columns lm \<and>
     (\<forall>c\<in>set (rd_row r). length c \<le> pl_cellCharacters lm) \<and> length (rd_rows r) \<le> pl_dataRows lm \<and>
     (\<forall>d\<in>set (records_of r). record_within lm (rd_recordNumber r) d) \<and>
     sorted_wrt (<) (map dr_recordNumber (records_of r)) \<and> (rd_header r = None \<longrightarrow> rd_rows r = []) \<and>
     rd_recordNumber r = Suc (rd_blankRecordCount r + length (records_of r))"

lemma start_within: "reader_within lm start_reader"
  by (simp add: reader_within_def start_reader_def records_of_def)

lemma append_char_within:
  "reader_within lm r \<Longrightarrow> append_char lm c r = Inr r' \<Longrightarrow> reader_within lm r'"
  by (auto simp: append_char_def Let_def reader_within_def records_of_def split: if_splits)

lemma finish_field_within:
  "reader_within lm r \<Longrightarrow> finish_field lm r = Inr r' \<Longrightarrow> reader_within lm r' \<and> rd_row r' \<noteq> []"
  by (auto simp: finish_field_def reader_within_def records_of_def split: if_splits)

text \<open>The record that a reader adds, leaving out the limit on rows.\<close>

definition add_record :: "string list \<Rightarrow> reader \<Rightarrow> reader" where
  "add_record cells r =
     (let d = \<lparr>dr_cells = cells, dr_recordNumber = rd_recordNumber r\<rparr>;
          r' = (if blank_record d then r\<lparr>rd_blankRecordCount := rd_blankRecordCount r + 1\<rparr>
                else if rd_header r = None then r\<lparr>rd_header := Some d\<rparr>
                else r\<lparr>rd_rows := rd_rows r @ [d]\<rparr>)
      in r'\<lparr>rd_row := [], rd_recordNumber := rd_recordNumber r + 1\<rparr>)"

lemma finish_record_Inr:
  "finish_record lm r0 = Inr r' \<longleftrightarrow>
     (\<exists>r. finish_field lm r0 = Inr r \<and> r' = add_record (rd_row r) r \<and>
        (\<not> blank_record \<lparr>dr_cells = rd_row r, dr_recordNumber = rd_recordNumber r\<rparr> \<and> rd_header r \<noteq> None \<longrightarrow>
         length (rd_rows r) < pl_dataRows lm))"
proof (cases "finish_field lm r0")
  case (Inr r)
  let ?d = "\<lparr>dr_cells = rd_row r, dr_recordNumber = rd_recordNumber r\<rparr>"
  consider "blank_record ?d" | "\<not> blank_record ?d" "rd_header r = None"
    | "\<not> blank_record ?d" "rd_header r \<noteq> None" "length (rd_rows r) < pl_dataRows lm"
    | "\<not> blank_record ?d" "rd_header r \<noteq> None" "\<not> length (rd_rows r) < pl_dataRows lm" by blast
  then show ?thesis by cases (auto simp: finish_record_def add_record_def Inr Let_def)
qed (simp add: finish_record_def)

lemma add_record_fields [simp]:
  "rd_field (add_record cells r) = rd_field r" "rd_row (add_record cells r) = []"
  "rd_recordNumber (add_record cells r) = Suc (rd_recordNumber r)"
  by (simp_all add: add_record_def Let_def)

lemma add_record_header: "rd_header (add_record cells r) = None \<Longrightarrow> rd_header r = None \<and> rd_rows (add_record cells r) = rd_rows r"
  by (simp add: add_record_def Let_def split: if_splits)

lemma add_record_length:
  assumes "\<not> blank_record \<lparr>dr_cells = cells, dr_recordNumber = rd_recordNumber r\<rparr> \<and> rd_header r \<noteq> None \<longrightarrow>
      length (rd_rows r) < n" and "length (rd_rows r) \<le> n"
  shows "length (rd_rows (add_record cells r)) \<le> n"
  using assms by (auto simp: add_record_def Let_def)

lemma add_record_blanks:
  "rd_blankRecordCount (add_record cells r) =
     rd_blankRecordCount r + (if blank_record \<lparr>dr_cells = cells, dr_recordNumber = rd_recordNumber r\<rparr> then 1 else 0)"
  by (simp add: add_record_def Let_def)

lemma record_within_later: "record_within lm n d \<Longrightarrow> n \<le> m \<Longrightarrow> record_within lm m d"
  by (simp add: record_within_def)

lemma add_record_records:
  "records_of (add_record cells r) = records_of r @
     (let d = \<lparr>dr_cells = cells, dr_recordNumber = rd_recordNumber r\<rparr> in if blank_record d then [] else [d])"
  if "rd_header r = None \<longrightarrow> rd_rows r = []"
  using that by (auto simp: add_record_def records_of_def Let_def split: option.split)

lemma add_record_within:
  assumes "reader_within lm r" and "rd_row r \<noteq> []"
    and "\<not> blank_record \<lparr>dr_cells = rd_row r, dr_recordNumber = rd_recordNumber r\<rparr> \<and> rd_header r \<noteq> None \<longrightarrow>
         length (rd_rows r) < pl_dataRows lm"
  shows "reader_within lm (add_record (rd_row r) r)"
proof -
  let ?d = "\<lparr>dr_cells = rd_row r, dr_recordNumber = rd_recordNumber r\<rparr>" and ?r = "add_record (rd_row r) r"
  have start: "rd_header r = None \<longrightarrow> rd_rows r = []" using assms(1) by (simp add: reader_within_def)
  note recs = add_record_records [OF start, of "rd_row r"]
  have new: "\<not> blank_record ?d \<Longrightarrow> record_within lm (Suc (rd_recordNumber r)) ?d"
    using assms(1,2) by (simp add: record_within_def reader_within_def)
  have old: "record_within lm (Suc (rd_recordNumber r)) d" if "d \<in> set (records_of r)" for d
    using assms(1) that by (auto simp: reader_within_def intro: record_within_later)
  have below: "dr_recordNumber d < rd_recordNumber r" if "d \<in> set (records_of r)" for d
    using assms(1) that by (auto simp: reader_within_def record_within_def)
  have "sorted_wrt (<) (map dr_recordNumber (records_of ?r))"
    using assms(1) below by (auto simp: recs Let_def sorted_wrt_append reader_within_def)
  moreover have "\<forall>d\<in>set (records_of ?r). record_within lm (rd_recordNumber ?r) d"
    using old new by (auto simp: recs Let_def)
  moreover have "rd_recordNumber ?r = Suc (rd_blankRecordCount ?r + length (records_of ?r))"
    using assms(1) by (simp add: recs add_record_blanks Let_def) (simp add: reader_within_def)
  moreover have "length (rd_rows ?r) \<le> pl_dataRows lm"
    by (rule add_record_length [OF assms(3)]) (use assms(1) in \<open>simp add: reader_within_def\<close>)
  moreover have "rd_header ?r = None \<longrightarrow> rd_rows ?r = []" using start add_record_header by fastforce
  moreover have "length (rd_field r) \<le> pl_cellCharacters lm" using assms(1) by (simp add: reader_within_def)
  ultimately show ?thesis by (simp add: reader_within_def)
qed

lemma finish_record_within:
  assumes "reader_within lm r" and "finish_record lm r = Inr r'"
  shows "reader_within lm r'"
  using assms(2) finish_field_within [OF assms(1)] add_record_within by (auto simp: finish_record_Inr)

text \<open>Positions and the flags of the quoting do not matter.\<close>

lemma within_moves:
  "reader_within lm (next_column n r) = reader_within lm r" "reader_within lm (next_line r) = reader_within lm r"
  "reader_within lm (r\<lparr>rd_inQuotes := a, rd_afterQuote := b\<rparr>) = reader_within lm r"
  "reader_within lm (r\<lparr>rd_inQuotes := a, rd_fieldWasQuoted := b\<rparr>) = reader_within lm r"
  by (simp_all add: reader_within_def records_of_def next_column_def next_line_def)

lemma csv_step_within:
  assumes "reader_within lm r" and "csv_step lm c s r = Inr (s', r')"
  shows "reader_within lm r'"
  using assms append_char_within [OF assms(1)] finish_field_within [OF assms(1)] finish_record_within [OF assms(1)]
  by (auto simp: csv_step_def quoted_step_def after_quote_step_def plain_step_def continue_at_eq within_moves
      split: if_splits list.splits)

lemma csv_loop_within: "reader_within lm r \<Longrightarrow> csv_loop lm s r = Inr r' \<Longrightarrow> reader_within lm r'"
  by (induction lm s r arbitrary: r' rule: csv_loop.induct) (auto split: sum.splits dest: csv_step_within)

lemma parse_csv_Inr:
  assumes "parse_csv input overrides = Inr p"
  obtains lm r h where "parse_limits_of overrides = Inr lm" and "utf8_length input \<le> pl_fileBytes lm"
    and "reader_within lm r" and "rd_header r = Some h" and "pc_columns p = columns_of (dr_cells h)"
    and "pc_headerRecordNumber p = dr_recordNumber h" and "pc_rows p = rd_rows r"
    and "pc_blankRecordCount p = rd_blankRecordCount r"
proof -
  from assms obtain lm r0 where lm: "parse_limits_of overrides = Inr lm" "utf8_length input \<le> pl_fileBytes lm"
    and r0: "csv_loop lm input start_reader = Inr r0" and fin: "finish_file lm r0 = Inr p"
    by (auto simp: parse_csv_def and_then_eq_Inr split: if_splits)
  have w0: "reader_within lm r0" using csv_loop_within [OF start_within r0] .
  from fin obtain r h where r: "(if pending_record r0 then finish_record lm r0 else Inr r0) = Inr r"
    and h: "rd_header r = Some h"
    and p: "p = \<lparr>pc_blankRecordCount = rd_blankRecordCount r, pc_columns = columns_of (dr_cells h),
                pc_headerRecordNumber = dr_recordNumber h, pc_rows = rd_rows r\<rparr>"
    by (auto simp: finish_file_def and_then_eq_Inr split: if_splits option.splits)
  have "reader_within lm r" using r w0 finish_record_within by (auto split: if_splits)
  then show thesis using that lm h by (simp add: p)
qed

lemma length_columns_of [simp]: "length (columns_of cells) = length cells"
  by (simp add: columns_of_def)


section \<open>Round trip\<close>

text \<open>
  The usual way to print a table: a cell that holds a quote, a comma or a line break is quoted,
  quotes in it are doubled, and every record ends with a line feed.
\<close>

definition escape_char :: "char \<Rightarrow> string" where
  "escape_char x = (if x = quote_mark then [quote_mark, quote_mark] else [x])"

definition quote_cell :: "string \<Rightarrow> string" where
  "quote_cell c = concat (map escape_char c)"

definition csv_cell :: "string \<Rightarrow> string" where
  "csv_cell c =
     (if list_ex (\<lambda>x. x = quote_mark \<or> x = CHR '','' \<or> is_newline x) c
      then quote_mark # quote_cell c @ [quote_mark] else c)"

definition csv_line :: "string list \<Rightarrow> string" where
  "csv_line cells = join_with '','' (map csv_cell cells) @ [line_feed]"

definition csv_text :: "string list list \<Rightarrow> string" where
  "csv_text table = concat (map csv_line table)"

text \<open>
  The reader turns every line break inside a quoted cell, a carriage return with its line feed or
  without, into one line feed.
\<close>

function lf_only :: "string \<Rightarrow> string" where
  "lf_only [] = []"
| "lf_only (x # c) = (if is_newline x then line_feed # lf_only (after_newline x c) else x # lf_only c)"
  by pat_completeness auto
termination by (relation "measure length") (simp_all add: le_imp_less_Suc length_after_newline)

lemma lf_only_plain: "\<forall>x\<in>set c. \<not> is_newline x \<Longrightarrow> lf_only c = c"
  by (induction c) simp_all

text \<open>A reader at another position.\<close>

definition at_pos :: "nat \<Rightarrow> nat \<Rightarrow> reader \<Rightarrow> reader" where
  "at_pos l k r = r\<lparr>rd_line := l, rd_column := k\<rparr>"

definition reads :: "parse_limits \<Rightarrow> string \<Rightarrow> reader \<Rightarrow> string \<Rightarrow> reader \<Rightarrow> bool" where
  "reads lm s r s' r' \<longleftrightarrow> (\<forall>l k. \<exists>l' k'. csv_loop lm s (at_pos l k r) = csv_loop lm s' (at_pos l' k' r'))"

lemma reads_refl: "reads lm s r s r"
  by (auto simp: reads_def)

lemma reads_trans: "reads lm s r s' r' \<Longrightarrow> reads lm s' r' s'' r'' \<Longrightarrow> reads lm s r s'' r''"
  unfolding reads_def by (metis (no_types))

lemma reads_step:
  assumes "\<And>l k. \<exists>l' k'. csv_step lm c s (at_pos l k r) = Inr (s', at_pos l' k' r')"
  shows "reads lm (c # s) r s' r'"
  unfolding reads_def
proof (intro allI)
  fix l k
  obtain l' k' where "csv_step lm c s (at_pos l k r) = Inr (s', at_pos l' k' r')" using assms by blast
  then show "\<exists>l' k'. csv_loop lm (c # s) (at_pos l k r) = csv_loop lm s' (at_pos l' k' r')" by auto
qed

definition inside :: "string \<Rightarrow> reader \<Rightarrow> reader" where
  "inside f r = r\<lparr>rd_field := f, rd_inQuotes := True, rd_fieldWasQuoted := True, rd_afterQuote := False\<rparr>"

lemma append_at_pos:
  "length (rd_field r) < pl_cellCharacters lm \<Longrightarrow>
   append_char lm c (at_pos l k r) = Inr (at_pos l k (r\<lparr>rd_field := rd_field r @ [c]\<rparr>))"
  by (simp add: append_char_def at_pos_def)

lemma inside_append: "(inside f r)\<lparr>rd_field := g\<rparr> = inside g r"
  by (simp add: inside_def)

lemma moved_at_pos:
  "\<exists>l' k'. next_column n (at_pos l k r) = at_pos l' k' r" "\<exists>l' k'. next_line (at_pos l k r) = at_pos l' k' r"
  by (auto simp: next_column_def next_line_def at_pos_def)

lemma reads_inside_char:
  assumes "\<not> is_newline x" and "length f < pl_cellCharacters lm"
  shows "reads lm (escape_char x @ s) (inside f r) s (inside (f @ [x]) r)"
proof -
  have app: "append_char lm c (at_pos l k (inside f r)) = Inr (at_pos l k (inside (f @ [c]) r))" for c l k
    using append_at_pos [of "inside f r" lm c l k] assms(2) by (simp add: inside_append) (simp add: inside_def)
  have q: "rd_inQuotes (at_pos l k (inside f r))" for l k by (simp add: at_pos_def inside_def)
  show ?thesis
  proof (cases "x = quote_mark")
    case True
    have "csv_step lm quote_mark (quote_mark # s) (at_pos l k (inside f r)) =
        Inr (s, next_column 2 (at_pos l k (inside (f @ [quote_mark]) r)))" for l k
      by (simp add: csv_step_def q quoted_step_def continue_at_def app)
    then show ?thesis using True by (simp add: escape_char_def reads_step moved_at_pos)
  next
    case False
    have "csv_step lm x s (at_pos l k (inside f r)) = Inr (s, next_column 1 (at_pos l k (inside (f @ [x]) r)))" for l k
      using False assms(1) by (simp add: csv_step_def q quoted_step_def continue_at_def app)
    then show ?thesis using False by (simp add: escape_char_def reads_step moved_at_pos)
  qed
qed

lemma reads_inside_newline:
  assumes "is_newline x" and "length f < pl_cellCharacters lm"
  shows "reads lm (x # s) (inside f r) (after_newline x s) (inside (f @ [line_feed]) r)"
proof (rule reads_step)
  fix l k
  have "append_char lm line_feed (at_pos l k (inside f r)) = Inr (at_pos l k (inside (f @ [line_feed]) r))"
    using append_at_pos [of "inside f r" lm line_feed l k] assms(2) by (simp add: inside_append) (simp add: inside_def)
  moreover have "rd_inQuotes (at_pos l k (inside f r))" by (simp add: at_pos_def inside_def)
  moreover have "x \<noteq> quote_mark" using assms(1) by (auto simp: is_newline_def)
  ultimately have "csv_step lm x s (at_pos l k (inside f r)) =
      Inr (after_newline x s, next_line (at_pos l k (inside (f @ [line_feed]) r)))"
    using assms(1) by (simp add: csv_step_def quoted_step_def continue_at_def)
  then show "\<exists>l' k'. csv_step lm x s (at_pos l k (inside f r)) =
      Inr (after_newline x s, at_pos l' k' (inside (f @ [line_feed]) r))" by (simp add: moved_at_pos)
qed

lemma escape_newline: "is_newline x \<Longrightarrow> escape_char x = [x]"
  by (auto simp: escape_char_def is_newline_def)

text \<open>A line feed after the printed break is one of the cell, since a quote mark ends the cell.\<close>

lemma after_newline_quote:
  "after_newline x (quote_cell c @ quote_mark # s) = quote_cell (after_newline x c) @ quote_mark # s"
  by (cases c) (simp_all add: quote_cell_def escape_char_def)

lemma reads_inside:
  assumes "length f + length (lf_only c) \<le> pl_cellCharacters lm"
  shows "reads lm (quote_cell c @ quote_mark # s) (inside f r) (quote_mark # s) (inside (f @ lf_only c) r)"
  using assms
proof (induction c arbitrary: f rule: lf_only.induct)
  case 1
  then show ?case by (simp add: quote_cell_def reads_refl)
next
  case (2 x c)
  let ?tail = "quote_mark # s"
  show ?case
  proof (cases "is_newline x")
    case True
    have "reads lm (x # quote_cell c @ ?tail) (inside f r) (after_newline x (quote_cell c @ ?tail)) (inside (f @ [line_feed]) r)"
      using 2(3) True by (intro reads_inside_newline) simp_all
    moreover have "reads lm (quote_cell (after_newline x c) @ ?tail) (inside (f @ [line_feed]) r) ?tail
        (inside ((f @ [line_feed]) @ lf_only (after_newline x c)) r)"
      using 2(3) True by (intro 2(1)) simp_all
    moreover have "quote_cell (x # c) @ ?tail = x # quote_cell c @ ?tail"
      using escape_newline [OF True] by (simp add: quote_cell_def)
    ultimately show ?thesis using True reads_trans by (simp add: after_newline_quote)
  next
    case False
    have "reads lm (escape_char x @ quote_cell c @ ?tail) (inside f r) (quote_cell c @ ?tail) (inside (f @ [x]) r)"
      using 2(3) False by (intro reads_inside_char) simp_all
    moreover have "reads lm (quote_cell c @ ?tail) (inside (f @ [x]) r) ?tail (inside ((f @ [x]) @ lf_only c) r)"
      using 2(3) False by (intro 2(2)) simp_all
    moreover have "quote_cell (x # c) @ ?tail = escape_char x @ quote_cell c @ ?tail" by (simp add: quote_cell_def)
    ultimately show ?thesis using False reads_trans by simp
  qed
qed


definition at_start :: "reader \<Rightarrow> bool" where
  "at_start r \<longleftrightarrow> \<not> rd_inQuotes r \<and> \<not> rd_afterQuote r \<and> rd_field r = [] \<and> \<not> rd_fieldWasQuoted r"

definition with_cell :: "bool \<Rightarrow> string \<Rightarrow> reader \<Rightarrow> reader" where
  "with_cell q c r = r\<lparr>rd_field := c, rd_fieldWasQuoted := q, rd_afterQuote := q\<rparr>"

abbreviation special :: "char \<Rightarrow> bool" where
  "special x \<equiv> x = quote_mark \<or> x = CHR '','' \<or> is_newline x"

lemma reads_plain:
  assumes "\<forall>x\<in>set c. \<not> special x" and "at_start r"
    and "length f + length c \<le> pl_cellCharacters lm"
  shows "reads lm (c @ s) (with_cell False f r) s (with_cell False (f @ c) r)"
  using assms
proof (induction c arbitrary: f)
  case Nil
  then show ?case by (simp add: reads_refl)
next
  case (Cons x c)
  have "csv_step lm x t (at_pos l k (with_cell False f r)) = Inr (t, next_column 1 (at_pos l k (with_cell False (f @ [x]) r)))" for l k t
  proof -
    have "append_char lm x (at_pos l k (with_cell False f r)) = Inr (at_pos l k (with_cell False (f @ [x]) r))"
      using append_at_pos [of "with_cell False f r" lm x l k] Cons.prems(3)
      by (cases r) (simp add: with_cell_def)
    moreover have "\<not> rd_inQuotes (at_pos l k (with_cell False f r))" "\<not> rd_afterQuote (at_pos l k (with_cell False f r))"
      using Cons.prems(2) by (simp_all add: at_pos_def with_cell_def at_start_def)
    ultimately show ?thesis using Cons.prems(1)
      by (simp add: csv_step_def plain_step_def continue_at_def)
  qed
  then have "reads lm (x # c @ s) (with_cell False f r) (c @ s) (with_cell False (f @ [x]) r)"
    by (simp add: reads_step moved_at_pos)
  then show ?case using reads_trans Cons.IH [of "f @ [x]"] Cons.prems by simp
qed

lemma reads_quoted:
  assumes "at_start r" and "length (lf_only c) \<le> pl_cellCharacters lm" and "d \<noteq> quote_mark"
  shows "reads lm (quote_mark # quote_cell c @ quote_mark # d # s) r (d # s) (with_cell True (lf_only c) r)"
proof -
  have "csv_step lm quote_mark t (at_pos l k r) = Inr (t, next_column 1 (at_pos l k (inside [] r)))" for l k t
    using assms(1) by (cases r) (simp add: csv_step_def plain_step_def at_start_def at_pos_def inside_def)
  then have open_quote: "reads lm (quote_mark # t) r t (inside [] r)" for t by (simp add: reads_step moved_at_pos)
  have "csv_step lm quote_mark (d # s) (at_pos l k (inside f r)) = Inr (d # s, next_column 1 (at_pos l k (with_cell True f r)))" for l k f
    using assms(1,3)
    by (cases r) (simp add: csv_step_def quoted_step_def at_start_def at_pos_def inside_def with_cell_def next_column_def)
  then have "reads lm (quote_mark # d # s) (inside f r) (d # s) (with_cell True f r)" for f by (simp add: reads_step moved_at_pos)
  moreover have "reads lm (quote_cell c @ quote_mark # d # s) (inside [] r) (quote_mark # d # s) (inside (lf_only c) r)"
    using reads_inside [of "[]" c lm "d # s" r] assms(2) by simp
  ultimately show ?thesis using open_quote reads_trans by blast
qed

lemma reads_cell:
  assumes "at_start r" and "length (lf_only c) \<le> pl_cellCharacters lm" and "d \<noteq> quote_mark"
  shows "\<exists>q. reads lm (csv_cell c @ d # s) r (d # s) (with_cell q (lf_only c) r)"
proof (cases "list_ex special c")
  case True
  then have "csv_cell c @ d # s = quote_mark # quote_cell c @ quote_mark # d # s" by (simp add: csv_cell_def)
  then show ?thesis using reads_quoted [OF assms] by metis
next
  case False
  then have plain: "lf_only c = c" by (intro lf_only_plain) (auto simp: list_ex_iff)
  have "r = with_cell False [] r" using assms(1) by (simp add: with_cell_def at_start_def)
  moreover have "reads lm (c @ d # s) (with_cell False [] r) (d # s) (with_cell False ([] @ c) r)"
    using False assms plain by (intro reads_plain) (auto simp: list_ex_iff)
  ultimately show ?thesis using False plain by (auto simp: csv_cell_def)
qed

lemma finish_field_cell:
  assumes "at_start r" and "length (rd_row r) < pl_columns lm"
  shows "finish_field lm (at_pos l k (with_cell q c r)) = Inr (at_pos l k (r\<lparr>rd_row := rd_row r @ [c]\<rparr>))"
  using assms by (simp add: finish_field_def at_pos_def with_cell_def at_start_def)

lemma reads_comma:
  assumes "at_start r" and "length (rd_row r) < pl_columns lm"
  shows "reads lm (CHR '','' # s) (with_cell q c r) s (r\<lparr>rd_row := rd_row r @ [c]\<rparr>)"
proof (rule reads_step)
  fix l k
  have "\<not> rd_inQuotes (at_pos l k (with_cell q c r))" using assms(1) by (simp add: at_pos_def with_cell_def at_start_def)
  then have "csv_step lm CHR '','' s (at_pos l k (with_cell q c r)) = Inr (s, next_column 1 (at_pos l k (r\<lparr>rd_row := rd_row r @ [c]\<rparr>)))"
    by (simp add: csv_step_def after_quote_step_def plain_step_def continue_at_def finish_field_cell [OF assms])
  then show "\<exists>l' k'. csv_step lm CHR '','' s (at_pos l k (with_cell q c r)) = Inr (s, at_pos l' k' (r\<lparr>rd_row := rd_row r @ [c]\<rparr>))"
    by (simp add: moved_at_pos)
qed

lemma add_record_at_pos: "add_record cells (at_pos l k r) = at_pos l k (add_record cells r)"
  by (simp add: add_record_def at_pos_def Let_def)

lemma add_record_row: "add_record cells (r\<lparr>rd_row := row\<rparr>) = add_record cells r"
  by (simp add: add_record_def Let_def)

definition room :: "parse_limits \<Rightarrow> string list \<Rightarrow> reader \<Rightarrow> bool" where
  "room lm cells r \<longleftrightarrow> (\<not> list_all blank cells \<and> rd_header r \<noteq> None \<longrightarrow> length (rd_rows r) < pl_dataRows lm)"

lemma reads_line_feed:
  assumes "at_start r" and "length (rd_row r) < pl_columns lm" and "room lm (rd_row r @ [c]) r"
  shows "reads lm (line_feed # s) (with_cell q c r) s (add_record (rd_row r @ [c]) r)"
proof (rule reads_step)
  fix l k
  let ?r = "at_pos l k (with_cell q c r)" and ?t = "add_record (rd_row r @ [c]) r"
  have "\<not> rd_inQuotes ?r" using assms(1) by (simp add: at_pos_def with_cell_def at_start_def)
  moreover have "finish_record lm ?r = Inr (at_pos l k ?t)"
    unfolding finish_record_Inr
    by (rule exI [of _ "at_pos l k (r\<lparr>rd_row := rd_row r @ [c]\<rparr>)"])
      (use assms(3) in \<open>simp add: finish_field_cell [OF assms(1,2)] add_record_at_pos add_record_row room_def blank_record_def\<close>,
       simp add: at_pos_def add_record_row)
  moreover have "after_newline line_feed s = s" by (cases s) simp_all
  ultimately have "csv_step lm line_feed s ?r = Inr (s, next_line (at_pos l k ?t))"
    by (simp add: csv_step_def after_quote_step_def plain_step_def continue_at_def is_newline_def)
  then show "\<exists>l' k'. csv_step lm line_feed s ?r = Inr (s, at_pos l' k' ?t)" by (simp add: moved_at_pos)
qed


definition fits :: "parse_limits \<Rightarrow> string list \<Rightarrow> bool" where
  "fits lm cells \<longleftrightarrow> cells \<noteq> [] \<and> length cells \<le> pl_columns lm \<and>
     (\<forall>c\<in>set cells. length (lf_only c) \<le> pl_cellCharacters lm)"

lemma at_start_row [simp]: "at_start (r\<lparr>rd_row := row\<rparr>) = at_start r"
  by (simp add: at_start_def)

lemma room_row [simp]: "room lm cells (r\<lparr>rd_row := row\<rparr>) = room lm cells r"
  by (simp add: room_def)

lemma reads_cells:
  assumes "cells \<noteq> []" and "at_start r" and "length (rd_row r) + length cells \<le> pl_columns lm"
    and "\<forall>c\<in>set cells. length (lf_only c) \<le> pl_cellCharacters lm"
    and "room lm (rd_row r @ map lf_only cells) r"
  shows "reads lm (join_with '','' (map csv_cell cells) @ line_feed # s) r s (add_record (rd_row r @ map lf_only cells) r)"
  using assms
proof (induction cells arbitrary: r)
  case (Cons c cs)
  have cell: "\<exists>q. reads lm (csv_cell c @ d # t) r (d # t) (with_cell q (lf_only c) r)" if "d \<noteq> quote_mark" for d t
    using Cons.prems that by (intro reads_cell) simp_all
  show ?case
  proof (cases cs)
    case Nil
    obtain q where "reads lm (csv_cell c @ line_feed # s) r (line_feed # s) (with_cell q (lf_only c) r)"
      using cell [of line_feed s] by auto
    moreover have "reads lm (line_feed # s) (with_cell q (lf_only c) r) s (add_record (rd_row r @ [lf_only c]) r)"
      using Cons.prems Nil by (intro reads_line_feed) simp_all
    ultimately show ?thesis using Nil reads_trans by simp
  next
    case (Cons e es)
    let ?rest = "join_with '','' (map csv_cell cs) @ line_feed # s" and ?r = "r\<lparr>rd_row := rd_row r @ [lf_only c]\<rparr>"
    obtain q where "reads lm (csv_cell c @ CHR '','' # ?rest) r (CHR '','' # ?rest) (with_cell q (lf_only c) r)"
      using cell [of "CHR '',''" ?rest] by auto
    moreover have "reads lm (CHR '','' # ?rest) (with_cell q (lf_only c) r) ?rest ?r"
      using Cons.prems by (intro reads_comma) simp_all
    moreover have "reads lm ?rest ?r s (add_record (rd_row ?r @ map lf_only cs) ?r)"
      using Cons.prems Cons by (intro Cons.IH) simp_all
    ultimately have "reads lm (csv_cell c @ CHR '','' # ?rest) r s (add_record (rd_row r @ lf_only c # map lf_only cs) r)"
      by (simp add: add_record_row) (blast intro: reads_trans)
    then show ?thesis using Cons by simp
  qed
qed simp

fun numbered :: "nat \<Rightarrow> string list list \<Rightarrow> csv_row list" where
  "numbered n [] = []"
| "numbered n (cells # table) =
     (if list_all blank cells then [] else [\<lparr>dr_cells = cells, dr_recordNumber = n\<rparr>]) @ numbered (Suc n) table"

definition between :: "reader \<Rightarrow> bool" where
  "between r \<longleftrightarrow> at_start r \<and> rd_row r = [] \<and> (rd_header r = None \<longrightarrow> rd_rows r = [])"

lemma add_record_between: "between r \<Longrightarrow> between (add_record cells r)"
  by (auto simp: between_def at_start_def add_record_def Let_def)

lemma records_add: "between r \<Longrightarrow> records_of (add_record cells r) = records_of r @ numbered (rd_recordNumber r) [cells]"
  by (simp add: add_record_records between_def blank_record_def Let_def)

lemma reads_table:
  assumes "between r" and "\<forall>cells\<in>set table. fits lm cells"
    and "length (records_of r @ numbered (rd_recordNumber r) (map (map lf_only) table)) \<le> Suc (pl_dataRows lm)"
  shows "reads lm (csv_text table) r [] (fold add_record (map (map lf_only) table) r)"
  using assms
proof (induction table arbitrary: r)
  case Nil
  then show ?case by (simp add: csv_text_def reads_refl)
next
  case (Cons cells table)
  let ?cells = "map lf_only cells"
  have "room lm ?cells r"
    using Cons.prems(3) by (auto simp: room_def records_of_def split: if_splits)
  then have "reads lm (join_with '','' (map csv_cell cells) @ line_feed # csv_text table) r (csv_text table) (add_record ?cells r)"
    using reads_cells [of cells r lm "csv_text table"] Cons.prems(1,2) by (simp add: between_def fits_def)
  moreover have "reads lm (csv_text table) (add_record ?cells r) [] (fold add_record (map (map lf_only) table) (add_record ?cells r))"
    using Cons.prems by (intro Cons.IH) (simp_all add: add_record_between records_add)
  ultimately show ?case by (simp add: csv_text_def csv_line_def) (rule reads_trans)
qed

lemma records_fold:
  "between r \<Longrightarrow> between (fold add_record table r) \<and>
     records_of (fold add_record table r) = records_of r @ numbered (rd_recordNumber r) table \<and>
     rd_blankRecordCount (fold add_record table r) = rd_blankRecordCount r + length (filter (list_all blank) table)"
proof (induction table arbitrary: r)
  case (Cons cells table)
  show ?case using Cons.IH [OF add_record_between [OF Cons.prems, of cells]]
    by (simp add: records_add [OF Cons.prems] add_record_blanks blank_record_def)
qed simp

lemma start_between: "between start_reader" "records_of start_reader = []"
  by (simp_all add: between_def at_start_def start_reader_def records_of_def)

lemma parse_csv_text:
  assumes lm: "parse_limits_of overrides = Inr lm" "utf8_length (csv_text table) \<le> pl_fileBytes lm"
    and fits: "\<forall>cells\<in>set table. fits lm cells"
    and recs: "numbered 1 (map (map lf_only) table) = h # ds" "length ds \<le> pl_dataRows lm"
  shows "parse_csv (csv_text table) overrides =
    Inr \<lparr>pc_blankRecordCount = length (filter (list_all blank) (map (map lf_only) table)), pc_columns = columns_of (dr_cells h),
         pc_headerRecordNumber = dr_recordNumber h, pc_rows = ds\<rparr>"
proof -
  let ?t = "map (map lf_only) table"
  let ?r = "fold add_record ?t start_reader"
  have n: "rd_recordNumber start_reader = 1" "rd_blankRecordCount start_reader = 0"
    by (simp_all add: start_reader_def)
  have r: "between ?r" "records_of ?r = h # ds" "rd_blankRecordCount ?r = length (filter (list_all blank) ?t)"
    using records_fold [OF start_between(1), of ?t] start_between(2) n recs(1) by simp_all
  have "reads lm (csv_text table) start_reader [] ?r"
    by (rule reads_table [OF start_between(1) fits]) (use recs in \<open>simp add: start_between(2) n(1)\<close>)
  then have "\<exists>l k. csv_loop lm (csv_text table) (at_pos 1 1 start_reader) = csv_loop lm [] (at_pos l k ?r)"
    unfolding reads_def by blast
  moreover have "at_pos 1 1 start_reader = start_reader" by (simp add: at_pos_def start_reader_def)
  ultimately obtain l k where loop: "csv_loop lm (csv_text table) start_reader = Inr (at_pos l k ?r)"
    by auto
  have "rd_header ?r = Some h" "rd_rows ?r = ds"
    using r(1,2) by (auto simp: records_of_def between_def split: option.splits)
  moreover have "\<not> pending_record ?r" "\<not> rd_inQuotes ?r" using r(1) by (auto simp: pending_record_def between_def at_start_def)
  ultimately have "finish_file lm (at_pos l k ?r) =
      Inr \<lparr>pc_blankRecordCount = length (filter (list_all blank) ?t), pc_columns = columns_of (dr_cells h),
           pc_headerRecordNumber = dr_recordNumber h, pc_rows = ds\<rparr>"
    using r(3) by (simp add: finish_file_def pending_record_def at_pos_def)
  then show ?thesis using lm loop by (simp add: parse_csv_def)
qed

end
