(* ===== verification/Csv_Import_Facts.thy ===== *)
theory Csv_Import_Facts
  imports Csv_Import Csv_Parse_Facts Command_Safety
begin

text \<open>
  An import the plan declares committable is accepted by the workspace it was planned on,
  whoever commits it and when, and adds exactly the items of the valid rows.  The plan tries the
  command itself; what is shown here is that actor, device, command identifier and time make no
  difference to the outcome.
\<close>

section \<open>Applying patches to every collection\<close>

text \<open>Patch lists that succeed on every collection succeed on the state.\<close>

lemma apply_patches_join:
  assumes "fold_result patch_locations (ws_locations s) (patches_of Target_location ps) = Inr ls"
    and "fold_result patch_items (ws_items s) (patches_of Target_item ps) = Inr xs"
    and "fold_result patch_plans (ws_plans s) (patches_of Target_plan ps) = Inr qs"
    and "patches_of Target_workspace ps = []"
  shows "\<exists>t. apply_patches s ps = Inr t"
  using assms
proof (induction ps arbitrary: s)
  case (Cons p ps)
  show ?case
  proof (cases "fp_target p")
    case Target_item
    with Cons.prems obtain ys where ys: "patch_items (ws_items s) p = Inr ys"
      and "fold_result patch_items ys (patches_of Target_item ps) = Inr xs" by (auto simp: and_then_eq_Inr)
    with Cons Target_item have "\<exists>t. apply_patches (s\<lparr>ws_items := ys\<rparr>) ps = Inr t" by simp
    then show ?thesis using ys Target_item by (simp add: apply_patches_Cons)
  next
    case Target_location
    with Cons.prems obtain ys where ys: "patch_locations (ws_locations s) p = Inr ys"
      and "fold_result patch_locations ys (patches_of Target_location ps) = Inr ls" by (auto simp: and_then_eq_Inr)
    with Cons Target_location have "\<exists>t. apply_patches (s\<lparr>ws_locations := ys\<rparr>) ps = Inr t" by simp
    then show ?thesis using ys Target_location by (simp add: apply_patches_Cons)
  next
    case Target_plan
    with Cons.prems obtain ys where ys: "patch_plans (ws_plans s) p = Inr ys"
      and "fold_result patch_plans ys (patches_of Target_plan ps) = Inr qs" by (auto simp: and_then_eq_Inr)
    with Cons Target_plan have "\<exists>t. apply_patches (s\<lparr>ws_plans := ys\<rparr>) ps = Inr t" by simp
    then show ?thesis using ys Target_plan by (simp add: apply_patches_Cons)
  next
    case Target_workspace
    with Cons.prems(4) show ?thesis by simp
  qed
qed simp

section \<open>The time of a bulk creation\<close>

lemma map_result_transfer:
  assumes "map_result f xs = Inr ys" and "\<And>x y. f x = Inr y \<Longrightarrow> \<exists>z. g x = Inr z"
  shows "\<exists>zs. map_result g xs = Inr zs"
  using assms(1)
proof (induction xs arbitrary: ys)
  case (Cons x xs)
  then obtain y where "f x = Inr y" and "\<exists>ys. map_result f xs = Inr ys" by (auto simp: and_then_eq_Inr)
  with Cons.IH assms(2) show ?case by (force simp: and_then_eq_Inr)
qed simp

lemma progress_at_any_time:
  assumes "bulk_create_progress_patches s ds ts reopen = Inr ps"
  shows "\<exists>qs. bulk_create_progress_patches s ds ts' reopen = Inr qs"
proof -
  from assms obtain pss where m: "map_result (\<lambda>i. and_then (require_active_location s i) (\<lambda>l.
      Inr (if l_captureStatus l = Uncounted \<or> (reopen \<and> capture_complete (l_captureStatus l))
           then in_progress_patches l ts else []))) (uniq ds) = Inr pss"
    by (auto simp: bulk_create_progress_patches_def and_then_eq_Inr)
  have "\<exists>qss. map_result (\<lambda>i. and_then (require_active_location s i) (\<lambda>l.
      Inr (if l_captureStatus l = Uncounted \<or> (reopen \<and> capture_complete (l_captureStatus l))
           then in_progress_patches l ts' else []))) (uniq ds) = Inr qss"
    by (rule map_result_transfer [OF m]) (auto simp: and_then_eq_Inr)
  then show ?thesis by (auto simp: bulk_create_progress_patches_def)
qed

lemma bulk_create_shape:
  assumes "item_bulk_create s ts itms reopen = Inr c"
  obtains ps us vs w where "us = plan_invalidation_patches s [] (uniq (map (\<lambda>j. text_of (jget ''locationId'' j)) itms))"
    and "vs = map (\<lambda>(i, j). mk_patch Target_item i [] None (Some j)) (zip (map (\<lambda>j. text_of (jget ''id'' j)) itms) itms)"
    and "bulk_create_checks s [] itms = Inr w"
    and "bulk_create_progress_patches s (uniq (map (\<lambda>j. text_of (jget ''locationId'' j)) itms)) ts (reopens reopen) = Inr ps"
    and "ch_patches c = us @ vs @ ps"
    and "\<And>ts' qs. bulk_create_progress_patches s (uniq (map (\<lambda>j. text_of (jget ''locationId'' j)) itms)) ts' (reopens reopen) = Inr qs \<Longrightarrow>
          \<exists>c'. item_bulk_create s ts' itms reopen = Inr c' \<and> ch_patches c' = us @ vs @ qs"
  using assms unfolding item_bulk_create_def Let_def if_Inl_eq_Inr
  by (elim conjE and_then_InrE) (auto simp: mk_change_def)

lemma patches_of_creates:
  fixes ids :: "string list" and js :: "json list"
  defines "vs \<equiv> map (\<lambda>(i, j). mk_patch Target_item i [] None (Some j)) (zip ids js)"
  shows "patches_of Target_item vs = vs" and "t \<noteq> Target_item \<Longrightarrow> patches_of t vs = []"
  unfolding vs_def by (auto intro!: patches_of_all patches_of_none)

lemma only_plans_invalidated: "t \<noteq> Target_plan \<Longrightarrow> patches_of t (plan_invalidation_patches s is ds) = []"
  by (auto simp: plan_invalidation_patches_def discard_patch_def intro!: patches_of_none)

lemma bulk_create_at_any_time:
  assumes c: "item_bulk_create s ts itms reopen = Inr c" and t: "apply_patches s (ch_patches c) = Inr t"
    and ids: "distinct (map l_id (ws_locations s))"
  obtains c' t' where "item_bulk_create s ts' itms reopen = Inr c'" and "apply_patches s (ch_patches c') = Inr t'"
    and "ws_items t' = ws_items t"
proof -
  let ?ds = "uniq (map (\<lambda>j. text_of (jget ''locationId'' j)) itms)"
  from c obtain ps us vs w where us: "us = plan_invalidation_patches s [] ?ds"
    and vs: "vs = map (\<lambda>(i, j). mk_patch Target_item i [] None (Some j)) (zip (map (\<lambda>j. text_of (jget ''id'' j)) itms) itms)"
    and ps: "bulk_create_progress_patches s ?ds ts (reopens reopen) = Inr ps" and shape: "ch_patches c = us @ vs @ ps"
    and other: "\<And>ts' qs. bulk_create_progress_patches s ?ds ts' (reopens reopen) = Inr qs \<Longrightarrow>
          \<exists>c'. item_bulk_create s ts' itms reopen = Inr c' \<and> ch_patches c' = us @ vs @ qs"
    by (rule bulk_create_shape) blast
  obtain qs where qs: "bulk_create_progress_patches s ?ds ts' (reopens reopen) = Inr qs"
    using progress_at_any_time [OF ps] by blast
  from other [OF qs] obtain c' where c': "item_bulk_create s ts' itms reopen = Inr c'" "ch_patches c' = us @ vs @ qs" by blast
  obtain R where R: "progresses s ts ps R" using bulk_create_progress [OF ps] by blast
  obtain Q where Q: "progresses s ts' qs Q" using bulk_create_progress [OF qs] by blast
  note parts = patches_of_creates [where ids = "map (\<lambda>j. text_of (jget ''id'' j)) itms" and js = itms, folded vs]
    only_plans_invalidated [of _ s "[]" ?ds, folded us]
  note split = apply_patches_split [OF t, unfolded shape]
  have "\<exists>t'. apply_patches s (ch_patches c') = Inr t'"
    unfolding c'(2)
  proof (rule apply_patches_join)
    show "fold_result patch_locations (ws_locations s) (patches_of Target_location (us @ vs @ qs)) =
        Inr (reopen_all Q ts' (ws_locations s))"
      using progresses_fold [OF Q ids] by (simp add: parts patches_of_progress [OF Q])
  qed (use split in \<open>simp_all add: parts patches_of_progress [OF R] patches_of_progress [OF Q]\<close>)
  then obtain t' where t': "apply_patches s (ch_patches c') = Inr t'" by blast
  have "ws_items t' = ws_items t"
    using split apply_patches_split [OF t', unfolded c'(2)]
    by (simp add: parts patches_of_progress [OF R] patches_of_progress [OF Q])
  then show thesis using that c'(1) t' by blast
qed

section \<open>The items of a bulk creation\<close>

lemma item_json_fields:
  "text_of (map_of (item_obj x) ''id'') = i_id x" "text_of (map_of (item_obj x) ''locationId'') = i_locationId x"
  by (simp_all add: item_obj_def text_of_def)

lemma normalize_item_json [simp]: "normalize_description (json_of_item x) = json_of_item x"
  by (simp add: item_obj_def)

lemma bulk_create_items:
  assumes c: "item_bulk_create s ts (map json_of_item xs) reopen = Inr c" and t: "apply_patches s (ch_patches c) = Inr t"
  shows "ws_items t = ws_items s @ xs" and "distinct (map i_id xs)" and "set (map i_id xs) \<inter> i_id ` set (ws_items s) = {}"
    and "\<forall>x\<in>set xs. validate_item s (json_of_item x) = Inr ()"
proof -
  let ?js = "map json_of_item xs" and ?ids = "map i_id xs"
  have ids: "map (\<lambda>j. text_of (jget ''id'' j)) ?js = ?ids"
    by (simp add: item_obj_def text_of_def)
  from c obtain ps us vs w where us: "us = plan_invalidation_patches s [] (uniq (map (\<lambda>j. text_of (jget ''locationId'' j)) ?js))"
    and vs0: "vs = map (\<lambda>(i, j). mk_patch Target_item i [] None (Some j)) (zip (map (\<lambda>j. text_of (jget ''id'' j)) ?js) ?js)"
    and checks: "bulk_create_checks s [] ?js = Inr w"
    and ps: "bulk_create_progress_patches s (uniq (map (\<lambda>j. text_of (jget ''locationId'' j)) ?js)) ts (reopens reopen) = Inr ps"
    and shape: "ch_patches c = us @ vs @ ps"
    by (rule bulk_create_shape) blast
  note vs = vs0 [unfolded ids]
  obtain R where R: "progresses s ts ps R" using bulk_create_progress [OF ps] by blast
  note C = bulk_create_checks_facts [OF checks]
  show "distinct ?ids" using C(2) by (simp only: ids)
  show fresh: "set ?ids \<inter> i_id ` set (ws_items s) = {}" using C(3) by (auto simp: item_json_fields)
  show "\<forall>x\<in>set xs. validate_item s (json_of_item x) = Inr ()" using C(1) by simp
  have fold: "fold_result patch_items (ws_items s) vs = Inr (ws_items t)"
    using apply_patches_split [OF t, unfolded shape]
    by (simp add: patches_of_creates [where ids = ?ids and js = ?js, folded vs]
        only_plans_invalidated [of _ s "[]" "uniq (map (\<lambda>j. text_of (jget ''locationId'' j)) ?js)", folded us]
        patches_of_progress [OF R])
  have "\<forall>(i, j)\<in>set (zip ?ids ?js). \<forall>y. item_of j = Some y \<longrightarrow> i_id y = i"
    by (auto simp: zip_map_map zip_same_conv_map item_codec.dec_enc)
  from create_fold [OF _ \<open>distinct ?ids\<close> fresh this fold [unfolded vs]] obtain ys where
    "ws_items t = ws_items s @ ys" and "list_all2 (\<lambda>j y. item_of j = Some y) ?js ys" by auto
  moreover from this(2) have "ys = xs"
    by (simp add: list_all2_map1 item_codec.dec_enc list.rel_eq)
  ultimately show "ws_items t = ws_items s @ xs" by simp
qed

section \<open>Committing\<close>

lemma expectation_conflicts_id:
  "expectation_conflicts s i xs = Inr [] \<Longrightarrow> expectation_conflicts s j xs = Inr []"
  by (induction xs) (auto simp: and_then_eq_Inr split: if_splits)

text \<open>Another actor, device, identifier and time.\<close>

definition readdressed :: "envelope \<Rightarrow> envelope \<Rightarrow> bool" where
  "readdressed e f \<longleftrightarrow> e_baseRevision f = e_baseRevision e \<and> e_command f = e_command e \<and>
     e_expectations f = e_expectations e \<and> e_workspaceId f = e_workspaceId e"

lemma bulk_create_readdressed:
  assumes r: "apply_command dp s e = Inr r" and e: "e_command e = Item_bulkCreate (map json_of_item xs) reopen"
    and f: "readdressed e f" "\<not> blank (e_id f)" "\<not> blank (e_actorId f)" "\<not> blank (e_deviceId f)" "dp (e_timestamp f)"
    and ids: "distinct (map l_id (ws_locations s))"
  obtains q where "apply_command dp s f = Inr q" and "ws_items (cr_state q) = ws_items s @ xs"
    and "\<forall>x\<in>set xs. validate_item s (json_of_item x) = Inr ()" and "distinct (map i_id xs)"
proof -
  note acc = apply_command_accepted [OF r]
  from e have cmd: "normalize_command (e_command e) = Item_bulkCreate (map json_of_item xs) reopen"
    by (simp add: comp_def del: normalize_description.simps)
  then obtain c t where c: "item_bulk_create s (e_timestamp e) (map json_of_item xs) reopen = Inr c"
    and t: "apply_patches s (ch_patches c) = Inr t"
    using acc(6) by (auto simp: apply_normal_command_Inr normal_patches_def normalize_envelope_def)
  obtain c' t' where c': "item_bulk_create s (e_timestamp f) (map json_of_item xs) reopen = Inr c'"
    "apply_patches s (ch_patches c') = Inr t'" "ws_items t' = ws_items t"
    by (rule bulk_create_at_any_time [OF c t ids])
  have cmd': "normalize_command (e_command f) = Item_bulkCreate (map json_of_item xs) reopen"
    using f(1) cmd by (simp add: readdressed_def)
  have "validate_envelope dp (normalize_envelope f) = Inr ()"
    using acc(1) f cmd cmd' by (simp add: validate_envelope_def normalize_envelope_def readdressed_def split: if_splits)
  moreover have "check_revision s (normalize_envelope f) = Inr ()" "e_workspaceId f = w_id (ws_workspace s)"
    using acc(2,3) f(1) by (simp_all add: check_revision_def normalize_envelope_def readdressed_def Let_def split: if_splits)
  moreover have "expectation_conflicts s (e_id f) (map normalize_expectation (e_expectations f)) = Inr []"
    using expectation_conflicts_id [OF acc(4)] f(1) by (simp add: readdressed_def)
  moreover obtain q where q: "apply_normal_command s (normalize_envelope f) = Inr q" "ws_items (cr_state q) = ws_items t'"
    using c' cmd' by (simp add: apply_normal_command_def normal_patches_def normalize_envelope_def Let_def bump_revision_def)
  ultimately have "apply_command dp s f = Inr q"
    using cmd' by (simp add: apply_command_def normalize_envelope_def)
  then show thesis using that q(2) c'(3) bulk_create_items [OF c t] by simp
qed

section \<open>The rows of a plan\<close>

lemma num_ok_max: "num_ok x \<Longrightarrow> num_ok y \<Longrightarrow> num_ok (js_max x y)"
  by (simp add: js_max_def)

lemma num_ok_0 [simp]: "num_ok (Fin 0)"
  by simp

lemma num_ok_1 [simp]: "num_ok (Fin 1)"
  using num_ok_round_double [of 1] unfolding round_double_of_int [of 1, simplified] .

lemma parse_quantity_ok: "parse_quantity t = Some q \<Longrightarrow> num_ok q \<and> is_finite q \<and> js_less (Fin 0) q"
  by (auto simp: parse_quantity_def Let_def simp del: num_ok.simps split: if_splits option.splits)

definition orders_ok :: "(string \<Rightarrow> jsnum option) \<Rightarrow> bool" where
  "orders_ok orders \<longleftrightarrow> (\<forall>i n. orders i = Some n \<longrightarrow> num_ok n)"

lemma next_item_orders_ok: "orders_ok (next_item_orders xs)"
proof -
  have keep: "orders_ok (foldl (\<lambda>orders x.
       if i_archived x then orders
       else orders(i_locationId x \<mapsto>
         js_max (case orders (i_locationId x) of None \<Rightarrow> Fin 0 | Some n \<Rightarrow> n) (js_add (i_order x) (Fin 1)))) orders xs)"
    if "orders_ok orders" for orders
    using that
  proof (induction xs arbitrary: orders)
    case (Cons x xs)
    have "orders_ok (if i_archived x then orders else orders(i_locationId x \<mapsto>
         js_max (case orders (i_locationId x) of None \<Rightarrow> Fin 0 | Some n \<Rightarrow> n) (js_add (i_order x) (Fin 1))))"
      using Cons.prems num_ok_0
      by (auto simp: orders_ok_def intro!: num_ok_max simp del: num_ok.simps js_add.simps split: option.split)
    then show ?case using Cons.IH by simp
  qed simp
  show ?thesis unfolding next_item_orders_def by (rule keep) (simp add: orders_ok_def)
qed

lemma row_item_clean:
  assumes "num_ok q" and "num_ok n"
  shows "clean (json_of_item (row_item po d i loc q fr n))"
  using assms
  by (simp add: row_item_def create_item_def item_obj_def constraints_obj_def default_constraints_def
      json_of_list_def json_of_nullable_def list_all_iff Let_def del: num_ok.simps)

lemma row_item_sel [simp]:
  "i_id (row_item po d i loc q fr n) = i" "i_locationId (row_item po d i loc q fr n) = loc"
  "i_order (row_item po d i loc q fr n) = n" "i_quantity (row_item po d i loc q fr n) = q"
  by (simp_all add: row_item_def create_item_def Let_def)

text \<open>A row gives an item only without an issue, and then exactly the one it describes.\<close>

lemma plan_row_item:
  assumes "rp_item (plan_row po globals prepared orders d) = Some x"
  obtains q fr loc n where "x = row_item po d (row_id po d) loc q fr n" and "globals = []"
    and "rp_issues (plan_row po globals prepared orders d) = []"
    and "parse_quantity (row_cell d (po_mapping po F_quantity)) = Some q"
    and "parse_frequency (row_cell d (po_mapping po F_frequency)) = Some fr"
    and "n = (case orders loc of None \<Rightarrow> Fin 0 | Some n \<Rightarrow> n)"
    and "rp_destinationId (plan_row po globals prepared orders d) = Some loc"
proof -
  let ?q = "parse_quantity (row_cell d (po_mapping po F_quantity))"
  let ?fr = "parse_frequency (row_cell d (po_mapping po F_frequency))"
  obtain found dest where fd: "(if list_ex (\<lambda>c. ci_field c = Some Field_location) globals then ([], None)
      else row_destination d (po_placement po) (po_state po)) = (found, dest)" by force
  have row: "plan_row po globals prepared orders d =
     \<lparr>rp_destinationId = dest, rp_issues = row_issues po found prepared d,
      rp_item = (if globals \<noteq> [] \<or> row_issues po found prepared d \<noteq> [] then None
        else case (?q, ?fr, dest) of
            (Some q, Some fr, Some loc) \<Rightarrow>
              if loc = [] then None
              else Some (row_item po d (row_id po d) loc q fr (case orders loc of None \<Rightarrow> Fin 0 | Some n \<Rightarrow> n))
          | _ \<Rightarrow> None),
      rp_recordNumber = dr_recordNumber d, rp_source = d\<rparr>"
    by (simp add: plan_row_def fd Let_def)
  from assms obtain q fr loc where parts: "?q = Some q" "?fr = Some fr" "dest = Some loc"
    by (cases ?q; cases ?fr; cases dest) (simp_all add: row split: if_splits)
  with assms have "globals = []" "row_issues po found prepared d = []"
    "x = row_item po d (row_id po d) loc q fr (case orders loc of None \<Rightarrow> Fin 0 | Some n \<Rightarrow> n)"
    by (simp_all only: row parts row_plan.simps prod.case option.case) (simp_all split: if_splits)
  with that parts row show thesis by simp
qed

lemma plan_rows_clean:
  assumes "orders_ok orders"
  shows "\<forall>x\<in>set (row_items (plan_rows po globals prepared orders ds)). clean (json_of_item x)"
  using assms
proof (induction ds arbitrary: prepared orders)
  case Nil
  then show ?case by (simp add: row_items_def)
next
  case (Cons d ds)
  let ?rp = "plan_row po globals prepared orders d"
  have item: "clean (json_of_item x) \<and> num_ok (i_order x)" if x: "rp_item ?rp = Some x" for x
  proof -
    from x obtain q fr loc n where "x = row_item po d (row_id po d) loc q fr n"
      "parse_quantity (row_cell d (po_mapping po F_quantity)) = Some q"
      "n = (case orders loc of None \<Rightarrow> Fin 0 | Some n \<Rightarrow> n)" by (rule plan_row_item)
    moreover from this(3) Cons.prems have "num_ok n"
      by (auto simp: orders_ok_def simp del: num_ok.simps split: option.splits)
    ultimately show ?thesis using parse_quantity_ok row_item_clean by simp
  qed
  have "orders_ok (case rp_item ?rp of None \<Rightarrow> orders | Some x \<Rightarrow> orders(i_locationId x \<mapsto> js_add (i_order x) (Fin 1)))"
    using Cons.prems by (auto simp: orders_ok_def simp del: num_ok.simps js_add.simps split: option.splits)
  from Cons.IH [OF this] item show ?case
    by (auto simp: row_items_def Let_def simp del: clean.simps split: option.splits)
qed

lemma row_items_valid: "row_items (filter (\<lambda>rp. rp_item rp \<noteq> None) rps) = row_items rps"
  by (induction rps) (auto simp: row_items_def)

text \<open>The fields of the plan in terms of each other.\<close>

lemma import_items:
  "\<forall>x\<in>set (row_items (ip_validRows (plan_csv_import dp po))). clean (json_of_item x)"
  "ip_command (plan_csv_import dp po) = None \<or> ip_command (plan_csv_import dp po) =
     Some (import_command (row_items (ip_validRows (plan_csv_import dp po))) (ip_completedDestinations (plan_csv_import dp po)))"
proof -
  let ?m = "mapping_issues (po_parsed po) (po_mapping po) (po_placement po) (po_state po)"
  have valid: "ip_validRows (plan_csv_import dp po) = filter (\<lambda>rp. rp_item rp \<noteq> None)
      (plan_rows po ?m {} (next_item_orders (ws_items (po_state po))) (pc_rows (po_parsed po)))"
    by (simp add: plan_csv_import_def Let_def)
  show "\<forall>x\<in>set (row_items (ip_validRows (plan_csv_import dp po))). clean (json_of_item x)"
    unfolding valid row_items_valid by (rule plan_rows_clean) (rule next_item_orders_ok)
qed (simp add: plan_csv_import_def Let_def)

lemma import_verdict:
  "ip_canCommit (plan_csv_import dp po) \<longleftrightarrow>
     ip_command (plan_csv_import dp po) \<noteq> None \<and> ip_mappingIssues (plan_csv_import dp po) = [] \<and>
     (case ip_quota (plan_csv_import dp po) of None \<Rightarrow> True | Some q \<Rightarrow> qp_violation q = None)"
  unfolding plan_csv_import_def Let_def csv_import_plan.simps by (rule refl)

lemma import_quota:
  assumes "ip_command (plan_csv_import dp po) = Some c"
  shows "ip_quota (plan_csv_import dp po) =
    (case project_quota dp (po_state po) c (po_commandId po) (po_timestamp po) of Inl e \<Rightarrow> None | Inr q \<Rightarrow> Some q)"
  using assms unfolding plan_csv_import_def Let_def csv_import_plan.simps
  by (simp only: option.map option.case)

lemma import_failure:
  assumes "ip_command (plan_csv_import dp po) = Some c"
    and "project_quota dp (po_state po) c (po_commandId po) (po_timestamp po) = Inl e"
  shows "ip_mappingIssues (plan_csv_import dp po) \<noteq> []"
  using assms unfolding plan_csv_import_def Let_def csv_import_plan.simps
  by (simp only: option.map option.case sum.case) simp

text \<open>What a committable plan went through.\<close>

lemma committable_import:
  assumes "ip_canCommit (plan_csv_import dp po)"
  obtains xs spaces q where "xs = row_items (ip_validRows (plan_csv_import dp po))"
    and "ip_command (plan_csv_import dp po) = Some (import_command xs spaces)"
    and "project_quota dp (po_state po) (import_command xs spaces) (po_commandId po) (po_timestamp po) = Inr q"
    and "qp_violation q = None" and "\<forall>x\<in>set xs. clean (json_of_item x)"
proof -
  let ?p = "plan_csv_import dp po"
  let ?xs = "row_items (ip_validRows ?p)"
  obtain c where c: "ip_command ?p = Some c" using assms by (auto simp: import_verdict)
  with import_items(2) [of dp po] have cmd: "c = import_command ?xs (ip_completedDestinations ?p)" by simp
  have "ip_mappingIssues ?p = []" using assms by (simp add: import_verdict)
  with import_failure [OF c] obtain q where q: "project_quota dp (po_state po) c (po_commandId po) (po_timestamp po) = Inr q"
    by (cases "project_quota dp (po_state po) c (po_commandId po) (po_timestamp po)") auto
  then have "ip_quota ?p = Some q" using import_quota [OF c] by simp
  then have "qp_violation q = None" using assms by (simp add: import_verdict)
  with that [OF refl] c q cmd import_items(1) show thesis by blast
qed

end
