(* ===== verification/Sample_Import.thy ===== *)
theory Sample_Import
  imports Csv_Import_Facts Sample_Sync
begin

text \<open>The import of one row into the right box of the sample workspace, for the witnesses.\<close>

definition import_row :: csv_row where
  "import_row = \<lparr>dr_cells = [''Tea''], dr_recordNumber = 2\<rparr>"

definition import_parsed :: parsed_csv where
  "import_parsed =
     \<lparr>pc_blankRecordCount = 0, pc_columns = [\<lparr>col_header = ''Item'', col_index = 0\<rparr>],
      pc_headerRecordNumber = 1, pc_rows = [import_row]\<rparr>"

definition import_settings :: import_options where
  "import_settings =
     \<lparr>po_commandId = ''c1'', po_mapping = empty_csv_item_mapping(F_name \<mapsto> Fin 0), po_parsed = import_parsed,
      po_placement = Single_placement (Some ''right''), po_rowIds = [2 \<mapsto> ''tea''],
      po_state = sample_state, po_timestamp = ''t1''\<rparr>"

definition tea :: item where
  "tea = \<lparr>i_archivedAt = None, i_category = ''Uncategorized'', i_constraints = default_constraints,
     i_createdAt = ''t1'', i_description = [], i_dimensions = None, i_frequency = Monthly, i_id = ''tea'',
     i_locationId = ''right'', i_name = ''Tea'', i_order = Fin 1, i_quantity = Fin 1, i_tags = [],
     i_unit = ''each'', i_updatedAt = ''t1'', i_version = Fin 1\<rparr>"

lemma import_settings_sel [simp]:
  "po_commandId import_settings = ''c1''" "po_mapping import_settings F_name = Some (Fin 0)"
  "f \<noteq> F_name \<Longrightarrow> po_mapping import_settings f = None" "po_parsed import_settings = import_parsed"
  "po_placement import_settings = Single_placement (Some ''right'')" "po_rowIds import_settings = [2 \<mapsto> ''tea'']"
  "po_state import_settings = sample_state" "po_timestamp import_settings = ''t1''"
  by (simp_all add: import_settings_def empty_csv_item_mapping_def)

lemma import_parsed_sel [simp]:
  "pc_rows import_parsed = [import_row]" "length (pc_columns import_parsed) = 1" "dr_cells import_row = [''Tea'']"
  "dr_recordNumber import_row = 2"
  by (simp_all add: import_parsed_def import_row_def)

lemma import_live: "live_location sample_state (Some ''right'') = Some (sample_location ''right'' ''X'' Box (Some ''room''))"
  by (simp add: live_location_def sample_state_def sample_locations_def)

lemma import_mapping_issues:
  "mapping_issues import_parsed (po_mapping import_settings) (Single_placement (Some ''right'')) sample_state = []"
  by (simp add: mapping_issues_def csv_item_fields_def field_issues_def placement_issues_def duplicate_issues_def
      mapped_columns_def valid_column_def position_def import_live)

lemma import_order: "next_item_orders (ws_items sample_state) ''right'' = Some (Fin 1)"
proof -
  have "js_add (Fin 0) (Fin 1) = Fin 1" using js_add_int [of 0 1] by (simp del: js_add.simps)
  then show ?thesis
    by (simp add: next_item_orders_def sample_state_def sample_items_def js_max_def sample_item_def del: js_add.simps)
qed

lemma import_cells: "row_cell import_row (Some (Fin 0)) = ''Tea''" "row_cell import_row None = []"
  by (simp_all add: row_cell_def position_def)

lemma import_item:
  "row_item import_settings import_row ''tea'' ''right'' (Fin 1) Monthly (Fin 1) = tea"
  by (simp add: row_item_def import_cells tea_def create_item_def js_trim_def is_space_def nonempty_def
      default_item_category_def default_item_unit_def parse_tags_def)

lemma import_plan_row:
  "plan_row import_settings [] {} (next_item_orders (ws_items sample_state)) import_row =
     \<lparr>rp_destinationId = Some ''right'', rp_issues = [], rp_item = Some tea, rp_recordNumber = 2, rp_source = import_row\<rparr>"
proof -
  have t: "js_trim ''tea'' = ''tea''" "js_trim ''Tea'' = ''Tea''" by (simp_all add: js_trim_def is_space_def)
  have q: "parse_quantity [] = Some (Fin 1)" "parse_frequency [] = Some Monthly"
    by (simp_all add: parse_quantity_def parse_frequency_def js_trim_def js_lower_def)
  have i: "row_id import_settings import_row = ''tea''" by (simp add: row_id_def t)
  have "row_issues import_settings [] {} import_row = []"
    by (simp add: row_issues_def import_cells t q i sample_state_def sample_items_def)
  moreover have "row_destination import_row (Single_placement (Some ''right'')) sample_state = ([], Some ''right'')"
    by (simp add: row_destination_def import_live)
  ultimately show ?thesis
    by (simp add: plan_row_def import_cells q i import_order [simplified] import_item)
qed

section \<open>The command\<close>

definition import_expectation :: field_expectation where
  "import_expectation =
     \<lparr>fe_id = ''right'', fe_path = ''captureStatus'', fe_target = Target_location, fe_value = JStr ''in_progress''\<rparr>"

definition import_envelope :: envelope where
  "import_envelope =
     \<lparr>e_actorId = ''csv-import-preview'', e_baseRevision = Fin 7, e_command = import_command [tea] [],
      e_deviceId = ''csv-import-preview'', e_expectations = [import_expectation], e_id = ''c1'',
      e_timestamp = ''t1'', e_workspaceId = ''w''\<rparr>"

definition tea_patch :: field_patch where
  "tea_patch = mk_patch Target_item ''tea'' [] None (Some (json_of_item tea))"

definition import_change :: change where
  "import_change = \<lparr>ch_label = ''Imported 1 item record'', ch_patches = [tea_patch], ch_subjectIds = [''tea'', ''right'']\<rparr>"

definition imported_state :: wstate where
  "imported_state = bump_revision ''t1'' (sample_state
     \<lparr>ws_items := [jam, jam2, tea], ws_activities := [activity_of import_envelope import_change]\<rparr>)"

lemma tea_sel [simp]:
  "i_id tea = ''tea''" "i_locationId tea = ''right''" "i_archivedAt tea = None" "i_version tea = Fin 1"
  by (simp_all add: tea_def)

lemma tea_json: "jget ''id'' (json_of_item tea) = Some (JStr ''tea'')" "jget ''locationId'' (json_of_item tea) = Some (JStr ''right'')"
  by (simp_all add: item_obj_def tea_def)

lemma import_expectations:
  "expectations_for_command sample_state (import_command [tea] []) = Inr [import_expectation]"
  by (simp add: import_command_def destination_of_def tea_json capture_expectations_def location_expectation_def
      expect_field_def property_of_def location_obj_def sample_locations_def import_expectation_def item_obj_def tea_def json_of_nullable_def)

lemma import_create:
  "create_envelope sample_state (import_command [tea] []) (preview_options ''c1'' ''t1'') [] ''t1'' = Inr import_envelope"
  by (simp add: create_envelope_def import_expectations preview_options_def import_envelope_def)

lemma tea_valid: "validate_item sample_state (json_of_item tea) = Inr ()"
  by (simp add: validate_item_def item_obj_def tea_def default_constraints_def constraints_obj_def json_of_nullable_def
      json_of_list_def all_frequency_def is_safe_integer_def max_safe_def blank_def js_trim_def is_space_def
      require_active_location_def require_location_def)

lemma import_bulk_create:
  "item_bulk_create sample_state ''t1'' [json_of_item tea] None = Inr import_change"
proof -
  have loc: "find_location sample_state ''right'' = Some (sample_location ''right'' ''X'' Box (Some ''room''))"
    by (simp add: find_location_def sample_state_def sample_locations_def)
  have "bulk_create_checks sample_state [] [json_of_item tea] = Inr ()"
    by (simp only: bulk_create_checks.simps tea_valid tea_json) (simp add: text_of_def)
  moreover have "complete_locations sample_state [''right''] = Inr []"
    using loc by (simp add: complete_locations_def require_active_location_def require_location_def capture_complete_def)
  moreover have "contents_editable sample_state [Some ''right''] = Inr ()"
    using loc by (simp add: require_location_def capture_complete_def)
  moreover have "bulk_create_progress_patches sample_state [''right''] ''t1'' False = Inr []"
    using loc by (simp add: bulk_create_progress_patches_def require_active_location_def require_location_def)
  moreover have "plan_invalidation_patches sample_state [] ds = []" for ds
    by (simp add: plan_invalidation_patches_def)
  moreover have "digits_of (Suc 0) = ''1''" by code_simp
  ultimately show ?thesis
    unfolding item_bulk_create_def tea_json text_of_def
    by (simp add: mk_change_def import_change_def tea_patch_def plural_s_def Let_def)
qed

lemma tea_patch_applies: "apply_patches sample_state [tea_patch] = Inr (sample_state\<lparr>ws_items := [jam, jam2, tea]\<rparr>)"
  by (simp add: apply_patches_Cons tea_patch_def item_records.create_patch item_codec.dec_enc)

lemma import_timestamp: "e_timestamp import_envelope = ''t1''"
  by (simp add: import_envelope_def)

lemma import_result:
  "apply_command (\<lambda>_. True) sample_state import_envelope =
     Inr \<lparr>cr_activity = Some (activity_of import_envelope import_change), cr_audit = None, cr_state = imported_state\<rparr>"
proof -
  have e: "normalize_envelope import_envelope = import_envelope"
    by (simp add: normalize_envelope_def import_envelope_def import_command_def comp_def normalize_expectation_def
        import_expectation_def del: normalize_description.simps)
  have v: "validate_envelope (\<lambda>_. True) import_envelope = Inr ()"
    by (simp add: validate_envelope_def import_envelope_def import_command_def blank_def js_trim_def is_space_def
        is_safe_integer_def max_safe_def check_expectation_def import_expectation_def path_keys_simple unsafe_path_keys_def)
  have x: "expectation_conflicts sample_state i (e_expectations import_envelope) = Inr []" for i
    using expectations_no_conflict [OF sample_wf import_expectations, of i]
    by (simp add: import_envelope_def normalize_expectation_def import_expectation_def)
  have "normal_patches sample_state import_envelope = Inr import_change"
    using import_bulk_create by (simp add: normal_patches_def import_envelope_def import_command_def)
  moreover have "ch_patches import_change = [tea_patch]" by (simp add: import_change_def)
  ultimately have n: "apply_normal_command sample_state import_envelope =
      Inr \<lparr>cr_activity = Some (activity_of import_envelope import_change), cr_audit = None, cr_state = imported_state\<rparr>"
    using tea_patch_applies by (simp add: apply_normal_command_def imported_state_def import_timestamp Let_def)
  have "e_workspaceId import_envelope = w_id (ws_workspace sample_state)" "e_baseRevision import_envelope = revision sample_state"
    "is_history_command (e_command import_envelope) = False"
    by (simp_all add: import_envelope_def sample_state_def import_command_def)
  moreover have "check_revision sample_state import_envelope = Inr ()"
    by (simp add: check_revision_def import_envelope_def sample_state_def is_safe_integer_def max_safe_def js_le_def)
  ultimately show ?thesis using e v x n by (simp add: apply_command_def)
qed

lemma imported_sel [simp]:
  "ws_locations imported_state = sample_locations" "ws_plans imported_state = []" "ws_audit imported_state = []"
  "ws_commandReceipts imported_state = []" "ws_schemaVersion imported_state = 2" "ws_items imported_state = [jam, jam2, tea]"
  "ws_activities imported_state = [activity_of import_envelope import_change]"
  "ws_workspace imported_state =
     \<lparr>w_createdAt = ''t0'', w_id = ''w'', w_name = ''Home'', w_revision = Fin 8, w_updatedAt = ''t1''\<rparr>"
  by (simp_all add: imported_state_def bump_revision_def sample_arith del: js_add.simps) (simp_all add: sample_state_def sample_arith del: js_add.simps)

section \<open>Within the limits\<close>

lemma import_activity_size: "size_bound (json_of_activity (activity_of import_envelope import_change)) \<le> 10000"
  by (simp add: activity_of_def json_of_activity_def json_of_list_def json_of_patch_def tea_patch_def import_change_def
      meaningful_patches_def import_envelope_def sample_digits json_of_nullable_def mk_patch_def is_bookkeeping_def
      uniq_distinct item_obj_def tea_def default_constraints_def constraints_obj_def del: num_to_string.simps)

lemma import_item_size:
  "size_bound (json_of_item jam) \<le> 10000" "size_bound (json_of_item jam2) \<le> 10000" "size_bound (json_of_item tea) \<le> 10000"
  by (simp_all add: sample_item_def tea_def default_constraints_def item_obj_def sample_digits constraints_obj_def
      json_of_list_def json_of_nullable_def del: num_to_string.simps)

lemma imported_bytes: "state_bytes imported_state \<le> 1800000"
proof -
  have "size_bound (json_of_workspace (ws_workspace imported_state)) \<le> 10000"
    by (simp add: workspace_obj_def sample_digits del: num_to_string.simps)
  moreover have "sum_list (map (\<lambda>l. size_bound (json_of_location l) + 1) sample_locations) \<le> 40000"
    using sample_location_size [of "''room''" "''R''" Room None] sample_location_size [of "''left''" "''L''" Box "Some ''room''"]
      sample_location_size [of "''right''" "''X''" Box "Some ''room''"]
    unfolding sample_locations_def by (simp del: size_bound.simps)
  moreover have "sum_list (map (\<lambda>x. size_bound (json_of_item x) + 1) (ws_items imported_state)) \<le> 40000"
    using import_item_size by (simp del: size_bound.simps)
  ultimately have "size_bound (json_of_state imported_state) \<le> 1800000"
    using import_activity_size unfolding json_of_state_def json_of_list_def size_bound.simps
    by (simp add: comp_def sample_digits del: num_to_string.simps)
  then show ?thesis using serialized_bound [of "json_of_state imported_state"] by (simp add: state_bytes_def)
qed

lemma imported_patch_count: "patch_count (ws_activities imported_state) = 1"
  by (simp add: activity_of_def import_change_def tea_patch_def meaningful_patches_def is_bookkeeping_def mk_patch_def
      patch_count_def)

lemma imported_compact: "compact_workspace_history imported_state history_limits ids us = imported_state"
  by (rule within_limits_compact)
    (use imported_bytes imported_patch_count in \<open>simp add: within_limits_def history_limits_def\<close>)

lemma imported_quota: "List.find (exceeds (Some p) (state_usage_of imported_state)) snapshot_quota_order = None"
proof -
  have "qu_storedBytes (snapshot_quota_usage (json_of_state imported_state)) \<le> 1800000"
    using imported_bytes by (simp add: snapshot_quota_usage_def state_bytes_def)
  then show ?thesis using imported_patch_count
    by (auto simp: find_None_iff snapshot_quota_order_def exceeds_def state_usage_of_def state_usage patch_count_def sample_locations_def)
qed

lemma import_projection:
  "\<exists>q. project_quota (\<lambda>_. True) sample_state (import_command [tea] []) ''c1'' ''t1'' = Inr q \<and> qp_violation q = None"
  by (simp add: project_quota_def import_create import_result imported_compact imported_quota Let_def)

lemma sample_import:
  "ip_canCommit (plan_csv_import (\<lambda>_. True) import_settings)"
  "ip_command (plan_csv_import (\<lambda>_. True) import_settings) = Some (import_command [tea] [])"
  "row_items (ip_validRows (plan_csv_import (\<lambda>_. True) import_settings)) = [tea]"
proof -
  obtain q where q: "project_quota (\<lambda>_. True) sample_state (import_command [tea] []) ''c1'' ''t1'' = Inr q" "qp_violation q = None"
    using import_projection by blast
  note defs = plan_csv_import_def Let_def import_mapping_issues import_plan_row [simplified] q row_items_def
  have spaces: "filter (\<lambda>l. l_id l = ''right'' \<and> \<not> l_archived l \<and>
      (l_captureStatus l = Counted \<or> l_captureStatus l = Known_empty)) sample_locations = []"
    by (simp add: sample_locations_def)
  show "ip_canCommit (plan_csv_import (\<lambda>_. True) import_settings)"
    "ip_command (plan_csv_import (\<lambda>_. True) import_settings) = Some (import_command [tea] [])"
    "row_items (ip_validRows (plan_csv_import (\<lambda>_. True) import_settings)) = [tea]"
    by (simp_all add: defs spaces)
qed

end
