(* ===== verification/Js_Arith.thy ===== *)
theory Js_Arith
  imports JsNumber
begin

text \<open>
  The remaining arithmetic on JavaScript numbers that the planner uses: products, quotients,
  \<open>Math.min\<close> and \<open>Math.round\<close>.  As in \<open>JsNumber\<close> results are exact and then rounded to the
  nearest double; zeros and infinities carry their sign.
\<close>

fun negative :: "jsnum \<Rightarrow> bool" where
  "negative (Fin r) = (r < 0)"
| "negative NegZero = True"
| "negative NegInf = True"
| "negative x = False"

abbreviation is_zero :: "jsnum \<Rightarrow> bool" where
  "is_zero x \<equiv> is_finite x \<and> num_val x = 0"

definition signed_zero :: "bool \<Rightarrow> jsnum" where
  "signed_zero flip = (if flip then NegZero else Fin 0)"

definition signed_inf :: "bool \<Rightarrow> jsnum" where
  "signed_inf flip = (if flip then NegInf else PosInf)"

definition js_mul :: "jsnum \<Rightarrow> jsnum \<Rightarrow> jsnum" where
  "js_mul x y =
     (let flip = (negative x \<noteq> negative y) in
      if x = NaN \<or> y = NaN then NaN
      else if is_finite x \<and> is_finite y
      then (if num_val x * num_val y = 0 then signed_zero flip else round_double (num_val x * num_val y))
      else if is_zero x \<or> is_zero y then NaN else signed_inf flip)"

definition js_div :: "jsnum \<Rightarrow> jsnum \<Rightarrow> jsnum" where
  "js_div x y =
     (let flip = (negative x \<noteq> negative y) in
      if x = NaN \<or> y = NaN then NaN
      else if \<not> is_finite x then (if is_finite y then signed_inf flip else NaN)
      else if \<not> is_finite y then signed_zero flip
      else if num_val y = 0 then (if num_val x = 0 then NaN else signed_inf flip)
      else if num_val x = 0 then signed_zero flip
      else round_double (num_val x / num_val y))"

definition js_min :: "jsnum \<Rightarrow> jsnum \<Rightarrow> jsnum" where
  "js_min x y =
     (if x = NaN \<or> y = NaN then NaN
      else if js_less x y then x
      else if js_less y x then y
      else if x = NegZero then x else y)"

fun js_round :: "jsnum \<Rightarrow> jsnum" where
  "js_round (Fin r) = (let k = \<lfloor>r + 1 / 2\<rfloor> in if k = 0 \<and> r < 0 then NegZero else JsInt k)"
| "js_round x = x"

definition js_sum :: "jsnum list \<Rightarrow> jsnum" where
  "js_sum xs = foldl js_add (Fin 0) xs"

end
