(* ===== verification/Planner.thy ===== *)
theory Planner
  imports Js_Arith Plan_Selection Factories
begin

text \<open>
  The generation of a plan (\<open>src/domain/planner.ts\<close>): every item is scored at every storage
  location, whole containers are moved first where that pays, then single items, best
  destination first, until no item profits any more.  The projected state, on which later
  suggestions build, is threaded through the passes.

  Random identifiers and the clock are parameters: \<open>fresh k\<close> is the UUID given to the \<open>k\<close>-th
  record.  \<open>2.54 ** 3\<close> is the exact cube rounded to a double.
\<close>

section \<open>Scores\<close>


definition default_plan_weights :: plan_weights where
  "default_plan_weights =
     \<lparr>pw_accessibility = Fin 4, pw_capacity = Fin 3, pw_grouping = Fin 4, pw_moveCost = Fin 2,
      pw_suitability = Fin 5\<rparr>"

fun frequency_value :: "frequency \<Rightarrow> jsnum" where
  "frequency_value Daily = Fin 4"
| "frequency_value Monthly = Fin 2"
| "frequency_value Rarely = Fin 1"
| "frequency_value Weekly = Fin 3"

record candidate_score =
  cs_hardFailure :: "string option"
  cs_reasons :: "string list"
  cs_score :: jsnum

definition normalized_grouping_value :: "string option \<Rightarrow> string option" where
  "normalized_grouping_value v =
     (let normalized = (case v of None \<Rightarrow> [] | Some t \<Rightarrow> js_lower (js_trim t))
      in if normalized \<noteq> [] then Some normalized else None)"

definition explicit_category :: "item \<Rightarrow> string option" where
  "explicit_category x =
     (let category = normalized_grouping_value (Some (i_category x))
      in if category = Some (js_lower default_item_category) then None else category)"

definition records_are_related :: "item \<Rightarrow> item \<Rightarrow> bool" where
  "records_are_related x y \<longleftrightarrow>
     (explicit_category x \<noteq> None \<and> explicit_category y = explicit_category x) \<or>
     (let keep = normalized_grouping_value (k_keepTogether (i_constraints x))
      in keep \<noteq> None \<and> normalized_grouping_value (k_keepTogether (i_constraints y)) = keep)"

definition volume :: "dimensions option \<Rightarrow> jsnum option" where
  "volume dims =
     (case dims of
        None \<Rightarrow> None
      | Some d \<Rightarrow>
          let cube = (if d_unit d = Inch then round_double ((254 / 100) ^ 3) else Fin 1);
              result = js_mul (js_mul (js_mul (d_depth d) (d_height d)) (d_width d)) cube
          in if is_finite result then Some result else None)"

definition item_volume :: "item \<Rightarrow> jsnum option" where
  "item_volume x =
     (case volume (i_dimensions x) of
        None \<Rightarrow> None
      | Some per_unit \<Rightarrow>
          let result = js_mul per_unit (i_quantity x) in if is_finite result then Some result else None)"

text \<open>The number of parents above a location, or 100 when the links run in a circle.\<close>

function depth_walk :: "location list \<Rightarrow> string set \<Rightarrow> nat \<Rightarrow> location option \<Rightarrow> nat" where
  "depth_walk ls seen depth current =
     (case current of
        None \<Rightarrow> depth
      | Some l \<Rightarrow>
          if \<not> set_at (l_parentId l) then depth
          else if l_id l \<in> seen then 100
          else if l \<notin> set ls then depth
          else depth_walk ls (insert (l_id l) seen) (depth + 1) (List.find (\<lambda>m. Some (l_id m) = l_parentId l) ls))"
  by pat_completeness auto
termination
proof (relation "measure (\<lambda>(ls, seen, n, c). card (l_id ` set ls - seen))", goal_cases)
  case (2 ls seen depth current l)
  then have "l_id l \<in> l_id ` set ls - seen" by simp
  then have "card (l_id ` set ls - insert (l_id l) seen) < card (l_id ` set ls - seen)"
    by (intro psubset_card_mono) auto
  then show ?case by simp
qed simp

declare depth_walk.simps [simp del]

definition location_depth :: "wstate \<Rightarrow> string \<Rightarrow> nat" where
  "location_depth s i = depth_walk (ws_locations s) {} 0 (List.find (\<lambda>l. l_id l = i) (ws_locations s))"

definition index_in :: "'a \<Rightarrow> 'a list \<Rightarrow> nat" where
  "index_in x xs = length (takeWhile (\<lambda>y. y \<noteq> x) xs)"

definition move_distance :: "wstate \<Rightarrow> string \<Rightarrow> string \<Rightarrow> nat" where
  "move_distance s src dst =
     (let source = ancestors_of (ws_locations s) src; destination = ancestors_of (ws_locations s) dst in
      case List.find (\<lambda>i. i \<in> set destination) source of
        None \<Rightarrow> length source + length destination
      | Some common \<Rightarrow>
          if common = [] then length source + length destination
          else index_in common source + index_in common destination)"

text \<open>A location and everything below it, as identifiers.\<close>

definition within_ids :: "wstate \<Rightarrow> string \<Rightarrow> string set" where
  "within_ids s i = insert i (l_id ` set (descendants_of (ws_locations s) i))"

definition contained_items :: "wstate \<Rightarrow> string \<Rightarrow> item list" where
  "contained_items s i = filter (\<lambda>x. \<not> i_archived x \<and> i_locationId x \<in> within_ids s i) (ws_items s)"

text \<open>The sum of the volumes, or \<open>None\<close> when one of them is unknown.\<close>

definition total_volume :: "item list \<Rightarrow> jsnum option" where
  "total_volume xs =
     (if list_ex (\<lambda>x. item_volume x = None) xs then None
      else Some (js_sum (map (\<lambda>x. case item_volume x of None \<Rightarrow> Fin 0 | Some v \<Rightarrow> v) xs)))"

definition used_volume :: "wstate \<Rightarrow> string \<Rightarrow> jsnum option" where
  "used_volume s i =
     (case total_volume (contained_items s i) of
        None \<Rightarrow> None
      | Some v \<Rightarrow> if is_finite v then Some v else None)"

definition capture_counted :: "capture_status \<Rightarrow> bool" where
  "capture_counted c \<longleftrightarrow> c = Counted \<or> c = Known_empty"

definition is_storage_location :: "location \<Rightarrow> bool" where
  "is_storage_location l \<longleftrightarrow>
     \<not> l_archived l \<and> capture_counted (l_captureStatus l) \<and> l_kind l \<noteq> Area \<and> l_kind l \<noteq> Room"

definition is_movable_container :: "location \<Rightarrow> bool" where
  "is_movable_container l \<longleftrightarrow> l_kind l = Bin \<or> l_kind l = Box \<or> l_kind l = Container"

definition hard_failure :: "item \<Rightarrow> location \<Rightarrow> string option" where
  "hard_failure x l =
     (let k = i_constraints x; c = l_conditions l in
      if k_avoidWarmth k \<and> c_temperature c = Warm then Some ''too warm''
      else if k_avoidHumidity k \<and> c_humidity c = Humid then Some ''too humid''
      else if k_foodOnly k \<and> \<not> c_foodSafe c then Some ''not marked food-safe''
      else case List.find (\<lambda>t. t \<notin> set (l_tags l)) (k_requiredTags k) of
             None \<Rightarrow> None
           | Some t \<Rightarrow> if t = [] then None else Some (''missing required '' @ t @ '' tag''))"

definition rejected :: "string \<Rightarrow> candidate_score" where
  "rejected why = \<lparr>cs_hardFailure = Some why, cs_reasons = [''Rejected: '' @ why], cs_score = NegInf\<rparr>"

definition capacity_unverified :: string where
  "capacity_unverified = ''capacity cannot be verified because some item sizes are unmeasured''"

text \<open>A score and the reasons for it, while they are collected.\<close>

type_synonym tally = "jsnum \<times> string list"

definition suitability_tally :: "item \<Rightarrow> location \<Rightarrow> plan_weights \<Rightarrow> tally" where
  "suitability_tally x l w =
     (let k = i_constraints x; c = l_conditions l; suit = pw_suitability w;
          bonus = (\<lambda>on by why (sc, rs). if on then (js_add sc by, rs @ [why]) else (sc, rs))
      in bonus (k_avoidHumidity k \<and> c_humidity c \<noteq> Humid) suit ''avoids humidity''
          (bonus (k_avoidWarmth k \<and> c_temperature c \<noteq> Warm) suit ''avoids warm storage''
            (bonus (k_foodOnly k \<and> c_foodSafe c) (js_mul suit (Fin 2)) ''food-safe area''
              (js_mul suit (Fin 2), []))))"

definition nearby_peers :: "wstate \<Rightarrow> item \<Rightarrow> location \<Rightarrow> nat" where
  "nearby_peers s x l =
     length (filter (\<lambda>y. i_id y \<noteq> i_id x \<and> \<not> i_archived y \<and> i_locationId y = l_id l \<and> records_are_related x y)
       (ws_items s))"

definition grouping_tally :: "wstate \<Rightarrow> item \<Rightarrow> location \<Rightarrow> plan_weights \<Rightarrow> tally \<Rightarrow> tally" where
  "grouping_tally s x l w = (\<lambda>(sc, rs).
     let n = nearby_peers s x l in
     if n = 0 then (sc, rs)
     else (js_add sc (js_mul (JsInt (int (min n 4))) (pw_grouping w)),
           rs @ [''groups with '' @ digits_of n @ '' related record'' @ (if n = 1 then [] else ''s'')]))"

definition access_tally :: "wstate \<Rightarrow> item \<Rightarrow> location \<Rightarrow> plan_weights \<Rightarrow> tally \<Rightarrow> tally" where
  "access_tally s x l w = (\<lambda>(sc, rs).
     let depth = location_depth s (l_id l);
         access = js_mul (JsInt (max 0 (5 - int depth))) (frequency_value (i_frequency x))
     in (js_add sc (js_mul (js_mul access (pw_accessibility w)) (Fin (1 / 4))),
         rs @ (if i_frequency x = Daily \<or> i_frequency x = Weekly
               then [frequency_name (i_frequency x) @ '' access at depth '' @ digits_of depth] else [])))"

text \<open>\<open>None\<close> is a location that is too small.\<close>

definition capacity_tally :: "wstate \<Rightarrow> item \<Rightarrow> location \<Rightarrow> plan_weights \<Rightarrow> tally \<Rightarrow> tally option" where
  "capacity_tally s x l w = (\<lambda>(sc, rs).
     case volume (l_dimensions l) of
       None \<Rightarrow> Some (sc, rs @ [''capacity is unmeasured''])
     | Some capacity \<Rightarrow>
         (case (item_volume x, used_volume s (l_id l)) of
            (Some v, Some occupied) \<Rightarrow>
              let counted = (if l_id l \<in> set (ancestors_of (ws_locations s) (i_locationId x)) then v else Fin 0);
                  remaining = js_sub (js_add (js_sub capacity occupied) counted) v
              in if js_less remaining (Fin 0) then None
                 else Some (js_add sc (js_mul (pw_capacity w)
                          (js_min (Fin 3) (js_add (Fin 1) (js_div remaining (js_max capacity (Fin 1)))))),
                        rs @ [''fits measured capacity''])
          | _ \<Rightarrow> Some (sc, rs @ [capacity_unverified])))"

definition move_tally :: "wstate \<Rightarrow> item \<Rightarrow> location \<Rightarrow> plan_weights \<Rightarrow> tally \<Rightarrow> tally" where
  "move_tally s x l w = (\<lambda>(sc, rs).
     let distance = move_distance s (i_locationId x) (l_id l);
         sc' = js_sub sc (js_mul (JsInt (int distance)) (pw_moveCost w));
         rs' = (if distance \<le> 2 then rs @ [''short physical move''] else rs)
     in (if l_id l = i_locationId x then js_add sc' (js_mul (pw_moveCost w) (Fin 3)) else sc', rs'))"

definition score_candidate :: "wstate \<Rightarrow> item \<Rightarrow> location \<Rightarrow> plan_weights \<Rightarrow> candidate_score" where
  "score_candidate s x l w =
     (case hard_failure x l of
        Some why \<Rightarrow> rejected why
      | None \<Rightarrow>
          (case capacity_tally s x l w (access_tally s x l w (grouping_tally s x l w (suitability_tally x l w))) of
             None \<Rightarrow> rejected ''not enough measured capacity''
           | Some t \<Rightarrow>
               let (sc, rs) = move_tally s x l w t
               in if is_finite sc then \<lparr>cs_hardFailure = None, cs_reasons = rs, cs_score = sc\<rparr>
                  else rejected ''numeric capacity or priority overflow''))"

section \<open>Moving whole containers\<close>

record container_choice =
  cc_destination :: location
  cc_reasons :: "string list"
  cc_score :: jsnum

definition js_average :: "jsnum list \<Rightarrow> jsnum" where
  "js_average xs = js_div (js_sum xs) (JsInt (int (length xs)))"

text \<open>One destination of the loop: the score of the move, unless it is out of the question.\<close>

definition rate_destination ::
  "wstate \<Rightarrow> location \<Rightarrow> plan_weights \<Rightarrow> item list \<Rightarrow> jsnum list \<Rightarrow> location \<Rightarrow> container_choice option" where
  "rate_destination s container w xs current destination =
     (let incoming = total_volume (filter (\<lambda>x. i_locationId x \<notin> within_ids s (l_id destination)) xs);
          capacity = volume (l_dimensions destination);
          occupied = (if capacity = None then None else used_volume s (l_id destination));
          uncertain = (capacity \<noteq> None \<and> (occupied = None \<or> incoming = None));
          full = (case (capacity, occupied, incoming) of
                    (Some c, Some o', Some n) \<Rightarrow> js_less c (js_add o' n) | _ \<Rightarrow> False);
          scores = map (\<lambda>x. score_candidate s x destination w) xs;
          average = js_average (map cs_score scores);
          combined = js_add average (js_mul (js_mul (JsInt (int (length xs) - 1)) (pw_moveCost w)) (Fin 2));
          reasons = uniq (concat (map cs_reasons scores))
      in if l_id destination \<in> within_ids s (l_id container) \<or> Some (l_id destination) = l_parentId container then None
         else if full \<or> list_ex (\<lambda>c. cs_hardFailure c \<noteq> None) scores then None
         else if list_ex (\<lambda>(c, now). js_less (cs_score c) now) (zip scores current) then None
         else if \<not> is_finite average \<or> js_le average (js_average current) \<or> \<not> is_finite combined then None
         else Some
           \<lparr>cc_destination = destination,
            cc_reasons =
              (''moves '' @ digits_of (length xs) @ '' item records as one physical container'') #
              (if uncertain then [capacity_unverified] else []) @
              take 2 (filter (\<lambda>r. \<not> uncertain \<or> r \<noteq> capacity_unverified) reasons),
            cc_score = combined\<rparr>)"

fun better_choice :: "container_choice option \<Rightarrow> container_choice option \<Rightarrow> container_choice option" where
  "better_choice best None = best"
| "better_choice None (Some c) = Some c"
| "better_choice (Some b) (Some c) = (if js_less (cc_score b) (cc_score c) then Some c else Some b)"

definition rounded_score :: "jsnum \<Rightarrow> jsnum" where
  "rounded_score x = js_div (js_round (js_mul x (Fin 10))) (Fin 10)"

definition new_step_id :: "(nat \<Rightarrow> string) \<Rightarrow> nat \<Rightarrow> string" where
  "new_step_id fresh k = ''step_'' @ fresh k"

text \<open>The covered items and the step, which gets the \<open>k\<close>-th identifier.\<close>

definition container_step ::
  "wstate \<Rightarrow> location \<Rightarrow> location list \<Rightarrow> plan_weights \<Rightarrow> string \<Rightarrow> (string list \<times> plan_step) option" where
  "container_step s container candidates w new_step =
     (case l_parentId container of
        None \<Rightarrow> None
      | Some parent \<Rightarrow>
          let xs = contained_items s (l_id container);
              current = map (\<lambda>x. cs_score (score_candidate s x container w)) xs;
              best = foldl (\<lambda>b d. better_choice b (rate_destination s container w xs current d)) None candidates
          in if parent = [] \<or> length xs < 2 then None
             else case best of
                 None \<Rightarrow> None
               | Some b \<Rightarrow>
                   if js_le (cc_score b) (js_add (js_average current) (js_mul (pw_moveCost w) (Fin 2))) then None
                   else Some (map i_id xs,
                     \<lparr>s_completedAt = None, s_destinationId = l_id (cc_destination b),
                      s_explanation = cc_reasons b, s_id = new_step, s_itemId = None,
                      s_locationId = Some (l_id container), s_quantity = None,
                      s_score = rounded_score (cc_score b), s_sourceId = parent, s_type = Location_step\<rparr>))"

text \<open>The containers to try, most items first, as positions in the list of locations.\<close>

definition plan_containers :: "wstate \<Rightarrow> resolved_selection \<Rightarrow> nat list" where
  "plan_containers s r =
     (let ls = ws_locations s in
      sort_key (\<lambda>k. - int (length (contained_items s (l_id (ls ! k)))))
        (filter (\<lambda>k. is_movable_container (ls ! k) \<and>
             can_move_location r (l_id (ls ! k)) (l_parentId (ls ! k)) \<and>
             l_captureStatus (ls ! k) = Counted \<and> set_at (l_parentId (ls ! k)) \<and> \<not> l_archived (ls ! k))
           [0..<length ls]))"

definition destinations :: "wstate \<Rightarrow> resolved_selection \<Rightarrow> location list" where
  "destinations s r = filter (\<lambda>l. is_storage_location l \<and> can_receive r (l_id l)) (ws_locations s)"

record projection =
  pj_state :: wstate
  pj_steps :: "plan_step list"
  pj_covered :: "string list"
  pj_planned :: "string list"

definition move_container :: "nat \<Rightarrow> string \<Rightarrow> wstate \<Rightarrow> wstate" where
  "move_container k parent s =
     s\<lparr>ws_locations := (ws_locations s)[k := (ws_locations s ! k)\<lparr>l_parentId := Some parent\<rparr>]\<rparr>"

definition try_container ::
  "resolved_selection \<Rightarrow> plan_weights \<Rightarrow> (nat \<Rightarrow> string) \<Rightarrow> projection \<Rightarrow> nat \<Rightarrow> projection" where
  "try_container r w fresh pj k =
     (let s = pj_state pj in
      case container_step s (ws_locations s ! k) (destinations s r) w (new_step_id fresh (length (pj_steps pj))) of
        None \<Rightarrow> pj
      | Some (covered, step) \<Rightarrow>
          if list_ex (\<lambda>i. i \<in> set (pj_covered pj)) covered then pj
          else pj\<lparr>pj_covered := pj_covered pj @ covered, pj_steps := pj_steps pj @ [step],
                  pj_state := move_container k (s_destinationId step) s\<rparr>)"

section \<open>Moving single items\<close>

text \<open>The destinations without a hard failure, best first; equal scores keep their order.\<close>

definition ranked_destinations ::
  "wstate \<Rightarrow> resolved_selection \<Rightarrow> plan_weights \<Rightarrow> item \<Rightarrow> (location \<times> candidate_score) list" where
  "ranked_destinations s r w x =
     sort_key (\<lambda>(l, c). - num_val (cs_score c))
       (filter (\<lambda>(l, c). cs_hardFailure c = None)
         (map (\<lambda>l. (l, score_candidate s x l w))
           (filter (\<lambda>l. l_id l \<noteq> i_locationId x) (destinations s r))))"

definition item_step :: "item \<Rightarrow> location \<Rightarrow> candidate_score \<Rightarrow> string \<Rightarrow> plan_step" where
  "item_step x l c new_step =
     \<lparr>s_completedAt = None, s_destinationId = l_id l, s_explanation = cs_reasons c, s_id = new_step,
      s_itemId = Some (i_id x), s_locationId = None, s_quantity = Some (i_quantity x),
      s_score = rounded_score (cs_score c), s_sourceId = i_locationId x, s_type = Item_step\<rparr>"

text \<open>The best destination of an item when the move is worth its cost.\<close>

definition best_move ::
  "wstate \<Rightarrow> resolved_selection \<Rightarrow> plan_weights \<Rightarrow> item \<Rightarrow> (location \<times> candidate_score) option" where
  "best_move s r w x =
     (case List.find (\<lambda>l. l_id l = i_locationId x) (ws_locations s) of
        None \<Rightarrow> None
      | Some here \<Rightarrow>
          (case ranked_destinations s r w x of
             [] \<Rightarrow> None
           | (l, c) # rest \<Rightarrow>
               if js_le (cs_score c) (js_add (cs_score (score_candidate s x here w)) (pw_moveCost w))
               then None else Some (l, c)))"

definition move_item :: "nat \<Rightarrow> string \<Rightarrow> wstate \<Rightarrow> wstate" where
  "move_item k loc s = s\<lparr>ws_items := (ws_items s)[k := (ws_items s ! k)\<lparr>i_locationId := loc\<rparr>]\<rparr>"

definition open_item :: "resolved_selection \<Rightarrow> projection \<Rightarrow> item \<Rightarrow> bool" where
  "open_item r pj x \<longleftrightarrow>
     can_move_item r (i_id x) (i_locationId x) \<and> i_id x \<notin> set (pj_covered pj) \<and> i_id x \<notin> set (pj_planned pj)"

definition try_item ::
  "resolved_selection \<Rightarrow> plan_weights \<Rightarrow> (nat \<Rightarrow> string) \<Rightarrow> projection \<Rightarrow> nat \<Rightarrow> projection" where
  "try_item r w fresh pj k =
     (let s = pj_state pj; x = ws_items s ! k in
      if \<not> open_item r pj x then pj
      else case best_move s r w x of
          None \<Rightarrow> pj
        | Some (l, c) \<Rightarrow>
            pj\<lparr>pj_steps := pj_steps pj @ [item_step x l c (new_step_id fresh (length (pj_steps pj)))],
               pj_planned := pj_planned pj @ [i_id x], pj_state := move_item k (l_id l) s\<rparr>)"

definition live_positions :: "wstate \<Rightarrow> nat list" where
  "live_positions s = filter (\<lambda>k. \<not> i_archived (ws_items s ! k)) [0..<length (ws_items s)]"

definition item_pass :: "resolved_selection \<Rightarrow> plan_weights \<Rightarrow> (nat \<Rightarrow> string) \<Rightarrow> projection \<Rightarrow> projection" where
  "item_pass r w fresh pj = foldl (try_item r w fresh) pj (live_positions (pj_state pj))"

text \<open>
  A pass that plans something plans an item that was not planned before, so the passes end.
\<close>

definition unplanned :: "projection \<Rightarrow> string set" where
  "unplanned pj = i_id ` set (ws_items (pj_state pj)) - set (pj_planned pj)"

lemma ids_move_item: "map i_id (ws_items (move_item k loc s)) = map i_id (ws_items s)"
proof (cases "k < length (ws_items s)")
  case True
  then have "i_id (ws_items s ! k) = map i_id (ws_items s) ! k" by simp
  then show ?thesis by (simp add: move_item_def map_update)
qed (simp add: move_item_def list_update_beyond)

lemma try_item_cases:
  obtains (skip) "try_item r w fresh pj k = pj"
  | (move) l c where "open_item r pj (ws_items (pj_state pj) ! k)"
      and "best_move (pj_state pj) r w (ws_items (pj_state pj) ! k) = Some (l, c)"
      and "try_item r w fresh pj k =
        pj\<lparr>pj_steps := pj_steps pj @ [item_step (ws_items (pj_state pj) ! k) l c (new_step_id fresh (length (pj_steps pj)))],
           pj_planned := pj_planned pj @ [i_id (ws_items (pj_state pj) ! k)],
           pj_state := move_item k (l_id l) (pj_state pj)\<rparr>"
proof (cases "open_item r pj (ws_items (pj_state pj) ! k)")
  case True
  then show thesis using skip move
    by (cases "best_move (pj_state pj) r w (ws_items (pj_state pj) ! k)") (auto simp: try_item_def Let_def)
qed (use skip in \<open>simp add: try_item_def Let_def\<close>)

lemma try_item_ids:
  "map i_id (ws_items (pj_state (try_item r w fresh pj k))) = map i_id (ws_items (pj_state pj))"
  by (simp add: try_item_def Let_def ids_move_item split: option.split)

lemma try_item_planned:
  assumes "k < length (ws_items (pj_state pj))"
  shows "\<exists>js. pj_planned (try_item r w fresh pj k) = pj_planned pj @ js \<and> set js \<subseteq> unplanned pj"
proof (cases rule: try_item_cases [of r w fresh pj k])
  case (move l c)
  have "ws_items (pj_state pj) ! k \<in> set (ws_items (pj_state pj))" using assms by (rule nth_mem)
  then have "i_id (ws_items (pj_state pj) ! k) \<in> unplanned pj"
    using move(1) by (simp add: unplanned_def open_item_def)
  then show ?thesis by (simp add: move(3))
qed simp

lemma try_items_planned:
  assumes "\<forall>k\<in>set ks. k < length (ws_items (pj_state pj))"
  shows "map i_id (ws_items (pj_state (foldl (try_item r w fresh) pj ks))) = map i_id (ws_items (pj_state pj)) \<and>
    (\<exists>js. pj_planned (foldl (try_item r w fresh) pj ks) = pj_planned pj @ js \<and> set js \<subseteq> unplanned pj)"
  using assms
proof (induction ks arbitrary: pj)
  case (Cons k ks)
  let ?pj = "try_item r w fresh pj k"
  have ids: "map i_id (ws_items (pj_state ?pj)) = map i_id (ws_items (pj_state pj))" by (rule try_item_ids)
  then have len: "length (ws_items (pj_state ?pj)) = length (ws_items (pj_state pj))" by (metis length_map)
  have same: "i_id ` set (ws_items (pj_state ?pj)) = i_id ` set (ws_items (pj_state pj))" using ids by (metis set_map)
  obtain js where js: "map i_id (ws_items (pj_state (foldl (try_item r w fresh) ?pj ks))) = map i_id (ws_items (pj_state ?pj))"
      "pj_planned (foldl (try_item r w fresh) ?pj ks) = pj_planned ?pj @ js" "set js \<subseteq> unplanned ?pj"
    using Cons.IH [of ?pj] Cons.prems len by auto
  obtain is' where is': "pj_planned ?pj = pj_planned pj @ is'" "set is' \<subseteq> unplanned pj"
    using try_item_planned [of k pj r w fresh] Cons.prems by auto
  have "set js \<subseteq> unplanned pj" using js(3) is'(1) same by (auto simp: unplanned_def)
  with js(1,2) is' ids show ?case by auto
qed simp

lemma item_pass_planned:
  "map i_id (ws_items (pj_state (item_pass r w fresh pj))) = map i_id (ws_items (pj_state pj)) \<and>
   (\<exists>js. pj_planned (item_pass r w fresh pj) = pj_planned pj @ js \<and> set js \<subseteq> unplanned pj)"
  unfolding item_pass_def by (rule try_items_planned) (simp add: live_positions_def)

lemma item_pass_progress:
  assumes "pj_planned (item_pass r w fresh pj) \<noteq> pj_planned pj"
  shows "card (unplanned (item_pass r w fresh pj)) < card (unplanned pj)"
proof -
  obtain js where js: "pj_planned (item_pass r w fresh pj) = pj_planned pj @ js" "set js \<subseteq> unplanned pj"
    and ids: "map i_id (ws_items (pj_state (item_pass r w fresh pj))) = map i_id (ws_items (pj_state pj))"
    using item_pass_planned by blast
  from ids have "i_id ` set (ws_items (pj_state (item_pass r w fresh pj))) = i_id ` set (ws_items (pj_state pj))"
    by (metis set_map)
  then have "unplanned (item_pass r w fresh pj) = unplanned pj - set js" using js(1) by (auto simp: unplanned_def)
  moreover obtain i where "i \<in> set js" using assms js(1) by (cases js) auto
  ultimately have "unplanned (item_pass r w fresh pj) \<subset> unplanned pj" using js(2) by blast
  then show ?thesis by (intro psubset_card_mono) (simp add: unplanned_def)
qed

function item_passes :: "resolved_selection \<Rightarrow> plan_weights \<Rightarrow> (nat \<Rightarrow> string) \<Rightarrow> projection \<Rightarrow> projection" where
  "item_passes r w fresh pj =
     (let pj' = item_pass r w fresh pj
      in if pj_planned pj' = pj_planned pj then pj' else item_passes r w fresh pj')"
  by pat_completeness auto
termination
  by (relation "measure (\<lambda>(r, w, fresh, pj). card (unplanned pj))") (simp_all add: item_pass_progress)

declare item_passes.simps [simp del]

section \<open>The plan\<close>

definition start_projection :: "wstate \<Rightarrow> projection" where
  "start_projection s = \<lparr>pj_state = s, pj_steps = [], pj_covered = [], pj_planned = []\<rparr>"

definition projected_plan ::
  "wstate \<Rightarrow> plan_selection option \<Rightarrow> plan_weights \<Rightarrow> (nat \<Rightarrow> string) \<Rightarrow> projection" where
  "projected_plan s sel w fresh =
     (let r = resolve_plan_selection s sel
      in item_passes r w fresh (foldl (try_container r w fresh) (start_projection s) (plan_containers s r)))"

definition plan_label :: "string option \<Rightarrow> string \<Rightarrow> string" where
  "plan_label name date =
     (case name of
        None \<Rightarrow> ''Organization plan '' @ [char_of (183::nat)] @ '' '' @ date
      | Some n \<Rightarrow> if js_trim n \<noteq> [] then js_trim n else ''Organization plan '' @ [char_of (183::nat)] @ '' '' @ date)"

text \<open>\<open>date\<close> is the timestamp as the platform prints a local date.\<close>

definition generate_plan ::
  "wstate \<Rightarrow> string option \<Rightarrow> plan_weights option \<Rightarrow> plan_selection option \<Rightarrow> (nat \<Rightarrow> string) \<Rightarrow> string \<Rightarrow> string \<Rightarrow>
   move_plan result" where
  "generate_plan s name weights sel fresh ts date =
     (case plan_selection_issue s (map_option json_of_selection sel) of
        Some why \<Rightarrow> throw INVALID_PLAN_SELECTION
      | None \<Rightarrow>
          let w = (case weights of None \<Rightarrow> default_plan_weights | Some w \<Rightarrow> w);
              steps = pj_steps (projected_plan s sel w fresh)
          in Inr \<lparr>p_createdAt = ts, p_id = ''plan_'' @ fresh (length steps), p_name = plan_label name date,
                  p_selection = sel, p_status = Active, p_steps = steps, p_weights = w\<rparr>)"

end
