(* ===== verification/Readiness.thy ===== *)
theory Readiness
  imports Planner
begin

text \<open>
  \<open>assessPlanReadiness\<close> (\<open>src/domain/planning-readiness.ts\<close>): what a workspace lacks for a
  useful plan, and the records concerned.

  The lemmas relate the assessment to the planner: without active items or counted
  destinations a generated plan has no steps.
\<close>

datatype readiness_gap =
    Gap_capacity | Gap_count | Gap_destination_details | Gap_destinations | Gap_inventory | Gap_item_details | Gap_none

datatype readiness_level =
    Limited | Needs_destinations | Needs_inventory | Ready

record plan_readiness =
  pr_activeItemIds :: "string list"
  pr_canGenerateUsefulPlan :: bool
  pr_countedDestinationIds :: "string list"
  pr_destinationsUsingDefaultsIds :: "string list"
  pr_level :: readiness_level
  pr_primaryGap :: readiness_gap
  pr_quickDefaultItemIds :: "string list"
  pr_uncategorizedItemIds :: "string list"
  pr_uncountedLocationIds :: "string list"
  pr_unmeasuredDestinationIds :: "string list"
  pr_unmeasuredItemIds :: "string list"

definition holds_storage :: "location \<Rightarrow> bool" where
  "holds_storage l \<longleftrightarrow> \<not> l_archived l \<and> l_kind l \<noteq> Area \<and> l_kind l \<noteq> Room"

definition is_counted :: "location \<Rightarrow> bool" where
  "is_counted l \<longleftrightarrow> l_captureStatus l = Counted \<or> l_captureStatus l = Known_empty"

definition has_explicit_category :: "item \<Rightarrow> bool" where
  "has_explicit_category x \<longleftrightarrow>
     (let category = js_lower (js_trim (i_category x))
      in category \<noteq> [] \<and> category \<noteq> js_lower default_item_category)"

definition has_placement_rules :: "item \<Rightarrow> bool" where
  "has_placement_rules x \<longleftrightarrow>
     (let k = i_constraints x in
      k_avoidHumidity k \<or> k_avoidWarmth k \<or> k_foodOnly k \<or>
      (case k_keepTogether k of None \<Rightarrow> False | Some g \<Rightarrow> js_trim g \<noteq> []) \<or> k_requiredTags k \<noteq> [])"

definition uses_only_default_details :: "location \<Rightarrow> bool" where
  "uses_only_default_details l \<longleftrightarrow>
     (let c = l_conditions l in
      l_tags l = [] \<and> c_dark c = c_dark default_conditions \<and> c_dry c = c_dry default_conditions \<and>
      c_foodSafe c = c_foodSafe default_conditions \<and> c_humidity c = c_humidity default_conditions \<and>
      c_temperature c = c_temperature default_conditions)"

definition assess_plan_readiness :: "wstate \<Rightarrow> plan_readiness" where
  "assess_plan_readiness s =
     (let active_items = filter (\<lambda>x. \<not> i_archived x) (ws_items s);
          active_locations = filter (\<lambda>l. \<not> l_archived l) (ws_locations s);
          storage = filter holds_storage active_locations;
          counted = filter is_counted storage;
          uncategorized = filter (\<lambda>x. \<not> has_explicit_category x) active_items;
          quick = filter (\<lambda>x. \<not> has_explicit_category x \<and> i_frequency x = Monthly \<and> \<not> has_placement_rules x)
                    active_items;
          uncounted = filter (\<lambda>l. \<not> is_counted l) active_locations;
          defaults = filter uses_only_default_details counted;
          unmeasured_destinations = filter (\<lambda>l. l_dimensions l = None) storage;
          unmeasured_items = filter (\<lambda>x. i_dimensions x = None) active_items;
          gap = (if active_items = [] then Gap_inventory
                 else if length counted < 2 then Gap_destinations
                 else if uncounted \<noteq> [] then Gap_count
                 else if uncategorized \<noteq> [] then Gap_item_details
                 else if defaults \<noteq> [] then Gap_destination_details
                 else if unmeasured_destinations \<noteq> [] \<or> unmeasured_items \<noteq> [] then Gap_capacity
                 else Gap_none)
      in \<lparr>pr_activeItemIds = map i_id active_items,
          pr_canGenerateUsefulPlan = (active_items \<noteq> [] \<and> 2 \<le> length counted),
          pr_countedDestinationIds = map l_id counted, pr_destinationsUsingDefaultsIds = map l_id defaults,
          pr_level = (if active_items = [] then Needs_inventory
                      else if length counted < 2 then Needs_destinations
                      else if gap = Gap_none then Ready else Limited),
          pr_primaryGap = gap, pr_quickDefaultItemIds = map i_id quick,
          pr_uncategorizedItemIds = map i_id uncategorized, pr_uncountedLocationIds = map l_id uncounted,
          pr_unmeasuredDestinationIds = map l_id unmeasured_destinations,
          pr_unmeasuredItemIds = map i_id unmeasured_items\<rparr>)"

section \<open>Nothing to plan\<close>

lemma readiness_lists:
  "pr_activeItemIds (assess_plan_readiness s) = [] \<longleftrightarrow> (\<forall>x\<in>set (ws_items s). i_archived x)"
  "pr_countedDestinationIds (assess_plan_readiness s) = [] \<longleftrightarrow> (\<forall>l\<in>set (ws_locations s). \<not> is_storage_location l)"
  by (auto simp: assess_plan_readiness_def Let_def filter_empty_conv is_storage_location_def capture_counted_def
      holds_storage_def is_counted_def)

lemma contained_items_none: "\<forall>x\<in>set (ws_items s). i_archived x \<Longrightarrow> contained_items s i = []"
  by (simp add: contained_items_def filter_empty_conv)

lemma container_step_none:
  assumes "(\<forall>x\<in>set (ws_items s). i_archived x) \<or> candidates = []"
  shows "container_step s l candidates w i = None"
  using assms by (auto simp: container_step_def contained_items_none Let_def split: option.splits)

lemma destinations_none: "\<forall>l\<in>set (ws_locations s). \<not> is_storage_location l \<Longrightarrow> destinations s r = []"
  by (simp add: destinations_def filter_empty_conv)

definition nothing_to_plan :: "wstate \<Rightarrow> bool" where
  "nothing_to_plan s \<longleftrightarrow> (\<forall>x\<in>set (ws_items s). i_archived x) \<or> (\<forall>l\<in>set (ws_locations s). \<not> is_storage_location l)"

lemma try_container_idle:
  assumes "nothing_to_plan (pj_state pj)"
  shows "try_container r w fresh pj k = pj"
proof -
  have "container_step (pj_state pj) l (destinations (pj_state pj) r) w i = None" for l i
    using assms destinations_none container_step_none by (metis nothing_to_plan_def)
  then show ?thesis by (simp add: try_container_def Let_def)
qed

lemma item_pass_idle:
  assumes "nothing_to_plan (pj_state pj)"
  shows "item_pass r w fresh pj = pj"
proof -
  have step: "try_item r w fresh pj k = pj" if "k \<in> set (live_positions (pj_state pj))" for k
  proof -
    have "\<not> (\<forall>x\<in>set (ws_items (pj_state pj)). i_archived x)"
      using that nth_mem by (fastforce simp: live_positions_def)
    then have "destinations (pj_state pj) r = []" using assms destinations_none by (auto simp: nothing_to_plan_def)
    then have "best_move (pj_state pj) r w x = None" for x
      by (simp add: best_move_def ranked_destinations_def split: option.split)
    then show ?thesis by (simp add: try_item_def Let_def)
  qed
  have "foldl (try_item r w fresh) pj ks = pj" if "set ks \<subseteq> set (live_positions (pj_state pj))" for ks
    using that by (induction ks) (simp_all add: step)
  then show ?thesis by (simp add: item_pass_def)
qed

lemma idle_plan:
  assumes "nothing_to_plan s"
  shows "pj_steps (projected_plan s sel w fresh) = []"
proof -
  define r where "r = resolve_plan_selection s sel"
  have "foldl (try_container r w fresh) (start_projection s) ks = start_projection s" for ks
    by (induction ks) (simp_all add: try_container_idle start_projection_def assms)
  moreover have "item_pass r w fresh (start_projection s) = start_projection s"
    by (rule item_pass_idle) (simp add: start_projection_def assms)
  ultimately show ?thesis
    by (simp add: projected_plan_def Let_def r_def [symmetric] item_passes.simps [of r w fresh "start_projection s"])
      (simp add: start_projection_def)
qed

end
