(* ===== verification/Location_Code.thy ===== *)
theory Location_Code
  imports Model_Types
begin

text \<open>
  Suggested location codes (\<open>src/domain/location-code.ts\<close>): letters of the name, or of the kind
  when the name has none, and a numeric suffix when the code is taken.

  \<open>ascii_form\<close> is what \<open>normalize("NFKD")\<close>, dropping the combining marks and
  \<open>toUpperCase()\<close> make of a character that can end up in a token; every other character
  separates tokens.

  The search for a free suffix ends because only finitely many codes are in use; the lemmas
  show that the suggestion is free and already in the form the other codes are compared in.
\<close>

section \<open>Tokens\<close>

definition is_code_char :: "char \<Rightarrow> bool" where
  "is_code_char c \<longleftrightarrow> (let n = (of_char c :: nat) in (48 \<le> n \<and> n \<le> 57) \<or> (65 \<le> n \<and> n \<le> 90))"

text \<open>The Latin-1 characters whose compatibility decomposition holds an ASCII letter or digit.\<close>

definition latin_form :: "nat \<Rightarrow> string" where
  "latin_form n =
     (if n \<in> {170, 192, 193, 194, 195, 196, 197, 224, 225, 226, 227, 228, 229} then ''A''
      else if n \<in> {199, 231} then ''C''
      else if n \<in> {200, 201, 202, 203, 232, 233, 234, 235} then ''E''
      else if n \<in> {204, 205, 206, 207, 236, 237, 238, 239} then ''I''
      else if n \<in> {209, 241} then ''N''
      else if n \<in> {186, 210, 211, 212, 213, 214, 242, 243, 244, 245, 246} then ''O''
      else if n = 223 then ''SS''
      else if n \<in> {217, 218, 219, 220, 249, 250, 251, 252} then ''U''
      else if n \<in> {221, 253, 255} then ''Y''
      else if n = 178 then ''2''
      else if n = 179 then ''3''
      else if n = 185 then ''1''
      else if n = 188 then ''1 4''
      else if n = 189 then ''1 2''
      else if n = 190 then ''3 4''
      else '' '')"

definition ascii_form :: "char \<Rightarrow> string" where
  "ascii_form c = (if (of_char c :: nat) < 128 then [upper_char c] else latin_form (of_char c))"

text \<open>\<open>match(/[A-Z0-9]+/g)\<close>: the maximal runs of code characters.\<close>

function runs :: "string \<Rightarrow> string list" where
  "runs s =
     (let rest = dropWhile (\<lambda>c. \<not> is_code_char c) s
      in if rest = [] then []
         else takeWhile is_code_char rest # runs (dropWhile is_code_char rest))"
  by pat_completeness auto
termination
proof (relation "measure length", goal_cases)
  case (2 s rest)
  from 2(2) obtain c cs where rest: "rest = c # cs" by (cases rest) blast+
  with 2 have "is_code_char c" by (metis dropWhile_eq_Cons_conv)
  then have "length (dropWhile is_code_char rest) < length rest"
    by (simp add: rest le_imp_less_Suc length_dropWhile_le)
  also have "length rest \<le> length s" using 2(1) by (simp add: length_dropWhile_le)
  finally show ?case by simp
qed simp

declare runs.simps [simp del]

definition code_tokens :: "string \<Rightarrow> string list" where
  "code_tokens s = runs (concat (map ascii_form s))"

section \<open>The suggestion\<close>

definition max_initial_code_length :: nat where "max_initial_code_length = 6"
definition single_word_code_length :: nat where "single_word_code_length = 3"

definition base_location_code :: "string \<Rightarrow> location_kind \<Rightarrow> string" where
  "base_location_code name kind =
     (case code_tokens name of
        [t] \<Rightarrow> take single_word_code_length t
      | t # u # ts \<Rightarrow> take max_initial_code_length (concat (map (take 1) (t # u # ts)))
      | [] \<Rightarrow>
          (let code = take single_word_code_length (concat (code_tokens (location_kind_name kind)))
           in if code = [] then ''LOC'' else code))"

definition suffixed :: "string \<Rightarrow> nat \<Rightarrow> string" where
  "suffixed base n = base @ ''-'' @ digits_of n"

fun digits_value :: "string \<Rightarrow> nat" where
  "digits_value [] = 0"
| "digits_value (c # s) = (of_char c - 48) * 10 ^ length s + digits_value s"

lemma digits_value_append: "digits_value (s @ [c]) = 10 * digits_value s + (of_char c - 48)"
  by (induction s) (simp_all add: algebra_simps)

lemma digits_value_of [simp]: "digits_value (digits_of n) = n"
proof (induction n rule: digits_of.induct)
  case (1 n)
  show ?case
  proof (cases "n < 10")
    case True
    then show ?thesis by (subst digits_of.simps) simp
  next
    case False
    then have "digits_value (digits_of n) = 10 * (n div 10) + n mod 10"
      using 1 by (subst digits_of.simps) (simp add: digits_value_append)
    then show ?thesis by simp
  qed
qed

lemma suffixed_inj: "suffixed b m = suffixed b n \<longleftrightarrow> m = n"
proof
  assume "suffixed b m = suffixed b n"
  then have "digits_value (digits_of m) = digits_value (digits_of n)" by (simp add: suffixed_def)
  then show "m = n" by simp
qed simp

lemma finite_taken: "finite {j. k \<le> j \<and> suffixed b j \<in> set used}"
proof (rule finite_subset)
  show "finite (suffixed b -` set used)"
    by (rule finite_vimageI) (simp_all add: inj_def suffixed_inj)
qed auto

text \<open>The \<open>while\<close> loop over the suffixes.\<close>

function free_suffix :: "string \<Rightarrow> string list \<Rightarrow> nat \<Rightarrow> nat" where
  "free_suffix b used k = (if suffixed b k \<in> set used then free_suffix b used (Suc k) else k)"
  by pat_completeness auto
termination
proof (relation "measure (\<lambda>(b, used, k). card {j. k \<le> j \<and> suffixed b j \<in> set used})", goal_cases)
  case (2 b used k)
  have "{j. Suc k \<le> j \<and> suffixed b j \<in> set used} \<subset> {j. k \<le> j \<and> suffixed b j \<in> set used}"
    using 2 by (intro psubsetI subsetI) (auto simp: set_eq_iff intro!: exI [of _ k])
  then show ?case by (simp add: psubset_card_mono [OF finite_taken])
qed simp

declare free_suffix.simps [simp del]

definition suggest_location_code :: "string \<Rightarrow> location_kind \<Rightarrow> string list \<Rightarrow> string" where
  "suggest_location_code name kind existing =
     (let base = base_location_code name kind; used = map (\<lambda>c. js_upper (js_trim c)) existing
      in if base \<notin> set used then base else suffixed base (free_suffix base used 2))"

section \<open>The suggestion is free\<close>

lemma free_suffix_free: "suffixed b (free_suffix b used k) \<notin> set used"
proof (induction b used k rule: free_suffix.induct)
  case (1 b used k)
  then show ?case by (cases "suffixed b k \<in> set used") (simp_all add: free_suffix.simps [of b used k])
qed

text \<open>It is the first free one.\<close>

lemma free_suffix_first: "k \<le> free_suffix b used k \<and> (\<forall>j. k \<le> j \<and> j < free_suffix b used k \<longrightarrow> suffixed b j \<in> set used)"
proof (induction b used k rule: free_suffix.induct)
  case (1 b used k)
  show ?case
  proof (cases "suffixed b k \<in> set used")
    case True
    with 1 have "Suc k \<le> free_suffix b used k \<and>
        (\<forall>j. Suc k \<le> j \<and> j < free_suffix b used k \<longrightarrow> suffixed b j \<in> set used)"
      by (simp add: free_suffix.simps [of b used k])
    with True show ?thesis by (metis Suc_leD Suc_leI le_neq_implies_less)
  next
    case False
    then have "free_suffix b used k = k" by (simp add: free_suffix.simps [of b used k])
    then show ?thesis by auto
  qed
qed

lemma suggestion_free: "suggest_location_code name kind existing \<notin> (\<lambda>c. js_upper (js_trim c)) ` set existing"
  using free_suffix_free [of "base_location_code name kind" "map (\<lambda>c. js_upper (js_trim c)) existing" 2]
  by (simp add: suggest_location_code_def Let_def)

section \<open>It is in the form codes are compared in\<close>

lemma runs_tokens: "w \<in> set (runs s) \<Longrightarrow> w \<noteq> [] \<and> (\<forall>c\<in>set w. is_code_char c)"
proof (induction s rule: runs.induct)
  case (1 s)
  let ?rest = "dropWhile (\<lambda>c. \<not> is_code_char c) s"
  have rest: "?rest \<noteq> []" using "1.prems" by (subst (asm) runs.simps) (auto simp: Let_def split: if_splits)
  then have "takeWhile is_code_char ?rest \<noteq> []"
    using hd_dropWhile [OF rest] by (cases ?rest) simp_all
  moreover have eq: "runs s = takeWhile is_code_char ?rest # runs (dropWhile is_code_char ?rest)"
    using rest by (subst runs.simps) (simp only: Let_def if_False)
  from "1.prems" have "w = takeWhile is_code_char ?rest \<or> w \<in> set (runs (dropWhile is_code_char ?rest))"
    by (simp only: eq list.set(2) insert_iff)
  ultimately show ?case using "1.IH" [OF refl rest] set_takeWhileD [of _ is_code_char ?rest] by metis
qed

lemma code_char_forms: "is_code_char c \<Longrightarrow> upper_char c = c \<and> \<not> is_space c"
  unfolding is_code_char_def upper_char_def is_space_def Let_def by (elim disjE) simp_all

lemma dash_forms: "upper_char CHR ''-'' = CHR ''-''" "\<not> is_space CHR ''-''"
  by (simp_all add: upper_char_def is_space_def Let_def)

lemma digit_code_char: "n < 10 \<Longrightarrow> is_code_char (char_of (48 + n :: nat))"
  by (simp add: is_code_char_def Let_def)

lemma digits_are_code_chars: "c \<in> set (digits_of n) \<Longrightarrow> is_code_char c"
proof (induction n rule: digits_of.induct)
  case (1 n)
  show ?case
  proof (cases "n < 10")
    case True
    with "1.prems" have "c = char_of (48 + n)" by (simp add: digits_of.simps [of n])
    with True show ?thesis by (simp add: digit_code_char)
  next
    case False
    with "1.prems" have "c = char_of (48 + n mod 10) \<or> c \<in> set (digits_of (n div 10))"
      by (simp add: digits_of.simps [of n])
    with False "1.IH" show ?thesis using digit_code_char [of "n mod 10"] by auto
  qed
qed

lemma dropWhile_none: "(\<And>c. c \<in> set s \<Longrightarrow> \<not> P c) \<Longrightarrow> dropWhile P s = s"
  by (cases s) auto

definition code_form :: "string \<Rightarrow> bool" where
  "code_form s \<longleftrightarrow> s \<noteq> [] \<and> (\<forall>c\<in>set s. is_code_char c \<or> c = CHR ''-'')"

lemma code_form_clean:
  assumes "code_form s"
  shows "js_trim s = s" and "js_upper s = s" and "\<not> blank s"
proof -
  have c: "upper_char c = c \<and> \<not> is_space c" if "c \<in> set s" for c
  proof -
    from assms that have "is_code_char c \<or> c = CHR ''-''" by (simp only: code_form_def)
    then show ?thesis using code_char_forms [of c] dash_forms by (elim disjE) (simp_all only: simp_thms)
  qed
  then have "dropWhile is_space s = s" "dropWhile is_space (rev s) = rev s"
    by (auto intro!: dropWhile_none)
  then show t: "js_trim s = s" by (simp add: js_trim_def)
  show "js_upper s = s" using c by (simp add: js_upper_def map_idI)
  show "\<not> blank s" using assms by (simp add: blank_def t code_form_def)
qed

lemma code_form_take:
  assumes "ws \<noteq> []" and "\<And>w. w \<in> set ws \<Longrightarrow> w \<noteq> [] \<and> (\<forall>c\<in>set w. is_code_char c)" and "0 < n"
  shows "code_form (take n (concat ws))"
proof -
  from assms(1) obtain v where v: "v \<in> set ws" by (meson hd_in_set)
  with assms(2) [of v] have "concat ws \<noteq> []" by (auto simp del: concat_eq_Nil_conv simp: concat_eq_Nil_conv [of ws])
  with assms(3) have "take n (concat ws) \<noteq> []" by (simp only: take_eq_Nil) simp
  moreover have "is_code_char c" if "c \<in> set (take n (concat ws))" for c
    using in_set_takeD [OF that] assms(2) by auto
  ultimately show ?thesis by (simp only: code_form_def) blast
qed

lemma code_tokensD: "w \<in> set (code_tokens s) \<Longrightarrow> w \<noteq> [] \<and> (\<forall>c\<in>set w. is_code_char c)"
  using runs_tokens by (simp add: code_tokens_def)

lemma code_form_LOC: "code_form ''LOC''"
  by (simp add: code_form_def is_code_char_def Let_def)

lemma base_code_form: "code_form (base_location_code name kind)"
proof (cases "code_tokens name")
  case Nil
  let ?ts = "code_tokens (location_kind_name kind)"
  have "?ts \<noteq> [] \<Longrightarrow> code_form (take single_word_code_length (concat ?ts))"
    by (rule code_form_take) (simp_all add: code_tokensD single_word_code_length_def)
  then show ?thesis using Nil code_form_LOC
    by (cases "?ts = []") (simp_all add: base_location_code_def Let_def code_form_def)
next
  case (Cons t ts)
  show ?thesis
  proof (cases ts)
    case Nil
    have "code_form (take single_word_code_length (concat [t]))"
      by (rule code_form_take) (use code_tokensD [of t name] Cons in \<open>simp_all add: single_word_code_length_def\<close>)
    with Cons Nil show ?thesis by (simp add: base_location_code_def)
  next
    case (Cons u us)
    note ts = \<open>code_tokens name = t # ts\<close> [unfolded Cons]
    have "w \<noteq> [] \<and> (\<forall>c\<in>set w. is_code_char c)" if "w \<in> set (map (take 1) (code_tokens name))" for w
      using that code_tokensD [of _ name] by (auto dest: in_set_takeD)
    then have "code_form (take max_initial_code_length (concat (map (take 1) (code_tokens name))))"
      by (intro code_form_take) (simp_all add: max_initial_code_length_def ts)
    then show ?thesis by (simp add: base_location_code_def ts)
  qed
qed

lemma suggestion_code_form: "code_form (suggest_location_code name kind existing)"
  using base_code_form [of name kind]
  by (auto simp: suggest_location_code_def Let_def code_form_def suffixed_def digits_are_code_chars)

end
