(* ===== verification/Client_Properties.thy ===== *)
theory Client_Properties
  imports Sample_Import Readiness Location_Code Authorized_Sync
begin

text \<open>
  Properties of what devices build before they send anything (identifiers, codes, command
  envelopes, spreadsheet imports) and of the synchronisation of signed-in accounts with the
  SQL store.  Each property is followed by a witness that applies it to a concrete input.
\<close>

section \<open>Fresh commands\<close>

text \<open>
  C25: a command built by a device from the workspace it sees, with the expectations the program
  computes for it, is decided by its handler alone when that workspace is still current, its
  envelope is valid and the revision is below the largest safe integer: it is never refused for
  its workspace, its base revision or an expectation.
\<close>

theorem fresh_command_reaches_its_handler:
  assumes "wf_state s" and "create_envelope s c opts uuid now = Inr e" and "eo_expectations opts = None"
    and "validate_envelope dp (normalize_envelope e) = Inr ()" and "is_safe_integer (revision s)"
    and "\<not> js_le (JsInt max_safe) (revision s)"
  shows "apply_command dp s e =
    (if is_history_command (normalize_command c) then apply_history_command s (normalize_envelope e)
     else apply_normal_command s (normalize_envelope e))"
proof -
  from assms(2,3) obtain xs where xs: "expectations_for_command s c = Inr xs" and e: "e_expectations e = xs"
    "e_command e = c" "e_baseRevision e = revision s" "e_workspaceId e = w_id (ws_workspace s)"
    by (auto simp: create_envelope_def and_then_eq_Inr)
  have "js_less (revision s) (revision s) = False"
    using assms(5) by (cases "revision s") (auto simp: is_safe_integer_def)
  then have "check_revision s (normalize_envelope e) = Inr ()"
    using assms(5,6) e by (simp add: check_revision_def normalize_envelope_def)
  then show ?thesis
    using assms(4) e expectations_no_conflict [OF assms(1) xs]
    by (simp add: apply_command_def normalize_envelope_def)
qed

definition plain_options :: "string \<Rightarrow> envelope_options" where
  "plain_options i = \<lparr>eo_actorId = None, eo_deviceId = None, eo_expectations = None, eo_id = Some i, eo_timestamp = None\<rparr>"

theorem fresh_command_reaches_its_handler_witness:
  "\<exists>e. create_envelope sample_state (Location_archive ''left'' (Some (JBool True))) (plain_options ''c1'') [] ''t1'' = Inr e \<and>
     apply_command (\<lambda>_. True) sample_state e = apply_normal_command sample_state (normalize_envelope e)"
proof -
  let ?e = "sample_envelope (Location_archive ''left'' (Some (JBool True)))
    \<lparr>e_actorId := ''local-user'', e_deviceId := ''local-device'',
     e_expectations := [\<lparr>fe_id = ''left'', fe_path = ''archivedAt'', fe_target = Target_location, fe_value = JNull\<rparr>]\<rparr>"
  have e: "create_envelope sample_state (Location_archive ''left'' (Some (JBool True))) (plain_options ''c1'') [] ''t1'' = Inr ?e"
    by (simp add: create_envelope_def plain_options_def with_location_def location_expectation_def expect_field_def
        property_of_def location_obj_def sample_locations_def sample_envelope_def json_of_nullable_def)
  have "validate_envelope (\<lambda>_. True) (normalize_envelope ?e) = Inr ()"
    by (simp add: validate_envelope_def normalize_envelope_def sample_envelope_def blank_def js_trim_def is_space_def
        is_safe_integer_def max_safe_def normalize_expectation_def check_expectation_def path_keys_simple unsafe_path_keys_def)
  then have "apply_command (\<lambda>_. True) sample_state ?e = apply_normal_command sample_state (normalize_envelope ?e)"
    using fresh_command_reaches_its_handler [OF sample_wf e]
    by (simp add: plain_options_def sample_state_def is_safe_integer_def max_safe_def js_le_def)
  with e show ?thesis by blast
qed

section \<open>Identifiers and codes\<close>

text \<open>
  C38: an identifier made from sixteen random bytes has the type of a version 4 UUID: 36
  characters, dashes at their four places, the digit 4 for the version and one of 8, 9, a and b
  for the variant; and it determines the bytes it was made from, but for the six fixed bits.
\<close>

theorem identifiers_are_uuids:
  assumes "length bs = 16" and "length cs = 16"
  shows "length (uuid_v4 bs) = 36 \<and> list_all (\<lambda>k. uuid_v4 bs ! k = CHR ''-'') [8, 13, 18, 23] \<and>
    uuid_v4 bs ! 14 = CHR ''4'' \<and> uuid_v4 bs ! 19 \<in> set ''89ab'' \<and>
    (uuid_v4 bs = uuid_v4 cs \<longleftrightarrow> stamp_version bs = stamp_version cs)"
  using uuid_v4_shape [OF assms(1)] uuid_v4_inj [OF assms] by simp

theorem identifiers_are_uuids_witness:
  "uuid_v4 (replicate 16 0) \<noteq> uuid_v4 (replicate 15 0 @ [1]) \<and> length (uuid_v4 (replicate 16 0)) = 36"
  using identifiers_are_uuids [of "replicate 16 0" "replicate 15 0 @ [1]"]
  by (simp add: stamp_version_def eval_nat_numeral)

text \<open>
  C37: the code suggested for a new location is ready for use: trimmed, in capitals and not
  blank, and none of the existing codes is the same when codes are compared as the workspace
  compares them.
\<close>

theorem suggested_code_is_usable:
  "let code = suggest_location_code name kind (map l_code ls) in
     js_trim code = code \<and> js_upper code = code \<and> \<not> blank code \<and> code \<notin> norm_code ` set ls"
  using code_form_clean [OF suggestion_code_form] suggestion_free [of name kind "map l_code ls"]
  by (simp add: Let_def norm_code_def image_image comp_def)

section \<open>Spreadsheets\<close>

text \<open>
  C28: the reader accepts nothing beyond its limits: the bytes of the file, the data rows, the
  columns and the characters of every cell; no data row is blank, and the rows come in the order
  of the file, after the header.
\<close>

theorem csv_within_limits:
  assumes "parse_csv input overrides = Inr p"
  shows "\<exists>lm. parse_limits_of overrides = Inr lm \<and> utf8_length input \<le> pl_fileBytes lm \<and>
    0 < length (pc_columns p) \<and> length (pc_columns p) \<le> pl_columns lm \<and> length (pc_rows p) \<le> pl_dataRows lm \<and>
    (\<forall>d\<in>set (pc_rows p). length (dr_cells d) \<le> pl_columns lm \<and> \<not> blank_record d \<and>
       (\<forall>c\<in>set (dr_cells d). length c \<le> pl_cellCharacters lm)) \<and>
    sorted_wrt (<) (pc_headerRecordNumber p # map dr_recordNumber (pc_rows p))"
proof -
  from assms obtain lm r h where lm: "parse_limits_of overrides = Inr lm" "utf8_length input \<le> pl_fileBytes lm"
    and r: "reader_within lm r" "rd_header r = Some h"
    and p: "pc_columns p = columns_of (dr_cells h)" "pc_headerRecordNumber p = dr_recordNumber h" "pc_rows p = rd_rows r"
    by (rule parse_csv_Inr)
  have recs: "records_of r = h # rd_rows r" using r(2) by (simp add: records_of_def)
  have w: "\<forall>d\<in>set (h # rd_rows r). record_within lm (rd_recordNumber r) d" "length (rd_rows r) \<le> pl_dataRows lm"
    "sorted_wrt (<) (map dr_recordNumber (h # rd_rows r))"
    using r(1) [unfolded reader_within_def recs] by blast+
  show ?thesis
    using lm p w by (intro exI [of _ lm]) (simp add: columns_of_def record_within_def)
qed

definition small_table :: "string list list" where
  "small_table = [[''Item'', ''Notes''], [''Jam'', ''red'' @ [carriage_return, line_feed] @ ''sweet'']]"

definition small_parsed :: parsed_csv where
  "small_parsed =
     \<lparr>pc_blankRecordCount = 0,
      pc_columns = [\<lparr>col_header = ''Item'', col_index = 0\<rparr>, \<lparr>col_header = ''Notes'', col_index = 1\<rparr>],
      pc_headerRecordNumber = 1, pc_rows = [\<lparr>dr_cells = [''Jam'', ''red'' @ [line_feed] @ ''sweet''], dr_recordNumber = 2\<rparr>]\<rparr>"

definition small_limits :: parse_limits where
  "small_limits = \<lparr>pl_cellCharacters = 32768, pl_columns = 64, pl_dataRows = 4000, pl_fileBytes = 4194304\<rparr>"

lemma default_limits: "parse_limits_of default_overrides = Inr small_limits"
  by (simp add: parse_limits_of_def default_overrides_def limit_or_def positive_limit_def small_limits_def
      csv_import_max_cell_characters_def csv_import_max_columns_def csv_import_max_data_rows_def
      csv_import_max_file_bytes_def is_safe_integer_def max_safe_def)

lemma small_table_facts:
  "numbered 1 (map (map lf_only) small_table) =
     [\<lparr>dr_cells = [''Item'', ''Notes''], dr_recordNumber = 1\<rparr>,
      \<lparr>dr_cells = [''Jam'', ''red'' @ [line_feed] @ ''sweet''], dr_recordNumber = 2\<rparr>]"
  "list_all (fits small_limits) small_table" "utf8_length (csv_text small_table) \<le> pl_fileBytes small_limits"
  "length (filter (list_all blank) (map (map lf_only) small_table)) = 0"
  by (simp_all add: small_table_def fits_def small_limits_def csv_text_def csv_line_def csv_cell_def
      is_newline_def quote_cell_def escape_char_def blank_def js_trim_def is_space_def Let_def)

lemma small_columns: "columns_of [''Item'', ''Notes''] = pc_columns small_parsed"
  by (simp add: columns_of_def small_parsed_def js_trim_def is_space_def Let_def)

lemma small_parse: "parse_csv (csv_text small_table) default_overrides = Inr small_parsed"
  using parse_csv_text [OF default_limits small_table_facts(3) _ small_table_facts(1)] small_table_facts(2,4) small_columns
  by (simp add: list_all_iff small_limits_def small_parsed_def)

theorem csv_within_limits_witness:
  "length (pc_rows small_parsed) \<le> 4000"
  using csv_within_limits [OF small_parse] by (auto simp: default_limits small_limits_def)

text \<open>
  C27: what was printed with the usual quoting, where cells with quotes, commas or line breaks
  are quoted, is read back: every record that is not blank, cell by cell, with the number of its
  record, and the count of the blank ones.  Line breaks inside cells become line feeds: a
  carriage return, with a line feed or without, is read as one line feed, and everything else
  comes back as it was.
\<close>

theorem csv_round_trip:
  assumes "parse_limits_of overrides = Inr lm" and "utf8_length (csv_text table) \<le> pl_fileBytes lm"
    and "list_all (fits lm) table" and "numbered 1 (map (map lf_only) table) = h # ds" and "length ds \<le> pl_dataRows lm"
  shows "parse_csv (csv_text table) overrides =
    Inr \<lparr>pc_blankRecordCount = length (filter (list_all blank) (map (map lf_only) table)), pc_columns = columns_of (dr_cells h),
         pc_headerRecordNumber = dr_recordNumber h, pc_rows = ds\<rparr>"
  using parse_csv_text [OF assms(1,2) _ assms(4,5)] assms(3) by (simp add: list_all_iff)

theorem csv_round_trip_witness: "parse_csv (csv_text small_table) default_overrides = Inr small_parsed"
  using csv_round_trip [OF default_limits small_table_facts(3,2,1)] small_table_facts(4) small_columns
  by (simp add: small_limits_def small_parsed_def)

text \<open>
  C26: an import whose plan says it can be committed is accepted when it is committed on the
  workspace it was planned for, by any actor and device, under any identifier and at any time;
  it appends exactly the items of the valid rows, and the workspace stays well formed.
\<close>

theorem committable_import_is_accepted:
  assumes "ip_canCommit (plan_csv_import dp po)" and "wf_state (po_state po)"
    and "ip_command (plan_csv_import dp po) = Some c" and "create_envelope (po_state po) c opts uuid now = Inr e"
    and "eo_expectations opts = None" and "\<not> blank (e_id e)" and "\<not> blank (e_actorId e)" and "\<not> blank (e_deviceId e)"
    and "dp (e_timestamp e)"
  shows "\<exists>r. apply_command dp (po_state po) e = Inr r \<and> wf_state (cr_state r) \<and>
    ws_items (cr_state r) = ws_items (po_state po) @ row_items (ip_validRows (plan_csv_import dp po))"
proof -
  from committable_import [OF assms(1)] obtain xs spaces q where xs: "xs = row_items (ip_validRows (plan_csv_import dp po))"
    and c: "c = import_command xs spaces"
    and q: "project_quota dp (po_state po) c (po_commandId po) (po_timestamp po) = Inr q"
    and clean: "\<forall>x\<in>set xs. clean (json_of_item x)"
    using assms(3) by (metis option.inject)
  from q obtain f r where f: "create_envelope (po_state po) c (preview_options (po_commandId po) (po_timestamp po)) [] (po_timestamp po) = Inr f"
    and r: "apply_command dp (po_state po) f = Inr r"
    by (auto simp: project_quota_def and_then_eq_Inr)
  have cmd: "e_command f = Item_bulkCreate (map json_of_item xs) (if spaces \<noteq> [] then Some (JBool True) else None)" "readdressed f e"
    using f assms(4,5) by (auto simp: create_envelope_def preview_options_def and_then_eq_Inr readdressed_def c import_command_def)
  from bulk_create_readdressed [OF r cmd assms(6-9) wf_stateD(5) [OF assms(2)]] obtain p where
    p: "apply_command dp (po_state po) e = Inr p" "ws_items (cr_state p) = ws_items (po_state po) @ xs" by blast
  have e: "e_command e = Item_bulkCreate (map json_of_item xs) (if spaces \<noteq> [] then Some (JBool True) else None)"
    using cmd by (simp add: readdressed_def)
  have "wf_state (cr_state p)"
    by (rule apply_command_preserves [OF p(1) _ assms(2)]) (use clean in \<open>simp_all add: e list_all_iff clean_iff del: clean.simps parsed.simps\<close>)
  with p xs show ?thesis by blast
qed

theorem committable_import_is_accepted_witness:
  "\<exists>r. apply_command (\<lambda>_. True) sample_state import_envelope = Inr r \<and> ws_items (cr_state r) = [jam, jam2, tea]"
  using committable_import_is_accepted [OF sample_import(1) _ sample_import(2)] import_create sample_wf sample_import(3)
  by (fastforce simp: preview_options_def import_envelope_def blank_def js_trim_def is_space_def)

section \<open>Signed-in accounts\<close>

text \<open>
  C5: however many clients synchronise on behalf of accounts, and whatever the administration does
  to users, memberships and deletion marks in between (its steps touch nothing else, snapshots in
  particular), a step leaves every stored workspace as it
  is or writes one whole batch of one of the requests onto the snapshot that is stored, and then
  the account may write at that very moment: it is active, the workspace is not marked as
  deleted, its role is owner or editor, and a revision of its authorisation is current.
\<close>

theorem authorized_clients_write_safely:
  assumes "revisions_match db0" and "auth_run growth dp (map (\<lambda>ar. (ar, auth_start ar)) ars, db0) (cs, db)"
    and "auth_system growth dp (cs, db) (cs', db')"
  shows "stored db' = stored db \<or> authorized_batch dp (set ars) db db'"
proof -
  note run = auth_run_fresh [OF assms(2) auth_fresh_start [OF assms(1)]]
  have "fst ` set cs = set (map fst cs)" by simp
  also have "\<dots> = set ars" using run by (simp add: image_image)
  finally show ?thesis using auth_system_safe(3) [OF assms(3)] run by simp
qed

definition sample_db :: d1_database where
  "sample_db =
     \<lparr>db_deletions = [], db_members = [((''w'', ''u''), Editor)],
      db_snapshots = [(''w'', \<lparr>sn_accessRevision = Fin 3, sn_createdAt = ''t0'', sn_revision = Fin 7,
        sn_state = sample_state, sn_updatedAt = ''t0''\<rparr>)],
      db_users = [(''u'', \<lparr>ur_active = True, ur_membershipRevision = Fin 1\<rparr>)]\<rparr>"

definition sample_auth :: auth_request where
  "sample_auth =
     \<lparr>ar_context = \<lparr>ax_basis = \<lparr>ab_membershipRevision = Fin 1, ab_workspaceAccessRevision = Fin 3\<rparr>, ax_userId = ''u''\<rparr>,
      ar_request = sample_request\<rparr>"

lemma sample_auth_facts:
  "auth_start sample_auth = A_attempting 0" "ar_request sample_auth = sample_request"
  "ax_userId (ar_context sample_auth) = ''u''" "revisions_match sample_db" "snapshot_of sample_db ''w'' \<noteq> None"
  by (auto simp: auth_start_def sample_auth_def sample_envelope_def revisions_match_def sample_db_def split: if_splits)

lemma sample_auth_row: "snapshot_of sample_db ''w'' = Some row \<Longrightarrow> sn_revision row = Fin 7"
  by (auto simp: sample_db_def)

lemma sample_auth_loads:
  "auth_step growth dp now sample_auth (A_attempting 0, sample_db) = (A_loaded 0 sample_state, sample_db)"
  using normalize_current [OF sample_current]
  by (simp add: auth_step_def Let_def sample_auth_def default_sync_retries_def d1_load_authorized_def sample_db_def
      active_user_def is_authorization_revision_def is_safe_integer_def max_safe_def js_le_def read_state_def
      normalized_clone_def state_of_authorized_def authorization_failure_of_def)

lemma sample_auth_writes:
  "\<exists>c db. auth_step (\<lambda>_ _ _. False) (\<lambda>_. True) ''t1'' sample_auth (A_loaded 0 sample_state, sample_db) = (c, db) \<and>
     stored db ''w'' = Some moved_state"
proof -
  let ?auth = "write_authorization (ar_context sample_auth)"
  obtain b where b: "process_batch (\<lambda>_. True) sample_state [move_jam] = Some b" "b_state b = moved_state" "b_applied b"
    using sample_batch by blast
  have may: "may_write sample_db ''w'' ?auth row" for row
    by (simp add: may_write_def sample_db_def write_authorization_def sample_auth_def active_user_def)
  obtain db where db: "update_snapshot (may_write sample_db ''w'' ?auth) sample_db ''w'' (Fin 7) moved_state ''t1'' = (True, db)"
    using sample_auth_facts(5) by (auto simp: update_snapshot_def may sample_auth_row)
  have "is_authorization_revision (Fin 1)" "is_authorization_revision (Fin 3)"
    by (simp_all add: is_authorization_revision_def is_safe_integer_def max_safe_def js_le_def)
  then have "d1_compare_and_swap_authorized (\<lambda>_ _ _. False) sample_db ''w'' (Fin 7) moved_state ?auth ''t1'' = Inr (True, db)"
    using db by (simp add: d1_compare_and_swap_authorized_def write_authorization_def sample_auth_def)
  moreover have "revision sample_state = Fin 7" by (simp add: sample_state_def)
  ultimately have "auth_step (\<lambda>_ _ _. False) (\<lambda>_. True) ''t1'' sample_auth (A_loaded 0 sample_state, sample_db) =
      (A_answered (b_receipts b) moved_state, db)"
    using b by (simp add: auth_step_def Let_def sample_auth_facts(2))
  moreover have "stored db ''w'' = Some moved_state" using swapped_stored [OF db] by simp
  ultimately show ?thesis by blast
qed

theorem authorized_clients_write_safely_witness:
  "\<exists>db. stored db ''w'' = Some moved_state \<and> authorized_batch (\<lambda>_. True) {sample_auth} sample_db db"
proof -
  let ?sys = "auth_system (\<lambda>_ _ _. False) (\<lambda>_. True)"
  obtain c db where w: "auth_step (\<lambda>_ _ _. False) (\<lambda>_. True) ''t1'' sample_auth (A_loaded 0 sample_state, sample_db) = (c, db)"
    "stored db ''w'' = Some moved_state" using sample_auth_writes by blast
  have one: "?sys ([(sample_auth, A_attempting 0)], sample_db) ([(sample_auth, A_loaded 0 sample_state)], sample_db)"
    using auth_client_acts [of 0 "[(sample_auth, A_attempting 0)]", OF _ _ sample_auth_loads] by simp
  have two: "?sys ([(sample_auth, A_loaded 0 sample_state)], sample_db) ([(sample_auth, c)], db)"
    using auth_client_acts [of 0 "[(sample_auth, A_loaded 0 sample_state)]", OF _ _ w(1)] by simp
  have run: "auth_run (\<lambda>_ _ _. False) (\<lambda>_. True) (map (\<lambda>ar. (ar, auth_start ar)) [sample_auth], sample_db)
      ([(sample_auth, A_loaded 0 sample_state)], sample_db)"
    using auth_run_step [OF auth_run_refl one] by (simp add: sample_auth_facts(1))
  have "stored sample_db ''w'' = Some sample_state" "revision moved_state \<noteq> revision sample_state"
    using moved_workspace by (simp_all add: stored_def sample_db_def)
  then have "stored db \<noteq> stored sample_db" using w(2) by (metis option.inject)
  then show ?thesis
    using authorized_clients_write_safely [OF sample_auth_facts(4) run two] w(2) by auto
qed

end
