(* ===== verification/Migration_Json.thy ===== *)
theory Migration_Json
  imports Migration_Facts
begin

text \<open>
  \<open>normalizeWorkspaceState\<close> on an arbitrary JSON object of a known version, as an import or an
  old row of the database gives it: the legacy descriptions of items are translated, every item
  with a place gets an order, recorded items too, and a second pass changes nothing.
\<close>

section \<open>Migrated items\<close>

text \<open>
  What becomes of an item: the description it has, or else its notes; a finite order when it has
  a place, its own where that is finite; everything else stays.
\<close>

definition migrated_record :: "jsobj \<Rightarrow> jsobj \<Rightarrow> bool" where
  "migrated_record m t \<longleftrightarrow>
     map_of t ''notes'' = None \<and>
     map_of t ''description'' = (case map_of m ''description'' of None \<Rightarrow> map_of m ''notes'' | Some v \<Rightarrow> Some v) \<and>
     (if string_opt (map_of m ''locationId'') = None then map_of t ''order'' = map_of m ''order''
      else \<exists>n. map_of t ''order'' = Some (JNum n) \<and> is_finite n \<and>
        (case number_opt (map_of m ''order'') of None \<Rightarrow> True | Some q \<Rightarrow> is_finite q \<longrightarrow> n = q)) \<and>
     (\<forall>k. k \<notin> {''notes'', ''description'', ''order''} \<longrightarrow> map_of t k = map_of m k)"

fun migrated_item :: "json \<Rightarrow> json \<Rightarrow> bool" where
  "migrated_item (JObj m) (JObj t) = migrated_record m t"
| "migrated_item j t = (j = t)"

definition current_item :: "json \<Rightarrow> bool" where
  "current_item j \<longleftrightarrow>
     jget ''notes'' j = None \<and>
     (string_opt (jget ''locationId'' j) = None \<or> (\<exists>n. jget ''order'' j = Some (JNum n) \<and> is_finite n))"

lemma number_opt_Some [simp]: "number_opt v = Some n \<longleftrightarrow> v = Some (JNum n)"
  by (cases v rule: number_opt.cases) auto

lemma string_opt_Some [simp]: "string_opt v = Some s \<longleftrightarrow> v = Some (JStr s)"
  by (cases v rule: string_opt.cases) auto

lemma migrated_current: "migrated_item j t \<Longrightarrow> current_item t"
  by (cases "(j, t)" rule: migrated_item.cases) (auto simp: current_item_def jget_def migrated_record_def split: if_splits)

text \<open>The first step, on one item.\<close>

lemma described_record:
  assumes "normalize_description (JObj m) = JObj r"
  shows "map_of r ''notes'' = None"
    and "map_of r ''description'' = (case map_of m ''description'' of None \<Rightarrow> map_of m ''notes'' | Some v \<Rightarrow> Some v)"
    and "k \<notin> {''notes'', ''description''} \<Longrightarrow> map_of r k = map_of m k"
  using assms by (auto simp: delete_conv' update_conv' split: option.splits if_splits)

lemma described_is_record: "\<exists>r. normalize_description (JObj m) = JObj r"
  by (simp split: option.split)

lemma described_other: "(\<nexists>m. j = JObj m) \<Longrightarrow> normalize_description j = j"
  by (cases j) simp_all

lemma set_order_of: "map_of (set_order m n) k = (if k = ''order'' then Some (JNum n) else map_of m k)"
  by (auto simp: set_order_def update_conv')

definition double_order :: "json \<Rightarrow> bool" where
  "double_order j \<longleftrightarrow> (case number_opt (jget ''order'' j) of None \<Rightarrow> True | Some n \<Rightarrow> num_ok n)"

lemma item_order_ok:
  assumes "orders_ok os" and "case v of None \<Rightarrow> True | Some n \<Rightarrow> num_ok n"
  shows "order_ok (item_order loc v os)"
  using assms order_at_ok by (auto simp: item_order_def order_ok_def split: option.splits)

lemma record_order_ok: "orders_ok os \<Longrightarrow> order_ok n \<Longrightarrow> orders_ok (record_order i loc n os)"
  by (simp add: record_order_def after_order_ok split: option.split)

text \<open>Both steps on all items.\<close>

lemma order_items_migrate:
  assumes "orders_ok os" and "\<forall>j\<in>set js. double_order j" and "order_items os (map normalize_description js) = (ts, os')"
  shows "orders_ok os' \<and> list_all2 migrated_item js ts"
  using assms
proof (induction js arbitrary: os ts)
  case (Cons j js)
  show ?case
  proof (cases "\<exists>m. j = JObj m")
    case False
    then obtain us where us: "order_items os (map normalize_description js) = (us, os')" "ts = j # us"
      using Cons.prems(3) described_other [OF False] by (cases j) (auto split: prod.splits)
    have "migrated_item j j" using False by (cases j) simp_all
    with Cons.IH [OF Cons.prems(1) _ us(1)] Cons.prems(2) us(2) show ?thesis by simp
  next
    case True
    then obtain m where m: "j = JObj m" by blast
    obtain r where r: "normalize_description (JObj m) = JObj r" using described_is_record by blast
    note d = described_record [OF r]
    show ?thesis
    proof (cases "string_opt (map_of m ''locationId'')")
      case None
      then obtain us where us: "order_items os (map normalize_description js) = (us, os')" "ts = JObj r # us"
        using Cons.prems(3) d(3) [of "''locationId''"] by (auto simp: m r jget_def split: prod.splits simp del: normalize_description.simps)
      have "migrated_record m r" using d None by (simp add: migrated_record_def)
      with Cons.IH [OF Cons.prems(1) _ us(1)] Cons.prems(2) us(2) m show ?thesis by simp
    next
      case (Some loc)
      define n where "n = item_order loc (number_opt (map_of m ''order'')) os"
      define os1 where "os1 = record_order (string_opt (map_of m ''id'')) loc n os"
      have n: "order_ok n"
        using Cons.prems(1,2) unfolding n_def by (intro item_order_ok) (auto simp: double_order_def m jget_def)
      obtain us where us: "order_items os1 (map normalize_description js) = (us, os')" "ts = JObj (set_order r n) # us"
        using Cons.prems(3) Some d(3) [of "''locationId''"] d(3) [of "''order''"] d(3) [of "''id''"]
        by (auto simp: m r jget_def n_def os1_def Let_def split: prod.splits simp del: normalize_description.simps)
      have own: "case number_opt (map_of m ''order'') of None \<Rightarrow> True | Some q \<Rightarrow> is_finite q \<longrightarrow> n = q"
        by (simp add: n_def item_order_def split: option.split)
      have "migrated_record m (set_order r n)"
        unfolding migrated_record_def set_order_of using d Some n own by (auto simp: order_ok_def)
      moreover have "orders_ok os1" unfolding os1_def by (rule record_order_ok [OF Cons.prems(1) n])
      ultimately show ?thesis using Cons.IH [OF _ _ us(1)] Cons.prems(2) us(2) m by simp
    qed
  qed
qed simp

section \<open>Recorded items\<close>

text \<open>No recorded item, before or after, has the legacy field.\<close>

definition no_notes :: "jsobj \<Rightarrow> bool" where
  "no_notes p \<longleftrightarrow> list_all (\<lambda>(k, v). k = ''before'' \<or> k = ''after'' \<longrightarrow> jget ''notes'' v = None) p"

definition current_patch_record :: "jsobj \<Rightarrow> bool" where
  "current_patch_record p \<longleftrightarrow>
     (map_of p ''target'' = Some (JStr ''item'') \<longrightarrow>
        map_of p ''path'' \<noteq> Some (JStr ''notes'') \<and>
        (map_of p ''path'' = Some (JStr []) \<longrightarrow>
           no_notes p \<and> current_side (map_of p ''before'') \<and> current_side (map_of p ''after'')))"

fun on_object :: "(jsobj \<Rightarrow> bool) \<Rightarrow> json \<Rightarrow> bool" where
  "on_object P (JObj m) = P m"
| "on_object P j = True"

definition current_activity :: "(jsobj \<Rightarrow> bool) \<Rightarrow> json \<Rightarrow> bool" where
  "current_activity P j \<longleftrightarrow> (case jget ''patches'' j of Some (JArr ps) \<Rightarrow> list_all (on_object P) ps | _ \<Rightarrow> True)"

text \<open>After the first step no legacy name is left; after the second the sides have orders too.\<close>

definition renamed_patch :: "jsobj \<Rightarrow> bool" where
  "renamed_patch p \<longleftrightarrow>
     (map_of p ''target'' = Some (JStr ''item'') \<longrightarrow>
        map_of p ''path'' \<noteq> Some (JStr ''notes'') \<and>
        (map_of p ''path'' = Some (JStr []) \<longrightarrow> no_notes p))"

lemma map_of_map_value: "map_of (map (\<lambda>(k, v). (k, f k v)) m) k = map_option (f k) (map_of m k)"
  by (induction m) auto

lemma described_no_notes: "jget ''notes'' (normalize_description j) = None"
  using side_ok_description [of "Some j"] by (simp add: side_ok_def)

lemma no_notes_described:
  "no_notes (map (\<lambda>(k, v). (k, if k \<in> {''before'', ''after''} then normalize_description v else v)) p)"
  by (auto simp: no_notes_def list_all_iff described_no_notes)

lemma legacy_patch_fields_renamed: "renamed_patch (legacy_patch_fields p)"
  using no_notes_described [of p]
  by (auto simp: renamed_patch_def legacy_patch_fields_def update_conv'
      map_of_map_value [of "\<lambda>k v. if k = ''before'' \<or> k = ''after'' then normalize_description v else v"]
      simp del: map_of_map split: if_splits)

lemma no_notes_side: "no_notes p \<Longrightarrow> k = ''before'' \<or> k = ''after'' \<Longrightarrow> side_ok (map_of p k)"
  by (auto simp: no_notes_def side_ok_def list_all_iff split: option.split dest!: map_of_SomeD)

lemma set_update_subset: "set (AList.update k v m) \<subseteq> insert (k, v) (set m)"
  by (induction m) auto

lemma order_field_ok:
  assumes "orders_ok os" and "no_notes p" and "k = ''before'' \<or> k = ''after''" and "order_field k p os = (p', os')"
  shows "orders_ok os' \<and> no_notes p' \<and> current_side (map_of p' k) \<and> (\<forall>l. l \<noteq> k \<longrightarrow> map_of p' l = map_of p l)"
proof (cases "map_of p k")
  case None
  then show ?thesis using assms by (simp add: order_field_def current_side_def)
next
  case (Some j)
  obtain j' where j': "order_side j os = (j', os')" "p' = AList.update k j' p"
    using assms(4) Some by (auto simp: order_field_def split: prod.splits)
  have "jget ''notes'' j = None" using no_notes_side [OF assms(2,3)] Some by (simp add: side_ok_def)
  from order_side_ok [OF assms(1) this j'(1)] have ok: "orders_ok os'" "current_side (Some j')" by blast+
  then have "no_notes p'"
    using assms(2) set_update_subset [of k j' p] unfolding j'(2) no_notes_def list_all_iff by (auto simp: current_side_def)
  with ok show ?thesis by (simp add: j'(2) update_conv')
qed

definition ordered_patch :: "orders \<Rightarrow> jsobj \<Rightarrow> jsobj \<times> orders" where
  "ordered_patch os p =
     (if map_of p ''target'' = Some (JStr ''item'') \<and> map_of p ''path'' = Some (JStr [])
      then let (p1, os1) = order_field ''before'' p os in order_field ''after'' p1 os1
      else (p, os))"

lemma ordered_patch_ok:
  assumes "orders_ok os" and "renamed_patch p" and "ordered_patch os p = (p', os')"
  shows "orders_ok os' \<and> current_patch_record p'"
proof (cases "map_of p ''target'' = Some (JStr ''item'') \<and> map_of p ''path'' = Some (JStr [])")
  case True
  obtain p1 os1 where 1: "order_field ''before'' p os = (p1, os1)" "order_field ''after'' p1 os1 = (p', os')"
    using assms(3) True by (auto simp: ordered_patch_def split: prod.splits)
  have "no_notes p" using assms(2) True by (auto simp: renamed_patch_def)
  from order_field_ok [OF assms(1) this _ 1(1)]
  have b: "orders_ok os1" "no_notes p1" "current_side (map_of p1 ''before'')" "\<And>l. l \<noteq> ''before'' \<Longrightarrow> map_of p1 l = map_of p l"
    by blast+
  from order_field_ok [OF b(1,2) _ 1(2)]
  have "orders_ok os'" "no_notes p'" "current_side (map_of p' ''after'')" "\<And>l. l \<noteq> ''after'' \<Longrightarrow> map_of p' l = map_of p1 l"
    by blast+
  with b True show ?thesis by (simp add: current_patch_record_def)
next
  case False
  with assms show ?thesis by (auto simp: ordered_patch_def current_patch_record_def renamed_patch_def)
qed

lemma order_patches_Cons: "order_patches os (JObj p # js) =
  (let (p', os') = ordered_patch os p; (js', os'') = order_patches os' js in (JObj p' # js', os''))"
  by (simp add: ordered_patch_def)

lemma order_patches_ok:
  assumes "orders_ok os" and "list_all (on_object renamed_patch) ps" and "order_patches os ps = (qs, os')"
  shows "orders_ok os' \<and> list_all (on_object current_patch_record) qs"
  using assms
proof (induction ps arbitrary: os qs)
  case (Cons j js)
  show ?case
  proof (cases j)
    case (JObj p)
    obtain p' os1 rs where s: "ordered_patch os p = (p', os1)" "order_patches os1 js = (rs, os')" "qs = JObj p' # rs"
      using Cons.prems(3) unfolding JObj order_patches_Cons by (auto split: prod.splits)
    have "orders_ok os1 \<and> current_patch_record p'"
      using ordered_patch_ok [OF Cons.prems(1) _ s(1)] Cons.prems(2) JObj by simp
    with Cons.IH [OF _ _ s(2)] Cons.prems(2) s(3) show ?thesis by simp
  qed (use Cons in \<open>auto split: prod.splits\<close>)
qed simp

lemma order_activities_ok:
  assumes "orders_ok os" and "list_all (current_activity renamed_patch) as"
  shows "list_all (current_activity current_patch_record) (fst (order_activities os as))"
  using assms
proof (induction as arbitrary: os)
  case (Cons j as)
  show ?case
  proof (cases "\<exists>a ps. j = JObj a \<and> map_of a ''patches'' = Some (JArr ps)")
    case True
    then obtain a ps where a: "j = JObj a" "map_of a ''patches'' = Some (JArr ps)" by blast
    obtain qs os1 where q: "order_patches os ps = (qs, os1)" by fastforce
    have "orders_ok os1 \<and> list_all (on_object current_patch_record) qs"
      using order_patches_ok [OF Cons.prems(1) _ q] Cons.prems(2) by (simp add: a current_activity_def jget_def)
    moreover obtain bs os2 where "order_activities os1 as = (bs, os2)" by fastforce
    ultimately show ?thesis
      using Cons.IH [of os1] Cons.prems(2) a q by (simp add: current_activity_def jget_def update_conv')
  next
    case False
    have plain: "order_activities os (j # as) = (let (js', os') = order_activities os as in (j # js', os'))"
    proof (cases j)
      case (JObj a)
      show ?thesis
      proof (cases "map_of a ''patches''")
        case (Some v)
        with False JObj show ?thesis by (cases v) (simp_all add: jget_def)
      qed (simp add: JObj jget_def)
    qed simp_all
    have "current_activity current_patch_record j"
      using False by (cases j) (auto simp: current_activity_def jget_def split: option.splits json.splits)
    moreover obtain bs os2 where "order_activities os as = (bs, os2)" by fastforce
    ultimately show ?thesis
      using Cons.IH [OF Cons.prems(1)] Cons.prems(2) unfolding plain by simp
  qed
qed simp

section \<open>Current values stay\<close>

lemma order_items_current: "list_all current_item js \<Longrightarrow> fst (order_items os js) = js"
proof (induction js arbitrary: os)
  case (Cons j js)
  show ?case
  proof (cases "string_opt (jget ''locationId'' j)")
    case None
    then have "order_items os (j # js) = (let (js', os') = order_items os js in (j # js', os'))"
      by (simp split: json.split)
    with Cons show ?thesis by (simp split: prod.split) (metis fst_conv)
  next
    case (Some loc)
    then obtain m where m: "j = JObj m" "map_of m ''locationId'' = Some (JStr loc)" by (cases j) (auto simp: jget_def)
    with Cons.prems obtain n where n: "map_of m ''order'' = Some (JNum n)" "is_finite n"
      by (auto simp: current_item_def jget_def)
    then have "set_order m (item_order loc (number_opt (map_of m ''order'')) os) = m"
      by (simp add: set_order_def item_order_def)
    moreover obtain ks os2 where
      "order_items (record_order (string_opt (map_of m ''id'')) loc (item_order loc (number_opt (map_of m ''order'')) os) os) js = (ks, os2)"
      by fastforce
    moreover from this have "ks = js" using Cons.IH Cons.prems by (metis fst_conv list.pred_inject(2))
    ultimately show ?thesis using m by (simp add: jget_def Let_def)
  qed
qed simp

lemma order_field_current: "current_side (map_of p k) \<Longrightarrow> order_field k p os = (p, os)"
  by (cases "map_of p k") (simp_all add: order_field_def order_side_current update_triv)

lemma ordered_patch_current: "current_patch_record p \<Longrightarrow> ordered_patch os p = (p, os)"
  by (simp add: ordered_patch_def current_patch_record_def order_field_current)

lemma order_patches_current: "list_all (on_object current_patch_record) ps \<Longrightarrow> order_patches os ps = (ps, os)"
proof (induction ps)
  case (Cons j ps)
  then show ?case by (cases j) (simp_all add: order_patches_Cons ordered_patch_current del: order_patches.simps(2))
qed simp

lemma order_activities_current:
  "list_all (current_activity current_patch_record) as \<Longrightarrow> order_activities os as = (as, os)"
proof (induction as)
  case (Cons j as)
  then show ?case
    by (auto simp: current_activity_def jget_def order_patches_current update_triv split: json.splits option.splits)
qed simp

lemma legacy_patch_fields_current: "current_patch_record p \<Longrightarrow> legacy_patch_fields p = p"
proof -
  assume cur: "current_patch_record p"
  have "map (\<lambda>(k, v). (k, if k \<in> {''before'', ''after''} then normalize_description v else v)) p = p" if "no_notes p"
    using that by (intro map_idI) (auto simp: no_notes_def list_all_iff normalize_description_id)
  then show ?thesis using cur by (auto simp: legacy_patch_fields_def current_patch_record_def)
qed

lemma on_array_id: "(\<And>xs. map_of m k = Some (JArr xs) \<Longrightarrow> map f xs = xs) \<Longrightarrow> on_array k f m = m"
  by (auto simp: on_array_def update_triv split: option.split json.split)

lemma map_of_on_array:
  "map_of (on_array k f m) l =
     (if l = k then (case map_of m k of Some (JArr xs) \<Rightarrow> Some (JArr (map f xs)) | v \<Rightarrow> v) else map_of m l)"
  by (auto simp: on_array_def update_conv' split: option.split json.split)

lemma legacy_activity_current:
  "current_activity current_patch_record j \<Longrightarrow> on_record (on_array ''patches'' (on_record legacy_patch_fields)) j = j"
proof (cases j)
  case (JObj a)
  assume cur: "current_activity current_patch_record j"
  have "map (on_record legacy_patch_fields) ps = ps" if "map_of a ''patches'' = Some (JArr ps)" for ps
  proof (intro map_idI)
    fix p assume "p \<in> set ps"
    then have "on_object current_patch_record p" using cur that by (simp add: JObj current_activity_def jget_def list_all_iff)
    then show "on_record legacy_patch_fields p = p" by (cases p) (simp_all add: legacy_patch_fields_current)
  qed
  then show ?thesis by (simp add: JObj on_array_id)
qed simp_all

lemma legacy_activity_renamed: "current_activity renamed_patch (on_record (on_array ''patches'' (on_record legacy_patch_fields)) j)"
proof -
  have "on_object renamed_patch (on_record legacy_patch_fields p)" for p
    by (cases p) (simp_all add: legacy_patch_fields_renamed)
  then show ?thesis
    by (cases j) (auto simp: current_activity_def jget_def map_of_on_array list_all_iff split: option.split json.split)
qed

section \<open>A current snapshot\<close>

definition current_snapshot :: "jsobj \<Rightarrow> bool" where
  "current_snapshot m \<longleftrightarrow>
     map_of m ''schemaVersion'' = Some (JNum (JsInt schema_version)) \<and>
     (\<exists>rs. map_of m ''commandReceipts'' = Some (JArr rs) \<and> sorted_wrt (\<lambda>x y. \<not> same_value x y) rs) \<and>
     (\<exists>js. map_of m ''items'' = Some (JArr js) \<and> list_all current_item js) \<and>
     (case map_of m ''activities'' of Some (JArr as) \<Rightarrow> list_all (current_activity current_patch_record) as | _ \<Rightarrow> True)"

lemma sorted_uniq_values: "sorted_wrt (\<lambda>x y. \<not> same_value x y) (uniq_values xs)"
  by (induction xs) (simp_all add: sorted_wrt_filter)

lemma uniq_values_sorted: "sorted_wrt (\<lambda>x y. \<not> same_value x y) xs \<Longrightarrow> uniq_values xs = xs"
  by (induction xs) simp_all

lemma normalize_receipts_array: "\<exists>rs. normalize_receipts v = JArr rs \<and> sorted_wrt (\<lambda>x y. \<not> same_value x y) rs"
  by (cases v rule: normalize_receipts.cases) (simp_all add: sorted_uniq_values)

lemma normalize_current_snapshot:
  assumes "current_snapshot m"
  shows "normalize_workspace_state m = m"
proof -
  obtain rs js where m: "map_of m ''schemaVersion'' = Some (JNum (Fin 2))" "map_of m ''commandReceipts'' = Some (JArr rs)"
    "sorted_wrt (\<lambda>x y. \<not> same_value x y) rs" "map_of m ''items'' = Some (JArr js)" "list_all current_item js"
    and acts: "\<And>as. map_of m ''activities'' = Some (JArr as) \<Longrightarrow> list_all (current_activity current_patch_record) as"
  proof -
    show thesis
      using assms unfolding current_snapshot_def schema_version_def by (elim conjE exE) (rule that; force)
  qed
  have items: "on_array ''items'' normalize_description m = m"
    using m(4,5) by (intro on_array_id map_idI) (auto simp: list_all_iff current_item_def normalize_description_id)
  have legacy: "legacy_fields m = m"
    unfolding legacy_fields_def items using acts
    by (intro on_array_id map_idI) (auto simp: list_all_iff legacy_activity_current)
  obtain os where os: "order_items \<lparr>next_order = [], order_by_item = []\<rparr> js = (js, os)"
    using order_items_current [OF m(5), of "\<lparr>next_order = [], order_by_item = []\<rparr>"] by (metis prod.collapse)
  have "assign_orders m = m"
    using m(4) os acts by (auto simp: assign_orders_def update_triv order_activities_current split: option.split json.split)
  then show ?thesis
    by (simp add: normalize_workspace_state_def m legacy schema_version_def uniq_values_sorted update_triv)
qed

lemma normalize_legacy:
  assumes "map_of m ''schemaVersion'' = Some (JNum (Fin 1)) \<or> map_of m ''schemaVersion'' = Some (JNum (Fin 2))"
    and "map_of m ''items'' = Some (JArr js)" and "list_all double_order js"
  obtains ts where "map_of (normalize_workspace_state m) ''items'' = Some (JArr ts)" and "list_all2 migrated_item js ts"
    and "current_snapshot (normalize_workspace_state m)"
    and "map_of (normalize_workspace_state m) ''commandReceipts'' = Some (normalize_receipts (map_of m ''commandReceipts''))"
    and "\<And>k. k \<notin> {''schemaVersion'', ''commandReceipts'', ''items'', ''activities''} \<Longrightarrow>
      map_of (normalize_workspace_state m) k = map_of m k"
proof -
  define m3 where "m3 = AList.update ''commandReceipts'' (normalize_receipts (map_of m ''commandReceipts''))
    (if map_of m ''schemaVersion'' = Some (JNum (Fin 1))
     then AList.update ''schemaVersion'' (JNum (Fin 2)) (legacy_fields m) else legacy_fields m)"
  let ?start = "\<lparr>next_order = [], order_by_item = []\<rparr>" and ?act = "on_record (on_array ''patches'' (on_record legacy_patch_fields))"
  have norm: "normalize_workspace_state m = assign_orders m3"
    using assms(1) by (auto simp: normalize_workspace_state_def m3_def schema_version_def Let_def
        legacy_fields_def map_of_on_array update_conv')
  have m3: "map_of m3 ''schemaVersion'' = Some (JNum (Fin 2))" "map_of m3 ''items'' = Some (JArr (map normalize_description js))"
    "map_of m3 ''commandReceipts'' = Some (normalize_receipts (map_of m ''commandReceipts''))"
    "map_of m3 ''activities'' = (case map_of m ''activities'' of Some (JArr as) \<Rightarrow> Some (JArr (map ?act as)) | v \<Rightarrow> v)"
    "\<And>k. k \<notin> {''schemaVersion'', ''commandReceipts'', ''items'', ''activities''} \<Longrightarrow> map_of m3 k = map_of m k"
    using assms(1,2) by (auto simp: m3_def update_conv' legacy_fields_def map_of_on_array)
  obtain ts os where ts: "order_items ?start (map normalize_description js) = (ts, os)" by fastforce
  have "orders_ok os \<and> list_all2 migrated_item js ts"
    using order_items_migrate [OF _ _ ts] assms(3) by (simp add: list_all_iff)
  then have ok: "orders_ok os" "list_all2 migrated_item js ts" by blast+
  define t where "t = assign_orders m3"
  have t: "map_of t k = (if k = ''items'' then Some (JArr ts)
      else if k = ''activities'' then (case map_of m3 k of Some (JArr as) \<Rightarrow> Some (JArr (fst (order_activities os as))) | v \<Rightarrow> v)
      else map_of m3 k)" for k
    using m3(2) ts by (auto simp: t_def assign_orders_def update_conv' split: option.split json.split)
  have items: "list_all current_item ts"
    using ok(2) migrated_current unfolding list_all2_conv_all_nth list_all_length by metis
  have acts: "list_all (current_activity current_patch_record) (fst (order_activities os (map ?act as)))" for as
    by (rule order_activities_ok [OF ok(1)]) (simp add: list_all_iff legacy_activity_renamed)
  obtain rs where rs: "normalize_receipts (map_of m ''commandReceipts'') = JArr rs" "sorted_wrt (\<lambda>x y. \<not> same_value x y) rs"
    using normalize_receipts_array by blast
  have "current_snapshot t"
    unfolding current_snapshot_def t using m3(1,3,4) rs items acts
    by (auto simp: schema_version_def split: option.split json.split)
  then show thesis
    using that [of ts] ok(2) t m3(3,5) unfolding norm t_def [symmetric] by simp
qed

end
