(* ===== verification/Server_Properties.thy ===== *)
theory Server_Properties
  imports Sample_Sync Migration_Json
begin

text \<open>
  The properties of the server side: a stored snapshot is normalised once and for all, its
  history is compacted within bounds without forgetting commands, a batch respects the quotas
  and answers every command, and clients that synchronise at the same time behave as if their
  batches were applied one after the other.
\<close>

section \<open>Normalisation\<close>




section \<open>Compaction of the history\<close>

text \<open>
  C19: compaction touches nothing but activities, audit and receipts, and brings them within
  their limits: activities and patches fit unless only protected activities are left, audit
  events fit unless only protected ones are left, receipts fit, and the serialised state fits
  unless only protected history and at most one receipt are left.
\<close>

theorem compaction_within_limits:
  fixes s lims ka ku
  defines "t \<equiv> compact_workspace_history s lims ka ku"
  shows "ws_locations t = ws_locations s \<and> ws_items t = ws_items s \<and> ws_plans t = ws_plans s \<and>
    ws_workspace t = ws_workspace s \<and> ws_schemaVersion t = ws_schemaVersion s \<and>
    ((length (ws_activities t) \<le> lim_activities lims \<and> patch_count (ws_activities t) \<le> lim_activityPatches lims) \<or>
     (\<forall>a\<in>set (ws_activities t). a_id a \<in> set ka)) \<and>
    (length (ws_audit t) \<le> lim_auditEvents lims \<or> (\<forall>u\<in>set (ws_audit t). u_id u \<in> set ku)) \<and>
    length (ws_commandReceipts t) \<le> lim_commandReceipts lims \<and>
    (state_bytes t \<le> lim_serializedBytes lims \<or>
     only_protected (set ka) (set ku) t \<and> length (ws_commandReceipts t) \<le> 1)"
  using compaction_content [of s lims ka ku] compaction_counts_fit [of s lims ka ku]
    compaction_audits_fit [of s lims ka ku] compaction_receipts [of s lims ka ku] compaction_bytes [of s lims ka ku]
  by (simp add: t_def content_def)

theorem compaction_within_limits_witness:
  "length (ws_commandReceipts (compact_workspace_history sample_state snapshot_limits [] [])) \<le> 20000 \<and>
     ws_items (compact_workspace_history sample_state snapshot_limits [] []) = [jam, jam2]"
  using compaction_within_limits [of sample_state snapshot_limits "[]" "[]"] by (simp add: snapshot_limits_def)

text \<open>
  C20: compaction does not forget commands: a command that the history knows stays known, as a
  receipt, an activity or an audit event, as long as the receipts that are left have room and
  some activity or audit event is left that could still be dropped; with full receipts, or when
  everything that can be dropped was dropped, it may be forgotten.  Protected activities stay
  themselves.
\<close>

theorem compaction_remembers_commands:
  fixes s lims ka ku
  defines "t \<equiv> compact_workspace_history s lims ka ku"
  assumes "was_applied s c" and "c \<noteq> []"
  shows "(was_applied t c \<or> length (ws_commandReceipts t) = lim_commandReceipts lims \<or> only_protected (set ka) (set ku) t) \<and>
    (\<forall>a\<in>set (ws_activities s). a_id a \<in> set ka \<longrightarrow> a \<in> set (ws_activities t))"
  using compaction_remembers [OF assms(2) [unfolded was_applied_known] assms(3)] compaction_keeps_activity
  by (simp add: t_def was_applied_known)

theorem compaction_remembers_commands_witness:
  "hd (ws_activities moved_state) \<in>
     set (ws_activities (compact_workspace_history moved_state snapshot_limits [''activity_c1''] []))"
proof -
  obtain a where a: "ws_activities moved_state = [a]" "a_commandId a = ''c1''" using moved_state_sel(7) by blast
  then have "was_applied moved_state ''c1''" by (simp add: was_applied_def)
  moreover have "a_id a = ''activity_c1''"
    using a(1) by (auto simp: moved_state_def bump_revision_def activity_of_def sample_envelope_def)
  ultimately show ?thesis
    using compaction_remembers_commands [of moved_state "''c1''" snapshot_limits "[''activity_c1'']" "[]"] a(1) by simp
qed

section \<open>A batch of commands\<close>

text \<open>
  C17: no batch grows a count of the snapshot, or its size, past both the quota and the value it
  had before: a workspace within its quotas stays within them, and one over a quota never gets
  further over it.
\<close>

theorem batch_respects_quotas:
  assumes "process_batch dp s es = Some b"
  shows "\<forall>q\<in>set snapshot_quota_order. usage_of (snapshot_quota_usage (json_of_state (b_state b))) q
    \<le> max (api_quota q) (usage_of (snapshot_quota_usage (json_of_state s)) q)"
  using batch_quotas [OF assms] by blast

theorem batch_respects_quotas_witness: "usage_of (snapshot_quota_usage (json_of_state moved_state)) Locations \<le> 1000"
proof -
  obtain b where b: "process_batch (\<lambda>_. True) sample_state [move_jam] = Some b" "b_state b = moved_state"
    using sample_batch by blast
  from batch_respects_quotas [OF b(1)] show ?thesis
    by (simp add: b(2) snapshot_quota_order_def state_usage sample_locations_def)
qed

text \<open>
  C18: a batch answers every command with exactly one receipt, in the order of the commands;
  the revision grows by the number of commands applied, and without an applied command the
  state is the one that was loaded.
\<close>

theorem batch_answers_in_order:
  assumes "process_batch dp s es = Some b"
  shows "map rc_commandId (b_receipts b) = map (\<lambda>(e, n). receipt_name e n) (zip es [0..<length es]) \<and>
    (let n = length (filter (\<lambda>r. rc_status r = Receipt_applied) (b_receipts b)) in
     if n = 0 then b_state b = s
     else is_safe_integer (revision (b_state b)) \<and> num_val (revision (b_state b)) = num_val (revision s) + of_nat n)"
proof -
  have names: "receipt_names k es = map (\<lambda>(e, n). receipt_name e n) (zip es [k..<k + length es])" for k
  proof (induction es arbitrary: k)
    case (Cons e es)
    then show ?case using upt_conv_Cons [of k "k + length (e # es)"] by simp
  qed simp
  show ?thesis
    using process_commands_receipts [OF assms [unfolded process_batch_def]] batch_advanced [OF assms] names [of 0]
    by (auto simp: start_batch_def advanced_def Let_def)
qed

theorem batch_answers_in_order_witness:
  "\<exists>b. process_batch (\<lambda>_. True) sample_state [move_jam] = Some b \<and> map rc_commandId (b_receipts b) = [''c1''] \<and>
     num_val (revision (b_state b)) = 8"
proof -
  obtain b where b: "process_batch (\<lambda>_. True) sample_state [move_jam] = Some b" "b_receipts b =
      [\<lparr>rc_commandId = ''c1'', rc_rejection = None, rc_revision = Fin 8, rc_status = Receipt_applied\<rparr>]"
    using sample_batch by blast
  from batch_answers_in_order [OF b(1)] b(2) have "num_val (revision (b_state b)) = 8" by simp
  with b show ?thesis by simp
qed

text \<open>
  C15: a command that was applied is a duplicate when it arrives again, however full the history
  was: its activity or audit event is protected in the compaction that follows it.
\<close>

theorem applied_command_is_recognised:
  assumes "apply_command dp s e = Inr r"
  shows "\<exists>b. process_batch dp (compact_result r) [e] = Some b \<and> b_state b = compact_result r \<and> \<not> b_applied b \<and>
    map rc_status (b_receipts b) = [Receipt_duplicate]"
proof -
  have "\<forall>c\<in>set (receipt_names 0 [e]). known (compact_result r) c"
    using applied_known [OF assms] accepted_id [OF assms] by simp
  from process_batch_known [OF this] show ?thesis by (force simp: length_Suc_conv)
qed

theorem applied_command_is_recognised_witness:
  "\<exists>b. process_batch (\<lambda>_. True) moved_state [move_jam] = Some b \<and> b_state b = moved_state"
proof -
  have "apply_command (\<lambda>_. True) sample_state move_jam = Inr move_result"
    using move_jam_result by (simp add: move_result_def)
  from applied_command_is_recognised [OF this] show ?thesis by auto
qed

text \<open>
  C16: sending a batch twice is as good as sending it once, as long as compaction forgets nothing:
  when no command was rejected and every accepted result either needed no compaction or leaves
  receipts with room and history that could still be dropped (\<open>roomy\<close>), the second answer reports
  duplicates only, in the same order, and leaves the state alone.
\<close>

theorem retried_batch_changes_nothing:
  assumes "process_batch dp s es = Some b" and "\<forall>r\<in>set (b_receipts b). rc_status r \<noteq> Receipt_rejected"
    and "\<forall>r\<in>set (batch_results dp s (start_batch s) es). roomy r"
  shows "\<exists>b'. process_batch dp (b_state b) es = Some b' \<and> b_state b' = b_state b \<and> \<not> b_applied b' \<and>
    map rc_commandId (b_receipts b') = map rc_commandId (b_receipts b) \<and>
    (\<forall>r\<in>set (b_receipts b'). rc_status r = Receipt_duplicate)"
  using process_batch_known [OF retry_known(2) [OF assms(1,3,2)], of dp] retry_known(1) [OF assms(1,3,2)] by simp

theorem retried_batch_changes_nothing_witness:
  "\<exists>b'. process_batch (\<lambda>_. True) moved_state [move_jam] = Some b' \<and> map rc_status (b_receipts b') = [Receipt_duplicate]"
proof -
  obtain b where b: "process_batch (\<lambda>_. True) sample_state [move_jam] = Some b" "b_state b = moved_state"
    "b_receipts b = [\<lparr>rc_commandId = ''c1'', rc_rejection = None, rc_revision = Fin 8, rc_status = Receipt_applied\<rparr>]"
    using sample_batch by blast
  have "rebase sample_state (start_batch sample_state) move_jam = move_jam"
    by (simp add: rebase_def start_batch_def sample_envelope_def)
  then have "\<forall>r\<in>set (batch_results (\<lambda>_. True) sample_state (start_batch sample_state) [move_jam]). roomy r"
    using move_jam_result sample_step within_limits_roomy moved_within_limits by (simp add: start_batch_def)
  then show ?thesis
    using retried_batch_changes_nothing [OF b(1)] b(2,3) by (force simp: length_Suc_conv)
qed

section \<open>Clients that synchronise at the same time\<close>

text \<open>
  C4: however the load and write steps of several clients interleave, what the stored snapshots
  go through is a sequence of whole batches, each applied to the snapshot of that moment: no
  client overwrites a change it has not seen.
\<close>

theorem interleaved_clients_are_atomic:
  assumes "system_run memory_load memory_compare_and_swap dp (map (\<lambda>rq. (rq, sync_start rq)) rqs, m) (cs, m')"
  shows "(atomic_batch memory_tidy dp (rq_commands ` set rqs))\<^sup>*\<^sup>* (memory_load m) (memory_load m')"
proof -
  have "requested (map (\<lambda>rq. (rq, sync_start rq)) rqs) = rq_commands ` set rqs" by (force simp: requested_def)
  with memory.system_run_refines [OF assms memory.fresh_start] show ?thesis by simp
qed

theorem interleaved_clients_are_atomic_witness:
  "\<exists>rs m. system_run memory_load memory_compare_and_swap (\<lambda>_. True)
      ([(sample_request, Attempting 0)], sample_store) ([(sample_request, Answered rs moved_state)], m) \<and>
    (atomic_batch memory_tidy (\<lambda>_. True) {[move_jam]})\<^sup>*\<^sup>* (memory_load sample_store) (memory_load m)"
proof -
  obtain rs m where run: "system_run memory_load memory_compare_and_swap (\<lambda>_. True)
      (map (\<lambda>rq. (rq, sync_start rq)) [sample_request], sample_store) ([(sample_request, Answered rs moved_state)], m)"
    using sample_run by blast
  from interleaved_clients_are_atomic [OF this] run show ?thesis by (auto simp: sample_start)
qed

text \<open>
  C11: the stored snapshots stay well formed through every interleaving of clients that send
  ordinary commands: neither undo nor redo, parsed from JSON, and without an empty property name
  in the changes of an update.
\<close>

theorem interleaved_clients_keep_invariant:
  assumes "system_run memory_load memory_compare_and_swap dp (map (\<lambda>rq. (rq, sync_start rq)) rqs, m) (cs, m')"
    and "\<forall>rq\<in>set rqs. \<forall>e\<in>set (rq_commands rq). ordinary e"
    and "\<forall>w s. memory_load m w = Some s \<longrightarrow> wf_state s"
  shows "\<forall>w s. memory_load m' w = Some s \<longrightarrow> wf_state s"
proof -
  have eq: "requested (map (\<lambda>rq. (rq, sync_start rq)) rqs) = rq_commands ` set rqs" by (force simp: requested_def)
  with memory.system_run_refines [OF assms(1) memory.fresh_start]
  have "(atomic_batch memory_tidy dp (rq_commands ` set rqs))\<^sup>*\<^sup>* (memory_load m) (memory_load m')" by simp
  from memory.atomic_preserves [OF this _ assms(3)] assms(2) show ?thesis by blast
qed

theorem interleaved_clients_keep_invariant_witness:
  "\<exists>rs m t. system_run memory_load memory_compare_and_swap (\<lambda>_. True)
      ([(sample_request, Attempting 0)], sample_store) ([(sample_request, Answered rs moved_state)], m) \<and>
    memory_load m ''w'' = Some t \<and> wf_state t"
proof -
  obtain rs m where run: "system_run memory_load memory_compare_and_swap (\<lambda>_. True)
      (map (\<lambda>rq. (rq, sync_start rq)) [sample_request], sample_store) ([(sample_request, Answered rs moved_state)], m)"
    using sample_run by blast
  have "ordinary move_jam"
    by (simp add: ordinary_def sample_envelope_def on_grid_of_int [of 2, simplified] max_double_def)
  then have "\<forall>w s. memory_load m w = Some s \<longrightarrow> wf_state s"
    using sample_store_wf by (intro interleaved_clients_keep_invariant [OF run]) simp_all
  moreover obtain t where "memory_load m ''w'' = Some t"
    using memory.system_run_refines [OF run memory.fresh_start] memory.atomic_revisions sample_load(1) by blast
  ultimately have "memory_load m ''w'' = Some t \<and> wf_state t" by blast
  with run show ?thesis unfolding list.map sample_start by blast
qed



text \<open>
  C13: every client finishes: whatever other clients do to the store between its steps, after
  twice the number of attempts and one more step it has answered or failed.
\<close>

theorem clients_finish:
  assumes "length others = 2 * rq_maxRetries rq + 1"
  shows "finished (fst (disturbed_steps others (sync_step load cas dp rq) (sync_start rq, st)))"
  using assms by (intro disturbed_finishes) (auto simp: sync_start_def)

theorem clients_finish_witness:
  "finished (fst (disturbed_steps (replicate 17 (\<lambda>m. m))
     (sync_step memory_load memory_compare_and_swap (\<lambda>_. True) sample_request) (sync_start sample_request, sample_store)))"
  by (rule clients_finish) (simp add: sample_request_def default_sync_retries_def)

text \<open>
  C14: a client that is alone with the store is answered at the first attempt, with the
  receipts and the state of its batch, and the store holds that state afterwards.
\<close>

theorem lone_client_is_answered:
  assumes "memory_load m (rq_workspaceId rq) = Some s" and "process_batch dp s (rq_commands rq) = Some b"
    and "0 < rq_maxRetries rq" and "\<forall>e\<in>set (rq_commands rq). e_workspaceId e = rq_workspaceId rq"
  shows "\<exists>m'. synchronize memory_load memory_compare_and_swap dp rq m = (Answered (b_receipts b) (b_state b), m') \<and>
    memory_load m' (rq_workspaceId rq) = Some (if b_applied b then memory_tidy (b_state b) else s)"
proof -
  have "sync_start rq = Attempting 0" using assms(4) by (simp add: sync_start_def list_ex_iff)
  from memory.alone_answered [where rq = rq, OF assms(1,2,3) this] assms(1) show ?thesis by fastforce
qed

theorem lone_client_is_answered_witness:
  "\<exists>m rs. synchronize memory_load memory_compare_and_swap (\<lambda>_. True) sample_request sample_store = (Answered rs moved_state, m) \<and>
     memory_load m ''w'' = Some (memory_tidy moved_state)"
proof -
  obtain b where b: "process_batch (\<lambda>_. True) sample_state [move_jam] = Some b" "b_state b = moved_state" "b_applied b"
    using sample_batch by blast
  show ?thesis
    using lone_client_is_answered [of sample_store sample_request sample_state "\<lambda>_. True" b] sample_load b
    by (auto simp: sample_request_def default_sync_retries_def sample_envelope_def)
qed

section \<open>Access to a workspace\<close>

text \<open>
  C36: what a stored access value or a received summary may grant.  A stored value, read for any
  account, is exactly the state of a device when it is no server value, and otherwise lets only
  an active owner delete or manage access and only an active owner or editor write.  The right
  to leave needs active access with a stored role too, but is not capped by the role: it is
  given exactly by the record of capabilities that the value holds, or without such a record to
  everybody but an owner.  The same bounds hold for the access state made of a summary.
\<close>

theorem access_stays_within_role:
  "(let a = access_for_account j account in
      if ac_kind a = Device_only then a = device_only_access else within_rights j a) \<and>
   (case normalize_summary j of None \<Rightarrow> True | Some m \<Rightarrow> within_rights j (access_from_summary m now))"
proof
  let ?a = "access_for_account j account"
  show "let a = ?a in if ac_kind a = Device_only then a = device_only_access else within_rights j a"
    using access_for_account_within [of j account] access_for_account_rights [of j account]
    by (cases "ac_kind ?a") (auto simp: within_role_def Let_def)
  show "case normalize_summary j of None \<Rightarrow> True | Some m \<Rightarrow> within_rights j (access_from_summary m now)"
    by (auto dest: summary_rights split: option.split)
qed

theorem access_stays_within_role_witness:
  "\<exists>a. access_for_account (JObj [(''kind'', JStr ''server''), (''role'', JStr ''viewer''),
      (''capabilities'', JObj [(''write'', JBool True)])]) None = a \<and> require_write_access a \<noteq> Inr ()"
  using access_stays_within_role [of "JObj [(''kind'', JStr ''server''), (''role'', JStr ''viewer''),
      (''capabilities'', JObj [(''write'', JBool True)])]" None]
  by (auto simp: within_rights_def access_for_account_def normalize_access_def Let_def all_roles_def enum_of_def)

text \<open>
  Replacing the access state by later ones of the same account never goes back: the state
  reached is not older than the first one nor than any state offered, by membership revision
  and then by access revision.
\<close>

theorem access_never_goes_back:
  assumes "ac_kind cur = On_server" and "counts_revisions cur"
    and "\<forall>c\<in>set cs. ac_kind c = On_server \<and> account_of c = account_of cur \<and> counts_revisions c"
  shows "\<not> older (absorb cur cs) cur \<and> (\<forall>c\<in>set cs. \<not> older (absorb cur cs) c)"
  using absorb_not_older [OF assms] .

theorem access_never_goes_back_witness:
  "\<exists>cur c. older cur c \<and> \<not> older (absorb cur [c]) c"
proof -
  let ?cur = "server_access Editor \<lparr>op_accountId = None, op_accessRevision = None, op_canLeave = None, op_checkedAt = None,
      op_membershipRevision = None, op_status = None\<rparr>"
  let ?c = "?cur\<lparr>ac_membershipRevision := Fin 1\<rparr>"
  have "older ?cur ?c" by (simp add: older_def stamp_def server_access_def Let_def)
  moreover have "\<not> older (absorb ?cur [?c]) ?c"
    using access_never_goes_back [of ?cur "[?c]"] by (simp add: server_access_def Let_def counts_revisions_def account_of_def)
  ultimately show ?thesis by blast
qed

end
