(* ===== verification/Planner_Facts.thy ===== *)
theory Planner_Facts
  imports Planner
begin

text \<open>
  What a generated plan guarantees when its steps are carried out in order: every step finds
  a live item or a movable container at the place it names and puts it into storage that may
  receive it, has room for it and breaks none of the constraints of what is carried; no item is
  carried twice, no container is put inside itself, and when the planner stops no remaining
  item would profit from a move.
\<close>

section \<open>Scores\<close>

lemma score_no_failure:
  "cs_hardFailure (score_candidate s x l w) = None \<Longrightarrow>
   hard_failure x l = None \<and> is_finite (cs_score (score_candidate s x l w))"
  by (auto simp: score_candidate_def rejected_def split: option.splits prod.splits if_splits)

lemma destinations_storage: "l \<in> set (destinations s r) \<Longrightarrow>
    l \<in> set (ws_locations s) \<and> is_storage_location l \<and> can_receive r (l_id l)"
  by (auto simp: destinations_def)

lemma ranked_member:
  "(l, c) \<in> set (ranked_destinations s r w x) \<longleftrightarrow>
     l \<in> set (destinations s r) \<and> l_id l \<noteq> i_locationId x \<and> c = score_candidate s x l w \<and> cs_hardFailure c = None"
  by (auto simp: ranked_destinations_def)

lemma best_move_sound:
  assumes "best_move s r w x = Some (l, c)"
  shows "l \<in> set (destinations s r)" and "l_id l \<noteq> i_locationId x" and "hard_failure x l = None"
    and "c = score_candidate s x l w" and "cs_hardFailure c = None"
proof -
  obtain rest where "ranked_destinations s r w x = (l, c) # rest"
    using assms by (auto simp: best_move_def split: option.splits list.splits prod.splits if_splits)
  then have m: "(l, c) \<in> set (ranked_destinations s r w x)" by simp
  from m show "l \<in> set (destinations s r)" "l_id l \<noteq> i_locationId x" "c = score_candidate s x l w"
    "cs_hardFailure c = None" unfolding ranked_member by blast+
  from m show "hard_failure x l = None" unfolding ranked_member using score_no_failure by blast
qed

text \<open>No destination is worth its move when there is no best one.\<close>

lemma js_le_finite_trans: "is_finite a \<Longrightarrow> is_finite b \<Longrightarrow> num_val a \<le> num_val b \<Longrightarrow> js_le b y \<Longrightarrow> js_le a y"
  by (cases a; cases b; cases y) (auto simp: js_le_def)

lemma best_move_None:
  assumes "best_move s r w x = None" and "List.find (\<lambda>l. l_id l = i_locationId x) (ws_locations s) = Some here"
    and "l \<in> set (destinations s r)" and "l_id l \<noteq> i_locationId x"
    and "cs_hardFailure (score_candidate s x l w) = None"
  shows "js_le (cs_score (score_candidate s x l w)) (js_add (cs_score (score_candidate s x here w)) (pw_moveCost w))"
proof -
  let ?c = "score_candidate s x l w" and ?key = "\<lambda>(l :: location, c). - num_val (cs_score c)"
  have m: "(l, ?c) \<in> set (ranked_destinations s r w x)" unfolding ranked_member using assms(3-5) by simp
  then obtain m' c' rest where rk: "ranked_destinations s r w x = (m', c') # rest"
    by (cases "ranked_destinations s r w x") auto
  have "sorted (map ?key (ranked_destinations s r w x))" by (simp add: ranked_destinations_def)
  then have "num_val (cs_score ?c) \<le> num_val (cs_score c')" using m by (auto simp: rk)
  moreover have "(m', c') \<in> set (ranked_destinations s r w x)" by (simp add: rk)
  then have "is_finite (cs_score c')" unfolding ranked_member using score_no_failure by blast
  moreover have "is_finite (cs_score ?c)" using score_no_failure [OF assms(5)] by simp
  moreover have "js_le (cs_score c') (js_add (cs_score (score_candidate s x here w)) (pw_moveCost w))"
    using assms(1,2) by (auto simp: best_move_def rk split: if_splits)
  ultimately show ?thesis using js_le_finite_trans by blast
qed

section \<open>Carrying a plan out\<close>

text \<open>A step puts the item, or the container with everything in it, at its destination.\<close>

definition put_item :: "string \<Rightarrow> string \<Rightarrow> wstate \<Rightarrow> wstate" where
  "put_item i loc s =
     s\<lparr>ws_items := map (\<lambda>x. if i_id x = i then x\<lparr>i_locationId := loc\<rparr> else x) (ws_items s)\<rparr>"

definition put_container :: "string \<Rightarrow> string \<Rightarrow> wstate \<Rightarrow> wstate" where
  "put_container i parent s =
     s\<lparr>ws_locations := map (\<lambda>l. if l_id l = i then l\<lparr>l_parentId := Some parent\<rparr> else l) (ws_locations s)\<rparr>"

definition perform :: "plan_step \<Rightarrow> wstate \<Rightarrow> wstate" where
  "perform st s =
     (case (s_itemId st, s_locationId st) of
        (Some i, _) \<Rightarrow> put_item i (s_destinationId st) s
      | (None, Some i) \<Rightarrow> put_container i (s_destinationId st) s
      | (None, None) \<Rightarrow> s)"

definition carried :: "plan_step \<Rightarrow> wstate \<Rightarrow> string list" where
  "carried st s =
     (case (s_itemId st, s_locationId st) of
        (Some i, _) \<Rightarrow> [i]
      | (None, Some i) \<Rightarrow> map i_id (contained_items s i)
      | (None, None) \<Rightarrow> [])"

fun perform_all :: "plan_step list \<Rightarrow> wstate \<Rightarrow> wstate" where
  "perform_all [] s = s"
| "perform_all (st # sts) s = perform_all sts (perform st s)"

fun carried_by :: "plan_step list \<Rightarrow> wstate \<Rightarrow> string list" where
  "carried_by [] s = []"
| "carried_by (st # sts) s = carried st s @ carried_by sts (perform st s)"

text \<open>
  What a step needs of the state it is carried out in: nothing that is carried fails a hard
  constraint at the destination, and what is measured there has room.
\<close>

definition sound_item_step :: "wstate \<Rightarrow> resolved_selection \<Rightarrow> plan_weights \<Rightarrow> plan_step \<Rightarrow> bool" where
  "sound_item_step s r w st \<longleftrightarrow>
     s_type st = Item_step \<and> s_completedAt st = None \<and> s_locationId st = None \<and>
     (\<exists>x\<in>set (ws_items s). \<exists>l\<in>set (ws_locations s).
        s_itemId st = Some (i_id x) \<and> \<not> i_archived x \<and> s_quantity st = Some (i_quantity x) \<and>
        s_sourceId st = i_locationId x \<and> can_move_item r (i_id x) (i_locationId x) \<and>
        s_destinationId st = l_id l \<and> l_id l \<noteq> i_locationId x \<and> is_storage_location l \<and>
        can_receive r (l_id l) \<and> hard_failure x l = None \<and> cs_hardFailure (score_candidate s x l w) = None)"

definition room_for :: "wstate \<Rightarrow> item list \<Rightarrow> location \<Rightarrow> bool" where
  "room_for s xs l \<longleftrightarrow>
     (case (volume (l_dimensions l), used_volume s (l_id l),
            total_volume (filter (\<lambda>x. i_locationId x \<notin> within_ids s (l_id l)) xs)) of
        (Some capacity, Some occupied, Some incoming) \<Rightarrow> \<not> js_less capacity (js_add occupied incoming)
      | _ \<Rightarrow> True)"

definition sound_location_step :: "wstate \<Rightarrow> resolved_selection \<Rightarrow> plan_weights \<Rightarrow> plan_step \<Rightarrow> bool" where
  "sound_location_step s r w st \<longleftrightarrow>
     s_type st = Location_step \<and> s_completedAt st = None \<and> s_itemId st = None \<and>
     (\<exists>c\<in>set (ws_locations s). \<exists>l\<in>set (ws_locations s).
        s_locationId st = Some (l_id c) \<and> is_movable_container c \<and> \<not> l_archived c \<and>
        l_captureStatus c = Counted \<and> l_parentId c = Some (s_sourceId st) \<and>
        can_move_location r (l_id c) (l_parentId c) \<and> s_destinationId st = l_id l \<and>
        l_id l \<noteq> s_sourceId st \<and> l_id l \<notin> within_ids s (l_id c) \<and> is_storage_location l \<and>
        can_receive r (l_id l) \<and> 2 \<le> length (contained_items s (l_id c)) \<and>
        (\<forall>x\<in>set (contained_items s (l_id c)).
           hard_failure x l = None \<and> cs_hardFailure (score_candidate s x l w) = None) \<and>
        room_for s (contained_items s (l_id c)) l)"

definition sound_step :: "wstate \<Rightarrow> resolved_selection \<Rightarrow> plan_weights \<Rightarrow> plan_step \<Rightarrow> bool" where
  "sound_step s r w st \<longleftrightarrow> sound_item_step s r w st \<or> sound_location_step s r w st"

text \<open>Every step is sound in the state that the steps before it leave.\<close>

fun sound_steps :: "wstate \<Rightarrow> resolved_selection \<Rightarrow> plan_weights \<Rightarrow> plan_step list \<Rightarrow> bool" where
  "sound_steps s r w [] \<longleftrightarrow> True"
| "sound_steps s r w (st # sts) \<longleftrightarrow> sound_step s r w st \<and> sound_steps (perform st s) r w sts"

lemma perform_all_append: "perform_all (sts @ [st]) s = perform st (perform_all sts s)"
  by (induction sts arbitrary: s) simp_all

lemma carried_by_append: "carried_by (sts @ [st]) s = carried_by sts s @ carried st (perform_all sts s)"
  by (induction sts arbitrary: s) simp_all

lemma sound_steps_append:
  "sound_steps s r w (sts @ [st]) \<longleftrightarrow> sound_steps s r w sts \<and> sound_step (perform_all sts s) r w st"
  by (induction sts arbitrary: s) simp_all

lemmas replay_append = perform_all_append carried_by_append sound_steps_append

text \<open>Records are found by their identifiers, which stay what they are.\<close>

lemma map_at_id:
  assumes "distinct (map f xs)" and "k < length xs"
  shows "map (\<lambda>x. if f x = f (xs ! k) then g x else x) xs = xs[k := g (xs ! k)]"
  using assms by (intro nth_equalityI) (auto simp: nth_list_update nth_eq_iff_index_eq distinct_conv_nth)

lemma put_item_position:
  "distinct (map i_id (ws_items s)) \<Longrightarrow> k < length (ws_items s) \<Longrightarrow>
   put_item (i_id (ws_items s ! k)) loc s = move_item k loc s"
  using map_at_id [of i_id "ws_items s" k] by (simp add: put_item_def move_item_def)

lemma put_container_position:
  "distinct (map l_id (ws_locations s)) \<Longrightarrow> k < length (ws_locations s) \<Longrightarrow>
   put_container (l_id (ws_locations s ! k)) p s = move_container k p s"
  using map_at_id [of l_id "ws_locations s" k] by (simp add: put_container_def move_container_def)

lemma ids_move_container: "map l_id (ws_locations (move_container k p s)) = map l_id (ws_locations s)"
proof (cases "k < length (ws_locations s)")
  case True
  then have "l_id (ws_locations s ! k) = map l_id (ws_locations s) ! k" by simp
  then show ?thesis by (simp add: move_container_def map_update)
qed (simp add: move_container_def list_update_beyond)

lemma archived_move_item: "map i_archivedAt (ws_items (move_item k loc s)) = map i_archivedAt (ws_items s)"
proof (cases "k < length (ws_items s)")
  case True
  then have "i_archivedAt (ws_items s ! k) = map i_archivedAt (ws_items s) ! k" by simp
  then show ?thesis by (simp add: move_item_def map_update)
qed (simp add: move_item_def list_update_beyond)

definition same_records :: "wstate \<Rightarrow> wstate \<Rightarrow> bool" where
  "same_records s t \<longleftrightarrow>
     map i_id (ws_items t) = map i_id (ws_items s) \<and> map l_id (ws_locations t) = map l_id (ws_locations s)"

lemma same_records_moved:
  "same_records s t \<Longrightarrow> same_records s (move_item k loc t)" "same_records s t \<Longrightarrow> same_records s (move_container k p t)"
  unfolding same_records_def using ids_move_item [of k loc t] ids_move_container [of k p t]
  by (simp_all add: move_item_def move_container_def)

section \<open>Item steps\<close>

text \<open>The projected state is the one that carrying out the steps so far leaves.\<close>

definition projects :: "wstate \<Rightarrow> resolved_selection \<Rightarrow> plan_weights \<Rightarrow> projection \<Rightarrow> bool" where
  "projects s r w pj \<longleftrightarrow>
     pj_state pj = perform_all (pj_steps pj) s \<and> same_records s (pj_state pj) \<and>
     sound_steps s r w (pj_steps pj) \<and>
     carried_by (pj_steps pj) s = pj_covered pj @ pj_planned pj \<and> distinct (pj_covered pj @ pj_planned pj)"

lemma projects_start: "projects s r w (start_projection s)"
  by (simp add: projects_def start_projection_def same_records_def)

lemma projects_same: "projects s r w pj \<Longrightarrow> same_records s (pj_state pj)"
  unfolding projects_def by blast

lemma projects_ids:
  assumes "projects s r w pj"
  shows "distinct (map i_id (ws_items s)) \<Longrightarrow> distinct (map i_id (ws_items (pj_state pj)))"
    and "distinct (map l_id (ws_locations s)) \<Longrightarrow> distinct (map l_id (ws_locations (pj_state pj)))"
    and "length (ws_locations (pj_state pj)) = length (ws_locations s)"
proof -
  have "map i_id (ws_items (pj_state pj)) = map i_id (ws_items s)"
    and l: "map l_id (ws_locations (pj_state pj)) = map l_id (ws_locations s)"
    using assms unfolding projects_def same_records_def by blast+
  then show "distinct (map i_id (ws_items s)) \<Longrightarrow> distinct (map i_id (ws_items (pj_state pj)))"
    "distinct (map l_id (ws_locations s)) \<Longrightarrow> distinct (map l_id (ws_locations (pj_state pj)))" by (simp_all only:)
  show "length (ws_locations (pj_state pj)) = length (ws_locations s)" using l by (rule map_eq_imp_length_eq)
qed

lemma projects_step:
  assumes "projects s r w pj" and "sound_step (pj_state pj) r w st" and "carried st (pj_state pj) = xs"
    and "pj_state pj' = perform st (pj_state pj)" and "pj_steps pj' = pj_steps pj @ [st]"
    and "pj_covered pj' @ pj_planned pj' = (pj_covered pj @ pj_planned pj) @ xs"
    and "distinct xs" and "set xs \<inter> set (pj_covered pj @ pj_planned pj) = {}" and "same_records s (pj_state pj')"
  shows "projects s r w pj'"
proof -
  let ?old = "pj_covered pj @ pj_planned pj"
  have p: "pj_state pj = perform_all (pj_steps pj) s" "sound_steps s r w (pj_steps pj)"
    "carried_by (pj_steps pj) s = ?old" "distinct ?old"
    using assms(1) unfolding projects_def by blast+
  have "distinct (pj_covered pj' @ pj_planned pj')"
    unfolding assms(6) using p(4) assms(7,8) by (subst distinct_append) blast
  then show ?thesis
    unfolding projects_def assms(5) replay_append p(1) [symmetric]
    using p(2,3) assms(2,3,4,6,9) by (simp only: simp_thms)
qed

lemma projects_try_item:
  assumes p: "projects s r w pj" and ids: "distinct (map i_id (ws_items s))"
    and k: "k < length (ws_items (pj_state pj))" and live: "\<not> i_archived (ws_items (pj_state pj) ! k)"
  shows "projects s r w (try_item r w fresh pj k)"
proof (cases rule: try_item_cases [of r w fresh pj k])
  case (move l c)
  let ?t = "pj_state pj" and ?x = "ws_items (pj_state pj) ! k"
  have new: "i_id ?x \<notin> set (pj_planned pj)" "i_id ?x \<notin> set (pj_covered pj)" "can_move_item r (i_id ?x) (i_locationId ?x)"
    using move(1) by (auto simp: open_item_def)
  note b = best_move_sound [OF move(2)]
  have "sound_item_step ?t r w (item_step ?x l c i)" for i
    using b destinations_storage [OF b(1)] k live new(3) nth_mem [OF k]
    unfolding sound_item_step_def item_step_def by (auto intro!: bexI [of _ ?x] bexI [of _ l])
  moreover have "distinct (map i_id (ws_items ?t))" by (rule projects_ids(1) [OF p ids])
  then have "perform (item_step ?x l c i) ?t = move_item k (l_id l) ?t" for i
    using put_item_position [OF _ k] by (simp add: perform_def item_step_def)
  moreover have "carried (item_step ?x l c i) t = [i_id ?x]" for i t by (simp add: carried_def item_step_def)
  moreover have "same_records s (move_item k (l_id l) ?t)"
    by (rule same_records_moved) (rule projects_same [OF p])
  ultimately show ?thesis
    using new unfolding move(3)
    by (intro projects_step [OF p, where xs = "[i_id ?x]"]) (simp_all add: sound_step_def)
qed (use p in simp)

lemma try_item_live:
  "map i_archivedAt (ws_items (pj_state (try_item r w fresh pj k))) = map i_archivedAt (ws_items (pj_state pj))"
  by (simp add: try_item_def Let_def archived_move_item split: option.split)

lemma projects_items:
  assumes "projects s r w pj" and "distinct (map i_id (ws_items s))"
    and "\<forall>k\<in>set ks. k < length (map i_archivedAt (ws_items (pj_state pj))) \<and>
      \<not> set_at (map i_archivedAt (ws_items (pj_state pj)) ! k)"
  shows "projects s r w (foldl (try_item r w fresh) pj ks)"
  using assms
proof (induction ks arbitrary: pj)
  case (Cons k ks)
  have "k < length (ws_items (pj_state pj))" "\<not> i_archived (ws_items (pj_state pj) ! k)" using Cons.prems(3) by auto
  from projects_try_item [OF Cons.prems(1,2) this] show ?case
    using Cons.IH [of "try_item r w fresh pj k"] Cons.prems(2,3) by (simp add: try_item_live del: length_map)
qed simp

lemma projects_passes:
  "projects s r w pj \<Longrightarrow> distinct (map i_id (ws_items s)) \<Longrightarrow> projects s r w (item_passes r w fresh pj)"
proof (induction r w fresh pj rule: item_passes.induct)
  case (1 r w fresh pj)
  have "projects s r w (item_pass r w fresh pj)"
    unfolding item_pass_def by (rule projects_items [OF 1(2,3)]) (auto simp: live_positions_def)
  with 1(1,3) show ?case by (subst item_passes.simps) (simp add: Let_def)
qed

section \<open>Containers\<close>

lemma rate_destination_sound:
  assumes "rate_destination s c w xs current d = Some b"
  shows "cc_destination b = d" and "l_id d \<notin> within_ids s (l_id c)" and "Some (l_id d) \<noteq> l_parentId c"
    and "\<forall>x\<in>set xs. hard_failure x d = None \<and> cs_hardFailure (score_candidate s x d w) = None" and "room_for s xs d"
proof -
  have d: "l_id d \<notin> within_ids s (l_id c) \<and> Some (l_id d) \<noteq> l_parentId c \<and> cc_destination b = d \<and>
      \<not> list_ex (\<lambda>c. cs_hardFailure c \<noteq> None) (map (\<lambda>x. score_candidate s x d w) xs)"
    using assms unfolding rate_destination_def Let_def by (auto split: if_splits)
  then show "cc_destination b = d" "l_id d \<notin> within_ids s (l_id c)" "Some (l_id d) \<noteq> l_parentId c" by blast+
  show "room_for s xs d"
    using assms unfolding rate_destination_def room_for_def Let_def by (auto split: if_splits option.splits)
  show "\<forall>x\<in>set xs. hard_failure x d = None \<and> cs_hardFailure (score_candidate s x d w) = None"
  proof
    fix x assume "x \<in> set xs"
    then have "cs_hardFailure (score_candidate s x d w) = None" using d by (force simp: list_ex_iff)
    then show "hard_failure x d = None \<and> cs_hardFailure (score_candidate s x d w) = None" using score_no_failure by blast
  qed
qed

lemma better_choice_cases: "better_choice b c = b \<or> better_choice b c = c"
  by (cases "(b, c)" rule: better_choice.cases) simp_all

lemma best_choice_rated:
  assumes "foldl (\<lambda>b d. better_choice b (f d)) start ds = Some b"
  shows "start = Some b \<or> (\<exists>d\<in>set ds. f d = Some b)"
  using assms
proof (induction ds arbitrary: start)
  case (Cons d ds)
  then have "better_choice start (f d) = Some b \<or> (\<exists>d\<in>set ds. f d = Some b)" by simp
  then show ?case using better_choice_cases [of start "f d"] by auto
qed simp

lemma container_step_sound:
  assumes "container_step s c ds w i = Some (covered, st)"
  obtains d where "d \<in> set ds" and "s_destinationId st = l_id d" and "l_parentId c = Some (s_sourceId st)"
    and "l_id d \<notin> within_ids s (l_id c)" and "l_id d \<noteq> s_sourceId st"
    and "s_type st = Location_step" and "s_completedAt st = None" and "s_itemId st = None"
    and "s_locationId st = Some (l_id c)" and "covered = map i_id (contained_items s (l_id c))"
    and "2 \<le> length (contained_items s (l_id c))" and "room_for s (contained_items s (l_id c)) d"
    and "\<forall>x\<in>set (contained_items s (l_id c)). hard_failure x d = None \<and> cs_hardFailure (score_candidate s x d w) = None"
proof -
  let ?xs = "contained_items s (l_id c)"
  let ?cur = "map (\<lambda>x. cs_score (score_candidate s x c w)) ?xs"
  obtain p where p: "l_parentId c = Some p" using assms by (cases "l_parentId c") (auto simp: container_step_def)
  obtain b where b: "foldl (\<lambda>b d. better_choice b (rate_destination s c w ?xs ?cur d)) None ds = Some b"
    and st: "covered = map i_id ?xs" "st =
      \<lparr>s_completedAt = None, s_destinationId = l_id (cc_destination b), s_explanation = cc_reasons b, s_id = i,
       s_itemId = None, s_locationId = Some (l_id c), s_quantity = None, s_score = rounded_score (cc_score b),
       s_sourceId = p, s_type = Location_step\<rparr>"
    using assms p by (auto simp: container_step_def Let_def split: if_splits option.splits)
  obtain d where d: "d \<in> set ds" "rate_destination s c w ?xs ?cur d = Some b" using best_choice_rated [OF b] by auto
  have "2 \<le> length ?xs" using assms p by (auto simp: container_step_def Let_def split: if_splits)
  note r = rate_destination_sound [OF d(2)]
  show thesis by (rule that [OF d(1)]) (use r st p \<open>2 \<le> length ?xs\<close> in auto)
qed

lemma try_container_cases:
  obtains (skip) "try_container r w fresh pj k = pj"
  | (move) covered st where
      "container_step (pj_state pj) (ws_locations (pj_state pj) ! k) (destinations (pj_state pj) r) w
         (new_step_id fresh (length (pj_steps pj))) = Some (covered, st)"
      and "set covered \<inter> set (pj_covered pj) = {}"
      and "try_container r w fresh pj k =
        pj\<lparr>pj_covered := pj_covered pj @ covered, pj_steps := pj_steps pj @ [st],
           pj_state := move_container k (s_destinationId st) (pj_state pj)\<rparr>"
proof (cases "container_step (pj_state pj) (ws_locations (pj_state pj) ! k) (destinations (pj_state pj) r) w
         (new_step_id fresh (length (pj_steps pj)))")
  case (Some cs)
  obtain covered st where cs: "cs = (covered, st)" by fastforce
  then show thesis using Some skip move
    by (cases "list_ex (\<lambda>i. i \<in> set (pj_covered pj)) covered") (auto simp: try_container_def Let_def list_ex_iff)
qed (use skip in \<open>simp add: try_container_def Let_def\<close>)

text \<open>While containers move, the links keep free of cycles.\<close>

definition containers_project :: "wstate \<Rightarrow> resolved_selection \<Rightarrow> plan_weights \<Rightarrow> nat list \<Rightarrow> projection \<Rightarrow> bool" where
  "containers_project s r w ks pj \<longleftrightarrow>
     projects s r w pj \<and> pj_planned pj = [] \<and> acyclic (child_rel (ws_locations (pj_state pj))) \<and>
     (\<forall>k\<in>set ks. ws_locations (pj_state pj) ! k = ws_locations s ! k)"

definition movable_position :: "wstate \<Rightarrow> resolved_selection \<Rightarrow> nat \<Rightarrow> bool" where
  "movable_position s r k \<longleftrightarrow>
     k < length (ws_locations s) \<and> is_movable_container (ws_locations s ! k) \<and>
     can_move_location r (l_id (ws_locations s ! k)) (l_parentId (ws_locations s ! k)) \<and>
     l_captureStatus (ws_locations s ! k) = Counted \<and> \<not> l_archived (ws_locations s ! k)"

lemma plan_containers_movable: "k \<in> set (plan_containers s r) \<Longrightarrow> movable_position s r k"
  by (auto simp: plan_containers_def Let_def movable_position_def)

lemma distinct_plan_containers: "distinct (plan_containers s r)"
  by (simp add: plan_containers_def Let_def)

lemma child_rel_move_container:
  assumes "k < length (ws_locations s)"
  shows "child_rel (ws_locations (move_container k p s)) \<subseteq>
    insert (p, l_id (ws_locations s ! k)) (child_rel (ws_locations s))"
proof -
  have "set (ws_locations (move_container k p s)) \<subseteq>
      insert ((ws_locations s ! k)\<lparr>l_parentId := Some p\<rparr>) (set (ws_locations s))"
    unfolding move_container_def by (simp add: set_update_subset_insert)
  then show ?thesis by (force simp: child_rel_def)
qed

lemma within_ids_rtrancl: "j \<in> within_ids s i \<longleftrightarrow> (i, j) \<in> (child_rel (ws_locations s))\<^sup>*"
  unfolding within_ids_def
  using descendants_of_iff [of j "ws_locations s" i] by (auto simp: rtrancl_eq_or_trancl)

lemma projects_try_container:
  assumes c: "containers_project s r w (k # ks) pj" and new: "k \<notin> set ks" and m: "movable_position s r k"
    and ids: "distinct (map i_id (ws_items s))" "distinct (map l_id (ws_locations s))"
  shows "containers_project s r w ks (try_container r w fresh pj k)"
proof (cases rule: try_container_cases [of r w fresh pj k])
  case skip
  then show ?thesis using c by (simp add: containers_project_def)
next
  case (move covered st)
  let ?t = "pj_state pj" and ?c = "ws_locations s ! k"
  have p: "projects s r w pj" and acyc: "acyclic (child_rel (ws_locations ?t))" and here: "ws_locations ?t ! k = ?c"
    and none: "pj_planned pj = []"
    using c by (auto simp: containers_project_def)
  have idt: "distinct (map i_id (ws_items ?t))" "distinct (map l_id (ws_locations ?t))"
    and "length (ws_locations ?t) = length (ws_locations s)"
    using projects_ids [OF p] ids by blast+
  then have k: "k < length (ws_locations ?t)" using m by (simp add: movable_position_def)
  obtain d where d: "d \<in> set (destinations ?t r)" "s_destinationId st = l_id d" "l_parentId ?c = Some (s_sourceId st)"
    "l_id d \<notin> within_ids ?t (l_id ?c)" "l_id d \<noteq> s_sourceId st" "s_type st = Location_step" "s_completedAt st = None"
    "s_itemId st = None" "s_locationId st = Some (l_id ?c)"
    and cov: "covered = map i_id (contained_items ?t (l_id ?c))" "2 \<le> length (contained_items ?t (l_id ?c))"
      "room_for ?t (contained_items ?t (l_id ?c)) d" "\<forall>x\<in>set (contained_items ?t (l_id ?c)).
         hard_failure x d = None \<and> cs_hardFailure (score_candidate ?t x d w) = None"
    using container_step_sound [OF move(1)] unfolding here by metis
  have "?c \<in> set (ws_locations ?t)" using nth_mem [OF k] here by simp
  then have sound: "sound_location_step ?t r w st"
    using d cov(2-4) destinations_storage [OF d(1)] m unfolding sound_location_step_def movable_position_def
    by (intro conjI bexI [of _ ?c] bexI [of _ d]) auto
  have step: "perform st ?t = move_container k (l_id d) ?t"
    using put_container_position [OF idt(2) k] d(2,8,9) by (simp add: perform_def here)
  have taken: "carried st ?t = covered" using d(8,9) cov(1) by (simp add: carried_def)
  have "distinct covered" using idt(1) by (simp add: cov(1) contained_items_def distinct_map_filter)
  moreover have "same_records s (move_container k (l_id d) ?t)"
    by (rule same_records_moved) (rule projects_same [OF p])
  ultimately have "projects s r w (try_container r w fresh pj k)"
    using none sound step taken move(2) unfolding move(3)
    by (intro projects_step [OF p, where xs = covered and st = st]) (simp_all add: sound_step_def d(2))
  moreover have "acyclic (child_rel (ws_locations (move_container k (l_id d) ?t)))"
    using acyclic_reparent [OF acyc _ child_rel_move_container [OF k]] d(4) by (simp add: here within_ids_rtrancl)
  moreover have "ws_locations (move_container k (l_id d) ?t) ! j = ws_locations s ! j" if "j \<in> set ks" for j
  proof -
    have "j \<noteq> k" using that new by blast
    then show ?thesis using that c by (simp add: move_container_def containers_project_def)
  qed
  ultimately show ?thesis using c unfolding containers_project_def move(3) by (simp add: d(2))
qed

lemma projects_containers:
  assumes "containers_project s r w ks pj" and "distinct ks" and "\<forall>k\<in>set ks. movable_position s r k"
    and "distinct (map i_id (ws_items s))" and "distinct (map l_id (ws_locations s))"
  shows "containers_project s r w [] (foldl (try_container r w fresh) pj ks)"
  using assms(1-3)
proof (induction ks arbitrary: pj)
  case (Cons k ks)
  have "containers_project s r w ks (try_container r w fresh pj k)"
    by (rule projects_try_container [OF Cons.prems(1) _ _ assms(4,5)]) (use Cons.prems(2,3) in simp_all)
  then show ?case using Cons.IH Cons.prems(2,3) by simp
qed simp

section \<open>The plan\<close>

lemma containers_projected:
  assumes "acyclic (child_rel (ws_locations s))"
    and "distinct (map i_id (ws_items s))" and "distinct (map l_id (ws_locations s))"
  shows "containers_project s r w [] (foldl (try_container r w fresh) (start_projection s) (plan_containers s r))"
proof (rule projects_containers [OF _ _ _ assms(2,3)])
  show "containers_project s r w (plan_containers s r) (start_projection s)"
    using assms(1) projects_start [of s r w] by (simp add: containers_project_def start_projection_def)
qed (simp_all add: distinct_plan_containers plan_containers_movable)

lemma plan_projects:
  assumes "acyclic (child_rel (ws_locations s))"
    and "distinct (map i_id (ws_items s))" and "distinct (map l_id (ws_locations s))"
  shows "projects s (resolve_plan_selection s sel) w (projected_plan s sel w fresh)"
  using containers_projected [OF assms] projects_passes [OF _ assms(2)]
  by (simp add: projected_plan_def Let_def containers_project_def)

text \<open>The passes stop only when no open item has a move worth its cost.\<close>

lemma fold_try_item_planned:
  "length (pj_planned pj) \<le> length (pj_planned (foldl (try_item r w fresh) pj ks))"
proof (induction ks arbitrary: pj)
  case (Cons k ks)
  have "length (pj_planned pj) \<le> length (pj_planned (try_item r w fresh pj k))"
    by (cases rule: try_item_cases [of r w fresh pj k]) simp_all
  with Cons.IH [of "try_item r w fresh pj k"] show ?case by simp
qed simp

lemma idle_pass:
  assumes "pj_planned (foldl (try_item r w fresh) pj ks) = pj_planned pj" and "k \<in> set ks"
  shows "foldl (try_item r w fresh) pj ks = pj"
    and "open_item r pj (ws_items (pj_state pj) ! k) \<Longrightarrow> best_move (pj_state pj) r w (ws_items (pj_state pj) ! k) = None"
proof -
  have "foldl (try_item r w fresh) pj ks = pj \<and> (\<forall>k\<in>set ks. try_item r w fresh pj k = pj)"
    using assms(1)
  proof (induction ks)
    case (Cons j js)
    have "try_item r w fresh pj j = pj"
    proof (cases rule: try_item_cases [of r w fresh pj j])
      case (move l c)
      then have "length (pj_planned pj) < length (pj_planned (try_item r w fresh pj j))" by simp
      also have "\<dots> \<le> length (pj_planned (foldl (try_item r w fresh) pj (j # js)))"
        using fold_try_item_planned by simp
      finally show ?thesis using Cons.prems by simp
    qed
    with Cons show ?case by simp
  qed simp
  then have stay: "foldl (try_item r w fresh) pj ks = pj" "try_item r w fresh pj k = pj" using assms(2) by blast+
  from stay(1) show "foldl (try_item r w fresh) pj ks = pj" .
  assume o: "open_item r pj (ws_items (pj_state pj) ! k)"
  show "best_move (pj_state pj) r w (ws_items (pj_state pj) ! k) = None"
  proof (rule ccontr)
    assume "best_move (pj_state pj) r w (ws_items (pj_state pj) ! k) \<noteq> None"
    then have "pj_planned (try_item r w fresh pj k) \<noteq> pj_planned pj"
      using o by (auto simp: try_item_def Let_def)
    with stay(2) show False by simp
  qed
qed

lemma passes_idle:
  assumes "k < length (ws_items (pj_state (item_passes r w fresh pj)))"
    and "\<not> i_archived (ws_items (pj_state (item_passes r w fresh pj)) ! k)"
    and "open_item r (item_passes r w fresh pj) (ws_items (pj_state (item_passes r w fresh pj)) ! k)"
  shows "best_move (pj_state (item_passes r w fresh pj)) r w (ws_items (pj_state (item_passes r w fresh pj)) ! k) = None"
  using assms
proof (induction r w fresh pj rule: item_passes.induct)
  case (1 r w fresh pj)
  show ?case
  proof (cases "pj_planned (item_pass r w fresh pj) = pj_planned pj")
    case False
    then have eq: "item_passes r w fresh pj = item_passes r w fresh (item_pass r w fresh pj)"
      by (subst item_passes.simps) (simp add: Let_def)
    show ?thesis unfolding eq by (rule 1(1) [OF refl False]) (use 1(2-4) in \<open>simp_all only: eq not_False_eq_True\<close>)
  next
    case True
    then have eq: "item_passes r w fresh pj = item_pass r w fresh pj" by (subst item_passes.simps) (simp add: Let_def)
    have stop: "pj_planned (foldl (try_item r w fresh) pj (live_positions (pj_state pj))) = pj_planned pj"
      using True by (simp add: item_pass_def)
    have pass: "item_pass r w fresh pj = pj"
    proof (cases "live_positions (pj_state pj)")
      case (Cons j js)
      then show ?thesis unfolding item_pass_def using idle_pass(1) [OF stop, of j] by simp
    qed (simp add: item_pass_def)
    have "k \<in> set (live_positions (pj_state pj))" using 1(2,3) by (simp add: eq pass live_positions_def)
    then show ?thesis using idle_pass(2) [OF stop] 1(4) by (simp add: eq pass)
  qed
qed

lemma passes_locations: "ws_locations (pj_state (item_passes r w fresh pj)) = ws_locations (pj_state pj)"
proof -
  have fold: "ws_locations (pj_state (foldl (try_item r w fresh) pj ks)) = ws_locations (pj_state pj)" for r w fresh pj ks
  proof (induction ks arbitrary: pj)
    case (Cons k ks)
    have "ws_locations (pj_state (try_item r w fresh pj k)) = ws_locations (pj_state pj)"
      by (cases rule: try_item_cases [of r w fresh pj k]) (simp_all add: move_item_def)
    with Cons.IH show ?case by simp
  qed simp
  show ?thesis
  proof (induction r w fresh pj rule: item_passes.induct)
    case (1 r w fresh pj)
    then show ?case using fold by (subst item_passes.simps) (simp add: Let_def item_pass_def)
  qed
qed

lemma plan_acyclic:
  assumes "acyclic (child_rel (ws_locations s))"
    and "distinct (map i_id (ws_items s))" and "distinct (map l_id (ws_locations s))"
  shows "acyclic (child_rel (ws_locations (pj_state (projected_plan s sel w fresh))))"
  using containers_projected [OF assms] by (simp add: projected_plan_def Let_def passes_locations containers_project_def)

end
