(* ===== verification/Sample_Planner.thy ===== *)
theory Sample_Planner
  imports Planner_Facts Sample
begin

text \<open>Jam that must not get warm lies in a warm attic; the planner takes it to the pantry.\<close>

definition attic :: location where
  "attic = (sample_location ''attic'' ''A'' Shelf None)
     \<lparr>l_captureStatus := Counted, l_conditions := plain_conditions\<lparr>c_temperature := Warm\<rparr>\<rparr>"

definition pantry :: location where
  "pantry = (sample_location ''pantry'' ''P'' Shelf None)\<lparr>l_captureStatus := Counted\<rparr>"

definition warm_jam :: item where
  "warm_jam = (sample_item ''jam'' ''Jam'' ''attic'' (Fin 5))
     \<lparr>i_constraints := \<lparr>k_avoidHumidity = False, k_avoidWarmth = True, k_foodOnly = False,
        k_keepTogether = None, k_requiredTags = []\<rparr>\<rparr>"

definition attic_state :: wstate where
  "attic_state = sample_state\<lparr>ws_items := [warm_jam], ws_locations := [attic, pantry]\<rparr>"

lemma round_double_numeral [simp]:
  "(numeral n :: int) \<le> 2 ^ 53 \<Longrightarrow> round_double (numeral n) = Fin (numeral n)"
  using round_double_of_int [of "numeral n"] by simp

lemma attic_state_sel [simp]: "ws_items attic_state = [warm_jam]" "ws_locations attic_state = [attic, pantry]"
  by (simp_all add: attic_state_def)

lemma attic_sel [simp]:
  "l_id attic = ''attic''" "l_id pantry = ''pantry''" "l_parentId attic = None" "l_parentId pantry = None"
  "l_archivedAt attic = None" "l_archivedAt pantry = None" "l_kind attic = Shelf" "l_kind pantry = Shelf"
  "l_captureStatus attic = Counted" "l_captureStatus pantry = Counted" "l_dimensions pantry = None"
  "c_temperature (l_conditions attic) = Warm" "l_conditions pantry = plain_conditions" "l_tags pantry = []"
  "i_id warm_jam = ''jam''" "i_locationId warm_jam = ''attic''" "i_archivedAt warm_jam = None"
  "i_frequency warm_jam = Weekly" "k_avoidWarmth (i_constraints warm_jam)" "\<not> k_avoidHumidity (i_constraints warm_jam)"
  "\<not> k_foodOnly (i_constraints warm_jam)" "k_requiredTags (i_constraints warm_jam) = []"
  "k_keepTogether (i_constraints warm_jam) = None" "i_category warm_jam = ''food''"
  by (simp_all add: attic_def pantry_def sample_location_def warm_jam_def sample_item_def)

lemma attic_scores:
  "cs_hardFailure (score_candidate attic_state warm_jam attic w) \<noteq> None"
  "cs_score (score_candidate attic_state warm_jam attic w) = NegInf"
  "cs_hardFailure (score_candidate attic_state warm_jam pantry default_plan_weights) = None"
proof -
  show "cs_hardFailure (score_candidate attic_state warm_jam attic w) \<noteq> None"
    "cs_score (score_candidate attic_state warm_jam attic w) = NegInf"
    by (simp_all add: score_candidate_def hard_failure_def rejected_def)
  have "ancestors_of [attic, pantry] ''attic'' = [''attic'']" "ancestors_of [attic, pantry] ''pantry'' = [''pantry'']"
    by (simp_all add: ancestors_of_def ancestor_walk.simps)
  then have "move_distance attic_state ''attic'' ''pantry'' = 2" by (simp add: move_distance_def)
  moreover have "location_depth attic_state ''pantry'' = 0" by (simp add: location_depth_def depth_walk.simps)
  ultimately show "cs_hardFailure (score_candidate attic_state warm_jam pantry default_plan_weights) = None"
    by (simp add: score_candidate_def hard_failure_def suitability_tally_def grouping_tally_def nearby_peers_def
        access_tally_def capacity_tally_def volume_def move_tally_def default_plan_weights_def plain_conditions_def
        js_mul_def js_sub_def Let_def)
qed

lemma resolve_nothing:
  "r_locationIds (resolve_plan_selection s None) = l_id ` set (live_locations s)"
  "r_pinnedItemIds (resolve_plan_selection s None) = {}" "r_pinnedLocationIds (resolve_plan_selection s None) = {}"
proof -
  have "\<not> list_ex (\<lambda>i. False) xs" for xs :: "string list" by (simp add: list_ex_iff)
  then show "r_locationIds (resolve_plan_selection s None) = l_id ` set (live_locations s)"
    "r_pinnedItemIds (resolve_plan_selection s None) = {}" "r_pinnedLocationIds (resolve_plan_selection s None) = {}"
    by (simp_all add: resolve_plan_selection_def empty_selection_def Let_def)
qed

definition attic_areas :: resolved_selection where
  "attic_areas = resolve_plan_selection attic_state None"

lemma attic_areas_sel [simp]:
  "r_locationIds attic_areas = {''attic'', ''pantry''}" "r_pinnedItemIds attic_areas = {}"
  "r_pinnedLocationIds attic_areas = {}"
proof -
  have "live_locations attic_state = [attic, pantry]" by (simp add: live_locations_def)
  then show "r_locationIds attic_areas = {''attic'', ''pantry''}"
    using resolve_nothing(1) [of attic_state] by (simp add: attic_areas_def)
qed (simp_all add: attic_areas_def resolve_nothing)

lemma attic_destinations: "destinations attic_state attic_areas = [attic, pantry]"
  by (simp add: destinations_def can_receive_def is_storage_location_def capture_counted_def)

lemma attic_best:
  "best_move attic_state attic_areas default_plan_weights warm_jam =
     Some (pantry, score_candidate attic_state warm_jam pantry default_plan_weights)"
proof -
  let ?c = "score_candidate attic_state warm_jam pantry default_plan_weights"
  have "ranked_destinations attic_state attic_areas default_plan_weights warm_jam = [(pantry, ?c)]"
    using attic_scores(3) by (simp add: ranked_destinations_def attic_destinations)
  moreover have "is_finite (cs_score ?c)" using score_no_failure [OF attic_scores(3)] by simp
  then have "\<not> js_le (cs_score ?c) (js_add NegInf (Fin 2))" by (cases "cs_score ?c") (simp_all add: js_le_def)
  ultimately show ?thesis by (simp add: best_move_def attic_scores(2)) (simp add: default_plan_weights_def)
qed

lemma attic_plan:
  "pj_steps (projected_plan attic_state None default_plan_weights fresh) =
     [item_step warm_jam pantry (score_candidate attic_state warm_jam pantry default_plan_weights) (new_step_id fresh 0)]"
proof -
  let ?w = default_plan_weights and ?start = "start_projection attic_state"
  let ?c = "score_candidate attic_state warm_jam pantry default_plan_weights"
  define pj where "pj = ?start\<lparr>pj_steps := [item_step warm_jam pantry ?c (new_step_id fresh 0)], pj_planned := [''jam''],
      pj_state := move_item 0 ''pantry'' attic_state\<rparr>"
  have none: "plan_containers attic_state attic_areas = []"
    by (simp add: plan_containers_def is_movable_container_def Let_def)
  have "live_positions attic_state = [0]" by (simp add: live_positions_def)
  then have first: "item_pass attic_areas ?w fresh ?start = pj"
    using attic_best
    by (simp add: item_pass_def try_item_def open_item_def can_move_item_def start_projection_def pj_def)
  have "i_id (ws_items (pj_state pj) ! 0) = ''jam''" by (simp add: pj_def move_item_def)
  then have "\<not> open_item attic_areas pj (ws_items (pj_state pj) ! 0)" by (simp add: open_item_def pj_def)
  then have "try_item attic_areas ?w fresh pj 0 = pj" by (simp add: try_item_def Let_def)
  moreover have "live_positions (pj_state pj) = [0]" by (simp add: live_positions_def pj_def move_item_def)
  ultimately have "item_pass attic_areas ?w fresh pj = pj" by (simp add: item_pass_def)
  then have "item_passes attic_areas ?w fresh pj = pj" by (subst item_passes.simps) simp
  moreover have "pj_planned pj \<noteq> pj_planned ?start" by (simp add: pj_def start_projection_def)
  ultimately have "item_passes attic_areas ?w fresh ?start = pj"
    by (subst item_passes.simps) (simp add: first Let_def)
  then show ?thesis by (simp add: projected_plan_def none flip: attic_areas_def) (simp add: pj_def)
qed

lemma attic_generated:
  "\<exists>p. generate_plan attic_state (Some ''Tidy'') None None fresh ts date = Inr p \<and> map s_destinationId (p_steps p) = [''pantry'']"
  using attic_plan [of fresh] by (simp add: generate_plan_def plan_selection_issue_def Let_def item_step_def)

lemma attic_acyclic: "acyclic (child_rel (ws_locations attic_state))"
proof -
  have "child_rel (ws_locations attic_state) = {}" by (auto simp: child_rel_def)
  then show ?thesis by (simp add: acyclic_def)
qed

text \<open>Jam without constraints in the pantry stays there.\<close>

definition cool_jam :: item where
  "cool_jam = sample_item ''jam'' ''Jam'' ''pantry'' (Fin 5)"

definition cool_state :: wstate where
  "cool_state = sample_state\<lparr>ws_items := [cool_jam], ws_locations := [attic, pantry]\<rparr>"

lemma cool_sel [simp]:
  "ws_items cool_state = [cool_jam]" "ws_locations cool_state = [attic, pantry]" "l_dimensions attic = None"
  "l_tags attic = []" "i_id cool_jam = ''jam''" "i_locationId cool_jam = ''pantry''" "i_archivedAt cool_jam = None"
  "i_frequency cool_jam = Weekly" "\<not> k_avoidWarmth (i_constraints cool_jam)" "\<not> k_avoidHumidity (i_constraints cool_jam)"
  "\<not> k_foodOnly (i_constraints cool_jam)" "k_requiredTags (i_constraints cool_jam) = []"
  by (simp_all add: cool_state_def cool_jam_def sample_item_def attic_def sample_location_def)

lemma cool_scores:
  "cs_hardFailure (score_candidate cool_state cool_jam attic default_plan_weights) = None"
  "cs_score (score_candidate cool_state cool_jam attic default_plan_weights) = Fin 21"
  "cs_score (score_candidate cool_state cool_jam pantry default_plan_weights) = Fin 31"
proof -
  have "ancestors_of [attic, pantry] ''attic'' = [''attic'']" "ancestors_of [attic, pantry] ''pantry'' = [''pantry'']"
    by (simp_all add: ancestors_of_def ancestor_walk.simps)
  then have "move_distance cool_state ''pantry'' ''attic'' = 2" "move_distance cool_state ''pantry'' ''pantry'' = 0"
    by (simp_all add: move_distance_def index_in_def)
  moreover have "location_depth cool_state ''pantry'' = 0" "location_depth cool_state ''attic'' = 0"
    by (simp_all add: location_depth_def depth_walk.simps)
  ultimately show "cs_hardFailure (score_candidate cool_state cool_jam attic default_plan_weights) = None"
    "cs_score (score_candidate cool_state cool_jam attic default_plan_weights) = Fin 21"
    "cs_score (score_candidate cool_state cool_jam pantry default_plan_weights) = Fin 31"
    by (simp_all add: score_candidate_def hard_failure_def suitability_tally_def grouping_tally_def nearby_peers_def
        access_tally_def capacity_tally_def volume_def move_tally_def default_plan_weights_def plain_conditions_def
        js_mul_def js_sub_def signed_zero_def Let_def)
qed

definition cool_areas :: resolved_selection where
  "cool_areas = resolve_plan_selection cool_state None"

lemma cool_areas_sel [simp]:
  "r_locationIds cool_areas = {''attic'', ''pantry''}" "r_pinnedItemIds cool_areas = {}" "r_pinnedLocationIds cool_areas = {}"
proof -
  have "live_locations cool_state = [attic, pantry]" by (simp add: live_locations_def)
  then show "r_locationIds cool_areas = {''attic'', ''pantry''}"
    using resolve_nothing(1) [of cool_state] by (simp add: cool_areas_def)
qed (simp_all add: cool_areas_def resolve_nothing)

lemma cool_destinations: "destinations cool_state cool_areas = [attic, pantry]"
  by (simp add: destinations_def can_receive_def is_storage_location_def capture_counted_def)

lemma cool_plan: "projected_plan cool_state None default_plan_weights fresh = start_projection cool_state"
proof -
  let ?w = default_plan_weights and ?start = "start_projection cool_state"
  have none: "plan_containers cool_state cool_areas = []"
    by (simp add: plan_containers_def is_movable_container_def Let_def)
  have "ranked_destinations cool_state cool_areas ?w cool_jam = [(attic, score_candidate cool_state cool_jam attic ?w)]"
    using cool_scores(1) by (simp add: ranked_destinations_def cool_destinations)
  moreover have "js_le (Fin 21) (js_add (Fin 31) (pw_moveCost ?w))" by (simp add: js_le_def default_plan_weights_def)
  ultimately have "best_move cool_state cool_areas ?w cool_jam = None" by (simp add: best_move_def cool_scores)
  then have "item_pass cool_areas ?w fresh ?start = ?start"
    by (simp add: item_pass_def live_positions_def start_projection_def try_item_def)
  then have "item_passes cool_areas ?w fresh ?start = ?start" by (subst item_passes.simps) simp
  then show ?thesis by (simp add: projected_plan_def none flip: cool_areas_def)
qed

end
