(* ===== verification/Planner_Properties.thy ===== *)
theory Planner_Properties
  imports Sample_Planner
begin

text \<open>
  The properties of generated plans: the steps can be carried out in order, and when the planner
  stops no item is left that would profit from a move.
\<close>

text \<open>
  C31: the steps of a generated plan can be carried out in order: in the state that the steps
  before it leave, each one finds what it moves at the place it names and moves a live, movable
  item in its whole quantity, or a counted movable container with at least two live items below
  it, to another storage space that may receive it and does not lie inside the container.
  Nothing that is carried, in a container or alone, breaks a hard constraint at its destination
  or fails its scoring, and a measured destination has room for all that a container brings.
  Over the whole plan no item is carried twice, alone or with its container, and once all steps
  are carried out the hierarchy still has no cycle.
\<close>

theorem generated_steps_are_sound:
  assumes "generate_plan s name weights sel fresh ts date = Inr p" and "acyclic (child_rel (ws_locations s))"
    and "distinct (map i_id (ws_items s))" and "distinct (map l_id (ws_locations s))"
  shows "p_status p = Active \<and> sound_steps s (resolve_plan_selection s sel) (p_weights p) (p_steps p) \<and>
    distinct (carried_by (p_steps p) s) \<and> acyclic (child_rel (ws_locations (perform_all (p_steps p) s)))"
proof -
  have p: "p_status p = Active" "p_steps p = pj_steps (projected_plan s sel (p_weights p) fresh)"
    using assms(1) by (auto simp: generate_plan_def Let_def split: option.splits)
  have "projects s (resolve_plan_selection s sel) (p_weights p) (projected_plan s sel (p_weights p) fresh)"
    by (rule plan_projects [OF assms(2-4)])
  then show ?thesis using p plan_acyclic [OF assms(2-4)] unfolding projects_def by metis
qed

theorem generated_steps_are_sound_witness:
  "\<exists>p st. generate_plan attic_state (Some ''Tidy'') None None (\<lambda>k. ''u'') ''t1'' ''d'' = Inr p \<and> p_steps p = [st] \<and>
     s_destinationId st = ''pantry'' \<and> sound_step attic_state attic_areas (p_weights p) st"
proof -
  from attic_generated [of "\<lambda>k. ''u''" "''t1''" "''d''"] obtain p where
    p: "generate_plan attic_state (Some ''Tidy'') None None (\<lambda>k. ''u'') ''t1'' ''d'' = Inr p"
    "map s_destinationId (p_steps p) = [''pantry'']" by (elim exE conjE)
  from p(2) obtain st where st: "p_steps p = [st]" "s_destinationId st = ''pantry''" by (cases "p_steps p") auto
  from generated_steps_are_sound [OF p(1) attic_acyclic] have "sound_step attic_state attic_areas (p_weights p) st"
    by (simp add: st attic_areas_def)
  with p(1) st show ?thesis by (intro exI conjI)
qed

text \<open>
  C32: the planner stops only when nothing is left to gain: in the state it projects, no live
  item that may be moved, is not planned yet and is not covered by a container move has a destination without a hard failure whose score exceeds that
  of its present place by more than the cost of a move.
\<close>

theorem planner_leaves_no_profitable_move:
  fixes s sel w fresh
  defines "r \<equiv> resolve_plan_selection s sel" and "pj \<equiv> projected_plan s sel w fresh"
  assumes "k < length (ws_items (pj_state pj))" and "x = ws_items (pj_state pj) ! k" and "\<not> i_archived x"
    and "open_item r pj x" and "List.find (\<lambda>l. l_id l = i_locationId x) (ws_locations (pj_state pj)) = Some here"
    and "l \<in> set (destinations (pj_state pj) r)" and "l_id l \<noteq> i_locationId x"
    and "cs_hardFailure (score_candidate (pj_state pj) x l w) = None"
  shows "js_le (cs_score (score_candidate (pj_state pj) x l w))
    (js_add (cs_score (score_candidate (pj_state pj) x here w)) (pw_moveCost w))"
proof -
  have "best_move (pj_state pj) r w x = None"
    using assms(3-6) unfolding assms(4) pj_def r_def projected_plan_def Let_def by (intro passes_idle)
  then show ?thesis by (rule best_move_None [OF _ assms(7-10)])
qed

theorem planner_leaves_no_profitable_move_witness:
  "js_le (cs_score (score_candidate cool_state cool_jam attic default_plan_weights))
     (js_add (cs_score (score_candidate cool_state cool_jam pantry default_plan_weights)) (pw_moveCost default_plan_weights))"
proof -
  have "open_item cool_areas (start_projection cool_state) cool_jam"
    by (simp add: open_item_def can_move_item_def start_projection_def)
  then show ?thesis
    using planner_leaves_no_profitable_move [of 0 cool_state None default_plan_weights "\<lambda>k. ''u''" cool_jam pantry attic]
      cool_destinations cool_scores(1)
    by (simp add: cool_plan flip: cool_areas_def) (simp add: start_projection_def)
qed

end
