(* ===== verification/Sample_History.thy ===== *)
theory Sample_History
  imports History_Facts Sample
begin

text \<open>A workspace that was renamed once, and the command that undoes the renaming.\<close>

definition renaming :: activity where
  "renaming =
     \<lparr>a_actorId = ''a'', a_commandId = ''c0'', a_id = ''h'', a_label = ''L'',
      a_patches = [mk_patch Target_workspace ''w'' ''name'' (Some (JStr ''H'')) (Some (JStr ''N''))],
      a_status = Applied, a_subjectIds = [], a_timestamp = ''t0'', a_undoneAt = None\<rparr>"

definition renamed_state :: wstate where
  "renamed_state =
     \<lparr>ws_activities = [renaming], ws_audit = [], ws_commandReceipts = [], ws_items = [],
      ws_locations = [], ws_plans = [], ws_schemaVersion = 2,
      ws_workspace = \<lparr>w_createdAt = ''t0'', w_id = ''w'', w_name = ''N'', w_revision = Fin 7, w_updatedAt = ''t0''\<rparr>\<rparr>"

definition restored_state :: wstate where
  "restored_state = renamed_state
     \<lparr>ws_activities := [renaming\<lparr>a_status := Undone, a_undoneAt := Some ''t1''\<rparr>],
      ws_workspace := (ws_workspace renamed_state)\<lparr>w_name := ''H''\<rparr>\<rparr>"

abbreviation undo_renaming :: envelope where
  "undo_renaming \<equiv> sample_envelope (History_undo ''h'')"

lemma renamed_issues: "validate_snapshot (json_of_state renamed_state) = Some []"
  by code_simp

lemma restored_issues: "validate_snapshot (json_of_state restored_state) = Some []"
  by code_simp

lemma renaming_replayed: "replay_activity Undoing ''c1'' ''t1'' renamed_state renaming = Inr restored_state"
  by code_simp

lemma undo_accepted:
  "\<exists>r. apply_command (\<lambda>_. True) renamed_state undo_renaming = Inr r \<and> w_name (ws_workspace (cr_state r)) = ''H''"
proof -
  let ?e = "normalize_envelope undo_renaming"
  have e: "e_command ?e = History_undo ''h''" "e_id ?e = ''c1''" "e_timestamp ?e = ''t1''" "e_expectations ?e = []"
    "e_id undo_renaming = ''c1''"
    by (simp_all add: normalize_envelope_def sample_envelope_def)
  have found: "List.find (\<lambda>a. a_id a = ''h'') (ws_activities renamed_state) = Some renaming"
    by (simp add: renamed_state_def renaming_def)
  have "\<exists>r. apply_history_command renamed_state ?e = Inr r \<and> w_name (ws_workspace (cr_state r)) = ''H''"
    by (simp add: apply_history_command_def e found apply_history_action_def Let_def state_issues_def renamed_issues
        restored_issues renaming_replayed)
      (simp add: restored_state_def bump_revision_def)
  moreover have "validate_envelope (\<lambda>_. True) ?e = Inr ()" "check_revision renamed_state ?e = Inr ()"
    by (simp_all add: validate_envelope_def check_revision_def normalize_envelope_def sample_envelope_def blank_def js_trim_def
        is_space_def is_safe_integer_def max_safe_def js_le_def renamed_state_def)
  moreover have "e_workspaceId undo_renaming = w_id (ws_workspace renamed_state)" "is_history_command (History_undo ''h'')"
    "e_workspaceId ?e = w_id (ws_workspace renamed_state)"
    by (simp_all add: sample_envelope_def renamed_state_def normalize_envelope_def)
  ultimately show ?thesis using e by (simp add: apply_command_def Let_def)
qed

end
