(* ===== verification/Ancestors.thy ===== *)
theory Ancestors
  imports Preserve_Update Preserve_Hierarchy
begin

text \<open>
  On a well-formed hierarchy the walk towards the root (\<open>affectedLocationIds\<close> of
  \<open>src/domain/commands.ts\<close>, \<open>ancestry\<close> of \<open>src/domain/plan-selection.ts\<close>) visits exactly the
  locations that contain the given one, each of them once.
\<close>

lemma parent_unique:
  assumes "distinct (map l_id ls)" and "l \<in> set ls" and "(j, l_id l) \<in> child_rel ls"
  shows "l_parentId l = Some j"
  using assms by (auto simp: child_rel_def distinct_map dest: inj_onD)

lemma above_step:
  assumes "distinct (map l_id ls)" and "l \<in> set ls" and "l_parentId l = Some p"
  shows "(j, l_id l) \<in> (child_rel ls)\<^sup>* \<longleftrightarrow> j = l_id l \<or> (j, p) \<in> (child_rel ls)\<^sup>*"
proof
  assume "(j, l_id l) \<in> (child_rel ls)\<^sup>*"
  then show "j = l_id l \<or> (j, p) \<in> (child_rel ls)\<^sup>*"
  proof (cases rule: rtranclE)
    case (step k)
    have "k = p" using parent_unique [OF assms(1,2) step(2)] assms(3) by simp
    with step(1) show ?thesis by simp
  qed simp
next
  have "(p, l_id l) \<in> child_rel ls" using assms by (auto simp: child_rel_def)
  then show "j = l_id l \<or> (j, p) \<in> (child_rel ls)\<^sup>* \<Longrightarrow> (j, l_id l) \<in> (child_rel ls)\<^sup>*"
    by (blast intro: rtrancl_into_rtrancl)
qed

lemma above_root:
  assumes "distinct (map l_id ls)" and "l \<in> set ls" and "l_parentId l = None"
  shows "(j, l_id l) \<in> (child_rel ls)\<^sup>* \<longleftrightarrow> j = l_id l"
  using parent_unique [OF assms(1,2)] assms(3) by (auto elim: rtranclE)

lemma ancestor_walk_exact:
  assumes "hierarchy_ok ls" and "i \<in> l_id ` set ls" and "\<forall>j. (j, i) \<in> (child_rel ls)\<^sup>* \<longrightarrow> j \<notin> seen"
  shows "set (ancestor_walk ls seen (Some i)) = {j. (j, i) \<in> (child_rel ls)\<^sup>*} \<and>
    distinct (ancestor_walk ls seen (Some i))"
  using assms
proof (induction ls seen "Some i" arbitrary: i rule: ancestor_walk.induct)
  case (1 ls seen i)
  from 1(2) have ok: "distinct (map l_id ls)" "acyclic (child_rel ls)" "\<forall>l\<in>set ls. parent_known ls l"
    "\<forall>l\<in>set ls. \<not> blank (l_id l)" by (auto simp: hierarchy_ok_def)
  from 1(3) obtain l where l: "l \<in> set ls" "l_id l = i" by blast
  with ok(1) have find: "List.find (\<lambda>m. l_id m = i) ls = Some l" by (auto intro: find_key_unique)
  have new: "i \<notin> seen" using 1(4) by blast
  show ?case
  proof (cases "l_parentId l")
    case None
    then show ?thesis using above_root [OF ok(1) l(1) None] find new l
      by (subst (1 2) ancestor_walk.simps) (simp add: ancestor_walk.simps [of _ _ None])
  next
    case (Some p)
    from ok(3) l(1) Some have p: "p \<in> l_id ` set ls" by (auto simp: parent_known_def)
    with ok(4) have set: "set_at (l_parentId l)" using Some by auto
    have "(p, i) \<in> child_rel ls" using l Some by (auto simp: child_rel_def)
    with ok(2) have "(i, p) \<notin> (child_rel ls)\<^sup>*" by (auto simp: acyclic_def dest: rtrancl_into_trancl1)
    moreover have "j \<notin> seen" if "(j, p) \<in> (child_rel ls)\<^sup>*" for j
      using 1(4) rtrancl_into_rtrancl [OF that \<open>(p, i) \<in> child_rel ls\<close>] by blast
    ultimately have "set (ancestor_walk ls (insert i seen) (Some p)) = {j. (j, p) \<in> (child_rel ls)\<^sup>*} \<and>
      distinct (ancestor_walk ls (insert i seen) (Some p))"
      by (intro 1(1) [OF refl find new _ 1(2) p]) (use set Some in auto)
    then show ?thesis
      using above_step [OF ok(1) l(1) Some] find new l set Some \<open>(i, p) \<notin> (child_rel ls)\<^sup>*\<close>
      by (subst (1 2) ancestor_walk.simps) auto
  qed
qed

lemma ancestors_of_exact:
  assumes "hierarchy_ok ls" and "i \<in> l_id ` set ls"
  shows "set (ancestors_of ls i) = {j. (j, i) \<in> (child_rel ls)\<^sup>*}" and "distinct (ancestors_of ls i)"
  using ancestor_walk_exact [OF assms, of "{}"] by (simp_all add: ancestors_of_def)

text \<open>The subtree of a deletion in terms of the parent relation.\<close>

lemma subtree_rtrancl: "j \<in> subtree ls i \<longleftrightarrow> (i, j) \<in> (child_rel ls)\<^sup>*"
  by (auto simp: subtree_def descendants_of_iff rtrancl_eq_or_trancl)

section \<open>Invalidated plans and written paths\<close>

lemma invalidation_map:
  assumes d: "distinct (map p_id (ws_plans s))"
  shows "apply_patches s (plan_invalidation_patches s items locs) =
    Inr (s\<lparr>ws_plans := map (\<lambda>p. if plan_affected s items locs p then p\<lparr>p_status := Discarded\<rparr> else p) (ws_plans s)\<rparr>)"
proof -
  have only: "apply_patches s (map discard_patch Q) =
      and_then (fold_result patch_plans (ws_plans s) (map discard_patch Q)) (\<lambda>ps. Inr (s\<lparr>ws_plans := ps\<rparr>))" for Q s
  proof (induction Q arbitrary: s)
    case (Cons q Q)
    then show ?case
      by (cases "patch_plans (ws_plans s) (discard_patch q)") (simp_all add: apply_patches_Cons discard_patch_def)
  qed simp
  let ?A = "{p \<in> set (ws_plans s). plan_affected s items locs p}"
  have "p_id p \<in> p_id ` ?A \<longleftrightarrow> plan_affected s items locs p" if "p \<in> set (ws_plans s)" for p
    using that d by (auto simp: distinct_map dest: inj_onD)
  then have "discard_all (p_id ` ?A) (ws_plans s) =
      map (\<lambda>p. if plan_affected s items locs p then p\<lparr>p_status := Discarded\<rparr> else p) (ws_plans s)"
    by (auto simp: discard_all_def)
  then show ?thesis using invalidation_fold [OF d, of items locs] only
    by (simp add: plan_invalidation_patches_def)
qed

lemma write_read_path:
  assumes "write_path m path (Some v) = Inr j"
  shows "read_path path (Some j) = Inr (Some v) \<and> (\<forall>k. k \<noteq> head_of path \<longrightarrow> jget k j = map_of m k)"
proof -
  from assms obtain ks m' where ks: "path_keys path = Some ks" and m: "write_keys ks (Some v) m = Some m'"
    and j: "j = JObj m'" by (auto simp: write_path_def split: option.splits)
  have "path \<noteq> []" using ks by (auto simp: path_keys_def)
  then have "read_path path (Some j) = Inr (Some v)"
    using read_write_keys [OF m] ks by (simp add: read_path_def j)
  moreover obtain k ks' where "ks = k # ks'" using m by (cases ks) auto
  ultimately show ?thesis using write_keys_other m ks j by (auto simp: head_of_def)
qed

section \<open>Archived subtrees\<close>

lemma archived_subtree:
  assumes h: "location_archive s ts i (Some (JBool True)) = Inr c" and t: "apply_patches s (ch_patches c) = Inr t"
    and wf: "wf_state s" and ts: "ts \<noteq> []"
  shows "\<forall>l\<in>set (ws_locations t). (i, l_id l) \<in> (child_rel (ws_locations s))\<^sup>* \<longrightarrow> l_archived l"
    and "\<forall>x\<in>set (ws_items t). (i, i_locationId x) \<in> (child_rel (ws_locations s))\<^sup>* \<longrightarrow> i_archived x"
    and "ws_items t = ws_items s"
proof -
  let ?ls = "ws_locations s"
  from h t wf obtain x y R where x: "find_location s i = Some x" and y: "l_id y = i" "l_archivedAt y = Some ts"
    and locs: "ws_locations t = reopen_all R ts (set_location i (\<lambda>_. y) ?ls)" and items: "ws_items t = ws_items s"
    by (rule location_archive_effect) simp
  have none: "\<not> list_ex live (descendants_of ?ls i)"
    and empty: "\<not> list_ex (\<lambda>z. i_locationId z = i \<and> \<not> i_archived z) (ws_items s)"
    by (rule location_archive_accepted [OF h]; use x find_locationD [OF x] in simp)+
  show "\<forall>l\<in>set (ws_locations t). (i, l_id l) \<in> (child_rel ?ls)\<^sup>* \<longrightarrow> l_archived l"
  proof (intro ballI impI)
    fix l assume l: "l \<in> set (ws_locations t)" "(i, l_id l) \<in> (child_rel ?ls)\<^sup>*"
    from l(1) obtain m where m: "m \<in> set ?ls" "l_id l = l_id m" "l_archived l = l_archived (if l_id m = i then y else m)"
      using wf_stateD(5) [OF wf] y(1) by (auto simp: locs reopen_all_def set_location_map split: if_splits)
    show "l_archived l"
    proof (cases "l_id m = i")
      case True
      then show ?thesis using m y ts by simp
    next
      case False
      with l(2) m(2) have "l_id m \<in> l_id ` set (descendants_of ?ls i)"
        by (auto simp: descendants_of_iff rtrancl_eq_or_trancl)
      then obtain k where k: "k \<in> set (descendants_of ?ls i)" "l_id k = l_id m" by auto
      with m(1) descendants_of_subset wf_stateD(5) [OF wf] have "k = m" by (auto simp: distinct_map dest: inj_onD)
      with k none m(3) False show ?thesis by (auto simp: list_ex_iff)
    qed
  qed
  show "\<forall>x\<in>set (ws_items t). (i, i_locationId x) \<in> (child_rel ?ls)\<^sup>* \<longrightarrow> i_archived x"
  proof (intro ballI impI)
    fix z assume z: "z \<in> set (ws_items t)" "(i, i_locationId z) \<in> (child_rel ?ls)\<^sup>*"
    have place: "place_ok ?ls z" using wf_stateD(2) [OF wf] z(1) items by (simp add: items_ok_def)
    show "i_archived z"
    proof (cases "i_locationId z = i")
      case True
      then show ?thesis using empty z(1) items by (auto simp: list_ex_iff)
    next
      case False
      with z(2) have "i_locationId z \<in> l_id ` set (descendants_of ?ls i)"
        by (auto simp: descendants_of_iff rtrancl_eq_or_trancl)
      then obtain k where k: "k \<in> set (descendants_of ?ls i)" "l_id k = i_locationId z" by auto
      then have "l_archived k" using none by (auto simp: list_ex_iff)
      moreover have "k \<in> set ?ls" using k(1) descendants_of_subset by blast
      ultimately show ?thesis using place k(2) by (auto simp: place_ok_def)
    qed
  qed
  show "ws_items t = ws_items s" by (rule items)
qed

end
