(* ===== verification/Spec2Isabelle.thy ===== *)
theory Spec2Isabelle
  imports Bulk_Edit Empty_Names Device_Properties Client_Properties Server_Properties Planner_Properties Sample_History Snapshot_Sound Command_Frame Ancestors
begin

text \<open>
  Stowplan keeps an inventory of rooms, containers and items as one snapshot per workspace.
  Devices edit a local replica by commands, queue the commands and send them to a
  server, which applies them to the stored snapshot by compare-and-swap.  This development
  models the domain layer (\<open>src/domain\<close>), the synchronisation service and its stores
  (\<open>src/server\<close>, \<open>src/adapters\<close>) and the local replica of a device (\<open>src/client\<close>), and proves
  what makes them correct together.

  \<^bold>\<open>The parts and where they are modelled.\<close>
  \<^item> Language: \<open>Prelude\<close> (results of operations that may throw, list and string operations),
    \<open>JsNumber\<close> and \<open>Js_Arith\<close> (doubles as exact rationals with NaN, infinities and negative zero;
    every operation rounds to the nearest double), \<open>Json\<close> and \<open>Json_Text\<close> (values, key equality
    and the text of \<open>JSON.stringify\<close> with its size in bytes).
  \<^item> Data: \<open>Model_Types\<close>, \<open>Errors\<close>, \<open>State_Json\<close> (\<open>types.ts\<close>, \<open>errors.ts\<close>); each record has a
    reader and a writer of its JSON form, joined by the locale \<open>codec\<close>, and each union of strings
    an instance of the locale \<open>string_union\<close>.
  \<^item> Commands (\<open>commands.ts\<close>): \<open>Patches\<close> (field patches), \<open>Hierarchy\<close> and \<open>Plan_Selection\<close>,
    \<open>Validation\<close>, \<open>Captures\<close>, \<open>Item_Moves\<close>, the handlers of \<open>normalPatches\<close> in
    \<open>Commands_Location\<close>, \<open>Commands_Item\<close>, \<open>Commands_Plan\<close>, undo and redo in \<open>History\<close>, and
    \<open>applyCommand\<close> itself in \<open>Apply_Command\<close>.  The state is the record \<open>wstate\<close>; a command
    is a function from a state to a result, so a throw leaves the state alone.
  \<^item> Import: \<open>Snapshot\<close> (\<open>validateSnapshot\<close>), \<open>Migration\<close> (\<open>normalizeWorkspaceState\<close> and the
    readers of backups).
  \<^item> History limits and quotas: \<open>History_Retention\<close>, \<open>Quotas\<close>.
  \<^item> Devices: \<open>Expectations\<close>, \<open>Factories\<close>, \<open>Location_Code\<close>, \<open>Readiness\<close>, \<open>Planner\<close>, \<open>Bulk_Edit\<close>,
    \<open>Csv_Parse\<close> and \<open>Csv_Import\<close> build commands; \<open>Local_Replica\<close> holds the outbox and its reconciliation,
    \<open>Device_Store\<close> the records of IndexedDB with every transaction on them, and
    \<open>Sync_Reconciliation\<close> what an answer of the server does to a replica.
  \<^item> Server: \<open>Workspace_Access\<close> (roles and stored access values), \<open>Sync\<close> (a batch of commands),
    \<open>Snapshot_Store\<close> (the retry loop of \<open>sync-service.ts\<close> as a step function over any store
    that satisfies the locale \<open>snapshot_store\<close>, interpreted by the memory store), \<open>D1_Store\<close> (the
    SQL statements of the stores as functions on tables) and \<open>Authorized_Sync\<close> (the same loop for
    a signed-in account, interleaved with administration).

  \<^bold>\<open>What the lemmas show.\<close>  \<open>Patch_Effects\<close> and \<open>Record_Fields\<close> turn patches on JSON forms into
  updates of typed records, through the locale \<open>keyed_collection\<close>.  \<open>Invariants\<close> defines \<open>wf_state\<close>;
  the theories \<open>Preserve_*\<close>, \<open>Command_Safety\<close> and \<open>History_Facts\<close> show that accepted commands
  keep it, history commands always and the others when the changes of an update have no empty
  property name (C1 to C3; \<open>Empty_Names\<close> shows what such a name can do), and \<open>Snapshot_Facts\<close> and \<open>Snapshot_Sound\<close> that a validated snapshot has it.
  \<open>Preserve_Move\<close> and \<open>Quantities\<close> refine item moves to a specification and show that nothing is
  lost or created.  \<open>Command_Frame\<close> and \<open>Ancestors\<close> state what a command leaves alone and which
  plans it affects.  \<open>Retention_Facts\<close>, \<open>Migration_Facts\<close>, \<open>Migration_Json\<close> and \<open>Sync_Facts\<close>
  carry the properties of the server: interleaved clients behave as whole batches on the current
  snapshot, receipts tell the truth, an old snapshot is migrated whole, and compaction forgets no
  command while the receipts have room and history is left to drop.  \<open>Planner_Facts\<close> carries a
  generated plan out step by step, \<open>Csv_Parse_Facts\<close> and \<open>Csv_Import_Facts\<close> do the same for plans and spreadsheets, \<open>Bulk_Edit\<close>
  for edits of several items, and
  \<open>Sync_Reconciliation\<close> joins device and server: no queued edit is lost, and a replica is the
  server state with the queue applied.  The properties stand here, in \<open>Device_Properties\<close>,
  \<open>Client_Properties\<close>, \<open>Server_Properties\<close> and \<open>Planner_Properties\<close>, each with a witness on the
  small workspaces of the theories \<open>Sample*\<close>.

  \<^bold>\<open>Bounds.\<close>  Loops that follow parent links stop at a location already seen, as in the code, and
  end because the unseen locations decrease; the passes of the planner end because each moves a
  record not yet moved; the binary search of the compaction and the search for a free code
  suffix have measures of their own.  A synchronisation ends within \<open>2 * max + 1\<close> steps of a
  client.  The decimal exponent of a double is searched among 700 values, which
  include those of all doubles (from \<open>10 ^ -324\<close> to \<open>10 ^ 309\<close>).

  \<^bold>\<open>Parameters.\<close>  Random bytes, the clock, the local date, generated identifiers, \<open>Date.parse\<close>
  (\<open>dp\<close>), \<open>localeCompare\<close> (\<open>lc\<close>), the refusal of growth by account quotas and the words of a
  command type are arguments of the definitions that use them.  \<open>2.54 ** 3\<close> is the exact cube,
  rounded.

  \<^bold>\<open>Limits of the model.\<close>  Characters have 8 bits and case mapping covers ASCII; properties
  keep insertion order also for integer-like keys; \<open>String(value)\<close> ignores an object's own
  \<open>toString\<close>.  Texts of messages and display paths of issues are left out; error codes are
  kept.  Where JavaScript reaches inherited properties
  the result is the error \<open>Unmodelled\<close> or \<open>None\<close>, never a made-up value.  The same error stands for a
  patch that would take a record out of its declared shape: the code stores whatever JSON a
  payload or a patch brings, a record with additional or missing properties too, while the
  records of the model have exactly the declared ones; a command with such a payload is
  \<open>Unmodelled\<close>, and the theorems about accepted commands do not speak of it.  Record payloads,
  partial changes, the confirmations to reopen and the archive flag of a command are JSON, with
  the refusals of their types; the other scalars of a command have their declared types.

  The invariant of commands is proved for payloads that were parsed from JSON (\<open>parsed_command\<close>:
  numbers are doubles and no object has a property twice, which \<open>JSON.parse\<close> guarantees) and, as
  a real restriction, for updates whose changes have no empty property name (\<open>named_command\<close>).
  Valid JSON may have such a name, the allow-list of the code lets it pass (C39), and then the
  invariant can fail (\<open>empty_name_breaks_hierarchy\<close>).  For history commands the quantities in the
  history are doubles (\<open>double_history\<close>).  In the interleavings with administration
  (\<open>auth_system\<close>) a step of the administration changes users, memberships and deletion marks, but no
  snapshot; the restoring and purging of snapshots by administrators is not modelled.  The
  transactions of \<open>device_step\<close> take update callbacks that keep the workspace of a replica.

  Parsers start from the value \<open>JSON.parse\<close> returns, and JSON columns of the database read back
  as the state.
  The authorisation basis of an envelope is a field of its outbox entry, since commands never
  read it.  A transaction of IndexedDB is one function on the records of the device; abort
  signals are left out.

  \<^bold>\<open>Not modelled.\<close>  Accounts, authentication, governance and administration (\<open>auth.ts\<close>,
  \<open>account-governance.ts\<close>, \<open>admin.ts\<close>, \<open>workspace-access.ts\<close> of the server), whose behaviour is that of
  SQL statements and identity services outside the source; URL routing, which rests on the
  \<open>URL\<close> class; the React client with its live collaboration, the pages, the demo data and the scripts.
\<close>

section \<open>Commands keep the invariant\<close>

text \<open>
  C1: every accepted command other than undo and redo, whose payload was parsed from JSON and
  whose changes to a location or to items have no property with an empty name, turns a
  well-formed workspace into a well-formed workspace: distinct identifiers, an acyclic hierarchy
  with live parents, unique active codes, positive quantities and versions, items in live
  places, spaces recorded as empty that are empty, and at most one active plan.  That the
  payload was parsed (\<open>parsed_command\<close>) says that its numbers are doubles and that no object has
  a property twice, which is true of every value of \<open>JSON.parse\<close>.  The condition on names
  (\<open>named_command\<close>) is a restriction: \<open>empty_name_breaks_hierarchy\<close> shows an accepted change with
  an empty name that makes a location its own parent.
\<close>

theorem commands_preserve_invariant:
  assumes "apply_command dp s e = Inr r" and "wf_state s"
    and "\<not> is_history_command (e_command e)" and "parsed_command (e_command e)" and "named_command (e_command e)"
  shows "wf_state (cr_state r)"
  using apply_command_preserves [OF assms(1) _ assms(2,4,5)] assms(3) by simp

theorem commands_preserve_invariant_witness:
  "\<exists>r. apply_command (\<lambda>_. True) sample_state move_jam = Inr r \<and> wf_state (cr_state r)"
proof -
  obtain r where r: "apply_command (\<lambda>_. True) sample_state move_jam = Inr r" using sample_accepted by blast
  have "wf_state (cr_state r)"
    by (rule commands_preserve_invariant [OF r sample_wf]) (simp_all add: sample_envelope_def on_grid_of_int [of 2, simplified] max_double_def)
  with r show ?thesis by blast
qed

text \<open>
  C2: so does every run of such commands: no sequence of accepted \<open>ordinary\<close> commands (neither undo
  nor redo, parsed from JSON, without an empty property name in the changes of an update),
  whatever devices they come from, leads out of the well-formed workspaces.
\<close>

theorem runs_preserve_invariant:
  assumes "run dp s es t" and "wf_state s" and "\<forall>e\<in>set es. ordinary e"
  shows "wf_state t"
  using run_preserves assms by blast

theorem runs_preserve_invariant_witness:
  "\<exists>t. run (\<lambda>_. True) sample_state [move_jam] t \<and> wf_state t"
proof -
  obtain r where "apply_command (\<lambda>_. True) sample_state move_jam = Inr r" using sample_accepted by blast
  then have run: "run (\<lambda>_. True) sample_state [move_jam] (cr_state r)" by (auto simp: run_simps)
  have "wf_state (cr_state r)"
    by (rule runs_preserve_invariant [OF run sample_wf]) (simp add: ordinary_def sample_envelope_def on_grid_of_int [of 2, simplified] max_double_def)
  with run show ?thesis by blast
qed

text \<open>
  C3: undo, redo and their batch forms keep the invariant too, when the quantities recorded in
  the history are doubles: the verdict of the snapshot validation on the outcome is enough.
\<close>

theorem history_preserves_invariant:
  assumes "apply_command dp s e = Inr r" and "is_history_command (e_command e)" and "wf_state s"
    and "double_history (ws_activities s)"
  shows "wf_state (cr_state r)"
  using history_preserves [OF assms] .

theorem history_preserves_invariant_witness:
  "\<exists>r. apply_command (\<lambda>_. True) renamed_state undo_renaming = Inr r \<and> wf_state (cr_state r) \<and>
     w_name (ws_workspace (cr_state r)) = ''H''"
proof -
  obtain r where r: "apply_command (\<lambda>_. True) renamed_state undo_renaming = Inr r" "w_name (ws_workspace (cr_state r)) = ''H''"
    using undo_accepted by blast
  have "wf_state (cr_state r)"
    by (rule history_preserves_invariant [OF r(1)])
      (simp_all add: sample_envelope_def renamed_state_def wf_state_def hierarchy_ok_def items_ok_def empty_ok_def plans_ok_def
        child_rel_def acyclic_def double_history_def renaming_def double_patch_def)
  with r show ?thesis by blast
qed

text \<open>
  C34: a snapshot that the validator of imports finds no error in is well formed, provided its
  quantities are doubles.
\<close>

theorem validated_snapshot_is_well_formed:
  assumes "validate_snapshot (json_of_state s) = Some cs" and "\<forall>c\<in>set cs. \<not> is_error c"
    and "\<forall>x\<in>set (ws_items s). num_ok (i_quantity x)"
  shows "wf_state s"
  using validate_sound [OF assms(1) _ assms(3)] assms(2) unfolding reports_def by blast

theorem validated_snapshot_is_well_formed_witness: "wf_state renamed_state"
  by (rule validated_snapshot_is_well_formed [OF renamed_issues]) (simp_all add: renamed_state_def)

section \<open>Moving items\<close>

text \<open>
  C21: the patches of a move implement its specification \<open>moved_items\<close>: applied to the state,
  they merge the quantity into an interchangeable record at the destination, move the record
  as a whole, or split a new record off, and they change nothing else.
\<close>

theorem move_refines_specification:
  assumes "move_item_patches s x d q e ts = Inr ps" and "x \<in> set (ws_items s)" and "wf_state s"
  shows "apply_patches s ps = Inr (s\<lparr>ws_items := moved_items s x d q e ts\<rparr>)"
  using move_implements [OF assms(1,2)] wf_stateD(6) [OF assms(3)] by (simp add: apply_item_patches)

theorem move_refines_specification_witness:
  "apply_patches sample_state jam_patches =
     Inr (sample_state\<lparr>ws_items := moved_items sample_state jam ''right'' (Fin 2) ''c1'' ''t1''\<rparr>)"
  by (rule move_refines_specification [OF sample_move _ sample_wf]) simp

text \<open>
  C22: a move neither creates nor loses anything: when all quantities are integers up to
  \<open>2 ^ 52\<close>, the total held by records interchangeable with any given one is unchanged,
  whether the record is moved, split or merged.
\<close>

theorem moves_conserve_quantities:
  assumes "move_item_patches s x d q e ts = Inr ps" and "apply_patches s ps = Inr t"
    and "x \<in> set (ws_items s)" and "wf_state s"
    and "\<forall>y\<in>set (ws_items s). countable (i_quantity y)" and "countable q"
  shows "total_held z (ws_items t) = total_held z (ws_items s)"
proof -
  have dist: "distinct (map i_id (ws_items s))" by (rule wf_stateD(6) [OF assms(4)])
  have "ws_items t = moved_items s x d q e ts"
    using move_implements [OF assms(1,3) dist] assms(2) by (auto simp: apply_item_patches)
  then show ?thesis using moved_items_total [OF assms(3) dist assms(5,6)] by simp
qed

theorem moves_conserve_quantities_witness:
  "\<exists>t. apply_patches sample_state jam_patches = Inr t \<and>
       total_held jam (ws_items t) = total_held jam (ws_items sample_state)"
proof -
  have "countable (Fin 5)" "countable (Fin 2)"
    unfolding countable_def by (rule exI [of _ 5], simp, rule exI [of _ 2], simp)
  then show ?thesis
    using moves_conserve_quantities [OF sample_move jam_patches_apply _ sample_wf, of jam] jam_patches_apply
    by simp
qed

text \<open>
  The comparison that decides whether a moved item merges into one already at the
  destination is an equivalence relation on items.
\<close>

theorem equivalent_equivalence: "equivp equivalent"
  using equivalent_refl equivalent_sym equivalent_trans
  by (intro equivpI reflpI sympI transpI) blast+

section \<open>Structure of the workspace\<close>

text \<open>
  C23: \<open>descendantsOf\<close> returns every location that lies below the given one, at any depth, and
  nothing else, each of them once, also on a hierarchy that contains a cycle.
\<close>

theorem descendants_exact:
  "l_id ` set (descendants_of ls i) = {x. (i, x) \<in> (child_rel ls)\<^sup>+ \<and> x \<noteq> i} \<and>
   distinct (map l_id (descendants_of ls i)) \<and> set (descendants_of ls i) \<subseteq> set ls"
  using descendants_of_iff [of _ ls i] distinct_descendants descendants_of_subset by blast

section \<open>The frame of a command\<close>

text \<open>
  An accepted command that is not a history command appends exactly one activity, the one
  it returns, under the command's identifier, and leaves the audit log, the receipts, the
  schema version and the identity of the workspace alone.
\<close>

theorem command_appends_activity:
  assumes "apply_command dp s e = Inr r" and "\<not> is_history_command (e_command e)"
  shows "\<exists>a. cr_activity r = Some a \<and> ws_activities (cr_state r) = ws_activities s @ [a] \<and>
    a_commandId a = e_id e \<and> a_status a = Applied \<and> a_timestamp a = e_timestamp e \<and>
    ws_audit (cr_state r) = ws_audit s \<and> ws_commandReceipts (cr_state r) = ws_commandReceipts s \<and>
    ws_schemaVersion (cr_state r) = ws_schemaVersion s \<and>
    w_id (ws_workspace (cr_state r)) = e_workspaceId e"
  using accepted_normal [OF assms] apply_command_accepted(2) [OF assms(1)] by (metis (no_types))

theorem command_appends_activity_witness:
  "\<exists>r. apply_command (\<lambda>_. True) sample_state move_jam = Inr r \<and> length (ws_activities (cr_state r)) = 1"
proof -
  obtain r where r: "apply_command (\<lambda>_. True) sample_state move_jam = Inr r" using sample_accepted by blast
  have "\<not> is_history_command (e_command move_jam)" by (simp add: sample_envelope_def)
  from command_appends_activity [OF r this] r show ?thesis by (auto simp: sample_state_def)
qed

text \<open>
  C24: every accepted command raises the revision by exactly one, the revision stays a safe
  integer, and a command based on a revision the workspace has not reached is never accepted.
\<close>

theorem revision_advances:
  assumes "apply_command dp s e = Inr r"
  shows "num_val (w_revision (ws_workspace (cr_state r))) = num_val (w_revision (ws_workspace s)) + 1 \<and>
    is_safe_integer (w_revision (ws_workspace (cr_state r))) \<and>
    \<not> js_less (w_revision (ws_workspace s)) (e_baseRevision e)"
  using apply_command_revision [OF assms] check_revision_next [OF apply_command_accepted(3) [OF assms]]
  by (metis normalize_envelope_base)

theorem revision_advances_witness:
  "\<exists>r. apply_command (\<lambda>_. True) sample_state move_jam = Inr r \<and>
    num_val (w_revision (ws_workspace (cr_state r))) = 8"
proof -
  obtain r where r: "apply_command (\<lambda>_. True) sample_state move_jam = Inr r" using sample_accepted by blast
  from revision_advances [OF r] r show ?thesis by auto
qed

text \<open>
  C29: a command one of whose expectations does not hold in the state is never accepted, and
  where the checks before the expectations pass, the error is a conflict that lists exactly
  the expectations that do not hold, in their order.
\<close>

theorem stale_expectations_conflict:
  assumes "validate_envelope dp (normalize_envelope e) = Inr ()"
    and "e_workspaceId e = w_id (ws_workspace s)" and "check_revision s (normalize_envelope e) = Inr ()"
    and "expectation_conflicts s (e_id e) (map normalize_expectation (e_expectations e)) = Inr cs"
    and "x \<in> set (e_expectations e)" and "\<not> met s (normalize_expectation x)"
  shows "apply_command dp s e = Inl (ConflictError cs) \<and>
    map (\<lambda>c. (sc_target c, sc_id c, sc_field c)) cs =
      map (\<lambda>y. (fe_target y, fe_id y, field_label (fe_path y)))
        (filter (\<lambda>y. \<not> met s y) (map normalize_expectation (e_expectations e)))"
proof -
  note cs = expectation_conflicts_iff [OF assms(4)]
  have "filter (\<lambda>y. \<not> met s y) (map normalize_expectation (e_expectations e)) \<noteq> []"
    using assms(5,6) by (auto simp: filter_empty_conv)
  then have ne: "cs \<noteq> []" using cs by auto
  have "apply_command dp s e = Inl (ConflictError cs)"
    unfolding apply_command_def Let_def
    using assms(2,4) ne by (simp add: assms(1,3)) (simp add: normalize_envelope_def)
  with cs show ?thesis by simp
qed

theorem stale_expectations_conflict_witness:
  "\<exists>cs. apply_command (\<lambda>_. True) sample_state stale_move = Inl (ConflictError cs) \<and>
    map sc_field cs = [''quantity'']"
proof -
  have "expectation_conflicts sample_state ''c1'' (map normalize_expectation (e_expectations stale_move))
      = Inr [stale_conflict]"
    by (simp add: stale_move_def stale_quantity_def sample_envelope_def normalize_expectation_def sample_reads expectation_matches_def
        equal_opt_def stale_conflict_def field_label_def)
  then show ?thesis
    using stale_expectations_conflict [of "\<lambda>_. True" stale_move sample_state "[stale_conflict]" stale_quantity]
      sample_checks
    by (simp add: stale_move_def stale_quantity_def sample_envelope_def normalize_expectation_def met_def sample_reads
        expectation_matches_def equal_opt_def stale_conflict_def)
qed

section \<open>What single commands do\<close>

text \<open>
  C30: a deletion removes the reviewed subtree and nothing else: the locations from which the
  deleted one is reachable by parent links stay, so do the items outside, and the command is
  accepted only when the reviewed identifiers are exactly those of the nested locations.
\<close>

theorem deletion_removes_subtree:
  assumes "location_delete s i rl ri = Inr c" and "apply_patches s (ch_patches c) = Inr t" and "wf_state s"
  shows "ws_locations t = filter (\<lambda>l. (i, l_id l) \<notin> (child_rel (ws_locations s))\<^sup>*) (ws_locations s) \<and>
    ws_items t = filter (\<lambda>x. (i, i_locationId x) \<notin> (child_rel (ws_locations s))\<^sup>*) (ws_items s) \<and>
    set rl = {j. (i, j) \<in> (child_rel (ws_locations s))\<^sup>+ \<and> j \<noteq> i}"
proof -
  have "set rl = set (map l_id (descendants_of (ws_locations s) i))"
    using assms(1) by (rule location_delete_accepted) (metis sort_eq_imp_set)
  then show ?thesis
    using location_delete_effect [OF assms] by (simp add: subtree_rtrancl descendants_of_iff set_eq_iff)
qed

theorem deletion_removes_subtree_witness:
  "\<exists>c t. location_delete sample_state ''right'' [] [''jam2''] = Inr c \<and>
     apply_patches sample_state (ch_patches c) = Inr t \<and> ''right'' \<notin> l_id ` set (ws_locations t)"
proof -
  obtain c t where c: "location_delete sample_state ''right'' [] [''jam2''] = Inr c"
    and t: "apply_patches sample_state (ch_patches c) = Inr t" using sample_delete by blast
  from deletion_removes_subtree [OF this sample_wf] c t show ?thesis by force
qed

text \<open>
  Emptying a space removes its live items, whose identifiers the command had to list,
  marks it known empty, and is refused while a live space is nested in it; no other record of
  a location or an item changes.
\<close>

theorem capture_empty_empties:
  assumes "capture_empty s ts i reviewed = Inr c" and "apply_patches s (ch_patches c) = Inr t" and "wf_state s"
  shows "ws_items t = filter (\<lambda>x. i_locationId x \<noteq> i \<or> i_archived x) (ws_items s) \<and>
    ws_locations t = map (\<lambda>l. if l_id l = i then l\<lparr>l_captureStatus := Known_empty, l_updatedAt := ts\<rparr> else l)
      (ws_locations s) \<and> holds_nothing (ws_locations t) (ws_items t) i"
  using capture_empty_effect [OF assms] wf_stateD(5) [OF assms(3)]
  by (auto simp: set_location_map holds_nothing_def)

theorem capture_empty_empties_witness:
  "\<exists>c t. capture_empty sample_state ''t1'' ''right'' [''jam2''] = Inr c \<and>
     apply_patches sample_state (ch_patches c) = Inr t \<and> ws_items t = [jam]"
proof -
  obtain c t where c: "capture_empty sample_state ''t1'' ''right'' [''jam2''] = Inr c"
    and t: "apply_patches sample_state (ch_patches c) = Inr t" using sample_empty by blast
  from capture_empty_empties [OF this sample_wf] c t show ?thesis by simp
qed

text \<open>
  After an accepted item move neither the space it left nor the space it entered is
  recorded as counted or known empty, whether the command reopened them or not.
\<close>

theorem moved_spaces_reopen:
  assumes "item_move s e ts i d q reopen = Inr c" and "apply_patches s (ch_patches c) = Inr t"
    and "wf_state s" and "find_item s i = Some x"
    and "l \<in> set (ws_locations t)" and "l_id l = i_locationId x \<or> l_id l = d" and "\<not> l_archived l"
  shows "\<not> capture_complete (l_captureStatus l)"
  using item_move_ends_open assms by blast

theorem moved_spaces_reopen_witness:
  "\<exists>c t. item_move sample_state ''c1'' ''t1'' ''jam'' ''right'' (Fin 2) None = Inr c \<and>
     apply_patches sample_state (ch_patches c) = Inr t \<and>
     \<not> capture_complete (l_captureStatus (sample_location ''right'' ''X'' Box (Some ''room'')))"
proof -
  obtain c where c: "item_move sample_state ''c1'' ''t1'' ''jam'' ''right'' (Fin 2) None = Inr c"
    and p: "ch_patches c = jam_patches"
    using sample_item_move by (simp add: mk_change_def)
  note t = jam_patches_apply [folded p]
  have "sample_location ''right'' ''X'' Box (Some ''room'')
      \<in> set (ws_locations (sample_state\<lparr>ws_items := moved_items sample_state jam ''right'' (Fin 2) ''c1'' ''t1''\<rparr>))"
    by (simp add: sample_locations_def)
  from moved_spaces_reopen [OF c t sample_wf sample_find(4) this] c t show ?thesis by simp
qed

section \<open>Plans\<close>

text \<open>
  C33: the steps of a plan are completed in order: an accepted completion concerns an active
  plan and an unfinished step before which every step is finished.  It records the timestamp
  on that step, completes the plan exactly when no unfinished step is left, and changes no
  other plan.
\<close>

theorem plan_steps_in_order:
  assumes "plan_step_complete s e ts i step_id = Inr c" and "apply_patches s (ch_patches c) = Inr t"
  shows "\<exists>p st. find_plan s i = Some p \<and> p_status p = Active \<and>
    List.find (\<lambda>c. s_id c = step_id) (p_steps p) = Some st \<and> \<not> completed st \<and>
    list_all completed (takeWhile (\<lambda>c. s_id c \<noteq> s_id st) (p_steps p)) \<and>
    (let steps = map_first (\<lambda>c. s_id c = s_id st) (\<lambda>c. c\<lparr>s_completedAt := Some ts\<rparr>) (p_steps p);
         status = (if list_all completed steps then Completed else Active)
     in ws_plans t = map_first (\<lambda>q. p_id q = i) (\<lambda>q. q\<lparr>p_steps := steps, p_status := status\<rparr>) (ws_plans s))"
  using assms
  by (rule plan_step_complete_effect)
    (auto simp: set_plan_def complete_step_def completion_status_def Let_def intro!: exI)

theorem plan_steps_in_order_witness:
  "\<exists>c t. plan_step_complete plan_state ''c1'' ''t1'' ''p1'' ''s1'' = Inr c \<and>
     apply_patches plan_state (ch_patches c) = Inr t \<and> map p_status (ws_plans t) = [Completed]"
proof -
  obtain c t where c: "plan_step_complete plan_state ''c1'' ''t1'' ''p1'' ''s1'' = Inr c"
    and t: "apply_patches plan_state (ch_patches c) = Inr t" using plan_step_accepted by blast
  from plan_steps_in_order [OF this] c t show ?thesis
    by (auto simp: sample_step_def completed_def Let_def)
qed

text \<open>
  The invalidation patches of a change discard exactly the active plans it affects, and
  alter no plan otherwise; a finished step and a plan that is not active never count.
\<close>

theorem invalidation_discards_affected:
  assumes "wf_state s"
  shows "apply_patches s (plan_invalidation_patches s items locs) =
    Inr (s\<lparr>ws_plans := map (\<lambda>p. if plan_affected s items locs p then p\<lparr>p_status := Discarded\<rparr> else p) (ws_plans s)\<rparr>)"
  using invalidation_map [OF wf_stateD(7) [OF assms]] by simp

theorem invalidation_discards_affected_witness:
  "\<exists>t. apply_patches plan_state (plan_invalidation_patches plan_state [''jam''] []) = Inr t \<and>
    map p_status (ws_plans t) = [Discarded]"
  using invalidation_discards_affected [OF plan_wf, of "[''jam'']" "[]"]
  by (simp add: plan_affected_def step_affected_def sample_step_def affected_locations_def)

text \<open>
  On a well-formed hierarchy the walk towards the root visits exactly the locations that
  contain the given one, itself included, each once; so a change deep inside a space affects
  the plans of every space around it.
\<close>

theorem ancestors_exact:
  assumes "wf_state s" and "i \<in> l_id ` set (ws_locations s)"
  shows "set (ancestors_of (ws_locations s) i) = {j. (j, i) \<in> (child_rel (ws_locations s))\<^sup>*} \<and>
    distinct (ancestors_of (ws_locations s) i)"
  using ancestors_of_exact [OF wf_stateD(1) [OF assms(1)] assms(2)] by simp

theorem ancestors_exact_witness: "''room'' \<in> set (ancestors_of (ws_locations sample_state) ''left'')"
proof -
  have "''left'' \<in> l_id ` set (ws_locations sample_state)" by (simp add: sample_locations_def)
  moreover have "(''room'', ''left'') \<in> child_rel (ws_locations sample_state)"
    by (auto simp: child_rel_def sample_locations_def intro: exI [of _ "sample_location ''left'' ''L'' Box (Some ''room'')"])
  ultimately show ?thesis using ancestors_exact [OF sample_wf] by auto
qed

section \<open>Records, paths and partial changes\<close>

text \<open>
  Every record survives the way to JSON and back, and only the JSON form of a record, up
  to the order of its properties, is read as that record.
\<close>

theorem records_round_trip:
  "item_of (json_of_item x) = Some x \<and> location_of (json_of_location l) = Some l \<and>
   plan_of (json_of_plan p) = Some p \<and> workspace_of (json_of_workspace w) = Some w \<and>
   (item_of j = Some x \<longrightarrow> equal j (json_of_item x)) \<and>
   (location_of j = Some l \<longrightarrow> equal j (json_of_location l)) \<and>
   (plan_of j = Some p \<longrightarrow> equal j (json_of_plan p))"
  using item_codec.dec_enc location_codec.dec_enc plan_codec.dec_enc workspace_codec.dec_enc
    item_codec.dec_sound location_codec.dec_sound plan_codec.dec_sound by blast

theorem records_round_trip_witness: "\<exists>j. item_of j = Some jam \<and> equal j (json_of_item jam)"
  using records_round_trip [of jam undefined undefined undefined "json_of_item jam"] by blast

text \<open>
  A value written at a path is what the path reads afterwards, also through objects the
  write had to create, and no property outside the first key of the path changes.
\<close>

theorem read_after_write:
  assumes "write_path m path (Some v) = Inr j"
  shows "read_path path (Some j) = Inr (Some v) \<and>
    (\<forall>k. k \<noteq> head_of path \<longrightarrow> jget k j = map_of m k)"
  using assms write_read_path by blast

theorem read_after_write_witness:
  "read_path ''constraints.foodOnly''
     (Some (JObj [(''name'', JStr ''Jam''), (''constraints'', JObj [(''foodOnly'', JBool True)])])) = Inr (Some (JBool True))"
proof -
  have "write_path [(''name'', JStr ''Jam'')] ''constraints.foodOnly'' (Some (JBool True)) =
    Inr (JObj [(''name'', JStr ''Jam''), (''constraints'', JObj [(''foodOnly'', JBool True)])])"
    by (simp add: write_path_def path_keys_def unsafe_path_keys_def)
  from read_after_write [OF this] show ?thesis by simp
qed

text \<open>
  C39: what the allow-list of a partial change really checks, and its hole.  An object is accepted
  exactly when every name before the first empty one is listed, without a dot and not unsafe;
  whatever follows an empty name passes unchecked, identifiers and unsafe names included,
  because the refused key that is found is tested for truth.  (No list of the program holds the
  empty name.)
\<close>

theorem allow_list_hole:
  assumes "[] \<notin> set allowed"
  shows "allowed_changes allowed (Some (JObj m)) =
    (if list_all (\<lambda>k. k \<in> set allowed \<and> CHR ''.'' \<notin> set k \<and> k \<notin> set unsafe_path_keys)
          (takeWhile (\<lambda>k. k \<noteq> []) (map fst m))
     then Inr m else throw INVALID_CHANGES)"
  using allowed_changes_exact [OF assms] by (simp add: refused_key_def)

theorem allow_list_hole_witness:
  "allowed_changes item_change_keys (Some (JObj [([], JNull), (''id'', JStr ''other'')])) =
     Inr [([], JNull), (''id'', JStr ''other'')]"
  using allow_list_hole [of item_change_keys "[([], JNull), (''id'', JStr ''other'')]"] by (simp add: item_change_keys_def)

text \<open>
  C40: archiving is refused while anything live is inside: after an accepted archiving with a
  timestamp that is not empty the location and every location below it, at any depth, is
  archived, none of them holds a live item, and no item was changed.
\<close>

theorem archived_subtree_is_dead:
  assumes "location_archive s ts i (Some (JBool True)) = Inr c" and "apply_patches s (ch_patches c) = Inr t"
    and "wf_state s" and "ts \<noteq> []"
  shows "(\<forall>l\<in>set (ws_locations t). (i, l_id l) \<in> (child_rel (ws_locations s))\<^sup>* \<longrightarrow> l_archived l) \<and>
    (\<forall>x\<in>set (ws_items t). (i, i_locationId x) \<in> (child_rel (ws_locations s))\<^sup>* \<longrightarrow> i_archived x) \<and>
    ws_items t = ws_items s"
  using archived_subtree [OF assms] by blast

theorem archived_subtree_is_dead_witness:
  "\<exists>c t. location_archive bare_state ''t1'' ''right'' (Some (JBool True)) = Inr c \<and>
     apply_patches bare_state (ch_patches c) = Inr t \<and> ws_items t = []"
proof -
  obtain c t where c: "location_archive bare_state ''t1'' ''right'' (Some (JBool True)) = Inr c"
    and t: "apply_patches bare_state (ch_patches c) = Inr t" using bare_archive by blast
  from archived_subtree_is_dead [OF this bare_wf] c t show ?thesis by auto
qed

end
